(* ===== verification/Prelude.thy ===== *)
theory Prelude
  imports Complex_Main
begin

text \<open>
  Shared vocabulary of the development: the exception values of the Python code and
  the result type that carries them, sequencing of fallible calls, checked indexing,
  and the generic lemmas on floor and ceiling division that the exchange arithmetic
  and the metrics both rely on.
\<close>

section \<open>Exceptions as values\<close>

text \<open>
  One constructor per exception class the code raises; the argument is the message
  (for an interpolated message, its constant part). \<open>FuelExhausted\<close> is no Python exception:
  it marks the bound of a modelled loop, which its users prove unreachable. The
  arguments of \<open>VerificationFailure\<close> are its message, path (as code points), stream and sequence
  number.
\<close>

datatype error =
    ValueError string
  | ArithmeticError string
  | UndefinedMetricError string
  | ConfigError string
  | PackError string
  | ObservationError string
  | EngineError string
  | CanonicalizationError string
  | ChainVerificationError string int string
  | JSONDecodeError
  | RecursionError
  | UnicodeDecodeError
  | FuelExhausted
  | IndexError
  | ZeroDivisionError
  | KeyError string
  | TypeError string
  | ReportError string
  | PackValidationError string
  | BulkURLRejected string
  | RecorderError string
  | RecorderValidationError string
  | RedactionError string
  | DecisionProjectionError string
  | OSError string
  | VerificationFailure string "nat list option" "string option" "int option"

type_synonym 'a result = "error + 'a"

definition and_then :: "'e + 'a \<Rightarrow> ('a \<Rightarrow> 'e + 'b) \<Rightarrow> 'e + 'b" where
  "and_then m f = (case m of Inl e \<Rightarrow> Inl e | Inr x \<Rightarrow> f x)"

lemma and_then_Inr [simp]: "and_then (Inr x) f = f x"
  by (simp add: and_then_def)

lemma and_then_Inl [simp]: "and_then (Inl e) f = Inl e"
  by (simp add: and_then_def)

lemma and_then_eq_Inr: "and_then m f = Inr y \<longleftrightarrow> (\<exists>x. m = Inr x \<and> f x = Inr y)"
  by (cases m) simp_all

lemma and_then_eq_Inl:
  "and_then m f = Inl e \<longleftrightarrow> m = Inl e \<or> (\<exists>x. m = Inr x \<and> f x = Inl e)"
  by (cases m) simp_all

lemma and_then_cong [fundef_cong]:
  "m = m' \<Longrightarrow> (\<And>x. m' = Inr x \<Longrightarrow> f x = f' x) \<Longrightarrow> and_then m f = and_then m' f'"
  by (cases m') simp_all

lemma and_then_InrE [elim?]:
  assumes "and_then m f = Inr y"
  obtains x where "m = Inr x" and "f x = Inr y"
  using assms by (auto simp: and_then_eq_Inr)

text \<open>A loop that calls a fallible function on each element and collects the results.\<close>

fun traverse :: "('a \<Rightarrow> 'e + 'b) \<Rightarrow> 'a list \<Rightarrow> 'e + 'b list" where
  "traverse f [] = Inr []"
| "traverse f (x # xs) =
     and_then (f x) (\<lambda>y. and_then (traverse f xs) (\<lambda>ys. Inr (y # ys)))"

lemma traverse_length: "traverse f xs = Inr ys \<Longrightarrow> length ys = length xs"
  by (induction xs arbitrary: ys) (auto simp: and_then_eq_Inr)

lemma traverse_nth:
  "traverse f xs = Inr ys \<Longrightarrow> i < length xs \<Longrightarrow> f (xs ! i) = Inr (ys ! i)"
proof (induction xs arbitrary: ys i)
  case Nil
  then show ?case by simp
next
  case (Cons x xs)
  then show ?case by (cases i) (auto simp: and_then_eq_Inr)
qed

lemma traverse_set:
  "traverse f xs = Inr ys \<Longrightarrow> y \<in> set ys \<Longrightarrow> \<exists>x\<in>set xs. f x = Inr y"
  by (induction xs arbitrary: ys) (auto simp: and_then_eq_Inr)

text \<open>A loop that threads a state through a fallible body.\<close>

fun fold_result :: "('a \<Rightarrow> 's \<Rightarrow> 'e + 's) \<Rightarrow> 'a list \<Rightarrow> 's \<Rightarrow> 'e + 's" where
  "fold_result f [] s = Inr s"
| "fold_result f (x # xs) s = and_then (f x s) (fold_result f xs)"

lemma fold_result_append:
  "fold_result f (xs @ ys) s = and_then (fold_result f xs s) (fold_result f ys)"
  by (induction xs arbitrary: s) (auto simp: and_then_def split: sum.splits)

text \<open>An invariant of the body is an invariant of the loop.\<close>

lemma fold_result_invariant:
  assumes "fold_result f xs s = Inr t" and "P s"
    and "\<And>x s t. x \<in> set xs \<Longrightarrow> P s \<Longrightarrow> f x s = Inr t \<Longrightarrow> P t"
  shows "P t"
  using assms
proof (induction xs arbitrary: s)
  case Nil
  then show ?case by simp
next
  case (Cons x xs)
  from Cons.prems(1) obtain u where u: "f x s = Inr u" "fold_result f xs u = Inr t"
    by (auto simp: and_then_eq_Inr)
  from Cons.prems(2,3) u(1) have "P u" by auto
  with u(2) Cons.prems(3) show ?case by (intro Cons.IH[of u]) auto
qed

text \<open>Subscription of a sequence by a non-negative index.\<close>

definition py_nth :: "'a list \<Rightarrow> nat \<Rightarrow> 'a result" where
  "py_nth xs i = (if i < length xs then Inr (xs ! i) else Inl IndexError)"

lemma py_nth_eq_Inr: "py_nth xs i = Inr x \<longleftrightarrow> i < length xs \<and> xs ! i = x"
  by (auto simp: py_nth_def)

lemma py_nth_Cons [simp]:
  "py_nth (x # xs) 0 = Inr x" "py_nth (x # xs) (Suc i) = py_nth xs i"
  by (simp_all add: py_nth_def)

section \<open>Rounding\<close>

named_theorems rounding \<open>characterisations of the rounded results by inequalities\<close>

text \<open>
  Python's \<open>//\<close> on integers is \<open>div\<close>; the ceiling is written with two negations,
  as the code does.
\<close>

definition ceil_quot :: "int \<Rightarrow> int \<Rightarrow> int" where
  "ceil_quot a b = - ((- a) div b)"

lemma floor_le_iff [rounding]:
  fixes a b k :: int assumes "0 < b"
  shows "k \<le> a div b \<longleftrightarrow> k * b \<le> a"
proof
  assume "k \<le> a div b"
  with assms have "k * b \<le> (a div b) * b" by simp
  also have "\<dots> \<le> a" using assms by (simp add: minus_mod_eq_div_mult [symmetric])
  finally show "k * b \<le> a" .
next
  assume "k * b \<le> a"
  then have "(k * b) div b \<le> a div b" using assms by (rule zdiv_mono1)
  with assms show "k \<le> a div b" by simp
qed

lemma ceil_le_iff [rounding]: "0 < (b::int) \<Longrightarrow> ceil_quot a b \<le> k \<longleftrightarrow> a \<le> k * b"
  using floor_le_iff[of b "- k" "- a"] unfolding ceil_quot_def by simp linarith

lemma floor_quot_bounds:
  fixes a b :: int assumes "0 < b"
  shows "(a div b) * b \<le> a" and "a < (a div b + 1) * b"
  using floor_le_iff[OF assms, of "a div b" a] floor_le_iff[OF assms, of "a div b + 1" a] by auto

lemma ceil_quot_bounds:
  fixes a b :: int assumes "0 < b"
  shows "a \<le> ceil_quot a b * b" and "(ceil_quot a b - 1) * b < a"
  using ceil_le_iff[OF assms, of a "ceil_quot a b"] ceil_le_iff[OF assms, of a "ceil_quot a b - 1"]
  by auto

lemma ceil_quot_nonneg: "0 < (b::int) \<Longrightarrow> 0 \<le> a \<Longrightarrow> 0 \<le> ceil_quot a b"
  using ceil_le_iff[of b a "-1"] by linarith

lemma ceil_quot_mono: "0 < (b::int) \<Longrightarrow> a \<le> a' \<Longrightarrow> ceil_quot a b \<le> ceil_quot a' b"
  by (simp add: ceil_quot_def zdiv_mono1)

lemma floor_le_ceil_quot: "0 < (b::int) \<Longrightarrow> a div b \<le> ceil_quot a b"
  using floor_quot_bounds(1)[of b a] ceil_quot_bounds(1)[of b a]
  by (metis mult_le_cancel_right_pos order.trans)

end
