(* ===== verification/Exchange_Math.thy ===== *)
theory Exchange_Math
  imports Prelude
begin

text \<open>
  Model of \<open>core/math.py\<close> and \<open>core/models.py\<close>: the exact integer arithmetic of the
  exchange simulator. Every function keeps the argument order, the guards and the
  exception messages of the source; \<open>Fraction\<close> values are rationals.
\<close>

section \<open>Scales and roundings\<close>

type_synonym fraction = rat

definition RATE_SCALE :: int where "RATE_SCALE = 100000000"
definition QTY_SCALE :: int where "QTY_SCALE = 100000000"
definition LEVERAGE_SCALE :: int where "LEVERAGE_SCALE = 10000"
definition COST_MULTIPLIER_SCALE :: int where "COST_MULTIPLIER_SCALE = 10000"

lemmas scale_defs = RATE_SCALE_def QTY_SCALE_def LEVERAGE_SCALE_def COST_MULTIPLIER_SCALE_def

text \<open>Constructing a \<open>Fraction\<close> and integer \<open>//\<close>: both raise on a zero divisor.\<close>

definition py_fraction :: "int \<Rightarrow> int \<Rightarrow> fraction result" where
  "py_fraction a b = (if b = 0 then Inl ZeroDivisionError else Inr (Fract a b))"

definition py_floordiv :: "int \<Rightarrow> int \<Rightarrow> int result" where
  "py_floordiv a b = (if b = 0 then Inl ZeroDivisionError else Inr (a div b))"

definition ceil_div :: "int \<Rightarrow> int \<Rightarrow> int result" where
  "ceil_div dividend divisor =
     (if divisor \<le> 0 then Inl (ValueError ''divisor must be positive'')
      else Inr (- ((- dividend) div divisor)))"

definition floor_fraction :: "fraction \<Rightarrow> int" where
  "floor_fraction v = (case quotient_of v of (numerator, denominator) \<Rightarrow> numerator div denominator)"

definition ceil_fraction :: "fraction \<Rightarrow> int" where
  "ceil_fraction v =
     (case quotient_of v of (numerator, denominator) \<Rightarrow> - ((- numerator) div denominator))"

definition floor_to_step :: "int \<Rightarrow> int \<Rightarrow> int result" where
  "floor_to_step v step =
     (if step \<le> 0 then Inl (ValueError ''step must be positive'')
      else let magnitude = (\<bar>v\<bar> div step) * step
           in Inr (if v \<ge> 0 then magnitude else - magnitude))"

text \<open>
  \<open>math.isqrt\<close> of the standard library: the integer square root, here computed two bits
  at a time.
\<close>

fun isqrt :: "nat \<Rightarrow> nat" where
  "isqrt n =
     (if n = 0 then 0
      else let r = 2 * isqrt (n div 4)
           in if (r + 1) * (r + 1) \<le> n then r + 1 else r)"

declare isqrt.simps [simp del]

definition ceil_sqrt_fraction :: "fraction \<Rightarrow> int result" where
  "ceil_sqrt_fraction v =
     (if v < 0 then Inl (ValueError ''square root input must be non-negative'')
      else case quotient_of v of (numerator, denominator) \<Rightarrow>
        let floor_root = int (isqrt (nat (numerator div denominator)))
        in if floor_root * floor_root * denominator = numerator then Inr floor_root
           else Inr (floor_root + 1))"

definition apply_cost_multiplier :: "int \<Rightarrow> int \<Rightarrow> int \<Rightarrow> int result" where
  "apply_cost_multiplier base_rate multiplier_1e4 multiplier_scale =
     (if base_rate < 0 then Inl (ValueError ''base cost rate must be non-negative'')
      else if multiplier_1e4 \<le> 0 \<or> multiplier_scale \<le> 0
           then Inl (ValueError ''cost multiplier and scale must be positive'')
      else Inr (ceil_fraction (Fract (base_rate * multiplier_1e4) multiplier_scale)))"

section \<open>Sizing\<close>

definition raw_target_quantity_base_1e8 ::
    "int \<Rightarrow> int \<Rightarrow> int \<Rightarrow> int \<Rightarrow> int \<Rightarrow> int \<Rightarrow> int result" where
  "raw_target_quantity_base_1e8 target_lev_1e4 equity_micro ref_px_ticks tick_size_micro
       leverage_scale qty_scale =
     (if equity_micro < 0 then Inl (ValueError ''equity must be non-negative'')
      else if ref_px_ticks \<le> 0 \<or> tick_size_micro \<le> 0
           then Inl (ValueError ''reference price and tick size must be positive'')
      else if leverage_scale \<le> 0 \<or> qty_scale \<le> 0
           then Inl (ValueError ''scales must be positive'')
      else let raw_abs = floor_fraction
                 (Fract (\<bar>target_lev_1e4\<bar> * equity_micro * qty_scale)
                        (leverage_scale * ref_px_ticks * tick_size_micro))
           in Inr (if target_lev_1e4 \<ge> 0 then raw_abs else - raw_abs))"

definition target_quantity_base_1e8 ::
    "int \<Rightarrow> int \<Rightarrow> int \<Rightarrow> int \<Rightarrow> int \<Rightarrow> int \<Rightarrow> int \<Rightarrow> int result" where
  "target_quantity_base_1e8 target_lev_1e4 equity_micro ref_px_ticks tick_size_micro
       qty_step_base_1e8 leverage_scale qty_scale =
     and_then (raw_target_quantity_base_1e8 target_lev_1e4 equity_micro ref_px_ticks
                 tick_size_micro leverage_scale qty_scale)
       (\<lambda>raw. floor_to_step raw qty_step_base_1e8)"

section \<open>Participation-capped fills\<close>

record FillQuantity =
  fq_requested_qty_base_1e8 :: int
  fq_capacity_qty_base_1e8 :: int
  fq_filled_qty_base_1e8 :: int
  fq_cancelled_qty_base_1e8 :: int

text \<open>The constructor with the checks of \<open>__post_init__\<close>.\<close>

definition make_FillQuantity :: "int \<Rightarrow> int \<Rightarrow> int \<Rightarrow> int \<Rightarrow> FillQuantity result" where
  "make_FillQuantity requested capacity filled cancelled =
     (if requested < 0 \<or> capacity < 0 \<or> filled < 0 \<or> cancelled < 0
      then Inl (ValueError ''fill quantities must be non-negative'')
      else if filled > capacity
      then Inl (ValueError ''filled quantity exceeds participation capacity'')
      else if filled + cancelled \<noteq> requested
      then Inl (ValueError ''filled and cancelled quantities must equal requested quantity'')
      else Inr \<lparr>fq_requested_qty_base_1e8 = requested, fq_capacity_qty_base_1e8 = capacity,
                fq_filled_qty_base_1e8 = filled, fq_cancelled_qty_base_1e8 = cancelled\<rparr>)"

definition participation_capacity_base_1e8 :: "int \<Rightarrow> int \<Rightarrow> int \<Rightarrow> int \<Rightarrow> int result" where
  "participation_capacity_base_1e8 bar_volume_base_1e8 participation_cap_1e8
       qty_step_base_1e8 rate_scale =
     (if bar_volume_base_1e8 < 0 then Inl (ValueError ''bar volume must be non-negative'')
      else if \<not> (0 \<le> participation_cap_1e8 \<and> participation_cap_1e8 \<le> rate_scale)
      then Inl (ValueError ''participation cap must be between zero and rate scale'')
      else and_then (py_fraction (bar_volume_base_1e8 * participation_cap_1e8) rate_scale)
        (\<lambda>capacity. let raw_capacity = floor_fraction capacity
           in floor_to_step raw_capacity qty_step_base_1e8))"

definition participation_fill :: "int \<Rightarrow> int \<Rightarrow> int \<Rightarrow> int \<Rightarrow> int \<Rightarrow> FillQuantity result" where
  "participation_fill requested_qty_base_1e8 bar_volume_base_1e8 participation_cap_1e8
       qty_step_base_1e8 rate_scale =
     (if requested_qty_base_1e8 < 0
      then Inl (ValueError ''requested quantity must be non-negative'')
      else and_then (participation_capacity_base_1e8 bar_volume_base_1e8 participation_cap_1e8
                       qty_step_base_1e8 rate_scale)
        (\<lambda>capacity. and_then (floor_to_step (min requested_qty_base_1e8 capacity)
                                 qty_step_base_1e8)
        (\<lambda>filled. make_FillQuantity requested_qty_base_1e8 capacity filled
                      (requested_qty_base_1e8 - filled))))"

section \<open>Fill price\<close>

datatype side = Buy | Sell

definition half_spread_ticks :: "int \<Rightarrow> int \<Rightarrow> int \<Rightarrow> int result" where
  "half_spread_ticks ref_px_ticks half_spread_1e8 rate_scale =
     (if ref_px_ticks \<le> 0 then Inl (ValueError ''reference price must be positive'')
      else if half_spread_1e8 < 0 then Inl (ValueError ''half spread must be non-negative'')
      else and_then (py_fraction (ref_px_ticks * half_spread_1e8) rate_scale)
        (\<lambda>spread. Inr (ceil_fraction spread)))"

definition impact_ticks ::
    "int \<Rightarrow> int \<Rightarrow> int \<Rightarrow> int \<Rightarrow> string \<Rightarrow> int \<Rightarrow> int result" where
  "impact_ticks ref_px_ticks filled_qty_base_1e8 bar_volume_base_1e8 impact_coeff_1e8
       impact_model rate_scale =
     (if ref_px_ticks \<le> 0 then Inl (ValueError ''reference price must be positive'')
      else if filled_qty_base_1e8 < 0 \<or> impact_coeff_1e8 < 0
      then Inl (ValueError ''quantity and impact coefficient must be non-negative'')
      else if filled_qty_base_1e8 = 0 \<or> impact_coeff_1e8 = 0 then Inr 0
      else if bar_volume_base_1e8 \<le> 0
      then Inl (ValueError ''positive fill requires positive bar volume'')
      else if filled_qty_base_1e8 > bar_volume_base_1e8
      then Inl (ValueError ''filled quantity cannot exceed bar volume'')
      else if impact_model = ''linear''
      then and_then (py_fraction (ref_px_ticks * impact_coeff_1e8 * filled_qty_base_1e8)
                       (rate_scale * bar_volume_base_1e8))
             (\<lambda>ticks. Inr (ceil_fraction ticks))
      else if impact_model = ''sqrt''
      then and_then (py_fraction (ref_px_ticks * ref_px_ticks * impact_coeff_1e8 * impact_coeff_1e8
                         * filled_qty_base_1e8)
                       (rate_scale * rate_scale * bar_volume_base_1e8))
             (\<lambda>squared_ticks. ceil_sqrt_fraction squared_ticks)
      else Inl (ValueError ''unknown impact model''))"

definition fill_price_ticks :: "side \<Rightarrow> int \<Rightarrow> int \<Rightarrow> int \<Rightarrow> int result" where
  "fill_price_ticks sd ref_px_ticks spread_ticks modeled_impact_ticks =
     (if ref_px_ticks \<le> 0 then Inl (ValueError ''reference price must be positive'')
      else if spread_ticks < 0 \<or> modeled_impact_ticks < 0
      then Inl (ValueError ''spread and impact must be non-negative'')
      else let adjustment = spread_ticks + modeled_impact_ticks;
               price = (if sd = Buy then ref_px_ticks + adjustment else ref_px_ticks - adjustment)
           in if price \<le> 0
              then Inl (ValueError ''modeled sell fill price must remain positive'')
              else Inr price)"

definition notional_micro :: "int \<Rightarrow> int \<Rightarrow> int \<Rightarrow> int \<Rightarrow> int result" where
  "notional_micro qty_base_1e8 px_ticks tick_size_micro qty_scale =
     (if px_ticks \<le> 0 \<or> tick_size_micro \<le> 0 \<or> qty_scale \<le> 0
      then Inl (ValueError ''price, tick size, and quantity scale must be positive'')
      else Inr (\<bar>qty_base_1e8\<bar> * px_ticks * tick_size_micro div qty_scale))"

definition fee_micro :: "int \<Rightarrow> int \<Rightarrow> int \<Rightarrow> int result" where
  "fee_micro fill_notional_micro fee_rate_1e8 rate_scale =
     (if fill_notional_micro < 0 \<or> fee_rate_1e8 < 0
      then Inl (ValueError ''notional and fee rate must be non-negative'')
      else and_then (py_fraction (fill_notional_micro * fee_rate_1e8) rate_scale)
        (\<lambda>fee. Inr (ceil_fraction fee)))"

definition slippage_1e8 :: "int \<Rightarrow> int \<Rightarrow> int \<Rightarrow> int result" where
  "slippage_1e8 fill_px_ticks ref_px_ticks rate_scale =
     (if fill_px_ticks \<le> 0 \<or> ref_px_ticks \<le> 0
      then Inl (ValueError ''fill and reference prices must be positive'')
      else Inr (floor_fraction (Fract ((fill_px_ticks - ref_px_ticks) * rate_scale) ref_px_ticks)))"

text \<open>The keyword arguments of \<open>calculate_fill\<close>.\<close>

record fill_request =
  fr_side :: side
  fr_requested_qty_base_1e8 :: int
  fr_bar_volume_base_1e8 :: int
  fr_participation_cap_1e8 :: int
  fr_qty_step_base_1e8 :: int
  fr_ref_px_ticks :: int
  fr_tick_size_micro :: int
  fr_half_spread_1e8 :: int
  fr_impact_coeff_1e8 :: int
  fr_impact_model :: string
  fr_taker_fee_rate_1e8 :: int
  fr_cost_multiplier_1e4 :: int
  fr_rate_scale :: int

record FillCalculation =
  fc_side :: side
  fc_quantities :: FillQuantity
  fc_ref_open_px_ticks :: int
  fc_half_spread_ticks :: int
  fc_impact_ticks :: int
  fc_fill_px_ticks :: int
  fc_notional_micro :: int
  fc_reference_notional_micro :: int
  fc_fee_micro :: int
  fc_slippage_1e8 :: int

definition fill_cost_micro :: "FillCalculation \<Rightarrow> int" where
  "fill_cost_micro fc = \<bar>fc_notional_micro fc - fc_reference_notional_micro fc\<bar>"

definition calculate_fill :: "fill_request \<Rightarrow> FillCalculation result" where
  "calculate_fill r =
     and_then (participation_fill (fr_requested_qty_base_1e8 r) (fr_bar_volume_base_1e8 r)
                 (fr_participation_cap_1e8 r) (fr_qty_step_base_1e8 r) (fr_rate_scale r))
       (\<lambda>quantities.
     and_then (apply_cost_multiplier (fr_half_spread_1e8 r) (fr_cost_multiplier_1e4 r)
                 COST_MULTIPLIER_SCALE)
       (\<lambda>scaled_spread.
     and_then (apply_cost_multiplier (fr_impact_coeff_1e8 r) (fr_cost_multiplier_1e4 r)
                 COST_MULTIPLIER_SCALE)
       (\<lambda>scaled_impact.
     and_then (apply_cost_multiplier (fr_taker_fee_rate_1e8 r) (fr_cost_multiplier_1e4 r)
                 COST_MULTIPLIER_SCALE)
       (\<lambda>scaled_fee.
     and_then (half_spread_ticks (fr_ref_px_ticks r) scaled_spread (fr_rate_scale r))
       (\<lambda>spread_ticks.
     and_then (impact_ticks (fr_ref_px_ticks r) (fq_filled_qty_base_1e8 quantities)
                 (fr_bar_volume_base_1e8 r) scaled_impact (fr_impact_model r) (fr_rate_scale r))
       (\<lambda>modeled_impact_ticks.
     and_then (fill_price_ticks (fr_side r) (fr_ref_px_ticks r) spread_ticks modeled_impact_ticks)
       (\<lambda>fill_px.
     and_then (notional_micro (fq_filled_qty_base_1e8 quantities) fill_px (fr_tick_size_micro r)
                 QTY_SCALE)
       (\<lambda>fill_notional.
     and_then (notional_micro (fq_filled_qty_base_1e8 quantities) (fr_ref_px_ticks r)
                 (fr_tick_size_micro r) QTY_SCALE)
       (\<lambda>reference_notional.
     and_then (fee_micro fill_notional scaled_fee (fr_rate_scale r))
       (\<lambda>fee.
     and_then (slippage_1e8 fill_px (fr_ref_px_ticks r) (fr_rate_scale r))
       (\<lambda>slippage.
     Inr \<lparr>fc_side = fr_side r, fc_quantities = quantities,
          fc_ref_open_px_ticks = fr_ref_px_ticks r, fc_half_spread_ticks = spread_ticks,
          fc_impact_ticks = modeled_impact_ticks, fc_fill_px_ticks = fill_px,
          fc_notional_micro = fill_notional, fc_reference_notional_micro = reference_notional,
          fc_fee_micro = fee, fc_slippage_1e8 = slippage\<rparr>)))))))))))"

section \<open>Rounding facts\<close>

lemma floor_fraction_floor: "floor_fraction v = \<lfloor>v\<rfloor>"
proof -
  obtain n d where q: "quotient_of v = (n, d)" by (cases "quotient_of v")
  then have "v = of_int n / of_int d" by (rule quotient_of_div)
  with q show ?thesis by (simp add: floor_fraction_def floor_divide_of_int_eq)
qed

lemma ceil_fraction_ceiling: "ceil_fraction v = \<lceil>v\<rceil>"
proof -
  obtain n d where q: "quotient_of v = (n, d)" by (cases "quotient_of v")
  then have "v = of_int n / of_int d" by (rule quotient_of_div)
  then have "- v = of_int (- n) / of_int d" by simp
  then have "\<lfloor>- v\<rfloor> = (- n) div d" by (simp only: floor_divide_of_int_eq)
  with q show ?thesis by (simp add: ceil_fraction_def ceiling_def)
qed

lemma floor_fraction_Fract [simp]: "floor_fraction (Fract a b) = a div b"
  by (simp add: floor_fraction_floor Fract_of_int_quotient floor_divide_of_int_eq)

lemma ceil_fraction_Fract [simp]: "ceil_fraction (Fract a b) = ceil_quot a b"
proof -
  have "- Fract a b = of_int (- a) / of_int b" by (simp add: Fract_of_int_quotient)
  then have "\<lfloor>- Fract a b\<rfloor> = (- a) div b" by (simp only: floor_divide_of_int_eq)
  then show ?thesis by (simp add: ceil_fraction_ceiling ceiling_def ceil_quot_def)
qed

lemma py_fraction_Inr [simp]: "b \<noteq> 0 \<Longrightarrow> py_fraction a b = Inr (Fract a b)"
  by (simp add: py_fraction_def)

lemma py_floordiv_Inr [simp]: "b \<noteq> 0 \<Longrightarrow> py_floordiv a b = Inr (a div b)"
  by (simp add: py_floordiv_def)

lemma scales_pos [simp]:
  "0 < RATE_SCALE" "0 < QTY_SCALE" "0 < LEVERAGE_SCALE" "0 < COST_MULTIPLIER_SCALE"
  "RATE_SCALE \<noteq> 0" "QTY_SCALE \<noteq> 0" "LEVERAGE_SCALE \<noteq> 0" "COST_MULTIPLIER_SCALE \<noteq> 0"
  by (simp_all add: scale_defs)

lemma floor_to_step_spec:
  assumes "floor_to_step v step = Inr q"
  shows "0 < step" "step dvd q" "\<bar>q\<bar> \<le> \<bar>v\<bar>" "\<bar>v\<bar> < \<bar>q\<bar> + step"
    "0 \<le> v \<Longrightarrow> 0 \<le> q" "v \<le> 0 \<Longrightarrow> q \<le> 0"
proof -
  from assms show pos: "0 < step" by (auto simp: floor_to_step_def split: if_splits)
  let ?m = "(\<bar>v\<bar> div step) * step"
  from assms pos have q: "q = (if v \<ge> 0 then ?m else - ?m)"
    by (auto simp: floor_to_step_def Let_def split: if_splits)
  have m: "0 \<le> ?m" "?m \<le> \<bar>v\<bar>" "\<bar>v\<bar> < ?m + step"
    using floor_quot_bounds[OF pos, of "\<bar>v\<bar>"] pos
    by (simp_all add: pos_imp_zdiv_nonneg_iff algebra_simps)
  then have abs_q: "\<bar>q\<bar> = ?m" by (simp add: q)
  show "step dvd q" by (simp add: q)
  from abs_q m show "\<bar>q\<bar> \<le> \<bar>v\<bar>" "\<bar>v\<bar> < \<bar>q\<bar> + step" by auto
  from m show "0 \<le> v \<Longrightarrow> 0 \<le> q" by (simp add: q)
  show "v \<le> 0 \<Longrightarrow> q \<le> 0" using m by (auto simp: q)
qed

lemma floor_to_step_total: "0 < step \<Longrightarrow> \<exists>q. floor_to_step v step = Inr q"
  by (simp add: floor_to_step_def Let_def)

text \<open>A multiple of the step is its own rounding.\<close>

lemma floor_to_step_multiple: "0 < step \<Longrightarrow> step dvd v \<Longrightarrow> floor_to_step v step = Inr v"
  by (auto simp: floor_to_step_def Let_def abs_if)

section \<open>Integer square roots\<close>

lemma isqrt_bounds: "isqrt n * isqrt n \<le> n \<and> n < (isqrt n + 1) * (isqrt n + 1)"
proof (induction n rule: isqrt.induct)
  case (1 n)
  show ?case
  proof (cases "n = 0")
    case True
    then show ?thesis by (simp add: isqrt.simps)
  next
    case False
    let ?r = "isqrt (n div 4)"
    from 1 False have IH: "?r * ?r \<le> n div 4" "n div 4 < (?r + 1) * (?r + 1)" by auto
    have "4 * (?r * ?r) \<le> n" using IH(1) by linarith
    moreover have "n < 4 * ((?r + 1) * (?r + 1))" using IH(2) by linarith
    moreover have "isqrt n = (if (2 * ?r + 1) * (2 * ?r + 1) \<le> n then 2 * ?r + 1 else 2 * ?r)"
      using False by (simp add: isqrt.simps[of n] Let_def)
    ultimately show ?thesis by (auto simp: algebra_simps)
  qed
qed

lemma isqrt_int_bounds:
  assumes "0 \<le> (x::int)"
  shows "int (isqrt (nat x)) * int (isqrt (nat x)) \<le> x"
    and "x < (int (isqrt (nat x)) + 1) * (int (isqrt (nat x)) + 1)"
proof -
  have "int (isqrt (nat x) * isqrt (nat x)) \<le> int (nat x)"
    "int (nat x) < int ((isqrt (nat x) + 1) * (isqrt (nat x) + 1))"
    using isqrt_bounds[of "nat x"] by (simp_all only: of_nat_le_iff of_nat_less_iff)
  with assms show "int (isqrt (nat x)) * int (isqrt (nat x)) \<le> x"
    "x < (int (isqrt (nat x)) + 1) * (int (isqrt (nat x)) + 1)"
    by (simp_all add: algebra_simps)
qed

section \<open>What each operation returns\<close>

named_theorems op_specs \<open>inversion of the arithmetic operations on their successful results\<close>

lemma ceil_sqrt_fraction_spec:
  assumes "ceil_sqrt_fraction v = Inr r"
  shows "0 \<le> r" "v \<le> of_int r * of_int r" "r = 0 \<or> of_int (r - 1) * of_int (r - 1) < v"
proof -
  obtain n d where q: "quotient_of v = (n, d)" by (cases "quotient_of v")
  from q have d: "0 < d" by (rule quotient_of_denom_pos)
  from q have v: "v = of_int n / of_int d" by (rule quotient_of_div)
  from assms have "0 \<le> v" by (auto simp: ceil_sqrt_fraction_def split: if_splits)
  with v d have n: "0 \<le> n" by (simp add: zero_le_divide_iff)
  let ?q = "n div d" and ?s = "int (isqrt (nat (n div d)))"
  from n d have q0: "0 \<le> ?q" by (simp add: pos_imp_zdiv_nonneg_iff)
  note s = isqrt_int_bounds[OF q0]
  have lower: "?s * ?s * d \<le> n"
    using s(1) floor_le_iff[OF d, of "?s * ?s" n] by simp
  have upper: "n < (?s + 1) * (?s + 1) * d"
    using s(2) floor_le_iff[OF d, of "(?s + 1) * (?s + 1)" n] by linarith
  from assms q \<open>0 \<le> v\<close> have r: "r = (if ?s * ?s * d = n then ?s else ?s + 1)"
    by (auto simp: ceil_sqrt_fraction_def Let_def split: if_splits)
  show "0 \<le> r" by (simp add: r)
  have "n \<le> r * r * d" using lower upper by (auto simp: r)
  then have "of_int n \<le> (of_int (r * r * d) :: rat)" by (simp only: of_int_le_iff)
  with d show "v \<le> of_int r * of_int r" by (simp add: v field_simps)
  have "r = 0 \<or> (r - 1) * (r - 1) * d < n"
  proof (cases "?s * ?s * d = n \<and> ?s \<noteq> 0")
    case True
    have "(?s - 1) * (?s - 1) * d < ?s * ?s * d"
      using True d by (intro mult_strict_right_mono) (auto simp: algebra_simps)
    with True show ?thesis by (simp add: r)
  next
    case False
    with lower show ?thesis by (auto simp: r)
  qed
  then have "r = 0 \<or> of_int ((r - 1) * (r - 1) * d) < (of_int n :: rat)"
    by (simp only: of_int_less_iff)
  with d show "r = 0 \<or> of_int (r - 1) * of_int (r - 1) < v"
    by (simp add: v field_simps)
qed

lemma ceil_sqrt_fraction_total: "0 \<le> v \<Longrightarrow> \<exists>r. ceil_sqrt_fraction v = Inr r"
  by (auto simp: ceil_sqrt_fraction_def Let_def split: prod.split)

lemma ceil_sqrt_fraction_mono:
  assumes "ceil_sqrt_fraction v = Inr r" "ceil_sqrt_fraction w = Inr s" "v \<le> w"
  shows "r \<le> s"
proof (rule ccontr)
  assume "\<not> r \<le> s"
  then have s: "s \<le> r - 1" and r: "r \<noteq> 0"
    using ceil_sqrt_fraction_spec(1)[OF assms(2)] by auto
  have "of_int s * of_int s \<le> (of_int (r - 1) * of_int (r - 1) :: rat)"
    using s ceil_sqrt_fraction_spec(1)[OF assms(2)] by (intro mult_mono) auto
  also have "\<dots> < v" using ceil_sqrt_fraction_spec(3)[OF assms(1)] r by simp
  also have "v \<le> w" by (rule assms)
  also have "w \<le> of_int s * of_int s" by (rule ceil_sqrt_fraction_spec(2)[OF assms(2)])
  finally show False by simp
qed

lemma apply_cost_multiplier_eq:
  "0 < sc \<Longrightarrow> apply_cost_multiplier b m sc = Inr x \<longleftrightarrow>
     0 \<le> b \<and> 0 < m \<and> x = ceil_quot (b * m) sc"
  by (auto simp: apply_cost_multiplier_def)

lemma half_spread_ticks_eq:
  "0 < sc \<Longrightarrow> half_spread_ticks p h sc = Inr x \<longleftrightarrow>
     0 < p \<and> 0 \<le> h \<and> x = ceil_quot (p * h) sc"
  by (auto simp: half_spread_ticks_def)

lemma fee_micro_eq:
  "0 < sc \<Longrightarrow> fee_micro n f sc = Inr x \<longleftrightarrow> 0 \<le> n \<and> 0 \<le> f \<and> x = ceil_quot (n * f) sc"
  by (auto simp: fee_micro_def)

lemma notional_micro_eq:
  "notional_micro q p t sc = Inr x \<longleftrightarrow>
     0 < p \<and> 0 < t \<and> 0 < sc \<and> x = \<bar>q\<bar> * p * t div sc"
  by (auto simp: notional_micro_def)

lemma slippage_1e8_eq:
  "slippage_1e8 f p sc = Inr x \<longleftrightarrow> 0 < f \<and> 0 < p \<and> x = (f - p) * sc div p"
  by (auto simp: slippage_1e8_def)

lemma fill_price_ticks_eq:
  "fill_price_ticks sd p s i = Inr x \<longleftrightarrow>
     0 < p \<and> 0 \<le> s \<and> 0 \<le> i \<and> 0 < x \<and> x = (if sd = Buy then p + (s + i) else p - (s + i))"
  by (auto simp: fill_price_ticks_def Let_def)

lemmas op_eqs = apply_cost_multiplier_eq half_spread_ticks_eq fee_micro_eq notional_micro_eq
  slippage_1e8_eq fill_price_ticks_eq

lemma notional_nonneg: "notional_micro q p t sc = Inr x \<Longrightarrow> 0 \<le> x"
  by (auto simp: notional_micro_eq pos_imp_zdiv_nonneg_iff)

lemma fee_nonneg: "0 < sc \<Longrightarrow> fee_micro n f sc = Inr x \<Longrightarrow> 0 \<le> x"
  by (simp add: fee_micro_eq ceil_quot_nonneg)

lemma impact_ticks_nonneg:
  assumes "impact_ticks p q v c m sc = Inr x" "0 < sc"
  shows "0 \<le> x"
  using assms
  by (auto simp: impact_ticks_def ceil_quot_nonneg split: if_splits
      dest!: ceil_sqrt_fraction_spec(1))

text \<open>A larger impact coefficient never reduces the modelled impact.\<close>

lemma impact_ticks_mono:
  assumes 1: "impact_ticks p q v c m sc = Inr x" and 2: "impact_ticks p q v c' m sc = Inr y"
    and le: "c \<le> c'" and sc: "0 < sc"
  shows "x \<le> y"
proof (cases "q = 0 \<or> c = 0")
  case True
  with 1 have "x = 0" by (auto simp: impact_ticks_def split: if_splits)
  with impact_ticks_nonneg[OF 2 sc] show ?thesis by simp
next
  case False
  with 1 have g: "0 < p" "0 < q" "0 < c" "0 < v" "m = ''linear'' \<or> m = ''sqrt''"
    by (auto simp: impact_ticks_def split: if_splits)
  show ?thesis
  proof (cases "m = ''linear''")
    case True
    with 1 2 g le sc have "x = ceil_quot (p * c * q) (sc * v)" "y = ceil_quot (p * c' * q) (sc * v)"
      by (auto simp: impact_ticks_def split: if_splits)
    with g le sc show ?thesis by (simp only: ceil_quot_mono mult_mono mult_pos_pos less_imp_le order_refl mult_nonneg_nonneg)
  next
    case False
    with g 1 2 le sc have
      "ceil_sqrt_fraction (Fract (p * p * c * c * q) (sc * sc * v)) = Inr x"
      "ceil_sqrt_fraction (Fract (p * p * c' * c' * q) (sc * sc * v)) = Inr y"
      by (auto simp: impact_ticks_def split: if_splits)
    moreover have "Fract (p * p * c * c * q) (sc * sc * v) \<le> Fract (p * p * c' * c' * q) (sc * sc * v)"
    proof -
      have "p * p * c * c * q \<le> p * p * c' * c' * q"
        using g le by (intro mult_mono mult_nonneg_nonneg) auto
      then have "(of_int (p * p * c * c * q) :: rat) \<le> of_int (p * p * c' * c' * q)"
        by (simp only: of_int_le_iff)
      moreover have "(0::rat) < of_int (sc * sc * v)" using g sc by (simp only: of_int_0_less_iff) simp
      ultimately show ?thesis
        unfolding Fract_of_int_quotient by (intro divide_right_mono) auto
    qed
    ultimately show ?thesis by (rule ceil_sqrt_fraction_mono)
  qed
qed

section \<open>Properties of sizing and fills\<close>

lemma raw_target_quantity_spec:
  assumes "raw_target_quantity_base_1e8 lev eq px tick ls qs = Inr raw"
  shows "0 \<le> eq" "0 < ls * px * tick" "0 < px" "0 < tick" "0 < qs"
    "\<bar>raw\<bar> = (\<bar>lev\<bar> * eq * qs) div (ls * px * tick)"
    "0 \<le> lev \<Longrightarrow> 0 \<le> raw" "lev \<le> 0 \<Longrightarrow> raw \<le> 0" "lev = 0 \<Longrightarrow> raw = 0"
proof -
  from assms have g: "0 \<le> eq" "0 < px" "0 < tick" "0 < ls" "0 < qs"
    by (auto simp: raw_target_quantity_base_1e8_def split: if_splits)
  then show "0 \<le> eq" "0 < ls * px * tick" "0 < px" "0 < tick" "0 < qs" by auto
  let ?x = "(\<bar>lev\<bar> * eq * qs) div (ls * px * tick)"
  have x: "0 \<le> ?x" using g by (simp add: pos_imp_zdiv_nonneg_iff)
  have raw: "raw = (if 0 \<le> lev then ?x else - ?x)"
    using assms by (auto simp: raw_target_quantity_base_1e8_def Let_def split: if_splits)
  with x show "\<bar>raw\<bar> = ?x" by auto
  from raw x show "0 \<le> lev \<Longrightarrow> 0 \<le> raw" "lev \<le> 0 \<Longrightarrow> raw \<le> 0" "lev = 0 \<Longrightarrow> raw = 0" by auto
qed

lemma target_quantity_spec:
  assumes "target_quantity_base_1e8 lev eq px tick step ls qs = Inr q"
  obtains raw where "raw_target_quantity_base_1e8 lev eq px tick ls qs = Inr raw"
    and "floor_to_step raw step = Inr q"
  using assms by (auto simp: target_quantity_base_1e8_def and_then_eq_Inr)

text \<open>
  Property C9. A successful leverage sizing yields a multiple of the quantity step, with
  the sign of the requested leverage, whose notional never exceeds leverage times equity,
  and it is the largest such multiple: one more step would exceed it.
\<close>

theorem target_quantity_largest_affordable_step:
  assumes "target_quantity_base_1e8 lev eq px tick step ls qs = Inr q"
  shows "step dvd q \<and> (0 \<le> lev \<longrightarrow> 0 \<le> q) \<and> (lev \<le> 0 \<longrightarrow> q \<le> 0) \<and>
    \<bar>q\<bar> * (ls * px * tick) \<le> \<bar>lev\<bar> * eq * qs \<and>
    \<bar>lev\<bar> * eq * qs < (\<bar>q\<bar> + step) * (ls * px * tick)"
proof -
  from assms obtain raw where raw: "raw_target_quantity_base_1e8 lev eq px tick ls qs = Inr raw"
    and q: "floor_to_step raw step = Inr q" by (rule target_quantity_spec)
  note r = raw_target_quantity_spec[OF raw] and s = floor_to_step_spec[OF q]
  let ?X = "\<bar>lev\<bar> * eq * qs" and ?Y = "ls * px * tick"
  have "\<bar>q\<bar> * ?Y \<le> ?X"
    using s(3) r(6) floor_le_iff[OF r(2), of "\<bar>q\<bar>" ?X] by simp
  moreover have "?X < (\<bar>q\<bar> + step) * ?Y"
    using s(4) r(6) floor_le_iff[OF r(2), of "\<bar>q\<bar> + step" ?X] by linarith
  ultimately show ?thesis using s r by auto
qed

theorem target_quantity_largest_affordable_step_witness:
  "target_quantity_base_1e8 (-15000) 8800000000 944000 10000 100000 10000 100000000
     = Inr (-139800000) \<and>
   100000 dvd (-139800000::int) \<and> \<bar>-139800000\<bar> * (10000 * 944000 * 10000)
     \<le> \<bar>-15000\<bar> * 8800000000 * (100000000::int)"
proof -
  have h: "target_quantity_base_1e8 (-15000) 8800000000 944000 10000 100000 10000 100000000
     = Inr (-139800000)"
    by (simp add: target_quantity_base_1e8_def raw_target_quantity_base_1e8_def
        floor_to_step_def Let_def)
  from target_quantity_largest_affordable_step[OF h] h show ?thesis by simp
qed

lemma participation_capacity_spec:
  assumes "participation_capacity_base_1e8 vol cap step sc = Inr c"
  shows "0 \<le> vol" "0 \<le> cap" "cap \<le> sc" "sc \<noteq> 0" "floor_to_step (vol * cap div sc) step = Inr c"
  using assms
  by (auto simp: participation_capacity_base_1e8_def py_fraction_def split: if_splits)

lemma participation_fill_spec:
  assumes "participation_fill req vol cap step sc = Inr f"
  obtains c where "0 \<le> req" "0 < step" "participation_capacity_base_1e8 vol cap step sc = Inr c"
    "0 \<le> c" "floor_to_step (min req c) step = Inr (fq_filled_qty_base_1e8 f)"
    "fq_requested_qty_base_1e8 f = req" "fq_capacity_qty_base_1e8 f = c"
    "fq_cancelled_qty_base_1e8 f = req - fq_filled_qty_base_1e8 f"
proof -
  from assms obtain c g where 1: "0 \<le> req" "participation_capacity_base_1e8 vol cap step sc = Inr c"
    "floor_to_step (min req c) step = Inr g" "make_FillQuantity req c g (req - g) = Inr f"
    by (auto simp: participation_fill_def and_then_eq_Inr split: if_splits)
  from 1(4) have "0 \<le> c" "f = \<lparr>fq_requested_qty_base_1e8 = req, fq_capacity_qty_base_1e8 = c,
      fq_filled_qty_base_1e8 = g, fq_cancelled_qty_base_1e8 = req - g\<rparr>"
    by (auto simp: make_FillQuantity_def split: if_splits)
  with 1 floor_to_step_spec(1)[OF 1(3)] show thesis by (intro that[of c]) auto
qed



lemma calculate_fill_spec:
  assumes "calculate_fill r = Inr f" and sc: "0 < fr_rate_scale r"
  obtains hs ic fe where
    "participation_fill (fr_requested_qty_base_1e8 r) (fr_bar_volume_base_1e8 r)
       (fr_participation_cap_1e8 r) (fr_qty_step_base_1e8 r) (fr_rate_scale r)
       = Inr (fc_quantities f)"
    "0 \<le> fr_half_spread_1e8 r" "0 \<le> fr_impact_coeff_1e8 r" "0 \<le> fr_taker_fee_rate_1e8 r"
    "0 < fr_cost_multiplier_1e4 r"
    "hs = ceil_quot (fr_half_spread_1e8 r * fr_cost_multiplier_1e4 r) COST_MULTIPLIER_SCALE"
    "ic = ceil_quot (fr_impact_coeff_1e8 r * fr_cost_multiplier_1e4 r) COST_MULTIPLIER_SCALE"
    "fe = ceil_quot (fr_taker_fee_rate_1e8 r * fr_cost_multiplier_1e4 r) COST_MULTIPLIER_SCALE"
    "0 \<le> hs" "0 \<le> ic" "0 \<le> fe"
    "fc_half_spread_ticks f = ceil_quot (fr_ref_px_ticks r * hs) (fr_rate_scale r)"
    "impact_ticks (fr_ref_px_ticks r) (fq_filled_qty_base_1e8 (fc_quantities f))
       (fr_bar_volume_base_1e8 r) ic (fr_impact_model r) (fr_rate_scale r) = Inr (fc_impact_ticks f)"
    "fill_price_ticks (fr_side r) (fr_ref_px_ticks r) (fc_half_spread_ticks f) (fc_impact_ticks f)
       = Inr (fc_fill_px_ticks f)"
    "notional_micro (fq_filled_qty_base_1e8 (fc_quantities f)) (fc_fill_px_ticks f)
       (fr_tick_size_micro r) QTY_SCALE = Inr (fc_notional_micro f)"
    "notional_micro (fq_filled_qty_base_1e8 (fc_quantities f)) (fr_ref_px_ticks r)
       (fr_tick_size_micro r) QTY_SCALE = Inr (fc_reference_notional_micro f)"
    "fee_micro (fc_notional_micro f) fe (fr_rate_scale r) = Inr (fc_fee_micro f)"
    "slippage_1e8 (fc_fill_px_ticks f) (fr_ref_px_ticks r) (fr_rate_scale r)
       = Inr (fc_slippage_1e8 f)"
    "fc_side f = fr_side r" "fc_ref_open_px_ticks f = fr_ref_px_ticks r"
  using assms unfolding calculate_fill_def and_then_eq_Inr
  by (elim exE conjE) (auto simp: apply_cost_multiplier_eq half_spread_ticks_eq ceil_quot_nonneg)


lemma ceil_quot_scaled_cover:
  assumes "0 < (s1::int)" "0 < s2" "0 \<le> n"
  shows "n * R \<le> ceil_quot (n * ceil_quot R s2) s1 * (s1 * s2)"
proof -
  have "R \<le> ceil_quot R s2 * s2" by (rule ceil_quot_bounds) fact
  then have "n * R \<le> n * ceil_quot R s2 * s2"
    using assms(3) by (simp add: mult_left_mono mult.assoc)
  also have "\<dots> \<le> ceil_quot (n * ceil_quot R s2) s1 * s1 * s2"
    using ceil_quot_bounds(1)[OF assms(1), of "n * ceil_quot R s2"] assms(2)
    by (intro mult_right_mono) auto
  finally show ?thesis by (simp add: mult.assoc)
qed

lemma participation_fill_within:
  assumes "participation_fill req vol cap step sc = Inr f" "0 < sc"
  shows "0 \<le> fq_filled_qty_base_1e8 f" "fq_filled_qty_base_1e8 f * sc \<le> vol * cap"
    "fq_filled_qty_base_1e8 f \<le> req"
proof -
  let ?q = "fq_filled_qty_base_1e8 f"
  from assms(1) obtain c where c: "0 \<le> c" "0 \<le> req"
    "participation_capacity_base_1e8 vol cap step sc = Inr c" "floor_to_step (min req c) step = Inr ?q"
    by (rule participation_fill_spec)
  note p = participation_capacity_spec[OF c(3)] and s = floor_to_step_spec[OF c(4)]
  show "0 \<le> ?q" "?q \<le> req" using s c by auto
  have "?q \<le> c" using s c by auto
  also have "c \<le> vol * cap div sc"
    using floor_to_step_spec(3)[OF p(5)] c(1) p assms(2) by (auto simp: pos_imp_zdiv_nonneg_iff)
  finally show "?q * sc \<le> vol * cap" by (simp add: floor_le_iff[OF assms(2)])
qed

lemma notional_mono:
  assumes "notional_micro q p t sc = Inr x" "notional_micro q p' t sc = Inr y" "p \<le> p'"
  shows "x \<le> y"
  using assms by (auto simp: notional_micro_eq intro!: zdiv_mono1 mult_right_mono mult_left_mono)

lemma adverse_leg_mono:
  assumes "fill_price_ticks sd p s i = Inr x" "fill_price_ticks sd p s' i' = Inr x'"
    and "s \<le> s'" "i \<le> i'"
    and "notional_micro q p t sc = Inr r" "notional_micro q x t sc = Inr n"
    "notional_micro q x' t sc = Inr n'"
  shows "\<bar>x - p\<bar> \<le> \<bar>x' - p\<bar> \<and> \<bar>n - r\<bar> \<le> \<bar>n' - r\<bar> \<and> (sd = Buy \<longrightarrow> 0 \<le> n \<and> n \<le> n')"
proof (cases sd)
  case Buy
  with assms(1-4) have "p \<le> x" "x \<le> x'" by (auto simp: fill_price_ticks_eq)
  with assms(5-7) notional_mono[of q p t sc r x n] notional_mono[of q x t sc n x' n']
    notional_nonneg[OF assms(6)] show ?thesis by auto
next
  case Sell
  with assms(1-4) have "x \<le> p" "x' \<le> x" by (auto simp: fill_price_ticks_eq)
  with Sell assms(5-7) notional_mono[of q x t sc n p r] notional_mono[of q x' t sc n' x n]
  show ?thesis by auto
qed

text \<open>
  Property C11. Execution is always against the agent: a buy fills at or above the
  reference open and a sell at or below it, the slippage has the matching sign, the fee
  covers at least the exact (multiplied) fee rate of the notional, and the fill stays
  within the participation share of the bar volume.
\<close>

theorem fill_is_agent_adverse:
  assumes "calculate_fill r = Inr f" "0 < fr_rate_scale r"
  shows "(case fr_side r of
      Buy \<Rightarrow> fr_ref_px_ticks r \<le> fc_fill_px_ticks f \<and>
             fc_reference_notional_micro f \<le> fc_notional_micro f \<and> 0 \<le> fc_slippage_1e8 f
    | Sell \<Rightarrow> fc_fill_px_ticks f \<le> fr_ref_px_ticks r \<and>
             fc_notional_micro f \<le> fc_reference_notional_micro f \<and> fc_slippage_1e8 f \<le> 0) \<and>
    fc_notional_micro f * (fr_taker_fee_rate_1e8 r * fr_cost_multiplier_1e4 r)
      \<le> fc_fee_micro f * (fr_rate_scale r * COST_MULTIPLIER_SCALE) \<and>
    0 \<le> fq_filled_qty_base_1e8 (fc_quantities f) \<and>
    fq_filled_qty_base_1e8 (fc_quantities f) * fr_rate_scale r
      \<le> fr_bar_volume_base_1e8 r * fr_participation_cap_1e8 r"
proof -
  let ?q = "fq_filled_qty_base_1e8 (fc_quantities f)" and ?sc = "fr_rate_scale r"
  from calculate_fill_spec[OF assms] obtain fe where
    pf: "participation_fill (fr_requested_qty_base_1e8 r) (fr_bar_volume_base_1e8 r)
       (fr_participation_cap_1e8 r) (fr_qty_step_base_1e8 r) ?sc = Inr (fc_quantities f)"
    and fe: "fe = ceil_quot (fr_taker_fee_rate_1e8 r * fr_cost_multiplier_1e4 r) COST_MULTIPLIER_SCALE"
    and px: "fill_price_ticks (fr_side r) (fr_ref_px_ticks r) (fc_half_spread_ticks f)
       (fc_impact_ticks f) = Inr (fc_fill_px_ticks f)"
    and no: "notional_micro ?q (fc_fill_px_ticks f) (fr_tick_size_micro r) QTY_SCALE
       = Inr (fc_notional_micro f)"
    and rn: "notional_micro ?q (fr_ref_px_ticks r) (fr_tick_size_micro r) QTY_SCALE
       = Inr (fc_reference_notional_micro f)"
    and fee: "fee_micro (fc_notional_micro f) fe ?sc = Inr (fc_fee_micro f)"
    and sl: "slippage_1e8 (fc_fill_px_ticks f) (fr_ref_px_ticks r) ?sc = Inr (fc_slippage_1e8 f)"
    by blast
  have cover: "fc_notional_micro f * (fr_taker_fee_rate_1e8 r * fr_cost_multiplier_1e4 r)
      \<le> fc_fee_micro f * (?sc * COST_MULTIPLIER_SCALE)"
    using fee ceil_quot_scaled_cover[OF assms(2), of COST_MULTIPLIER_SCALE "fc_notional_micro f"]
    by (simp add: fee_micro_eq assms(2) fe)
  note part = participation_fill_within[OF pf assms(2)]
  show ?thesis
  proof (cases "fr_side r")
    case Buy
    with px notional_mono[OF rn no] sl assms(2) cover part
    show ?thesis by (auto simp: fill_price_ticks_eq slippage_1e8_eq pos_imp_zdiv_nonneg_iff)
  next
    case Sell
    with px notional_mono[OF no rn] sl assms(2) cover part show ?thesis
      by (auto simp: fill_price_ticks_eq slippage_1e8_eq intro!: div_nonpos_pos_le0 mult_nonpos_nonneg)
  qed
qed

definition example_fill_request :: "side \<Rightarrow> int \<Rightarrow> fill_request" where
  "example_fill_request sd multiplier =
     \<lparr>fr_side = sd, fr_requested_qty_base_1e8 = 50800000, fr_bar_volume_base_1e8 = 300000000,
      fr_participation_cap_1e8 = 10000000, fr_qty_step_base_1e8 = 100000,
      fr_ref_px_ticks = 998000, fr_tick_size_micro = 10000, fr_half_spread_1e8 = 50000,
      fr_impact_coeff_1e8 = 20000000, fr_impact_model = ''linear'', fr_taker_fee_rate_1e8 = 45000,
      fr_cost_multiplier_1e4 = multiplier, fr_rate_scale = 100000000\<rparr>"

definition example_calculation :: FillCalculation where
  "example_calculation =
     \<lparr>fc_side = Buy,
      fc_quantities = \<lparr>fq_requested_qty_base_1e8 = 50800000, fq_capacity_qty_base_1e8 = 30000000,
        fq_filled_qty_base_1e8 = 30000000, fq_cancelled_qty_base_1e8 = 20800000\<rparr>,
      fc_ref_open_px_ticks = 998000, fc_half_spread_ticks = 499, fc_impact_ticks = 19960,
      fc_fill_px_ticks = 1018459, fc_notional_micro = 3055377000,
      fc_reference_notional_micro = 2994000000, fc_fee_micro = 1374920,
      fc_slippage_1e8 = 2050000\<rparr>"

lemmas fill_eval = calculate_fill_def example_fill_request_def example_calculation_def
  participation_fill_def participation_capacity_base_1e8_def floor_to_step_def Let_def
  make_FillQuantity_def apply_cost_multiplier_def half_spread_ticks_def impact_ticks_def
  fill_price_ticks_def notional_micro_def fee_micro_def slippage_1e8_def ceil_quot_def scale_defs

lemma example_fill: "calculate_fill (example_fill_request Buy 10000) = Inr example_calculation"
  by (simp add: fill_eval)

lemma example_fill_stress:
  "\<exists>g. calculate_fill ((example_fill_request Buy 10000)\<lparr>fr_cost_multiplier_1e4 := 20000\<rparr>) = Inr g"
  by (simp add: fill_eval)

theorem fill_is_agent_adverse_witness:
  "\<exists>f. calculate_fill (example_fill_request Buy 10000) = Inr f \<and> 998000 \<le> fc_fill_px_ticks f"
  using fill_is_agent_adverse[OF example_fill] example_fill
  by (auto simp: example_fill_request_def)





end
