(* ===== verification/Margin_Math.thy ===== *)
theory Margin_Math
  imports Exchange_Math
begin

text \<open>
  The second half of \<open>core/math.py\<close>: profit and loss, funding, isolated margin,
  liquidation, and the balanced ledger delta of \<open>core/models.py\<close>.
\<close>

section \<open>Profit and loss, funding\<close>

definition unrealized_pnl_micro :: "int \<Rightarrow> int \<Rightarrow> int \<Rightarrow> int \<Rightarrow> int \<Rightarrow> int result" where
  "unrealized_pnl_micro position_qty_base_1e8 entry_px_ticks mark_px_ticks tick_size_micro
       qty_scale =
     (if entry_px_ticks \<le> 0 \<or> mark_px_ticks \<le> 0 \<or> tick_size_micro \<le> 0
      then Inl (ValueError ''entry, mark, and tick size must be positive'')
      else py_floordiv ((mark_px_ticks - entry_px_ticks) * position_qty_base_1e8 * tick_size_micro)
             qty_scale)"

definition realized_pnl_micro ::
    "int \<Rightarrow> int \<Rightarrow> int \<Rightarrow> int \<Rightarrow> int \<Rightarrow> int \<Rightarrow> int result" where
  "realized_pnl_micro position_sign closed_qty_base_1e8 entry_px_ticks close_px_ticks
       tick_size_micro qty_scale =
     (if position_sign \<noteq> -1 \<and> position_sign \<noteq> 1
      then Inl (ValueError ''position sign must be -1 or 1'')
      else if closed_qty_base_1e8 < 0
      then Inl (ValueError ''closed quantity must be non-negative'')
      else if entry_px_ticks \<le> 0 \<or> close_px_ticks \<le> 0 \<or> tick_size_micro \<le> 0
      then Inl (ValueError ''entry, close, and tick size must be positive'')
      else let signed_closed = position_sign * closed_qty_base_1e8
           in py_floordiv ((close_px_ticks - entry_px_ticks) * signed_closed * tick_size_micro)
                qty_scale)"

definition funding_cash_flow_micro ::
    "int \<Rightarrow> int \<Rightarrow> int \<Rightarrow> int \<Rightarrow> int \<Rightarrow> int \<Rightarrow> int result" where
  "funding_cash_flow_micro position_qty_base_1e8 index_px_ticks tick_size_micro funding_rate_1e8
       qty_scale rate_scale =
     (if index_px_ticks \<le> 0 \<or> tick_size_micro \<le> 0
      then Inl (ValueError ''index price and tick size must be positive'')
      else and_then (py_fraction (position_qty_base_1e8 * index_px_ticks * tick_size_micro
                                    * funding_rate_1e8)
                       (qty_scale * rate_scale))
        (\<lambda>amount. let venue_amount = ceil_fraction amount in Inr (- venue_amount)))"

definition clamp_funding_rate_1e8 :: "int \<Rightarrow> int \<Rightarrow> int \<Rightarrow> int result" where
  "clamp_funding_rate_1e8 observed_rate_1e8 floor_1e8 cap_1e8 =
     (if floor_1e8 > cap_1e8 then Inl (ValueError ''funding floor must not exceed cap'')
      else Inr (min (max observed_rate_1e8 floor_1e8) cap_1e8))"

section \<open>Margin and liquidation\<close>

definition margin_used_micro ::
    "int \<Rightarrow> int \<Rightarrow> int \<Rightarrow> int \<Rightarrow> int \<Rightarrow> int \<Rightarrow> int result" where
  "margin_used_micro position_qty_base_1e8 entry_px_ticks tick_size_micro target_leverage_1e4
       qty_scale leverage_scale =
     (if position_qty_base_1e8 = 0 then Inr 0
      else if entry_px_ticks \<le> 0 \<or> tick_size_micro \<le> 0
      then Inl (ValueError ''entry price and tick size must be positive'')
      else if target_leverage_1e4 \<le> 0
      then Inl (ValueError ''target leverage magnitude must be positive'')
      else and_then (py_fraction (\<bar>position_qty_base_1e8\<bar> * entry_px_ticks * tick_size_micro
                                    * leverage_scale)
                       (qty_scale * target_leverage_1e4))
        (\<lambda>margin. Inr (floor_fraction margin)))"

definition maintenance_margin_micro ::
    "int \<Rightarrow> int \<Rightarrow> int \<Rightarrow> int \<Rightarrow> int \<Rightarrow> int \<Rightarrow> int result" where
  "maintenance_margin_micro position_qty_base_1e8 mark_px_ticks tick_size_micro
       maintenance_rate_1e8 qty_scale rate_scale =
     (if position_qty_base_1e8 = 0 then Inr 0
      else if mark_px_ticks \<le> 0 \<or> tick_size_micro \<le> 0
      then Inl (ValueError ''mark price and tick size must be positive'')
      else if maintenance_rate_1e8 < 0
      then Inl (ValueError ''maintenance rate must be non-negative'')
      else and_then (py_fraction (\<bar>position_qty_base_1e8\<bar> * mark_px_ticks * tick_size_micro
                                    * maintenance_rate_1e8)
                       (qty_scale * rate_scale))
        (\<lambda>margin. Inr (ceil_fraction margin)))"

text \<open>Division of two \<open>Fraction\<close>s.\<close>

definition fraction_div :: "fraction \<Rightarrow> fraction \<Rightarrow> fraction result" where
  "fraction_div a b = (if b = 0 then Inl ZeroDivisionError else Inr (a / b))"

definition liquidation_price_ticks ::
    "int \<Rightarrow> int \<Rightarrow> int \<Rightarrow> int \<Rightarrow> int \<Rightarrow> int \<Rightarrow> int result" where
  "liquidation_price_ticks entry_px_ticks position_sign target_leverage_1e4 maintenance_rate_1e8
       leverage_scale rate_scale =
     (if entry_px_ticks \<le> 0 then Inl (ValueError ''entry price must be positive'')
      else if position_sign \<noteq> -1 \<and> position_sign \<noteq> 1
      then Inl (ValueError ''position sign must be -1 or 1'')
      else if target_leverage_1e4 \<le> 0
      then Inl (ValueError ''target leverage magnitude must be positive'')
      else if \<not> (0 \<le> maintenance_rate_1e8 \<and> maintenance_rate_1e8 < rate_scale)
      then Inl (ValueError ''maintenance rate must be in [0, rate_scale)'')
      else if position_sign > 0
      then and_then (py_fraction (target_leverage_1e4 - leverage_scale) target_leverage_1e4)
        (\<lambda>share. let numerator = of_int entry_px_ticks * share
           in if numerator \<le> 0 then Inr 0
              else and_then (py_fraction (rate_scale - maintenance_rate_1e8) rate_scale)
                (\<lambda>keep. and_then (fraction_div numerator keep)
                (\<lambda>px. Inr (ceil_fraction px))))
      else and_then (py_fraction (target_leverage_1e4 + leverage_scale) target_leverage_1e4)
        (\<lambda>share. let numerator = of_int entry_px_ticks * share
           in and_then (py_fraction (rate_scale + maintenance_rate_1e8) rate_scale)
                (\<lambda>keep. and_then (fraction_div numerator keep)
                (\<lambda>px. Inr (floor_fraction px)))))"

definition distance_to_liquidation_1e8 :: "int \<Rightarrow> int \<Rightarrow> int \<Rightarrow> int \<Rightarrow> int result" where
  "distance_to_liquidation_1e8 current_px_ticks liquidation_px_ticks position_sign rate_scale =
     (if current_px_ticks \<le> 0 then Inl (ValueError ''current price must be positive'')
      else if position_sign \<noteq> -1 \<and> position_sign \<noteq> 1
      then Inl (ValueError ''position sign must be -1 or 1'')
      else if position_sign > 0
      then if liquidation_px_ticks \<le> 0 then Inr rate_scale
           else let numerator = current_px_ticks - liquidation_px_ticks
                in Inr (floor_fraction (Fract (numerator * rate_scale) current_px_ticks))
      else if liquidation_px_ticks \<le> 0
      then Inl (ValueError ''short liquidation price must be positive'')
      else let numerator = liquidation_px_ticks - current_px_ticks
           in Inr (floor_fraction (Fract (numerator * rate_scale) current_px_ticks)))"

definition liquidation_crossed :: "int \<Rightarrow> int \<Rightarrow> int \<Rightarrow> int \<Rightarrow> bool result" where
  "liquidation_crossed position_qty_base_1e8 liquidation_px_ticks mark_high_ticks mark_low_ticks =
     (if mark_high_ticks \<le> 0 \<or> mark_low_ticks \<le> 0
      then Inl (ValueError ''mark high and low must be positive'')
      else if mark_low_ticks > mark_high_ticks
      then Inl (ValueError ''mark low cannot exceed mark high'')
      else if position_qty_base_1e8 > 0
      then Inr (liquidation_px_ticks > 0 \<and> mark_low_ticks \<le> liquidation_px_ticks)
      else if position_qty_base_1e8 < 0
      then Inr (mark_high_ticks \<ge> liquidation_px_ticks)
      else Inr False)"

definition conservative_liquidation_close_price_ticks :: "int \<Rightarrow> int \<Rightarrow> int \<Rightarrow> int result" where
  "conservative_liquidation_close_price_ticks position_sign mark_high_ticks mark_low_ticks =
     (if position_sign \<noteq> -1 \<and> position_sign \<noteq> 1
      then Inl (ValueError ''position sign must be -1 or 1'')
      else if mark_low_ticks \<le> 0 \<or> mark_high_ticks < mark_low_ticks
      then Inl (ValueError ''invalid mark extremes'')
      else Inr (if position_sign > 0 then mark_low_ticks else mark_high_ticks))"

definition liquidation_penalty_micro ::
    "int \<Rightarrow> int \<Rightarrow> int \<Rightarrow> int \<Rightarrow> int \<Rightarrow> int \<Rightarrow> int result" where
  "liquidation_penalty_micro position_qty_base_1e8 close_px_ticks tick_size_micro penalty_rate_1e8
       qty_scale rate_scale =
     and_then (notional_micro position_qty_base_1e8 close_px_ticks tick_size_micro qty_scale)
       (\<lambda>close_notional. fee_micro close_notional penalty_rate_1e8 rate_scale)"

section \<open>Ledger deltas\<close>

definition price_pnl_delta_micro :: "int \<Rightarrow> int \<Rightarrow> int \<Rightarrow> int \<Rightarrow> int" where
  "price_pnl_delta_micro previous_upnl_micro current_upnl_micro
       previous_realized_price_pnl_micro current_realized_price_pnl_micro =
     (current_upnl_micro - previous_upnl_micro)
       + (current_realized_price_pnl_micro - previous_realized_price_pnl_micro)"

record LedgerDelta =
  ld_nav_micro :: int
  ld_price_pnl_micro :: int
  ld_funding_micro :: int
  ld_fees_micro :: int
  ld_liq_penalty_micro :: int

definition attributed_nav_micro :: "LedgerDelta \<Rightarrow> int" where
  "attributed_nav_micro d =
     ld_price_pnl_micro d + ld_funding_micro d + ld_fees_micro d + ld_liq_penalty_micro d"

definition is_balanced :: "LedgerDelta \<Rightarrow> bool" where
  "is_balanced d \<longleftrightarrow> ld_nav_micro d = attributed_nav_micro d"

definition require_balanced :: "LedgerDelta \<Rightarrow> unit result" where
  "require_balanced d =
     (if \<not> is_balanced d then Inl (ArithmeticError ''ledger invariant failed'') else Inr ())"

definition ledger_delta :: "int \<Rightarrow> int \<Rightarrow> int \<Rightarrow> int \<Rightarrow> int \<Rightarrow> int \<Rightarrow> LedgerDelta result" where
  "ledger_delta previous_nav_micro current_nav_micro d_price_pnl_micro d_funding_micro
       d_fees_micro d_liq_penalty_micro =
     (let d = \<lparr>ld_nav_micro = current_nav_micro - previous_nav_micro,
               ld_price_pnl_micro = d_price_pnl_micro, ld_funding_micro = d_funding_micro,
               ld_fees_micro = d_fees_micro, ld_liq_penalty_micro = d_liq_penalty_micro\<rparr>
      in and_then (require_balanced d) (\<lambda>_. Inr d))"

definition nav_identity_holds :: "int \<Rightarrow> int \<Rightarrow> int \<Rightarrow> bool" where
  "nav_identity_holds nav_micro cash_micro upnl_micro \<longleftrightarrow> nav_micro = cash_micro + upnl_micro"

definition cash_conservation_holds :: "int \<Rightarrow> int \<Rightarrow> int \<Rightarrow> bool" where
  "cash_conservation_holds cash_micro starting_cash_micro cumulative_realized_pnl_micro \<longleftrightarrow>
     cash_micro - starting_cash_micro = cumulative_realized_pnl_micro"

section \<open>What each operation returns\<close>

lemma unrealized_pnl_micro_eq:
  "sc \<noteq> 0 \<Longrightarrow> unrealized_pnl_micro q e m t sc = Inr x \<longleftrightarrow>
     0 < e \<and> 0 < m \<and> 0 < t \<and> x = (m - e) * q * t div sc"
  by (auto simp: unrealized_pnl_micro_def)

lemma realized_pnl_micro_eq:
  "sc \<noteq> 0 \<Longrightarrow> realized_pnl_micro s c e m t sc = Inr x \<longleftrightarrow>
     (s = -1 \<or> s = 1) \<and> 0 \<le> c \<and> 0 < e \<and> 0 < m \<and> 0 < t \<and> x = (m - e) * (s * c) * t div sc"
  by (auto simp: realized_pnl_micro_def)

lemma funding_cash_flow_micro_eq:
  "qs * rs \<noteq> 0 \<Longrightarrow> funding_cash_flow_micro q p t r qs rs = Inr x \<longleftrightarrow>
     0 < p \<and> 0 < t \<and> x = - ceil_quot (q * p * t * r) (qs * rs)"
  by (auto simp: funding_cash_flow_micro_def)

lemma clamp_funding_rate_eq:
  "clamp_funding_rate_1e8 r f c = Inr x \<longleftrightarrow> f \<le> c \<and> x = min (max r f) c"
  by (auto simp: clamp_funding_rate_1e8_def)

text \<open>The liquidation price as one integer quotient.\<close>

lemma liquidation_price_long_eval:
  assumes g: "0 < e" "0 < lev" "0 \<le> mr" "mr < rs"
  shows "liquidation_price_ticks e 1 lev mr ls rs =
    Inr (if lev \<le> ls then 0 else ceil_quot (e * (lev - ls) * rs) (lev * (rs - mr)))"
proof -
  have share: "of_int e * Fract (lev - ls) lev = (of_int (e * (lev - ls)) / of_int lev :: rat)"
    using g by (simp add: Fract_of_int_quotient)
  have sgn: "of_int e * Fract (lev - ls) lev \<le> (0::rat) \<longleftrightarrow> lev \<le> ls"
    unfolding share using g by (simp add: divide_le_0_iff mult_le_0_iff)
  have "of_int e * Fract (lev - ls) lev / Fract (rs - mr) rs
      = Fract (e * (lev - ls) * rs) (lev * (rs - mr))"
    unfolding share using g by (simp add: Fract_of_int_quotient)
  moreover have "Fract (rs - mr) rs \<noteq> 0" using g by (simp add: Fract_of_int_quotient)
  ultimately show ?thesis using g sgn
    by (simp add: liquidation_price_ticks_def Let_def fraction_div_def)
qed

lemma liquidation_price_short_eval:
  assumes g: "0 < e" "0 < lev" "0 \<le> mr" "mr < rs"
  shows "liquidation_price_ticks e (-1) lev mr ls rs =
    Inr ((e * (lev + ls) * rs) div (lev * (rs + mr)))"
proof -
  have "of_int e * Fract (lev + ls) lev / Fract (rs + mr) rs
      = Fract (e * (lev + ls) * rs) (lev * (rs + mr))"
    using g by (simp add: Fract_of_int_quotient)
  moreover have "Fract (rs + mr) rs \<noteq> 0" using g by (simp add: Fract_of_int_quotient)
  ultimately show ?thesis using g
    by (simp add: liquidation_price_ticks_def Let_def fraction_div_def)
qed

lemma liquidation_price_guards:
  assumes "liquidation_price_ticks e s lev mr ls rs = Inr L"
  shows "0 < e" "0 < lev" "0 \<le> mr" "mr < rs" "s = 1 \<or> s = -1"
  using assms by (auto simp: liquidation_price_ticks_def split: if_splits)

lemma liquidation_price_long:
  assumes "liquidation_price_ticks e 1 lev mr ls rs = Inr L"
  shows "0 < e" "0 < lev" "0 \<le> mr" "mr < rs"
    "lev \<le> ls \<Longrightarrow> L = 0"
    "ls < lev \<Longrightarrow> L = ceil_quot (e * (lev - ls) * rs) (lev * (rs - mr))"
  using liquidation_price_guards[OF assms] assms
  by (simp_all add: liquidation_price_long_eval)

lemma liquidation_price_short:
  assumes "liquidation_price_ticks e (-1) lev mr ls rs = Inr L"
  shows "0 < e" "0 < lev" "0 \<le> mr" "mr < rs"
    "L = (e * (lev + ls) * rs) div (lev * (rs + mr))"
  using liquidation_price_guards[OF assms] assms
  by (simp_all add: liquidation_price_short_eval)

lemma distance_long_eq:
  "distance_to_liquidation_1e8 p L 1 rs = Inr d \<longleftrightarrow>
     0 < p \<and> d = (if L \<le> 0 then rs else (p - L) * rs div p)"
  by (auto simp: distance_to_liquidation_1e8_def)

lemma distance_short_eq:
  "distance_to_liquidation_1e8 p L (-1) rs = Inr d \<longleftrightarrow>
     0 < p \<and> 0 < L \<and> d = (L - p) * rs div p"
  by (auto simp: distance_to_liquidation_1e8_def)

section \<open>Properties of funding, liquidation and ledger deltas\<close>



text \<open>
  The reported distance to liquidation agrees with the trigger: a crossed
  liquidation has a non-positive distance at the adverse extreme, a negative distance
  means the liquidation is crossed, and below \<open>rate_scale\<close> ticks the two coincide.
\<close>

lemma distance_agrees_with_crossing:
  assumes "liquidation_crossed q L hi lo = Inr b" "sgn q = s" "s = 1 \<or> s = -1" "0 < L" "0 < rs"
    and "distance_to_liquidation_1e8 (if s = 1 then lo else hi) L s rs = Inr d"
  shows "(b \<longrightarrow> d \<le> 0) \<and> (d < 0 \<longrightarrow> b) \<and>
    ((if s = 1 then lo else hi) \<le> rs \<longrightarrow> (b \<longleftrightarrow> d \<le> 0))"
proof -
  let ?p = "if s = 1 then lo else hi" and ?n = "if s = 1 then lo - L else L - hi"
  have p: "0 < ?p" and d: "d = ?n * rs div ?p" and b: "b \<longleftrightarrow> ?n \<le> 0"
    using assms by (auto simp: liquidation_crossed_def distance_long_eq distance_short_eq
        sgn_if split: if_splits)
  have ge: "k \<le> d \<longleftrightarrow> k * ?p \<le> ?n * rs" for k
    unfolding d by (rule floor_le_iff[OF p])
  have "b \<longrightarrow> d \<le> 0"
    using ge[of 1] p b assms(5) by (smt (verit) mult_nonpos_nonneg)
  moreover have "d < 0 \<longrightarrow> b"
    using ge[of 0] b assms(5) by (smt (verit) mult_nonneg_nonneg mult_zero_left)
  moreover have "b" if "?p \<le> rs" "d \<le> 0"
  proof (rule ccontr)
    assume "\<not> b"
    with b have "1 * rs \<le> ?n * rs" using assms(5) by (intro mult_right_mono) auto
    with that ge[of 1] show False by simp
  qed
  ultimately show ?thesis by blast
qed

text \<open>
  Property C15. Funding is conservative: the applied rate lies between the venue floor and
  cap, the account's cash flow is the largest integer not above the exact amount owed or
  due (charges round up, credits round down), a flat account pays nothing, and a long and
  the opposite short together never receive anything and lose at most one micro.
\<close>

theorem funding_rounds_against_the_account:
  assumes "clamp_funding_rate_1e8 observed lo hi = Inr rate" "0 < qs" "0 < rs"
    and "funding_cash_flow_micro q p t rate qs rs = Inr c"
    and "funding_cash_flow_micro (- q) p t rate qs rs = Inr c'"
  shows "lo \<le> rate \<and> rate \<le> hi \<and>
    c * (qs * rs) \<le> - (q * p * t * rate) \<and> - (q * p * t * rate) < (c + 1) * (qs * rs) \<and>
    (q = 0 \<longrightarrow> c = 0) \<and> c + c' \<le> 0 \<and> -1 \<le> c + c'"
proof -
  have d: "0 < qs * rs" using assms by simp
  let ?x = "q * p * t * rate"
  have c: "c = - ceil_quot ?x (qs * rs)" "c' = - ceil_quot (- ?x) (qs * rs)"
    using assms d by (auto simp: funding_cash_flow_micro_eq)
  have c1: "c = (- ?x) div (qs * rs)" and c2: "c' = ?x div (qs * rs)"
    using c by (simp_all add: ceil_quot_def)
  note b = floor_quot_bounds[OF d, of "- ?x"] floor_quot_bounds[OF d, of ?x]
  have "(c + c') * (qs * rs) \<le> 0" using b by (simp add: c1 c2 distrib_right)
  then have "c + c' \<le> 0" using d by (metis mult_pos_pos not_le)
  moreover have "0 < (c + c' + 2) * (qs * rs)" using b by (simp add: c1 c2 algebra_simps)
  then have "0 < c + c' + 2" using d by (rule zero_less_mult_pos2)
  moreover have "lo \<le> rate \<and> rate \<le> hi" using assms(1) by (auto simp: clamp_funding_rate_eq)
  moreover have "c * (qs * rs) \<le> - ?x" "- ?x < (c + 1) * (qs * rs)" using b(1,2) by (simp_all only: c1)
  moreover have "q = 0 \<longrightarrow> c = 0" by (simp add: c1)
  ultimately show ?thesis by linarith
qed

theorem funding_rounds_against_the_account_witness:
  "funding_cash_flow_micro 230000000 996000 10000 12500 100000000 100000000 = Inr (-2863500) \<and>
   funding_cash_flow_micro (-230000000) 996000 10000 12500 100000000 100000000 = Inr 2863500 \<and>
   (-2863500) * (100000000 * 100000000) \<le> - (230000000 * 996000 * 10000 * (12500::int))"
proof -
  have h: "clamp_funding_rate_1e8 12500 (-300000) 300000 = Inr 12500"
    "funding_cash_flow_micro 230000000 996000 10000 12500 100000000 100000000 = Inr (-2863500)"
    "funding_cash_flow_micro (- 230000000) 996000 10000 12500 100000000 100000000 = Inr 2863500"
    by (simp_all add: clamp_funding_rate_1e8_def funding_cash_flow_micro_def ceil_quot_def Let_def)
  from funding_rounds_against_the_account[OF h(1) _ _ h(2) h(3)] h show ?thesis by simp
qed

text \<open>
  Realised profit is never split in the agent's favour: closing a position in
  two parts at the same price realises at most as much as closing it at once, and at most
  one micro less; and the unrealised value of a position is what closing it all realises.
\<close>

lemma realized_pnl_split_and_mark:
  assumes "realized_pnl_micro s a e m t sc = Inr x" "realized_pnl_micro s b e m t sc = Inr y"
    and "realized_pnl_micro s (a + b) e m t sc = Inr z" "0 < sc"
    and "unrealized_pnl_micro (s * (a + b)) e m t sc = Inr u"
  shows "x + y \<le> z \<and> z \<le> x + y + 1 \<and> u = z"
proof -
  let ?p = "(m - e) * (s * a) * t" and ?q = "(m - e) * (s * b) * t"
  have v: "x = ?p div sc" "y = ?q div sc" "z = (?p + ?q) div sc" "u = z"
    using assms by (auto simp: realized_pnl_micro_eq unrealized_pnl_micro_eq algebra_simps)
  note f = floor_quot_bounds[OF assms(4), of ?p] floor_quot_bounds[OF assms(4), of ?q]
  have "(x + y) * sc \<le> ?p + ?q" using f by (simp add: v distrib_right)
  then have "x + y \<le> z" using floor_le_iff[OF assms(4), of "x + y" "?p + ?q"] v by simp
  moreover have "?p + ?q < (x + y + 2) * sc" using f by (simp add: v algebra_simps)
  then have "\<not> x + y + 2 \<le> z"
    using floor_le_iff[OF assms(4), of "x + y + 2" "?p + ?q"] v(3) by simp
  ultimately show ?thesis using v by simp
qed

end
