(* ===== verification/Metrics.thy ===== *)
theory Metrics
  imports Exchange_Math
begin

text \<open>
  Model of \<open>core/metrics.py\<close>: the episode metrics as exact rational computations over
  lists of NAV observations, with the order statistics the oracle pins. \<open>sorted\<close> is
  \<open>sort\<close>; the loops over a series are folds over the list.
\<close>

section \<open>The metric functions\<close>

definition bar_returns :: "int list \<Rightarrow> fraction list result" where
  "bar_returns navs_micro =
     (if length navs_micro < 2
      then Inl (ValueError ''at least two NAV observations are required'')
      else traverse
        (\<lambda>(previous, current).
           if previous \<le> 0
           then Inl (UndefinedMetricError ''bar return is undefined after non-positive NAV'')
           else py_fraction (current - previous) previous)
        (zip navs_micro (tl navs_micro)))"

definition net_return_1e8 :: "int \<Rightarrow> int \<Rightarrow> int \<Rightarrow> int result" where
  "net_return_1e8 final_nav_micro starting_nav_micro rate_scale =
     (if starting_nav_micro \<le> 0 then Inl (ValueError ''starting NAV must be positive'')
      else Inr (floor_fraction
             (Fract ((final_nav_micro - starting_nav_micro) * rate_scale) starting_nav_micro)))"

fun drawdown_loop :: "int \<Rightarrow> int list \<Rightarrow> int \<Rightarrow> fraction \<Rightarrow> fraction result" where
  "drawdown_loop rate_scale [] peak maximum = Inr maximum"
| "drawdown_loop rate_scale (nav # navs) peak maximum =
     (let peak' = max peak nav
      in if peak' \<le> 0
         then Inl (UndefinedMetricError ''drawdown is undefined without a positive peak'')
         else drawdown_loop rate_scale navs peak'
                (max maximum (Fract ((peak' - nav) * rate_scale) peak')))"

definition max_drawdown_1e8 :: "int list \<Rightarrow> int \<Rightarrow> int result" where
  "max_drawdown_1e8 navs_micro rate_scale =
     (case navs_micro of
        [] \<Rightarrow> Inl (ValueError ''NAV series cannot be empty'')
      | first # _ \<Rightarrow>
          if first \<le> 0 then Inl (ValueError ''initial NAV must be positive'')
          else and_then (drawdown_loop rate_scale navs_micro first 0)
                 (\<lambda>maximum. Inr (floor_fraction maximum)))"

definition floor_ratio_over_sqrt :: "fraction \<Rightarrow> fraction \<Rightarrow> int result" where
  "floor_ratio_over_sqrt numerator denominator =
     (if denominator \<le> 0
      then Inl (UndefinedMetricError ''square-root denominator must be positive'')
      else let squared = (numerator * numerator) / denominator;
               root_floor = int (isqrt (nat (floor_fraction squared)))
           in if numerator \<ge> 0 then Inr root_floor
              else let exact = (case quotient_of squared of (num, den) \<Rightarrow>
                                  den = 1 \<and> root_floor * root_floor = num)
                   in Inr (- (if exact then root_floor else root_floor + 1)))"

definition sortino_1e8 :: "fraction list \<Rightarrow> int \<Rightarrow> int result" where
  "sortino_1e8 returns rate_scale =
     (if returns = [] then Inl (ValueError ''return series cannot be empty'')
      else let (total, downside_squares) =
             fold (\<lambda>v (total, downside_squares).
                     let downside = min v 0
                     in (total + v, downside_squares + downside * downside))
               returns (0, 0);
               count = of_nat (length returns);
               mean_return = total / count;
               mean_squared_downside = downside_squares / count
           in if mean_squared_downside \<le> 0
              then Inl (UndefinedMetricError
                     ''Sortino is undefined when downside deviation is zero'')
              else floor_ratio_over_sqrt (mean_return * of_int rate_scale) mean_squared_downside)"

definition cvar_5_1e8 :: "fraction list \<Rightarrow> int \<Rightarrow> int result" where
  "cvar_5_1e8 returns rate_scale =
     (if returns = [] then Inl (ValueError ''return series cannot be empty'')
      else and_then (ceil_div (int (length returns)) 20)
        (\<lambda>tail_count.
           let worst = take (nat tail_count) (sort returns);
               total = sum_list worst
           in Inr (floor_fraction (total * of_int rate_scale / of_int tail_count))))"

definition nearest_rank :: "int list \<Rightarrow> int \<Rightarrow> int \<Rightarrow> int result" where
  "nearest_rank values percentile_num percentile_den =
     (if values = [] then Inl (ValueError ''nearest-rank input cannot be empty'')
      else if percentile_den \<le> 0 \<or> \<not> (0 \<le> percentile_num \<and> percentile_num \<le> percentile_den)
      then Inl (ValueError ''percentile must be between zero and one'')
      else let ordered = sort values
           in and_then (ceil_div (percentile_num * int (length ordered)) percentile_den)
                (\<lambda>k. let rank = max 1 k in py_nth ordered (nat (rank - 1))))"

record DistanceStatistics =
  ds_min_intrabar_1e8 :: "int option"
  ds_p05_close_1e8 :: "int option"
  ds_p25_close_1e8 :: "int option"
  ds_median_close_1e8 :: "int option"

definition distance_statistics :: "int list \<Rightarrow> int list \<Rightarrow> DistanceStatistics result" where
  "distance_statistics close_distances_1e8 intrabar_distances_1e8 =
     (if close_distances_1e8 = []
      then if intrabar_distances_1e8 \<noteq> []
           then Inl (ValueError ''intrabar distances cannot exist without in-position closes'')
           else Inr \<lparr>ds_min_intrabar_1e8 = None, ds_p05_close_1e8 = None,
                     ds_p25_close_1e8 = None, ds_median_close_1e8 = None\<rparr>
      else if intrabar_distances_1e8 = []
      then Inl (ValueError ''in-position closes require intra-bar distances'')
      else and_then (nearest_rank close_distances_1e8 1 20)
        (\<lambda>p05. and_then (nearest_rank close_distances_1e8 1 4)
        (\<lambda>p25. and_then (nearest_rank close_distances_1e8 1 2)
        (\<lambda>median. Inr \<lparr>ds_min_intrabar_1e8 = Some (Min (set intrabar_distances_1e8)),
           ds_p05_close_1e8 = Some p05, ds_p25_close_1e8 = Some p25,
           ds_median_close_1e8 = Some median\<rparr>))))"

definition turnover_1e8 :: "int \<Rightarrow> int \<Rightarrow> int \<Rightarrow> int result" where
  "turnover_1e8 turnover_notional_micro starting_nav_micro rate_scale =
     (if turnover_notional_micro < 0
      then Inl (ValueError ''turnover notional must be non-negative'')
      else if starting_nav_micro \<le> 0
      then Inl (ValueError ''starting NAV must be positive'')
      else Inr (floor_fraction (Fract (turnover_notional_micro * rate_scale) starting_nav_micro)))"

fun total_fill_cost_loop :: "(int \<times> int) list \<Rightarrow> int \<Rightarrow> int result" where
  "total_fill_cost_loop [] total_cost = Inr total_cost"
| "total_fill_cost_loop ((fill_notional, reference_notional) # rest) total_cost =
     (if fill_notional < 0 \<or> reference_notional < 0
      then Inl (ValueError ''notionals must be non-negative'')
      else total_fill_cost_loop rest (total_cost + \<bar>fill_notional - reference_notional\<bar>))"

definition total_fill_cost_micro :: "(int \<times> int) list \<Rightarrow> int result" where
  "total_fill_cost_micro fill_and_reference_notionals =
     total_fill_cost_loop fill_and_reference_notionals 0"

section \<open>Drawdown against a reference definition\<close>

text \<open>The running peak up to and including observation \<open>j\<close>.\<close>

definition running_peak :: "int list \<Rightarrow> nat \<Rightarrow> int" where
  "running_peak navs j = Max (set (take (Suc j) navs))"

lemma Max_insert_max:
  "finite S \<Longrightarrow> Max (insert a (insert b S)) = Max (insert (max a b) (S :: 'a::linorder set))"
  by (cases "S = {}") (simp_all add: max.assoc)

lemma drawdown_loop_eq:
  assumes "0 < peak"
  shows "drawdown_loop sc navs peak m =
    Inr (Max (insert m ((\<lambda>j. Fract ((Max (insert peak (set (take (Suc j) navs))) - navs ! j) * sc)
      (Max (insert peak (set (take (Suc j) navs))))) ` {..<length navs})))"
  using assms
proof (induction navs arbitrary: peak m)
  case Nil
  then show ?case by simp
next
  case (Cons nav navs)
  let ?peak = "max peak nav"
  let ?f = "\<lambda>pk ns j. Fract ((Max (insert pk (set (take (Suc j) ns))) - ns ! j) * sc)
      (Max (insert pk (set (take (Suc j) ns))))"
  have pos: "0 < ?peak" using Cons.prems by simp
  have shift: "?f peak (nav # navs) (Suc j) = ?f ?peak navs j" for j
  proof -
    have "Max (insert peak (insert nav (set (take (Suc j) navs))))
        = Max (insert ?peak (set (take (Suc j) navs)))"
      by (cases "set (take (Suc j) navs) = {}") (auto simp: max.assoc)
    then show ?thesis by simp
  qed
  have "?f peak (nav # navs) ` {..<length (nav # navs)}
      = insert (?f peak (nav # navs) 0) (?f ?peak navs ` {..<length navs})"
    by (simp only: length_Cons lessThan_Suc_eq_insert_0 image_insert image_image shift)
  moreover have "?f peak (nav # navs) 0 = Fract ((?peak - nav) * sc) ?peak" by simp
  ultimately have "insert m (?f peak (nav # navs) ` {..<length (nav # navs)})
      = insert m (insert (Fract ((?peak - nav) * sc) ?peak) (?f ?peak navs ` {..<length navs}))"
    by (simp only:)
  then have "Max (insert m (?f peak (nav # navs) ` {..<length (nav # navs)}))
      = Max (insert (max m (Fract ((?peak - nav) * sc) ?peak)) (?f ?peak navs ` {..<length navs}))"
    by (simp only: Max_insert_max finite_imageI finite_lessThan)
  with Cons.IH[OF pos, of "max m (Fract ((?peak - nav) * sc) ?peak)"] pos Cons.prems
  show ?case by (simp only: drawdown_loop.simps Let_def not_le if_False) simp
qed

lemma running_peak_pos: "navs \<noteq> [] \<Longrightarrow> 0 < hd navs \<Longrightarrow> 0 < running_peak navs j"
  by (cases navs) (auto simp: running_peak_def Max_gr_iff)

text \<open>
  Property C16. The maximum drawdown computed in one pass with a running peak equals the
  reference definition: the maximum over all observations of the floored loss against the
  highest NAV seen so far.
\<close>

theorem max_drawdown_eq_reference:
  assumes "navs \<noteq> []" "0 < hd navs"
  shows "max_drawdown_1e8 navs sc =
    Inr (Max ((\<lambda>j. (running_peak navs j - navs ! j) * sc div running_peak navs j) ` {..<length navs}))"
proof -
  let ?h = "hd navs" and ?g = "\<lambda>j. Fract ((running_peak navs j - navs ! j) * sc) (running_peak navs j)"
  have pk: "Max (insert ?h (set (take (Suc j) navs))) = running_peak navs j" for j
  proof -
    have "?h \<in> set (take (Suc j) navs)" using assms(1) by (cases navs) auto
    then show ?thesis by (simp add: running_peak_def insert_absorb)
  qed
  have zero: "?g 0 = 0"
    by (cases navs) (use assms(1) in \<open>auto simp: running_peak_def rat_number_collapse\<close>)
  have "0 \<in> ?g ` {..<length navs}" using zero assms(1)
    by (intro image_eqI[of _ _ 0]) simp_all
  then have "drawdown_loop sc navs ?h 0 = Inr (Max (?g ` {..<length navs}))"
    using drawdown_loop_eq[OF assms(2), of sc navs 0] by (simp add: pk insert_absorb)
  moreover have "\<lfloor>Max (?g ` {..<length navs})\<rfloor> = Max (floor ` ?g ` {..<length navs})"
    using assms(1) by (intro mono_Max_commute) (auto simp: mono_def floor_mono lessThan_empty_iff)
  moreover have "max_drawdown_1e8 navs sc =
      and_then (drawdown_loop sc navs ?h 0) (\<lambda>maximum. Inr (floor_fraction maximum))"
    by (cases navs) (use assms in \<open>auto simp: max_drawdown_1e8_def\<close>)
  ultimately show ?thesis
    by (simp add: floor_fraction_floor image_image floor_fraction_Fract [unfolded floor_fraction_floor])
qed

theorem max_drawdown_eq_reference_witness:
  "max_drawdown_1e8 [100, 130, 91, 140, 119] 1000 = Inr 300"
proof -
  have e: "{..<length [100, 130, 91, 140, 119::int]} = {0, 1, 2, 3, 4}" by auto
  show ?thesis
    by (subst max_drawdown_eq_reference) (simp_all only: e, simp_all add: running_peak_def numeral_eq_Suc)
qed

section \<open>Square-root ratios and order statistics\<close>

lemma isqrt_floor_sqrt:
  fixes x :: rat assumes "0 \<le> x"
  shows "int (isqrt (nat \<lfloor>x\<rfloor>)) = \<lfloor>sqrt (of_rat x)\<rfloor>"
proof -
  let ?r = "int (isqrt (nat \<lfloor>x\<rfloor>))"
  have f: "0 \<le> \<lfloor>x\<rfloor>" using assms by simp
  note b = isqrt_int_bounds[OF f]
  have "(of_int (?r * ?r) :: rat) \<le> x" using b(1) by (simp only: le_floor_iff [symmetric])
  then have "(of_rat (of_int (?r * ?r)) :: real) \<le> of_rat x" by (simp only: of_rat_less_eq)
  then have lo: "(of_int ?r)\<^sup>2 \<le> (of_rat x :: real)" by (simp add: power2_eq_square of_rat_mult)
  have "x < of_int ((?r + 1) * (?r + 1))" using b(2) by (simp only: floor_less_iff [symmetric])
  then have "(of_rat x :: real) < of_rat (of_int ((?r + 1) * (?r + 1)))" by (simp only: of_rat_less)
  then have hi: "of_rat x < ((of_int ?r + 1)\<^sup>2 :: real)"
    by (simp add: power2_eq_square of_rat_mult of_rat_add)
  have "of_int ?r \<le> sqrt (of_rat x)" using lo by (intro real_le_rsqrt)
  moreover have "sqrt (of_rat x) < of_int ?r + 1" using hi by (intro real_less_lsqrt) (auto simp: assms)
  ultimately show ?thesis by (intro floor_unique [symmetric]) simp_all
qed

lemma quotient_of_square_int:
  "(case quotient_of x of (num, den) \<Rightarrow> den = 1 \<and> r * r = num) \<longleftrightarrow> x = of_int (r * r)"
proof -
  obtain n d where q: "quotient_of x = (n, d)" by (cases "quotient_of x")
  then have x: "x = of_int n / of_int d" by (rule quotient_of_div)
  show ?thesis
  proof
    assume "case quotient_of x of (num, den) \<Rightarrow> den = 1 \<and> r * r = num"
    with q x show "x = of_int (r * r)" by simp
  next
    assume "x = of_int (r * r)"
    then have "quotient_of x = (r * r, 1)" 
      by (simp add: of_int_rat quotient_of_Fract Rat.normalize_def del: of_int_mult)
    then show "case quotient_of x of (num, den) \<Rightarrow> den = 1 \<and> r * r = num" by simp
  qed
qed

lemma ceiling_sqrt_from_floor:
  fixes x :: rat assumes "0 \<le> x" and "r = \<lfloor>sqrt (of_rat x)\<rfloor>"
  shows "\<lceil>sqrt (of_rat x)\<rceil> = (if x = of_int (r * r) then r else r + 1)"
proof -
  have r0: "0 \<le> r" using assms by simp
  have *: "x = of_int (r * r) \<longleftrightarrow> sqrt (of_rat x) = of_int r"
  proof
    assume "x = of_int (r * r)"
    then have "(of_rat x :: real) = (of_int r)\<^sup>2" by (simp add: power2_eq_square of_rat_mult)
    with r0 show "sqrt (of_rat x) = of_int r" by simp
  next
    assume "sqrt (of_rat x) = of_int r"
    then have "(of_rat x :: real) = (of_int r)\<^sup>2" using assms(1) by (metis real_sqrt_pow2 zero_le_of_rat_iff)
    then have "(of_rat x :: real) = of_rat (of_int (r * r))" by (simp add: power2_eq_square of_rat_mult)
    then show "x = of_int (r * r)" by (simp only: of_rat_eq_iff)
  qed
  show ?thesis
  proof (cases "sqrt (of_rat x) = (of_int r :: real)")
    case True
    with * show ?thesis by simp
  next
    case False
    have "of_int r \<le> sqrt (of_rat x)" using assms(2) by simp
    with False have "of_int r < sqrt (of_rat x)" by simp
    moreover have "sqrt (of_rat x) \<le> of_int (r + 1)" using assms(2) by linarith
    ultimately have "\<lceil>sqrt (of_rat x)\<rceil> = r + 1" by (simp add: ceiling_unique)
    with False * show ?thesis by simp
  qed
qed

text \<open>
  Property C17. The integer-only ratio used by the Sortino metric is exact: for every
  positive denominator it is the floor of the real number \<open>numerator / sqrt denominator\<close>,
  also for negative numerators and irrational roots.
\<close>

theorem floor_ratio_over_sqrt_exact:
  assumes "0 < d"
  shows "floor_ratio_over_sqrt n d = Inr \<lfloor>of_rat n / sqrt (of_rat d) :: real\<rfloor>"
proof -
  let ?x = "n * n / d" and ?r = "\<lfloor>sqrt (of_rat (n * n / d))\<rfloor>"
  have x0: "0 \<le> ?x" using assms by simp
  have root: "int (isqrt (nat (floor_fraction ?x))) = ?r"
    by (simp only: floor_fraction_floor isqrt_floor_sqrt[OF x0])
  have ratio: "sqrt (of_rat ?x) = \<bar>of_rat n\<bar> / sqrt (of_rat d :: real)"
    by (simp add: of_rat_mult of_rat_divide real_sqrt_divide)
  show ?thesis
  proof (cases "0 \<le> n")
    case True
    then have "\<bar>of_rat n\<bar> = (of_rat n :: real)" by simp
    with True assms root ratio show ?thesis by (simp add: floor_ratio_over_sqrt_def Let_def)
  next
    case False
    then have "of_rat n / sqrt (of_rat d) = (- sqrt (of_rat ?x) :: real)"
      unfolding ratio by (simp add: of_rat_minus)
    then have "\<lfloor>of_rat n / sqrt (of_rat d) :: real\<rfloor> = - \<lceil>sqrt (of_rat ?x) :: real\<rceil>"
      by (simp only: floor_minus)
    moreover have "floor_ratio_over_sqrt n d = Inr (- (if ?x = of_int (?r * ?r) then ?r else ?r + 1))"
      using False assms
      by (simp only: floor_ratio_over_sqrt_def Let_def root quotient_of_square_int not_le if_False) simp
    ultimately show ?thesis by (simp only: ceiling_sqrt_from_floor[OF x0 refl])
  qed
qed

theorem floor_ratio_over_sqrt_exact_witness:
  "\<exists>r. floor_ratio_over_sqrt (-3) 2 = Inr r \<and> r = \<lfloor>- (3 / sqrt 2) :: real\<rfloor>"
  using floor_ratio_over_sqrt_exact[of 2 "-3"] by (simp add: of_rat_minus)

lemma sorted_count_le:
  "sorted ys \<Longrightarrow> i < length ys \<Longrightarrow> i < length (filter (\<lambda>x. x \<le> ys ! i) ys)"
proof -
  assume s: "sorted ys" and i: "i < length ys"
  have "filter (\<lambda>x. x \<le> ys ! i) (take (Suc i) ys) = take (Suc i) ys"
    using s i by (auto simp: filter_id_conv in_set_conv_nth sorted_nth_mono)
  then have "length (filter (\<lambda>x. x \<le> ys ! i) (take (Suc i) ys)) = Suc i" using i by simp
  moreover have "filter (\<lambda>x. x \<le> ys ! i) ys =
      filter (\<lambda>x. x \<le> ys ! i) (take (Suc i) ys) @ filter (\<lambda>x. x \<le> ys ! i) (drop (Suc i) ys)"
    by (metis append_take_drop_id filter_append)
  ultimately show ?thesis by simp
qed

lemma sorted_count_less:
  "sorted ys \<Longrightarrow> i < length ys \<Longrightarrow> length (filter (\<lambda>x. x < ys ! i) ys) \<le> i"
proof -
  assume s: "sorted ys" and i: "i < length ys"
  have "filter (\<lambda>x. x < ys ! i) (drop i ys) = []"
    using s i by (auto simp: filter_empty_conv in_set_conv_nth not_less sorted_nth_mono)
  then have "filter (\<lambda>x. x < ys ! i) ys = filter (\<lambda>x. x < ys ! i) (take i ys)"
    by (metis append_take_drop_id append_Nil2 filter_append)
  also have "length \<dots> \<le> length (take i ys)" by (rule length_filter_le)
  finally show ?thesis using i by simp
qed

lemma count_sort: "length (filter P (sort xs)) = length (filter P xs)"
  by (metis filter_sort length_sort)

text \<open>The rank is always inside the series, so the subscription never fails.\<close>

lemma nearest_rank_eq:
  assumes "values \<noteq> []" "0 < den" "0 \<le> num" "num \<le> den"
  defines "rank \<equiv> max 1 (ceil_quot (num * int (length values)) den)"
  shows "nearest_rank values num den = Inr (sort values ! nat (rank - 1))"
    and "1 \<le> rank" "nat (rank - 1) < length values"
proof -
  let ?n = "int (length values)"
  have "ceil_quot (num * ?n) den \<le> ?n"
    using assms by (simp add: ceil_le_iff mult.commute[of _ den] mult_right_mono)
  moreover have "1 \<le> ?n" using assms(1) by (cases "values") auto
  ultimately show r: "1 \<le> rank" "nat (rank - 1) < length values" by (auto simp: rank_def)
  then show "nearest_rank values num den = Inr (sort values ! nat (rank - 1))"
    using assms by (simp add: nearest_rank_def ceil_div_def ceil_quot_def Let_def py_nth_def)
qed

text \<open>
  The nearest-rank percentile never fails on valid arguments and returns an
  element of the series that at least the requested share of the values do not exceed,
  while strictly fewer than that share lie below it (or nothing does).
\<close>

theorem nearest_rank_is_percentile:
  assumes "values \<noteq> []" "0 < den" "0 \<le> num" "num \<le> den"
  shows "\<exists>r. nearest_rank values num den = Inr r \<and> r \<in> set values \<and>
    num * int (length values) \<le> den * int (length (filter (\<lambda>x. x \<le> r) values)) \<and>
    (den * int (length (filter (\<lambda>x. x < r) values)) < num * int (length values) \<or>
     filter (\<lambda>x. x < r) values = [])"
proof -
  let ?n = "num * int (length values)" and ?k = "ceil_quot (num * int (length values)) den"
  let ?ys = "sort values" and ?i = "nat (max 1 ?k - 1)"
  note nr = nearest_rank_eq[OF assms]
  have i: "?i < length ?ys" using nr(3) by simp
  have le: "int ?i + 1 \<le> int (length (filter (\<lambda>x. x \<le> ?ys ! ?i) values))"
    using sorted_count_le[OF sorted_sort i] unfolding count_sort by linarith
  have less: "int (length (filter (\<lambda>x. x < ?ys ! ?i) values)) \<le> int ?i"
    using sorted_count_less[OF sorted_sort i] unfolding count_sort by linarith
  have idx: "int ?i = max 1 ?k - 1" by simp
  have "?n \<le> ?k * den" by (rule ceil_quot_bounds) fact
  also have "\<dots> \<le> (int ?i + 1) * den" using assms(2) idx by (intro mult_right_mono) auto
  also have "\<dots> \<le> int (length (filter (\<lambda>x. x \<le> ?ys ! ?i) values)) * den"
    using le assms(2) by (intro mult_right_mono) auto
  finally have share: "?n \<le> den * int (length (filter (\<lambda>x. x \<le> ?ys ! ?i) values))"
    by (simp add: mult.commute)
  have below: "den * int (length (filter (\<lambda>x. x < ?ys ! ?i) values)) < ?n"
    if "filter (\<lambda>x. x < ?ys ! ?i) values \<noteq> []"
  proof -
    from that have "0 < length (filter (\<lambda>x. x < ?ys ! ?i) values)" by simp
    with less idx have "int (length (filter (\<lambda>x. x < ?ys ! ?i) values)) \<le> ?k - 1" by linarith
    then have "int (length (filter (\<lambda>x. x < ?ys ! ?i) values)) * den \<le> (?k - 1) * den"
      by (rule mult_right_mono) (simp add: assms(2) less_imp_le)
    also have "\<dots> < ?n" by (rule ceil_quot_bounds) fact
    finally show ?thesis by (simp add: mult.commute)
  qed
  have "?ys ! ?i \<in> set values" using nth_mem[OF i] by simp
  with nr(1) share below show ?thesis by blast
qed

theorem nearest_rank_is_percentile_witness:
  "nearest_rank [40, 10, 30, 20] 1 4 = Inr 10 \<and>
   (\<exists>r. nearest_rank [40, 10, 30, 20] 1 4 = Inr r \<and> r \<in> set [40, 10, 30, 20])"
proof -
  have "nearest_rank [40, 10, 30, 20] 1 4 = Inr 10"
    by (simp add: nearest_rank_def ceil_div_def Let_def)
  with nearest_rank_is_percentile[of "[40, 10, 30, 20]" 4 1] show ?thesis by auto
qed

lemma nearest_rank_mono:
  assumes "nearest_rank vs a b = Inr x" "nearest_rank vs c d = Inr y" "a * d \<le> c * b"
  shows "x \<le> y"
proof -
  from assms have g: "vs \<noteq> []" "0 < b" "0 \<le> a" "a \<le> b" "0 < d" "0 \<le> c" "c \<le> d"
    by (auto simp: nearest_rank_def split: if_splits)
  let ?n = "int (length vs)"
  have "ceil_quot (a * ?n) b \<le> ceil_quot (c * ?n) d"
  proof -
    have "c * ?n \<le> ceil_quot (c * ?n) d * d" by (rule ceil_quot_bounds) fact
    then have "c * ?n * b \<le> ceil_quot (c * ?n) d * d * b"
      using g by (intro mult_right_mono) auto
    moreover have "a * d * ?n \<le> c * b * ?n" using assms(3) by (intro mult_right_mono) auto
    ultimately have "(a * ?n) * d \<le> (ceil_quot (c * ?n) d * b) * d" by (simp add: ac_simps)
    then have "a * ?n \<le> ceil_quot (c * ?n) d * b" using g by simp
    then show ?thesis using g by (simp add: ceil_le_iff)
  qed
  with assms(1,2) nearest_rank_eq[OF g(1) g(2,3,4)] nearest_rank_eq[OF g(1) g(5,6,7)]
  show ?thesis by (auto intro!: sorted_nth_mono nat_mono diff_right_mono max.mono)
qed

text \<open>
  The distance summary exists exactly when the close and intra-bar series are
  both empty or both non-empty; its percentiles are ordered, all of them are values of the
  close series, and when every close distance is matched by an intra-bar distance that is
  not larger, the minimum bounds them all from below.
\<close>

theorem distance_statistics_ordered:
  assumes "closes \<noteq> []" "intrabar \<noteq> []" "list_all2 (\<le>) intrabar closes"
  shows "\<exists>mn p05 p25 md. distance_statistics closes intrabar =
      Inr \<lparr>ds_min_intrabar_1e8 = Some mn, ds_p05_close_1e8 = Some p05,
           ds_p25_close_1e8 = Some p25, ds_median_close_1e8 = Some md\<rparr> \<and>
    mn \<le> p05 \<and> p05 \<le> p25 \<and> p25 \<le> md \<and> {p05, p25, md} \<subseteq> set closes"
proof -
  obtain p05 where p05: "nearest_rank closes 1 20 = Inr p05" "p05 \<in> set closes"
    using nearest_rank_eq[OF assms(1), of 20 1] nth_mem[of _ "sort closes"] by force
  obtain p25 where p25: "nearest_rank closes 1 4 = Inr p25" "p25 \<in> set closes"
    using nearest_rank_eq[OF assms(1), of 4 1] nth_mem[of _ "sort closes"] by force
  obtain md where md: "nearest_rank closes 1 2 = Inr md" "md \<in> set closes"
    using nearest_rank_eq[OF assms(1), of 2 1] nth_mem[of _ "sort closes"] by force
  from p05(2) obtain i where "i < length closes" "closes ! i = p05" by (auto simp: in_set_conv_nth)
  with assms(3) have "intrabar ! i \<in> set intrabar" "intrabar ! i \<le> p05"
    by (auto simp: list_all2_conv_all_nth)
  then have "Min (set intrabar) \<le> p05" by (meson Min_le finite_set order_trans)
  moreover have "p05 \<le> p25" "p25 \<le> md"
    using nearest_rank_mono[OF p05(1) p25(1)] nearest_rank_mono[OF p25(1) md(1)] by auto
  ultimately show ?thesis using assms p05 p25 md by (auto simp: distance_statistics_def)
qed

theorem distance_statistics_ordered_witness:
  "\<exists>d. distance_statistics [50, 20, 70] [40, 20, 65] = Inr d \<and> ds_median_close_1e8 d = Some 50"
proof -
  have "nearest_rank [50, 20, 70] 1 2 = Inr 50"
    by (simp add: nearest_rank_def ceil_div_def Let_def)
  with distance_statistics_ordered[of "[50, 20, 70]" "[40, 20, 65]"] show ?thesis
    by (auto simp: distance_statistics_def and_then_eq_Inr)
qed

end
