(* ===== verification/Json.thy ===== *)
theory Json
  imports Prelude
begin

text \<open>
  The JSON-shaped values the program passes between its layers (\<open>dict[str, object]\<close>
  and its members). The type of the strings is a parameter: the engine works with plain
  strings, the canonical encoder with sequences of Unicode code points. An object is an
  association list in insertion order, as a Python \<open>dict\<close> iterates.
\<close>

datatype 's json =
    JNull
  | JBool bool
  | JInt int
  | JFloat 's
  | JStr 's
  | JArr "'s json list"
  | JObj "('s \<times> 's json) list"

text \<open>
  \<open>JFloat\<close> carries the source lexeme of a fractional number: no component of the
  program lets such a token become a binary float.
\<close>

type_synonym 's jobject = "('s \<times> 's json) list"

text \<open>\<open>d.get(k)\<close> and \<open>d.get(k, default)\<close>; a missing key reads as \<open>None\<close>.\<close>

definition dict_get_default :: "'s jobject \<Rightarrow> 's \<Rightarrow> 's json \<Rightarrow> 's json" where
  "dict_get_default d k v = (case map_of d k of None \<Rightarrow> v | Some x \<Rightarrow> x)"

definition dict_get :: "'s jobject \<Rightarrow> 's \<Rightarrow> 's json" where
  "dict_get d k = dict_get_default d k JNull"

definition dict_has :: "'s jobject \<Rightarrow> 's \<Rightarrow> bool" where
  "dict_has d k \<longleftrightarrow> map_of d k \<noteq> None"

lemma dict_get_default_Cons [simp]:
  "dict_get_default ((k', v) # d) k x = (if k = k' then v else dict_get_default d k x)"
  "dict_get_default [] k x = x"
  by (simp_all add: dict_get_default_def)

lemma dict_get_Cons [simp]:
  "dict_get ((k', v) # d) k = (if k = k' then v else dict_get d k)"
  "dict_get [] k = JNull"
  by (simp_all add: dict_get_def)

lemma dict_has_Cons [simp]:
  "dict_has ((k', v) # d) k \<longleftrightarrow> k = k' \<or> dict_has d k"
  "\<not> dict_has [] k"
  by (auto simp: dict_has_def)

text \<open>An optional integer as a JSON member.\<close>

definition opt_int :: "int option \<Rightarrow> 's json" where
  "opt_int x = (case x of None \<Rightarrow> JNull | Some n \<Rightarrow> JInt n)"

lemma opt_int_simps [simp]: "opt_int None = JNull" "opt_int (Some n) = JInt n"
  by (simp_all add: opt_int_def)

end
