(* ===== verification/Config.thy ===== *)
theory Config
  imports Json
begin

text \<open>
  Model of \<open>core/config.py\<close>: the episode configuration with its constructor checks, the
  loader that accepts the runtime and the legacy shape, and the virtual clock that
  rebases pack timestamps by whole weeks.
\<close>

section \<open>Constants and integer fields\<close>

definition WEEK_MS :: int where "WEEK_MS = 604800000"
definition MAX_REBASED_TIMESTAMP :: int where "MAX_REBASED_TIMESTAMP = 99999999999"
definition DEFAULT_STARTING_NAV_MICRO :: int where "DEFAULT_STARTING_NAV_MICRO = 10000000000"
definition DEFAULT_GROSS_LEVERAGE_CAP_LEV_1E4 :: int where
  "DEFAULT_GROSS_LEVERAGE_CAP_LEV_1E4 = 30000"
definition DEFAULT_DRAWDOWN_KILL_SWITCH_1E8 :: int where
  "DEFAULT_DRAWDOWN_KILL_SWITCH_1E8 = 20000000"
definition DEFAULT_RESPONSE_DEADLINE_MS :: int where "DEFAULT_RESPONSE_DEADLINE_MS = 120000"
definition DEFAULT_COST_PROFILES :: "string list" where
  "DEFAULT_COST_PROFILES = [''primary'', ''stress_2x'']"

lemmas config_defaults = DEFAULT_STARTING_NAV_MICRO_def DEFAULT_GROSS_LEVERAGE_CAP_LEV_1E4_def
  DEFAULT_DRAWDOWN_KILL_SWITCH_1E8_def DEFAULT_RESPONSE_DEADLINE_MS_def DEFAULT_COST_PROFILES_def

text \<open>The error carries the field name, the variable part of the message.\<close>

definition required_int :: "'s json \<Rightarrow> string \<Rightarrow> int \<Rightarrow> int result" where
  "required_int v field minimum =
     (case v of JInt n \<Rightarrow> if n < minimum then Inl (ConfigError field) else Inr n
      | _ \<Rightarrow> Inl (ConfigError field))"

definition optional_int :: "'s json \<Rightarrow> string \<Rightarrow> int \<Rightarrow> int option result" where
  "optional_int v field minimum =
     (case v of JNull \<Rightarrow> Inr None
      | _ \<Rightarrow> and_then (required_int v field minimum) (\<lambda>n. Inr (Some n)))"

lemma required_int_eq_Inr: "required_int v f lo = Inr n \<longleftrightarrow> v = JInt n \<and> lo \<le> n"
  by (auto simp: required_int_def split: json.splits if_splits)

lemma required_int_JInt [simp]:
  "required_int (JInt n) f lo = (if n < lo then Inl (ConfigError f) else Inr n)"
  by (simp add: required_int_def)

lemma optional_int_simps [simp]:
  "optional_int JNull f lo = Inr None"
  "optional_int (JInt n) f lo = (if n < lo then Inl (ConfigError f) else Inr (Some n))"
  by (simp_all add: optional_int_def)

section \<open>Episode configuration\<close>

record EffectiveLookback =
  lb_bars :: int
  lb_funding_prints :: int

definition make_EffectiveLookback :: "int \<Rightarrow> int \<Rightarrow> EffectiveLookback result" where
  "make_EffectiveLookback bars funding_prints =
     and_then (required_int (JInt bars :: string json) ''bars'' 1)
       (\<lambda>_. and_then (required_int (JInt funding_prints :: string json) ''funding_prints'' 0)
       (\<lambda>_. Inr \<lparr>lb_bars = bars, lb_funding_prints = funding_prints\<rparr>))"

record EpisodeConfig =
  cfg_starting_nav_micro :: int
  cfg_leverage_cap_gross_lev_1e4 :: int
  cfg_drawdown_kill_switch_1e8 :: int
  cfg_lookback_bars :: "int option"
  cfg_funding_prints :: "int option"
  cfg_response_deadline_ms :: int
  cfg_seed :: int
  cfg_cost_profiles :: "string list"
  cfg_turnover_cap_1e8 :: "int option"
  cfg_parse_failure_retries :: int

definition default_EpisodeConfig :: EpisodeConfig where
  "default_EpisodeConfig =
     \<lparr>cfg_starting_nav_micro = DEFAULT_STARTING_NAV_MICRO,
      cfg_leverage_cap_gross_lev_1e4 = DEFAULT_GROSS_LEVERAGE_CAP_LEV_1E4,
      cfg_drawdown_kill_switch_1e8 = DEFAULT_DRAWDOWN_KILL_SWITCH_1E8,
      cfg_lookback_bars = None, cfg_funding_prints = None,
      cfg_response_deadline_ms = DEFAULT_RESPONSE_DEADLINE_MS, cfg_seed = 0,
      cfg_cost_profiles = DEFAULT_COST_PROFILES, cfg_turnover_cap_1e8 = None,
      cfg_parse_failure_retries = 1\<rparr>"

text \<open>The checks of \<open>__post_init__\<close>, in order.\<close>

definition check_EpisodeConfig :: "EpisodeConfig \<Rightarrow> EpisodeConfig result" where
  "check_EpisodeConfig c =
     (let req = (\<lambda>n field minimum. required_int (JInt n :: string json) field minimum);
          opt = (\<lambda>n field minimum. optional_int (opt_int n :: string json) field minimum)
      in
      and_then (req (cfg_starting_nav_micro c) ''starting_nav_micro'' 1) (\<lambda>_.
      and_then (req (cfg_leverage_cap_gross_lev_1e4 c) ''leverage_cap_gross_lev_1e4'' 1) (\<lambda>_.
      and_then (req (cfg_drawdown_kill_switch_1e8 c) ''drawdown_kill_switch_1e8'' 1) (\<lambda>_.
      and_then (opt (cfg_lookback_bars c) ''lookback_bars'' 1) (\<lambda>_.
      and_then (opt (cfg_funding_prints c) ''funding_prints'' 0) (\<lambda>_.
      and_then (req (cfg_response_deadline_ms c) ''response_deadline_ms'' 1) (\<lambda>_.
      and_then (req (cfg_seed c) ''seed'' 0) (\<lambda>_.
      and_then (opt (cfg_turnover_cap_1e8 c) ''turnover_cap_1e8'' 0) (\<lambda>_.
      and_then (req (cfg_parse_failure_retries c) ''parse_failure_retries'' 0) (\<lambda>_.
        if cfg_cost_profiles c = []
        then Inl (ConfigError ''cost_profiles must contain at least one profile'')
        else if \<exists>p \<in> set (cfg_cost_profiles c). p = []
        then Inl (ConfigError ''cost_profiles must contain non-empty strings'')
        else if \<not> distinct (cfg_cost_profiles c)
        then Inl (ConfigError ''cost_profiles must not contain duplicates'')
        else if set DEFAULT_COST_PROFILES - set (cfg_cost_profiles c) \<noteq> {}
        then Inl (ConfigError ''V1 requires both cost profiles'')
        else Inr c))))))))))"

fun json_strings :: "string json list \<Rightarrow> string list option" where
  "json_strings [] = Some []"
| "json_strings (JStr s # rest) = map_option (\<lambda>ss. s # ss) (json_strings rest)"
| "json_strings (_ # rest) = None"

definition profiles_of_mapping :: "string jobject \<Rightarrow> string list result" where
  "profiles_of_mapping raw =
     (case dict_get raw ''cost_profiles'' of
        JNull \<Rightarrow>
          (case dict_get raw ''cost_profile'' of
             JNull \<Rightarrow> Inr DEFAULT_COST_PROFILES
           | JStr legacy \<Rightarrow>
               if legacy \<in> set DEFAULT_COST_PROFILES then Inr DEFAULT_COST_PROFILES
               else Inl (ConfigError ''cost_profile is not a V1 profile'')
           | _ \<Rightarrow> Inl (ConfigError ''cost_profile is not a V1 profile''))
      | JArr items \<Rightarrow>
          (case json_strings items of
             Some names \<Rightarrow> Inr names
           | None \<Rightarrow> Inl (ConfigError ''cost_profiles must be an array of strings''))
      | _ \<Rightarrow> Inl (ConfigError ''cost_profiles must be an array of strings''))"

definition config_from_mapping :: "string jobject \<Rightarrow> EpisodeConfig result" where
  "config_from_mapping raw =
     (let schema = dict_get raw ''schema'' in
      if schema \<noteq> JNull \<and> schema \<noteq> JStr ''episode_config/v1''
      then Inl (ConfigError ''schema must equal episode_config/v1 when present'')
      else
      and_then (case dict_get raw ''lookback'' of
                  JNull \<Rightarrow> Inr [] | JObj m \<Rightarrow> Inr m
                | _ \<Rightarrow> Inl (ConfigError ''lookback must be an object'')) (\<lambda>lookback.
      let lookback_bars = dict_get_default raw ''lookback_bars'' (dict_get lookback ''bars'');
          funding_prints = dict_get_default raw ''funding_prints''
                             (dict_get lookback ''funding_prints'');
          response_deadline_ms = dict_get_default raw ''response_deadline_ms''
                             (dict_get_default raw ''decision_timeout_ms''
                                (JInt DEFAULT_RESPONSE_DEADLINE_MS))
      in
      and_then (profiles_of_mapping raw) (\<lambda>profiles.
      and_then (required_int (dict_get_default raw ''starting_nav_micro''
                  (JInt DEFAULT_STARTING_NAV_MICRO)) ''starting_nav_micro'' 1) (\<lambda>starting_nav_micro.
      and_then (required_int (dict_get_default raw ''leverage_cap_gross_lev_1e4''
                  (JInt DEFAULT_GROSS_LEVERAGE_CAP_LEV_1E4))
                  ''leverage_cap_gross_lev_1e4'' 1) (\<lambda>leverage_cap.
      and_then (required_int (dict_get_default raw ''drawdown_kill_switch_1e8''
                  (JInt DEFAULT_DRAWDOWN_KILL_SWITCH_1E8))
                  ''drawdown_kill_switch_1e8'' 1) (\<lambda>kill_switch.
      and_then (optional_int lookback_bars ''lookback_bars'' 1) (\<lambda>bars.
      and_then (optional_int funding_prints ''funding_prints'' 0) (\<lambda>prints.
      and_then (required_int response_deadline_ms ''response_deadline_ms'' 1) (\<lambda>deadline.
      and_then (required_int (dict_get_default raw ''seed'' (JInt 0)) ''seed'' 0) (\<lambda>seed.
      and_then (optional_int (dict_get raw ''turnover_cap_1e8'') ''turnover_cap_1e8'' 0)
        (\<lambda>turnover_cap.
      and_then (required_int (dict_get_default raw ''parse_failure_retries'' (JInt 1))
                  ''parse_failure_retries'' 0) (\<lambda>retries.
      check_EpisodeConfig
        \<lparr>cfg_starting_nav_micro = starting_nav_micro,
         cfg_leverage_cap_gross_lev_1e4 = leverage_cap,
         cfg_drawdown_kill_switch_1e8 = kill_switch, cfg_lookback_bars = bars,
         cfg_funding_prints = prints, cfg_response_deadline_ms = deadline, cfg_seed = seed,
         cfg_cost_profiles = profiles, cfg_turnover_cap_1e8 = turnover_cap,
         cfg_parse_failure_retries = retries\<rparr>))))))))))))"

definition effective_lookback :: "EpisodeConfig \<Rightarrow> int \<Rightarrow> int \<Rightarrow> EffectiveLookback result" where
  "effective_lookback c pack_bars pack_funding_prints =
     make_EffectiveLookback
       (case cfg_lookback_bars c of Some b \<Rightarrow> b | None \<Rightarrow> pack_bars)
       (case cfg_funding_prints c of Some p \<Rightarrow> p | None \<Rightarrow> pack_funding_prints)"

definition validate_cost_profiles :: "EpisodeConfig \<Rightarrow> (string \<times> int) list \<Rightarrow> unit result" where
  "validate_cost_profiles c available =
     (if \<exists>name \<in> set (cfg_cost_profiles c). map_of available name = None
      then Inl (ConfigError ''unknown cost profile(s)'') else Inr ())"

definition to_run_config :: "EpisodeConfig \<Rightarrow> string json" where
  "to_run_config c = JObj
     [(''lookback_bars'', opt_int (cfg_lookback_bars c)),
      (''funding_prints'', opt_int (cfg_funding_prints c)),
      (''response_deadline_ms'', JInt (cfg_response_deadline_ms c)),
      (''seed'', JInt (cfg_seed c)),
      (''cost_profiles'', JArr (map JStr (cfg_cost_profiles c))),
      (''starting_nav_micro'', JInt (cfg_starting_nav_micro c)),
      (''leverage_cap_gross_lev_1e4'', JInt (cfg_leverage_cap_gross_lev_1e4 c)),
      (''drawdown_kill_switch_1e8'', JInt (cfg_drawdown_kill_switch_1e8 c)),
      (''turnover_cap_1e8'', opt_int (cfg_turnover_cap_1e8 c))]"

section \<open>The virtual clock\<close>

definition time_rebase_offset_ms :: "int \<Rightarrow> int result" where
  "time_rebase_offset_ms window_start_ts =
     and_then (required_int (JInt window_start_ts :: string json) ''window_start_ts'' 0)
       (\<lambda>start. Inr ((start div WEEK_MS) * WEEK_MS))"

definition rebase_timestamp :: "int \<Rightarrow> int \<Rightarrow> int result" where
  "rebase_timestamp real_ts offset_ms =
     and_then (required_int (JInt real_ts :: string json) ''real_ts'' 0) (\<lambda>timestamp.
     and_then (required_int (JInt offset_ms :: string json) ''offset_ms'' 0) (\<lambda>offset.
       let rebased = timestamp - offset
       in if rebased < 0 \<or> rebased > MAX_REBASED_TIMESTAMP
          then Inl (ConfigError ''timestamp falls outside the observation time domain'')
          else Inr rebased))"

record VirtualClock =
  vc_real_ts :: int
  vc_rebase_offset_ms :: int

definition make_VirtualClock :: "int \<Rightarrow> int \<Rightarrow> VirtualClock result" where
  "make_VirtualClock real_ts rebase_offset_ms =
     and_then (required_int (JInt real_ts :: string json) ''real_ts'' 0) (\<lambda>_.
     and_then (required_int (JInt rebase_offset_ms :: string json) ''rebase_offset_ms'' 0) (\<lambda>_.
     and_then (rebase_timestamp real_ts rebase_offset_ms) (\<lambda>_.
       Inr \<lparr>vc_real_ts = real_ts, vc_rebase_offset_ms = rebase_offset_ms\<rparr>)))"

definition clock_for_window :: "int \<Rightarrow> int \<Rightarrow> VirtualClock result" where
  "clock_for_window window_start_ts real_ts =
     and_then (time_rebase_offset_ms window_start_ts) (\<lambda>offset. make_VirtualClock real_ts offset)"

definition rebased_ts :: "VirtualClock \<Rightarrow> int result" where
  "rebased_ts clock = rebase_timestamp (vc_real_ts clock) (vc_rebase_offset_ms clock)"

definition advance_to :: "VirtualClock \<Rightarrow> int \<Rightarrow> VirtualClock result" where
  "advance_to clock real_ts =
     and_then (required_int (JInt real_ts :: string json) ''real_ts'' 0) (\<lambda>next_ts.
       if next_ts < vc_real_ts clock
       then Inl (ConfigError ''virtual clock cannot move backwards'')
       else make_VirtualClock next_ts (vc_rebase_offset_ms clock))"

section \<open>Properties of the configuration\<close>

text \<open>What the constructor guarantees of every configuration object.\<close>

definition valid_config :: "EpisodeConfig \<Rightarrow> bool" where
  "valid_config c \<longleftrightarrow>
     1 \<le> cfg_starting_nav_micro c \<and> 1 \<le> cfg_leverage_cap_gross_lev_1e4 c \<and>
     1 \<le> cfg_drawdown_kill_switch_1e8 c \<and>
     (\<forall>b. cfg_lookback_bars c = Some b \<longrightarrow> 1 \<le> b) \<and>
     (\<forall>p. cfg_funding_prints c = Some p \<longrightarrow> 0 \<le> p) \<and>
     1 \<le> cfg_response_deadline_ms c \<and> 0 \<le> cfg_seed c \<and>
     (\<forall>t. cfg_turnover_cap_1e8 c = Some t \<longrightarrow> 0 \<le> t) \<and> 0 \<le> cfg_parse_failure_retries c \<and>
     [] \<notin> set (cfg_cost_profiles c) \<and> distinct (cfg_cost_profiles c) \<and>
     set DEFAULT_COST_PROFILES \<subseteq> set (cfg_cost_profiles c)"

lemma optional_int_opt_int:
  "optional_int (opt_int x) f lo = Inr y \<longleftrightarrow> y = x \<and> (\<forall>n. x = Some n \<longrightarrow> lo \<le> n)"
  by (cases x) auto

lemma check_EpisodeConfig_iff: "check_EpisodeConfig c = Inr d \<longleftrightarrow> d = c \<and> valid_config c"
  unfolding check_EpisodeConfig_def Let_def and_then_eq_Inr optional_int_opt_int
    required_int_eq_Inr valid_config_def
  by (auto simp: DEFAULT_COST_PROFILES_def split: if_splits)

lemma default_config_valid: "valid_config default_EpisodeConfig"
  by (simp add: valid_config_def default_EpisodeConfig_def config_defaults)

lemma json_strings_map [simp]: "json_strings (map JStr ss) = Some ss"
  by (induction ss) simp_all



section \<open>Properties of the virtual clock\<close>

lemma rebase_timestamp_eq:
  "rebase_timestamp r off = Inr t \<longleftrightarrow>
     0 \<le> r \<and> 0 \<le> off \<and> t = r - off \<and> 0 \<le> t \<and> t \<le> MAX_REBASED_TIMESTAMP"
  by (auto simp: rebase_timestamp_def Let_def split: if_splits)

lemma time_rebase_offset_eq:
  "time_rebase_offset_ms s = Inr off \<longleftrightarrow> 0 \<le> s \<and> off = (s div WEEK_MS) * WEEK_MS"
  by (auto simp: time_rebase_offset_ms_def split: if_splits)

lemma make_VirtualClock_eq:
  "make_VirtualClock r off = Inr c \<longleftrightarrow>
     c = \<lparr>vc_real_ts = r, vc_rebase_offset_ms = off\<rparr> \<and> rebase_timestamp r off = Inr (r - off)"
  by (auto simp: make_VirtualClock_def and_then_eq_Inr rebase_timestamp_eq split: if_splits)

lemma clock_for_window_eq:
  "clock_for_window s r = Inr c \<longleftrightarrow>
     0 \<le> s \<and> c = \<lparr>vc_real_ts = r, vc_rebase_offset_ms = (s div WEEK_MS) * WEEK_MS\<rparr> \<and>
     rebase_timestamp r ((s div WEEK_MS) * WEEK_MS) = Inr (r - (s div WEEK_MS) * WEEK_MS)"
  by (auto simp: clock_for_window_def and_then_eq_Inr time_rebase_offset_eq make_VirtualClock_eq)

text \<open>
  The clock of a pack window hides the calendar but not the order: the
  rebased time lies in the closed observation domain, the first week of the window starts
  within one week of zero, the time of week is preserved, and advancing the clock
  never moves it backwards and shifts the rebased time by exactly the elapsed real time.
\<close>

lemma virtual_clock_rebases_by_whole_weeks:
  assumes "clock_for_window s r = Inr c" "advance_to c r' = Inr c'"
  shows "\<exists>t t'. rebased_ts c = Inr t \<and> rebased_ts c' = Inr t' \<and>
    0 \<le> t \<and> t' \<le> MAX_REBASED_TIMESTAMP \<and> t mod WEEK_MS = r mod WEEK_MS \<and>
    t \<le> t' \<and> t' - t = r' - r \<and>
    0 \<le> s - vc_rebase_offset_ms c \<and> s - vc_rebase_offset_ms c < WEEK_MS"
proof -
  let ?off = "(s div WEEK_MS) * WEEK_MS"
  from assms(1) have c: "c = \<lparr>vc_real_ts = r, vc_rebase_offset_ms = ?off\<rparr>"
    "rebase_timestamp r ?off = Inr (r - ?off)" by (auto simp: clock_for_window_eq)
  from assms(2) c(1) have c': "c' = \<lparr>vc_real_ts = r', vc_rebase_offset_ms = ?off\<rparr>"
    "r \<le> r'" "rebase_timestamp r' ?off = Inr (r' - ?off)"
    by (auto simp: advance_to_def make_VirtualClock_eq split: if_splits)
  have week: "s - ?off = s mod WEEK_MS" by (simp add: minus_div_mult_eq_mod)
  have "(r - ?off) mod WEEK_MS = r mod WEEK_MS" by (simp add: mod_diff_eq [symmetric])
  moreover have "0 \<le> s mod WEEK_MS" "s mod WEEK_MS < WEEK_MS" by (simp_all add: WEEK_MS_def)
  ultimately show ?thesis
    using c c' week by (auto simp: rebased_ts_def rebase_timestamp_eq)
qed

end
