(* ===== verification/Pack.thy ===== *)
theory Pack
  imports Config "HOL-Library.List_Lexorder" "HOL-Library.Char_ord"
begin

text \<open>
  The engine-facing data of \<open>core/pack.py\<close>: price and funding rows with their
  provenance, the venue specification of a market, the never-conflated source series, and
  the pack with its actionable bars and scheduled clock.
\<close>

section \<open>Rows and specifications\<close>

record RowProvenance =
  pv_market :: string
  pv_role :: string
  pv_path :: string
  pv_row_index :: nat
  pv_ts :: int
  pv_available_at :: int

record BarRow =
  br_ts :: int
  br_available_at :: int
  br_o :: int
  br_h :: int
  br_l :: int
  br_c :: int
  br_v_base_1e8 :: int
  br_provenance :: RowProvenance

definition bar_observation_mapping :: "BarRow \<Rightarrow> int \<Rightarrow> string json result" where
  "bar_observation_mapping row offset_ms =
     and_then (rebase_timestamp (br_ts row) offset_ms) (\<lambda>ts.
     and_then (rebase_timestamp (br_available_at row) offset_ms) (\<lambda>available_at.
       Inr (JObj [(''ts'', JInt ts), (''available_at'', JInt available_at),
                  (''o'', JInt (br_o row)), (''h'', JInt (br_h row)), (''l'', JInt (br_l row)),
                  (''c'', JInt (br_c row)), (''v_base_1e8'', JInt (br_v_base_1e8 row))])))"

record FundingRow =
  fd_ts :: int
  fd_available_at :: int
  fd_rate_1e8 :: int
  fd_provenance :: RowProvenance

definition funding_observation_mapping :: "FundingRow \<Rightarrow> int \<Rightarrow> string json result" where
  "funding_observation_mapping row offset_ms =
     and_then (rebase_timestamp (fd_ts row) offset_ms) (\<lambda>ts.
       Inr (JObj [(''ts'', JInt ts), (''rate_1e8'', JInt (fd_rate_1e8 row))]))"

record FundingSpec =
  fs_interval_ms :: int
  fs_settlement_offsets_ms :: "int list"
  fs_cap_1e8 :: int
  fs_floor_1e8 :: int

record MarginTier =
  mt_notional_cap_micro :: int
  mt_initial_rate_1e8 :: int
  mt_maintenance_rate_1e8 :: int

record MarketSpec =
  ms_alias :: string
  ms_tick_size_micro :: int
  ms_qty_step_base_1e8 :: int
  ms_min_notional_micro :: int
  ms_maker_fee_rate_1e8 :: int
  ms_taker_fee_rate_1e8 :: int
  ms_leverage_cap_lev_1e4 :: int
  ms_margin_tiers :: "MarginTier list"
  ms_liquidation_penalty_1e8 :: int
  ms_funding :: FundingSpec
  ms_half_spread_1e8 :: int
  ms_impact_model :: string
  ms_impact_coeff_1e8 :: int
  ms_participation_cap_1e8 :: int
  ms_cost_profile_multipliers_1e4 :: "(string \<times> int) list"

section \<open>Source series\<close>

record MarketData =
  md_spec :: MarketSpec
  md_trade :: "BarRow list"
  md_mark :: "BarRow list"
  md_index :: "BarRow list"
  md_funding :: "FundingRow list"

definition available_trade :: "MarketData \<Rightarrow> int \<Rightarrow> BarRow list" where
  "available_trade m clock_ts = filter (\<lambda>row. br_available_at row \<le> clock_ts) (md_trade m)"

definition available_mark :: "MarketData \<Rightarrow> int \<Rightarrow> BarRow list" where
  "available_mark m clock_ts = filter (\<lambda>row. br_available_at row \<le> clock_ts) (md_mark m)"

definition available_index :: "MarketData \<Rightarrow> int \<Rightarrow> BarRow list" where
  "available_index m clock_ts = filter (\<lambda>row. br_available_at row \<le> clock_ts) (md_index m)"

definition available_funding :: "MarketData \<Rightarrow> int \<Rightarrow> FundingRow list" where
  "available_funding m clock_ts = filter (\<lambda>row. fd_available_at row \<le> clock_ts) (md_funding m)"

section \<open>The pack\<close>

record PackData =
  pk_root :: string
  pk_pack_id :: string
  pk_content_hash :: string
  pk_window_start_ts :: int
  pk_window_end_ts :: int
  pk_decision_bar_ms :: int
  pk_warmup_bars :: nat
  pk_default_lookback :: EffectiveLookback
  pk_markets :: "(string \<times> MarketData) list"
  pk_manifest :: "string jobject"

definition market_aliases :: "PackData \<Rightarrow> string list" where
  "market_aliases p = sort (map fst (pk_markets p))"

definition bars_total :: "PackData \<Rightarrow> nat result" where
  "bars_total p =
     (if pk_markets p = [] then Inl (ValueError ''min() iterable argument is empty'')
      else let shortest = Min (set (map (\<lambda>(_, m). length (md_trade m)) (pk_markets p)));
               total_bars = int shortest - int (pk_warmup_bars p) - 1
           in if total_bars < 1 then Inl (PackError ''pack has no actionable decision bars'')
              else Inr (nat total_bars))"

definition pack_market :: "PackData \<Rightarrow> string \<Rightarrow> MarketData result" where
  "pack_market p alias =
     (case map_of (pk_markets p) alias of
        None \<Rightarrow> Inl (PackError ''unknown market'') | Some m \<Rightarrow> Inr m)"

definition clock_real_ts :: "PackData \<Rightarrow> nat \<Rightarrow> int result" where
  "clock_real_ts p turn =
     and_then (bars_total p) (\<lambda>bars.
       if turn \<ge> bars then Inl (PackError ''turn is outside episode range'')
       else let close_number = int (pk_warmup_bars p) + int turn + 1;
                clock = pk_window_start_ts p + close_number * pk_decision_bar_ms p
            in if clock > pk_window_end_ts p
               then Inl (PackError ''scheduled virtual clock exceeds pack window'')
               else Inr clock)"

section \<open>The availability interface\<close>

text \<open>
  What a consumer of a source series relies on: the visible rows are stored rows in stored
  order, all of them published at or before the clock, and they do not depend on anything
  published later.
\<close>

locale published_series =
  fixes rows :: "'m \<Rightarrow> 'r list"
    and published_at :: "'r \<Rightarrow> int"
    and visible :: "'m \<Rightarrow> int \<Rightarrow> 'r list"
  assumes visible_rows: "visible m t = filter (\<lambda>r. published_at r \<le> t) (rows m)"
begin

lemma not_from_the_future: "r \<in> set (visible m t) \<Longrightarrow> published_at r \<le> t"
  by (simp add: visible_rows)

lemma stored: "r \<in> set (visible m t) \<Longrightarrow> r \<in> set (rows m)"
  by (simp add: visible_rows)

lemma grows: "t \<le> t' \<Longrightarrow> set (visible m t) \<subseteq> set (visible m t')"
  by (auto simp: visible_rows)

lemma causal:
  "filter (\<lambda>r. published_at r \<le> t) (rows m) = filter (\<lambda>r. published_at r \<le> t) (rows m') \<Longrightarrow>
     visible m t = visible m' t"
  by (simp add: visible_rows)

lemma lookback_not_from_the_future:
  "r \<in> set (drop n (visible m t)) \<Longrightarrow> published_at r \<le> t"
  by (meson in_set_dropD not_from_the_future)

lemma last_not_from_the_future: "visible m t \<noteq> [] \<Longrightarrow> published_at (last (visible m t)) \<le> t"
  by (rule not_from_the_future) (rule last_in_set)

end

interpretation trade_series: published_series md_trade br_available_at available_trade
  by unfold_locales (rule available_trade_def)

interpretation mark_series: published_series md_mark br_available_at available_mark
  by unfold_locales (rule available_mark_def)

interpretation index_series: published_series md_index br_available_at available_index
  by unfold_locales (rule available_index_def)

interpretation funding_series: published_series md_funding fd_available_at available_funding
  by unfold_locales (rule available_funding_def)

section \<open>The scheduled clock\<close>

lemma clock_real_ts_eq:
  "clock_real_ts p turn = Inr t \<longleftrightarrow>
     (\<exists>bars. bars_total p = Inr bars \<and> turn < bars) \<and>
     t = pk_window_start_ts p + (int (pk_warmup_bars p) + int turn + 1) * pk_decision_bar_ms p \<and>
     t \<le> pk_window_end_ts p"
  by (cases "bars_total p") (auto simp: clock_real_ts_def Let_def split: if_splits)

lemma bars_total_bound:
  assumes "bars_total p = Inr bars" "map_of (pk_markets p) alias = Some m"
  shows "0 < bars" "pk_warmup_bars p + bars + 1 \<le> length (md_trade m)"
proof -
  let ?L = "set (map (\<lambda>(_, m). length (md_trade m)) (pk_markets p))"
  from assms(2) have "(alias, m) \<in> set (pk_markets p)" by (rule map_of_SomeD)
  then have "length (md_trade m) \<in> ?L" by force
  then have "Min ?L \<le> length (md_trade m)" by (intro Min_le) auto
  with assms(1) show "0 < bars" "pk_warmup_bars p + bars + 1 \<le> length (md_trade m)"
    by (auto simp: bars_total_def Let_def split: if_splits)
qed

end
