(* ===== verification/Engine_Account.thy ===== *)
theory Engine_Account
  imports Margin_Math Metrics Pack
begin

text \<open>
  The account side of \<open>core/engine.py\<close>: the mutable account, the event log, bar
  snapshots, funding settlement and the position fill. A method that mutates the account
  returns the updated record.
\<close>

section \<open>Account, snapshots and events\<close>

record Account =
  ac_position_qty_base_1e8 :: int
  ac_entry_px_ticks :: int
  ac_target_leverage_1e4 :: int
  ac_cash_micro :: int
  ac_fees_cum_micro :: int
  ac_funding_cum_micro :: int
  ac_realized_price_cum_micro :: int
  ac_liquidation_penalty_cum_micro :: int
  ac_turnover_notional_micro :: int
  ac_fill_cost_cum_micro :: int
  ac_kill_switch_active :: bool

text \<open>\<open>_Account(cash_micro=...)\<close>: every other field has its default.\<close>

definition new_account :: "int \<Rightarrow> Account" where
  "new_account cash =
     \<lparr>ac_position_qty_base_1e8 = 0, ac_entry_px_ticks = 0, ac_target_leverage_1e4 = 0,
      ac_cash_micro = cash, ac_fees_cum_micro = 0, ac_funding_cum_micro = 0,
      ac_realized_price_cum_micro = 0, ac_liquidation_penalty_cum_micro = 0,
      ac_turnover_notional_micro = 0, ac_fill_cost_cum_micro = 0,
      ac_kill_switch_active = False\<rparr>"

record Snapshot =
  sn_bar_index :: nat
  sn_absolute_bar_index :: nat
  sn_close_ts :: int
  sn_position_qty_base_1e8 :: int
  sn_entry_px_ticks :: "int option"
  sn_mark_close_ticks :: int
  sn_upnl_micro :: int
  sn_cash_micro :: int
  sn_nav_micro :: int
  sn_fees_cum_micro :: int
  sn_funding_cum_micro :: int
  sn_realized_price_cum_micro :: int
  sn_liquidation_penalty_cum_micro :: int
  sn_margin_micro :: int
  sn_maintenance_margin_micro :: int
  sn_liquidation_px_ticks :: "int option"
  sn_distance_to_liquidation_1e8 :: "int option"
  sn_min_intrabar_distance_1e8 :: "int option"

text \<open>One line of the event log (the constant \<open>schema\<close> member is left out).\<close>

record event =
  ev_seq :: nat
  ev_ts :: int
  ev_turn :: "nat option"
  ev_bar_index :: "nat option"
  ev_source :: string
  ev_type :: string
  ev_payload :: "string json"

text \<open>\<open>_emit\<close> appends one event, numbered by its position, and returns the number.\<close>

definition emit ::
    "event list \<Rightarrow> string \<Rightarrow> string json \<Rightarrow> int \<Rightarrow> nat option \<Rightarrow> nat option \<Rightarrow> string
      \<Rightarrow> event list \<times> nat" where
  "emit events event_type payload ts turn bar_index source =
     (let seq = length events
      in (events @ [\<lparr>ev_seq = seq, ev_ts = ts, ev_turn = turn, ev_bar_index = bar_index,
                     ev_source = source, ev_type = event_type, ev_payload = payload\<rparr>], seq))"

definition py_sign :: "int \<Rightarrow> int" where
  "py_sign v = (if v > 0 then 1 else if v < 0 then -1 else 0)"

lemma py_sign_sgn: "py_sign v = sgn v"
  by (simp add: py_sign_def sgn_if)

definition maintenance_rate :: "MarketSpec \<Rightarrow> int \<Rightarrow> int result" where
  "maintenance_rate spec notional =
     (case find (\<lambda>tier. notional \<le> mt_notional_cap_micro tier) (ms_margin_tiers spec) of
        Some tier \<Rightarrow> Inr (mt_maintenance_rate_1e8 tier)
      | None \<Rightarrow> if ms_margin_tiers spec = [] then Inl IndexError
                else Inr (mt_maintenance_rate_1e8 (last (ms_margin_tiers spec))))"

definition account_upnl :: "Account \<Rightarrow> int \<Rightarrow> MarketSpec \<Rightarrow> int result" where
  "account_upnl account mark_ticks spec =
     (if ac_position_qty_base_1e8 account = 0 then Inr 0
      else unrealized_pnl_micro (ac_position_qty_base_1e8 account) (ac_entry_px_ticks account)
             mark_ticks (ms_tick_size_micro spec) QTY_SCALE)"

text \<open>The position-dependent fields of a snapshot.\<close>

record position_view =
  pw_entry :: "int option"
  pw_margin :: int
  pw_maintenance :: int
  pw_liquidation :: "int option"
  pw_distance :: "int option"
  pw_min_distance :: "int option"

definition position_view_of :: "Account \<Rightarrow> MarketSpec \<Rightarrow> BarRow \<Rightarrow> position_view result" where
  "position_view_of account spec mark =
     (if ac_position_qty_base_1e8 account = 0
      then Inr \<lparr>pw_entry = None, pw_margin = 0, pw_maintenance = 0, pw_liquidation = None,
                pw_distance = None, pw_min_distance = None\<rparr>
      else
      let position = ac_position_qty_base_1e8 account; entry = ac_entry_px_ticks account;
          tick = ms_tick_size_micro spec; position_sign = py_sign position
      in
      and_then (notional_micro position (br_c mark) tick QTY_SCALE) (\<lambda>mark_notional.
      and_then (maintenance_rate spec mark_notional) (\<lambda>rate.
      and_then (liquidation_price_ticks entry position_sign (ac_target_leverage_1e4 account) rate
                  LEVERAGE_SCALE RATE_SCALE) (\<lambda>liquidation.
      and_then (distance_to_liquidation_1e8 (br_c mark) liquidation position_sign RATE_SCALE)
        (\<lambda>distance.
      let adverse = (if position_sign > 0 then br_l mark else br_h mark) in
      and_then (distance_to_liquidation_1e8 adverse liquidation position_sign RATE_SCALE)
        (\<lambda>min_distance.
      and_then (margin_used_micro position entry tick (ac_target_leverage_1e4 account)
                  QTY_SCALE LEVERAGE_SCALE) (\<lambda>margin.
      and_then (maintenance_margin_micro position (br_c mark) tick rate QTY_SCALE RATE_SCALE)
        (\<lambda>maintenance.
      Inr \<lparr>pw_entry = Some entry, pw_margin = margin, pw_maintenance = maintenance,
           pw_liquidation = Some liquidation, pw_distance = Some distance,
           pw_min_distance = Some min_distance\<rparr>))))))))"

definition snapshot :: "Account \<Rightarrow> MarketData \<Rightarrow> nat \<Rightarrow> nat \<Rightarrow> int option \<Rightarrow> Snapshot result" where
  "snapshot account market absolute_bar_index relative_bar_index close_ts =
     and_then (py_nth (md_mark market) absolute_bar_index) (\<lambda>mark.
     and_then (account_upnl account (br_c mark) (md_spec market)) (\<lambda>upnl.
     and_then (position_view_of account (md_spec market) mark) (\<lambda>view.
     and_then (case close_ts of
                 None \<Rightarrow> and_then (py_nth (md_trade market) absolute_bar_index)
                           (\<lambda>row. Inr (br_available_at row))
               | Some ts \<Rightarrow> Inr ts) (\<lambda>ts.
     Inr \<lparr>sn_bar_index = relative_bar_index, sn_absolute_bar_index = absolute_bar_index,
          sn_close_ts = ts, sn_position_qty_base_1e8 = ac_position_qty_base_1e8 account,
          sn_entry_px_ticks = pw_entry view, sn_mark_close_ticks = br_c mark,
          sn_upnl_micro = upnl, sn_cash_micro = ac_cash_micro account,
          sn_nav_micro = ac_cash_micro account + upnl,
          sn_fees_cum_micro = ac_fees_cum_micro account,
          sn_funding_cum_micro = ac_funding_cum_micro account,
          sn_realized_price_cum_micro = ac_realized_price_cum_micro account,
          sn_liquidation_penalty_cum_micro = ac_liquidation_penalty_cum_micro account,
          sn_margin_micro = pw_margin view, sn_maintenance_margin_micro = pw_maintenance view,
          sn_liquidation_px_ticks = pw_liquidation view,
          sn_distance_to_liquidation_1e8 = pw_distance view,
          sn_min_intrabar_distance_1e8 = pw_min_distance view\<rparr>))))"

definition drawdown_1e8 :: "Snapshot list \<Rightarrow> int result" where
  "drawdown_1e8 snapshots =
     (if snapshots = [] then Inl (ValueError ''max() iterable argument is empty'')
      else let peak = Max (set (map sn_nav_micro snapshots))
           in if peak \<le> 0 then Inl (EngineError ''episode NAV has no positive peak'')
              else Inr (floor_fraction
                     (Fract ((peak - sn_nav_micro (last snapshots)) * RATE_SCALE) peak)))"

definition account_realized_pnl :: "Account \<Rightarrow> int" where
  "account_realized_pnl account =
     ac_realized_price_cum_micro account - ac_fees_cum_micro account
       - ac_funding_cum_micro account - ac_liquidation_penalty_cum_micro account"

section \<open>Funding settlement\<close>

definition applied_funding ::
    "Account \<Rightarrow> MarketData \<Rightarrow> FundingRow \<Rightarrow> ((int \<times> int \<times> int) \<times> Account) result" where
  "applied_funding account market funding_row =
     and_then (clamp_funding_rate_1e8 (fd_rate_1e8 funding_row)
                 (fs_floor_1e8 (ms_funding (md_spec market)))
                 (fs_cap_1e8 (ms_funding (md_spec market)))) (\<lambda>applied_rate.
     case find (\<lambda>row. br_ts row = fd_ts funding_row) (md_index market) of
       None \<Rightarrow> Inl (EngineError ''funding settlement has no exact index-price row'')
     | Some row \<Rightarrow>
         let index_px = br_o row in
         and_then (funding_cash_flow_micro (ac_position_qty_base_1e8 account) index_px
                     (ms_tick_size_micro (md_spec market)) applied_rate QTY_SCALE RATE_SCALE)
           (\<lambda>cash_flow.
         Inr ((applied_rate, index_px, cash_flow),
              account\<lparr>ac_cash_micro := ac_cash_micro account + cash_flow,
                      ac_funding_cum_micro := ac_funding_cum_micro account - cash_flow\<rparr>)))"

section \<open>Position fills\<close>

record position_fill =
  pf_signed_fill_qty :: int
  pf_fill_px_ticks :: int
  pf_requested_target_leverage_1e4 :: int
  pf_fee :: int
  pf_fill_notional :: int
  pf_reference_notional :: int
  pf_request_fully_filled :: bool

text \<open>The realised part of a fill: only a reduction, close or flip realises anything.\<close>

definition realized_by_fill :: "Account \<Rightarrow> position_fill \<Rightarrow> MarketSpec \<Rightarrow> int result" where
  "realized_by_fill account f spec =
     (let old_position = ac_position_qty_base_1e8 account;
          new_position = old_position + pf_signed_fill_qty f
      in if old_position \<noteq> 0 \<and>
            (new_position = 0 \<or> py_sign new_position \<noteq> py_sign old_position \<or>
             \<bar>new_position\<bar> < \<bar>old_position\<bar>)
         then let closed = min \<bar>old_position\<bar> \<bar>pf_signed_fill_qty f\<bar>
              in realized_pnl_micro (py_sign old_position) closed (ac_entry_px_ticks account)
                   (pf_fill_px_ticks f) (ms_tick_size_micro spec) QTY_SCALE
         else Inr 0)"

definition apply_position_fill :: "Account \<Rightarrow> position_fill \<Rightarrow> MarketSpec \<Rightarrow> Account result" where
  "apply_position_fill account f spec =
     (let old_position = ac_position_qty_base_1e8 account;
          new_position = old_position + pf_signed_fill_qty f
      in
      and_then (realized_by_fill account f spec) (\<lambda>realized.
      let account = account
            \<lparr>ac_cash_micro := ac_cash_micro account + (realized - pf_fee f),
             ac_fees_cum_micro := ac_fees_cum_micro account + pf_fee f,
             ac_realized_price_cum_micro := ac_realized_price_cum_micro account + realized,
             ac_turnover_notional_micro := ac_turnover_notional_micro account + pf_fill_notional f,
             ac_fill_cost_cum_micro := ac_fill_cost_cum_micro account
               + \<bar>pf_fill_notional f - pf_reference_notional f\<bar>\<rparr>
      in Inr
        (if new_position = 0
         then account\<lparr>ac_position_qty_base_1e8 := 0, ac_entry_px_ticks := 0,
                      ac_target_leverage_1e4 := 0\<rparr>
         else if old_position = 0 \<or> py_sign new_position \<noteq> py_sign old_position
         then account\<lparr>ac_position_qty_base_1e8 := new_position,
                      ac_entry_px_ticks := pf_fill_px_ticks f,
                      ac_target_leverage_1e4 := \<bar>pf_requested_target_leverage_1e4 f\<bar>\<rparr>
         else account\<lparr>
           ac_entry_px_ticks :=
             (if \<bar>new_position\<bar> > \<bar>old_position\<bar>
              then (ac_entry_px_ticks account * \<bar>old_position\<bar>
                      + pf_fill_px_ticks f * \<bar>pf_signed_fill_qty f\<bar>) div \<bar>new_position\<bar>
              else ac_entry_px_ticks account),
           ac_position_qty_base_1e8 := new_position,
           ac_target_leverage_1e4 :=
             (if \<bar>new_position\<bar> > \<bar>old_position\<bar> \<or> pf_request_fully_filled f
              then \<bar>pf_requested_target_leverage_1e4 f\<bar>
              else ac_target_leverage_1e4 account)\<rparr>)))"

definition margin_payload :: "Account \<Rightarrow> MarketData \<Rightarrow> nat \<Rightarrow> string json result" where
  "margin_payload account market absolute_bar_index =
     and_then (py_nth (md_mark market) absolute_bar_index) (\<lambda>mark.
     let head = [(''market'', JStr (ms_alias (md_spec market))),
                 (''mark_px_ticks'', JInt (br_c mark)), (''mark_high_ticks'', JInt (br_h mark)),
                 (''mark_low_ticks'', JInt (br_l mark))]
     in if ac_position_qty_base_1e8 account = 0
        then Inr (JObj (head @
          [(''position_qty_base_1e8'', JInt 0), (''entry_px_ticks'', JNull),
           (''margin_micro'', JInt 0), (''maintenance_margin_micro'', JInt 0),
           (''upnl_micro'', JInt 0), (''liq_px_ticks'', JNull), (''dist_to_liq_1e8'', JNull),
           (''min_intrabar_dist_to_liq_1e8'', JNull)]))
        else and_then (snapshot account market absolute_bar_index 0 None) (\<lambda>snap.
          Inr (JObj (head @
          [(''position_qty_base_1e8'', JInt (ac_position_qty_base_1e8 account)),
           (''entry_px_ticks'', JInt (ac_entry_px_ticks account)),
           (''margin_micro'', JInt (sn_margin_micro snap)),
           (''maintenance_margin_micro'', JInt (sn_maintenance_margin_micro snap)),
           (''upnl_micro'', JInt (sn_upnl_micro snap)),
           (''liq_px_ticks'', opt_int (sn_liquidation_px_ticks snap)),
           (''dist_to_liq_1e8'', opt_int (sn_distance_to_liquidation_1e8 snap)),
           (''min_intrabar_dist_to_liq_1e8'', opt_int (sn_min_intrabar_distance_1e8 snap))]))))"

end
