(* ===== verification/Unicode.thy ===== *)
theory Unicode
  imports Prelude "HOL-Library.Word"
begin

text \<open>
  Text as the Python runtime sees it: a string is a sequence of code points (lone
  surrogates included), bytes are 8-bit words. UTF-8 in both directions with the strict
  error handler, and the big-endian UTF-16 form used as a sort key.
\<close>

type_synonym byte = "8 word"
type_synonym codepoint = nat
type_synonym ustring = "codepoint list"

definition ascii :: "string \<Rightarrow> ustring" where
  "ascii s = map of_char s"

lemma ascii_simps:
  "ascii [] = []" "ascii (c # s) = of_char c # ascii s" "ascii (s @ t) = ascii s @ ascii t"
  by (simp_all add: ascii_def)

lemma ascii_inject [simp]: "ascii s = ascii t \<longleftrightarrow> s = t"
  unfolding ascii_def by (rule inj_map_eq_map) (simp add: inj_def of_char_eq_iff)

lemma length_ascii [simp]: "length (ascii s) = length s"
  by (simp add: ascii_def)

definition is_surrogate :: "codepoint \<Rightarrow> bool" where
  "is_surrogate c \<longleftrightarrow> 0xD800 \<le> c \<and> c \<le> 0xDFFF"

definition scalar_value :: "codepoint \<Rightarrow> bool" where
  "scalar_value c \<longleftrightarrow> c \<le> 0x10FFFF \<and> \<not> is_surrogate c"

section \<open>UTF-8\<close>

definition utf8_units :: "codepoint \<Rightarrow> nat list" where
  "utf8_units c =
     (if c < 0x80 then [c]
      else if c < 0x800 then [0xC0 + c div 0x40, 0x80 + c mod 0x40]
      else if c < 0x10000
      then [0xE0 + c div 0x1000, 0x80 + c div 0x40 mod 0x40, 0x80 + c mod 0x40]
      else [0xF0 + c div 0x40000, 0x80 + c div 0x1000 mod 0x40, 0x80 + c div 0x40 mod 0x40,
            0x80 + c mod 0x40])"

text \<open>\<open>str.encode("utf-8")\<close>; \<open>None\<close> is a \<open>UnicodeEncodeError\<close>.\<close>

definition utf8_encode :: "ustring \<Rightarrow> byte list option" where
  "utf8_encode s =
     (if list_all scalar_value s then Some (map of_nat (concat (map utf8_units s))) else None)"

definition continuation :: "nat \<Rightarrow> bool" where
  "continuation b \<longleftrightarrow> 0x80 \<le> b \<and> b \<le> 0xBF"

text \<open>
  \<open>bytes.decode("utf-8")\<close>; \<open>None\<close> is a \<open>UnicodeDecodeError\<close>: stray or missing continuation
  bytes, overlong forms, values above U+10FFFF, and surrogates unless the error handler is
  \<open>surrogatepass\<close> (the flag \<open>pass\<close>).
\<close>

definition utf8_char :: "bool \<Rightarrow> nat \<Rightarrow> nat list \<Rightarrow> (codepoint \<times> nat list) option" where
  "utf8_char pass a bs =
     (if a < 0x80 then Some (a, bs)
      else case bs of
        [] \<Rightarrow> None
      | b # cs \<Rightarrow>
          if \<not> continuation b then None
          else if 0xC2 \<le> a \<and> a \<le> 0xDF then Some ((a - 0xC0) * 0x40 + (b - 0x80), cs)
          else case cs of
            [] \<Rightarrow> None
          | c # ds \<Rightarrow>
              if \<not> continuation c then None
              else if 0xE0 \<le> a \<and> a \<le> 0xEF
              then let v = (a - 0xE0) * 0x1000 + (b - 0x80) * 0x40 + (c - 0x80)
                   in if 0x800 \<le> v \<and> (pass \<or> \<not> is_surrogate v) then Some (v, ds) else None
              else case ds of
                [] \<Rightarrow> None
              | d # es \<Rightarrow>
                  if \<not> continuation d then None
                  else if 0xF0 \<le> a \<and> a \<le> 0xF4
                  then let v = (a - 0xF0) * 0x40000 + (b - 0x80) * 0x1000 + (c - 0x80) * 0x40
                               + (d - 0x80)
                       in if 0x10000 \<le> v \<and> v \<le> 0x10FFFF then Some (v, es) else None
                  else None)"

lemma utf8_char_shorter: "utf8_char pass a bs = Some (c, rest) \<Longrightarrow> length rest < Suc (length bs)"
  by (auto simp: utf8_char_def Let_def split: if_split_asm list.split_asm)

function utf8_decode_units :: "bool \<Rightarrow> nat list \<Rightarrow> ustring option" where
  "utf8_decode_units pass [] = Some []"
| "utf8_decode_units pass (a # bs) =
     (case utf8_char pass a bs of
        None \<Rightarrow> None
      | Some (c, rest) \<Rightarrow> map_option ((#) c) (utf8_decode_units pass rest))"
  by pat_completeness auto
termination by (relation "measure (length \<circ> snd)") (auto dest: utf8_char_shorter)

definition utf8_decode :: "byte list \<Rightarrow> ustring option" where
  "utf8_decode bs = utf8_decode_units False (map unat bs)"

lemma utf8_units_bound: "scalar_value c \<Longrightarrow> u \<in> set (utf8_units c) \<Longrightarrow> u < 256"
  by (auto simp: utf8_units_def scalar_value_def split: if_splits)

lemma base64_digits:
  fixes c :: nat
  shows "c div 0x1000 * 0x1000 + c div 0x40 mod 0x40 * 0x40 + c mod 0x40 = c"
    "c div 0x40000 * 0x40000 + c div 0x1000 mod 0x40 * 0x1000 + c div 0x40 mod 0x40 * 0x40
       + c mod 0x40 = c"
    "c div 0x40 * 0x40 + c mod 0x40 = c"
proof -
  have d: "c div 0x1000 = c div 0x40 div 0x40" "c div 0x40000 = c div 0x40 div 0x40 div 0x40"
    by (simp_all add: div_mult2_eq [symmetric])
  note e = div_mult_mod_eq[of c "0x40"] div_mult_mod_eq[of "c div 0x40" "0x40"]
    div_mult_mod_eq[of "c div 0x40 div 0x40" "0x40"]
  show "c div 0x40 * 0x40 + c mod 0x40 = c" by (rule e)
  show "c div 0x1000 * 0x1000 + c div 0x40 mod 0x40 * 0x40 + c mod 0x40 = c"
    unfolding d using e(1,2) by linarith
  show "c div 0x40000 * 0x40000 + c div 0x1000 mod 0x40 * 0x1000 + c div 0x40 mod 0x40 * 0x40
       + c mod 0x40 = c"
    unfolding d using e by linarith
qed

lemma sextet [simp]: "(c::nat) mod 0x40 \<le> 0x3F"
  using mod_less_divisor[of "0x40" c] by linarith

lemma utf8_decode_char:
  assumes "scalar_value c"
  shows "utf8_decode_units pass (utf8_units c @ rest) = map_option ((#) c) (utf8_decode_units pass rest)"
proof -
  consider (one) "c < 0x80" | (two) "0x80 \<le> c" "c < 0x800" | (three) "0x800 \<le> c" "c < 0x10000"
    | (four) "0x10000 \<le> c" by linarith
  then show ?thesis
  proof cases
    case one
    then show ?thesis by (simp add: utf8_units_def utf8_char_def)
  next
    case two
    then have "2 \<le> c div 0x40" "c div 0x40 \<le> 0x1F" by auto
    with two show ?thesis by (simp add: utf8_units_def utf8_char_def continuation_def base64_digits)
  next
    case three
    then have "c div 0x1000 \<le> 0xF" by auto
    with three assms show ?thesis
      by (simp add: utf8_units_def utf8_char_def continuation_def base64_digits Let_def scalar_value_def)
  next
    case four
    with assms have "c div 0x40000 \<le> 4" "c \<le> 0x10FFFF" by (auto simp: scalar_value_def)
    with four show ?thesis
      by (simp add: utf8_units_def utf8_char_def continuation_def base64_digits Let_def)
  qed
qed

lemma utf8_decode_units_concat:
  "list_all scalar_value s \<Longrightarrow> utf8_decode_units pass (concat (map utf8_units s)) = Some s"
  by (induction s) (simp_all add: utf8_decode_char)

lemma utf8_roundtrip: "utf8_encode s = Some bs \<Longrightarrow> utf8_decode bs = Some s"
proof -
  assume e: "utf8_encode s = Some bs"
  then have s: "list_all scalar_value s" and bs: "bs = map of_nat (concat (map utf8_units s))"
    by (auto simp: utf8_encode_def split: if_splits)
  have "map unat bs = concat (map utf8_units s)"
    unfolding bs map_map
  proof (rule map_idI)
    fix u assume "u \<in> set (concat (map utf8_units s))"
    with s have "u < 256" by (auto simp: list_all_iff dest: utf8_units_bound)
    then show "(unat \<circ> (of_nat :: nat \<Rightarrow> byte)) u = u" by (simp add: unat_of_nat)
  qed
  with s show ?thesis by (simp add: utf8_decode_def utf8_decode_units_concat)
qed

lemma utf8_encode_inject:
  "utf8_encode s = Some bs \<Longrightarrow> utf8_encode t = Some bs \<Longrightarrow> s = t"
  by (metis utf8_roundtrip option.inject)

section \<open>UTF-16 sort keys\<close>

text \<open>\<open>key.encode("utf-16-be")\<close>: two bytes per code unit; a lone surrogate is an error.\<close>

definition utf16_units :: "codepoint \<Rightarrow> nat list" where
  "utf16_units c =
     (if c < 0x10000 then [c]
      else [0xD800 + (c - 0x10000) div 0x400, 0xDC00 + (c - 0x10000) mod 0x400])"

definition utf16_be_encode :: "ustring \<Rightarrow> nat list option" where
  "utf16_be_encode s =
     (if list_all scalar_value s
      then Some (concat (map (\<lambda>u. [u div 256, u mod 256]) (concat (map utf16_units s))))
      else None)"

end
