(* ===== verification/Protocol.thy ===== *)
theory Protocol
  imports Pack Unicode Decimal
begin

text \<open>
  The values that cross the agent boundary: the parsed action of \<open>core/action.py\<close>, the
  reply and harness facts of \<open>harness/protocol.py\<close>, and the decision the engine keeps per
  turn (\<open>_TurnDecision\<close> in \<open>core/engine.py\<close>).
\<close>

section \<open>Actions and replies\<close>

record ParsedAction =
  pa_intent_kind :: string
  pa_target_lev_1e4 :: "(string \<times> int) list"
  pa_max_slippage_bps :: "int option"
  pa_from_attempt :: int

definition target_mapping :: "(string \<times> int) list \<Rightarrow> string json" where
  "target_mapping targets = JObj
     (map (\<lambda>alias. (alias, case map_of targets alias of Some v \<Rightarrow> JInt v | None \<Rightarrow> JNull))
        (sort (map fst targets)))"

definition action_to_mapping :: "ParsedAction \<Rightarrow> string json" where
  "action_to_mapping a = JObj
     [(''intent_kind'', JStr (pa_intent_kind a)),
      (''target_lev_1e4'', target_mapping (pa_target_lev_1e4 a)),
      (''max_slippage_bps'', opt_int (pa_max_slippage_bps a)),
      (''from_attempt'', JInt (pa_from_attempt a))]"

record AgentReply =
  rp_body :: "byte list"
  rp_latency_ms :: int
  rp_http_status :: "int option"
  rp_transport :: string

text \<open>The defaults of an in-process reply.\<close>

definition in_process_reply :: "byte list \<Rightarrow> AgentReply" where
  "in_process_reply body = \<lparr>rp_body = body, rp_latency_ms = 0, rp_http_status = None,
     rp_transport = ''in_process''\<rparr>"

text \<open>
  How a call of \<open>decide\<close> ends: with a reply, with \<open>DecisionTimeout\<close>, or with any other
  exception, of which the engine records the class name.
\<close>

datatype agent_outcome = Replied AgentReply | TimedOut | AgentFailed string

record HarnessEvent =
  he_type :: string
  he_payload :: "string jobject"

record TurnDecision =
  td_responses :: "AgentReply list"
  td_harness_events :: "HarnessEvent list"
  td_parsed :: "ParsedAction option"
  td_rejection :: "string jobject option"
  td_raw_sha256 :: "string option"

end
