(* ===== verification/Engine_Turn.thy ===== *)
theory Engine_Turn
  imports Engine_Account Protocol
begin

text \<open>
  One turn of \<open>_run_profile\<close> in \<open>core/engine.py\<close> after the agent's decision is known: the
  opening funding settlement, sizing and risk gates, the order, settlements inside the
  holding bar, liquidation, the closing snapshot and the drawdown kill switch. Each phase
  is one definition over the state of the run; they are composed in the source's order.
\<close>

definition NEAR_LIQ_THRESHOLD_1E8 :: int where "NEAR_LIQ_THRESHOLD_1E8 = 5000000"

section \<open>State of a run\<close>

record Counters =
  ct_turns :: nat
  ct_invalid_actions :: nat
  ct_missed_decisions :: nat
  ct_gate_blocks :: nat
  ct_post_kill_switch_attempts :: nat
  ct_liquidations :: nat
  ct_kill_switch_fired :: bool

definition new_counters :: Counters where
  "new_counters = \<lparr>ct_turns = 0, ct_invalid_actions = 0, ct_missed_decisions = 0,
     ct_gate_blocks = 0, ct_post_kill_switch_attempts = 0, ct_liquidations = 0,
     ct_kill_switch_fired = False\<rparr>"

text \<open>
  \<open>_ProfileRun\<close> together with the local variables of the loop that survive a turn
  (\<open>account\<close>, \<open>terminal\<close>, \<open>last_turn\<close>).
\<close>

record run_state =
  rn_account :: Account
  rn_snapshots :: "Snapshot list"
  rn_events :: "event list"
  rn_decisions :: "TurnDecision list"
  rn_observations :: "string json list"
  rn_raw_blobs :: "(string \<times> byte list) list"
  rn_counters :: Counters
  rn_terminal :: bool
  rn_last_turn :: int

text \<open>The values that are fixed while one turn is processed.\<close>

record turn_context =
  tc_pack :: PackData
  tc_config :: EpisodeConfig
  tc_market :: MarketData
  tc_alias :: string
  tc_multiplier :: int
  tc_collect_evidence :: bool
  tc_turn :: nat
  tc_decision_abs :: nat
  tc_fill_abs :: nat
  tc_decision_ts :: int
  tc_drawdown_used :: int

abbreviation tc_spec :: "turn_context \<Rightarrow> MarketSpec" where
  "tc_spec ctx \<equiv> md_spec (tc_market ctx)"

abbreviation tc_tick :: "turn_context \<Rightarrow> int" where
  "tc_tick ctx \<equiv> ms_tick_size_micro (tc_spec ctx)"

definition holding_close_ts :: "turn_context \<Rightarrow> int" where
  "holding_close_ts ctx = tc_decision_ts ctx + pk_decision_bar_ms (tc_pack ctx)"

text \<open>Evidence is written only when the run collects it.\<close>

definition record_event ::
    "turn_context \<Rightarrow> string \<Rightarrow> string jobject \<Rightarrow> int \<Rightarrow> nat \<Rightarrow> run_state \<Rightarrow> run_state" where
  "record_event ctx event_type payload ts bar_index run =
     (if tc_collect_evidence ctx
      then run\<lparr>rn_events := fst (emit (rn_events run) event_type (JObj payload) ts
                 (Some (tc_turn ctx)) (Some bar_index) ''engine'')\<rparr>
      else run)"

section \<open>Booking the decision\<close>

definition book_decision :: "turn_context \<Rightarrow> TurnDecision \<Rightarrow> run_state \<Rightarrow> run_state result" where
  "book_decision ctx decision run0 =
     (let run = run0\<lparr>rn_counters := (rn_counters run0)
                      \<lparr>ct_turns := ct_turns (rn_counters run0) + 1\<rparr>\<rparr>
      in case td_parsed decision of
        Some parsed \<Rightarrow>
          Inr (record_event ctx ''ActionParsed''
                 (case action_to_mapping parsed of JObj m \<Rightarrow> m | _ \<Rightarrow> [])
                 (tc_decision_ts ctx) (tc_turn ctx) run)
      | None \<Rightarrow>
          (case td_rejection decision of
             None \<Rightarrow> Inl (EngineError ''decision has neither parsed action nor rejection'')
           | Some rejection \<Rightarrow>
               let reason = dict_get rejection ''reason'';
                   counters = rn_counters run;
                   counters' =
                     (if reason = JStr ''timeout'' \<or> reason = JStr ''agent_error''
                      then counters\<lparr>ct_missed_decisions := ct_missed_decisions counters + 1\<rparr>
                      else counters\<lparr>ct_invalid_actions := ct_invalid_actions counters + 1\<rparr>)
               in Inr (record_event ctx ''ActionRejected'' rejection
                         (tc_decision_ts ctx) (tc_turn ctx) (run\<lparr>rn_counters := counters'\<rparr>))))"

section \<open>Funding\<close>

definition settle_funding :: "turn_context \<Rightarrow> FundingRow \<Rightarrow> run_state \<Rightarrow> run_state result" where
  "settle_funding ctx row run =
     and_then (applied_funding (rn_account run) (tc_market ctx) row)
       (\<lambda>((applied_rate, index_px, cash_flow), account).
     Inr (record_event ctx ''FundingApplied''
            [(''market'', JStr (tc_alias ctx)), (''settlement_ts'', JInt (fd_ts row)),
             (''rate_1e8'', JInt applied_rate), (''index_px_ticks'', JInt index_px),
             (''position_qty_base_1e8'', JInt (ac_position_qty_base_1e8 account)),
             (''amount_micro'', JInt cash_flow)]
            (fd_ts row) (tc_turn ctx + 1) (run\<lparr>rn_account := account\<rparr>)))"

text \<open>
  A settlement exactly at the decision instant applies to the position carried into it.
  Its timestamp equals \<open>decision_ts\<close>, the value the source puts into the event.
\<close>

definition settle_opening_funding :: "turn_context \<Rightarrow> run_state \<Rightarrow> run_state result" where
  "settle_opening_funding ctx run =
     (case find (\<lambda>row. fd_ts row = tc_decision_ts ctx) (md_funding (tc_market ctx)) of
        None \<Rightarrow> Inr run
      | Some row \<Rightarrow> settle_funding ctx row run)"

definition settle_inside_funding :: "turn_context \<Rightarrow> run_state \<Rightarrow> run_state result" where
  "settle_inside_funding ctx run =
     fold_result
       (\<lambda>row run.
          if tc_decision_ts ctx < fd_ts row \<and> fd_ts row < holding_close_ts ctx
          then settle_funding ctx row run else Inr run)
       (md_funding (tc_market ctx)) run"

section \<open>Sizing and risk gates\<close>

record sizing =
  sz_target_lev :: int
  sz_gross_target :: int
  sz_requested_delta :: int
  sz_raw_requested_delta :: int
  sz_projected_turnover :: int

definition size_action :: "turn_context \<Rightarrow> ParsedAction \<Rightarrow> Account \<Rightarrow> sizing result" where
  "size_action ctx parsed account =
     (let targets = pa_target_lev_1e4 parsed;
          target_lev = (case map_of targets (tc_alias ctx) of Some v \<Rightarrow> v | None \<Rightarrow> 0);
          gross_target = sum_list (map (\<lambda>(_, v). \<bar>v\<bar>) targets)
      in
      and_then (py_nth (md_mark (tc_market ctx)) (tc_decision_abs ctx)) (\<lambda>mark.
      and_then (account_upnl account (br_c mark) (tc_spec ctx)) (\<lambda>upnl.
      let nav_at_decision = ac_cash_micro account + upnl in
      and_then (py_nth (md_trade (tc_market ctx)) (tc_fill_abs ctx)) (\<lambda>fill_bar.
      and_then (target_quantity_base_1e8 target_lev nav_at_decision (br_o fill_bar) (tc_tick ctx)
                  (ms_qty_step_base_1e8 (tc_spec ctx)) LEVERAGE_SCALE QTY_SCALE)
        (\<lambda>requested_target_qty.
      and_then (raw_target_quantity_base_1e8 target_lev nav_at_decision (br_o fill_bar)
                  (tc_tick ctx) LEVERAGE_SCALE QTY_SCALE) (\<lambda>raw_target_qty.
      let requested_delta = requested_target_qty - ac_position_qty_base_1e8 account;
          raw_requested_delta = raw_target_qty - ac_position_qty_base_1e8 account
      in
      and_then (notional_micro requested_delta (br_o fill_bar) (tc_tick ctx) QTY_SCALE)
        (\<lambda>projected_notional.
      and_then (turnover_1e8 (ac_turnover_notional_micro account + projected_notional)
                  (cfg_starting_nav_micro (tc_config ctx)) RATE_SCALE) (\<lambda>projected_turnover.
      Inr \<lparr>sz_target_lev = target_lev, sz_gross_target = gross_target,
           sz_requested_delta = requested_delta, sz_raw_requested_delta = raw_requested_delta,
           sz_projected_turnover = projected_turnover\<rparr>))))))))"

record risk_check =
  rc_constraint_id :: string
  rc_constraint_type :: string
  rc_scope :: string
  rc_observed :: int
  rc_limit :: int
  rc_unit :: string
  rc_passed :: bool

definition risk_checks :: "turn_context \<Rightarrow> sizing \<Rightarrow> Account \<Rightarrow> risk_check list" where
  "risk_checks ctx sz account =
     [\<lparr>rc_constraint_id = ''lev-'' @ tc_alias ctx, rc_constraint_type = ''leverage_cap_market'',
       rc_scope = tc_alias ctx, rc_observed = \<bar>sz_target_lev sz\<bar>,
       rc_limit = ms_leverage_cap_lev_1e4 (tc_spec ctx), rc_unit = ''lev_1e4'',
       rc_passed = (\<bar>sz_target_lev sz\<bar> \<le> ms_leverage_cap_lev_1e4 (tc_spec ctx))\<rparr>,
      \<lparr>rc_constraint_id = ''lev-gross'', rc_constraint_type = ''leverage_cap_gross'',
       rc_scope = ''account'', rc_observed = sz_gross_target sz,
       rc_limit = cfg_leverage_cap_gross_lev_1e4 (tc_config ctx), rc_unit = ''lev_1e4'',
       rc_passed = (sz_gross_target sz \<le> cfg_leverage_cap_gross_lev_1e4 (tc_config ctx))\<rparr>]
     @ (case cfg_turnover_cap_1e8 (tc_config ctx) of
          None \<Rightarrow> []
        | Some cap \<Rightarrow>
            [\<lparr>rc_constraint_id = ''turnover'', rc_constraint_type = ''turnover_cap'',
              rc_scope = ''account'', rc_observed = sz_projected_turnover sz, rc_limit = cap,
              rc_unit = ''1e8'', rc_passed = (sz_projected_turnover sz \<le> cap)\<rparr>])
     @ [\<lparr>rc_constraint_id = ''drawdown-ks'', rc_constraint_type = ''drawdown_kill_switch'',
         rc_scope = ''account'', rc_observed = tc_drawdown_used ctx,
         rc_limit = cfg_drawdown_kill_switch_1e8 (tc_config ctx), rc_unit = ''1e8'',
         rc_passed = (\<not> ac_kill_switch_active account \<or> sz_target_lev sz = 0)\<rparr>]"

definition apply_check :: "turn_context \<Rightarrow> risk_check \<Rightarrow> run_state \<Rightarrow> run_state" where
  "apply_check ctx c run =
     record_event ctx ''RiskCheck''
       [(''constraint_id'', JStr (rc_constraint_id c)),
        (''constraint_type'', JStr (rc_constraint_type c)), (''scope'', JStr (rc_scope c)),
        (''observed'', JInt (rc_observed c)), (''limit'', JInt (rc_limit c)),
        (''unit'', JStr (rc_unit c)),
        (''verdict'', JStr (if rc_passed c then ''pass'' else ''block''))]
       (tc_decision_ts ctx) (tc_turn ctx)
       (if rc_passed c then run
        else run\<lparr>rn_counters := (rn_counters run)
               \<lparr>ct_gate_blocks := ct_gate_blocks (rn_counters run) + 1\<rparr>\<rparr>)"

definition opt_string :: "string option \<Rightarrow> string json" where
  "opt_string x = (case x of None \<Rightarrow> JNull | Some s \<Rightarrow> JStr s)"

definition note_post_kill_switch ::
    "turn_context \<Rightarrow> ParsedAction \<Rightarrow> TurnDecision \<Rightarrow> run_state \<Rightarrow> run_state" where
  "note_post_kill_switch ctx parsed decision run =
     record_event ctx ''PostKillSwitchAttempt''
       [(''target_lev_1e4'', JObj (map (\<lambda>(a, v). (a, JInt v)) (pa_target_lev_1e4 parsed))),
        (''raw_sha256'', opt_string (td_raw_sha256 decision))]
       (tc_decision_ts ctx) (tc_turn ctx)
       (run\<lparr>rn_counters := (rn_counters run)
          \<lparr>ct_post_kill_switch_attempts := ct_post_kill_switch_attempts (rn_counters run) + 1\<rparr>\<rparr>)"

end
