(* ===== verification/Engine_Order.thy ===== *)
theory Engine_Order
  imports Engine_Turn
begin

text \<open>
  The order part of a turn of \<open>_run_profile\<close>: filling or cancelling the sized order, the
  zero-delta branch, and the composition of sizing, risk gates and order that follows an
  accepted action.
\<close>

section \<open>The order\<close>

definition order_request :: "turn_context \<Rightarrow> int \<Rightarrow> BarRow \<Rightarrow> fill_request" where
  "order_request ctx requested_delta fill_bar =
     \<lparr>fr_side = (if requested_delta > 0 then Buy else Sell),
      fr_requested_qty_base_1e8 = \<bar>requested_delta\<bar>,
      fr_bar_volume_base_1e8 = br_v_base_1e8 fill_bar,
      fr_participation_cap_1e8 = ms_participation_cap_1e8 (tc_spec ctx),
      fr_qty_step_base_1e8 = ms_qty_step_base_1e8 (tc_spec ctx),
      fr_ref_px_ticks = br_o fill_bar, fr_tick_size_micro = tc_tick ctx,
      fr_half_spread_1e8 = ms_half_spread_1e8 (tc_spec ctx),
      fr_impact_coeff_1e8 = ms_impact_coeff_1e8 (tc_spec ctx),
      fr_impact_model = ms_impact_model (tc_spec ctx),
      fr_taker_fee_rate_1e8 = ms_taker_fee_rate_1e8 (tc_spec ctx),
      fr_cost_multiplier_1e4 = tc_multiplier ctx, fr_rate_scale = RATE_SCALE\<rparr>"

definition cancel_reason :: "turn_context \<Rightarrow> int option \<Rightarrow> FillCalculation \<Rightarrow> string option" where
  "cancel_reason ctx max_slippage fill =
     (if fq_filled_qty_base_1e8 (fc_quantities fill) = 0 then Some ''participation_cap''
      else if fc_notional_micro fill < ms_min_notional_micro (tc_spec ctx)
      then Some ''min_notional''
      else case max_slippage of
             None \<Rightarrow> None
           | Some bps \<Rightarrow> if \<bar>fc_slippage_1e8 fill\<bar> > bps * 10000
                         then Some ''max_slippage_exceeded'' else None)"

definition side_text :: "side \<Rightarrow> string" where
  "side_text s = (case s of Buy \<Rightarrow> ''buy'' | Sell \<Rightarrow> ''sell'')"

definition order_cancelled_payload ::
    "turn_context \<Rightarrow> string \<Rightarrow> int \<Rightarrow> int \<Rightarrow> string \<Rightarrow> string jobject" where
  "order_cancelled_payload ctx reason requested cancelled detail =
     [(''market'', JStr (tc_alias ctx)), (''reason'', JStr reason),
      (''requested_qty_base_1e8'', JInt requested), (''cancelled_qty_base_1e8'', JInt cancelled),
      (''detail'', JStr detail)]"

definition order_filled_payload :: "turn_context \<Rightarrow> int \<Rightarrow> FillCalculation \<Rightarrow> string jobject" where
  "order_filled_payload ctx requested fill =
     [(''market'', JStr (tc_alias ctx)), (''side'', JStr (side_text (fc_side fill))),
      (''requested_qty_base_1e8'', JInt requested),
      (''qty_base_1e8'', JInt (fq_filled_qty_base_1e8 (fc_quantities fill))),
      (''ref_open_px_ticks'', JInt (fc_ref_open_px_ticks fill)),
      (''half_spread_ticks'', JInt (fc_half_spread_ticks fill)),
      (''impact_ticks'', JInt (fc_impact_ticks fill)),
      (''fill_px_ticks'', JInt (fc_fill_px_ticks fill)),
      (''notional_micro'', JInt (fc_notional_micro fill)),
      (''fee_micro'', JInt (fc_fee_micro fill)),
      (''slippage_1e8'', JInt (fc_slippage_1e8 fill)), (''cost_profile'', JStr ''primary'')]"

definition partial_fill_detail :: "turn_context \<Rightarrow> int \<Rightarrow> BarRow \<Rightarrow> FillCalculation \<Rightarrow> string" where
  "partial_fill_detail ctx requested fill_bar fill =
     ''participation_cap: requested_qty '' @ show_int requested @ '' > cap_qty ''
     @ show_int (fq_capacity_qty_base_1e8 (fc_quantities fill)) @ '' (participation_cap_1e8 ''
     @ show_int (ms_participation_cap_1e8 (tc_spec ctx)) @ '' x fill-bar volume ''
     @ show_int (br_v_base_1e8 fill_bar) @ '', floored to qty_step ''
     @ show_int (ms_qty_step_base_1e8 (tc_spec ctx)) @ '')''"

definition fill_of_order :: "sizing \<Rightarrow> FillCalculation \<Rightarrow> position_fill" where
  "fill_of_order sz fill =
     (let filled_qty = fq_filled_qty_base_1e8 (fc_quantities fill)
      in \<lparr>pf_signed_fill_qty = (if sz_requested_delta sz > 0 then filled_qty else - filled_qty),
          pf_fill_px_ticks = fc_fill_px_ticks fill,
          pf_requested_target_leverage_1e4 = sz_target_lev sz,
          pf_fee = fc_fee_micro fill, pf_fill_notional = fc_notional_micro fill,
          pf_reference_notional = fc_reference_notional_micro fill,
          pf_request_fully_filled = (fq_cancelled_qty_base_1e8 (fc_quantities fill) = 0)\<rparr>)"

definition cancel_order :: "turn_context \<Rightarrow> string \<Rightarrow> int \<Rightarrow> run_state \<Rightarrow> run_state" where
  "cancel_order ctx reason requested run =
     record_event ctx ''OrderCancelled''
       (order_cancelled_payload ctx reason requested requested
          (reason @ '': requested_qty '' @ show_int requested @ '' not executed''))
       (tc_decision_ts ctx) (tc_turn ctx + 1) run"

definition record_fill ::
    "turn_context \<Rightarrow> int \<Rightarrow> BarRow \<Rightarrow> FillCalculation \<Rightarrow> run_state \<Rightarrow> run_state" where
  "record_fill ctx requested fill_bar fill run =
     (let run = record_event ctx ''OrderFilled'' (order_filled_payload ctx requested fill)
                  (tc_decision_ts ctx) (tc_turn ctx + 1) run;
          cancelled = fq_cancelled_qty_base_1e8 (fc_quantities fill)
      in if cancelled \<noteq> 0
         then record_event ctx ''OrderCancelled''
                (order_cancelled_payload ctx ''participation_cap'' requested cancelled
                   (partial_fill_detail ctx requested fill_bar fill))
                (tc_decision_ts ctx) (tc_turn ctx + 1) run
         else run)"

definition execute_order ::
    "turn_context \<Rightarrow> ParsedAction \<Rightarrow> sizing \<Rightarrow> run_state \<Rightarrow> run_state result" where
  "execute_order ctx parsed sz run =
     (let requested = \<bar>sz_requested_delta sz\<bar> in
      and_then (py_nth (md_trade (tc_market ctx)) (tc_fill_abs ctx)) (\<lambda>fill_bar.
      and_then (calculate_fill (order_request ctx (sz_requested_delta sz) fill_bar)) (\<lambda>fill.
      case cancel_reason ctx (pa_max_slippage_bps parsed) fill of
        Some reason \<Rightarrow> Inr (cancel_order ctx reason requested run)
      | None \<Rightarrow>
          and_then (apply_position_fill (rn_account run) (fill_of_order sz fill) (tc_spec ctx))
            (\<lambda>account.
             Inr (record_fill ctx requested fill_bar fill (run\<lparr>rn_account := account\<rparr>))))))"

text \<open>
  The branch for a zero order. The source tests \<open>raw_requested_delta != 0 and collect_evidence\<close>
  and puts the leverage update in the \<open>elif\<close> of that test.
\<close>

definition zero_delta :: "turn_context \<Rightarrow> sizing \<Rightarrow> run_state \<Rightarrow> run_state" where
  "zero_delta ctx sz run =
     (if sz_raw_requested_delta sz \<noteq> 0 \<and> tc_collect_evidence ctx
      then record_event ctx ''OrderCancelled''
             (order_cancelled_payload ctx ''qty_rounding'' \<bar>sz_raw_requested_delta sz\<bar>
                \<bar>sz_raw_requested_delta sz\<bar>
                (''qty_rounding: raw target delta '' @ show_int \<bar>sz_raw_requested_delta sz\<bar>
                 @ '' rounded to zero at qty_step ''
                 @ show_int (ms_qty_step_base_1e8 (tc_spec ctx))))
             (tc_decision_ts ctx) (tc_turn ctx + 1) run
      else if ac_position_qty_base_1e8 (rn_account run) \<noteq> 0
      then run\<lparr>rn_account := (rn_account run)\<lparr>ac_target_leverage_1e4 := \<bar>sz_target_lev sz\<bar>\<rparr>\<rparr>
      else run)"

section \<open>Acting on a parsed action\<close>

definition act_on_parsed ::
    "turn_context \<Rightarrow> TurnDecision \<Rightarrow> ParsedAction \<Rightarrow> run_state \<Rightarrow> run_state result" where
  "act_on_parsed ctx decision parsed run =
     and_then (size_action ctx parsed (rn_account run)) (\<lambda>sz.
     let account = rn_account run;
         checks = risk_checks ctx sz account;
         blocked = (\<exists>c \<in> set checks. \<not> rc_passed c);
         run = fold (apply_check ctx) checks run;
         run = (if blocked \<and> ac_kill_switch_active account \<and> sz_target_lev sz \<noteq> 0
                then note_post_kill_switch ctx parsed decision run else run)
     in if \<not> blocked \<and> sz_requested_delta sz \<noteq> 0 then execute_order ctx parsed sz run
        else if \<not> blocked \<and> sz_requested_delta sz = 0 then Inr (zero_delta ctx sz run)
        else Inr run)"

definition act_on_decision :: "turn_context \<Rightarrow> TurnDecision \<Rightarrow> run_state \<Rightarrow> run_state result" where
  "act_on_decision ctx decision run =
     (case td_parsed decision of
        None \<Rightarrow> Inr run
      | Some parsed \<Rightarrow> act_on_parsed ctx decision parsed run)"

end
