(* ===== verification/Engine_Close.thy ===== *)
theory Engine_Close
  imports Engine_Order
begin

text \<open>
  The end of a turn of \<open>_run_profile\<close>: the margin record, liquidation, the closing snapshot
  and the drawdown kill switch; and the whole market phase of a turn.
\<close>

section \<open>Margin record\<close>

text \<open>The payload is only computed when evidence is collected.\<close>

definition record_margin :: "turn_context \<Rightarrow> run_state \<Rightarrow> run_state result" where
  "record_margin ctx run =
     (if tc_collect_evidence ctx
      then and_then (margin_payload (rn_account run) (tc_market ctx) (tc_fill_abs ctx))
        (\<lambda>payload. Inr (run\<lparr>rn_events := fst (emit (rn_events run) ''MarginUpdate'' payload
             (holding_close_ts ctx) (Some (tc_turn ctx)) (Some (tc_turn ctx + 1)) ''engine'')\<rparr>))
      else Inr run)"

definition open_margin_update :: "turn_context \<Rightarrow> run_state \<Rightarrow> run_state result" where
  "open_margin_update ctx run =
     (if ac_position_qty_base_1e8 (rn_account run) \<noteq> 0 then record_margin ctx run else Inr run)"

definition flattened :: "Account \<Rightarrow> Account" where
  "flattened account = account\<lparr>ac_position_qty_base_1e8 := 0, ac_entry_px_ticks := 0,
     ac_target_leverage_1e4 := 0\<rparr>"

section \<open>Liquidation\<close>

definition mark_trigger :: "int \<Rightarrow> string" where
  "mark_trigger position = (if position > 0 then ''mark_low'' else ''mark_high'')"

definition liquidate :: "turn_context \<Rightarrow> BarRow \<Rightarrow> int \<Rightarrow> run_state \<Rightarrow> run_state result" where
  "liquidate ctx mark liq_px run =
     (let account = rn_account run;
          old_position = ac_position_qty_base_1e8 account;
          close_px = (if old_position > 0 then br_l mark else br_h mark)
      in
      and_then (realized_pnl_micro (py_sign old_position) \<bar>old_position\<bar>
                  (ac_entry_px_ticks account) close_px (tc_tick ctx) QTY_SCALE) (\<lambda>realized.
      and_then (liquidation_penalty_micro old_position close_px (tc_tick ctx)
                  (ms_liquidation_penalty_1e8 (tc_spec ctx)) QTY_SCALE RATE_SCALE) (\<lambda>penalty.
      and_then (notional_micro old_position close_px (tc_tick ctx) QTY_SCALE) (\<lambda>close_notional.
      let account = account
            \<lparr>ac_cash_micro := ac_cash_micro account + (realized - penalty),
             ac_realized_price_cum_micro := ac_realized_price_cum_micro account + realized,
             ac_liquidation_penalty_cum_micro := ac_liquidation_penalty_cum_micro account + penalty,
             ac_turnover_notional_micro := ac_turnover_notional_micro account + close_notional\<rparr>;
          run = run\<lparr>rn_account := account,
                   rn_counters := (rn_counters run)
                     \<lparr>ct_liquidations := ct_liquidations (rn_counters run) + 1\<rparr>\<rparr>;
          run = record_event ctx ''LiquidationTriggered''
                  [(''market'', JStr (tc_alias ctx)), (''trigger'', JStr (mark_trigger old_position)),
                   (''trigger_px_ticks'', JInt close_px), (''liq_px_ticks'', JInt liq_px),
                   (''close_px_ticks'', JInt close_px),
                   (''position_qty_base_1e8'', JInt old_position),
                   (''penalty_micro'', JInt penalty), (''loss_micro'', JInt (realized - penalty))]
                  (holding_close_ts ctx) (tc_turn ctx + 1) run
      in Inr (run\<lparr>rn_account := flattened (rn_account run), rn_terminal := True\<rparr>)))))"

definition near_liquidation :: "turn_context \<Rightarrow> BarRow \<Rightarrow> int \<Rightarrow> run_state \<Rightarrow> run_state result" where
  "near_liquidation ctx mark liq_px run =
     (let position = ac_position_qty_base_1e8 (rn_account run);
          adverse = (if position > 0 then br_l mark else br_h mark)
      in
      and_then (distance_to_liquidation_1e8 adverse liq_px (py_sign position) RATE_SCALE)
        (\<lambda>minimum_distance.
         Inr (if minimum_distance < NEAR_LIQ_THRESHOLD_1E8
              then record_event ctx ''NearLiquidation''
                     [(''market'', JStr (tc_alias ctx)), (''trigger'', JStr (mark_trigger position)),
                      (''mark_extreme_px_ticks'', JInt adverse), (''liq_px_ticks'', JInt liq_px),
                      (''min_intrabar_dist_to_liq_1e8'', JInt minimum_distance),
                      (''threshold_1e8'', JInt NEAR_LIQ_THRESHOLD_1E8)]
                     (holding_close_ts ctx) (tc_turn ctx + 1) run
              else run)))"

definition liquidation_phase :: "turn_context \<Rightarrow> run_state \<Rightarrow> run_state result" where
  "liquidation_phase ctx run =
     (let account = rn_account run; position = ac_position_qty_base_1e8 account in
      if position = 0 then Inr run
      else
      and_then (py_nth (md_mark (tc_market ctx)) (tc_fill_abs ctx)) (\<lambda>mark.
      and_then (notional_micro position (br_c mark) (tc_tick ctx) QTY_SCALE) (\<lambda>mark_notional.
      and_then (maintenance_rate (tc_spec ctx) mark_notional) (\<lambda>rate.
      and_then (liquidation_price_ticks (ac_entry_px_ticks account) (py_sign position)
                  (ac_target_leverage_1e4 account) rate LEVERAGE_SCALE RATE_SCALE) (\<lambda>liq_px.
      and_then (liquidation_crossed position liq_px (br_h mark) (br_l mark)) (\<lambda>crossed.
      if crossed then liquidate ctx mark liq_px run
      else near_liquidation ctx mark liq_px run))))))"

section \<open>Closing snapshot and kill switch\<close>

definition closing_snapshot :: "turn_context \<Rightarrow> Account \<Rightarrow> Snapshot result" where
  "closing_snapshot ctx account =
     snapshot account (tc_market ctx) (tc_fill_abs ctx) (tc_turn ctx + 1)
       (Some (holding_close_ts ctx))"

definition append_snapshot :: "turn_context \<Rightarrow> run_state \<Rightarrow> run_state result" where
  "append_snapshot ctx run =
     and_then (closing_snapshot ctx (rn_account run)) (\<lambda>snap.
       Inr (run\<lparr>rn_snapshots := rn_snapshots run @ [snap]\<rparr>))"

text \<open>
  Flattening at the close mark pays the taker fee of the profile. The list of order
  sequence numbers stays empty when no evidence is collected.
\<close>

definition flatten_payload ::
    "turn_context \<Rightarrow> int \<Rightarrow> int \<Rightarrow> int \<Rightarrow> int \<Rightarrow> string jobject" where
  "flatten_payload ctx old_position close_px close_notional close_fee =
     [(''market'', JStr (tc_alias ctx)),
      (''side'', JStr (if old_position > 0 then ''sell'' else ''buy'')),
      (''requested_qty_base_1e8'', JInt \<bar>old_position\<bar>), (''qty_base_1e8'', JInt \<bar>old_position\<bar>),
      (''ref_open_px_ticks'', JInt close_px), (''half_spread_ticks'', JInt 0),
      (''impact_ticks'', JInt 0), (''fill_px_ticks'', JInt close_px),
      (''notional_micro'', JInt close_notional), (''fee_micro'', JInt close_fee),
      (''slippage_1e8'', JInt 0), (''cost_profile'', JStr ''primary'')]"

definition flatten_position ::
    "turn_context \<Rightarrow> run_state \<Rightarrow> (run_state \<times> nat list) result" where
  "flatten_position ctx run =
     (let account = rn_account run; old_position = ac_position_qty_base_1e8 account in
      and_then (py_nth (md_mark (tc_market ctx)) (tc_fill_abs ctx)) (\<lambda>mark.
      let close_px = br_c mark in
      and_then (notional_micro old_position close_px (tc_tick ctx) QTY_SCALE) (\<lambda>close_notional.
      and_then (apply_cost_multiplier (ms_taker_fee_rate_1e8 (tc_spec ctx)) (tc_multiplier ctx)
                  COST_MULTIPLIER_SCALE) (\<lambda>fee_rate.
      and_then (fee_micro close_notional fee_rate RATE_SCALE) (\<lambda>close_fee.
      and_then (realized_pnl_micro (py_sign old_position) \<bar>old_position\<bar>
                  (ac_entry_px_ticks account) close_px (tc_tick ctx) QTY_SCALE) (\<lambda>realized.
      let account = account
            \<lparr>ac_cash_micro := ac_cash_micro account + (realized - close_fee),
             ac_realized_price_cum_micro := ac_realized_price_cum_micro account + realized,
             ac_fees_cum_micro := ac_fees_cum_micro account + close_fee,
             ac_turnover_notional_micro := ac_turnover_notional_micro account + close_notional\<rparr>;
          seqs = (if tc_collect_evidence ctx then [length (rn_events run)] else []);
          run = record_event ctx ''OrderFilled''
                  (flatten_payload ctx old_position close_px close_notional close_fee)
                  (holding_close_ts ctx) (tc_turn ctx + 1)
                  (run\<lparr>rn_account := flattened account\<rparr>)
      in
      and_then (closing_snapshot ctx (rn_account run)) (\<lambda>snap.
      and_then (record_margin ctx
                  (run\<lparr>rn_snapshots := butlast (rn_snapshots run) @ [snap]\<rparr>)) (\<lambda>run.
      Inr (run, seqs)))))))))"

definition kill_switch_phase :: "turn_context \<Rightarrow> run_state \<Rightarrow> run_state result" where
  "kill_switch_phase ctx run =
     and_then (drawdown_1e8 (rn_snapshots run)) (\<lambda>trigger_drawdown.
     if \<not> rn_terminal run \<and> \<not> ac_kill_switch_active (rn_account run)
        \<and> trigger_drawdown \<ge> cfg_drawdown_kill_switch_1e8 (tc_config ctx)
     then
       let trigger_peak_nav = Max (set (map sn_nav_micro (rn_snapshots run)));
           trigger_nav = sn_nav_micro (last (rn_snapshots run))
       in
       and_then (if ac_position_qty_base_1e8 (rn_account run) \<noteq> 0
                 then flatten_position ctx run else Inr (run, [])) (\<lambda>(run, flatten_order_seqs).
       Inr (record_event ctx ''KillSwitchTriggered''
              [(''drawdown_1e8'', JInt trigger_drawdown),
               (''limit_1e8'', JInt (cfg_drawdown_kill_switch_1e8 (tc_config ctx))),
               (''peak_nav_micro'', JInt trigger_peak_nav), (''nav_micro'', JInt trigger_nav),
               (''flatten_order_seqs'', JArr (map (\<lambda>s. JInt (int s)) flatten_order_seqs))]
              (holding_close_ts ctx) (tc_turn ctx + 1)
              (run\<lparr>rn_account := (rn_account run)\<lparr>ac_kill_switch_active := True\<rparr>,
                   rn_counters := (rn_counters run)\<lparr>ct_kill_switch_fired := True\<rparr>\<rparr>)))
     else Inr run)"

definition terminal_margin_update :: "turn_context \<Rightarrow> run_state \<Rightarrow> run_state result" where
  "terminal_margin_update ctx run = (if rn_terminal run then record_margin ctx run else Inr run)"

section \<open>The market phase of a turn\<close>

definition market_phase :: "turn_context \<Rightarrow> TurnDecision \<Rightarrow> run_state \<Rightarrow> run_state result" where
  "market_phase ctx decision run =
     and_then (book_decision ctx decision run) (\<lambda>run.
     and_then (settle_opening_funding ctx run) (\<lambda>run.
     and_then (act_on_decision ctx decision run) (\<lambda>run.
     let run = run\<lparr>rn_last_turn := int (tc_turn ctx)\<rparr> in
     and_then (settle_inside_funding ctx run) (\<lambda>run.
     and_then (open_margin_update ctx run) (\<lambda>run.
     and_then (liquidation_phase ctx run) (\<lambda>run.
     and_then (append_snapshot ctx run) (\<lambda>run.
     and_then (kill_switch_phase ctx run) (\<lambda>run.
     terminal_margin_update ctx run))))))))"

end
