(* ===== verification/Engine_Invariant.thy ===== *)
theory Engine_Invariant
  imports Engine_Close
begin

text \<open>
  What every turn of the engine keeps: the cash account decomposes into its cumulative
  parts, a flat account carries no entry or leverage, a tripped kill switch means flat, and
  every snapshot satisfies the value identities. One lemma per phase of the turn.
\<close>

section \<open>Well-formed accounts\<close>

definition account_ok :: "int \<Rightarrow> Account \<Rightarrow> bool" where
  "account_ok start a \<longleftrightarrow>
     cash_conservation_holds (ac_cash_micro a) start (account_realized_pnl a) \<and>
     (if ac_position_qty_base_1e8 a = 0
      then ac_entry_px_ticks a = 0 \<and> ac_target_leverage_1e4 a = 0
      else 0 < ac_entry_px_ticks a \<and> 0 < ac_target_leverage_1e4 a) \<and>
     0 \<le> ac_fees_cum_micro a \<and> 0 \<le> ac_liquidation_penalty_cum_micro a \<and>
     0 \<le> ac_turnover_notional_micro a \<and> 0 \<le> ac_fill_cost_cum_micro a \<and>
     (ac_kill_switch_active a \<longrightarrow> ac_position_qty_base_1e8 a = 0)"

lemmas account_unfold = account_ok_def cash_conservation_holds_def account_realized_pnl_def

lemma new_account_ok: "account_ok start (new_account start)"
  by (simp add: account_unfold new_account_def)

lemma account_ok_nonflat:
  "account_ok start a \<Longrightarrow> ac_position_qty_base_1e8 a \<noteq> 0 \<Longrightarrow>
     0 < ac_entry_px_ticks a \<and> 0 < ac_target_leverage_1e4 a \<and> \<not> ac_kill_switch_active a"
  by (auto simp: account_ok_def)

lemma applied_funding_effect:
  assumes "applied_funding a market row = Inr (r, b)"
  obtains c where "b = a\<lparr>ac_cash_micro := ac_cash_micro a + c,
    ac_funding_cum_micro := ac_funding_cum_micro a - c\<rparr>"
  using assms by (auto simp: applied_funding_def and_then_eq_Inr Let_def split: option.splits)

lemma applied_funding_ok:
  assumes "applied_funding a market row = Inr (r, b)" "account_ok start a"
  shows "account_ok start b" "ac_position_qty_base_1e8 b = ac_position_qty_base_1e8 a"
    "ac_kill_switch_active b = ac_kill_switch_active a"
    "ac_target_leverage_1e4 b = ac_target_leverage_1e4 a"
    "ac_entry_px_ticks b = ac_entry_px_ticks a"
proof -
  obtain c where "b = a\<lparr>ac_cash_micro := ac_cash_micro a + c,
    ac_funding_cum_micro := ac_funding_cum_micro a - c\<rparr>"
    using assms(1) by (rule applied_funding_effect)
  with assms(2) show "account_ok start b" "ac_position_qty_base_1e8 b = ac_position_qty_base_1e8 a"
    "ac_kill_switch_active b = ac_kill_switch_active a"
    "ac_target_leverage_1e4 b = ac_target_leverage_1e4 a"
    "ac_entry_px_ticks b = ac_entry_px_ticks a"
    by (simp_all add: account_unfold split: if_splits)
qed

lemma flattened_ok: "account_ok start a \<Longrightarrow> account_ok start (flattened a)"
  by (simp add: account_unfold flattened_def)

text \<open>The weighted entry price of an increase stays positive.\<close>

lemma averaged_entry_pos:
  fixes e p m n :: int
  assumes "0 < e" "0 < p" "0 < m" "0 \<le> n"
  shows "0 < (e * m + p * n) div (m + n)"
proof -
  have "m \<le> e * m" "n \<le> p * n" using assms by (simp_all add: mult_le_cancel_right1)
  then have "1 * (m + n) \<le> e * m + p * n" by simp
  with assms floor_le_iff[of "m + n" 1 "e * m + p * n"] show ?thesis by simp
qed

text \<open>
  A fill the engine applies: a positive price, no negative charge, a quantity that moves
  the position towards the requested one, and a flat target only when it is reached.
\<close>

definition fill_ok :: "Account \<Rightarrow> position_fill \<Rightarrow> bool" where
  "fill_ok a f \<longleftrightarrow> 0 < pf_fill_px_ticks f \<and> 0 \<le> pf_fee f \<and> 0 \<le> pf_fill_notional f \<and>
     (pf_requested_target_leverage_1e4 f = 0 \<longrightarrow>
        \<bar>ac_position_qty_base_1e8 a + pf_signed_fill_qty f\<bar> \<le> \<bar>ac_position_qty_base_1e8 a\<bar> \<and>
        0 \<le> (ac_position_qty_base_1e8 a + pf_signed_fill_qty f) * ac_position_qty_base_1e8 a \<and>
        (pf_request_fully_filled f \<longrightarrow> ac_position_qty_base_1e8 a + pf_signed_fill_qty f = 0))"

lemma same_sign_grow:
  fixes p d :: int
  assumes "p \<noteq> 0" "py_sign (p + d) = py_sign p" "\<bar>p\<bar> < \<bar>p + d\<bar>"
  shows "\<bar>p + d\<bar> = \<bar>p\<bar> + \<bar>d\<bar>"
  using assms by (auto simp: py_sign_def split: if_splits)

lemma apply_position_fill_effect:
  assumes "apply_position_fill a f spec = Inr b"
  obtains r where "realized_by_fill a f spec = Inr r"
    "ac_cash_micro b = ac_cash_micro a + (r - pf_fee f)"
    "ac_fees_cum_micro b = ac_fees_cum_micro a + pf_fee f"
    "ac_realized_price_cum_micro b = ac_realized_price_cum_micro a + r"
    "ac_turnover_notional_micro b = ac_turnover_notional_micro a + pf_fill_notional f"
    "ac_fill_cost_cum_micro b =
       ac_fill_cost_cum_micro a + \<bar>pf_fill_notional f - pf_reference_notional f\<bar>"
    "ac_funding_cum_micro b = ac_funding_cum_micro a"
    "ac_liquidation_penalty_cum_micro b = ac_liquidation_penalty_cum_micro a"
    "ac_kill_switch_active b = ac_kill_switch_active a"
    "ac_position_qty_base_1e8 b = ac_position_qty_base_1e8 a + pf_signed_fill_qty f"
proof -
  from assms obtain r where r: "realized_by_fill a f spec = Inr r"
    by (auto simp: apply_position_fill_def and_then_eq_Inr Let_def)
  show thesis
    by (rule that[OF r]; use assms r in \<open>auto simp: apply_position_fill_def Let_def split: if_splits\<close>)
qed

lemma apply_position_fill_cash:
  assumes "apply_position_fill a f spec = Inr b" "account_ok start a" "fill_ok a f"
  shows "cash_conservation_holds (ac_cash_micro b) start (account_realized_pnl b)"
    "0 \<le> ac_fees_cum_micro b" "0 \<le> ac_liquidation_penalty_cum_micro b"
    "0 \<le> ac_turnover_notional_micro b" "0 \<le> ac_fill_cost_cum_micro b"
    "ac_kill_switch_active b = ac_kill_switch_active a"
    "ac_position_qty_base_1e8 b = ac_position_qty_base_1e8 a + pf_signed_fill_qty f"
  using assms(2,3) apply_position_fill_effect[OF assms(1)]
  unfolding account_unfold fill_ok_def by (smt (verit))+

lemma apply_position_fill_shape:
  assumes "apply_position_fill a f spec = Inr b" "account_ok start a" "fill_ok a f"
  shows "if ac_position_qty_base_1e8 b = 0
      then ac_entry_px_ticks b = 0 \<and> ac_target_leverage_1e4 b = 0
      else 0 < ac_entry_px_ticks b \<and> 0 < ac_target_leverage_1e4 b"
proof -
  let ?p = "ac_position_qty_base_1e8 a" and ?d = "pf_signed_fill_qty f"
    and ?l = "pf_requested_target_leverage_1e4 f"
  let ?e = "ac_entry_px_ticks a" and ?x = "pf_fill_px_ticks f"
  from assms(3) have x: "0 < ?x" by (simp add: fill_ok_def)
  consider (flat) "?p + ?d = 0" | (turn) "?p + ?d \<noteq> 0" "?p = 0 \<or> py_sign (?p + ?d) \<noteq> py_sign ?p"
    | (same) "?p + ?d \<noteq> 0" "?p \<noteq> 0" "py_sign (?p + ?d) = py_sign ?p" by blast
  then show ?thesis
  proof cases
    case flat
    with assms(1) show ?thesis
      by (auto simp: apply_position_fill_def and_then_eq_Inr Let_def)
  next
    case turn
    then have "?l \<noteq> 0" using assms(3)
      by (auto simp: fill_ok_def py_sign_def zero_le_mult_iff split: if_splits)
    with turn x assms(1) show ?thesis
      by (auto simp: apply_position_fill_def and_then_eq_Inr Let_def)
  next
    case same
    from assms(2) same have e: "0 < ?e" "0 < ac_target_leverage_1e4 a"
      by (auto simp: account_ok_def)
    have l: "?l \<noteq> 0" if "\<bar>?p\<bar> < \<bar>?p + ?d\<bar> \<or> pf_request_fully_filled f"
      using that assms(3) same(1) by (auto simp: fill_ok_def)
    have avg: "0 < (?e * \<bar>?p\<bar> + ?x * \<bar>?d\<bar>) div \<bar>?p + ?d\<bar>" if "\<bar>?p\<bar> < \<bar>?p + ?d\<bar>"
      unfolding same_sign_grow[OF same(2,3) that]
      by (rule averaged_entry_pos) (use e x same(2) in auto)
    from assms(1) same have c: "ac_entry_px_ticks b =
        (if \<bar>?p\<bar> < \<bar>?p + ?d\<bar> then (?e * \<bar>?p\<bar> + ?x * \<bar>?d\<bar>) div \<bar>?p + ?d\<bar> else ?e)"
      "ac_position_qty_base_1e8 b = ?p + ?d"
      "ac_target_leverage_1e4 b = (if \<bar>?p\<bar> < \<bar>?p + ?d\<bar> \<or> pf_request_fully_filled f then \<bar>?l\<bar>
          else ac_target_leverage_1e4 a)"
      by (auto simp: apply_position_fill_def and_then_eq_Inr Let_def)
    show ?thesis using l avg e same(1) by (auto simp: c)
  qed
qed

lemma apply_position_fill_ok:
  assumes "apply_position_fill a f spec = Inr b" "account_ok start a" "fill_ok a f"
    and "ac_kill_switch_active a \<longrightarrow> ac_position_qty_base_1e8 a + pf_signed_fill_qty f = 0"
  shows "account_ok start b"
  using apply_position_fill_cash[OF assms(1-3)] apply_position_fill_shape[OF assms(1-3)] assms(4)
  unfolding account_ok_def by metis
section \<open>Snapshots\<close>

definition snapshot_ok :: "int \<Rightarrow> Snapshot \<Rightarrow> bool" where
  "snapshot_ok start s \<longleftrightarrow>
     nav_identity_holds (sn_nav_micro s) (sn_cash_micro s) (sn_upnl_micro s) \<and>
     cash_conservation_holds (sn_cash_micro s) start
       (sn_realized_price_cum_micro s - sn_fees_cum_micro s - sn_funding_cum_micro s
          - sn_liquidation_penalty_cum_micro s) \<and>
     (if sn_position_qty_base_1e8 s = 0
      then sn_upnl_micro s = 0 \<and> sn_entry_px_ticks s = None \<and> sn_margin_micro s = 0 \<and>
           sn_liquidation_px_ticks s = None \<and> sn_distance_to_liquidation_1e8 s = None \<and>
           sn_min_intrabar_distance_1e8 s = None
      else sn_entry_px_ticks s \<noteq> None \<and> sn_liquidation_px_ticks s \<noteq> None \<and>
           sn_distance_to_liquidation_1e8 s \<noteq> None \<and> sn_min_intrabar_distance_1e8 s \<noteq> None)"

text \<open>The snapshot carries the balances of the account it was taken from.\<close>

definition taken_from :: "Account \<Rightarrow> Snapshot \<Rightarrow> bool" where
  "taken_from a s \<longleftrightarrow>
     sn_position_qty_base_1e8 s = ac_position_qty_base_1e8 a \<and>
     sn_cash_micro s = ac_cash_micro a \<and> sn_fees_cum_micro s = ac_fees_cum_micro a \<and>
     sn_funding_cum_micro s = ac_funding_cum_micro a \<and>
     sn_realized_price_cum_micro s = ac_realized_price_cum_micro a \<and>
     sn_liquidation_penalty_cum_micro s = ac_liquidation_penalty_cum_micro a"

lemma position_view_cases:
  assumes "position_view_of a spec mark = Inr v"
  shows "if ac_position_qty_base_1e8 a = 0
    then pw_entry v = None \<and> pw_margin v = 0 \<and> pw_liquidation v = None \<and> pw_distance v = None \<and>
         pw_min_distance v = None
    else pw_entry v \<noteq> None \<and> pw_liquidation v \<noteq> None \<and> pw_distance v \<noteq> None \<and>
         pw_min_distance v \<noteq> None"
  using assms by (auto simp: position_view_of_def and_then_eq_Inr Let_def split: if_splits)

lemma snapshot_fields:
  assumes "snapshot a market i j ts = Inr s"
  shows "taken_from a s" "sn_nav_micro s = sn_cash_micro s + sn_upnl_micro s"
    "sn_bar_index s = j" "sn_absolute_bar_index s = i"
    "ac_position_qty_base_1e8 a = 0 \<Longrightarrow> sn_upnl_micro s = 0"
    "\<exists>v. position_view_of a (md_spec market) (md_mark market ! i) = Inr v \<and>
       sn_entry_px_ticks s = pw_entry v \<and> sn_margin_micro s = pw_margin v \<and>
       sn_liquidation_px_ticks s = pw_liquidation v \<and>
       sn_distance_to_liquidation_1e8 s = pw_distance v \<and>
       sn_min_intrabar_distance_1e8 s = pw_min_distance v"
  using assms
  by (auto simp: snapshot_def and_then_eq_Inr taken_from_def py_nth_eq_Inr account_upnl_def)

lemma snapshot_is_ok:
  assumes "snapshot a market i j ts = Inr s" "account_ok start a"
  shows "snapshot_ok start s"
proof -
  note f = snapshot_fields[OF assms(1)]
  from f(6) obtain v where v: "position_view_of a (md_spec market) (md_mark market ! i) = Inr v"
    "sn_entry_px_ticks s = pw_entry v" "sn_margin_micro s = pw_margin v"
    "sn_liquidation_px_ticks s = pw_liquidation v"
    "sn_distance_to_liquidation_1e8 s = pw_distance v"
    "sn_min_intrabar_distance_1e8 s = pw_min_distance v" by blast
  from position_view_cases[OF v(1)] f(1,2,5) assms(2) show ?thesis
    by (auto simp: snapshot_ok_def v(2-) taken_from_def account_unfold nav_identity_holds_def
        split: if_splits)
qed

section \<open>Evidence does not touch the rest of the run\<close>

lemma emit_eq [simp]:
  "fst (emit es ty pl ts turn bar src) =
     es @ [\<lparr>ev_seq = length es, ev_ts = ts, ev_turn = turn, ev_bar_index = bar,
            ev_source = src, ev_type = ty, ev_payload = pl\<rparr>]"
  by (simp add: emit_def Let_def)

lemma record_event_fields [simp]:
  "rn_account (record_event ctx ty pl ts b run) = rn_account run"
  "rn_snapshots (record_event ctx ty pl ts b run) = rn_snapshots run"
  "rn_decisions (record_event ctx ty pl ts b run) = rn_decisions run"
  "rn_counters (record_event ctx ty pl ts b run) = rn_counters run"
  "rn_terminal (record_event ctx ty pl ts b run) = rn_terminal run"
  "rn_last_turn (record_event ctx ty pl ts b run) = rn_last_turn run"
  by (simp_all add: record_event_def)

definition numbered :: "event list \<Rightarrow> bool" where
  "numbered es \<longleftrightarrow> map ev_seq es = [0..<length es]"

lemma numbered_snoc:
  "numbered es \<Longrightarrow> ev_seq e = length es \<Longrightarrow> numbered (es @ [e])"
  by (simp add: numbered_def)

lemma record_event_numbered [simp]:
  "numbered (rn_events run) \<Longrightarrow> numbered (rn_events (record_event ctx ty pl ts b run))"
  by (simp add: record_event_def numbered_snoc)

section \<open>The run invariant\<close>

definition run_ok :: "int \<Rightarrow> run_state \<Rightarrow> bool" where
  "run_ok start run \<longleftrightarrow>
     account_ok start (rn_account run) \<and>
     rn_snapshots run \<noteq> [] \<and> sn_nav_micro (hd (rn_snapshots run)) = start \<and>
     (\<forall>s \<in> set (rn_snapshots run). snapshot_ok start s) \<and>
     map sn_bar_index (rn_snapshots run) = [0..<length (rn_snapshots run)] \<and>
     numbered (rn_events run) \<and>
     ct_liquidations (rn_counters run) = (if rn_terminal run then 1 else 0) \<and>
     (rn_terminal run \<longrightarrow> ac_position_qty_base_1e8 (rn_account run) = 0) \<and>
     ct_kill_switch_fired (rn_counters run) = ac_kill_switch_active (rn_account run)"

lemma run_okD:
  assumes "run_ok start run"
  shows "account_ok start (rn_account run)" "rn_snapshots run \<noteq> []"
    "sn_nav_micro (hd (rn_snapshots run)) = start" "numbered (rn_events run)"
    "\<And>s. s \<in> set (rn_snapshots run) \<Longrightarrow> snapshot_ok start s"
    "map sn_bar_index (rn_snapshots run) = [0..<length (rn_snapshots run)]"
    "ct_liquidations (rn_counters run) = (if rn_terminal run then 1 else 0)"
    "rn_terminal run \<longrightarrow> ac_position_qty_base_1e8 (rn_account run) = 0"
    "ct_kill_switch_fired (rn_counters run) = ac_kill_switch_active (rn_account run)"
  using assms unfolding run_ok_def by blast+

lemma run_ok_cong:
  assumes "run_ok start run" "account_ok start (rn_account run')"
    "rn_snapshots run' = rn_snapshots run" "numbered (rn_events run')"
    "ct_liquidations (rn_counters run') = ct_liquidations (rn_counters run)"
    "rn_terminal run' = rn_terminal run"
    "rn_terminal run \<longrightarrow> ac_position_qty_base_1e8 (rn_account run') = 0"
    "ct_kill_switch_fired (rn_counters run') = ac_kill_switch_active (rn_account run')"
  shows "run_ok start run'"
  using assms by (simp add: run_ok_def)

lemma record_event_ok [simp]:
  assumes "run_ok start run"
  shows "run_ok start (record_event ctx ty pl ts b run)"
  using run_okD(1,4,8,9)[OF assms] by (intro run_ok_cong[OF assms]) simp_all

section \<open>The phases of a turn\<close>

text \<open>What a phase before the closing snapshot leaves alone.\<close>

definition frame :: "run_state \<Rightarrow> run_state \<Rightarrow> bool" where
  "frame run run' \<longleftrightarrow> rn_snapshots run' = rn_snapshots run \<and> rn_terminal run' = rn_terminal run \<and>
     rn_decisions run' = rn_decisions run \<and>
     ac_kill_switch_active (rn_account run') = ac_kill_switch_active (rn_account run)"

lemma frame_trans: "frame a b \<Longrightarrow> frame b c \<Longrightarrow> frame a c"
  by (simp add: frame_def)

lemma frame_refl [simp]: "frame a a"
  by (simp add: frame_def)

lemma book_decision_effect:
  assumes "book_decision ctx d run = Inr run'"
  shows "frame run run'" "rn_account run' = rn_account run"
    "ct_turns (rn_counters run') = ct_turns (rn_counters run) + 1"
    "ct_liquidations (rn_counters run') = ct_liquidations (rn_counters run)"
    "ct_kill_switch_fired (rn_counters run') = ct_kill_switch_fired (rn_counters run)"
    "numbered (rn_events run) \<Longrightarrow> numbered (rn_events run')"
  using assms
  by (auto simp: book_decision_def frame_def Let_def split: option.splits if_splits)

lemma book_decision_ok:
  assumes "book_decision ctx d run = Inr run'" "run_ok start run"
  shows "run_ok start run'"
  using book_decision_effect[OF assms(1)] run_okD(1,4,8,9)[OF assms(2)]
  by (intro run_ok_cong[OF assms(2)]) (simp_all only: frame_def)

lemma settle_funding_effect:
  assumes "settle_funding ctx row run = Inr run'" "run_ok start run"
  shows "frame run run'" "run_ok start run'" "rn_counters run' = rn_counters run"
    "ac_position_qty_base_1e8 (rn_account run') = ac_position_qty_base_1e8 (rn_account run)"
    "ac_target_leverage_1e4 (rn_account run') = ac_target_leverage_1e4 (rn_account run)"
    "ac_entry_px_ticks (rn_account run') = ac_entry_px_ticks (rn_account run)"
    "ac_turnover_notional_micro (rn_account run') = ac_turnover_notional_micro (rn_account run)"
proof -
  from assms obtain r b ev where b: "applied_funding (rn_account run) (tc_market ctx) row = Inr (r, b)"
    and r: "run' = record_event ctx ''FundingApplied'' ev (fd_ts row) (tc_turn ctx + 1)
      (run\<lparr>rn_account := b\<rparr>)"
    by (auto simp: settle_funding_def and_then_eq_Inr)
  from assms(2) have ok: "account_ok start (rn_account run)" by (simp add: run_ok_def)
  note e = applied_funding_ok[OF b ok]
  from e show "frame run run'" "rn_counters run' = rn_counters run"
    "ac_position_qty_base_1e8 (rn_account run') = ac_position_qty_base_1e8 (rn_account run)"
    "ac_target_leverage_1e4 (rn_account run') = ac_target_leverage_1e4 (rn_account run)"
    "ac_entry_px_ticks (rn_account run') = ac_entry_px_ticks (rn_account run)"
    by (simp_all add: r frame_def)
  from b show "ac_turnover_notional_micro (rn_account run')
      = ac_turnover_notional_micro (rn_account run)"
    by (elim applied_funding_effect) (simp add: r)
  show "run_ok start run'"
    unfolding r by (rule record_event_ok, rule run_ok_cong[OF assms(2)])
      (use e run_okD(1,4,8,9)[OF assms(2)] in simp_all)
qed

lemma settle_opening_funding_effect:
  assumes "settle_opening_funding ctx run = Inr run'" "run_ok start run"
  shows "frame run run'" "run_ok start run'" "rn_counters run' = rn_counters run"
    "ac_position_qty_base_1e8 (rn_account run') = ac_position_qty_base_1e8 (rn_account run)"
    "ac_target_leverage_1e4 (rn_account run') = ac_target_leverage_1e4 (rn_account run)"
    "ac_entry_px_ticks (rn_account run') = ac_entry_px_ticks (rn_account run)"
    "ac_turnover_notional_micro (rn_account run') = ac_turnover_notional_micro (rn_account run)"
  using assms settle_funding_effect[OF _ assms(2)]
  by (auto simp: settle_opening_funding_def split: option.splits)

definition same_book :: "run_state \<Rightarrow> run_state \<Rightarrow> bool" where
  "same_book run run' \<longleftrightarrow> frame run run' \<and> rn_counters run' = rn_counters run \<and>
     ac_position_qty_base_1e8 (rn_account run') = ac_position_qty_base_1e8 (rn_account run) \<and>
     ac_target_leverage_1e4 (rn_account run') = ac_target_leverage_1e4 (rn_account run) \<and>
     ac_entry_px_ticks (rn_account run') = ac_entry_px_ticks (rn_account run) \<and>
     ac_turnover_notional_micro (rn_account run') = ac_turnover_notional_micro (rn_account run)"

lemma settle_inside_funding_effect:
  assumes "settle_inside_funding ctx run = Inr run'" "run_ok start run"
  shows "run_ok start run'" "same_book run run'"
proof -
  have "run_ok start run' \<and> same_book run run'"
    using assms(1) unfolding settle_inside_funding_def
  proof (rule fold_result_invariant[where P = "\<lambda>r. run_ok start r \<and> same_book run r"])
    show "run_ok start run \<and> same_book run run" using assms(2) by (simp add: same_book_def)
  next
    fix x s t
    assume "run_ok start s \<and> same_book run s"
      "(if tc_decision_ts ctx < fd_ts x \<and> fd_ts x < holding_close_ts ctx
        then settle_funding ctx x s else Inr s) = Inr t"
    then show "run_ok start t \<and> same_book run t"
      using settle_funding_effect[of ctx x s t start]
      by (auto simp: same_book_def split: if_splits intro: frame_trans)
  qed
  then show "run_ok start run'" "same_book run run'" by auto
qed
section \<open>Sizing, gates and the order\<close>

lemma size_action_spec:
  assumes "size_action ctx parsed a = Inr sz"
  obtains mark upnl fb target where
    "py_nth (md_mark (tc_market ctx)) (tc_decision_abs ctx) = Inr mark"
    "account_upnl a (br_c mark) (tc_spec ctx) = Inr upnl"
    "py_nth (md_trade (tc_market ctx)) (tc_fill_abs ctx) = Inr fb"
    "target_quantity_base_1e8 (sz_target_lev sz) (ac_cash_micro a + upnl) (br_o fb) (tc_tick ctx)
       (ms_qty_step_base_1e8 (tc_spec ctx)) LEVERAGE_SCALE QTY_SCALE = Inr target"
    "sz_requested_delta sz = target - ac_position_qty_base_1e8 a"
    "sz_target_lev sz = (case map_of (pa_target_lev_1e4 parsed) (tc_alias ctx) of
       Some v \<Rightarrow> v | None \<Rightarrow> 0)"
    "sz_gross_target sz = sum_list (map (\<lambda>(_, v). \<bar>v\<bar>) (pa_target_lev_1e4 parsed))"
  using assms unfolding size_action_def Let_def and_then_eq_Inr
  by (elim exE conjE) (auto intro!: that)

lemma flat_target_is_zero:
  assumes "target_quantity_base_1e8 0 eq px tick step ls qs = Inr q"
  shows "q = 0"
proof -
  from assms obtain raw where r: "raw_target_quantity_base_1e8 0 eq px tick ls qs = Inr raw"
    "floor_to_step raw step = Inr q" by (rule target_quantity_spec)
  from raw_target_quantity_spec(9)[OF r(1)] floor_to_step_spec(3)[OF r(2)] show ?thesis by simp
qed

lemma flat_request_closes:
  assumes "size_action ctx parsed a = Inr sz" "sz_target_lev sz = 0"
  shows "sz_requested_delta sz = - ac_position_qty_base_1e8 a"
  using assms(1)
proof (rule size_action_spec)
  fix mark upnl fb target
  assume "target_quantity_base_1e8 (sz_target_lev sz) (ac_cash_micro a + upnl) (br_o fb)
      (tc_tick ctx) (ms_qty_step_base_1e8 (tc_spec ctx)) LEVERAGE_SCALE QTY_SCALE = Inr target"
    and d: "sz_requested_delta sz = target - ac_position_qty_base_1e8 a"
  with assms(2) have "target = 0" by (simp add: flat_target_is_zero)
  with d show ?thesis by simp
qed

text \<open>A fully flat quantity request can only come from a non-zero target when the account
  already holds the requested quantity.\<close>

lemma kept_position_has_target:
  assumes "size_action ctx parsed a = Inr sz" "sz_requested_delta sz = 0"
    "ac_position_qty_base_1e8 a \<noteq> 0"
  shows "sz_target_lev sz \<noteq> 0"
  using flat_request_closes[OF assms(1)] assms(2,3) by auto

lemma order_fill_bounds:
  assumes "calculate_fill (order_request ctx delta fb) = Inr fill"
  shows "0 \<le> fq_filled_qty_base_1e8 (fc_quantities fill)"
    "fq_filled_qty_base_1e8 (fc_quantities fill) + fq_cancelled_qty_base_1e8 (fc_quantities fill)
       = \<bar>delta\<bar>"
    "0 \<le> fq_cancelled_qty_base_1e8 (fc_quantities fill)"
    "0 < fc_fill_px_ticks fill" "0 \<le> fc_fee_micro fill" "0 \<le> fc_notional_micro fill"
proof -
  have sc: "0 < fr_rate_scale (order_request ctx delta fb)"
    by (simp add: order_request_def RATE_SCALE_def)
  from calculate_fill_spec[OF assms sc] obtain fe where
    f: "participation_fill (fr_requested_qty_base_1e8 (order_request ctx delta fb))
       (fr_bar_volume_base_1e8 (order_request ctx delta fb))
       (fr_participation_cap_1e8 (order_request ctx delta fb))
       (fr_qty_step_base_1e8 (order_request ctx delta fb))
       (fr_rate_scale (order_request ctx delta fb)) = Inr (fc_quantities fill)"
    "fill_price_ticks (fr_side (order_request ctx delta fb))
       (fr_ref_px_ticks (order_request ctx delta fb)) (fc_half_spread_ticks fill)
       (fc_impact_ticks fill) = Inr (fc_fill_px_ticks fill)"
    "notional_micro (fq_filled_qty_base_1e8 (fc_quantities fill)) (fc_fill_px_ticks fill)
       (fr_tick_size_micro (order_request ctx delta fb)) QTY_SCALE = Inr (fc_notional_micro fill)"
    "fee_micro (fc_notional_micro fill) fe (fr_rate_scale (order_request ctx delta fb))
       = Inr (fc_fee_micro fill)"
    by metis
  note w = participation_fill_within[OF f(1) sc]
  from f(1) have c: "fq_cancelled_qty_base_1e8 (fc_quantities fill)
      = \<bar>delta\<bar> - fq_filled_qty_base_1e8 (fc_quantities fill)"
    by (rule participation_fill_spec) (simp add: order_request_def)
  from w c show "0 \<le> fq_filled_qty_base_1e8 (fc_quantities fill)"
    "fq_filled_qty_base_1e8 (fc_quantities fill) + fq_cancelled_qty_base_1e8 (fc_quantities fill)
       = \<bar>delta\<bar>"
    "0 \<le> fq_cancelled_qty_base_1e8 (fc_quantities fill)"
    by (simp_all add: order_request_def)
  from f(2) show "0 < fc_fill_px_ticks fill" by (simp add: fill_price_ticks_eq)
  from f(3) show "0 \<le> fc_notional_micro fill" by (rule notional_nonneg)
  from f(4) sc show "0 \<le> fc_fee_micro fill" by (simp add: fee_nonneg)
qed

lemma order_fill_ok:
  assumes "size_action ctx parsed a = Inr sz"
    and "calculate_fill (order_request ctx (sz_requested_delta sz) fb) = Inr fill"
  shows "fill_ok a (fill_of_order sz fill)"
proof -
  note b = order_fill_bounds[OF assms(2)]
  let ?p = "ac_position_qty_base_1e8 a" and ?q = "fq_filled_qty_base_1e8 (fc_quantities fill)"
  have flat: "\<bar>?p + d\<bar> \<le> \<bar>?p\<bar> \<and> 0 \<le> (?p + d) * ?p \<and>
      (fq_cancelled_qty_base_1e8 (fc_quantities fill) = 0 \<longrightarrow> ?p + d = 0)"
    if "sz_target_lev sz = 0" "d = (if 0 < sz_requested_delta sz then ?q else - ?q)" for d
    using flat_request_closes[OF assms(1) that(1)] b that(2)
    by (auto simp: zero_le_mult_iff)
  from b flat show ?thesis by (auto simp: fill_ok_def fill_of_order_def Let_def)
qed

lemma apply_check_effect:
  "frame run (apply_check ctx c run)" "rn_account (apply_check ctx c run) = rn_account run"
  "ct_liquidations (rn_counters (apply_check ctx c run)) = ct_liquidations (rn_counters run)"
  "ct_kill_switch_fired (rn_counters (apply_check ctx c run))
     = ct_kill_switch_fired (rn_counters run)"
  "ct_turns (rn_counters (apply_check ctx c run)) = ct_turns (rn_counters run)"
  "numbered (rn_events run) \<Longrightarrow> numbered (rn_events (apply_check ctx c run))"
  by (auto simp: apply_check_def frame_def)

definition only_evidence :: "run_state \<Rightarrow> run_state \<Rightarrow> bool" where
  "only_evidence run run' \<longleftrightarrow> frame run run' \<and> rn_account run' = rn_account run \<and>
     ct_liquidations (rn_counters run') = ct_liquidations (rn_counters run) \<and>
     ct_kill_switch_fired (rn_counters run') = ct_kill_switch_fired (rn_counters run) \<and>
     ct_turns (rn_counters run') = ct_turns (rn_counters run) \<and>
     (numbered (rn_events run) \<longrightarrow> numbered (rn_events run'))"

lemma only_evidence_trans: "only_evidence a b \<Longrightarrow> only_evidence b c \<Longrightarrow> only_evidence a c"
  by (auto simp: only_evidence_def frame_def)

lemma only_evidence_refl [simp]: "only_evidence a a"
  by (simp add: only_evidence_def)

lemma record_event_only [simp]: "only_evidence run (record_event ctx ty pl ts b run)"
  by (simp add: only_evidence_def frame_def)

lemma only_evidence_ok:
  assumes "only_evidence run run'" "run_ok start run"
  shows "run_ok start run'"
  using assms(1) run_okD(1,4,8,9)[OF assms(2)]
  by (intro run_ok_cong[OF assms(2)]) (simp_all only: only_evidence_def frame_def)

lemma apply_checks_only: "only_evidence run (fold (apply_check ctx) cs run)"
proof (induction cs arbitrary: run)
  case Nil
  then show ?case by simp
next
  case (Cons c cs)
  have "only_evidence run (apply_check ctx c run)"
    using apply_check_effect[where run = run and ctx = ctx and c = c] by (simp add: only_evidence_def)
  with Cons.IH[of "apply_check ctx c run"] show ?case by (auto intro: only_evidence_trans)
qed

lemma note_post_kill_switch_only:
  "only_evidence run (note_post_kill_switch ctx parsed d run)"
  by (simp add: note_post_kill_switch_def only_evidence_def frame_def)

lemma cancel_order_only: "only_evidence run (cancel_order ctx reason n run)"
  by (simp add: cancel_order_def)

lemma record_fill_only: "only_evidence run (record_fill ctx n fb fill run)"
  by (simp add: record_fill_def Let_def only_evidence_trans[OF record_event_only record_event_only]
      del: One_nat_def)

lemma execute_order_cases:
  assumes "execute_order ctx parsed sz run = Inr run'"
  obtains (cancelled) "only_evidence run run'"
  | (filled) fb fill account where "py_nth (md_trade (tc_market ctx)) (tc_fill_abs ctx) = Inr fb"
      "calculate_fill (order_request ctx (sz_requested_delta sz) fb) = Inr fill"
      "cancel_reason ctx (pa_max_slippage_bps parsed) fill = None"
      "apply_position_fill (rn_account run) (fill_of_order sz fill) (tc_spec ctx) = Inr account"
      "run' = record_fill ctx \<bar>sz_requested_delta sz\<bar> fb fill (run\<lparr>rn_account := account\<rparr>)"
proof -
  from assms obtain fb fill where f: "py_nth (md_trade (tc_market ctx)) (tc_fill_abs ctx) = Inr fb"
    "calculate_fill (order_request ctx (sz_requested_delta sz) fb) = Inr fill"
    by (auto simp: execute_order_def Let_def and_then_eq_Inr)
  show thesis
  proof (cases "cancel_reason ctx (pa_max_slippage_bps parsed) fill")
    case None
    with assms f filled[OF f] show thesis
      by (auto simp: execute_order_def Let_def and_then_eq_Inr)
  next
    case (Some reason)
    with assms f cancelled cancel_order_only show thesis by (auto simp: execute_order_def Let_def)
  qed
qed

text \<open>The account after a decision, its gates and its order.\<close>

lemma set_account_ok:
  assumes "run_ok start run" "account_ok start b"
    "ac_kill_switch_active b = ac_kill_switch_active (rn_account run)"
    "rn_terminal run \<longrightarrow> ac_position_qty_base_1e8 b = 0"
  shows "run_ok start (run\<lparr>rn_account := b\<rparr>)" "frame run (run\<lparr>rn_account := b\<rparr>)"
  using run_okD(1,4,8,9)[OF assms(1)] assms(2-4)
  by (auto intro!: run_ok_cong[OF assms(1)] simp: frame_def)

lemma execute_order_ok:
  assumes "execute_order ctx parsed sz run = Inr run'" "run_ok start run"
    and "size_action ctx parsed (rn_account run) = Inr sz"
    and "\<not> ac_kill_switch_active (rn_account run)" "\<not> rn_terminal run"
  shows "run_ok start run'" "frame run run'"
proof -
  from assms(1) have "run_ok start run' \<and> frame run run'"
  proof (cases rule: execute_order_cases)
    case cancelled
    with assms(2) show ?thesis by (auto intro: only_evidence_ok simp: only_evidence_def)
  next
    case (filled fb fill account)
    note fo = order_fill_ok[OF assms(3) filled(2)]
    have ok: "account_ok start account"
      by (rule apply_position_fill_ok[OF filled(4) run_okD(1)[OF assms(2)] fo])
        (simp add: assms(4))
    note eff = apply_position_fill_cash[OF filled(4) run_okD(1)[OF assms(2)] fo]
    have r: "run_ok start (run\<lparr>rn_account := account\<rparr>)" "frame run (run\<lparr>rn_account := account\<rparr>)"
      using set_account_ok[OF assms(2) ok] eff assms(5) by auto
    from only_evidence_ok[OF record_fill_only r(1)] record_fill_only r(2) show ?thesis
      unfolding filled(5) by (auto simp: only_evidence_def intro: frame_trans)
  qed
  then show "run_ok start run'" "frame run run'" by auto
qed

lemma zero_delta_ok:
  assumes "run_ok start run" "size_action ctx parsed (rn_account run) = Inr sz"
    "sz_requested_delta sz = 0"
  shows "run_ok start (zero_delta ctx sz run)" "frame run (zero_delta ctx sz run)"
proof -
  let ?a = "rn_account run"
  have ok: "account_ok start (?a\<lparr>ac_target_leverage_1e4 := \<bar>sz_target_lev sz\<bar>\<rparr>)"
    if "ac_position_qty_base_1e8 ?a \<noteq> 0"
    using kept_position_has_target[OF assms(2,3) that] run_okD(1)[OF assms(1)] that
    by (simp add: account_unfold)
  have nt: "\<not> rn_terminal run" if "ac_position_qty_base_1e8 ?a \<noteq> 0"
    using run_okD(8)[OF assms(1)] that by auto
  have "run_ok start (run\<lparr>rn_account := ?a\<lparr>ac_target_leverage_1e4 := \<bar>sz_target_lev sz\<bar>\<rparr>\<rparr>)"
    if "ac_position_qty_base_1e8 ?a \<noteq> 0"
    by (rule set_account_ok[OF assms(1) ok[OF that]]) (simp_all add: nt[OF that])
  then show "run_ok start (zero_delta ctx sz run)"
    using assms(1) by (simp add: zero_delta_def)
  show "frame run (zero_delta ctx sz run)" by (simp add: zero_delta_def frame_def)
qed

text \<open>The kill-switch gate.\<close>

lemma kill_gate:
  assumes "\<not> (\<exists>c \<in> set (risk_checks ctx sz a). \<not> rc_passed c)" "ac_kill_switch_active a"
  shows "sz_target_lev sz = 0"
  using assms by (auto simp: risk_checks_def)

lemma act_on_parsed_ok:
  assumes "act_on_parsed ctx d parsed run = Inr run'" "run_ok start run" "\<not> rn_terminal run"
  shows "run_ok start run'" "frame run run'"
proof -
  from assms(1) obtain sz where sz: "size_action ctx parsed (rn_account run) = Inr sz"
    by (auto simp: act_on_parsed_def and_then_eq_Inr)
  let ?checks = "risk_checks ctx sz (rn_account run)"
  let ?blocked = "\<exists>c \<in> set ?checks. \<not> rc_passed c"
  define mid where "mid = (if ?blocked \<and> ac_kill_switch_active (rn_account run) \<and> sz_target_lev sz \<noteq> 0
     then note_post_kill_switch ctx parsed d (fold (apply_check ctx) ?checks run)
     else fold (apply_check ctx) ?checks run)"
  have m: "only_evidence run mid"
    by (auto simp: mid_def intro: apply_checks_only only_evidence_trans[OF apply_checks_only]
        note_post_kill_switch_only)
  then have mid: "run_ok start mid" "frame run mid" "rn_account mid = rn_account run"
    "\<not> rn_terminal mid"
    using only_evidence_ok[OF m assms(2)] assms(3) by (auto simp: only_evidence_def frame_def)
  from assms(1) have cases: "(\<not> ?blocked \<and> sz_requested_delta sz \<noteq> 0 \<and>
        execute_order ctx parsed sz mid = Inr run') \<or>
      (\<not> ?blocked \<and> sz_requested_delta sz = 0 \<and> run' = zero_delta ctx sz mid) \<or>
      (?blocked \<and> run' = mid)"
    by (auto simp: act_on_parsed_def sz mid_def Let_def split: if_splits)
  have "run_ok start run' \<and> frame mid run'"
    using cases
  proof (elim disjE conjE)
    assume nb: "\<not> ?blocked" and d: "sz_requested_delta sz \<noteq> 0"
      and e: "execute_order ctx parsed sz mid = Inr run'"
    have nk: "\<not> ac_kill_switch_active (rn_account run)"
    proof
      assume k: "ac_kill_switch_active (rn_account run)"
      with run_okD(1)[OF assms(2)] have "ac_position_qty_base_1e8 (rn_account run) = 0"
        by (simp add: account_ok_def)
      with flat_request_closes[OF sz kill_gate[OF nb k]] d show False by simp
    qed
    from execute_order_ok[OF e mid(1)] sz nk mid show ?thesis by simp
  next
    assume "sz_requested_delta sz = 0" "run' = zero_delta ctx sz mid"
    with zero_delta_ok[OF mid(1), of ctx parsed sz] sz mid show ?thesis by simp
  next
    assume "run' = mid"
    with mid show ?thesis by simp
  qed
  with mid(2) show "run_ok start run'" "frame run run'" by (auto intro: frame_trans)
qed

lemma act_on_decision_ok:
  assumes "act_on_decision ctx d run = Inr run'" "run_ok start run" "\<not> rn_terminal run"
  shows "run_ok start run'" "frame run run'"
  using assms act_on_parsed_ok[OF _ assms(2,3)]
  by (auto simp: act_on_decision_def split: option.splits)
section \<open>Margin record, liquidation, closing snapshot\<close>

lemma record_margin_only:
  "record_margin ctx run = Inr run' \<Longrightarrow> only_evidence run run'"
  by (auto simp: record_margin_def and_then_eq_Inr only_evidence_def frame_def numbered_snoc
      split: if_splits)

lemma open_margin_update_only:
  "open_margin_update ctx run = Inr run' \<Longrightarrow> only_evidence run run'"
  by (auto simp: open_margin_update_def record_margin_only split: if_splits)

lemma terminal_margin_update_only:
  "terminal_margin_update ctx run = Inr run' \<Longrightarrow> only_evidence run run'"
  by (auto simp: terminal_margin_update_def record_margin_only split: if_splits)

lemma near_liquidation_only:
  "near_liquidation ctx mark liq run = Inr run' \<Longrightarrow> only_evidence run run'"
  by (auto simp: near_liquidation_def Let_def and_then_eq_Inr)

lemma liquidate_effect:
  assumes "liquidate ctx mark liq run = Inr run'" "run_ok start run"
    "ac_position_qty_base_1e8 (rn_account run) \<noteq> 0"
  shows "run_ok start run'" "rn_terminal run'" "rn_snapshots run' = rn_snapshots run"
    "rn_decisions run' = rn_decisions run" "rn_account run' = flattened (rn_account run')"
    "ac_kill_switch_active (rn_account run') = ac_kill_switch_active (rn_account run)"
    "ct_turns (rn_counters run') = ct_turns (rn_counters run)"
proof -
  let ?a = "rn_account run"
  define px where "px = (if 0 < ac_position_qty_base_1e8 ?a then br_l mark else br_h mark)"
  from assms(1) obtain r p n where
    r: "realized_pnl_micro (py_sign (ac_position_qty_base_1e8 ?a)) \<bar>ac_position_qty_base_1e8 ?a\<bar>
        (ac_entry_px_ticks ?a) px (tc_tick ctx) QTY_SCALE = Inr r"
    and p: "liquidation_penalty_micro (ac_position_qty_base_1e8 ?a) px (tc_tick ctx)
        (ms_liquidation_penalty_1e8 (tc_spec ctx)) QTY_SCALE RATE_SCALE = Inr p"
    and n: "notional_micro (ac_position_qty_base_1e8 ?a) px (tc_tick ctx) QTY_SCALE = Inr n"
    unfolding liquidate_def Let_def and_then_eq_Inr px_def by blast
  define b where "b = ?a\<lparr>ac_cash_micro := ac_cash_micro ?a + (r - p),
         ac_realized_price_cum_micro := ac_realized_price_cum_micro ?a + r,
         ac_liquidation_penalty_cum_micro := ac_liquidation_penalty_cum_micro ?a + p,
         ac_turnover_notional_micro := ac_turnover_notional_micro ?a + n\<rparr>"
  have "\<exists>ev. run' = (record_event ctx ''LiquidationTriggered'' ev (holding_close_ts ctx)
      (tc_turn ctx + 1) (run\<lparr>rn_account := b, rn_counters := (rn_counters run)
         \<lparr>ct_liquidations := ct_liquidations (rn_counters run) + 1\<rparr>\<rparr>))
      \<lparr>rn_account := flattened b, rn_terminal := True\<rparr>"
    using assms(1) r p n unfolding liquidate_def Let_def px_def [symmetric] b_def by auto
  then obtain ev where run': "run' = (record_event ctx ''LiquidationTriggered'' ev
      (holding_close_ts ctx) (tc_turn ctx + 1) (run\<lparr>rn_account := b, rn_counters := (rn_counters run)
         \<lparr>ct_liquidations := ct_liquidations (rn_counters run) + 1\<rparr>\<rparr>))
      \<lparr>rn_account := flattened b, rn_terminal := True\<rparr>" ..
  have pn: "0 \<le> p" "0 \<le> n"
    using p n by (auto simp: liquidation_penalty_micro_def and_then_eq_Inr RATE_SCALE_def
        intro: notional_nonneg dest!: fee_nonneg[rotated])
  have nt: "\<not> rn_terminal run" "ct_liquidations (rn_counters run) = 0"
    using run_okD(7,8)[OF assms(2)] assms(3) by auto
  have ok: "account_ok start (rn_account run')"
    using run_okD(1)[OF assms(2)] pn by (auto simp: run' flattened_def account_unfold b_def)
  show "rn_terminal run'" "rn_snapshots run' = rn_snapshots run"
    "rn_decisions run' = rn_decisions run" "rn_account run' = flattened (rn_account run')"
    "ac_kill_switch_active (rn_account run') = ac_kill_switch_active (rn_account run)"
    "ct_turns (rn_counters run') = ct_turns (rn_counters run)"
    by (simp_all add: run' flattened_def b_def)
  have num: "numbered (rn_events run')"
    using run_okD(4)[OF assms(2)] by (simp add: run')
  show "run_ok start run'"
    unfolding run_ok_def
    using ok run_okD(2,3,5,6,9)[OF assms(2)] nt num
    by (auto simp: run' flattened_def b_def)
qed

lemma liquidation_phase_cases:
  assumes "liquidation_phase ctx run = Inr run'" "run_ok start run"
  shows "run_ok start run'" "rn_snapshots run' = rn_snapshots run"
    "rn_decisions run' = rn_decisions run"
    "ac_kill_switch_active (rn_account run') = ac_kill_switch_active (rn_account run)"
    "ct_turns (rn_counters run') = ct_turns (rn_counters run)"
proof -
  have "only_evidence run run' \<or>
      (\<exists>mark liq. ac_position_qty_base_1e8 (rn_account run) \<noteq> 0 \<and>
         liquidate ctx mark liq run = Inr run')"
    using assms(1)
    by (auto simp: liquidation_phase_def Let_def and_then_eq_Inr near_liquidation_only
        split: if_splits)
  then show "run_ok start run'" "rn_snapshots run' = rn_snapshots run"
    "rn_decisions run' = rn_decisions run"
    "ac_kill_switch_active (rn_account run') = ac_kill_switch_active (rn_account run)"
    "ct_turns (rn_counters run') = ct_turns (rn_counters run)"
    using only_evidence_ok[OF _ assms(2)] liquidate_effect[OF _ assms(2)]
    by (auto simp: only_evidence_def frame_def)
qed

lemma append_snapshot_effect:
  assumes "append_snapshot ctx run = Inr run'" "run_ok start run"
    "length (rn_snapshots run) = tc_turn ctx + 1"
  obtains s where "run' = run\<lparr>rn_snapshots := rn_snapshots run @ [s]\<rparr>"
    "closing_snapshot ctx (rn_account run) = Inr s" "run_ok start run'"
proof -
  from assms(1) obtain s where s: "closing_snapshot ctx (rn_account run) = Inr s"
    and run': "run' = run\<lparr>rn_snapshots := rn_snapshots run @ [s]\<rparr>"
    by (auto simp: append_snapshot_def and_then_eq_Inr)
  have "snapshot_ok start s"
    using s run_okD(1)[OF assms(2)] by (auto simp: closing_snapshot_def intro: snapshot_is_ok)
  moreover have "sn_bar_index s = length (rn_snapshots run)"
    using s assms(3) by (auto simp: closing_snapshot_def dest: snapshot_fields(3))
  ultimately have "run_ok start run'"
    using run_okD(1,2,3,4,7,8,9)[OF assms(2)] run_okD(5,6)[OF assms(2)]
    unfolding run_ok_def run' by auto
  with that run' s show thesis by blast
qed

section \<open>Kill switch\<close>

lemma flatten_position_effect:
  assumes "flatten_position ctx run = Inr (run', seqs)" "run_ok start run"
    "rn_snapshots run = xs @ [s]" "xs \<noteq> []" "length xs = tc_turn ctx + 1"
    "\<not> rn_terminal run"
  obtains s' where "rn_snapshots run' = xs @ [s']" "run_ok start run'"
    "taken_from (rn_account run') s'" "ac_position_qty_base_1e8 (rn_account run') = 0"
    "rn_decisions run' = rn_decisions run" "\<not> rn_terminal run'"
    "ct_turns (rn_counters run') = ct_turns (rn_counters run)"
    "ac_kill_switch_active (rn_account run') = ac_kill_switch_active (rn_account run)"
proof -
  let ?a = "rn_account run"
  from assms(1) obtain mark n fr f r where m: "py_nth (md_mark (tc_market ctx)) (tc_fill_abs ctx) = Inr mark"
    and n: "notional_micro (ac_position_qty_base_1e8 ?a) (br_c mark) (tc_tick ctx) QTY_SCALE = Inr n"
    and fr: "apply_cost_multiplier (ms_taker_fee_rate_1e8 (tc_spec ctx)) (tc_multiplier ctx)
        COST_MULTIPLIER_SCALE = Inr fr" and f: "fee_micro n fr RATE_SCALE = Inr f"
    and r: "realized_pnl_micro (py_sign (ac_position_qty_base_1e8 ?a)) \<bar>ac_position_qty_base_1e8 ?a\<bar>
        (ac_entry_px_ticks ?a) (br_c mark) (tc_tick ctx) QTY_SCALE = Inr r"
    unfolding flatten_position_def Let_def and_then_eq_Inr by blast
  define b where "b = flattened (?a\<lparr>ac_cash_micro := ac_cash_micro ?a + (r - f),
             ac_realized_price_cum_micro := ac_realized_price_cum_micro ?a + r,
             ac_fees_cum_micro := ac_fees_cum_micro ?a + f,
             ac_turnover_notional_micro := ac_turnover_notional_micro ?a + n\<rparr>)"
  define mid where "mid = record_event ctx ''OrderFilled''
      (flatten_payload ctx (ac_position_qty_base_1e8 ?a) (br_c mark) n f)
      (holding_close_ts ctx) (tc_turn ctx + 1) (run\<lparr>rn_account := b\<rparr>)"
  have acc: "rn_account mid = b" by (simp add: mid_def)
  from assms(1) m n fr f r obtain s' where s': "closing_snapshot ctx b = Inr s'"
    and run': "record_margin ctx (mid\<lparr>rn_snapshots := butlast (rn_snapshots mid) @ [s']\<rparr>) = Inr run'"
    unfolding flatten_position_def Let_def by (auto simp: and_then_eq_Inr mid_def b_def)
  have fn: "0 \<le> f" "0 \<le> n"
    using f n by (auto simp: RATE_SCALE_def intro: notional_nonneg dest: fee_nonneg[rotated])
  note D = run_okD[OF assms(2)]
  have bok: "account_ok start b"
    using D(1) fn by (auto simp: b_def flattened_def account_unfold)
  have b0: "ac_position_qty_base_1e8 b = 0" "ac_kill_switch_active b = ac_kill_switch_active ?a"
    by (simp_all add: b_def flattened_def)
  have mok: "run_ok start mid" unfolding mid_def
    by (rule record_event_ok, rule set_account_ok[OF assms(2) bok]) (simp_all add: b0)
  have sok: "snapshot_ok start s'" "taken_from b s'" "sn_bar_index s' = length xs"
    using s' bok assms(5)
    by (auto simp: closing_snapshot_def intro: snapshot_is_ok snapshot_fields(1)
        dest: snapshot_fields(3))
  let ?new = "mid\<lparr>rn_snapshots := butlast (rn_snapshots mid) @ [s']\<rparr>"
  have snaps: "rn_snapshots ?new = xs @ [s']" by (simp add: mid_def assms(3))
  have bars: "map sn_bar_index xs = [0..<length xs]"
    using D(6) assms(3) by simp
  have "run_ok start ?new"
    using run_okD(1,4,7,8,9)[OF mok] D(3,5) sok(1,3) assms(3,4) bars
    unfolding run_ok_def snaps by (simp add: assms(3))
  with record_margin_only[OF run'] have ok: "run_ok start run'" "only_evidence ?new run'"
    by (auto intro: only_evidence_ok)
  show thesis
  proof (rule that)
    show "rn_snapshots run' = xs @ [s']" using ok(2) snaps by (simp add: only_evidence_def frame_def)
    show "run_ok start run'" by (rule ok)
    show "taken_from (rn_account run') s'" "ac_position_qty_base_1e8 (rn_account run') = 0"
      "rn_decisions run' = rn_decisions run" "\<not> rn_terminal run'"
      "ct_turns (rn_counters run') = ct_turns (rn_counters run)"
      "ac_kill_switch_active (rn_account run') = ac_kill_switch_active (rn_account run)"
      using ok(2) b0 sok(2) assms(6) by (simp_all add: only_evidence_def frame_def mid_def)
  qed
qed
lemma kill_switch_phase_effect:
  assumes "kill_switch_phase ctx run = Inr run'" "run_ok start run"
    "rn_snapshots run = xs @ [s]" "xs \<noteq> []" "length xs = tc_turn ctx + 1"
    "taken_from (rn_account run) s"
  obtains s' where "rn_snapshots run' = xs @ [s']" "run_ok start run'"
    "taken_from (rn_account run') s'" "rn_decisions run' = rn_decisions run"
    "rn_terminal run' = rn_terminal run"
    "ct_turns (rn_counters run') = ct_turns (rn_counters run)"
    "ac_kill_switch_active (rn_account run) \<longrightarrow> ac_kill_switch_active (rn_account run')"
proof -
  from assms(1) consider (idle) "run' = run"
    | (fired) mid seqs payload where "\<not> rn_terminal run" "\<not> ac_kill_switch_active (rn_account run)"
      "(if ac_position_qty_base_1e8 (rn_account run) \<noteq> 0 then flatten_position ctx run
        else Inr (run, [])) = Inr (mid, seqs)"
      "run' = record_event ctx ''KillSwitchTriggered'' payload (holding_close_ts ctx)
        (tc_turn ctx + 1) (mid\<lparr>rn_account := (rn_account mid)\<lparr>ac_kill_switch_active := True\<rparr>,
           rn_counters := (rn_counters mid)\<lparr>ct_kill_switch_fired := True\<rparr>\<rparr>)"
    unfolding kill_switch_phase_def Let_def
    by (auto simp: and_then_eq_Inr split: if_split_asm)
  then show thesis
  proof cases
    case idle
    with assms that[of s] show thesis by simp
  next
    case fired
    obtain s' where m: "rn_snapshots mid = xs @ [s']" "run_ok start mid"
      "taken_from (rn_account mid) s'" "ac_position_qty_base_1e8 (rn_account mid) = 0"
      "rn_decisions mid = rn_decisions run" "\<not> rn_terminal mid"
      "ct_turns (rn_counters mid) = ct_turns (rn_counters run)"
    proof (cases "ac_position_qty_base_1e8 (rn_account run) = 0")
      case True
      with fired assms(2,3,6) that[of s] show thesis by simp
    next
      case False
      with fired(3) have "flatten_position ctx run = Inr (mid, seqs)" by simp
      then show thesis using assms(2-5) fired(1)
        by (rule flatten_position_effect) (rule that)
    qed
    let ?new = "mid\<lparr>rn_account := (rn_account mid)\<lparr>ac_kill_switch_active := True\<rparr>,
           rn_counters := (rn_counters mid)\<lparr>ct_kill_switch_fired := True\<rparr>\<rparr>"
    have "account_ok start (rn_account ?new)"
      using run_okD(1)[OF m(2)] m(4) by (simp add: account_unfold)
    then have ok: "run_ok start ?new"
      using run_okD(4,7)[OF m(2)] m(4,6) by (intro run_ok_cong[OF m(2)]) simp_all
    show thesis
    proof (rule that[of s'])
      show "run_ok start run'" unfolding fired(4) by (rule record_event_ok[OF ok])
      show "taken_from (rn_account run') s'" using m(3) by (simp add: fired(4) taken_from_def)
    qed (use m fired in simp_all)
  qed
qed

section \<open>The market phase keeps the invariant\<close>

lemma market_phase_steps:
  assumes "market_phase ctx d run = Inr run'"
  obtains a b c e f g h i where "book_decision ctx d run = Inr a"
    "settle_opening_funding ctx a = Inr b" "act_on_decision ctx d b = Inr c"
    "settle_inside_funding ctx (c\<lparr>rn_last_turn := int (tc_turn ctx)\<rparr>) = Inr e"
    "open_margin_update ctx e = Inr f" "liquidation_phase ctx f = Inr g"
    "append_snapshot ctx g = Inr h" "kill_switch_phase ctx h = Inr i"
    "terminal_margin_update ctx i = Inr run'"
  using assms unfolding market_phase_def Let_def and_then_eq_Inr by blast

lemma last_turn_ok: "run_ok start run \<Longrightarrow> run_ok start (run\<lparr>rn_last_turn := k\<rparr>)"
  by (auto simp: run_ok_def)

lemma act_on_decision_turns:
  assumes "act_on_decision ctx d run = Inr run'"
  shows "ct_turns (rn_counters run') = ct_turns (rn_counters run)"
proof (cases "td_parsed d")
  case None
  with assms show ?thesis by (simp add: act_on_decision_def)
next
  case (Some parsed)
  have e: "ct_turns (rn_counters r') = ct_turns (rn_counters r)"
    if "execute_order ctx parsed sz r = Inr r'" for sz r r'
    using that
    by (cases rule: execute_order_cases)
       (use record_fill_only in \<open>fastforce simp: only_evidence_def\<close>)+
  have z: "ct_turns (rn_counters (zero_delta ctx sz r)) = ct_turns (rn_counters r)" for sz r
    by (simp add: zero_delta_def)
  have n: "ct_turns (rn_counters (note_post_kill_switch ctx parsed d r)) = ct_turns (rn_counters r)" for r
    by (simp add: note_post_kill_switch_def)
  have k: "ct_turns (rn_counters (fold (apply_check ctx) cs r)) = ct_turns (rn_counters r)" for cs r
    using apply_checks_only[of r ctx cs] by (simp add: only_evidence_def)
  from assms Some show ?thesis
    by (auto simp: act_on_decision_def act_on_parsed_def and_then_eq_Inr Let_def z n k dest!: e
        split: if_splits)
qed

lemma market_phase_ok:
  assumes "market_phase ctx d run = Inr run'" "run_ok start run" "\<not> rn_terminal run"
    "length (rn_snapshots run) = tc_turn ctx + 1"
  obtains s where "run_ok start run'" "rn_snapshots run' = rn_snapshots run @ [s]"
    "taken_from (rn_account run') s" "rn_decisions run' = rn_decisions run"
    "ct_turns (rn_counters run') = ct_turns (rn_counters run) + 1"
    "ac_kill_switch_active (rn_account run) \<longrightarrow> ac_kill_switch_active (rn_account run')"
proof -
  from assms(1) obtain a b c e f g h i where s:
    "book_decision ctx d run = Inr a"
    "settle_opening_funding ctx a = Inr b" "act_on_decision ctx d b = Inr c"
    "settle_inside_funding ctx (c\<lparr>rn_last_turn := int (tc_turn ctx)\<rparr>) = Inr e"
    "open_margin_update ctx e = Inr f" "liquidation_phase ctx f = Inr g"
    "append_snapshot ctx g = Inr h" "kill_switch_phase ctx h = Inr i"
    "terminal_margin_update ctx i = Inr run'" by (rule market_phase_steps)
  have ok_a: "run_ok start a" by (rule book_decision_ok[OF s(1) assms(2)])
  note B = settle_opening_funding_effect[OF s(2) ok_a]
  have nt: "\<not> rn_terminal b" using book_decision_effect(1)[OF s(1)] B(1) assms(3)
    by (simp add: frame_def)
  note C = act_on_decision_ok[OF s(3) B(2) nt]
  note E = settle_inside_funding_effect[OF s(4) last_turn_ok[OF C(1)]]
  note F = open_margin_update_only[OF s(5)]
  have ok_f: "run_ok start f" by (rule only_evidence_ok[OF F E(1)])
  note G = liquidation_phase_cases[OF s(6) ok_f]
  have pre: "rn_snapshots g = rn_snapshots run" "rn_decisions g = rn_decisions run"
    "ac_kill_switch_active (rn_account g) = ac_kill_switch_active (rn_account run)"
    "ct_turns (rn_counters g) = ct_turns (rn_counters run) + 1"
    using book_decision_effect[OF s(1)] B C E(2) F G act_on_decision_turns[OF s(3)]
    by (simp_all add: frame_def same_book_def only_evidence_def)
  have len: "length (rn_snapshots g) = tc_turn ctx + 1" using pre assms(4) by simp
  from s(7) G(1) len obtain sn where H: "h = g\<lparr>rn_snapshots := rn_snapshots g @ [sn]\<rparr>"
    "closing_snapshot ctx (rn_account g) = Inr sn" "run_ok start h"
    by (rule append_snapshot_effect)
  from H(2) have tk: "taken_from (rn_account h) sn"
    by (auto simp: H(1) closing_snapshot_def intro: snapshot_fields(1))
  have ne: "rn_snapshots g \<noteq> []" using len by auto
  from H(1) have hs: "rn_snapshots h = rn_snapshots g @ [sn]" by simp
  from s(8) H(3) hs ne len tk obtain s' where I: "rn_snapshots i = rn_snapshots g @ [s']"
    "run_ok start i" "taken_from (rn_account i) s'" "rn_decisions i = rn_decisions h"
    "rn_terminal i = rn_terminal h" "ct_turns (rn_counters i) = ct_turns (rn_counters h)"
    "ac_kill_switch_active (rn_account h) \<longrightarrow> ac_kill_switch_active (rn_account i)"
    by (rule kill_switch_phase_effect)
  note R = terminal_margin_update_only[OF s(9)]
  show thesis
  proof (rule that[of s'])
    show "run_ok start run'" by (rule only_evidence_ok[OF R I(2)])
  qed (use R I pre H(1) in \<open>simp_all add: only_evidence_def frame_def\<close>)
qed

end
