(* ===== verification/Sha256.thy ===== *)
theory Sha256
  imports Unicode
begin

text \<open>
  The \<open>hashlib.sha256\<close> of the standard library (FIPS 180-4) on byte lists, with 32-bit
  wrap-around arithmetic, and the project's \<open>sha256:<64 hex>\<close> form of
  \<open>spec/canonical.py\<close>.
\<close>

unbundle bit_operations_syntax

type_synonym w32 = "32 word"

definition sha_k :: "w32 list" where
  "sha_k = [0x428A2F98, 0x71374491, 0xB5C0FBCF, 0xE9B5DBA5, 0x3956C25B, 0x59F111F1,
     0x923F82A4, 0xAB1C5ED5, 0xD807AA98, 0x12835B01, 0x243185BE, 0x550C7DC3,
     0x72BE5D74, 0x80DEB1FE, 0x9BDC06A7, 0xC19BF174, 0xE49B69C1, 0xEFBE4786,
     0x0FC19DC6, 0x240CA1CC, 0x2DE92C6F, 0x4A7484AA, 0x5CB0A9DC, 0x76F988DA,
     0x983E5152, 0xA831C66D, 0xB00327C8, 0xBF597FC7, 0xC6E00BF3, 0xD5A79147,
     0x06CA6351, 0x14292967, 0x27B70A85, 0x2E1B2138, 0x4D2C6DFC, 0x53380D13,
     0x650A7354, 0x766A0ABB, 0x81C2C92E, 0x92722C85, 0xA2BFE8A1, 0xA81A664B,
     0xC24B8B70, 0xC76C51A3, 0xD192E819, 0xD6990624, 0xF40E3585, 0x106AA070,
     0x19A4C116, 0x1E376C08, 0x2748774C, 0x34B0BCB5, 0x391C0CB3, 0x4ED8AA4A,
     0x5B9CCA4F, 0x682E6FF3, 0x748F82EE, 0x78A5636F, 0x84C87814, 0x8CC70208,
     0x90BEFFFA, 0xA4506CEB, 0xBEF9A3F7, 0xC67178F2]"

definition sha_h0 :: "w32 list" where
  "sha_h0 = [0x6A09E667, 0xBB67AE85, 0x3C6EF372, 0xA54FF53A, 0x510E527F, 0x9B05688C,
     0x1F83D9AB, 0x5BE0CD19]"

definition be32 :: "byte \<Rightarrow> byte \<Rightarrow> byte \<Rightarrow> byte \<Rightarrow> w32" where
  "be32 a b c d = push_bit 24 (ucast a) OR push_bit 16 (ucast b) OR push_bit 8 (ucast c) OR ucast d"

fun words_of :: "byte list \<Rightarrow> w32 list" where
  "words_of (a # b # c # d # rest) = be32 a b c d # words_of rest"
| "words_of _ = []"

definition bytes_of_word :: "w32 \<Rightarrow> byte list" where
  "bytes_of_word w = [ucast (drop_bit 24 w), ucast (drop_bit 16 w), ucast (drop_bit 8 w), ucast w]"

definition be64_bytes :: "nat \<Rightarrow> byte list" where
  "be64_bytes n = map (\<lambda>i. of_nat (n div 256 ^ i)) [7, 6, 5, 4, 3, 2, 1, 0]"

definition sha_pad :: "byte list \<Rightarrow> byte list" where
  "sha_pad bs = bs @ [0x80] @ replicate ((119 - length bs mod 64) mod 64) 0
     @ be64_bytes (8 * length bs)"

text \<open>The message schedule: newest word first while it is extended.\<close>

definition sched_step :: "w32 list \<Rightarrow> w32 list" where
  "sched_step ws =
     (let w15 = ws ! 14; w2 = ws ! 1;
          s0 = word_rotr 7 w15 XOR word_rotr 18 w15 XOR drop_bit 3 w15;
          s1 = word_rotr 17 w2 XOR word_rotr 19 w2 XOR drop_bit 10 w2
      in (ws ! 15 + s0 + ws ! 6 + s1) # ws)"

definition schedule :: "w32 list \<Rightarrow> w32 list" where
  "schedule block = rev ((sched_step ^^ 48) (rev block))"

type_synonym sha_state = "w32 \<times> w32 \<times> w32 \<times> w32 \<times> w32 \<times> w32 \<times> w32 \<times> w32"

fun sha_round :: "w32 \<times> w32 \<Rightarrow> sha_state \<Rightarrow> sha_state" where
  "sha_round (k, w) (a, b, c, d, e, f, g, h) =
     (let s1 = word_rotr 6 e XOR word_rotr 11 e XOR word_rotr 25 e;
          ch = (e AND f) XOR ((NOT e) AND g);
          t1 = h + s1 + ch + k + w;
          s0 = word_rotr 2 a XOR word_rotr 13 a XOR word_rotr 22 a;
          maj = (a AND b) XOR (a AND c) XOR (b AND c);
          t2 = s0 + maj
      in (t1 + t2, a, b, c, d + t1, e, f, g))"

fun state_of :: "w32 list \<Rightarrow> sha_state" where
  "state_of [a, b, c, d, e, f, g, h] = (a, b, c, d, e, f, g, h)"
| "state_of _ = (0, 0, 0, 0, 0, 0, 0, 0)"

fun list_of_state :: "sha_state \<Rightarrow> w32 list" where
  "list_of_state (a, b, c, d, e, f, g, h) = [a, b, c, d, e, f, g, h]"

definition compress :: "w32 list \<Rightarrow> w32 list \<Rightarrow> w32 list" where
  "compress block hs =
     map2 (+) hs (list_of_state (fold sha_round (zip sha_k (schedule block)) (state_of hs)))"

fun blocks :: "nat \<Rightarrow> 'a list \<Rightarrow> 'a list list" where
  "blocks n xs = (if xs = [] \<or> n = 0 then [] else take n xs # blocks n (drop n xs))"

declare blocks.simps [simp del]

definition sha256 :: "byte list \<Rightarrow> byte list" where
  "sha256 bs = concat (map bytes_of_word (fold compress (blocks 16 (words_of (sha_pad bs))) sha_h0))"

section \<open>The prefixed hexadecimal form\<close>

definition hex_digits :: string where "hex_digits = ''0123456789abcdef''"

definition hex_of_byte :: "byte \<Rightarrow> string" where
  "hex_of_byte b = [hex_digits ! (unat b div 16), hex_digits ! (unat b mod 16)]"

definition hexdigest :: "byte list \<Rightarrow> string" where
  "hexdigest bs = concat (map hex_of_byte bs)"

definition sha256_prefixed :: "byte list \<Rightarrow> string" where
  "sha256_prefixed data = ''sha256:'' @ hexdigest (sha256 data)"

definition HASH_PREFIX :: string where "HASH_PREFIX = ''sha256:''"

definition well_formed_hash :: "string \<Rightarrow> bool" where
  "well_formed_hash v \<longleftrightarrow> length v = length HASH_PREFIX + 64 \<and>
     take (length HASH_PREFIX) v = HASH_PREFIX \<and>
     set (drop (length HASH_PREFIX) v) \<subseteq> set hex_digits"

definition require_hash :: "string \<Rightarrow> string \<Rightarrow> string result" where
  "require_hash v what =
     (if well_formed_hash v then Inr v else Inl (CanonicalizationError what))"

section \<open>Shape of the digest\<close>

lemma length_list_of_state [simp]: "length (list_of_state s) = 8"
  by (cases s rule: list_of_state.cases) simp

lemma length_compress: "length hs = 8 \<Longrightarrow> length (compress block hs) = 8"
  by (simp add: compress_def)

lemma length_fold_compress: "length hs = 8 \<Longrightarrow> length (fold compress bl hs) = 8"
  by (induction bl arbitrary: hs) (simp_all add: length_compress)

lemma length_sha256 [simp]: "length (sha256 bs) = 32"
proof -
  have "length (fold compress bl sha_h0) = 8" for bl
    by (rule length_fold_compress) (simp add: sha_h0_def)
  moreover have "length (concat (map bytes_of_word ws)) = 4 * length ws" for ws
    by (induction ws) (simp_all add: bytes_of_word_def)
  ultimately show ?thesis by (simp add: sha256_def)
qed

lemma hexdigest_shape: "length (hexdigest bs) = 2 * length bs" "set (hexdigest bs) \<subseteq> set hex_digits"
proof -
  have nib: "hex_digits ! k \<in> set hex_digits" if "k < 16" for k
    by (rule nth_mem) (use that in \<open>simp add: hex_digits_def\<close>)
  have hi: "unat (b::byte) div 16 < 16" for b
    using unsigned_less[of b, where 'a = nat] by simp
  show "length (hexdigest bs) = 2 * length bs"
    by (induction bs) (simp_all add: hexdigest_def hex_of_byte_def)
  show "set (hexdigest bs) \<subseteq> set hex_digits"
    by (auto simp: hexdigest_def hex_of_byte_def intro!: nib hi)
qed

lemma sha256_prefixed_well_formed [simp]: "well_formed_hash (sha256_prefixed data)"
  using hexdigest_shape[of "sha256 data"]
  by (simp add: well_formed_hash_def sha256_prefixed_def HASH_PREFIX_def)

lemma require_hash_prefixed [simp]: "require_hash (sha256_prefixed data) what = Inr (sha256_prefixed data)"
  by (simp add: require_hash_def)

lemma require_hash_eq_Inr: "require_hash v what = Inr x \<longleftrightarrow> well_formed_hash v \<and> x = v"
  by (auto simp: require_hash_def)

end
