(* ===== verification/Canonical.thy ===== *)
theory Canonical
  imports Json Sha256 Decimal "HOL-Library.List_Lexorder"
begin

text \<open>
  Model of \<open>spec/canonical.py\<close>: the RFC 8785 encoder with the project's float ban, content
  hashes, and the linear hash chain with its builder and verifier.
\<close>

section \<open>Canonical encoding\<close>

definition MAX_SAFE_INT :: int where "MAX_SAFE_INT = 9007199254740991"

definition hex4 :: "nat \<Rightarrow> string" where
  "hex4 n = [hex_digits ! (n div 4096 mod 16), hex_digits ! (n div 256 mod 16),
             hex_digits ! (n div 16 mod 16), hex_digits ! (n mod 16)]"

definition escape_char :: "codepoint \<Rightarrow> ustring" where
  "escape_char c =
     (if c = 34 then [92, 34] else if c = 92 then [92, 92] else if c = 8 then [92, 98]
      else if c = 9 then [92, 116] else if c = 10 then [92, 110] else if c = 12 then [92, 102]
      else if c = 13 then [92, 114]
      else if c < 0x20 then [92, 117] @ ascii (hex4 c)
      else [c])"

definition encode_string :: "ustring \<Rightarrow> ustring" where
  "encode_string s = [34] @ concat (map escape_char s) @ [34]"

definition sort_key_bytes :: "ustring \<Rightarrow> nat list result" where
  "sort_key_bytes key =
     (case utf16_be_encode key of
        None \<Rightarrow> Inl (CanonicalizationError ''object key is not valid Unicode'')
      | Some bs \<Rightarrow> Inr bs)"

text \<open>Members sorted by the UTF-16 bytes of their keys (the sort of Python is stable).\<close>

definition sort_members :: "(ustring \<times> 'a) list \<Rightarrow> (ustring \<times> 'a) list result" where
  "sort_members members =
     and_then (traverse (\<lambda>(k, v). and_then (sort_key_bytes k) (\<lambda>b. Inr (b, k, v))) members)
       (\<lambda>keyed. Inr (map snd (sort_key fst keyed)))"

definition join_commas :: "ustring list \<Rightarrow> ustring" where
  "join_commas parts = (case parts of [] \<Rightarrow> [] | p # ps \<Rightarrow> p @ concat (map (\<lambda>q. 44 # q) ps))"

text \<open>
  The recursion encodes each member; errors surface in the order in which the source
  meets them, which is the sorted order of the keys.
\<close>

fun encode_json :: "ustring json \<Rightarrow> ustring result"
  and encode_items :: "ustring json list \<Rightarrow> ustring result list"
  and encode_members :: "(ustring \<times> ustring json) list \<Rightarrow> (ustring \<times> ustring result) list" where
  "encode_json JNull = Inr (ascii ''null'')"
| "encode_json (JBool b) = Inr (ascii (if b then ''true'' else ''false''))"
| "encode_json (JFloat t) = Inl (CanonicalizationError ''floats are forbidden in hashed payloads'')"
| "encode_json (JInt n) =
     (if - MAX_SAFE_INT \<le> n \<and> n \<le> MAX_SAFE_INT then Inr (ascii (show_int n))
      else Inl (CanonicalizationError ''integer exceeds I-JSON safe range''))"
| "encode_json (JStr s) = Inr (encode_string s)"
| "encode_json (JArr xs) =
     and_then (traverse id (encode_items xs)) (\<lambda>parts. Inr ([91] @ join_commas parts @ [93]))"
| "encode_json (JObj kvs) =
     and_then (sort_members (encode_members kvs)) (\<lambda>sorted_members.
     and_then (traverse (\<lambda>(k, e). and_then e (\<lambda>t. Inr (encode_string k @ [58] @ t))) sorted_members)
       (\<lambda>parts. Inr ([123] @ join_commas parts @ [125])))"
| "encode_items [] = []"
| "encode_items (x # xs) = encode_json x # encode_items xs"
| "encode_members [] = []"
| "encode_members ((k, v) # kvs) = (k, encode_json v) # encode_members kvs"

definition canonical_bytes :: "ustring json \<Rightarrow> byte list result" where
  "canonical_bytes v =
     and_then (encode_json v) (\<lambda>text.
       case utf8_encode text of
         None \<Rightarrow> Inl (CanonicalizationError ''payload contains invalid Unicode'')
       | Some bs \<Rightarrow> Inr bs)"

text \<open>A document whose strings are plain text.\<close>

definition unicode_json :: "string json \<Rightarrow> ustring json" where
  "unicode_json v = map_json ascii v"

definition content_hash :: "ustring json \<Rightarrow> string result" where
  "content_hash v = and_then (canonical_bytes v) (\<lambda>bs. Inr (sha256_prefixed bs))"

definition run_config_sha256 :: "ustring json \<Rightarrow> string result" where
  "run_config_sha256 run_config = content_hash run_config"

section \<open>The hash chain\<close>

text \<open>A string member of a document, and a hash that arrives as document text.\<close>

definition utext :: "string \<Rightarrow> ustring json" where
  "utext s = JStr (ascii s)"

definition require_hash_text :: "ustring \<Rightarrow> string \<Rightarrow> string result" where
  "require_hash_text u what =
     (let s = map char_of u in
      if ascii s = u then require_hash s what else Inl (CanonicalizationError what))"

definition genesis_document :: "string \<Rightarrow> ustring \<Rightarrow> string \<Rightarrow> string \<Rightarrow> string \<Rightarrow> ustring json" where
  "genesis_document stream run_id pack_hash agent_hash config_hash = JObj
     [(ascii ''schema'', utext ''chain_genesis/v1''), (ascii ''stream'', utext stream),
      (ascii ''run_id'', JStr run_id), (ascii ''pack_content_hash'', utext pack_hash),
      (ascii ''agent_manifest_sha256'', utext agent_hash),
      (ascii ''run_config_sha256'', utext config_hash)]"

definition chain_genesis ::
    "string \<Rightarrow> ustring \<Rightarrow> ustring \<Rightarrow> string \<Rightarrow> string \<Rightarrow> string result" where
  "chain_genesis stream run_id pack_content_hash agent_manifest_sha256 config_sha256 =
     and_then (require_hash_text pack_content_hash ''pack_content_hash'') (\<lambda>p.
     and_then (require_hash agent_manifest_sha256 ''agent_manifest_sha256'') (\<lambda>a.
     and_then (require_hash config_sha256 ''run_config_sha256'') (\<lambda>r.
     content_hash (genesis_document stream run_id p a r))))"

definition link_document :: "string \<Rightarrow> nat \<Rightarrow> string \<Rightarrow> string \<Rightarrow> string json" where
  "link_document stream seq record_sha256 prev = JObj
     [(''schema'', JStr ''chain_link/v1''), (''stream'', JStr stream), (''seq'', JInt (int seq)),
      (''record_sha256'', JStr record_sha256), (''prev'', JStr prev)]"

definition chain_link_value :: "string \<Rightarrow> nat \<Rightarrow> string \<Rightarrow> string \<Rightarrow> string result" where
  "chain_link_value stream seq record_sha256 prev =
     and_then (require_hash record_sha256 ''record_sha256'') (\<lambda>r.
     and_then (require_hash prev ''prev'') (\<lambda>p.
     content_hash (unicode_json (link_document stream seq r p))))"

record ChainBuilder =
  cb_stream :: string
  cb_genesis :: string
  cb_head :: string
  cb_count :: nat

definition make_ChainBuilder :: "string \<Rightarrow> string \<Rightarrow> ChainBuilder result" where
  "make_ChainBuilder stream genesis =
     and_then (require_hash genesis ''genesis'') (\<lambda>g.
       Inr \<lparr>cb_stream = stream, cb_genesis = g, cb_head = g, cb_count = 0\<rparr>)"

definition link_entry :: "string \<Rightarrow> nat \<Rightarrow> string \<Rightarrow> string \<Rightarrow> ustring jobject" where
  "link_entry stream seq record_hash link =
     [(ascii ''schema'', utext ''chain_link/v1''), (ascii ''stream'', utext stream),
      (ascii ''seq'', JInt (int seq)), (ascii ''record_sha256'', utext record_hash),
      (ascii ''link_sha256'', utext link)]"

definition chain_append ::
    "ChainBuilder \<Rightarrow> byte list \<Rightarrow> (ChainBuilder \<times> ustring jobject) result" where
  "chain_append b record_bytes =
     (let record_hash = sha256_prefixed record_bytes in
      and_then (chain_link_value (cb_stream b) (cb_count b) record_hash (cb_head b)) (\<lambda>link.
      Inr (b\<lparr>cb_head := link, cb_count := cb_count b + 1\<rparr>,
           link_entry (cb_stream b) (cb_count b) record_hash link)))"

definition stream_head :: "ChainBuilder \<Rightarrow> ustring jobject" where
  "stream_head b = [(ascii ''genesis'', utext (cb_genesis b)), (ascii ''head'', utext (cb_head b)),
     (ascii ''count'', JInt (int (cb_count b)))]"

text \<open>\<open>link.get("seq") != seq\<close>: in Python \<open>True == 1\<close>.\<close>

definition equals_int :: "'s json \<Rightarrow> int \<Rightarrow> bool" where
  "equals_int v n = (case v of JInt m \<Rightarrow> m = n | JBool b \<Rightarrow> (if b then 1 else 0) = n | _ \<Rightarrow> False)"

definition check_link ::
    "string \<Rightarrow> nat \<Rightarrow> byte list \<Rightarrow> ustring jobject \<Rightarrow> string \<Rightarrow> string result" where
  "check_link stream seq record_bytes link prev =
     (if dict_get link (ascii ''schema'') \<noteq> utext ''chain_link/v1''
      then Inl (ChainVerificationError stream (int seq) ''bad link schema'')
      else if dict_get link (ascii ''stream'') \<noteq> utext stream
      then Inl (ChainVerificationError stream (int seq) ''link belongs to stream'')
      else if \<not> equals_int (dict_get link (ascii ''seq'')) (int seq)
      then Inl (ChainVerificationError stream (int seq) ''link seq is'')
      else let expected_record = sha256_prefixed record_bytes in
      if dict_get link (ascii ''record_sha256'') \<noteq> utext expected_record
      then Inl (ChainVerificationError stream (int seq) ''record hash mismatch'')
      else and_then (chain_link_value stream seq expected_record prev) (\<lambda>expected_link.
      if dict_get link (ascii ''link_sha256'') \<noteq> utext expected_link
      then Inl (ChainVerificationError stream (int seq) ''link value mismatch'')
      else Inr expected_link))"

fun check_links ::
    "string \<Rightarrow> nat \<Rightarrow> (byte list \<times> ustring jobject) list \<Rightarrow> string \<Rightarrow> string result" where
  "check_links stream seq [] prev = Inr prev"
| "check_links stream seq ((record_bytes, link) # rest) prev =
     and_then (check_link stream seq record_bytes link prev) (check_links stream (seq + 1) rest)"

text \<open>The part of \<open>verify_chain\<close> after the argument checks.\<close>

definition verify_links ::
    "string \<Rightarrow> string \<Rightarrow> byte list list \<Rightarrow> ustring jobject list \<Rightarrow> string option
      \<Rightarrow> string result" where
  "verify_links stream genesis records links expected_head =
     (if length links \<noteq> length records
      then Inl (ChainVerificationError stream (int (min (length links) (length records)))
             ''records but chain links'')
      else and_then (check_links stream 0 (zip records links) genesis) (\<lambda>prev.
      case expected_head of
        None \<Rightarrow> Inr prev
      | Some h \<Rightarrow>
          if prev \<noteq> h
          then Inl (ChainVerificationError stream (int (length records - 1))
                 ''recomputed head does not match sealed stream_head.head'')
          else Inr prev))"

definition verify_chain ::
    "string \<Rightarrow> string \<Rightarrow> byte list list \<Rightarrow> ustring jobject list \<Rightarrow> string option \<Rightarrow> int option
      \<Rightarrow> string result" where
  "verify_chain stream genesis records links expected_head expected_count =
     and_then (require_hash genesis ''genesis'') (\<lambda>_.
     and_then (case expected_head of None \<Rightarrow> Inr [] | Some h \<Rightarrow> require_hash h ''expected_head'') (\<lambda>_.
     case expected_count of
       Some c \<Rightarrow>
         if c \<noteq> int (length records)
         then Inl (ChainVerificationError stream (min c (int (length records)))
                ''rollback/truncation or forged seal'')
         else verify_links stream genesis records links expected_head
     | None \<Rightarrow> verify_links stream genesis records links expected_head))"

definition seal_root :: "ustring jobject \<Rightarrow> string result" where
  "seal_root seal = content_hash (JObj (filter (\<lambda>(k, v). k \<noteq> ascii ''root'') seal))"
section \<open>Encoding of plain text\<close>

definition plain_char :: "char \<Rightarrow> bool" where
  "plain_char c \<longleftrightarrow> (let n = (of_char c :: nat) in 0x20 \<le> n \<and> n < 0x80 \<and> n \<noteq> 34 \<and> n \<noteq> 92)"

lemma encode_string_plain:
  "list_all plain_char s \<Longrightarrow> encode_string (ascii s) = [34] @ ascii s @ [34]"
proof -
  assume a: "list_all plain_char s"
  have "concat (map escape_char (ascii s)) = ascii s"
    using a by (induction s) (auto simp: ascii_simps escape_char_def plain_char_def Let_def)
  then show ?thesis by (simp add: encode_string_def)
qed

lemma hash_is_plain: "well_formed_hash v \<Longrightarrow> list_all plain_char v"
proof -
  assume w: "well_formed_hash v"
  have "set v \<subseteq> set HASH_PREFIX \<union> set hex_digits"
  proof -
    have "set v = set (take (length HASH_PREFIX) v) \<union> set (drop (length HASH_PREFIX) v)"
      by (simp flip: set_append)
    with w show ?thesis by (auto simp: well_formed_hash_def)
  qed
  moreover have "list_all plain_char (HASH_PREFIX @ hex_digits)"
    by (simp add: HASH_PREFIX_def hex_digits_def plain_char_def Let_def)
  ultimately show ?thesis by (auto simp: list_all_iff)
qed

definition link_text :: "string \<Rightarrow> nat \<Rightarrow> string \<Rightarrow> string \<Rightarrow> ustring" where
  "link_text stream seq record_sha256 prev =
     ascii ''{\"prev\":\"'' @ ascii prev @ ascii ''\",\"record_sha256\":\"'' @ ascii record_sha256
     @ ascii ''\",\"schema\":\"chain_link/v1\",\"seq\":'' @ ascii (show_int (int seq))
     @ ascii '',\"stream\":'' @ encode_string (ascii stream) @ ascii ''}''"

lemma encode_link:
  assumes "well_formed_hash r" "well_formed_hash p" "int i \<le> MAX_SAFE_INT"
  shows "encode_json (unicode_json (link_document st i r p)) = Inr (link_text st i r p)"
proof -
  have "sort_members [(ascii ''schema'', a), (ascii ''stream'', b), (ascii ''seq'', c),
      (ascii ''record_sha256'', d), (ascii ''prev'', e)]
    = Inr [(ascii ''prev'', e), (ascii ''record_sha256'', d), (ascii ''schema'', a),
      (ascii ''seq'', c), (ascii ''stream'', b)]" for a b c d e :: "ustring result"
    by (simp add: sort_members_def sort_key_bytes_def utf16_be_encode_def scalar_value_def
        is_surrogate_def utf16_units_def ascii_simps)
  with assms show ?thesis
    by (simp add: link_document_def unicode_json_def encode_string_plain[OF hash_is_plain]
        link_text_def join_commas_def MAX_SAFE_INT_def)
       (simp add: encode_string_def escape_char_def ascii_simps)
qed

lemma scalar_value_ascii: "scalar_value (of_char c)"
proof -
  have "(of_char c :: nat) < 256"
    using mod_less_divisor[of 256 "of_char c :: nat"] by simp
  then show ?thesis unfolding scalar_value_def is_surrogate_def by linarith
qed

lemma scalar_ascii [simp]: "list_all scalar_value (ascii s)"
  by (induction s) (simp_all add: ascii_simps scalar_value_ascii)

lemma scalar_escape: "scalar_value c \<Longrightarrow> list_all scalar_value (escape_char c)"
  by (auto simp: escape_char_def scalar_value_def is_surrogate_def)

lemma scalar_encode_string:
  assumes "list_all scalar_value s"
  shows "list_all scalar_value (encode_string s)"
proof -
  have "list_all scalar_value (concat (map escape_char s))"
    using assms by (induction s) (simp_all add: scalar_escape)
  then show ?thesis by (simp add: encode_string_def scalar_value_def is_surrogate_def)
qed

lemma scalar_link_text: "list_all scalar_value (link_text st i r p)"
  unfolding link_text_def list_all_append by (simp add: scalar_encode_string)

lemma segments_inject:
  assumes "A @ p @ B @ r @ C @ i @ T = A @ p' @ B @ r' @ C @ i' @ T"
    and "length p = length p'" "length r = length r'"
  shows "p = p'" "r = r'" "i = i'"
  using assms by simp_all

lemma link_text_inject:
  assumes "link_text st i r p = link_text st i' r' p'"
    and "length p = length p'" "length r = length r'"
  shows "i = i'" "r = r'" "p = p'"
proof -
  have l: "length (ascii p) = length (ascii p')" "length (ascii r) = length (ascii r')"
    using assms(2,3) by simp_all
  note e = segments_inject[OF assms(1)[unfolded link_text_def] l]
  from e show "r = r'" "p = p'" by (simp_all only: ascii_inject)
  from e(3) show "i = i'" by (simp only: ascii_inject show_int_inject of_nat_eq_iff)
qed

definition link_bytes :: "string \<Rightarrow> nat \<Rightarrow> string \<Rightarrow> string \<Rightarrow> byte list" where
  "link_bytes st i r p = map of_nat (concat (map utf8_units (link_text st i r p)))"

lemma utf8_link: "utf8_encode (link_text st i r p) = Some (link_bytes st i r p)"
  by (simp add: utf8_encode_def scalar_link_text link_bytes_def)

lemma chain_link_value_eq:
  assumes "int i \<le> MAX_SAFE_INT"
  shows "chain_link_value st i r p =
    (if well_formed_hash r \<and> well_formed_hash p then Inr (sha256_prefixed (link_bytes st i r p))
     else Inl (CanonicalizationError (if well_formed_hash r then ''prev'' else ''record_sha256'')))"
  using encode_link[OF _ _ assms]
  by (auto simp: chain_link_value_def require_hash_def content_hash_def canonical_bytes_def utf8_link)

lemma link_bytes_inject:
  assumes "link_bytes st i r p = link_bytes st i' r' p'"
    "well_formed_hash r" "well_formed_hash p" "well_formed_hash r'" "well_formed_hash p'"
  shows "i = i'" "r = r'" "p = p'"
proof -
  have "link_text st i r p = link_text st i' r' p'"
    by (rule utf8_encode_inject[OF utf8_link]) (simp add: assms(1) utf8_link)
  moreover have "length p = length p'" "length r = length r'"
    using assms(2-5) by (simp_all add: well_formed_hash_def)
  ultimately show "i = i'" "r = r'" "p = p'" by (rule link_text_inject)+
qed

end
