(* ===== verification/Chain.thy ===== *)
theory Chain
  imports Canonical
begin

text \<open>
  Correctness of the hash chain of \<open>spec/canonical.py\<close>. The locale states what the chain
  needs from its hash and its link documents; it is interpreted on SHA-256 and the
  canonical link document. Its lemma says that two record sequences with the same head are
  equal or exhibit a collision among the inputs that were hashed.
\<close>

section \<open>Heads and hashed inputs\<close>

fun chain_head :: "('b \<Rightarrow> 'h) \<Rightarrow> (nat \<Rightarrow> 'h \<Rightarrow> 'h \<Rightarrow> 'b) \<Rightarrow> nat \<Rightarrow> 'b list \<Rightarrow> 'h \<Rightarrow> 'h" where
  "chain_head digest preimage i [] prev = prev"
| "chain_head digest preimage i (b # bs) prev =
     chain_head digest preimage (i + 1) bs (digest (preimage i (digest b) prev))"

fun hashed_inputs :: "('b \<Rightarrow> 'h) \<Rightarrow> (nat \<Rightarrow> 'h \<Rightarrow> 'h \<Rightarrow> 'b) \<Rightarrow> nat \<Rightarrow> 'b list \<Rightarrow> 'h \<Rightarrow> 'b list" where
  "hashed_inputs digest preimage i [] prev = []"
| "hashed_inputs digest preimage i (b # bs) prev =
     b # preimage i (digest b) prev
       # hashed_inputs digest preimage (i + 1) bs (digest (preimage i (digest b) prev))"

definition collision_among :: "('b \<Rightarrow> 'h) \<Rightarrow> 'b list \<Rightarrow> 'b list \<Rightarrow> bool" where
  "collision_among digest xs ys \<longleftrightarrow> (\<exists>x \<in> set xs. \<exists>y \<in> set ys. x \<noteq> y \<and> digest x = digest y)"

locale hash_chain =
  fixes digest :: "'b \<Rightarrow> 'h"
    and preimage :: "nat \<Rightarrow> 'h \<Rightarrow> 'h \<Rightarrow> 'b"
    and valid :: "'h \<Rightarrow> bool"
  assumes digest_valid: "valid (digest b)"
    and preimage_inject: "preimage i r p = preimage i' r' p' \<Longrightarrow>
      valid r \<Longrightarrow> valid p \<Longrightarrow> valid r' \<Longrightarrow> valid p' \<Longrightarrow> i = i' \<and> r = r' \<and> p = p'"
begin

lemma head_binds:
  assumes "length bs = length bs'" "valid p" "valid p'"
    and "chain_head digest preimage i bs p = chain_head digest preimage i bs' p'"
  shows "bs = bs' \<and> p = p' \<or>
    collision_among digest (hashed_inputs digest preimage i bs p) (hashed_inputs digest preimage i bs' p')"
  using assms
proof (induction bs bs' arbitrary: i p p' rule: list_induct2)
  case Nil
  then show ?case by simp
next
  case (Cons b bs b' bs')
  let ?x = "preimage i (digest b) p" and ?x' = "preimage i (digest b') p'"
  from Cons.prems have "chain_head digest preimage (i + 1) bs (digest ?x)
      = chain_head digest preimage (i + 1) bs' (digest ?x')" by simp
  from Cons.IH[OF digest_valid digest_valid this]
  consider (same) "bs = bs'" "digest ?x = digest ?x'"
    | (coll) "collision_among digest (hashed_inputs digest preimage (i + 1) bs (digest ?x))
        (hashed_inputs digest preimage (i + 1) bs' (digest ?x'))" by blast
  then show ?case
  proof cases
    case same
    show ?thesis
    proof (cases "?x = ?x'")
      case True
      from preimage_inject[OF True digest_valid Cons.prems(1) digest_valid Cons.prems(2)]
      have "digest b = digest b'" "p = p'" by auto
      with same(1) show ?thesis by (auto simp: collision_among_def)
    next
      case False
      with same(2) show ?thesis by (auto simp: collision_among_def)
    qed
  next
    case coll
    then show ?thesis by (auto simp: collision_among_def)
  qed
qed

lemma head_valid: "valid p \<Longrightarrow> valid (chain_head digest preimage i bs p)"
  by (induction bs arbitrary: i p) (auto simp: digest_valid)

end

interpretation sha_chain: hash_chain sha256_prefixed "link_bytes stream" well_formed_hash
  by unfold_locales (simp, blast dest: link_bytes_inject)

section \<open>The verifier and the builder compute the head\<close>

lemma check_link_head:
  assumes "check_link st i rec link prev = Inr h" "int i \<le> MAX_SAFE_INT"
  shows "h = sha256_prefixed (link_bytes st i (sha256_prefixed rec) prev)"
  using assms
  by (auto simp: check_link_def Let_def and_then_eq_Inr chain_link_value_eq split: if_splits)

lemma check_links_head:
  assumes "check_links st i (zip records links) prev = Inr h" "length links = length records"
    and "int (i + length records) \<le> MAX_SAFE_INT"
  shows "h = chain_head sha256_prefixed (link_bytes st) i records prev"
  using assms(2,1,3)
proof (induction links records arbitrary: i prev rule: list_induct2)
  case Nil
  then show ?case by simp
next
  case (Cons l ls r rs)
  from Cons.prems(1) obtain q where q: "check_link st i r l prev = Inr q"
    "check_links st (i + 1) (zip rs ls) q = Inr h" by (auto simp: and_then_eq_Inr)
  from check_link_head[OF q(1)] Cons.prems(2)
  have e: "q = sha256_prefixed (link_bytes st i (sha256_prefixed r) prev)" by simp
  from Cons.IH[OF q(2)] Cons.prems(2) show ?case by (simp add: e)
qed

fun chain_append_all ::
    "ChainBuilder \<Rightarrow> byte list list \<Rightarrow> (ChainBuilder \<times> ustring jobject list) result" where
  "chain_append_all b [] = Inr (b, [])"
| "chain_append_all b (r # rs) =
     and_then (chain_append b r) (\<lambda>(b, entry).
     and_then (chain_append_all b rs) (\<lambda>(b, entries). Inr (b, entry # entries)))"

lemma chain_append_all_verifies:
  assumes "well_formed_hash (cb_head b)" "int (cb_count b + length rs) \<le> MAX_SAFE_INT"
  shows "\<exists>b' entries. chain_append_all b rs = Inr (b', entries) \<and> length entries = length rs \<and>
    cb_head b' = chain_head sha256_prefixed (link_bytes (cb_stream b)) (cb_count b) rs (cb_head b) \<and>
    cb_count b' = cb_count b + length rs \<and> cb_genesis b' = cb_genesis b \<and>
    cb_stream b' = cb_stream b \<and>
    check_links (cb_stream b) (cb_count b) (zip rs entries) (cb_head b) = Inr (cb_head b')"
  using assms
proof (induction rs arbitrary: b)
  case Nil
  then show ?case by simp
next
  case (Cons r rs)
  let ?h = "sha256_prefixed (link_bytes (cb_stream b) (cb_count b) (sha256_prefixed r) (cb_head b))"
  let ?b = "b\<lparr>cb_head := ?h, cb_count := cb_count b + 1\<rparr>"
  let ?e = "link_entry (cb_stream b) (cb_count b) (sha256_prefixed r) ?h"
  have v: "chain_link_value (cb_stream b) (cb_count b) (sha256_prefixed r) (cb_head b) = Inr ?h"
    using Cons.prems by (simp add: chain_link_value_eq)
  have a: "chain_append b r = Inr (?b, ?e)" by (simp add: chain_append_def Let_def v)
  have c: "check_link (cb_stream b) (cb_count b) r ?e (cb_head b) = Inr ?h"
    by (simp add: check_link_def link_entry_def v equals_int_def ascii_simps)
  have "well_formed_hash (cb_head ?b)" "int (cb_count ?b + length rs) \<le> MAX_SAFE_INT"
    using Cons.prems by simp_all
  from Cons.IH[OF this] obtain b' es where
    "chain_append_all ?b rs = Inr (b', es)" "length es = length rs"
    "cb_head b' = chain_head sha256_prefixed (link_bytes (cb_stream b)) (cb_count b + 1) rs ?h"
    "cb_count b' = cb_count b + 1 + length rs" "cb_genesis b' = cb_genesis b"
    "cb_stream b' = cb_stream b"
    "check_links (cb_stream b) (cb_count b + 1) (zip rs es) ?h = Inr (cb_head b')" by auto
  with a c show ?case by auto
qed

lemma builder_head_verified:
  assumes "well_formed_hash genesis" "int (length records) \<le> MAX_SAFE_INT"
  obtains b0 b links where "make_ChainBuilder stream genesis = Inr b0"
    "chain_append_all b0 records = Inr (b, links)" "cb_count b = length records"
    "verify_chain stream genesis records links (Some (cb_head b)) (Some (int (length records)))
      = Inr (cb_head b)"
proof -
  let ?b0 = "\<lparr>cb_stream = stream, cb_genesis = genesis, cb_head = genesis, cb_count = 0\<rparr>"
  have m: "make_ChainBuilder stream genesis = Inr ?b0"
    using assms(1) by (simp add: make_ChainBuilder_def require_hash_def)
  from chain_append_all_verifies[of ?b0 records] assms obtain b links where
    b: "chain_append_all ?b0 records = Inr (b, links)" "length links = length records"
    "cb_head b = chain_head sha256_prefixed (link_bytes stream) 0 records genesis"
    "cb_count b = length records"
    "check_links stream 0 (zip records links) genesis = Inr (cb_head b)" by auto
  have "well_formed_hash (cb_head b)"
    unfolding b(3) by (rule sha_chain.head_valid) (rule assms(1))
  with assms b have "verify_chain stream genesis records links (Some (cb_head b))
      (Some (int (length records))) = Inr (cb_head b)"
    by (simp add: verify_chain_def verify_links_def require_hash_def)
  with m b that show thesis by blast
qed

text \<open>What acceptance under a sealed head and count says about the records.\<close>

lemma verify_chain_sealed:
  assumes "verify_chain stream g records links (Some h) (Some n) = Inr y" "n \<le> MAX_SAFE_INT"
  shows "well_formed_hash g" "n = int (length records)"
    "h = chain_head sha256_prefixed (link_bytes stream) 0 records g"
proof -
  from assms(1) have w: "well_formed_hash g" "n = int (length records)" "length links = length records"
    and c: "check_links stream 0 (zip records links) g = Inr h"
    by (auto simp: verify_chain_def verify_links_def and_then_eq_Inr require_hash_eq_Inr
        split: if_splits)
  from check_links_head[OF c w(3)] w assms(2)
  show "well_formed_hash g" "n = int (length records)"
    "h = chain_head sha256_prefixed (link_bytes stream) 0 records g" by simp_all
qed

lemma sealed_chains_agree:
  assumes "verify_chain stream g records links (Some h) (Some n) = Inr y" "n \<le> MAX_SAFE_INT"
    and "verify_chain stream g' records' links' (Some h) (Some n) = Inr y'"
  shows "records = records' \<and> g = g' \<or>
    collision_among sha256_prefixed
      (hashed_inputs sha256_prefixed (link_bytes stream) 0 records g)
      (hashed_inputs sha256_prefixed (link_bytes stream) 0 records' g')"
  using verify_chain_sealed[OF assms(1,2)] verify_chain_sealed[OF assms(3,2)]
  by (intro sha_chain.head_binds) auto

section \<open>Properties\<close>

text \<open>
  Property C19. The chain a builder produces is accepted by the verifier bound to the
  builder's own stream head, for every sequence of records that fits the safe integer range.
\<close>

theorem verify_chain_accepts_builder:
  assumes "well_formed_hash genesis" "int (length records) \<le> MAX_SAFE_INT"
  shows "\<exists>b0 b links. make_ChainBuilder stream genesis = Inr b0 \<and>
    chain_append_all b0 records = Inr (b, links) \<and> cb_count b = length records \<and>
    verify_chain stream genesis records links (Some (cb_head b)) (Some (int (cb_count b)))
      = Inr (cb_head b)"
  using assms by (rule builder_head_verified[where stream = stream]) auto

theorem verify_chain_accepts_builder_witness:
  "\<exists>b0 b links. make_ChainBuilder ''events'' (sha256_prefixed [1]) = Inr b0 \<and>
    chain_append_all b0 [[], [2, 3]] = Inr (b, links) \<and> cb_count b = 2 \<and>
    verify_chain ''events'' (sha256_prefixed [1]) [[], [2, 3]] links (Some (cb_head b))
      (Some (int (cb_count b))) = Inr (cb_head b)"
  using verify_chain_accepts_builder[of "sha256_prefixed [1]" "[[], [2, 3]]" "''events''"]
  by (simp add: MAX_SAFE_INT_def numeral_2_eq_2 del: chain_append_all.simps)

text \<open>
  Property C20. Sealing binds the records: if the verifier accepts two record sequences under
  the same sealed head and count (whatever genesis and links are presented with them), they
  are the same records under the same genesis, or two different byte strings among those that
  were hashed have the same SHA-256.
\<close>

theorem sealed_head_binds_records:
  assumes "verify_chain stream g records links (Some h) (Some n) = Inr h1"
    and "verify_chain stream g' records' links' (Some h) (Some n) = Inr h2"
    and "n \<le> MAX_SAFE_INT"
  shows "records = records' \<and> g = g' \<or>
    collision_among sha256_prefixed
      (hashed_inputs sha256_prefixed (link_bytes stream) 0 records g)
      (hashed_inputs sha256_prefixed (link_bytes stream) 0 records' g')"
  by (rule sealed_chains_agree[OF assms(1,3,2)])

theorem sealed_head_binds_records_witness:
  "\<exists>links h. verify_chain ''events'' (sha256_prefixed [1]) [[2]] links (Some h) (Some 1) = Inr h \<and>
    ([[2]] = [[2 :: byte]] \<and> sha256_prefixed [1] = sha256_prefixed [1] \<or>
     collision_among sha256_prefixed
      (hashed_inputs sha256_prefixed (link_bytes ''events'') 0 [[2]] (sha256_prefixed [1]))
      (hashed_inputs sha256_prefixed (link_bytes ''events'') 0 [[2]] (sha256_prefixed [1])))"
proof -
  have "well_formed_hash (sha256_prefixed [1])" "int (length [[2 :: byte]]) \<le> MAX_SAFE_INT"
    by (simp_all add: MAX_SAFE_INT_def)
  then obtain b :: ChainBuilder and links where "verify_chain ''events'' (sha256_prefixed [1]) [[2]] links
      (Some (cb_head b)) (Some (int (length [[2 :: byte]]))) = Inr (cb_head b)"
    by (rule builder_head_verified[where stream = "''events''"])
  then have v: "verify_chain ''events'' (sha256_prefixed [1]) [[2]] links
      (Some (cb_head b)) (Some 1) = Inr (cb_head b)" by simp
  from sealed_head_binds_records[OF v v] v show ?thesis
    by (auto simp: MAX_SAFE_INT_def)
qed

end
