(* ===== verification/Json_Decode.thy ===== *)
theory Json_Decode
  imports Json Unicode Decimal
begin

text \<open>
  The reader the program uses on untrusted bytes: \<open>json.loads\<close> of the Python standard
  library with its hooks for fractional numbers, non-finite constants and object pairs, the
  strict string scanner, the limit on the digits of an integer, and the interpreter's
  recursion limit, which is a parameter.
\<close>

section \<open>Hooks\<close>

record json_hooks =
  jh_float :: "ustring \<Rightarrow> ustring json result"
  jh_constant :: "ustring \<Rightarrow> ustring json result"
  jh_pairs :: "(ustring \<times> ustring json) list \<Rightarrow> ustring json result"

definition INT_MAX_STR_DIGITS :: nat where "INT_MAX_STR_DIGITS = 4300"

section \<open>Scanning strings\<close>

definition hex_digit_value :: "codepoint \<Rightarrow> nat option" where
  "hex_digit_value c =
     (if 48 \<le> c \<and> c \<le> 57 then Some (c - 48)
      else if 97 \<le> c \<and> c \<le> 102 then Some (c - 87)
      else if 65 \<le> c \<and> c \<le> 70 then Some (c - 55) else None)"

definition hex4_value :: "codepoint \<Rightarrow> codepoint \<Rightarrow> codepoint \<Rightarrow> codepoint \<Rightarrow> nat option" where
  "hex4_value a b c d =
     (case (hex_digit_value a, hex_digit_value b, hex_digit_value c, hex_digit_value d) of
        (Some w, Some x, Some y, Some z) \<Rightarrow> Some (w * 4096 + x * 256 + y * 16 + z)
      | _ \<Rightarrow> None)"

definition simple_escape :: "codepoint \<Rightarrow> codepoint option" where
  "simple_escape e =
     (if e = 34 then Some 34 else if e = 92 then Some 92 else if e = 47 then Some 47
      else if e = 98 then Some 8 else if e = 102 then Some 12 else if e = 110 then Some 10
      else if e = 114 then Some 13 else if e = 116 then Some 9 else None)"

definition is_high_surrogate :: "codepoint \<Rightarrow> bool" where
  "is_high_surrogate v \<longleftrightarrow> 0xD800 \<le> v \<and> v \<le> 0xDBFF"

definition is_low_surrogate :: "codepoint \<Rightarrow> bool" where
  "is_low_surrogate v \<longleftrightarrow> 0xDC00 \<le> v \<and> v \<le> 0xDFFF"

definition cons_char :: "codepoint \<Rightarrow> (ustring \<times> ustring) result \<Rightarrow> (ustring \<times> ustring) result" where
  "cons_char c r = and_then r (\<lambda>(s, rest). Inr (c # s, rest))"

text \<open>One \<open>\\uXXXX\<close>: its value and the text after it.\<close>

fun scan_hex4 :: "ustring \<Rightarrow> (nat \<times> ustring) option" where
  "scan_hex4 (a # b # c # d # rest) = map_option (\<lambda>v. (v, rest)) (hex4_value a b c d)"
| "scan_hex4 _ = None"

definition scan_low_surrogate :: "ustring \<Rightarrow> (nat \<times> ustring) option" where
  "scan_low_surrogate s =
     (if take 2 s = [92, 117]
      then (case scan_hex4 (drop 2 s) of
              Some (w, rest) \<Rightarrow> if is_low_surrogate w then Some (w, rest) else None
            | None \<Rightarrow> None)
      else None)"

text \<open>The escape after a backslash: the character it denotes and the text after it.\<close>

definition scan_escape :: "ustring \<Rightarrow> (codepoint \<times> ustring) result" where
  "scan_escape s =
     (case s of
        [] \<Rightarrow> Inl JSONDecodeError
      | e # ds \<Rightarrow>
          if e \<noteq> 117
          then (case simple_escape e of None \<Rightarrow> Inl JSONDecodeError | Some x \<Rightarrow> Inr (x, ds))
          else case scan_hex4 ds of
                 None \<Rightarrow> Inl JSONDecodeError
               | Some (v, rest) \<Rightarrow>
                   if is_high_surrogate v
                   then (case scan_low_surrogate rest of
                           Some (w, rest2) \<Rightarrow>
                             Inr (0x10000 + (v - 0xD800) * 0x400 + (w - 0xDC00), rest2)
                         | None \<Rightarrow> Inr (v, rest))
                   else Inr (v, rest))"

lemma scan_hex4_shorter: "scan_hex4 s = Some (v, r) \<Longrightarrow> length r < length s"
  by (induction s rule: scan_hex4.induct) auto

lemma scan_escape_shorter: "scan_escape s = Inr (c, r) \<Longrightarrow> length r < length s"
  by (fastforce simp: scan_escape_def scan_low_surrogate_def dest: scan_hex4_shorter
      split: list.splits if_splits option.splits prod.splits)

text \<open>The characters after the opening quote, up to and including the closing one.\<close>

function scan_string :: "ustring \<Rightarrow> (ustring \<times> ustring) result" where
  "scan_string [] = Inl JSONDecodeError"
| "scan_string (c # cs) =
     (if c = 34 then Inr ([], cs)
      else if c < 0x20 then Inl JSONDecodeError
      else if c \<noteq> 92 then cons_char c (scan_string cs)
      else and_then (scan_escape cs) (\<lambda>(x, rest). cons_char x (scan_string rest)))"
  by pat_completeness auto
termination by (relation "measure length") (auto dest: scan_escape_shorter)

section \<open>Scanning numbers\<close>

definition is_digit_cp :: "codepoint \<Rightarrow> bool" where
  "is_digit_cp c \<longleftrightarrow> 48 \<le> c \<and> c \<le> 57"

definition cp_digits_value :: "ustring \<Rightarrow> nat" where
  "cp_digits_value s = foldl (\<lambda>n c. 10 * n + (c - 48)) 0 s"

definition split_digits :: "ustring \<Rightarrow> ustring \<times> ustring" where
  "split_digits s = (takeWhile is_digit_cp s, dropWhile is_digit_cp s)"

text \<open>The integer part: no leading zero, at least one digit.\<close>

definition scan_int_part :: "ustring \<Rightarrow> (ustring \<times> ustring) option" where
  "scan_int_part s =
     (case s of
        [] \<Rightarrow> None
      | c # cs \<Rightarrow> if c = 48 then Some ([c], cs)
                  else if is_digit_cp c then Some (split_digits s) else None)"

definition scan_fraction :: "ustring \<Rightarrow> ustring \<times> ustring" where
  "scan_fraction s =
     (case s of
        p # d # rest \<Rightarrow> if p = 46 \<and> is_digit_cp d
                        then (case split_digits (d # rest) of (ds, r) \<Rightarrow> (46 # ds, r))
                        else ([], s)
      | _ \<Rightarrow> ([], s))"

definition scan_exponent :: "ustring \<Rightarrow> ustring \<times> ustring" where
  "scan_exponent s =
     (case s of
        e # rest \<Rightarrow>
          if e = 101 \<or> e = 69
          then (let (sg, body) = (case rest of
                       x # r \<Rightarrow> if x = 43 \<or> x = 45 then ([x], r) else ([], rest)
                     | [] \<Rightarrow> ([], rest));
                    (ds, r) = split_digits body
                in if ds = [] then ([], s) else (e # sg @ ds, r))
          else ([], s)
      | [] \<Rightarrow> ([], s))"

definition scan_number :: "json_hooks \<Rightarrow> ustring \<Rightarrow> (ustring json \<times> ustring) result" where
  "scan_number h s =
     (let (sg, body) = (case s of x # r \<Rightarrow> if x = 45 then ([x], r) else ([], s) | [] \<Rightarrow> ([], s))
      in case scan_int_part body of
           None \<Rightarrow> Inl JSONDecodeError
         | Some (ds, r) \<Rightarrow>
             let (fr, r1) = scan_fraction r; (ex, r2) = scan_exponent r1
             in if fr \<noteq> [] \<or> ex \<noteq> []
                then and_then (jh_float h (sg @ ds @ fr @ ex)) (\<lambda>v. Inr (v, r2))
                else if length ds > INT_MAX_STR_DIGITS
                then Inl (ValueError ''Exceeds the limit for integer string conversion'')
                else Inr (JInt (if sg = [] then int (cp_digits_value ds)
                                else - int (cp_digits_value ds)), r2))"

section \<open>Scanning values\<close>

definition is_ws :: "codepoint \<Rightarrow> bool" where
  "is_ws c \<longleftrightarrow> c = 32 \<or> c = 9 \<or> c = 10 \<or> c = 13"

definition skip_ws :: "ustring \<Rightarrow> ustring" where
  "skip_ws s = dropWhile is_ws s"

definition strip_prefix :: "string \<Rightarrow> ustring \<Rightarrow> ustring option" where
  "strip_prefix p s =
     (if take (length p) s = ascii p then Some (drop (length p) s) else None)"

definition scan_constant ::
    "json_hooks \<Rightarrow> ustring \<Rightarrow> (ustring json \<times> ustring) result option" where
  "scan_constant h s =
     (case strip_prefix ''null'' s of Some r \<Rightarrow> Some (Inr (JNull, r)) | None \<Rightarrow>
      case strip_prefix ''true'' s of Some r \<Rightarrow> Some (Inr (JBool True, r)) | None \<Rightarrow>
      case strip_prefix ''false'' s of Some r \<Rightarrow> Some (Inr (JBool False, r)) | None \<Rightarrow>
      case strip_prefix ''NaN'' s of
        Some r \<Rightarrow> Some (and_then (jh_constant h (ascii ''NaN'')) (\<lambda>v. Inr (v, r))) | None \<Rightarrow>
      case strip_prefix ''Infinity'' s of
        Some r \<Rightarrow> Some (and_then (jh_constant h (ascii ''Infinity'')) (\<lambda>v. Inr (v, r))) | None \<Rightarrow>
      case strip_prefix ''-Infinity'' s of
        Some r \<Rightarrow> Some (and_then (jh_constant h (ascii ''-Infinity'')) (\<lambda>v. Inr (v, r)))
      | None \<Rightarrow> None)"

text \<open>
  The loop over the members of an object, positioned at the quote of a key, and the loop over
  the elements of an array. \<open>value\<close> scans one member or element; the pairs are collected
  newest first. Each round consumes text, so the length of the text bounds the rounds.
\<close>

type_synonym scanner = "ustring \<Rightarrow> (ustring json \<times> ustring) result"

primrec scan_members ::
    "json_hooks \<Rightarrow> scanner \<Rightarrow> nat \<Rightarrow> (ustring \<times> ustring json) list \<Rightarrow> scanner" where
  "scan_members h value 0 acc s = Inl FuelExhausted"
| "scan_members h value (Suc rounds) acc s =
     (case s of
        [] \<Rightarrow> Inl JSONDecodeError
      | q # cs \<Rightarrow>
          if q \<noteq> 34 then Inl JSONDecodeError
          else and_then (scan_string cs) (\<lambda>(key, r).
            case skip_ws r of
              [] \<Rightarrow> Inl JSONDecodeError
            | colon # r1 \<Rightarrow>
                if colon \<noteq> 58 then Inl JSONDecodeError
                else and_then (value (skip_ws r1)) (\<lambda>(v, r2).
                  case skip_ws r2 of
                    [] \<Rightarrow> Inl JSONDecodeError
                  | d # ds \<Rightarrow>
                      if d = 125
                      then and_then (jh_pairs h (rev ((key, v) # acc))) (\<lambda>obj. Inr (obj, ds))
                      else if d \<noteq> 44 then Inl JSONDecodeError
                      else scan_members h value rounds ((key, v) # acc) (skip_ws ds))))"

primrec scan_elements :: "scanner \<Rightarrow> nat \<Rightarrow> ustring json list \<Rightarrow> scanner" where
  "scan_elements value 0 acc s = Inl FuelExhausted"
| "scan_elements value (Suc rounds) acc s =
     and_then (value s) (\<lambda>(v, r).
       case skip_ws r of
         [] \<Rightarrow> Inl JSONDecodeError
       | d # ds \<Rightarrow>
           if d = 93 then Inr (JArr (rev (v # acc)), ds)
           else if d \<noteq> 44 then Inl JSONDecodeError
           else scan_elements value rounds (v # acc) (skip_ws ds))"

definition scan_object :: "json_hooks \<Rightarrow> scanner \<Rightarrow> scanner" where
  "scan_object h value cs =
     (case skip_ws cs of
        [] \<Rightarrow> Inl JSONDecodeError
      | d # ds \<Rightarrow>
          if d = 125 then and_then (jh_pairs h []) (\<lambda>v. Inr (v, ds))
          else scan_members h value (length cs) [] (d # ds))"

definition scan_array :: "scanner \<Rightarrow> scanner" where
  "scan_array value cs =
     (case skip_ws cs of
        [] \<Rightarrow> Inl JSONDecodeError
      | d # ds \<Rightarrow>
          if d = 93 then Inr (JArr [], ds) else scan_elements value (length cs) [] (d # ds))"

text \<open>\<open>scan_once\<close> with the scanners of the two containers.\<close>

definition scan_once :: "json_hooks \<Rightarrow> scanner \<Rightarrow> scanner \<Rightarrow> scanner" where
  "scan_once h object_scanner array_scanner s =
     (case s of
        [] \<Rightarrow> Inl JSONDecodeError
      | c # cs \<Rightarrow>
          if c = 34 then and_then (scan_string cs) (\<lambda>(t, r). Inr (JStr t, r))
          else if c = 123 then object_scanner cs
          else if c = 91 then array_scanner cs
          else case scan_constant h s of Some r \<Rightarrow> r | None \<Rightarrow> scan_number h s)"

text \<open>\<open>depth\<close> is the number of nested containers the interpreter still allows.\<close>

primrec scan_value :: "nat \<Rightarrow> json_hooks \<Rightarrow> scanner" where
  "scan_value 0 h s = scan_once h (\<lambda>_. Inl RecursionError) (\<lambda>_. Inl RecursionError) s"
| "scan_value (Suc depth) h s =
     scan_once h (scan_object h (scan_value depth h)) (scan_array (scan_value depth h)) s"

text \<open>\<open>json.loads(text, ...)\<close>.\<close>

definition json_loads :: "json_hooks \<Rightarrow> nat \<Rightarrow> ustring \<Rightarrow> ustring json result" where
  "json_loads h depth text =
     (if take 1 text = [0xFEFF] then Inl JSONDecodeError
      else and_then (scan_value depth h (skip_ws text)) (\<lambda>(v, r).
        if skip_ws r = [] then Inr v else Inl JSONDecodeError))"

section \<open>The fuel is enough\<close>

lemma length_skip_ws: "length (skip_ws s) \<le> length s"
  by (simp add: skip_ws_def length_dropWhile_le)

lemma skip_ws_ConsD: "skip_ws s = c # cs \<Longrightarrow> length cs < length s"
  using length_skip_ws[of s] by simp

lemma cons_char_eq_Inr:
  "cons_char c r = Inr (t, rest) \<longleftrightarrow> (\<exists>u. r = Inr (u, rest) \<and> t = c # u)"
  by (auto simp: cons_char_def and_then_eq_Inr)

lemma cons_char_eq_Inl [simp]: "cons_char c r = Inl e \<longleftrightarrow> r = Inl e"
  by (auto simp: cons_char_def and_then_eq_Inl)
lemma case_list_eq_Inr:
  "(case xs of [] \<Rightarrow> Inl e | d # ds \<Rightarrow> F d ds) = Inr y \<longleftrightarrow> (\<exists>d ds. xs = d # ds \<and> F d ds = Inr y)"
  by (cases xs) auto

lemma case_list_eq_Inl:
  "(case xs of [] \<Rightarrow> Inl e | d # ds \<Rightarrow> F d ds) = Inl y \<longleftrightarrow>
     (xs = [] \<and> e = y) \<or> (\<exists>d ds. xs = d # ds \<and> F d ds = Inl y)"
  by (cases xs) auto

lemma if_eq_iff: "(if P then a else b) = y \<longleftrightarrow> (P \<and> a = y) \<or> (\<not> P \<and> b = y)"
  by simp

lemmas scan_cases = and_then_eq_Inr and_then_eq_Inl case_list_eq_Inr case_list_eq_Inl if_eq_iff
  prod.case_eq_if

definition shrinks :: "scanner \<Rightarrow> bool" where
  "shrinks f \<longleftrightarrow> (\<forall>s v r. f s = Inr (v, r) \<longrightarrow> length r < length s)"

text \<open>The exceptions \<open>json.loads\<close> may raise (a hook raises a \<open>ValueError\<close>).\<close>

definition decode_error :: "error \<Rightarrow> bool" where
  "decode_error e \<longleftrightarrow> e = JSONDecodeError \<or> e = RecursionError \<or> (\<exists>m. e = ValueError m)"

lemma decode_error_simps [simp]:
  "decode_error JSONDecodeError" "decode_error RecursionError" "decode_error (ValueError m)"
  by (simp_all add: decode_error_def)

definition regular :: "scanner \<Rightarrow> bool" where
  "regular f \<longleftrightarrow> (\<forall>s e. f s = Inl e \<longrightarrow> decode_error e)"

definition hooks_safe :: "json_hooks \<Rightarrow> bool" where
  "hooks_safe h \<longleftrightarrow> (\<forall>t e. jh_float h t = Inl e \<longrightarrow> decode_error e) \<and>
     (\<forall>t e. jh_constant h t = Inl e \<longrightarrow> decode_error e) \<and>
     (\<forall>ps e. jh_pairs h ps = Inl e \<longrightarrow> decode_error e)"

lemma scan_string_spec:
  "(scan_string s = Inr (t, r) \<longrightarrow> length r < length s) \<and>
     (scan_string s = Inl e \<longrightarrow> decode_error e)"
proof (induction s arbitrary: t r rule: scan_string.induct)
  case 1
  then show ?case by simp
next
  case (2 c cs)
  have e: "scan_escape cs = Inl e' \<longrightarrow> e' = JSONDecodeError" for e'
    by (auto simp: scan_escape_def split: list.splits if_splits option.splits)
  from 2 e show ?case
    by (fastforce simp: cons_char_eq_Inr and_then_eq_Inr and_then_eq_Inl
        dest: scan_escape_shorter split: if_splits)
qed

lemma scan_int_part_shorter: "scan_int_part s = Some (ds, r) \<Longrightarrow> length r < length s"
  by (auto simp: scan_int_part_def split_digits_def less_Suc_eq_le length_dropWhile_le
      split: list.splits if_splits)

lemma scan_fraction_length: "scan_fraction s = (f, r) \<Longrightarrow> length r \<le> length s"
  by (auto simp: scan_fraction_def split_digits_def le_SucI length_dropWhile_le
      split: list.splits if_splits)

lemma scan_exponent_length: "scan_exponent s = (f, r) \<Longrightarrow> length r \<le> length s"
  by (auto simp: scan_exponent_def split_digits_def Let_def le_SucI length_dropWhile_le
      split: list.splits if_splits prod.splits)

lemma scan_number_spec:
  "(scan_number h s = Inr (v, r) \<longrightarrow> length r < length s) \<and>
     (hooks_safe h \<longrightarrow> scan_number h s = Inl e \<longrightarrow> decode_error e)"
proof -
  obtain sg body where b: "(case s of x # r \<Rightarrow> if x = 45 then ([x], r) else ([], s) | [] \<Rightarrow> ([], s))
      = (sg, body)" by (meson surj_pair)
  have le: "length body \<le> length s" using b by (auto split: list.splits if_splits)
  show ?thesis
  proof (cases "scan_int_part body")
    case None
    with b show ?thesis by (auto simp: scan_number_def)
  next
    case (Some p)
    obtain ds r0 fr r1 ex r2 where p: "p = (ds, r0)" "scan_fraction r0 = (fr, r1)"
      "scan_exponent r1 = (ex, r2)" by (meson surj_pair)
    have "length r2 < length s"
      using scan_int_part_shorter[of body ds r0] scan_fraction_length[OF p(2)]
        scan_exponent_length[OF p(3)] le Some p(1) by simp
    with b Some p show ?thesis
      by (auto simp: scan_number_def and_then_eq_Inr and_then_eq_Inl hooks_safe_def)
  qed
qed

lemma strip_prefix_shorter:
  "strip_prefix p s = Some r \<Longrightarrow> p \<noteq> [] \<Longrightarrow> length r < length s"
proof -
  assume s: "strip_prefix p s = Some r" and p: "p \<noteq> []"
  then have t: "take (length p) s = ascii p" and r: "r = drop (length p) s"
    by (auto simp: strip_prefix_def split: if_splits)
  from t have "length (take (length p) s) = length p" by simp
  then have "length p \<le> length s" by simp
  moreover have "0 < length p" using p by simp
  ultimately show ?thesis unfolding r length_drop by linarith
qed

lemma scan_constant_spec:
  assumes "scan_constant h s = Some x" "hooks_safe h"
  shows "(x = Inr (v, r) \<longrightarrow> length r < length s) \<and> (x = Inl e \<longrightarrow> decode_error e)"
  using assms
  by (auto simp: scan_constant_def hooks_safe_def and_then_eq_Inr and_then_eq_Inl
      dest: strip_prefix_shorter split: option.splits)

lemma scan_once_spec:
  assumes "shrinks ob" "shrinks ar" "hooks_safe h"
  shows "shrinks (scan_once h ob ar)"
    and "regular ob \<Longrightarrow> regular ar \<Longrightarrow> regular (scan_once h ob ar)"
  using assms scan_string_spec scan_number_spec scan_constant_spec[OF _ assms(3)]
  unfolding shrinks_def regular_def scan_once_def
  by (fastforce simp: and_then_eq_Inr and_then_eq_Inl less_SucI
      split: list.splits if_splits option.splits)+

lemma skip_ws_le: "skip_ws s = t \<Longrightarrow> length t \<le> length s"
  using length_skip_ws[of s] by simp

lemma scan_members_shrinks:
  assumes "shrinks f"
  shows "scan_members h f n acc s = Inr (v, r) \<Longrightarrow> length r < length s"
proof (induction n arbitrary: acc s)
  case 0
  then show ?case by simp
next
  case (Suc n)
  from Suc.prems obtain cs key r0 r1 w r2 d ds where
    s: "s = 34 # cs" "scan_string cs = Inr (key, r0)" "skip_ws r0 = 58 # r1"
    "f (skip_ws r1) = Inr (w, r2)" "skip_ws r2 = d # ds"
    and k: "(d = 125 \<and> r = ds) \<or> (scan_members h f n ((key, w) # acc) (skip_ws ds) = Inr (v, r))"
    by (auto simp: scan_cases)
  have "length ds < length s"
    using scan_string_spec[of cs key r0] s skip_ws_ConsD[OF s(3)] skip_ws_ConsD[OF s(5)]
      length_skip_ws[of r1] assms unfolding shrinks_def by fastforce
  with k Suc.IH[of "(key, w) # acc" "skip_ws ds"] length_skip_ws[of ds] show ?case by auto
qed

lemma scan_elements_shrinks:
  assumes "shrinks f"
  shows "scan_elements f n acc s = Inr (v, r) \<Longrightarrow> length r < length s"
proof (induction n arbitrary: acc s)
  case 0
  then show ?case by simp
next
  case (Suc n)
  from Suc.prems obtain w r2 d ds where s: "f s = Inr (w, r2)" "skip_ws r2 = d # ds"
    and k: "(d = 93 \<and> r = ds) \<or> (scan_elements f n (w # acc) (skip_ws ds) = Inr (v, r))"
    by (auto simp: scan_cases)
  have "length ds < length s"
    using s skip_ws_ConsD[OF s(2)] assms unfolding shrinks_def by fastforce
  with k Suc.IH[of "w # acc" "skip_ws ds"] length_skip_ws[of ds] show ?case by auto
qed

lemma scan_members_fuel:
  assumes "shrinks f" "regular f" "hooks_safe h"
  shows "0 < n \<Longrightarrow> length s \<le> n \<Longrightarrow> scan_members h f n acc s = Inl e \<Longrightarrow> decode_error e"
proof (induction n arbitrary: acc s)
  case 0
  then show ?case by simp
next
  case (Suc n)
  show ?case
  proof (rule ccontr)
    assume ne: "\<not> decode_error e"
    then have j: "JSONDecodeError \<noteq> e" by auto
    from ne Suc.prems(3) assms(2,3) scan_string_spec obtain cs key r0 r1 w r2 ds where
      s: "s = 34 # cs" "scan_string cs = Inr (key, r0)" "skip_ws r0 = 58 # r1"
      "f (skip_ws r1) = Inr (w, r2)" "skip_ws r2 = 44 # ds"
      and k: "scan_members h f n ((key, w) # acc) (skip_ws ds) = Inl e"
      unfolding scan_members.simps regular_def hooks_safe_def by (simp add: scan_cases j) blast
    have "length ds + 2 \<le> length s"
      using scan_string_spec[of cs key r0] s skip_ws_ConsD[OF s(3)] skip_ws_ConsD[OF s(5)]
        length_skip_ws[of r1] assms(1) unfolding shrinks_def by fastforce
    with Suc.prems length_skip_ws[of ds] have "0 < n" "length (skip_ws ds) \<le> n" by linarith+
    from Suc.IH[OF this k] ne show False by blast
  qed
qed

lemma scan_elements_fuel:
  assumes "shrinks f" "regular f"
  shows "0 < n \<Longrightarrow> length s \<le> n \<Longrightarrow> scan_elements f n acc s = Inl e \<Longrightarrow> decode_error e"
proof (induction n arbitrary: acc s)
  case 0
  then show ?case by simp
next
  case (Suc n)
  show ?case
  proof (rule ccontr)
    assume ne: "\<not> decode_error e"
    with Suc.prems(3) assms(2) obtain w r2 ds where s: "f s = Inr (w, r2)" "skip_ws r2 = 44 # ds"
      and k: "scan_elements f n (w # acc) (skip_ws ds) = Inl e"
      by (auto simp: scan_cases regular_def)
    have "length ds + 2 \<le> length s"
      using s skip_ws_ConsD[OF s(2)] assms(1) unfolding shrinks_def by fastforce
    with Suc.prems length_skip_ws[of ds] have "0 < n" "length (skip_ws ds) \<le> n" by linarith+
    from Suc.IH[OF this k] ne show False by blast
  qed
qed

lemma scan_object_spec:
  assumes "shrinks f" "hooks_safe h"
  shows "shrinks (scan_object h f)" "regular f \<Longrightarrow> regular (scan_object h f)"
proof -
  show "shrinks (scan_object h f)"
    unfolding shrinks_def scan_object_def
    using scan_members_shrinks[OF assms(1)] skip_ws_ConsD length_skip_ws
    by (fastforce simp: and_then_eq_Inr split: list.splits if_splits)
  assume nf: "regular f"
  have "scan_object h f s = Inl e \<longrightarrow> decode_error e" for s e
  proof (cases "skip_ws s")
    case (Cons d ds)
    with length_skip_ws[of s] have "0 < length s" "length (d # ds) \<le> length s" by auto
    from scan_members_fuel[OF assms(1) nf assms(2) this] Cons assms(2) show ?thesis
      by (auto simp: scan_object_def and_then_eq_Inl hooks_safe_def)
  qed (simp add: scan_object_def)
  then show "regular (scan_object h f)" by (simp add: regular_def)
qed

lemma scan_array_spec:
  assumes "shrinks f"
  shows "shrinks (scan_array f)" "regular f \<Longrightarrow> regular (scan_array f)"
proof -
  show "shrinks (scan_array f)"
    unfolding shrinks_def scan_array_def
    using scan_elements_shrinks[OF assms(1)] skip_ws_ConsD length_skip_ws
    by (fastforce split: list.splits if_splits)
  assume nf: "regular f"
  have "scan_array f s = Inl e \<longrightarrow> decode_error e" for s e
  proof (cases "skip_ws s")
    case (Cons d ds)
    with length_skip_ws[of s] have "0 < length s" "length (d # ds) \<le> length s" by auto
    from scan_elements_fuel[OF assms(1) nf this] Cons show ?thesis
      by (auto simp: scan_array_def)
  qed (simp add: scan_array_def)
  then show "regular (scan_array f)" by (simp add: regular_def)
qed

lemma scan_value_shrinks: "hooks_safe h \<Longrightarrow> shrinks (scan_value depth h)"
proof (induction depth)
  case 0
  have "shrinks (\<lambda>_. Inl RecursionError)" by (simp add: shrinks_def)
  from scan_once_spec(1)[OF this this 0] show ?case by (simp add: shrinks_def)
next
  case (Suc depth)
  from Suc have IH: "shrinks (scan_value depth h)" by simp
  from scan_once_spec(1)[OF scan_object_spec(1)[OF IH Suc.prems] scan_array_spec(1)[OF IH] Suc.prems]
  show ?case by (simp only: shrinks_def scan_value.simps)
qed

lemma scan_value_fuel: "hooks_safe h \<Longrightarrow> regular (scan_value depth h)"
proof (induction depth)
  case 0
  have "shrinks (\<lambda>_. Inl RecursionError)" "regular (\<lambda>_. Inl RecursionError)"
    by (simp_all add: shrinks_def regular_def)
  from scan_once_spec(2)[OF this(1) this(1) 0 this(2) this(2)] show ?case
    by (simp add: regular_def)
next
  case (Suc depth)
  from Suc have IH: "regular (scan_value depth h)" by simp
  note sh = scan_value_shrinks[OF Suc.prems, of depth]
  from scan_once_spec(2)[OF scan_object_spec(1)[OF sh Suc.prems] scan_array_spec(1)[OF sh]
      Suc.prems scan_object_spec(2)[OF sh Suc.prems IH] scan_array_spec(2)[OF sh IH]]
  show ?case by (simp only: regular_def scan_value.simps)
qed

text \<open>Every failure of \<open>json.loads\<close> is one of its three exceptions: the model's bound is not met.\<close>

lemma json_loads_errors:
  "hooks_safe h \<Longrightarrow> json_loads h depth text = Inl e \<Longrightarrow> decode_error e"
  using scan_value_fuel[of h depth]
  by (auto simp: json_loads_def regular_def scan_cases)

end
