(* ===== verification/Json_Roundtrip.thy ===== *)
theory Json_Roundtrip
  imports Canonical Json_Decode
begin

text \<open>
  The canonical encoder and the reader fit together: reading canonical text gives back the
  value, with the members of every object in canonical order. The proof goes through the
  scanners in the order in which the text was written.
\<close>

section \<open>Normal form of a value\<close>

definition member_key :: "ustring \<times> 'a \<Rightarrow> nat list" where
  "member_key m = (case utf16_be_encode (fst m) of Some b \<Rightarrow> b | None \<Rightarrow> [])"

fun canonical_form :: "ustring json \<Rightarrow> ustring json"
  and canonical_items :: "ustring json list \<Rightarrow> ustring json list"
  and canonical_members :: "(ustring \<times> ustring json) list \<Rightarrow> (ustring \<times> ustring json) list" where
  "canonical_form (JArr xs) = JArr (canonical_items xs)"
| "canonical_form (JObj kvs) = JObj (sort_key member_key (canonical_members kvs))"
| "canonical_form JNull = JNull"
| "canonical_form (JBool b) = JBool b"
| "canonical_form (JInt n) = JInt n"
| "canonical_form (JFloat t) = JFloat t"
| "canonical_form (JStr s) = JStr s"
| "canonical_items [] = []"
| "canonical_items (x # xs) = canonical_form x # canonical_items xs"
| "canonical_members [] = []"
| "canonical_members ((k, v) # kvs) = (k, canonical_form v) # canonical_members kvs"

text \<open>Every object has distinct keys, as a \<open>dict\<close> has.\<close>

fun dict_like :: "'s json \<Rightarrow> bool" and dict_like_items :: "'s json list \<Rightarrow> bool"
  and dict_like_members :: "('s \<times> 's json) list \<Rightarrow> bool" where
  "dict_like (JArr xs) = dict_like_items xs"
| "dict_like (JObj kvs) = (distinct (map fst kvs) \<and> dict_like_members kvs)"
| "dict_like _ = True"
| "dict_like_items [] = True"
| "dict_like_items (x # xs) = (dict_like x \<and> dict_like_items xs)"
| "dict_like_members [] = True"
| "dict_like_members ((k, v) # kvs) = (dict_like v \<and> dict_like_members kvs)"

text \<open>How many containers are open at the deepest point.\<close>

fun nesting :: "'s json \<Rightarrow> nat" and nesting_items :: "'s json list \<Rightarrow> nat"
  and nesting_members :: "('s \<times> 's json) list \<Rightarrow> nat" where
  "nesting (JArr xs) = Suc (nesting_items xs)"
| "nesting (JObj kvs) = Suc (nesting_members kvs)"
| "nesting _ = 0"
| "nesting_items [] = 0"
| "nesting_items (x # xs) = max (nesting x) (nesting_items xs)"
| "nesting_members [] = 0"
| "nesting_members ((k, v) # kvs) = max (nesting v) (nesting_members kvs)"

lemma canonical_items_map: "canonical_items xs = map canonical_form xs"
  by (induction xs) simp_all

lemma canonical_members_map:
  "canonical_members kvs = map (\<lambda>(k, v). (k, canonical_form v)) kvs"
  by (induction kvs) auto

lemma encode_items_map: "encode_items xs = map encode_json xs"
  by (induction xs) simp_all

lemma encode_members_map: "encode_members kvs = map (\<lambda>(k, v). (k, encode_json v)) kvs"
  by (induction kvs) auto

lemma dict_like_items_iff: "dict_like_items xs \<longleftrightarrow> (\<forall>x \<in> set xs. dict_like x)"
  by (induction xs) simp_all

lemma dict_like_members_iff: "dict_like_members kvs \<longleftrightarrow> (\<forall>p \<in> set kvs. dict_like (snd p))"
  by (induction kvs) auto

lemma nesting_items_le: "nesting_items xs \<le> d \<longleftrightarrow> (\<forall>x \<in> set xs. nesting x \<le> d)"
  by (induction xs) auto

lemma nesting_members_le: "nesting_members kvs \<le> d \<longleftrightarrow> (\<forall>p \<in> set kvs. nesting (snd p) \<le> d)"
  by (induction kvs) auto

section \<open>Sorting members\<close>

lemma insort_key_map: "insort_key f (g x) (map g xs) = map g (insort_key (f \<circ> g) x xs)"
  by (induction xs) simp_all

lemma sort_key_map: "sort_key f (map g xs) = map g (sort_key (f \<circ> g) xs)"
  by (induction xs) (simp_all add: insort_key_map comp_def)

lemma insort_key_cong:
  "(\<And>y. y \<in> insert x (set xs) \<Longrightarrow> f y = g y) \<Longrightarrow> insort_key f x xs = insort_key g x xs"
  by (induction xs) auto

lemma sort_key_cong: "(\<And>x. x \<in> set xs \<Longrightarrow> f x = g x) \<Longrightarrow> sort_key f xs = sort_key g xs"
proof (induction xs)
  case (Cons x xs)
  have "insort_key f x (sort_key f xs) = insort_key g x (sort_key f xs)"
    by (rule insort_key_cong) (use Cons.prems in auto)
  with Cons show ?case by simp
qed simp

lemma traverse_keyed:
  "traverse (\<lambda>(k, v). and_then (sort_key_bytes k) (\<lambda>b. Inr (b, k, v))) ms = Inr keyed \<Longrightarrow>
     (\<forall>m \<in> set ms. utf16_be_encode (fst m) \<noteq> None) \<and> keyed = map (\<lambda>m. (member_key m, m)) ms"
  by (induction ms arbitrary: keyed)
     (auto simp: and_then_eq_Inr sort_key_bytes_def member_key_def split: option.splits)

lemma sort_members_eq:
  assumes "sort_members ms = Inr sm"
  shows "sm = sort_key member_key ms"
proof -
  from assms obtain keyed where k:
    "traverse (\<lambda>(k, v). and_then (sort_key_bytes k) (\<lambda>b. Inr (b, k, v))) ms = Inr keyed"
    and sm: "sm = map snd (sort_key fst keyed)" by (auto simp: sort_members_def and_then_eq_Inr)
  from traverse_keyed[OF k] have "keyed = map (\<lambda>m. (member_key m, m)) ms" by simp
  then have "sm = map snd (map (\<lambda>m. (member_key m, m)) (sort_key (fst \<circ> (\<lambda>m. (member_key m, m))) ms))"
    by (simp only: sm sort_key_map)
  also have "\<dots> = sort_key member_key ms" by (simp add: comp_def)
  finally show ?thesis .
qed

section \<open>Scanning what was written\<close>

text \<open>Text that may follow a value inside canonical text.\<close>

definition delimited :: "ustring \<Rightarrow> bool" where
  "delimited rest \<longleftrightarrow> rest = [] \<or> hd rest \<in> {44, 93, 125}"

definition reads_as :: "scanner \<Rightarrow> ustring \<Rightarrow> ustring json \<Rightarrow> bool" where
  "reads_as f t v \<longleftrightarrow> t \<noteq> [] \<and> \<not> is_ws (hd t) \<and> (\<forall>rest. delimited rest \<longrightarrow> f (t @ rest) = Inr (v, rest))"

lemma hex_digit_value_digit:
  assumes "k < 16" shows "hex_digit_value (of_char (hex_digits ! k)) = Some k"
proof -
  have "k = 0 \<or> k = 1 \<or> k = 2 \<or> k = 3 \<or> k = 4 \<or> k = 5 \<or> k = 6 \<or> k = 7 \<or> k = 8 \<or> k = 9 \<or>
      k = 10 \<or> k = 11 \<or> k = 12 \<or> k = 13 \<or> k = 14 \<or> k = 15" using assms by presburger
  then show ?thesis by (elim disjE) (simp_all add: hex_digits_def hex_digit_value_def)
qed

lemma hex4_value_hex4:
  assumes "n < 65536"
  shows "\<exists>a b c d. ascii (hex4 n) = [a, b, c, d] \<and> hex4_value a b c d = Some n"
proof -
  have d: "n div 4096 mod 16 * 4096 + n div 256 mod 16 * 256 + n div 16 mod 16 * 16 + n mod 16 = n"
  proof -
    have q: "n div 256 = n div 16 div 16" "n div 4096 = n div 16 div 16 div 16"
      by (simp_all add: div_mult2_eq [symmetric])
    have "n div 16 div 16 div 16 < 16"
      unfolding q(2) [symmetric] using assms by (simp add: less_mult_imp_div_less)
    then have m: "n div 16 div 16 div 16 mod 16 = n div 16 div 16 div 16" by (rule mod_less)
    show ?thesis
      unfolding q m
      using div_mult_mod_eq[of n 16] div_mult_mod_eq[of "n div 16" 16]
        div_mult_mod_eq[of "n div 16 div 16" 16] by linarith
  qed
  show ?thesis
    by (simp add: hex4_def ascii_simps hex4_value_def hex_digit_value_digit d)
qed

lemma scan_escape_char:
  "scan_string (escape_char c @ rest) = cons_char c (scan_string rest)"
proof -
  have low: "scan_string (92 # 117 # ascii (hex4 c) @ rest) = cons_char c (scan_string rest)"
    if c: "c < 0x20"
  proof -
    from c obtain a b x d where h: "ascii (hex4 c) = [a, b, x, d]" "hex4_value a b x d = Some c"
      using hex4_value_hex4[of c] by auto
    have "\<not> is_high_surrogate c" using c by (simp add: is_high_surrogate_def)
    with h show ?thesis by (simp add: scan_escape_def)
  qed
  show ?thesis
    by (auto simp: escape_char_def low simp del: scan_string.simps)
       (simp_all add: scan_escape_def simple_escape_def)
qed

lemma scan_encoded_string: "scan_string (concat (map escape_char s) @ 34 # rest) = Inr (s, rest)"
  by (induction s) (simp_all add: scan_escape_char cons_char_def)

lemma cp_digits_value_ascii: "cp_digits_value (ascii s) = read_nat s"
  unfolding cp_digits_value_def read_nat_def ascii_def foldl_map digit_value_def by simp

lemma is_digit_cp_ascii: "is_digit_cp (of_char c) = is_digit c"
  by (simp add: is_digit_cp_def is_digit_def)

lemma split_shown_digits:
  assumes "rest = [] \<or> \<not> is_digit_cp (hd rest)"
  shows "split_digits (ascii (show_nat n) @ rest) = (ascii (show_nat n), rest)"
proof -
  have all: "\<forall>c \<in> set (ascii (show_nat n)). is_digit_cp c"
    using show_nat_digits[of _ n] by (auto simp: ascii_def is_digit_cp_ascii)
  then have "takeWhile is_digit_cp (ascii (show_nat n) @ rest)
      = ascii (show_nat n) @ takeWhile is_digit_cp rest"
    by (rule takeWhile_append2[OF bspec])
  moreover from all have "dropWhile is_digit_cp (ascii (show_nat n) @ rest) = dropWhile is_digit_cp rest"
    by (rule dropWhile_append2[OF bspec])
  ultimately show ?thesis using assms by (cases rest) (auto simp: split_digits_def)
qed

lemma shown_head:
  obtains c cs where "ascii (show_nat n) = c # cs" "is_digit_cp c" "c = 48 \<longrightarrow> cs = []"
proof -
  obtain d ds where s: "show_nat n = d # ds" by (cases "show_nat n") auto
  have "is_digit d" using show_nat_digits[of d n] s by simp
  moreover have "ds = []" if "(of_char d :: nat) = 48"
  proof (cases "n = 0")
    case True
    with s show ?thesis by (simp add: show_nat.simps[of 0])
  next
    case False
    with hd_show_nat[of n] s have "d \<noteq> digit_char 0" by simp
    moreover have "d = digit_char 0"
      unfolding digit_char_def using that by (metis add.right_neutral char_of_char)
    ultimately show ?thesis by simp
  qed
  ultimately show thesis
    by (intro that[of "of_char d" "ascii ds"]) (auto simp: s ascii_simps is_digit_cp_ascii)
qed

lemma delimited_not_number:
  assumes "delimited rest"
  shows "rest = [] \<or> \<not> is_digit_cp (hd rest)" "scan_fraction rest = ([], rest)"
    "scan_exponent rest = ([], rest)"
  using assms by (auto simp: delimited_def is_digit_cp_def scan_fraction_def scan_exponent_def
      split: list.splits)

lemma scan_shown_nat:
  assumes "delimited rest"
  shows "scan_int_part (ascii (show_nat n) @ rest) = Some (ascii (show_nat n), rest)"
proof -
  obtain c cs where h: "ascii (show_nat n) = c # cs" "is_digit_cp c" "c = 48 \<longrightarrow> cs = []"
    by (rule shown_head[of n])
  have s: "split_digits (c # cs @ rest) = (c # cs, rest)"
    using split_shown_digits[OF delimited_not_number(1)[OF assms], of n] h(1) by simp
  from h s show ?thesis by (auto simp: scan_int_part_def)
qed
lemma no_prefix:
  assumes "s = c # cs" "p = d # ds" "c \<noteq> of_char d"
  shows "strip_prefix p s = None"
  using assms by (simp add: strip_prefix_def ascii_simps)

lemma no_constant_digit:
  assumes "is_digit_cp c"
  shows "scan_constant h (c # cs) = None"
  using assms by (auto simp: scan_constant_def strip_prefix_def is_digit_cp_def ascii_simps)

lemma no_constant_minus:
  assumes "is_digit_cp c"
  shows "scan_constant h (45 # c # cs) = None"
  using assms by (auto simp: scan_constant_def strip_prefix_def is_digit_cp_def ascii_simps)

lemma small_digits:
  assumes "n \<le> 9007199254740991"
  shows "length (show_nat n) \<le> INT_MAX_STR_DIGITS"
proof -
  have "n < 10 ^ 16" using assms by simp
  then have "length (show_nat n) \<le> 16" by (rule length_show_nat_le) simp
  then show ?thesis by (simp add: INT_MAX_STR_DIGITS_def)
qed

lemma scan_shown_int:
  assumes "delimited rest" "- MAX_SAFE_INT \<le> n" "n \<le> MAX_SAFE_INT"
  shows "scan_number h (ascii (show_int n) @ rest) = Inr (JInt n, rest)"
proof (cases "n < 0")
  case True
  have "nat (- n) \<le> 9007199254740991" using assms(2) by (simp add: MAX_SAFE_INT_def)
  with True show ?thesis
    using scan_shown_nat[OF assms(1), of "nat (- n)"] delimited_not_number(2,3)[OF assms(1)]
      small_digits[of "nat (- n)"]
    by (simp add: show_int_def ascii_simps scan_number_def cp_digits_value_ascii)
next
  case False
  have l: "nat n \<le> 9007199254740991" using assms(3) by (simp add: MAX_SAFE_INT_def)
  obtain c cs where h: "ascii (show_nat (nat n)) = c # cs" "is_digit_cp c"
    by (rule shown_head[of "nat n"])
  then have "c \<noteq> 45" by (auto simp: is_digit_cp_def)
  with h(1) have "(case ascii (show_nat (nat n)) @ rest of x # r \<Rightarrow> if x = 45 then ([x], r)
      else ([], ascii (show_nat (nat n)) @ rest) | [] \<Rightarrow> ([], ascii (show_nat (nat n)) @ rest))
      = ([], ascii (show_nat (nat n)) @ rest)" by simp
  then show ?thesis
    using scan_shown_nat[OF assms(1), of "nat n"] delimited_not_number(2,3)[OF assms(1)]
      small_digits[OF l] False
    by (simp add: show_int_def scan_number_def cp_digits_value_ascii)
qed

section \<open>Joined items\<close>

lemma delimited_Cons [simp]: "delimited (c # cs) \<longleftrightarrow> c = 44 \<or> c = 93 \<or> c = 125"
  by (simp add: delimited_def)

lemma delimited_Nil [simp]: "delimited []"
  by (simp add: delimited_def)

lemma skip_ws_head: "t \<noteq> [] \<Longrightarrow> \<not> is_ws (hd t) \<Longrightarrow> skip_ws (t @ s) = t @ s"
  by (cases t) (simp_all add: skip_ws_def)

lemma skip_ws_Cons [simp]: "skip_ws (c # cs) = (if is_ws c then skip_ws cs else c # cs)"
  by (simp add: skip_ws_def)

lemma is_ws_delims [simp]:
  "\<not> is_ws 44" "\<not> is_ws 93" "\<not> is_ws 125" "\<not> is_ws 34" "\<not> is_ws 58" "\<not> is_ws 91" "\<not> is_ws 123"
  by (simp_all add: is_ws_def)

lemma scan_elements_joined:
  assumes "list_all2 (reads_as f) (p # ps) (v # vs)" "length ps < n"
  shows "scan_elements f n acc (p @ concat (map ((#) 44) ps) @ 93 # rest)
    = Inr (JArr (rev acc @ v # vs), rest)"
  using assms
proof (induction ps arbitrary: p v vs n acc)
  case Nil
  then obtain m where n: "n = Suc m" by (cases n) auto
  from Nil show ?case by (simp add: n reads_as_def)
next
  case (Cons q qs)
  then obtain m w ws where n: "n = Suc m" "vs = w # ws" by (cases n; cases vs) auto
  from Cons.prems n have p: "reads_as f p v" and r: "list_all2 (reads_as f) (q # qs) (w # ws)"
    "length qs < m" by simp_all
  from r(1) have q: "q \<noteq> []" "\<not> is_ws (hd q)" by (simp_all add: reads_as_def)
  let ?t = "q @ concat (map ((#) 44) qs) @ 93 # rest"
  have "f (p @ 44 # ?t) = Inr (v, 44 # ?t)" using p by (simp add: reads_as_def)
  with Cons.IH[OF r, of "v # acc"] skip_ws_head[OF q] show ?case by (simp add: n)
qed

definition member_text :: "ustring \<Rightarrow> ustring \<Rightarrow> ustring" where
  "member_text k t = encode_string k @ [58] @ t"

definition member_reads :: "scanner \<Rightarrow> ustring \<Rightarrow> ustring \<times> ustring json \<Rightarrow> bool" where
  "member_reads f m kv \<longleftrightarrow> (\<exists>t. m = member_text (fst kv) t \<and> reads_as f t (snd kv))"

lemma scan_members_joined:
  assumes "list_all2 (member_reads f) (m # ms) (kv # kvs)" "length ms < n"
    and "\<And>ps. ps = rev acc @ kv # kvs \<Longrightarrow> jh_pairs h ps = Inr (JObj ps)"
  shows "scan_members h f n acc (m @ concat (map ((#) 44) ms) @ 125 # rest)
    = Inr (JObj (rev acc @ kv # kvs), rest)"
  using assms
proof (induction ms arbitrary: m kv kvs n acc)
  case Nil
  then obtain j t where n: "n = Suc j" and m: "m = member_text (fst kv) t" "reads_as f t (snd kv)"
    by (cases n) (auto simp: member_reads_def)
  then have t: "skip_ws (t @ 125 # rest) = t @ 125 # rest" "f (t @ 125 # rest) = Inr (snd kv, 125 # rest)"
    by (auto simp: reads_as_def skip_ws_head)
  from Nil t show ?case
    by (simp add: n m(1) member_text_def encode_string_def scan_encoded_string)
next
  case (Cons q qs)
  then obtain j t w ws where n: "n = Suc j" "kvs = w # ws"
    and m: "m = member_text (fst kv) t" "reads_as f t (snd kv)"
    by (cases n; cases kvs) (auto simp: member_reads_def)
  let ?t = "q @ concat (map ((#) 44) qs) @ 125 # rest"
  from Cons.prems(1) n obtain u where q: "q = member_text (fst w) u"
    by (auto simp: member_reads_def)
  have t: "skip_ws (t @ 44 # ?t) = t @ 44 # ?t" "f (t @ 44 # ?t) = Inr (snd kv, 44 # ?t)"
    "skip_ws ?t = ?t"
    using m(2) by (auto simp: reads_as_def skip_ws_head q member_text_def encode_string_def)
  have "scan_members h f j (kv # acc) ?t = Inr (JObj (rev (kv # acc) @ w # ws), rest)"
    by (rule Cons.IH) (use Cons.prems n in auto)
  with t show ?case
    by (simp add: n m(1) member_text_def encode_string_def scan_encoded_string)
qed

section \<open>Every canonical text is read back\<close>

text \<open>A reader that keeps the pairs of an object whose keys are distinct.\<close>

definition keeps_pairs :: "json_hooks \<Rightarrow> bool" where
  "keeps_pairs h \<longleftrightarrow> (\<forall>ps. distinct (map fst ps) \<longrightarrow> jh_pairs h ps = Inr (JObj ps))"

lemma length_concat_commas: "length ps \<le> length (concat (map ((#) 44) ps))"
  by (induction ps) simp_all

lemma reads_atom:
  assumes "t \<noteq> []" "\<not> is_ws (hd t)"
    and "\<And>rest. delimited rest \<Longrightarrow> scan_once h ob ar (t @ rest) = Inr (v, rest)"
  shows "reads_as (scan_once h ob ar) t v"
  using assms by (simp add: reads_as_def)

lemma scan_value_cases:
  "\<exists>ob ar. scan_value depth h = scan_once h ob ar"
proof (cases depth)
  case 0
  then have "scan_value depth h = scan_once h (\<lambda>_. Inl RecursionError) (\<lambda>_. Inl RecursionError)"
    by (simp add: fun_eq_iff)
  then show ?thesis by blast
next
  case (Suc d)
  then have "scan_value depth h = scan_once h (scan_object h (scan_value d h)) (scan_array (scan_value d h))"
    by (simp add: fun_eq_iff)
  then show ?thesis by blast
qed

lemma reads_atom_value:
  assumes "encode_json v = Inr t" "\<And>xs. v \<noteq> JArr xs" "\<And>kvs. v \<noteq> JObj kvs"
  shows "reads_as (scan_value depth h) t (canonical_form v)"
proof -
  obtain ob ar where sv: "scan_value depth h = scan_once h ob ar" using scan_value_cases by blast
  show ?thesis unfolding sv
  proof (cases v)
    case JNull
    with assms(1) show "reads_as (scan_once h ob ar) t (canonical_form v)"
      by (intro reads_atom) (auto simp: ascii_simps is_ws_def scan_once_def scan_constant_def strip_prefix_def)
  next
    case (JBool b)
    with assms(1) show "reads_as (scan_once h ob ar) t (canonical_form v)"
      by (intro reads_atom)
         (auto simp: ascii_simps is_ws_def scan_once_def scan_constant_def strip_prefix_def split: if_splits)
  next
    case (JInt n)
    with assms(1) have n: "- MAX_SAFE_INT \<le> n" "n \<le> MAX_SAFE_INT" "t = ascii (show_int n)"
      by (auto split: if_splits)
    obtain c cs where h: "ascii (show_nat (nat \<bar>n\<bar>)) = c # cs" "is_digit_cp c"
      by (rule shown_head[of "nat \<bar>n\<bar>"])
    then have t: "t = c # cs \<or> t = 45 # c # cs"
      by (cases "n < 0") (auto simp: n(3) show_int_def ascii_simps)
    show "reads_as (scan_once h ob ar) t (canonical_form v)"
    proof (rule reads_atom)
      show "t \<noteq> []" "\<not> is_ws (hd t)" using t h(2) by (auto simp: is_ws_def is_digit_cp_def)
      fix rest :: ustring assume r: "delimited rest"
      have "scan_constant h (t @ rest) = None"
        using t no_constant_digit[OF h(2)] no_constant_minus[OF h(2)] by auto
      moreover have "hd t \<noteq> 34" "hd t \<noteq> 123" "hd t \<noteq> 91"
        using t h(2) by (auto simp: is_digit_cp_def)
      moreover have "t \<noteq> []" using t by auto
      ultimately have "scan_once h ob ar (t @ rest) = scan_number h (t @ rest)"
        by (cases t) (simp_all add: scan_once_def)
      then show "scan_once h ob ar (t @ rest) = Inr (canonical_form v, rest)"
        using scan_shown_int[OF r n(1,2), of h] by (simp add: n(3) JInt)
    qed
  next
    case (JStr s)
    with assms(1) show "reads_as (scan_once h ob ar) t (canonical_form v)"
      by (intro reads_atom) (auto simp: encode_string_def scan_once_def scan_encoded_string)
  qed (use assms in simp_all)
qed

lemma reads_array:
  assumes parts: "list_all2 (reads_as (scan_value depth h)) parts vs"
  shows "reads_as (scan_value (Suc depth) h) ([91] @ join_commas parts @ [93]) (JArr vs)"
proof (cases parts)
  case Nil
  with parts show ?thesis by (simp add: reads_as_def scan_once_def scan_array_def join_commas_def)
next
  case (Cons p ps)
  with parts obtain w ws where v: "vs = w # ws" by (cases vs) auto
  from parts Cons v have p: "p \<noteq> []" "\<not> is_ws (hd p)" by (auto simp: reads_as_def)
  have "scan_array (scan_value depth h) (join_commas parts @ 93 # rest) = Inr (JArr vs, rest)" for rest
  proof -
    let ?t = "p @ concat (map ((#) 44) ps) @ 93 # rest"
    have len: "length ps < length ?t" using length_concat_commas[of ps] by simp
    have hd: "hd p \<noteq> 93"
    proof
      assume h: "hd p = 93"
      from parts Cons v have "reads_as (scan_value depth h) p w" by simp
      then have "scan_value depth h (p @ []) = Inr (w, [])"
        unfolding reads_as_def by (metis delimited_Nil)
      with h p(1) show False
        using scan_value_cases[of depth h]
        by (cases p) (auto simp: scan_once_def scan_constant_def strip_prefix_def ascii_simps
            scan_number_def scan_int_part_def is_digit_cp_def)
    qed
    obtain c cs where pc: "p = c # cs" using p(1) by (cases p) auto
    have "scan_elements (scan_value depth h) (length ?t) [] ?t = Inr (JArr (w # ws), rest)"
      using scan_elements_joined[OF parts[unfolded Cons v] len] by simp
    with p hd pc show ?thesis
      by (simp add: scan_array_def join_commas_def Cons v)
  qed
  then show ?thesis by (simp add: reads_as_def scan_once_def)
qed

lemma reads_object:
  assumes parts: "list_all2 (member_reads (scan_value depth h)) parts kvs"
    and d: "distinct (map fst kvs)" and k: "keeps_pairs h"
  shows "reads_as (scan_value (Suc depth) h) ([123] @ join_commas parts @ [125]) (JObj kvs)"
proof (cases parts)
  case Nil
  with parts k show ?thesis
    by (simp add: reads_as_def scan_once_def scan_object_def join_commas_def keeps_pairs_def)
next
  case (Cons p ps)
  with parts obtain w ws where v: "kvs = w # ws" by (cases kvs) auto
  from parts Cons v obtain t where p: "p = member_text (fst w) t"
    by (auto simp: member_reads_def)
  have "scan_object h (scan_value depth h) (join_commas parts @ 125 # rest) = Inr (JObj kvs, rest)" for rest
  proof -
    let ?t = "p @ concat (map ((#) 44) ps) @ 125 # rest"
    have len: "length ps < length ?t" using length_concat_commas[of ps] by simp
    obtain cs where pc: "p = 34 # cs" by (simp add: p member_text_def encode_string_def)
    have "scan_members h (scan_value depth h) (length ?t) [] ?t = Inr (JObj (w # ws), rest)"
      using scan_members_joined[OF parts[unfolded Cons v] len, of "[]" h rest] d k
      by (simp add: keeps_pairs_def v)
    with pc show ?thesis
      by (simp add: scan_object_def join_commas_def Cons v)
  qed
  then show ?thesis by (simp add: reads_as_def scan_once_def)
qed

lemma traverse_id_map:
  "traverse id (map f xs) = Inr ts \<Longrightarrow> list_all2 (\<lambda>t x. f x = Inr t) ts xs"
  by (induction xs arbitrary: ts) (auto simp: and_then_eq_Inr)

lemma traverse_members:
  "traverse (\<lambda>(k, e). and_then e (\<lambda>t. Inr (encode_string k @ [58] @ t)))
     (map (\<lambda>(k, v). (k, g v)) kvs) = Inr ms \<Longrightarrow>
   list_all2 (\<lambda>m kv. \<exists>t. m = member_text (fst kv) t \<and> g (snd kv) = Inr t) ms kvs"
  by (induction kvs arbitrary: ms) (auto simp: and_then_eq_Inr member_text_def)

lemma member_key_fst: "member_key (k, v) = member_key (k, w)"
  by (simp add: member_key_def)

lemma canonical_members_sorted:
  "sort_key member_key (canonical_members kvs)
     = map (\<lambda>(k, v). (k, canonical_form v)) (sort_key member_key kvs)"
  unfolding canonical_members_map sort_key_map
  by (rule arg_cong[where f = "map _"], rule sort_key_cong) (auto simp: member_key_def)

lemma distinct_keys_sorted: "distinct (map fst (sort_key member_key kvs)) \<longleftrightarrow> distinct (map fst kvs)"
  by (simp add: distinct_map)

lemma reads_canonical:
  assumes "keeps_pairs h"
  shows "encode_json v = Inr t \<Longrightarrow> dict_like v \<Longrightarrow> nesting v \<le> depth \<Longrightarrow>
    reads_as (scan_value depth h) t (canonical_form v)"
proof (induction "size v" arbitrary: v t depth rule: less_induct)
  case less
  note prems = less.prems
  show ?case
  proof (cases v)
    case (JArr xs)
    with prems(3) obtain d where d: "depth = Suc d" "nesting_items xs \<le> d" by (cases depth) auto
    from prems(1) JArr obtain ps where ps: "traverse id (map encode_json xs) = Inr ps"
      "t = [91] @ join_commas ps @ [93]" by (auto simp: and_then_eq_Inr encode_items_map)
    have "list_all2 (reads_as (scan_value d h)) ps (map canonical_form xs)"
      unfolding list_all2_map2
    proof (rule list.rel_mono_strong[OF traverse_id_map[OF ps(1)]])
      fix p x assume x: "p \<in> set ps" "x \<in> set xs" "encode_json x = Inr p"
      have "size x < size v" using x(2) by (simp add: JArr size_list_estimation' less_Suc_eq_le)
      moreover have "dict_like x" "nesting x \<le> d"
        using prems(2) d(2) x(2) by (auto simp: JArr dict_like_items_iff nesting_items_le)
      ultimately show "reads_as (scan_value d h) p (canonical_form x)" using less.hyps x(3) by blast
    qed
    from reads_array[OF this] show ?thesis by (simp add: JArr d(1) ps(2) canonical_items_map)
  next
    case (JObj kvs)
    with prems(3) obtain d where d: "depth = Suc d" "nesting_members kvs \<le> d" by (cases depth) auto
    from prems(1) JObj obtain sm ps where sm: "sort_members (map (\<lambda>(k, v). (k, encode_json v)) kvs) = Inr sm"
      and ps: "traverse (\<lambda>(k, e). and_then e (\<lambda>t. Inr (encode_string k @ [58] @ t))) sm = Inr ps"
      "t = [123] @ join_commas ps @ [125]" by (auto simp: and_then_eq_Inr encode_members_map)
    let ?s = "sort_key member_key kvs"
    have "sm = map (\<lambda>(k, v). (k, encode_json v)) (sort_key (member_key \<circ> (\<lambda>(k, v). (k, encode_json v))) kvs)"
      using sort_members_eq[OF sm] by (simp only: sort_key_map)
    also have "sort_key (member_key \<circ> (\<lambda>(k, v). (k, encode_json v))) kvs = ?s"
      by (rule sort_key_cong) (auto simp: member_key_def)
    finally have "list_all2 (\<lambda>m kv. \<exists>t. m = member_text (fst kv) t \<and> encode_json (snd kv) = Inr t) ps ?s"
      using ps(1) by (simp add: traverse_members)
    then have "list_all2 (member_reads (scan_value d h)) ps (map (\<lambda>(k, v). (k, canonical_form v)) ?s)"
      unfolding list_all2_map2
    proof (rule list.rel_mono_strong)
      fix m kv assume m: "m \<in> set ps" "kv \<in> set ?s"
        "\<exists>t. m = member_text (fst kv) t \<and> encode_json (snd kv) = Inr t"
      obtain k x where kv: "kv = (k, x)" by (cases kv)
      have kx: "(k, x) \<in> set kvs" using m(2) by (simp add: kv)
      have "size x < size v"
        using size_list_estimation'[OF kx, of "size x" "size_prod (\<lambda>_. 0) size"]
        by (simp add: JObj less_Suc_eq_le)
      moreover have "dict_like x" "nesting x \<le> d"
        using prems(2) d(2) kx by (auto simp: JObj dict_like_members_iff nesting_members_le)
      ultimately show "member_reads (scan_value d h) m ((\<lambda>(k, v). (k, canonical_form v)) kv)"
        using less.hyps m(3) by (auto simp: member_reads_def kv)
    qed
    moreover have "distinct (map fst (map (\<lambda>(k, v). (k, canonical_form v)) ?s))"
      using prems(2) by (simp add: JObj comp_def case_prod_beta distinct_keys_sorted[unfolded comp_def])
    ultimately show ?thesis using reads_object[OF _ _ assms]
      by (simp add: JObj d(1) ps(2) canonical_members_sorted)
  qed (rule reads_atom_value[OF prems(1)]; simp)+
qed
section \<open>Encoding depends on the normal form only\<close>

lemma sort_members_total:
  assumes "\<forall>m \<in> set ms. utf16_be_encode (fst m) \<noteq> None"
  shows "sort_members ms = Inr (sort_key member_key ms)"
proof -
  have "traverse (\<lambda>(k, v). and_then (sort_key_bytes k) (\<lambda>b. Inr (b, k, v))) ms
      = Inr (map (\<lambda>m. (member_key m, m)) ms)"
    using assms by (induction ms) (auto simp: sort_key_bytes_def member_key_def)
  then have "sort_members ms = Inr (map snd (sort_key fst (map (\<lambda>m. (member_key m, m)) ms)))"
    by (simp add: sort_members_def)
  also have "sort_key fst (map (\<lambda>m. (member_key m, m)) ms)
      = map (\<lambda>m. (member_key m, m)) (sort_key member_key ms)"
    by (simp add: sort_key_map comp_def)
  finally show ?thesis by (simp add: comp_def)
qed

lemma sort_members_keys:
  "sort_members ms = Inr sm \<Longrightarrow> \<forall>m \<in> set ms. utf16_be_encode (fst m) \<noteq> None"
  using traverse_keyed[of ms] by (auto simp: sort_members_def and_then_eq_Inr)

lemma sort_key_sorted: "sort_key f (sort_key f xs) = sort_key f xs"
  by (rule sort_key_id_if_sorted) simp

lemma traverse_cong:
  "(\<And>x. x \<in> set xs \<Longrightarrow> f x = g x) \<Longrightarrow> traverse f xs = traverse g xs"
  by (induction xs) simp_all

lemma encode_canonical_form:
  "encode_json v = Inr t \<Longrightarrow> encode_json (canonical_form v) = Inr t"
proof (induction "size v" arbitrary: v t rule: less_induct)
  case less
  note prems = less.prems
  show ?case
  proof (cases v)
    case (JArr xs)
    from prems JArr obtain ps where ps: "traverse id (map encode_json xs) = Inr ps"
      "t = [91] @ join_commas ps @ [93]" by (auto simp: and_then_eq_Inr encode_items_map)
    have "map encode_json (map canonical_form xs) = map encode_json xs"
      unfolding map_map
    proof (rule map_cong[OF refl])
      fix x assume x: "x \<in> set xs"
      then obtain p where p: "encode_json x = Inr p"
        using traverse_id_map[OF ps(1)] by (auto simp: list_all2_conv_all_nth in_set_conv_nth)
      have "size x < size v" using x by (simp add: JArr size_list_estimation' less_Suc_eq_le)
      from less.hyps[OF this p] p show "(encode_json \<circ> canonical_form) x = encode_json x" by simp
    qed
    then have "encode_items (canonical_items xs) = map encode_json xs"
      by (simp only: canonical_items_map encode_items_map)
    with ps show ?thesis by (simp add: JArr)
  next
    case (JObj kvs)
    let ?e = "\<lambda>(k, v). (k, encode_json v)" and ?c = "\<lambda>(k, v). (k, canonical_form v)"
    let ?s = "sort_key member_key kvs"
    from prems JObj obtain sm ps where sm: "sort_members (map ?e kvs) = Inr sm"
      and ps: "traverse (\<lambda>(k, e). and_then e (\<lambda>t. Inr (encode_string k @ [58] @ t))) sm = Inr ps"
      "t = [123] @ join_commas ps @ [125]" by (auto simp: and_then_eq_Inr encode_members_map)
    have sme: "sm = map ?e ?s"
    proof -
      have "sort_key (member_key \<circ> ?e) kvs = ?s" by (rule sort_key_cong) (auto simp: member_key_def)
      with sort_members_eq[OF sm] show ?thesis by (simp only: sort_key_map)
    qed
    have keys: "\<forall>m \<in> set kvs. utf16_be_encode (fst m) \<noteq> None"
      using sort_members_keys[OF sm] by auto
    have same: "map ?e (map ?c ?s) = map ?e ?s"
      unfolding map_map
    proof (rule map_cong[OF refl])
      fix kv assume m: "kv \<in> set ?s"
      obtain k x where kv: "kv = (k, x)" by (cases kv)
      have kx: "(k, x) \<in> set kvs" using m by (simp add: kv)
      from m obtain i where i: "i < length ?s" "?s ! i = kv" by (auto simp only: in_set_conv_nth)
      obtain p where p: "encode_json x = Inr p"
        using list_all2_nthD2[OF traverse_members[OF ps(1)[unfolded sme]] i(1)] i(2)
        by (auto simp: kv)
      have "size x < size v"
        using size_list_estimation'[OF kx, of "size x" "size_prod (\<lambda>_. 0) size"]
        by (simp add: JObj less_Suc_eq_le)
      from less.hyps[OF this p] p show "(?e \<circ> ?c) kv = ?e kv" by (simp add: kv)
    qed
    have "sort_members (map ?e (map ?c ?s)) = Inr (sort_key member_key (map ?e ?s))"
      unfolding same by (rule sort_members_total) (use keys in auto)
    also have "sort_key member_key (map ?e ?s) = map ?e ?s"
    proof -
      have "sort_key (member_key \<circ> ?e) ?s = sort_key member_key ?s"
        by (rule sort_key_cong) (auto simp: member_key_def)
      then show ?thesis by (simp only: sort_key_map sort_key_sorted)
    qed
    finally have "sort_members (encode_members (map ?c ?s)) = Inr sm"
      by (simp only: encode_members_map sme)
    with ps show ?thesis
      by (simp add: JObj canonical_members_sorted)
  qed (use prems in auto)
qed

section \<open>Properties\<close>

lemma not_a_bom: "\<exists>e. scan_value depth h (0xFEFF # s) = Inl e"
proof -
  obtain ob ar where "scan_value depth h = scan_once h ob ar" using scan_value_cases by blast
  then show ?thesis
    by (simp add: scan_once_def scan_constant_def strip_prefix_def ascii_simps scan_number_def
        scan_int_part_def is_digit_cp_def)
qed

lemma loads_encoded:
  assumes "encode_json v = Inr t" "dict_like v" "nesting v \<le> depth" "keeps_pairs h"
  shows "json_loads h depth t = Inr (canonical_form v)"
proof -
  have r: "reads_as (scan_value depth h) t (canonical_form v)"
    by (rule reads_canonical) (fact assms)+
  then have s: "scan_value depth h (t @ []) = Inr (canonical_form v, [])"
    unfolding reads_as_def by (metis delimited_Nil)
  have "take 1 t \<noteq> [0xFEFF]"
  proof
    assume "take 1 t = [0xFEFF]"
    then obtain cs where "t = 0xFEFF # cs" by (cases t) auto
    with s not_a_bom[of depth h cs] show False by auto
  qed
  moreover have "skip_ws t = t"
    using r skip_ws_head[of t "[]"] by (simp add: reads_as_def)
  ultimately show ?thesis using s by (simp add: json_loads_def skip_ws_def)
qed

text \<open>
  Property C21. What is hashed can be read back: for every encodable value whose objects have
  distinct keys, the canonical bytes decode and parse to the same value with the members of
  each object in canonical order, whatever hooks the reader uses, as long as it keeps the
  pairs of a duplicate-free object and allows the nesting.
\<close>

theorem canonical_bytes_read_back:
  assumes "canonical_bytes v = Inr bs" "dict_like v" "nesting v \<le> depth" "keeps_pairs h"
  shows "\<exists>text. utf8_decode bs = Some text \<and> json_loads h depth text = Inr (canonical_form v)"
proof -
  from assms(1) obtain t where "encode_json v = Inr t" "utf8_encode t = Some bs"
    by (auto simp: canonical_bytes_def and_then_eq_Inr split: option.splits)
  with loads_encoded[OF _ assms(2-4)] utf8_roundtrip show ?thesis by blast
qed

definition plain_hooks :: json_hooks where
  "plain_hooks = \<lparr>jh_float = (\<lambda>t. Inr (JStr t)), jh_constant = (\<lambda>t. Inr (JStr t)), jh_pairs = (\<lambda>ps. Inr (JObj ps))\<rparr>"

lemma plain_hooks_keep: "keeps_pairs plain_hooks"
  by (simp add: keeps_pairs_def plain_hooks_def)

theorem canonical_bytes_read_back_witness:
  "\<exists>bs text. canonical_bytes (JArr [JInt 5, JNull]) = Inr bs \<and> utf8_decode bs = Some text \<and>
     json_loads plain_hooks 3 text = Inr (JArr [JInt 5, JNull])"
proof -
  have "encode_json (JArr [JInt 5, JNull]) = Inr (ascii ''[5,null]'')"
    by (simp add: MAX_SAFE_INT_def show_int_def show_nat.simps digit_char_def join_commas_def ascii_simps)
  moreover have "list_all scalar_value (ascii ''[5,null]'')"
    by (simp add: ascii_simps scalar_value_def is_surrogate_def)
  ultimately obtain bs where "canonical_bytes (JArr [JInt 5, JNull]) = Inr bs"
    by (auto simp: canonical_bytes_def utf8_encode_def)
  from canonical_bytes_read_back[OF this _ _ plain_hooks_keep, of 3] this show ?thesis by auto
qed

text \<open>
  The canonical bytes identify a logical record: two encodable values have the
  same canonical bytes exactly when they are equal up to the order in which the keys of their
  objects were inserted.
\<close>

lemma canonical_bytes_identify:
  assumes "canonical_bytes v = Inr bs" "canonical_bytes w = Inr cs" "dict_like v" "dict_like w"
  shows "bs = cs \<longleftrightarrow> canonical_form v = canonical_form w"
proof -
  from assms(1,2) obtain t u where t: "encode_json v = Inr t" "utf8_encode t = Some bs"
    and u: "encode_json w = Inr u" "utf8_encode u = Some cs"
    by (auto simp: canonical_bytes_def and_then_eq_Inr split: option.splits)
  show ?thesis
  proof
    assume "bs = cs"
    then have "t = u" using t(2) u(2) by (auto intro: utf8_encode_inject)
    with loads_encoded[OF t(1) assms(3) _ plain_hooks_keep, of "max (nesting v) (nesting w)"]
      loads_encoded[OF u(1) assms(4) _ plain_hooks_keep, of "max (nesting v) (nesting w)"]
    show "canonical_form v = canonical_form w" by simp
  next
    assume "canonical_form v = canonical_form w"
    with encode_canonical_form[OF t(1)] encode_canonical_form[OF u(1)] have "t = u" by simp
    with t(2) u(2) show "bs = cs" by simp
  qed
qed

end
