(* ===== verification/Action.thy ===== *)
theory Action
  imports Json_Roundtrip Protocol
begin

text \<open>
  Model of \<open>core/action.py\<close>: the parser of agent replies with its frozen order of checks V1
  to V8. Fractional JSON numbers stay lexemes, duplicate keys and non-finite constants are
  rejected, and every malformed reply becomes a reason code.
\<close>

definition MAX_ACTION_BYTES :: nat where "MAX_ACTION_BYTES = 65536"
definition LEV_SCALE_1E4 :: int where "LEV_SCALE_1E4 = 10000"
definition MAX_TARGET_LEV_1E4 :: int where "MAX_TARGET_LEV_1E4 = 9999999"
definition MAX_EXACT_JSON_INT :: int where "MAX_EXACT_JSON_INT = 9007199254740991"

definition KNOWN_TOP_LEVEL_FIELDS :: "string list" where
  "KNOWN_TOP_LEVEL_FIELDS = [''schema'', ''intent_kind'', ''target'', ''max_slippage_bps'',
     ''comment'', ''usage'', ''ext'']"

section \<open>Hooks of the reader\<close>

text \<open>\<open>_InvalidJson\<close> is a \<open>ValueError\<close>.\<close>

definition reject_constant :: "ustring \<Rightarrow> ustring json result" where
  "reject_constant token = Inl (ValueError ''non-finite JSON token'')"

definition object_without_duplicates :: "(ustring \<times> ustring json) list \<Rightarrow> ustring json result" where
  "object_without_duplicates pairs =
     (if distinct (map fst pairs) then Inr (JObj pairs) else Inl (ValueError ''duplicate key''))"

definition action_hooks :: json_hooks where
  "action_hooks = \<lparr>jh_float = (\<lambda>t. Inr (JFloat t)), jh_constant = reject_constant,
     jh_pairs = object_without_duplicates\<rparr>"

section \<open>Results\<close>

record ActionParseResult =
  ar_action :: "ParsedAction option"
  ar_reason :: "string option"

definition accepted :: "ActionParseResult \<Rightarrow> bool" where
  "accepted r \<longleftrightarrow> ar_action r \<noteq> None"

definition reject :: "string \<Rightarrow> ActionParseResult" where
  "reject reason = \<lparr>ar_action = None, ar_reason = Some reason\<rparr>"

text \<open>What a caller may pass as the body.\<close>

datatype wire_body = BytesBody "byte list" | TextBody ustring | OtherBody

definition wire_bytes :: "wire_body \<Rightarrow> byte list option" where
  "wire_bytes body =
     (case body of BytesBody bs \<Rightarrow> Some bs | TextBody s \<Rightarrow> utf8_encode s | OtherBody \<Rightarrow> None)"

section \<open>V4: shape of the document\<close>

text \<open>
  The stack of \<open>_valid_extension\<close>; its top is the head of the list, so the children of a
  container are pushed in reverse.
\<close>

fun json_weight :: "'s json \<Rightarrow> nat" and json_list_weight :: "'s json list \<Rightarrow> nat"
  and json_obj_weight :: "('s \<times> 's json) list \<Rightarrow> nat" where
  "json_weight (JArr xs) = Suc (json_list_weight xs)"
| "json_weight (JObj kvs) = Suc (json_obj_weight kvs)"
| "json_weight _ = 1"
| "json_list_weight [] = 0"
| "json_list_weight (x # xs) = json_weight x + json_list_weight xs"
| "json_obj_weight [] = 0"
| "json_obj_weight ((k, v) # kvs) = json_weight v + json_obj_weight kvs"

lemma json_list_weight_append [simp]:
  "json_list_weight (xs @ ys) = json_list_weight xs + json_list_weight ys"
  by (induction xs) simp_all

lemma json_list_weight_rev [simp]: "json_list_weight (rev xs) = json_list_weight xs"
  by (induction xs) simp_all

lemma json_list_weight_values [simp]: "json_list_weight (map snd kvs) = json_obj_weight kvs"
  by (induction kvs) auto

function valid_extension :: "ustring json list \<Rightarrow> bool" where
  "valid_extension [] = True"
| "valid_extension (current # pending) =
     (case current of
        JNull \<Rightarrow> valid_extension pending
      | JBool b \<Rightarrow> valid_extension pending
      | JStr s \<Rightarrow> valid_extension pending
      | JInt n \<Rightarrow> if \<bar>n\<bar> > MAX_EXACT_JSON_INT then False else valid_extension pending
      | JArr xs \<Rightarrow> valid_extension (rev xs @ pending)
      | JObj kvs \<Rightarrow> valid_extension (rev (map snd kvs) @ pending)
      | JFloat t \<Rightarrow> False)"
  by pat_completeness auto
termination by (relation "measure json_list_weight") auto

definition market_char :: "codepoint \<Rightarrow> bool" where
  "market_char c \<longleftrightarrow> (65 \<le> c \<and> c \<le> 90) \<or> (48 \<le> c \<and> c \<le> 57)"

definition market_pattern :: "ustring \<Rightarrow> bool" where
  "market_pattern s \<longleftrightarrow> 1 \<le> length s \<and> length s \<le> 12 \<and> list_all market_char s"

definition intent_ok :: "ustring jobject \<Rightarrow> bool" where
  "intent_ok document \<longleftrightarrow>
     dict_get_default document (ascii ''intent_kind'') (JStr (ascii ''leverage_target''))
       = JStr (ascii ''leverage_target'')"

definition target_shape_ok :: "ustring jobject \<Rightarrow> bool" where
  "target_shape_ok document =
     (case dict_get document (ascii ''target'') of
        JObj target \<Rightarrow> 1 \<le> length target \<and> length target \<le> 16 \<and>
          list_all market_pattern (map fst target)
      | _ \<Rightarrow> False)"

definition comment_ok :: "ustring jobject \<Rightarrow> bool" where
  "comment_ok document =
     (if dict_has document (ascii ''comment'')
      then (case dict_get document (ascii ''comment'') of JStr s \<Rightarrow> length s \<le> 2000 | _ \<Rightarrow> False)
      else True)"

definition usage_ok :: "ustring jobject \<Rightarrow> bool" where
  "usage_ok document =
     (if dict_has document (ascii ''usage'')
      then (case dict_get document (ascii ''usage'') of
              JObj usage \<Rightarrow>
                set (map fst usage) \<subseteq> {ascii ''input_tokens'', ascii ''output_tokens''} \<and>
                list_all (\<lambda>v. case v of JInt n \<Rightarrow> n \<ge> 0 | _ \<Rightarrow> False) (map snd usage)
            | _ \<Rightarrow> False)
      else True)"

definition ext_ok :: "ustring jobject \<Rightarrow> bool" where
  "ext_ok document =
     (if dict_has document (ascii ''ext'')
      then (case dict_get document (ascii ''ext'') of
              JObj ext \<Rightarrow> valid_extension [JObj ext] | _ \<Rightarrow> False)
      else True)"

definition v4_shape_is_valid :: "ustring jobject \<Rightarrow> bool" where
  "v4_shape_is_valid document \<longleftrightarrow> intent_ok document \<and> target_shape_ok document \<and>
     comment_ok document \<and> usage_ok document \<and> ext_ok document"

section \<open>V6: target values\<close>

text \<open>\<open>-?(0|[1-9][0-9]{0,2})(\\.[0-9]{1,4})?\<close> as a full match.\<close>

definition whole_pattern :: "ustring \<Rightarrow> bool" where
  "whole_pattern s \<longleftrightarrow> list_all is_digit_cp s \<and>
     (s = [48] \<or> (1 \<le> length s \<and> length s \<le> 3 \<and> hd s \<noteq> 48))"

definition fraction_pattern :: "ustring \<Rightarrow> bool" where
  "fraction_pattern s \<longleftrightarrow> list_all is_digit_cp s \<and> 1 \<le> length s \<and> length s \<le> 4"

text \<open>\<open>split(".", 1)\<close>; the second part is absent when there is no dot.\<close>

definition split_dot :: "ustring \<Rightarrow> ustring \<times> ustring option" where
  "split_dot s =
     (case dropWhile (\<lambda>c. c \<noteq> 46) s of
        [] \<Rightarrow> (s, None)
      | d # rest \<Rightarrow> (takeWhile (\<lambda>c. c \<noteq> 46) s, Some rest))"

definition target_pattern :: "ustring \<Rightarrow> bool" where
  "target_pattern v =
     (let unsigned = (case v of c # rest \<Rightarrow> if c = 45 then rest else v | [] \<Rightarrow> v)
      in case split_dot unsigned of
           (whole, None) \<Rightarrow> whole_pattern whole
         | (whole, Some fraction) \<Rightarrow> whole_pattern whole \<and> fraction_pattern fraction)"

definition ljust4 :: "ustring \<Rightarrow> ustring" where
  "ljust4 s = s @ replicate (4 - length s) 48"

definition parse_decimal_target :: "ustring \<Rightarrow> int option" where
  "parse_decimal_target v =
     (if \<not> target_pattern v then None
      else
      let negative = (take 1 v = [45]);
          unsigned = (if negative then drop 1 v else v);
          (whole_text, fraction_text) =
            (case split_dot unsigned of (w, None) \<Rightarrow> (w, []) | (w, Some f) \<Rightarrow> (w, f));
          fraction_units =
            (if fraction_text = [] then 0 else int (cp_digits_value (ljust4 fraction_text)));
          units = int (cp_digits_value whole_text) * LEV_SCALE_1E4 + fraction_units
      in Some (if negative then - units else units))"

text \<open>One target; \<open>Inl\<close> carries the reason of the rejection.\<close>

definition parse_target :: "ustring json \<Rightarrow> string + int" where
  "parse_target v =
     (case v of
        JFloat t \<Rightarrow> Inl ''float_target''
      | JInt n \<Rightarrow> Inr (n * LEV_SCALE_1E4)
      | JStr s \<Rightarrow> (case parse_decimal_target s of
                     None \<Rightarrow> Inl ''invalid_target_format'' | Some units \<Rightarrow> Inr units)
      | _ \<Rightarrow> Inl ''invalid_target_format'')"

definition parse_targets :: "ustring jobject \<Rightarrow> ustring list \<Rightarrow> string + (string \<times> int) list" where
  "parse_targets target aliases =
     traverse (\<lambda>alias. and_then (parse_target (dict_get target alias))
                 (\<lambda>units. Inr (map char_of alias, units))) aliases"

section \<open>V8 and the parser\<close>

definition parse_slippage :: "ustring jobject \<Rightarrow> string + int option" where
  "parse_slippage document =
     (if dict_has document (ascii ''max_slippage_bps'')
      then (case dict_get document (ascii ''max_slippage_bps'') of
              JInt n \<Rightarrow> if n < 0 \<or> n > 10000 then Inl ''invalid_slippage'' else Inr (Some n)
            | _ \<Rightarrow> Inl ''invalid_slippage'')
      else Inr None)"

text \<open>V3 to V8 on the decoded document; \<open>Inl\<close> carries the reason.\<close>

definition check_document ::
    "string list \<Rightarrow> ustring json \<Rightarrow> string + ((string \<times> int) list \<times> int option)" where
  "check_document declared decoded =
     (case decoded of
        JObj document \<Rightarrow>
          if dict_get document (ascii ''schema'') \<noteq> JStr (ascii ''action/v1'')
          then Inl ''unknown_schema''
          else if \<not> set (map fst document) \<subseteq> set (map ascii KNOWN_TOP_LEVEL_FIELDS)
          then Inl ''unknown_field''
          else if \<not> v4_shape_is_valid document then Inl ''schema_invalid''
          else
          let target = (case dict_get document (ascii ''target'') of JObj t \<Rightarrow> t | _ \<Rightarrow> []);
              aliases = sort (map fst target)
          in if \<exists>alias \<in> set aliases. alias \<notin> set (map ascii declared)
             then Inl ''unknown_market''
             else and_then (parse_targets target aliases) (\<lambda>parsed_targets.
               if \<exists>p \<in> set parsed_targets. \<bar>snd p\<bar> > MAX_TARGET_LEV_1E4
               then Inl ''target_out_of_range''
               else and_then (parse_slippage document) (\<lambda>slippage.
               Inr (parsed_targets, slippage)))
      | _ \<Rightarrow> Inl ''unknown_schema'')"

definition parse_action ::
    "nat \<Rightarrow> wire_body \<Rightarrow> string list \<Rightarrow> int \<Rightarrow> ActionParseResult result" where
  "parse_action depth body declared_markets from_attempt =
     (case wire_bytes body of
        None \<Rightarrow> Inr (reject ''oversize'')
      | Some raw \<Rightarrow>
          if length raw > MAX_ACTION_BYTES then Inr (reject ''oversize'')
          else (case utf8_decode raw of
            None \<Rightarrow> Inr (reject ''oversize'')
          | Some text \<Rightarrow>
              (case json_loads action_hooks depth text of
                 Inl JSONDecodeError \<Rightarrow> Inr (reject ''invalid_json'')
               | Inl RecursionError \<Rightarrow> Inr (reject ''invalid_json'')
               | Inl (ValueError _) \<Rightarrow> Inr (reject ''invalid_json'')
               | Inl e \<Rightarrow> Inl e
               | Inr decoded \<Rightarrow>
                   (case check_document declared_markets decoded of
                      Inl reason \<Rightarrow> Inr (reject reason)
                    | Inr (targets, slippage) \<Rightarrow>
                        if from_attempt < 1
                        then Inl (ValueError ''from_attempt must be a positive integer'')
                        else Inr \<lparr>ar_action = Some \<lparr>pa_intent_kind = ''leverage_target'',
                               pa_target_lev_1e4 = targets, pa_max_slippage_bps = slippage,
                               pa_from_attempt = from_attempt\<rparr>, ar_reason = None\<rparr>))))"
section \<open>Totality\<close>

lemma action_hooks_safe: "hooks_safe action_hooks"
  by (auto simp: hooks_safe_def action_hooks_def reject_constant_def object_without_duplicates_def
      split: if_splits)

text \<open>The two ways the parser can end.\<close>

lemma parse_action_cases:
  assumes "1 \<le> from_attempt"
  obtains (rejected) reason where "parse_action depth body ms from_attempt = Inr (reject reason)"
  | (parsed) raw uni decoded targets slippage where "wire_bytes body = Some raw"
      "length raw \<le> MAX_ACTION_BYTES" "utf8_decode raw = Some uni"
      "json_loads action_hooks depth uni = Inr decoded"
      "check_document ms decoded = Inr (targets, slippage)"
      "parse_action depth body ms from_attempt = Inr \<lparr>ar_action =
         Some \<lparr>pa_intent_kind = ''leverage_target'', pa_target_lev_1e4 = targets,
               pa_max_slippage_bps = slippage, pa_from_attempt = from_attempt\<rparr>, ar_reason = None\<rparr>"
proof (cases "wire_bytes body")
  case None
  then show thesis by (intro rejected) (simp add: parse_action_def)
next
  case (Some raw)
  show thesis
  proof (cases "MAX_ACTION_BYTES < length raw \<or> utf8_decode raw = None")
    case True
    with Some show thesis by (intro rejected) (auto simp: parse_action_def)
  next
    case False
    then obtain uni where t: "utf8_decode raw = Some uni" "length raw \<le> MAX_ACTION_BYTES" by auto
    show thesis
    proof (cases "json_loads action_hooks depth uni")
      case (Inl e)
      from json_loads_errors[OF action_hooks_safe Inl] Some t Inl show thesis
        by (intro rejected) (auto simp: parse_action_def decode_error_def)
    next
      case (Inr decoded)
      show thesis
      proof (cases "check_document ms decoded")
        case (Inl reason)
        with Some t Inr show thesis by (intro rejected) (simp add: parse_action_def)
      next
        case (Inr p)
        obtain targets slippage where p: "p = (targets, slippage)" by (cases p)
        from parsed[OF Some t(2,1)] \<open>json_loads action_hooks depth uni = Inr decoded\<close> Inr Some t
          assms p show thesis by (simp add: parse_action_def)
      qed
    qed
  qed
qed

section \<open>What an accepted document satisfies\<close>

lemma parse_target_eq_Inr:
  "parse_target v = Inr units \<Longrightarrow> (\<exists>n. v = JInt n \<and> units = n * LEV_SCALE_1E4) \<or>
     (\<exists>s. v = JStr s \<and> parse_decimal_target s = Some units)"
  by (auto simp: parse_target_def split: json.splits option.splits)

lemma parse_targets_fst:
  "parse_targets t aliases = Inr ps \<Longrightarrow> map fst ps = map (map char_of) aliases"
  unfolding parse_targets_def
  by (induction aliases arbitrary: ps) (auto simp: and_then_eq_Inr)

lemma check_document_spec:
  assumes "check_document ms decoded = Inr (targets, slippage)"
  obtains document target where "decoded = JObj document"
    "dict_get document (ascii ''schema'') = JStr (ascii ''action/v1'')"
    "v4_shape_is_valid document" "dict_get document (ascii ''target'') = JObj target"
    "set (map fst target) \<subseteq> set (map ascii ms)"
    "parse_targets target (sort (map fst target)) = Inr targets"
    "\<And>p. p \<in> set targets \<Longrightarrow> \<bar>snd p\<bar> \<le> MAX_TARGET_LEV_1E4"
    "parse_slippage document = Inr slippage"
proof -
  from assms obtain document where d: "decoded = JObj document"
    by (auto simp: check_document_def split: json.splits)
  from assms have v: "v4_shape_is_valid document"
    by (auto simp: d check_document_def split: if_splits)
  then obtain target where t: "dict_get document (ascii ''target'') = JObj target"
    by (auto simp: v4_shape_is_valid_def target_shape_ok_def split: json.splits)
  show thesis
    by (rule that[OF d _ v t]; use assms in \<open>auto simp: d t check_document_def Let_def
        and_then_eq_Inr linorder_not_less [symmetric] split: if_splits\<close>)
qed

lemma parse_slippage_range:
  "parse_slippage d = Inr (Some n) \<Longrightarrow> 0 \<le> n \<and> n \<le> 10000"
  by (auto simp: parse_slippage_def split: if_splits json.splits)

lemma char_of_ascii [simp]: "map char_of (ascii s) = s"
  by (induction s) (simp_all add: ascii_simps)

section \<open>Iterative and recursive validation of extensions\<close>

text \<open>What the iterative walk is meant to decide.\<close>

fun safe_value :: "ustring json \<Rightarrow> bool" and safe_items :: "ustring json list \<Rightarrow> bool"
  and safe_members :: "(ustring \<times> ustring json) list \<Rightarrow> bool" where
  "safe_value (JFloat t) = False"
| "safe_value (JInt n) = (\<bar>n\<bar> \<le> MAX_EXACT_JSON_INT)"
| "safe_value (JArr xs) = safe_items xs"
| "safe_value (JObj kvs) = safe_members kvs"
| "safe_value JNull = True"
| "safe_value (JBool b) = True"
| "safe_value (JStr s) = True"
| "safe_items [] = True"
| "safe_items (x # xs) = (safe_value x \<and> safe_items xs)"
| "safe_members [] = True"
| "safe_members ((k, v) # kvs) = (safe_value v \<and> safe_members kvs)"

lemma safe_items_iff: "safe_items xs \<longleftrightarrow> (\<forall>x \<in> set xs. safe_value x)"
  by (induction xs) simp_all

lemma safe_members_iff: "safe_members kvs \<longleftrightarrow> (\<forall>v \<in> set (map snd kvs). safe_value v)"
  by (induction kvs) auto

lemma valid_extension_iff: "valid_extension pending \<longleftrightarrow> (\<forall>v \<in> set pending. safe_value v)"
  by (induction pending rule: valid_extension.induct)
     (auto simp: safe_items_iff safe_members_iff split: json.splits)

section \<open>Properties\<close>

text \<open>
  Property C22. The parser is total: whatever an agent sends (bytes that are not UTF-8,
  malformed or deeply nested JSON, huge integers, any document), it returns, and returns
  either an action or a reason code, never both and never an exception.
\<close>

theorem parse_action_total:
  assumes "1 \<le> from_attempt"
  shows "\<exists>r. parse_action depth body markets from_attempt = Inr r \<and>
    (ar_action r = None \<longleftrightarrow> ar_reason r \<noteq> None)"
  using assms by (cases rule: parse_action_cases) (auto simp: reject_def)

theorem parse_action_total_witness:
  "\<exists>r. parse_action 0 (BytesBody [0x7B, 0x22]) [''BTC''] 1 = Inr r \<and>
    (ar_action r = None \<longleftrightarrow> ar_reason r \<noteq> None)"
  by (rule parse_action_total) simp


section \<open>A sample reply\<close>

lemma utf8_encode_ascii:
  assumes "list_all (\<lambda>c. of_char c < (128 :: nat)) s"
  shows "utf8_encode (ascii s) = Some (map (of_nat \<circ> of_char) s)"
proof -
  have "concat (map utf8_units (ascii s)) = ascii s"
    using assms by (induction s) (simp_all add: utf8_units_def ascii_simps)
  moreover have "list_all scalar_value (ascii s)"
    using assms by (induction s) (simp_all add: scalar_value_def is_surrogate_def ascii_simps)
  ultimately show ?thesis by (simp add: utf8_encode_def ascii_def)
qed

lemma action_hooks_keep: "keeps_pairs action_hooks"
  by (simp add: keeps_pairs_def action_hooks_def object_without_duplicates_def)

text \<open>A canonical document reaches the checks unchanged but for the order of its keys.\<close>

lemma parse_canonical_document:
  assumes "encode_json v = Inr (ascii s)" "list_all (\<lambda>c. of_char c < (128 :: nat)) s"
    and "length s \<le> MAX_ACTION_BYTES" "dict_like v" "nesting v \<le> depth" "1 \<le> from_attempt"
    and "check_document ms (canonical_form v) = Inr (targets, slippage)"
  shows "\<exists>raw. canonical_bytes v = Inr raw \<and>
    parse_action depth (BytesBody raw) ms from_attempt = Inr \<lparr>ar_action =
      Some \<lparr>pa_intent_kind = ''leverage_target'', pa_target_lev_1e4 = targets,
            pa_max_slippage_bps = slippage, pa_from_attempt = from_attempt\<rparr>, ar_reason = None\<rparr>"
proof -
  note u = utf8_encode_ascii[OF assms(2)]
  have "json_loads action_hooks depth (ascii s) = Inr (canonical_form v)"
    by (rule loads_encoded) (use assms action_hooks_keep in auto)
  with assms(1,3,6,7) u utf8_roundtrip[OF u] show ?thesis
    by (simp add: canonical_bytes_def parse_action_def wire_bytes_def)
qed

definition sample_document :: "ustring json" where
  "sample_document = JObj [(ascii ''schema'', JStr (ascii ''action/v1'')),
     (ascii ''target'', JObj [(ascii ''BTC'', JStr (ascii ''-1.5''))]),
     (ascii ''max_slippage_bps'', JInt 50)]"

definition sample_action :: ParsedAction where
  "sample_action = \<lparr>pa_intent_kind = ''leverage_target'', pa_target_lev_1e4 = [(''BTC'', -15000)],
     pa_max_slippage_bps = Some 50, pa_from_attempt = 1\<rparr>"

lemmas key_eval = sort_members_def sort_key_bytes_def member_key_def utf16_be_encode_def
  scalar_value_def is_surrogate_def utf16_units_def

lemma sample_form: "canonical_form sample_document = JObj
   [(ascii ''max_slippage_bps'', JInt 50), (ascii ''schema'', JStr (ascii ''action/v1'')),
    (ascii ''target'', JObj [(ascii ''BTC'', JStr (ascii ''-1.5''))])]"
  by (simp add: sample_document_def key_eval ascii_simps)

lemma sample_encoded: "encode_json sample_document = Inr (ascii
   ''{\"max_slippage_bps\":50,\"schema\":\"action/v1\",\"target\":{\"BTC\":\"-1.5\"}}'')"
  by (simp add: sample_document_def key_eval ascii_simps join_commas_def encode_string_def
      escape_char_def MAX_SAFE_INT_def show_int_def show_nat.simps digit_char_def)

lemmas target_eval = parse_decimal_target_def target_pattern_def split_dot_def whole_pattern_def
  fraction_pattern_def is_digit_cp_def ljust4_def cp_digits_value_def LEV_SCALE_1E4_def

lemma sample_checked:
  "check_document [''BTC''] (canonical_form sample_document) = Inr ([(''BTC'', -15000)], Some 50)"
proof -
  have m: "market_pattern (ascii ''BTC'')"
    by (simp add: market_pattern_def market_char_def ascii_simps)
  have t: "parse_decimal_target (ascii ''-1.5'') = Some (-15000)"
    by (simp add: target_eval ascii_simps numeral_3_eq_3)
  show ?thesis
    unfolding sample_form
    by (simp add: check_document_def v4_shape_is_valid_def intent_ok_def target_shape_ok_def
        comment_ok_def usage_ok_def ext_ok_def m t KNOWN_TOP_LEVEL_FIELDS_def parse_targets_def
        parse_target_def parse_slippage_def MAX_TARGET_LEV_1E4_def)
qed

lemma sample_parses:
  "\<exists>raw. parse_action 8 (BytesBody raw) [''BTC''] 1
     = Inr \<lparr>ar_action = Some sample_action, ar_reason = None\<rparr>"
proof -
  have "dict_like sample_document" "nesting sample_document \<le> 8"
    by (simp_all add: sample_document_def ascii_simps)
  from parse_canonical_document[OF sample_encoded _ _ this _ sample_checked, of 1]
  show ?thesis by (auto simp: sample_action_def MAX_ACTION_BYTES_def)
qed


text \<open>
  Property C24. The iterative walk over an extension value (an explicit stack instead of
  recursion) decides exactly the recursive condition: no fractional number anywhere and every
  integer exactly representable.
\<close>

theorem extension_walk_is_recursive_check:
  "valid_extension [v] \<longleftrightarrow> safe_value v"
  by (simp add: valid_extension_iff)

end
