(* ===== verification/Scripted.thy ===== *)
theory Scripted
  imports Action
begin

text \<open>
  Model of \<open>harness/scripted.py\<close>: the fixture agent and the two keyless baseline agents, and
  the fact that ties them to the parser: what a baseline sends is accepted as exactly the
  leverage it meant.
\<close>

section \<open>Fixture replay\<close>

type_synonym scripted_turns = "(int \<times> ustring jobject) list"

definition scripted_turn :: "string jobject \<Rightarrow> int option" where
  "scripted_turn observation =
     (case dict_get observation ''episode'' of
        JObj episode \<Rightarrow> (case dict_get episode ''turn'' of JInt n \<Rightarrow> Some n | _ \<Rightarrow> None)
      | _ \<Rightarrow> None)"

definition scripted_decide :: "scripted_turns \<Rightarrow> string jobject \<Rightarrow> agent_outcome" where
  "scripted_decide turns request =
     (case dict_get request ''observation'' of
        JObj observation \<Rightarrow>
          (case scripted_turn observation of
             None \<Rightarrow> AgentFailed ''ValueError''
           | Some turn \<Rightarrow>
               (case map_of turns turn of
                  None \<Rightarrow> TimedOut
                | Some row \<Rightarrow>
                    if dict_get row (ascii ''mode'') = JStr (ascii ''timeout'') then TimedOut
                    else if dict_get row (ascii ''mode'') \<noteq> JStr (ascii ''respond'')
                    then AgentFailed ''ValueError''
                    else (case dict_get row (ascii ''body'') of
                      JStr body \<Rightarrow>
                        (case utf8_encode body of
                           Some bs \<Rightarrow> Replied (in_process_reply bs)
                         | None \<Rightarrow> AgentFailed ''UnicodeEncodeError'')
                    | _ \<Rightarrow> AgentFailed ''ValueError'')))
      | _ \<Rightarrow> AgentFailed ''ValueError'')"

section \<open>Baseline agents\<close>

definition rstrip_zeros :: "string \<Rightarrow> string" where
  "rstrip_zeros s = rev (dropWhile (\<lambda>c. c = CHR ''0'') (rev s))"

definition leverage_string :: "int \<Rightarrow> string" where
  "leverage_string target_lev_1e4 =
     (let whole = nat \<bar>target_lev_1e4\<bar> div 10000; fraction = nat \<bar>target_lev_1e4\<bar> mod 10000
      in (if target_lev_1e4 < 0 then ''-'' else []) @ show_nat whole
         @ (if fraction \<noteq> 0 then ''.'' @ rstrip_zeros (pad4 fraction) else []))"

definition target_action :: "string \<Rightarrow> int \<Rightarrow> string \<Rightarrow> string json" where
  "target_action market target comment = JObj
     [(''schema'', JStr ''action/v1''), (''intent_kind'', JStr ''leverage_target''),
      (''target'', JObj [(market, JStr (leverage_string target))]),
      (''comment'', JStr comment)]"

definition canonical_reply :: "string json \<Rightarrow> agent_outcome" where
  "canonical_reply action =
     (case canonical_bytes (unicode_json action) of
        Inr body \<Rightarrow> Replied (in_process_reply body)
      | Inl e \<Rightarrow> AgentFailed ''CanonicalizationError'')"

record ConstantTargetAgent =
  cta_target_lev_1e4 :: int
  cta_market :: string

definition constant_target_decide :: "ConstantTargetAgent \<Rightarrow> string jobject \<Rightarrow> agent_outcome" where
  "constant_target_decide agent request =
     (case dict_get request ''observation'' of
        JObj observation \<Rightarrow>
          canonical_reply (target_action (cta_market agent) (cta_target_lev_1e4 agent)
            ''constant-target baseline'')
      | _ \<Rightarrow> AgentFailed ''ValueError'')"

record MomentumAgent =
  mma_leverage_lev_1e4 :: int
  mma_market :: string

definition bar_close :: "string json \<Rightarrow> int option" where
  "bar_close bar = (case bar of
     JObj b \<Rightarrow> (case dict_get b ''c'' of JInt c \<Rightarrow> Some c | _ \<Rightarrow> None) | _ \<Rightarrow> None)"

definition momentum_target :: "int \<Rightarrow> string json list \<Rightarrow> int option" where
  "momentum_target leverage bars =
     (if length bars \<ge> 2
      then (case (bar_close (bars ! (length bars - 2)), bar_close (last bars)) of
              (Some prior_close, Some current_close) \<Rightarrow>
                Some (if current_close > prior_close then leverage
                      else if current_close < prior_close then - leverage else 0)
            | _ \<Rightarrow> None)
      else Some 0)"

definition momentum_decide :: "MomentumAgent \<Rightarrow> string jobject \<Rightarrow> agent_outcome" where
  "momentum_decide agent request =
     (case dict_get request ''observation'' of
        JObj observation \<Rightarrow>
          (case dict_get observation ''markets'' of
             JObj markets \<Rightarrow>
               (case dict_get markets (mma_market agent) of
                  JObj market_view \<Rightarrow>
                    (case dict_get market_view ''bars'' of
                       JArr bars \<Rightarrow>
                         (case momentum_target (mma_leverage_lev_1e4 agent) bars of
                            None \<Rightarrow> AgentFailed ''ValueError''
                          | Some target \<Rightarrow>
                              canonical_reply (target_action (mma_market agent) target
                                ''deterministic two-bar momentum reference''))
                     | _ \<Rightarrow> AgentFailed ''ValueError'')
                | _ \<Rightarrow> AgentFailed ''ValueError'')
           | _ \<Rightarrow> AgentFailed ''ValueError'')
      | _ \<Rightarrow> AgentFailed ''ValueError'')"

section \<open>Leverage text is read back exactly\<close>

lemma rstrip_zeros_restore:
  "rstrip_zeros s @ replicate (length s - length (rstrip_zeros s)) (CHR ''0'') = s"
proof -
  let ?z = "\<lambda>c. c = CHR ''0''"
  have "takeWhile ?z (rev s) = replicate (length (takeWhile ?z (rev s))) (CHR ''0'')"
    by (rule replicate_eqI[symmetric, THEN sym]) (auto dest: set_takeWhileD)
  moreover have "length s - length (rstrip_zeros s) = length (takeWhile ?z (rev s))"
    unfolding rstrip_zeros_def length_rev
    by (metis add_diff_cancel_right' length_append length_rev takeWhile_dropWhile_id)
  ultimately show ?thesis
    by (metis rev_append rev_replicate rev_rev_ident rstrip_zeros_def takeWhile_dropWhile_id)
qed

lemma pad4_facts:
  assumes "0 < f" "f < 10000"
  shows "length (pad4 f) = 4" "read_nat (pad4 f) = f" "\<forall>c \<in> set (pad4 f). is_digit c"
    "rstrip_zeros (pad4 f) \<noteq> []" "length (rstrip_zeros (pad4 f)) \<le> 4"
    "\<forall>c \<in> set (rstrip_zeros (pad4 f)). is_digit c"
proof -
  note v = pad4_value[OF assms(2)]
  show len: "length (pad4 f) = 4" and v: "read_nat (pad4 f) = f" and d: "\<forall>c \<in> set (pad4 f). is_digit c"
    by (fact v)+
  show "rstrip_zeros (pad4 f) \<noteq> []"
  proof
    assume "rstrip_zeros (pad4 f) = []"
    then have "pad4 f = replicate 4 (CHR ''0'')"
      using rstrip_zeros_restore[of "pad4 f"] len by simp
    then have "read_nat (pad4 f) = 0"
      using read_nat_zeros[of 4 "[]"] by (simp add: read_nat_def)
    with v assms(1) show False by simp
  qed
  have sub: "length (rstrip_zeros s) \<le> length s" "set (rstrip_zeros s) \<subseteq> set s" for s
    by (auto simp: rstrip_zeros_def length_dropWhile_le dest: set_dropWhileD)
      (metis length_dropWhile_le length_rev)
  from sub[of "pad4 f"] len d show "length (rstrip_zeros (pad4 f)) \<le> 4"
    "\<forall>c \<in> set (rstrip_zeros (pad4 f)). is_digit c" by auto
qed
lemma ljust4_restore:
  assumes "length s = 4"
  shows "ljust4 (ascii (rstrip_zeros s)) = ascii s"
proof -
  have "ascii s = ascii (rstrip_zeros s @ replicate (4 - length (rstrip_zeros s)) (CHR ''0''))"
    using rstrip_zeros_restore[of s] assms by simp
  also have "\<dots> = ljust4 (ascii (rstrip_zeros s))"
    by (simp only: ascii_simps(3) ljust4_def length_ascii) (simp add: ascii_def)
  finally show ?thesis ..
qed

lemma ascii_digits: "\<forall>c \<in> set s. is_digit c \<Longrightarrow> list_all is_digit_cp (ascii s)"
  by (simp add: ascii_def list_all_iff is_digit_cp_ascii)

lemma split_dot_digits:
  assumes "list_all is_digit_cp w"
  shows "split_dot w = (w, None)" "split_dot (w @ 46 # f) = (w, Some f)"
proof -
  have w: "c \<noteq> 46" if "c \<in> set w" for c
    using assms that by (auto simp: list_all_iff is_digit_cp_def)
  then have e: "dropWhile (\<lambda>c. c \<noteq> 46) w = []" by simp
  show "split_dot w = (w, None)" unfolding split_dot_def e by simp
  have "dropWhile (\<lambda>c. c \<noteq> 46) (w @ 46 # f) = 46 # f"
    "takeWhile (\<lambda>c. c \<noteq> 46) (w @ 46 # f) = w"
    using w by (simp_all add: dropWhile_append2 takeWhile_append2)
  then show "split_dot (w @ 46 # f) = (w, Some f)" by (simp add: split_dot_def)
qed

lemma whole_pattern_shown:
  assumes "n < 1000"
  shows "whole_pattern (ascii (show_nat n))"
proof -
  have d: "list_all is_digit_cp (ascii (show_nat n))" by (rule ascii_digits) (simp add: show_nat_digits)
  have l: "length (show_nat n) \<le> 3" by (rule length_show_nat_le) (use assms in auto)
  obtain c cs where h: "ascii (show_nat n) = c # cs" "c = 48 \<longrightarrow> cs = []" by (rule shown_head[of n])
  from h(1) l have "length cs \<le> 2" by (metis length_Cons length_ascii Suc_le_mono numeral_3_eq_3 numeral_2_eq_2)
  with d h show ?thesis by (auto simp: whole_pattern_def)
qed

lemma parse_leverage_string:
  assumes "\<bar>v\<bar> \<le> MAX_TARGET_LEV_1E4"
  shows "parse_decimal_target (ascii (leverage_string v)) = Some v"
proof -
  define w where "w = nat \<bar>v\<bar> div 10000"
  define f where "f = nat \<bar>v\<bar> mod 10000"
  have "nat \<bar>v\<bar> \<le> 9999999" using assms by (simp add: MAX_TARGET_LEV_1E4_def)
  then have w: "w < 1000" by (simp add: w_def less_mult_imp_div_less)
  have fl: "f < 10000" by (simp add: f_def)
  have sum: "int w * 10000 + int f = \<bar>v\<bar>"
    unfolding w_def f_def using div_mult_mod_eq[of "nat \<bar>v\<bar>" 10000] by linarith
  define frac where "frac = (if f \<noteq> 0 then 46 # ascii (rstrip_zeros (pad4 f)) else [])"
  define body where "body = ascii (show_nat w) @ frac"
  have str: "ascii (leverage_string v) = (if v < 0 then [45] else []) @ body"
    by (simp add: leverage_string_def Let_def body_def frac_def ascii_simps flip: w_def f_def)
  obtain c cs where h: "ascii (show_nat w) = c # cs" "is_digit_cp c" by (rule shown_head[of w])
  have hb: "c \<noteq> 45" using h(2) by (auto simp: is_digit_cp_def)
  have d: "list_all is_digit_cp (ascii (show_nat w))" by (rule ascii_digits) (simp add: show_nat_digits)
  have sp: "split_dot body = (ascii (show_nat w),
      if f \<noteq> 0 then Some (ascii (rstrip_zeros (pad4 f))) else None)"
    using split_dot_digits[OF d] by (simp add: body_def frac_def)
  have fp: "fraction_pattern (ascii (rstrip_zeros (pad4 f)))" if "f \<noteq> 0"
    using pad4_facts[of f] that fl ascii_digits[of "rstrip_zeros (pad4 f)"]
    by (simp add: fraction_pattern_def Suc_le_eq)
  have unsigned: "(case ascii (leverage_string v) of c # rest \<Rightarrow> if c = 45 then rest
      else ascii (leverage_string v) | [] \<Rightarrow> ascii (leverage_string v)) = body"
    using hb by (simp add: str body_def h(1))
  have pat: "target_pattern (ascii (leverage_string v))"
    unfolding target_pattern_def unsigned Let_def sp using fp whole_pattern_shown[OF w] by simp
  have neg: "take 1 (ascii (leverage_string v)) = [45] \<longleftrightarrow> v < 0"
    using hb by (simp add: str body_def h(1))
  have uns: "(if v < 0 then drop 1 (ascii (leverage_string v)) else ascii (leverage_string v)) = body"
    by (simp add: str)
  have fu: "cp_digits_value (ljust4 (ascii (rstrip_zeros (pad4 f)))) = f" if "f \<noteq> 0"
    using pad4_facts[of f] that fl by (simp add: ljust4_restore cp_digits_value_ascii)
  have ne: "ascii (rstrip_zeros (pad4 f)) \<noteq> []" if "f \<noteq> 0"
    using pad4_facts(4)[of f] that fl by (simp add: ascii_def)
  show ?thesis
    unfolding parse_decimal_target_def Let_def neg uns sp
    using pat fu ne sum by (auto simp: cp_digits_value_ascii LEV_SCALE_1E4_def)
qed

section \<open>Properties\<close>

text \<open>
  Property C25. The decimal text a baseline agent writes for a leverage is read back by the
  action parser as exactly that leverage, over the whole admissible range: no target is lost
  to formatting (trailing zeros, missing fraction, sign).
\<close>

theorem leverage_text_roundtrip:
  assumes "\<bar>v\<bar> \<le> MAX_TARGET_LEV_1E4"
  shows "parse_target (JStr (ascii (leverage_string v))) = Inr v"
  using parse_leverage_string[OF assms] by (simp add: parse_target_def)

theorem leverage_text_roundtrip_witness:
  "parse_target (JStr (ascii (leverage_string (-15050)))) = Inr (-15050)"
  by (rule leverage_text_roundtrip) (simp add: MAX_TARGET_LEV_1E4_def)

section \<open>A baseline reply is accepted\<close>

lemma digit_plain: "is_digit c \<Longrightarrow> plain_char c"
  by (auto simp: is_digit_def plain_char_def Let_def)

lemma plain_shown: "list_all plain_char (show_nat n)"
  by (auto simp: list_all_iff intro: digit_plain show_nat_digits)

lemma plain_leverage: "list_all plain_char (leverage_string v)"
proof -
  have z: "list_all plain_char (rstrip_zeros (pad4 n))" for n
  proof -
    have "set (rstrip_zeros (pad4 n)) \<subseteq> set (pad4 n)"
      by (auto simp: rstrip_zeros_def dest: set_dropWhileD)
    moreover have "list_all plain_char (pad4 n)"
      by (auto simp: pad4_def list_all_iff is_digit_def intro!: digit_plain dest: show_nat_digits[unfolded is_digit_def])
    ultimately show ?thesis by (auto simp: list_all_iff)
  qed
  show ?thesis
    by (simp add: leverage_string_def Let_def plain_shown z) (simp add: plain_char_def Let_def)
qed

lemma market_plain: "market_pattern (ascii m) \<Longrightarrow> list_all plain_char m"
  by (auto simp: market_pattern_def list_all_iff ascii_def market_char_def plain_char_def Let_def)

definition reply_text :: "string \<Rightarrow> int \<Rightarrow> string \<Rightarrow> string" where
  "reply_text market target comment =
     ''{\"comment\":\"'' @ comment @ ''\",\"intent_kind\":\"leverage_target\",\"schema\":\"action/v1\",\"target\":{\"''
     @ market @ ''\":\"'' @ leverage_string target @ ''\"}}''"

lemma encode_target_action:
  assumes "market_pattern (ascii m)" "list_all plain_char comment"
  shows "encode_json (unicode_json (target_action m v comment)) = Inr (ascii (reply_text m v comment))"
proof -
  have k: "sort_members [(ascii m, e)] = Inr [(ascii m, e)]" for e :: "ustring result"
    by (simp add: sort_members_def sort_key_bytes_def utf16_be_encode_def)
  have s: "sort_members [(ascii ''schema'', a), (ascii ''intent_kind'', b), (ascii ''target'', c),
      (ascii ''comment'', d)] = Inr [(ascii ''comment'', d), (ascii ''intent_kind'', b),
      (ascii ''schema'', a), (ascii ''target'', c)]" for a b c d :: "ustring result"
    by (simp add: key_eval ascii_simps)
  show ?thesis
    by (simp add: target_action_def unicode_json_def k s encode_string_plain[OF market_plain[OF assms(1)]]
        encode_string_plain[OF plain_leverage] encode_string_plain[OF assms(2)] join_commas_def
        reply_text_def ascii_simps(3))
       (simp add: encode_string_def escape_char_def ascii_simps)
qed
lemma plain_is_ascii: "list_all plain_char s \<Longrightarrow> list_all (\<lambda>c. of_char c < (128 :: nat)) s"
  by (auto simp: list_all_iff plain_char_def Let_def)

lemma leverage_string_length:
  assumes "\<bar>v\<bar> \<le> MAX_TARGET_LEV_1E4"
  shows "length (leverage_string v) \<le> 9"
proof -
  define w where "w = nat \<bar>v\<bar> div 10000"
  define f where "f = nat \<bar>v\<bar> mod 10000"
  have "nat \<bar>v\<bar> \<le> 9999999" using assms by (simp add: MAX_TARGET_LEV_1E4_def)
  then have "w < 10 ^ 3" by (simp add: w_def less_mult_imp_div_less)
  then have w: "length (show_nat w) \<le> 3" by (rule length_show_nat_le) simp
  have f: "length (rstrip_zeros (pad4 f)) \<le> 4" if "f \<noteq> 0"
    using pad4_facts(5)[of f] that by (simp add: f_def)
  have "leverage_string v = (if v < 0 then ''-'' else []) @ show_nat w
      @ (if f \<noteq> 0 then ''.'' @ rstrip_zeros (pad4 f) else [])"
    unfolding leverage_string_def Let_def w_def f_def by (rule refl)
  then show ?thesis using w f by (cases "f = 0") simp_all
qed

lemma target_action_checked:
  assumes "market_pattern (ascii m)" "m \<in> set ms" "\<bar>v\<bar> \<le> MAX_TARGET_LEV_1E4" "length c \<le> 2000"
  shows "check_document ms (canonical_form (unicode_json (target_action m v c))) = Inr ([(m, v)], None)"
proof -
  have s: "sort_key member_key [(ascii ''schema'', a), (ascii ''intent_kind'', b), (ascii ''target'', d),
      (ascii ''comment'', e)] = [(ascii ''comment'', e), (ascii ''intent_kind'', b),
      (ascii ''schema'', a), (ascii ''target'', d)]" for a b d e :: "ustring json"
    by (rule sort_members_eq [symmetric])
      (simp add: sort_members_def sort_key_bytes_def utf16_be_encode_def scalar_value_def
        is_surrogate_def utf16_units_def ascii_simps)
  have cf: "canonical_form (unicode_json (target_action m v c)) = JObj
      [(ascii ''comment'', JStr (ascii c)), (ascii ''intent_kind'', JStr (ascii ''leverage_target'')),
       (ascii ''schema'', JStr (ascii ''action/v1'')),
       (ascii ''target'', JObj [(ascii m, JStr (ascii (leverage_string v)))])]"
    by (simp add: target_action_def unicode_json_def s del: sort_key_simps)
      (simp add: member_key_def)
  note p = parse_leverage_string[OF assms(3)]
  show ?thesis
    unfolding cf
    using assms(1,2,4) assms(3)[unfolded linorder_not_less [symmetric]]
    by (simp add: check_document_def v4_shape_is_valid_def
        intent_ok_def target_shape_ok_def comment_ok_def usage_ok_def ext_ok_def
        KNOWN_TOP_LEVEL_FIELDS_def parse_targets_def parse_target_def p parse_slippage_def)
qed

lemma canonical_reply_accepted:
  assumes "market_pattern (ascii m)" "m \<in> set ms" "\<bar>v\<bar> \<le> MAX_TARGET_LEV_1E4"
    and "list_all plain_char c" "length c \<le> 2000" "2 \<le> depth"
  shows "\<exists>reply. canonical_reply (target_action m v c) = Replied reply \<and>
    parse_action depth (BytesBody (rp_body reply)) ms 1 = Inr \<lparr>ar_action =
      Some \<lparr>pa_intent_kind = ''leverage_target'', pa_target_lev_1e4 = [(m, v)],
            pa_max_slippage_bps = None, pa_from_attempt = 1\<rparr>, ar_reason = None\<rparr>"
proof -
  let ?doc = "unicode_json (target_action m v c)"
  have e: "encode_json ?doc = Inr (ascii (reply_text m v c))"
    by (rule encode_target_action) fact+
  have p: "list_all plain_char m" by (rule market_plain) fact
  have l: "list_all (\<lambda>c. of_char c < (128 :: nat)) (reply_text m v c)"
    using plain_is_ascii[OF p] plain_is_ascii[OF assms(4)] plain_is_ascii[OF plain_leverage, of v]
    by (simp add: reply_text_def)
  have "length m \<le> 12" using assms(1) by (simp add: market_pattern_def)
  then have len: "length (reply_text m v c) \<le> MAX_ACTION_BYTES"
    using leverage_string_length[OF assms(3)] assms(5)
    by (simp add: reply_text_def MAX_ACTION_BYTES_def)
  have "dict_like ?doc" "nesting ?doc \<le> depth"
    using assms(6) by (simp_all add: target_action_def unicode_json_def)
  from parse_canonical_document[OF e l len this _ target_action_checked[OF assms(1-3,5)], of 1]
  show ?thesis by (auto simp: canonical_reply_def in_process_reply_def)
qed

text \<open>
  A constant-target baseline agent always gets through: on every request with an
  observation it replies, and the engine's parser accepts the reply as exactly the leverage
  and market it was configured with.
\<close>

theorem constant_baseline_accepted:
  assumes "market_pattern (ascii (cta_market agent))" "cta_market agent \<in> set markets"
    and "\<bar>cta_target_lev_1e4 agent\<bar> \<le> MAX_TARGET_LEV_1E4" "2 \<le> depth"
    and "dict_get request ''observation'' = JObj observation"
  shows "\<exists>reply. constant_target_decide agent request = Replied reply \<and>
    parse_action depth (BytesBody (rp_body reply)) markets 1 = Inr \<lparr>ar_action =
      Some \<lparr>pa_intent_kind = ''leverage_target'',
            pa_target_lev_1e4 = [(cta_market agent, cta_target_lev_1e4 agent)],
            pa_max_slippage_bps = None, pa_from_attempt = 1\<rparr>, ar_reason = None\<rparr>"
  using canonical_reply_accepted[OF assms(1-3) _ _ assms(4), of "''constant-target baseline''"]
    assms(5)
  by (simp add: constant_target_decide_def plain_char_def Let_def)

theorem constant_baseline_accepted_witness:
  "\<exists>reply. constant_target_decide \<lparr>cta_target_lev_1e4 = -10000, cta_market = ''BTC''\<rparr>
      [(''observation'', JObj [])] = Replied reply"
  using constant_baseline_accepted[of "\<lparr>cta_target_lev_1e4 = -10000, cta_market = ''BTC''\<rparr>"
      "[''BTC'']" 2 "[(''observation'', JObj [])]" "[]"]
  by (auto simp: market_pattern_def market_char_def ascii_simps MAX_TARGET_LEV_1E4_def)

end
