(* ===== verification/Observation.thy ===== *)
theory Observation
  imports Pack
begin

text \<open>
  Model of \<open>core/observation.py\<close>: the construction of the document an agent sees, from the
  rows published up to the virtual clock only, with the provenance of every row and the two
  rechecks the builder runs on its own result.
\<close>

definition DAY_MS :: int where "DAY_MS = 86400000"
definition OBS_RATE_SCALE :: int where "OBS_RATE_SCALE = 100000000"
definition OBS_LEV_SCALE :: int where "OBS_LEV_SCALE = 10000"

definition is_lower_hex :: "char \<Rightarrow> bool" where
  "is_lower_hex c \<longleftrightarrow> c \<in> set ''0123456789abcdef''"

definition episode_id_ok :: "string \<Rightarrow> bool" where
  "episode_id_ok s \<longleftrightarrow> take 3 s = ''ep_'' \<and> length s = 19 \<and> list_all is_lower_hex (drop 3 s)"

section \<open>Engine state shown to the agent\<close>

record PositionState =
  ps_qty_base_1e8 :: int
  ps_entry_px_ticks :: "int option"
  ps_margin_micro :: int
  ps_liq_px_ticks :: "int option"

definition flat_position :: PositionState where
  "flat_position = \<lparr>ps_qty_base_1e8 = 0, ps_entry_px_ticks = None, ps_margin_micro = 0,
     ps_liq_px_ticks = None\<rparr>"

definition non_negative_price :: "int option \<Rightarrow> bool" where
  "non_negative_price px = (case px of None \<Rightarrow> False | Some p \<Rightarrow> p \<ge> 0)"

definition make_PositionState :: "int \<Rightarrow> int option \<Rightarrow> int \<Rightarrow> int option \<Rightarrow> PositionState result" where
  "make_PositionState qty entry margin liq =
     (if margin < 0 then Inl (ObservationError ''margin_micro must be an integer >= 0'')
      else if qty = 0 \<and> (entry \<noteq> None \<or> liq \<noteq> None)
      then Inl (ObservationError ''flat positions must use null prices'')
      else if qty = 0 \<and> margin \<noteq> 0
      then Inl (ObservationError ''flat positions must use zero margin'')
      else if qty \<noteq> 0 \<and> (\<not> non_negative_price entry \<or> \<not> non_negative_price liq)
      then Inl (ObservationError
        ''non-flat positions require non-negative entry and liquidation prices'')
      else Inr \<lparr>ps_qty_base_1e8 = qty, ps_entry_px_ticks = entry, ps_margin_micro = margin,
                ps_liq_px_ticks = liq\<rparr>)"

record AccountState =
  as_cash_micro :: int
  as_realized_pnl_micro :: int

record RiskState =
  rs_drawdown_used_1e8 :: int
  rs_turnover_used_1e8 :: int
  rs_kill_switch_active :: bool

definition make_RiskState :: "int \<Rightarrow> int \<Rightarrow> bool \<Rightarrow> RiskState result" where
  "make_RiskState drawdown_used turnover_used kill_switch =
     (if drawdown_used < 0
      then Inl (ObservationError ''drawdown_used_1e8 must be an integer >= 0'')
      else if turnover_used < 0
      then Inl (ObservationError ''turnover_used_1e8 must be an integer >= 0'')
      else Inr \<lparr>rs_drawdown_used_1e8 = drawdown_used, rs_turnover_used_1e8 = turnover_used,
                rs_kill_switch_active = kill_switch\<rparr>)"

section \<open>Provenance\<close>

record MarketObservationProvenance =
  mp_trade_rows :: "RowProvenance list"
  mp_mark_row :: RowProvenance
  mp_index_row :: RowProvenance
  mp_funding_rows :: "RowProvenance list"

record ObservationBuild =
  ob_document :: "string jobject"
  ob_real_clock_ts :: int
  ob_rebase_offset_ms :: int
  ob_provenance :: "(string \<times> MarketObservationProvenance) list"

definition provenance_rows :: "MarketObservationProvenance \<Rightarrow> RowProvenance list" where
  "provenance_rows sources =
     mp_trade_rows sources @ [mp_mark_row sources, mp_index_row sources] @ mp_funding_rows sources"

definition assert_no_future_sources :: "ObservationBuild \<Rightarrow> unit result" where
  "assert_no_future_sources b =
     (if \<exists>(alias, sources) \<in> set (ob_provenance b).
           \<exists>source \<in> set (provenance_rows sources). pv_available_at source > ob_real_clock_ts b
      then Inl (ObservationError ''is from the future'') else Inr ())"

text \<open>\<open>cast\<close> changes nothing at run time; the documents checked here are the builder's own.\<close>

definition as_obj :: "string json \<Rightarrow> string jobject" where
  "as_obj v = (case v of JObj m \<Rightarrow> m | _ \<Rightarrow> [])"

definition as_int :: "string json \<Rightarrow> int" where
  "as_int v = (case v of JInt n \<Rightarrow> n | _ \<Rightarrow> 0)"

definition expected_mark_values :: "string jobject \<Rightarrow> string jobject \<Rightarrow> (int \<times> string json) result" where
  "expected_mark_values market position =
     (let qty = as_int (dict_get position ''qty_base_1e8'');
          mark = as_int (dict_get market ''last_mark_px_ticks'');
          tick_size = as_int (dict_get market ''tick_size_micro'')
      in if qty = 0 then Inr (0, JNull)
         else case dict_get position ''entry_px_ticks'' of
           JNull \<Rightarrow> Inl (ObservationError ''non-flat position has no entry price'')
         | entry \<Rightarrow>
             let expected_upnl = qty * (mark - as_int entry) * tick_size div OBS_RATE_SCALE;
                 liquidation = dict_get position ''liq_px_ticks''
             in if liquidation = JNull \<or> mark \<le> 0
                then Inl (ObservationError ''non-flat position has invalid mark/liquidation'')
                else Inr (expected_upnl,
                       JInt (\<bar>mark - as_int liquidation\<bar> * OBS_RATE_SCALE div mark)))"

definition check_market_mark :: "string jobject \<Rightarrow> string jobject \<Rightarrow> string \<Rightarrow> int \<Rightarrow> int result" where
  "check_market_mark markets positions alias expected_nav =
     (let market = as_obj (dict_get markets alias); position = as_obj (dict_get positions alias) in
      and_then (expected_mark_values market position) (\<lambda>(expected_upnl, expected_distance).
      if dict_get position ''upnl_micro'' \<noteq> JInt expected_upnl
      then Inl (ObservationError ''uPnL does not derive from last_mark_px_ticks'')
      else if dict_get position ''dist_to_liq_1e8'' \<noteq> expected_distance
      then Inl (ObservationError ''liquidation distance uses a different mark'')
      else Inr (expected_nav + (as_int (dict_get position ''margin_micro'') + expected_upnl))))"

definition assert_single_mark_invariant :: "ObservationBuild \<Rightarrow> unit result" where
  "assert_single_mark_invariant b =
     (let markets = as_obj (dict_get (ob_document b) ''markets'');
          positions = as_obj (dict_get (ob_document b) ''position'');
          account = as_obj (dict_get (ob_document b) ''account'')
      in
      and_then (fold_result (check_market_mark markets positions) (sort (map fst markets))
                  (as_int (dict_get account ''cash_micro''))) (\<lambda>expected_nav.
      if dict_get account ''nav_micro'' \<noteq> JInt expected_nav
      then Inl (ObservationError ''account NAV violates the single-mark invariant'')
      else Inr ()))"

section \<open>Derived position values\<close>

definition obs_upnl_micro :: "PositionState \<Rightarrow> int \<Rightarrow> int \<Rightarrow> int" where
  "obs_upnl_micro position mark_px_ticks tick_size_micro =
     (if ps_qty_base_1e8 position = 0 then 0
      else let entry = (case ps_entry_px_ticks position of Some e \<Rightarrow> e | None \<Rightarrow> 0);
               numerator = ps_qty_base_1e8 position * (mark_px_ticks - entry) * tick_size_micro
           in numerator div OBS_RATE_SCALE)"

definition obs_distance_to_liquidation_1e8 :: "PositionState \<Rightarrow> int \<Rightarrow> int option result" where
  "obs_distance_to_liquidation_1e8 position mark_px_ticks =
     (if ps_qty_base_1e8 position = 0 then Inr None
      else if mark_px_ticks \<le> 0
      then Inl (ObservationError ''non-flat position cannot be observed at a non-positive mark'')
      else let liquidation = (case ps_liq_px_ticks position of Some l \<Rightarrow> l | None \<Rightarrow> 0)
           in Inr (Some (\<bar>mark_px_ticks - liquidation\<bar> * OBS_RATE_SCALE div mark_px_ticks)))"

definition obs_notional_micro :: "PositionState \<Rightarrow> int \<Rightarrow> int \<Rightarrow> int" where
  "obs_notional_micro position mark_px_ticks tick_size_micro =
     \<bar>ps_qty_base_1e8 position\<bar> * mark_px_ticks * tick_size_micro div OBS_RATE_SCALE"

definition next_settlement_real_ts :: "int \<Rightarrow> int list \<Rightarrow> int result" where
  "next_settlement_real_ts clock_ts settlement_offsets_ms =
     (if settlement_offsets_ms = []
      then Inl (ObservationError ''funding settlement schedule is empty'')
      else let day_start = (clock_ts div DAY_MS) * DAY_MS
           in case find (\<lambda>offset. day_start + offset > clock_ts) settlement_offsets_ms of
                Some offset \<Rightarrow> Inr (day_start + offset)
              | None \<Rightarrow> Inr (day_start + DAY_MS + hd settlement_offsets_ms))"

definition last_available_bar :: "BarRow list \<Rightarrow> BarRow result" where
  "last_available_bar rows =
     (if rows = [] then Inl (ObservationError ''has no available row'') else Inr (last rows))"

text \<open>\<open>rows[-n:]\<close> for a positive \<open>n\<close>.\<close>

definition last_n :: "int \<Rightarrow> 'a list \<Rightarrow> 'a list" where
  "last_n n rows = drop (length rows - nat n) rows"

section \<open>Documents\<close>

definition position_document :: "PositionState \<Rightarrow> int \<Rightarrow> int \<Rightarrow> (string json \<times> int) result" where
  "position_document position mark_px_ticks tick_size_micro =
     (let upnl = obs_upnl_micro position mark_px_ticks tick_size_micro in
      and_then (obs_distance_to_liquidation_1e8 position mark_px_ticks) (\<lambda>distance.
      Inr (JObj
        [(''qty_base_1e8'', JInt (ps_qty_base_1e8 position)),
         (''entry_px_ticks'', opt_int (ps_entry_px_ticks position)),
         (''upnl_micro'', JInt upnl), (''margin_micro'', JInt (ps_margin_micro position)),
         (''liq_px_ticks'', opt_int (ps_liq_px_ticks position)),
         (''dist_to_liq_1e8'', opt_int distance)], upnl)))"

record market_view =
  mv_document :: "string json"
  mv_mark_row :: BarRow
  mv_index_row :: BarRow
  mv_trade_rows :: "BarRow list"
  mv_funding_rows :: "FundingRow list"

definition market_document :: "MarketData \<Rightarrow> VirtualClock \<Rightarrow> int \<Rightarrow> int \<Rightarrow> market_view result" where
  "market_document market clock bars_lookback funding_lookback =
     (let now = vc_real_ts clock; spec = md_spec market; offset = vc_rebase_offset_ms clock;
          trade_rows = last_n bars_lookback (available_trade market now);
          funding_rows = (if funding_lookback \<noteq> 0
            then last_n funding_lookback (available_funding market now) else [])
      in
      and_then (last_available_bar (available_mark market now)) (\<lambda>mark_row.
      and_then (last_available_bar (available_index market now)) (\<lambda>index_row.
      if trade_rows = [] then Inl (ObservationError ''has no available trade lookback'')
      else
      and_then (next_settlement_real_ts now (fs_settlement_offsets_ms (ms_funding spec)))
        (\<lambda>next_settlement.
      and_then (traverse (\<lambda>row. bar_observation_mapping row offset) trade_rows) (\<lambda>bars.
      and_then (rebase_timestamp next_settlement offset) (\<lambda>next_ts.
      and_then (traverse (\<lambda>row. funding_observation_mapping row offset) funding_rows) (\<lambda>prints.
      Inr \<lparr>mv_document = JObj
             [(''tick_size_micro'', JInt (ms_tick_size_micro spec)),
              (''qty_step_base_1e8'', JInt (ms_qty_step_base_1e8 spec)),
              (''min_notional_micro'', JInt (ms_min_notional_micro spec)),
              (''taker_fee_rate_1e8'', JInt (ms_taker_fee_rate_1e8 spec)),
              (''leverage_cap_lev_1e4'', JInt (ms_leverage_cap_lev_1e4 spec)),
              (''last_mark_px_ticks'', JInt (br_c mark_row)),
              (''last_index_px_ticks'', JInt (br_c index_row)),
              (''bars'', JArr bars),
              (''funding'', JObj
                 [(''interval_ms'', JInt (fs_interval_ms (ms_funding spec))),
                  (''next_settlement_ts'', JInt next_ts),
                  (''cap_1e8'', JInt (fs_cap_1e8 (ms_funding spec))),
                  (''floor_1e8'', JInt (fs_floor_1e8 (ms_funding spec))),
                  (''prints'', JArr prints)])],
           mv_mark_row = mark_row, mv_index_row = index_row, mv_trade_rows = trade_rows,
           mv_funding_rows = funding_rows\<rparr>)))))))"

definition constraint_document :: "string \<Rightarrow> string \<Rightarrow> string \<Rightarrow> int \<Rightarrow> int \<Rightarrow> string \<Rightarrow> string json" where
  "constraint_document constraint_id kind scope limit used unit = JObj
     [(''constraint_id'', JStr constraint_id), (''type'', JStr kind), (''scope'', JStr scope),
      (''limit'', JInt limit), (''used'', JInt used), (''unit'', JStr unit)]"

definition risk_constraints ::
    "EpisodeConfig \<Rightarrow> PackData \<Rightarrow> (string \<times> int) list \<Rightarrow> int \<Rightarrow> RiskState \<Rightarrow> string json list result" where
  "risk_constraints config pack notionals_micro nav_micro risk =
     (if nav_micro \<le> 0
      then Inl (ObservationError ''NAV must be positive while observations continue'')
      else
      and_then (traverse (\<lambda>alias.
          and_then (pack_market pack alias) (\<lambda>market.
          case map_of notionals_micro alias of
            None \<Rightarrow> Inl (KeyError alias)
          | Some notional \<Rightarrow> Inr (constraint_document (''lev-'' @ alias) ''leverage_cap_market'' alias
              (ms_leverage_cap_lev_1e4 (md_spec market)) (notional * OBS_LEV_SCALE div nav_micro)
              ''lev_1e4''))) (market_aliases pack)) (\<lambda>per_market.
      Inr ([constraint_document ''lev-gross'' ''leverage_cap_gross'' ''account''
              (cfg_leverage_cap_gross_lev_1e4 config)
              (sum_list (map snd notionals_micro) * OBS_LEV_SCALE div nav_micro) ''lev_1e4'']
           @ per_market
           @ (case cfg_turnover_cap_1e8 config of
                None \<Rightarrow> []
              | Some cap \<Rightarrow> [constraint_document ''turnover'' ''turnover_cap'' ''account'' cap
                              (rs_turnover_used_1e8 risk) ''1e8''])
           @ [constraint_document ''drawdown-ks'' ''drawdown_kill_switch'' ''account''
                (cfg_drawdown_kill_switch_1e8 config) (rs_drawdown_used_1e8 risk) ''1e8''])))"

section \<open>Building one observation\<close>

text \<open>The results of the loop over the markets, in the order of the aliases.\<close>

record market_part =
  mk_alias :: string
  mk_document :: "string json"
  mk_position_document :: "string json"
  mk_notional :: int
  mk_margin_and_upnl :: int
  mk_provenance :: MarketObservationProvenance

definition market_part_of ::
    "PackData \<Rightarrow> VirtualClock \<Rightarrow> EffectiveLookback \<Rightarrow> (string \<times> PositionState) list \<Rightarrow> string
      \<Rightarrow> market_part result" where
  "market_part_of pack clock effective position_states alias =
     and_then (pack_market pack alias) (\<lambda>market.
     and_then (market_document market clock (lb_bars effective) (lb_funding_prints effective))
       (\<lambda>view.
     let position = (case map_of position_states alias of Some p \<Rightarrow> p | None \<Rightarrow> flat_position);
         mark_px = br_c (mv_mark_row view); tick = ms_tick_size_micro (md_spec market)
     in
     and_then (position_document position mark_px tick) (\<lambda>(document, upnl).
     Inr \<lparr>mk_alias = alias, mk_document = mv_document view, mk_position_document = document,
          mk_notional = obs_notional_micro position mark_px tick,
          mk_margin_and_upnl = ps_margin_micro position + upnl,
          mk_provenance = \<lparr>mp_trade_rows = map br_provenance (mv_trade_rows view),
             mp_mark_row = br_provenance (mv_mark_row view),
             mp_index_row = br_provenance (mv_index_row view),
             mp_funding_rows = map fd_provenance (mv_funding_rows view)\<rparr>\<rparr>)))"

record observation_request =
  oq_episode_id :: string
  oq_turn :: int
  oq_account :: AccountState
  oq_positions :: "(string \<times> PositionState) list"
  oq_risk :: RiskState

definition observation_document ::
    "PackData \<Rightarrow> EpisodeConfig \<Rightarrow> observation_request \<Rightarrow> nat \<Rightarrow> int \<Rightarrow> market_part list \<Rightarrow> int
      \<Rightarrow> string json list \<Rightarrow> string jobject" where
  "observation_document pack config q bars clock_ts parts nav_micro constraints =
     [(''schema'', JStr ''observation/v1''),
      (''episode'', JObj
         [(''episode_id'', JStr (oq_episode_id q)), (''turn'', JInt (oq_turn q)),
          (''bar_index'', JInt (oq_turn q)), (''bars_total'', JInt (int bars)),
          (''bars_remaining'', JInt (int bars - oq_turn q - 1)),
          (''decision_bar_ms'', JInt (pk_decision_bar_ms pack)),
          (''response_deadline_ms'', JInt (cfg_response_deadline_ms config))]),
      (''clock_ts'', JInt clock_ts),
      (''markets'', JObj (map (\<lambda>p. (mk_alias p, mk_document p)) parts)),
      (''position'', JObj (map (\<lambda>p. (mk_alias p, mk_position_document p)) parts)),
      (''account'', JObj
         [(''nav_micro'', JInt nav_micro), (''cash_micro'', JInt (as_cash_micro (oq_account q))),
          (''realized_pnl_micro'', JInt (as_realized_pnl_micro (oq_account q)))]),
      (''risk'', JObj
         [(''constraints'', JArr constraints),
          (''kill_switch_active'', JBool (rs_kill_switch_active (oq_risk q)))])]"

text \<open>The result object, before the builder rechecks it.\<close>

definition draft_observation ::
    "PackData \<Rightarrow> EpisodeConfig \<Rightarrow> observation_request \<Rightarrow> ObservationBuild result" where
  "draft_observation pack config q =
     (if \<not> episode_id_ok (oq_episode_id q)
      then Inl (ObservationError ''episode_id must match ep_<16 lowercase hex>'')
      else
      and_then (bars_total pack) (\<lambda>bars.
      if oq_turn q < 0 \<or> oq_turn q \<ge> int bars
      then Inl (ObservationError ''turn is outside the episode'')
      else if \<not> set (map fst (oq_positions q)) \<subseteq> set (market_aliases pack)
      then Inl (ObservationError ''positions contain unknown markets'')
      else
      and_then (effective_lookback config (lb_bars (pk_default_lookback pack))
                  (lb_funding_prints (pk_default_lookback pack))) (\<lambda>effective.
      and_then (traverse (\<lambda>alias. and_then (pack_market pack alias) (\<lambda>market.
                  validate_cost_profiles config
                    (ms_cost_profile_multipliers_1e4 (md_spec market))))
                  (market_aliases pack)) (\<lambda>_.
      and_then (clock_real_ts pack (nat (oq_turn q))) (\<lambda>real_ts.
      and_then (clock_for_window (pk_window_start_ts pack) real_ts) (\<lambda>clock.
      and_then (traverse (market_part_of pack clock effective (oq_positions q))
                  (market_aliases pack)) (\<lambda>parts.
      let nav_micro = as_cash_micro (oq_account q) + sum_list (map mk_margin_and_upnl parts) in
      and_then (rebased_ts clock) (\<lambda>clock_ts.
      and_then (risk_constraints config pack (map (\<lambda>p. (mk_alias p, mk_notional p)) parts)
                  nav_micro (oq_risk q)) (\<lambda>constraints.
      Inr \<lparr>ob_document = observation_document pack config q bars clock_ts parts nav_micro
             constraints,
           ob_real_clock_ts = vc_real_ts clock,
           ob_rebase_offset_ms = vc_rebase_offset_ms clock,
           ob_provenance = map (\<lambda>p. (mk_alias p, mk_provenance p)) parts\<rparr>)))))))))"

definition build_observation ::
    "PackData \<Rightarrow> EpisodeConfig \<Rightarrow> observation_request \<Rightarrow> ObservationBuild result" where
  "build_observation pack config q =
     and_then (draft_observation pack config q) (\<lambda>build.
     and_then (assert_no_future_sources build) (\<lambda>_.
     and_then (assert_single_mark_invariant build) (\<lambda>_.
     Inr build)))"

end
