(* ===== verification/Json_Bytes.thy ===== *)
theory Json_Bytes
  imports Json_Decode
begin

text \<open>
  \<open>json.loads\<close> applied to bytes: the encoding is detected from a byte order mark or from the
  position of the zero bytes, and the text is decoded with the \<open>surrogatepass\<close> handler.
\<close>

section \<open>Decoders\<close>

fun utf16_code_units :: "bool \<Rightarrow> nat list \<Rightarrow> nat list option" where
  "utf16_code_units big [] = Some []"
| "utf16_code_units big [b] = None"
| "utf16_code_units big (a # b # rest) =
     map_option ((#) (if big then a * 256 + b else b * 256 + a)) (utf16_code_units big rest)"

fun utf16_join :: "nat list \<Rightarrow> ustring" where
  "utf16_join [] = []"
| "utf16_join (u # us) =
     (case us of
        [] \<Rightarrow> [u]
      | v # vs \<Rightarrow>
          if is_high_surrogate u \<and> is_low_surrogate v
          then (0x10000 + (u - 0xD800) * 0x400 + (v - 0xDC00)) # utf16_join vs
          else u # utf16_join us)"

definition utf16_decode :: "bool \<Rightarrow> nat list \<Rightarrow> ustring option" where
  "utf16_decode big bs = map_option utf16_join (utf16_code_units big bs)"

fun utf32_decode :: "bool \<Rightarrow> nat list \<Rightarrow> ustring option" where
  "utf32_decode big [] = Some []"
| "utf32_decode big (a # b # c # d # rest) =
     (let v = (if big then ((a * 256 + b) * 256 + c) * 256 + d
               else ((d * 256 + c) * 256 + b) * 256 + a)
      in if v \<le> 0x10FFFF then map_option ((#) v) (utf32_decode big rest) else None)"
| "utf32_decode big _ = None"

section \<open>Detection of the encoding\<close>

datatype json_encoding = Utf8 | Utf8_Sig | Utf16 bool | Utf32 bool | Utf16_Bom bool | Utf32_Bom bool

text \<open>The flag is true for big-endian; a variant with a mark drops it before decoding.\<close>

definition detect_encoding :: "nat list \<Rightarrow> json_encoding" where
  "detect_encoding b =
     (if take 4 b = [0, 0, 0xFE, 0xFF] then Utf32_Bom True
      else if take 4 b = [0xFF, 0xFE, 0, 0] then Utf32_Bom False
      else if take 2 b = [0xFE, 0xFF] then Utf16_Bom True
      else if take 2 b = [0xFF, 0xFE] then Utf16_Bom False
      else if take 3 b = [0xEF, 0xBB, 0xBF] then Utf8_Sig
      else if 4 \<le> length b
      then (if b ! 0 = 0 then (if b ! 1 \<noteq> 0 then Utf16 True else Utf32 True)
            else if b ! 1 = 0 then (if b ! 2 \<noteq> 0 \<or> b ! 3 \<noteq> 0 then Utf16 False else Utf32 False)
            else Utf8)
      else if length b = 2
      then (if b ! 0 = 0 then Utf16 True else if b ! 1 = 0 then Utf16 False else Utf8)
      else Utf8)"

definition decode_surrogatepass :: "json_encoding \<Rightarrow> nat list \<Rightarrow> ustring option" where
  "decode_surrogatepass enc b =
     (case enc of
        Utf8 \<Rightarrow> utf8_decode_units True b
      | Utf8_Sig \<Rightarrow> utf8_decode_units True (drop 3 b)
      | Utf16 big \<Rightarrow> utf16_decode big b
      | Utf16_Bom big \<Rightarrow> utf16_decode big (drop 2 b)
      | Utf32 big \<Rightarrow> utf32_decode big b
      | Utf32_Bom big \<Rightarrow> utf32_decode big (drop 4 b))"

text \<open>
  For bytes the library does not look for a byte order mark in the decoded text, but a
  text that starts with one is no JSON value, so the error is the same.
\<close>

definition json_loads_bytes :: "json_hooks \<Rightarrow> nat \<Rightarrow> byte list \<Rightarrow> ustring json result" where
  "json_loads_bytes h depth raw =
     (let b = map unat raw
      in case decode_surrogatepass (detect_encoding b) b of
           None \<Rightarrow> Inl UnicodeDecodeError
         | Some text \<Rightarrow> json_loads h depth text)"

section \<open>Plain UTF-8 texts\<close>

text \<open>A strict decoder that succeeds agrees with the lenient one.\<close>

definition extends :: "'a option \<Rightarrow> 'a option \<Rightarrow> bool" where
  "extends x y \<longleftrightarrow> (\<forall>r. x = Some r \<longrightarrow> y = Some r)"

lemma extends_rules:
  "extends x x" "extends None y" "extends x y \<Longrightarrow> extends (map_option f x) (map_option f y)"
  "(c \<Longrightarrow> extends x y) \<Longrightarrow> (\<not> c \<Longrightarrow> extends x' y') \<Longrightarrow> extends (if c then x else x') (if c then y else y')"
  "extends n m \<Longrightarrow> (\<And>b bs. extends (f b bs) (g b bs)) \<Longrightarrow>
     extends (case l of [] \<Rightarrow> n | b # bs \<Rightarrow> f b bs) (case l of [] \<Rightarrow> m | b # bs \<Rightarrow> g b bs)"
  by (auto simp: extends_def split: list.splits)

lemma extends_weaker_test: "(c \<Longrightarrow> d) \<Longrightarrow> (c \<Longrightarrow> extends x y) \<Longrightarrow> extends (if c then x else None) (if d then y else None)"
  by (auto simp: extends_def)

lemma utf8_char_lenient: "extends (utf8_char pass a bs) (utf8_char True a bs)"
  unfolding utf8_char_def Let_def
  by (intro extends_rules extends_weaker_test) blast+

lemma strict_extends: "extends (utf8_decode_units pass b) (utf8_decode_units True b)"
  by (induction pass b rule: utf8_decode_units.induct)
     (use utf8_char_lenient in \<open>fastforce simp: extends_def split: option.splits\<close>)+

lemma strict_then_lenient:
  "utf8_decode_units pass b = Some t \<Longrightarrow> utf8_decode_units True b = Some t"
  using strict_extends[of pass b] by (simp add: extends_def)

text \<open>No zero among the first two bytes and no mark: the text is read as UTF-8.\<close>

lemma detect_utf8:
  assumes "utf8_decode_units False b = Some t" "b \<noteq> [] \<Longrightarrow> b ! 0 \<noteq> 0"
    "2 \<le> length b \<Longrightarrow> b ! 1 \<noteq> 0" "take 1 t \<noteq> [0xFEFF]"
  shows "detect_encoding b = Utf8"
proof -
  have m: "take 2 b \<noteq> [0xFE, 0xFF]" "take 2 b \<noteq> [0xFF, 0xFE]"
  proof -
    have "utf8_decode_units False (0xFE # 0xFF # r) = None"
      "utf8_decode_units False (0xFF # 0xFE # r) = None" for r
      by (simp_all add: utf8_char_def continuation_def)
    then show "take 2 b \<noteq> [0xFE, 0xFF]" "take 2 b \<noteq> [0xFF, 0xFE]"
      using assms(1) append_take_drop_id[of 2 b] by (metis append_Cons append_Nil option.distinct(1))+
  qed
  have s: "take 3 b \<noteq> [0xEF, 0xBB, 0xBF]"
  proof
    assume "take 3 b = [0xEF, 0xBB, 0xBF]"
    then obtain r where "b = [0xEF, 0xBB, 0xBF] @ r" by (metis append_take_drop_id)
    with assms(1) have "take 1 t = [0xFEFF]"
      by (auto simp: utf8_char_def continuation_def is_surrogate_def)
    with assms(4) show False ..
  qed
  have q: "take 4 b \<noteq> [0, 0, 0xFE, 0xFF]" "take 4 b \<noteq> [0xFF, 0xFE, 0, 0]"
  proof -
    show "take 4 b \<noteq> [0, 0, 0xFE, 0xFF]"
    proof
      assume "take 4 b = [0, 0, 0xFE, 0xFF]"
      then have "b \<noteq> []" "hd b = 0" by (metis take_Nil list.distinct(1), metis hd_take list.sel(1) zero_less_numeral)
      with assms(2) show False by (simp add: hd_conv_nth)
    qed
    have "take 2 b = take 2 (take 4 b)" by (simp add: min_def)
    with m(2) show "take 4 b \<noteq> [0xFF, 0xFE, 0, 0]" by force
  qed
  have n: "b ! 0 \<noteq> 0 \<and> b ! 1 \<noteq> 0" if "2 \<le> length b"
    using that assms(2,3) by (cases b) auto
  show ?thesis
  proof (cases "2 \<le> length b")
    case True
    from n[OF True] m s q show ?thesis by (simp only: detect_encoding_def if_False simp_thms if_cancel)
  next
    case False
    then have "\<not> 4 \<le> length b" "length b \<noteq> 2" by linarith+
    with m s q show ?thesis by (simp only: detect_encoding_def if_False simp_thms)
  qed
qed

end
