(* ===== verification/Engine_Decision.thy ===== *)
theory Engine_Decision
  imports Action Json_Bytes Canonical "HOL-Library.AList" "HOL-Library.Multiset"
    "HOL-Library.Product_Lexorder"
begin

text \<open>
  How \<open>core/engine.py\<close> asks an agent for a decision: one request, a single retry after a
  reply that does not parse, the facts of the trusted harness drained around every call, the
  advisory token usage read from the reply, and the harness facts merged before they are
  recorded. The agent itself is a parameter: a state and two operations on it.
\<close>

section \<open>The agent and its side channel\<close>

text \<open>What \<open>drain_harness_events\<close> may do; an item may be something other than an event.\<close>

datatype drained_item = Fact HarnessEvent | ForeignItem

datatype drain_outcome = DrainRaised string | DrainedOther | Drained "drained_item list"

text \<open>\<open>ag_drain\<close> is \<open>None\<close> for an agent without the optional side channel.\<close>

record 'st agent =
  ag_decide :: "string json \<Rightarrow> 'st \<Rightarrow> agent_outcome \<times> 'st"
  ag_drain :: "('st \<Rightarrow> drain_outcome \<times> 'st) option"

definition MAX_IJSON_INT :: int where "MAX_IJSON_INT = 2 ^ 53 - 1"

definition egress_protocols :: "string list" where
  "egress_protocols = [''https'', ''dns'', ''tcp'', ''udp'', ''other'']"

definition validate_drained :: "drained_item \<Rightarrow> HarnessEvent result" where
  "validate_drained item =
     (case item of
        ForeignItem \<Rightarrow> Inl (EngineError ''drain_harness_events returned a non-HarnessEvent'')
      | Fact e \<Rightarrow>
          let payload = he_payload e in
          if he_type e \<noteq> ''EgressBlocked'' then Inl (EngineError ''unsupported harness event type'')
          else if set (map fst payload) \<noteq> {''destination'', ''port'', ''protocol'', ''count''}
          then Inl (EngineError ''EgressBlocked payload must contain exactly destination, port, protocol, count'')
          else case dict_get payload ''destination'' of
            JStr destination \<Rightarrow>
              if \<not> (case dict_get payload ''port'' of
                       JNull \<Rightarrow> True | JInt p \<Rightarrow> 0 \<le> p \<and> p \<le> 65535 | _ \<Rightarrow> False)
              then Inl (EngineError ''EgressBlocked.port must be null or an integer from 0 to 65535'')
              else (case dict_get payload ''protocol'' of
                JArr _ \<Rightarrow> Inl (TypeError ''unhashable type'')
              | JObj _ \<Rightarrow> Inl (TypeError ''unhashable type'')
              | JStr protocol \<Rightarrow>
                  if protocol \<notin> set egress_protocols
                  then Inl (EngineError ''EgressBlocked.protocol is unsupported'')
                  else (case dict_get payload ''count'' of
                    JInt amount \<Rightarrow>
                      if 1 \<le> amount \<and> amount \<le> MAX_IJSON_INT
                      then Inr \<lparr>he_type = ''EgressBlocked'', he_payload =
                        [(''destination'', JStr destination), (''port'', dict_get payload ''port''),
                         (''protocol'', JStr protocol), (''count'', JInt amount)]\<rparr>
                      else Inl (EngineError ''EgressBlocked.count must be a positive I-JSON-safe integer'')
                  | _ \<Rightarrow> Inl (EngineError ''EgressBlocked.count must be a positive I-JSON-safe integer''))
              | _ \<Rightarrow> Inl (EngineError ''EgressBlocked.protocol is unsupported''))
          | _ \<Rightarrow> Inl (EngineError ''EgressBlocked.destination must be a string''))"

definition drain_harness_events :: "'st agent \<Rightarrow> 'st \<Rightarrow> (HarnessEvent list \<times> 'st) result" where
  "drain_harness_events agent st =
     (case ag_drain agent of
        None \<Rightarrow> Inr ([], st)
      | Some drain \<Rightarrow>
          (case drain st of
             (DrainRaised name, _) \<Rightarrow>
               Inl (EngineError (''trusted harness event drain failed: '' @ name))
           | (DrainedOther, _) \<Rightarrow> Inl (EngineError ''drain_harness_events must return a tuple'')
           | (Drained items, st') \<Rightarrow>
               and_then (traverse validate_drained items) (\<lambda>events. Inr (events, st'))))"

section \<open>Merging harness facts\<close>

type_synonym block_key = "string \<times> int option \<times> string"

definition block_key_of :: "HarnessEvent \<Rightarrow> block_key" where
  "block_key_of e = (let payload = he_payload e in
     (case dict_get payload ''destination'' of JStr s \<Rightarrow> s | _ \<Rightarrow> [],
      case dict_get payload ''port'' of JInt p \<Rightarrow> Some p | _ \<Rightarrow> None,
      case dict_get payload ''protocol'' of JStr s \<Rightarrow> s | _ \<Rightarrow> []))"

definition block_count_of :: "HarnessEvent \<Rightarrow> int" where
  "block_count_of e = (case dict_get (he_payload e) ''count'' of JInt n \<Rightarrow> n | _ \<Rightarrow> 0)"

definition add_block :: "HarnessEvent \<Rightarrow> (block_key \<times> int) list \<Rightarrow> (block_key \<times> int) list result" where
  "add_block e counts =
     (let key = block_key_of e;
          combined = (case map_of counts key of Some n \<Rightarrow> n | None \<Rightarrow> 0) + block_count_of e
      in if combined > MAX_IJSON_INT
         then Inl (EngineError ''coalesced EgressBlocked.count exceeds the I-JSON safe range'')
         else Inr (AList.update key combined counts))"

definition block_order :: "block_key \<Rightarrow> string \<times> int \<times> string" where
  "block_order key = (case key of (destination, port, protocol) \<Rightarrow>
     (destination, case port of None \<Rightarrow> -1 | Some p \<Rightarrow> p, protocol))"

definition block_event :: "block_key \<times> int \<Rightarrow> HarnessEvent" where
  "block_event kc = (case kc of ((destination, port, protocol), amount) \<Rightarrow>
     \<lparr>he_type = ''EgressBlocked'', he_payload =
        [(''destination'', JStr destination), (''port'', opt_int port),
         (''protocol'', JStr protocol), (''count'', JInt amount)]\<rparr>)"

definition coalesce_harness_events :: "HarnessEvent list \<Rightarrow> HarnessEvent list result" where
  "coalesce_harness_events events =
     and_then (fold_result add_block events []) (\<lambda>counts.
       Inr (map block_event (sort_key (block_order \<circ> fst) counts)))"

section \<open>Reading the reply\<close>

definition dict_of_pairs :: "('k \<times> 'v) list \<Rightarrow> ('k \<times> 'v) list" where
  "dict_of_pairs pairs = fold (\<lambda>(k, v) d. AList.update k v d) pairs []"

text \<open>\<open>json.loads(raw, parse_float=str, parse_constant=str)\<close>.\<close>

definition usage_hooks :: json_hooks where
  "usage_hooks = \<lparr>jh_float = (\<lambda>t. Inr (JStr t)), jh_constant = (\<lambda>t. Inr (JStr t)),
     jh_pairs = (\<lambda>ps. Inr (JObj (dict_of_pairs ps)))\<rparr>"

definition usage_of :: "ustring json \<Rightarrow> string json" where
  "usage_of value =
     (case value of
        JObj members \<Rightarrow>
          (case dict_get members (ascii ''usage'') of
             JObj usage \<Rightarrow>
               (case (dict_get usage (ascii ''input_tokens''), dict_get usage (ascii ''output_tokens'')) of
                  (JInt i, JInt j) \<Rightarrow>
                    if i < 0 \<or> j < 0 then JNull
                    else JObj [(''input_tokens'', JInt i), (''output_tokens'', JInt j)]
                | _ \<Rightarrow> JNull)
           | _ \<Rightarrow> JNull)
      | _ \<Rightarrow> JNull)"

text \<open>Only two kinds of exception are caught.\<close>

definition extract_token_usage :: "nat \<Rightarrow> byte list \<Rightarrow> string json result" where
  "extract_token_usage depth raw =
     (case json_loads_bytes usage_hooks depth raw of
        Inr value \<Rightarrow> Inr (usage_of value)
      | Inl e \<Rightarrow> if e = UnicodeDecodeError \<or> e = JSONDecodeError then Inr JNull else Inl e)"

definition DETAIL_INVALID_JSON :: string where
  "DETAIL_INVALID_JSON = ''response is not a single valid JSON document''"

definition parse_detail :: "string \<Rightarrow> string" where
  "parse_detail reason =
     (case map_of
        [(''oversize'', ''response exceeds 65536 bytes or is not valid UTF-8''),
         (''invalid_json'', DETAIL_INVALID_JSON),
         (''unknown_schema'', ''response schema is missing or not action/v1''),
         (''schema_invalid'', ''response does not validate against action/v1''),
         (''unknown_field'', ''response contains an unknown top-level field''),
         (''unknown_market'', ''target names a market not declared by the pack''),
         (''invalid_target_format'', ''target leverage must be a decimal string or integer''),
         (''float_target'', ''fractional JSON targets are forbidden; send a decimal string''),
         (''target_out_of_range'', ''target leverage exceeds the structural sanity bound''),
         (''invalid_slippage'', ''max_slippage_bps must be an integer from 0 through 10000'')] reason of
        Some detail \<Rightarrow> detail | None \<Rightarrow> reason)"

section \<open>Requesting a decision\<close>

text \<open>The local variables of the loop over the two attempts.\<close>

record attempt_state =
  at_responses :: "AgentReply list"
  at_harness_events :: "HarnessEvent list"
  at_first_failure :: "ActionParseResult option"
  at_first_raw_sha :: "string option"

definition first_reason_of :: "attempt_state \<Rightarrow> string option" where
  "first_reason_of a = (case at_first_failure a of None \<Rightarrow> None | Some f \<Rightarrow> ar_reason f)"

definition retry_of :: "int \<Rightarrow> attempt_state \<Rightarrow> string json result" where
  "retry_of attempt a =
     (if attempt = 2
      then (case (first_reason_of a, at_first_raw_sha a) of
              (Some reason, Some sha) \<Rightarrow> Inr (JObj
                [(''reason'', JStr reason), (''detail'', JStr (parse_detail reason)),
                 (''prior_raw_sha256'', JStr sha)])
            | _ \<Rightarrow> Inl (EngineError ''retry requested without a first parse failure''))
      else Inr JNull)"

definition runner_request :: "int \<Rightarrow> string jobject \<Rightarrow> string json \<Rightarrow> string json" where
  "runner_request attempt observation retry = JObj
     [(''schema'', JStr ''runner_request/v1''), (''attempt'', JInt attempt),
      (''observation'', JObj observation), (''retry'', retry)]"

definition prior_error :: "attempt_state \<Rightarrow> string json" where
  "prior_error a =
     (case first_reason_of a of
        None \<Rightarrow> JNull | Some reason \<Rightarrow> JStr (reason @ '': '' @ parse_detail reason))"

definition rejection :: "string \<Rightarrow> string \<Rightarrow> string json \<Rightarrow> int \<Rightarrow> string jobject" where
  "rejection reason detail validator_error attempts =
     [(''reason'', JStr reason), (''detail'', JStr detail),
      (''validator_error'', validator_error), (''attempts'', JInt attempts)]"

definition missed_decision ::
    "attempt_state \<Rightarrow> HarnessEvent list \<Rightarrow> string \<Rightarrow> string \<Rightarrow> int \<Rightarrow> TurnDecision" where
  "missed_decision a harness_events reason detail attempt =
     \<lparr>td_responses = at_responses a, td_harness_events = harness_events, td_parsed = None,
      td_rejection = Some (rejection reason detail (prior_error a) attempt),
      td_raw_sha256 = at_first_raw_sha a\<rparr>"

text \<open>Any HTTP 4xx counts as a malformed reply, whatever its body.\<close>

definition interpret_reply ::
    "nat \<Rightarrow> string list \<Rightarrow> int \<Rightarrow> AgentReply \<Rightarrow> ActionParseResult result" where
  "interpret_reply depth aliases attempt reply =
     (if (case rp_http_status reply of None \<Rightarrow> False | Some s \<Rightarrow> 400 \<le> s \<and> s \<le> 499)
      then Inr \<lparr>ar_action = None, ar_reason = Some ''schema_invalid''\<rparr>
      else parse_action depth (BytesBody (rp_body reply)) aliases attempt)"

definition malformed_decision ::
    "attempt_state \<Rightarrow> string \<Rightarrow> string \<Rightarrow> int \<Rightarrow> TurnDecision" where
  "malformed_decision a raw_sha reason attempt =
     (let detail = parse_detail reason;
          first_reason = (case first_reason_of a of Some r \<Rightarrow> r | None \<Rightarrow> reason)
      in \<lparr>td_responses = at_responses a, td_harness_events = at_harness_events a, td_parsed = None,
          td_rejection = Some (rejection reason
            (if attempt = 2 then ''attempt '' @ show_int attempt @ '': '' @ detail else detail)
            (if attempt = 1 then JNull
             else JStr (first_reason @ '': '' @ parse_detail first_reason)) attempt),
          td_raw_sha256 = Some raw_sha\<rparr>)"

text \<open>One iteration: either the decision of the turn, or the state for the retry.\<close>

definition after_reply ::
    "nat \<Rightarrow> EpisodeConfig \<Rightarrow> string list \<Rightarrow> int \<Rightarrow> AgentReply \<Rightarrow> attempt_state
      \<Rightarrow> (TurnDecision + attempt_state) result" where
  "after_reply depth config aliases attempt reply a =
     (let raw_sha = sha256_prefixed (rp_body reply) in
      and_then (interpret_reply depth aliases attempt reply) (\<lambda>parse.
      if accepted parse
      then Inr (Inl \<lparr>td_responses = at_responses a, td_harness_events = at_harness_events a,
             td_parsed = ar_action parse, td_rejection = None, td_raw_sha256 = Some raw_sha\<rparr>)
      else if attempt = 1 \<and> cfg_parse_failure_retries config \<noteq> 0
      then Inr (Inr (a\<lparr>at_first_failure := Some parse, at_first_raw_sha := Some raw_sha\<rparr>))
      else Inr (Inl (malformed_decision a raw_sha
             (case ar_reason parse of Some r \<Rightarrow> r | None \<Rightarrow> []) attempt))))"

definition decide_attempt ::
    "nat \<Rightarrow> 'st agent \<Rightarrow> EpisodeConfig \<Rightarrow> string list \<Rightarrow> string jobject \<Rightarrow> int \<Rightarrow> attempt_state \<Rightarrow> 'st
      \<Rightarrow> ((TurnDecision + attempt_state) \<times> 'st) result" where
  "decide_attempt depth agent config aliases observation attempt a st =
     and_then (retry_of attempt a) (\<lambda>retry.
     case ag_decide agent (runner_request attempt observation retry) st of
       (TimedOut, st') \<Rightarrow>
         and_then (drain_harness_events agent st') (\<lambda>(facts, st'').
         Inr (Inl (missed_decision a (at_harness_events a @ facts) ''timeout''
           (''no response bytes within response_deadline_ms=''
             @ show_int (cfg_response_deadline_ms config)) attempt), st''))
     | (AgentFailed name, st') \<Rightarrow>
         and_then (drain_harness_events agent st') (\<lambda>(facts, st'').
         Inr (Inl (missed_decision a (at_harness_events a @ facts) ''agent_error''
           (''agent transport failed: '' @ name) attempt), st''))
     | (Replied reply, st') \<Rightarrow>
         and_then (drain_harness_events agent st') (\<lambda>(facts, st'').
         and_then (after_reply depth config aliases attempt reply
                     (a\<lparr>at_responses := at_responses a @ [reply],
                        at_harness_events := at_harness_events a @ facts\<rparr>)) (\<lambda>next_step.
         Inr (next_step, st''))))"

fun decide_loop ::
    "nat \<Rightarrow> 'st agent \<Rightarrow> EpisodeConfig \<Rightarrow> string list \<Rightarrow> string jobject \<Rightarrow> int list \<Rightarrow> attempt_state \<Rightarrow> 'st
      \<Rightarrow> (TurnDecision \<times> 'st) result" where
  "decide_loop depth agent config aliases observation [] a st =
     Inl (EngineError ''unreachable agent-attempt state'')"
| "decide_loop depth agent config aliases observation (attempt # attempts) a st =
     and_then (decide_attempt depth agent config aliases observation attempt a st) (\<lambda>(r, st').
       case r of
         Inl decision \<Rightarrow> Inr (decision, st')
       | Inr a' \<Rightarrow> decide_loop depth agent config aliases observation attempts a' st')"

definition request_decision ::
    "nat \<Rightarrow> 'st agent \<Rightarrow> EpisodeConfig \<Rightarrow> string list \<Rightarrow> string jobject \<Rightarrow> 'st
      \<Rightarrow> (TurnDecision \<times> 'st) result" where
  "request_decision depth agent config aliases observation st =
     decide_loop depth agent config aliases observation [1, 2]
       \<lparr>at_responses = [], at_harness_events = [], at_first_failure = None,
        at_first_raw_sha = None\<rparr> st"
section \<open>What a decision looks like\<close>

definition drain_ok :: "'st agent \<Rightarrow> bool" where
  "drain_ok agent \<longleftrightarrow> (\<forall>st. \<exists>events st'. drain_harness_events agent st = Inr (events, st'))"

lemma drain_ok_without_channel: "ag_drain agent = None \<Longrightarrow> drain_ok agent"
  by (simp add: drain_ok_def drain_harness_events_def)

text \<open>The state before attempt \<open>n\<close>: one recorded malformed reply before the second.\<close>

definition before_attempt :: "int \<Rightarrow> attempt_state \<Rightarrow> bool" where
  "before_attempt attempt a \<longleftrightarrow>
     (attempt = 1 \<and> at_responses a = [] \<and> at_first_failure a = None) \<or>
     (attempt = 2 \<and> length (at_responses a) = 1 \<and> first_reason_of a \<noteq> None \<and>
        at_first_raw_sha a \<noteq> None)"

definition decision_ok :: "nat \<Rightarrow> string list \<Rightarrow> TurnDecision \<Rightarrow> bool" where
  "decision_ok depth aliases d \<longleftrightarrow>
     (td_parsed d = None \<longleftrightarrow> td_rejection d \<noteq> None) \<and>
     length (td_responses d) \<le> 2 \<and>
     (\<forall>a. td_parsed d = Some a \<longrightarrow> td_responses d \<noteq> [] \<and>
        (\<exists>r. parse_action depth (BytesBody (rp_body (last (td_responses d)))) aliases
               (int (length (td_responses d))) = Inr r \<and> ar_action r = Some a) \<and>
        td_raw_sha256 d = Some (sha256_prefixed (rp_body (last (td_responses d)))))"

lemma interpret_reply_total:
  assumes "1 \<le> attempt"
  obtains r where "interpret_reply depth aliases attempt reply = Inr r"
    "ar_action r = None \<longleftrightarrow> ar_reason r \<noteq> None"
    "ar_action r \<noteq> None \<Longrightarrow>
       parse_action depth (BytesBody (rp_body reply)) aliases attempt = Inr r"
proof (cases "case rp_http_status reply of None \<Rightarrow> False | Some s \<Rightarrow> 400 \<le> s \<and> s \<le> 499")
  case True
  then show thesis
    by (intro that[of "\<lparr>ar_action = None, ar_reason = Some ''schema_invalid''\<rparr>"])
       (simp_all add: interpret_reply_def)
next
  case False
  from assms show thesis
    by (cases rule: parse_action_cases[of attempt depth "BytesBody (rp_body reply)" aliases])
       (use False that in \<open>simp_all add: interpret_reply_def reject_def\<close>)
qed

lemma after_reply_ok:
  assumes "before_attempt attempt a" "at_responses b = at_responses a @ [reply]"
    "at_first_failure b = at_first_failure a" "at_first_raw_sha b = at_first_raw_sha a"
  obtains d where "after_reply depth config aliases attempt reply b = Inr (Inl d)"
    "decision_ok depth aliases d" "td_responses d = at_responses b"
  | c where "after_reply depth config aliases attempt reply b = Inr (Inr c)" "attempt = 1"
    "cfg_parse_failure_retries config \<noteq> 0" "before_attempt 2 c"
proof -
  have n: "attempt = 1 \<or> attempt = 2" "int (length (at_responses b)) = attempt"
    "at_responses b \<noteq> []" "last (at_responses b) = reply"
    using assms(1,2) by (auto simp: before_attempt_def)
  then have "1 \<le> attempt" by auto
  then obtain r where r: "interpret_reply depth aliases attempt reply = Inr r"
    "ar_action r = None \<longleftrightarrow> ar_reason r \<noteq> None"
    "ar_action r \<noteq> None \<Longrightarrow>
       parse_action depth (BytesBody (rp_body reply)) aliases attempt = Inr r"
    by (rule interpret_reply_total[where depth = depth and aliases = aliases and reply = reply])
       (rule that)
  show thesis
  proof (cases "accepted r \<or> \<not> (attempt = 1 \<and> cfg_parse_failure_retries config \<noteq> 0)")
    case True
    show thesis
    proof (rule that(1))
      show "after_reply depth config aliases attempt reply b = Inr (Inl
        (if accepted r then \<lparr>td_responses = at_responses b, td_harness_events = at_harness_events b,
             td_parsed = ar_action r, td_rejection = None,
             td_raw_sha256 = Some (sha256_prefixed (rp_body reply))\<rparr>
         else malformed_decision b (sha256_prefixed (rp_body reply))
             (case ar_reason r of Some r \<Rightarrow> r | None \<Rightarrow> []) attempt))"
        using True r(1) by (auto simp: after_reply_def Let_def)
    qed (use r n in \<open>auto simp: decision_ok_def malformed_decision_def accepted_def Let_def\<close>)
  next
    case False
    with r(1) have "after_reply depth config aliases attempt reply b =
      Inr (Inr (b\<lparr>at_first_failure := Some r, at_first_raw_sha := Some (sha256_prefixed (rp_body reply))\<rparr>))"
      by (simp add: after_reply_def Let_def)
    moreover have "length (at_responses b) = 1" using n False by simp
    ultimately show thesis using False r(2)
      by (intro that(2)) (auto simp: before_attempt_def first_reason_of_def accepted_def)
  qed
qed

lemma retry_of_total: "before_attempt attempt a \<Longrightarrow> \<exists>retry. retry_of attempt a = Inr retry"
  by (auto simp: before_attempt_def retry_of_def)

lemma decide_attempt_ok:
  assumes "before_attempt attempt a" "drain_ok agent"
  obtains d st' where "decide_attempt depth agent config aliases observation attempt a st = Inr (Inl d, st')"
    "decision_ok depth aliases d" "length (td_responses d) \<le> nat attempt"
  | c st' where "decide_attempt depth agent config aliases observation attempt a st = Inr (Inr c, st')"
    "attempt = 1" "cfg_parse_failure_retries config \<noteq> 0" "before_attempt 2 c"
proof -
  have n: "attempt = 1 \<or> attempt = 2" "int (length (at_responses a)) = attempt - 1"
    using assms(1) by (auto simp: before_attempt_def)
  obtain retry where retry: "retry_of attempt a = Inr retry" using retry_of_total[OF assms(1)] by blast
  obtain out st1 where call: "ag_decide agent (runner_request attempt observation retry) st = (out, st1)"
    by fastforce
  obtain facts st2 where drain: "drain_harness_events agent st1 = Inr (facts, st2)"
    using assms(2) unfolding drain_ok_def by blast
  show thesis
  proof (cases out)
    case (Replied reply)
    let ?b = "a\<lparr>at_responses := at_responses a @ [reply],
                 at_harness_events := at_harness_events a @ facts\<rparr>"
    have b: "at_responses ?b = at_responses a @ [reply]" "at_first_failure ?b = at_first_failure a"
      "at_first_raw_sha ?b = at_first_raw_sha a" by simp_all
    from assms(1) b show thesis
    proof (cases rule: after_reply_ok[of attempt a ?b reply depth config aliases])
      case (1 d)
      with Replied retry call drain n show thesis
        by (intro that(1)[of d st2]) (simp_all add: decide_attempt_def)
    next
      case (2 c)
      with Replied retry call drain show thesis
        by (intro that(2)[of c st2]) (simp_all add: decide_attempt_def)
    qed
  next
    case TimedOut
    with retry call drain n show thesis
      by (intro that(1)) (auto simp: decide_attempt_def missed_decision_def decision_ok_def)
  next
    case (AgentFailed name)
    with retry call drain n show thesis
      by (intro that(1)) (auto simp: decide_attempt_def missed_decision_def decision_ok_def)
  qed
qed


definition silent_agent :: "unit agent" where
  "silent_agent = \<lparr>ag_decide = (\<lambda>_ st. (TimedOut, st)), ag_drain = None\<rparr>"


end
