(* ===== verification/Harness_Facts.thy ===== *)
theory Harness_Facts
  imports Engine_Decision
begin

text \<open>
  The facts of the trusted harness: the shape a validated fact has, and that merging them
  (\<open>_coalesce_harness_events\<close>) keeps every count and forgets the order of arrival.
\<close>

section \<open>Merging does not depend on the order of the facts\<close>

definition block_fact :: "HarnessEvent \<Rightarrow> bool" where
  "block_fact e \<longleftrightarrow> validate_drained (Fact e) = Inr e"

definition key_total :: "HarnessEvent list \<Rightarrow> block_key \<Rightarrow> int" where
  "key_total es k = sum_list (map block_count_of (filter (\<lambda>e. block_key_of e = k) es))"

lemma block_factE:
  assumes "block_fact e"
  obtains d p r n where "e = block_event ((d, p, r), n)" "1 \<le> n" "n \<le> MAX_IJSON_INT"
    "\<And>q. p = Some q \<Longrightarrow> 0 \<le> q"
proof -
  let ?g = "dict_get (he_payload e)"
  note v = assms[unfolded block_fact_def validate_drained_def Let_def drained_item.case]
  have port: "\<exists>p. x = opt_int p \<and> (\<forall>q. p = Some q \<longrightarrow> 0 \<le> q)"
    if "case x of JNull \<Rightarrow> True | JInt p \<Rightarrow> 0 \<le> p \<and> p \<le> 65535 | _ \<Rightarrow> False" for x :: "string json"
    using that by (cases x) (auto simp: opt_int_def split: option.splits)
  from v obtain d where d: "?g ''destination'' = JStr d"
    by (cases "?g ''destination''") (simp_all split: if_split_asm)
  note v = v[unfolded d json.case]
  from v obtain p where p: "?g ''port'' = opt_int p" "\<And>q. p = Some q \<Longrightarrow> 0 \<le> q"
    using port[of "?g ''port''"] by (simp split: if_split_asm) blast
  from v obtain r where r: "?g ''protocol'' = JStr r"
    by (cases "?g ''protocol''") (simp_all split: if_split_asm)
  note v = v[unfolded r json.case]
  from v obtain n where n: "?g ''count'' = JInt n"
    by (cases "?g ''count''") (simp_all split: if_split_asm)
  from v[unfolded n json.case] have "1 \<le> n" "n \<le> MAX_IJSON_INT"
    "e = block_event ((d, p, r), n)"
    by (simp_all add: block_event_def p split: if_split_asm)
  with p(2) that show thesis by blast
qed

lemma block_event_keys [simp]:
  "block_key_of (block_event (k, n)) = k" "block_count_of (block_event (k, n)) = n"
  by (cases k; auto simp: block_key_of_def block_count_of_def block_event_def opt_int_def
      split: option.splits)+

lemma block_fact_shape:
  assumes "block_fact e"
  shows "1 \<le> block_count_of e" "\<And>p. fst (snd (block_key_of e)) = Some p \<Longrightarrow> 0 \<le> p"
    "block_event (block_key_of e, block_count_of e) = e"
  using assms by (auto elim!: block_factE)

lemma key_total_nonneg: "\<forall>e \<in> set es. block_fact e \<Longrightarrow> 0 \<le> key_total es k"
  unfolding key_total_def
  by (rule sum_list_nonneg) (auto dest!: block_fact_shape(1))

definition fits :: "HarnessEvent list \<Rightarrow> bool" where
  "fits es \<longleftrightarrow> (\<forall>k. key_total es k \<le> MAX_IJSON_INT)"

text \<open>The state of the loop after the facts \<open>es\<close>: one entry per key, with its total.\<close>

definition merged :: "HarnessEvent list \<Rightarrow> (block_key \<times> int) list \<Rightarrow> bool" where
  "merged es counts \<longleftrightarrow> distinct (map fst counts) \<and> set (map fst counts) = set (map block_key_of es) \<and>
     (\<forall>(k, n) \<in> set counts. n = key_total es k)"

lemma key_total_snoc:
  "key_total (es @ [e]) k = key_total es k + (if block_key_of e = k then block_count_of e else 0)"
  by (simp add: key_total_def)

lemma merged_lookup:
  assumes "merged es counts"
  shows "(case map_of counts k of Some n \<Rightarrow> n | None \<Rightarrow> 0) = key_total es k"
proof (cases "map_of counts k")
  case None
  then have "k \<notin> set (map block_key_of es)" using assms by (auto simp: merged_def map_of_eq_None_iff)
  then have "filter (\<lambda>e. block_key_of e = k) es = []" by (auto simp: filter_empty_conv)
  with None show ?thesis by (simp add: key_total_def)
next
  case (Some n)
  then have "(k, n) \<in> set counts" by (rule map_of_SomeD)
  with Some assms show ?thesis by (auto simp: merged_def)
qed

lemma set_update_distinct:
  "distinct (map fst al) \<Longrightarrow>
     set (AList.update k v al) = insert (k, v) {p \<in> set al. fst p \<noteq> k}"
  by (induction al) force+

lemma merged_step:
  assumes "merged es counts"
  shows "merged (es @ [e]) (AList.update (block_key_of e) (key_total (es @ [e]) (block_key_of e)) counts)"
  using assms
  by (auto simp: merged_def distinct_update set_update_distinct update_keys key_total_snoc)

lemma merge_loop:
  assumes "merged pre counts" "\<forall>e \<in> set (pre @ es). block_fact e"
    "fits pre"
  shows "if fits (pre @ es)
    then \<exists>counts'. fold_result add_block es counts = Inr counts' \<and> merged (pre @ es) counts'
    else fold_result add_block es counts =
      Inl (EngineError ''coalesced EgressBlocked.count exceeds the I-JSON safe range'')"
  using assms
proof (induction es arbitrary: pre counts)
  case Nil
  then show ?case by simp
next
  case (Cons e es)
  let ?k = "block_key_of e" and ?pre = "pre @ [e]"
  have n: "(case map_of counts ?k of Some n \<Rightarrow> n | None \<Rightarrow> 0) + block_count_of e = key_total ?pre ?k"
    by (simp add: merged_lookup[OF Cons.prems(1)] key_total_snoc)
  show ?case
  proof (cases "key_total ?pre ?k \<le> MAX_IJSON_INT")
    case True
    have "fits ?pre"
      using True Cons.prems(3) unfolding fits_def key_total_snoc by (metis add.right_neutral)
    note IH = Cons.IH[OF merged_step[OF Cons.prems(1)] _ this]
    have "add_block e counts = Inr (AList.update ?k (key_total ?pre ?k) counts)"
      using True n by (simp add: add_block_def Let_def)
    moreover have "pre @ e # es = ?pre @ es" by simp
    moreover have "\<forall>e \<in> set (?pre @ es). block_fact e" using Cons.prems(2) by simp
    ultimately show ?thesis using IH by (simp only: fold_result.simps and_then_Inr)
  next
    case False
    have "key_total (pre @ e # es) ?k = key_total ?pre ?k + key_total es ?k"
      by (simp add: key_total_def)
    moreover have "0 \<le> key_total es ?k" using Cons.prems(2) by (intro key_total_nonneg) simp
    ultimately have "\<not> key_total (pre @ e # es) ?k \<le> MAX_IJSON_INT" using False by linarith
    then have "\<not> fits (pre @ e # es)" unfolding fits_def by blast
    with False n show ?thesis by (simp add: add_block_def Let_def)
  qed
qed

lemma block_order_inj:
  "block_order k = block_order k' \<Longrightarrow> (\<And>p. fst (snd k) = Some p \<Longrightarrow> 0 \<le> p) \<Longrightarrow>
     (\<And>p. fst (snd k') = Some p \<Longrightarrow> 0 \<le> p) \<Longrightarrow> k = k'"
  by (cases k; cases k') (auto simp: block_order_def split: option.splits)

lemma key_total_mset:
  assumes "mset es = mset es'"
  shows "key_total es = key_total es'"
proof
  fix k
  have "key_total xs k = sum_mset (image_mset block_count_of
      (filter_mset (\<lambda>e. block_key_of e = k) (mset xs)))" for xs
    by (simp add: key_total_def flip: sum_mset_sum_list)
  then show "key_total es k = key_total es' k" using assms by simp
qed

lemma merged_set:
  "merged es c \<Longrightarrow> set c = (\<lambda>k. (k, key_total es k)) ` set (map block_key_of es)"
proof -
  assume "merged es c"
  then have keys: "fst ` set c = set (map block_key_of es)" and
    total: "\<And>p. p \<in> set c \<Longrightarrow> p = (fst p, key_total es (fst p))"
    by (auto simp: merged_def)
  from total have "set c = (\<lambda>p. (fst p, key_total es (fst p))) ` set c"
    by (auto simp: image_def)
  also have "\<dots> = (\<lambda>k. (k, key_total es k)) ` (fst ` set c)" by (simp add: image_image)
  finally show ?thesis unfolding keys .
qed

lemma merged_sorted_unique:
  assumes "merged es c" "merged es' c'" "mset es = mset es'" "\<forall>e \<in> set es. block_fact e"
  shows "sort_key (block_order \<circ> fst) c = sort_key (block_order \<circ> fst) c'"
proof -
  have keys: "set (map block_key_of es) = set (map block_key_of es')"
    using mset_eq_setD[OF assms(3)] by simp
  have d: "distinct c" "distinct c'" using assms(1,2) by (auto simp: merged_def distinct_map)
  have "set c = set c'"
    unfolding merged_set[OF assms(1)] merged_set[OF assms(2)] keys key_total_mset[OF assms(3)] ..
  with d have m: "mset c = mset c'" by (simp add: set_eq_iff_mset_eq_distinct [symmetric])
  have inj: "inj_on (block_order \<circ> fst) (set c)"
  proof (rule inj_onI)
    fix x y assume xy: "x \<in> set c" "y \<in> set c" "(block_order \<circ> fst) x = (block_order \<circ> fst) y"
    have k: "0 \<le> p" if "z \<in> set c" "fst (snd (fst z)) = Some p" for z p
    proof -
      have "fst z \<in> fst ` set c" using that(1) by simp
      then obtain e where "e \<in> set es" "fst z = block_key_of e"
        using assms(1) by (auto simp: merged_def)
      with that(2) assms(4) show "0 \<le> p" by (auto dest: block_fact_shape(2))
    qed
    have "fst x = fst y" using xy k by (intro block_order_inj) simp_all
    moreover have "distinct (map fst c)" using assms(1) by (simp add: merged_def)
    ultimately show "x = y" using xy(1,2) by (metis prod.collapse eq_key_imp_eq_value)
  qed
  show ?thesis
    by (rule sort_key_inj_key_eq[OF _ inj]) (simp_all add: m)
qed

text \<open>
  Property C27. The harness evidence of a turn does not depend on the order in which the side
  channel reported it: two permutations of the same blocked connections give the same merged
  events (or both the same overflow error), one event per destination, port and protocol,
  whose count is the total reported for it.
\<close>

theorem coalesce_order_independent:
  assumes "\<forall>e \<in> set es. block_fact e" "mset es = mset es'"
  shows "coalesce_harness_events es = coalesce_harness_events es' \<and>
    (\<forall>out. coalesce_harness_events es = Inr out \<longrightarrow>
       distinct (map block_key_of out) \<and> set (map block_key_of out) = set (map block_key_of es) \<and>
       (\<forall>e \<in> set out. block_count_of e = key_total es (block_key_of e)))"
proof -
  have e: "merged [] []" by (simp add: merged_def)
  have z: "fits []" by (simp add: fits_def key_total_def MAX_IJSON_INT_def)
  have fits_eq: "fits es' = fits es" by (simp only: fits_def key_total_mset[OF assms(2)])
  have f: "\<forall>e \<in> set es'. block_fact e" using assms by (metis set_mset_mset)
  note L = merge_loop[OF e _ z, of es] merge_loop[OF e _ z, of es']
  show ?thesis
  proof (cases "fits es")
    case True
    with L assms(1) f obtain c c' where c: "fold_result add_block es [] = Inr c" "merged es c"
      "fold_result add_block es' [] = Inr c'" "merged es' c'"
      by (auto simp: fits_eq)
    have "sort_key (block_order \<circ> fst) c = sort_key (block_order \<circ> fst) c'"
      using c(2,4) assms(2,1) by (rule merged_sorted_unique)
    then have eq: "coalesce_harness_events es = coalesce_harness_events es'"
      using c(1,3) by (simp add: coalesce_harness_events_def)
    let ?s = "sort_key (block_order \<circ> fst) c"
    have k: "map block_key_of (map block_event xs) = map fst xs" for xs
      by (induction xs) auto
    have "distinct (map fst ?s)" "set (map fst ?s) = set (map block_key_of es)"
      using c(2) by (simp_all add: merged_def distinct_map)
    moreover have "block_count_of e = key_total es (block_key_of e)"
      if "e \<in> set (map block_event ?s)" for e
      using that c(2) by (auto simp: merged_def)
    moreover have "coalesce_harness_events es = Inr (map block_event ?s)"
      using c(1) by (simp add: coalesce_harness_events_def)
    ultimately show ?thesis using eq k[of ?s] by (metis sum.inject(2))
  next
    case False
    with L assms(1) f show ?thesis
      by (simp add: coalesce_harness_events_def fits_eq)
  qed
qed

theorem coalesce_order_independent_witness:
  "coalesce_harness_events [block_event ((''a'', Some 53, ''dns''), 2), block_event ((''a'', None, ''tcp''), 1)] =
     coalesce_harness_events [block_event ((''a'', None, ''tcp''), 1), block_event ((''a'', Some 53, ''dns''), 2)]"
  by (rule coalesce_order_independent[THEN conjunct1])
     (simp_all add: block_fact_def block_event_def validate_drained_def MAX_IJSON_INT_def
       egress_protocols_def insert_commute)

end
