(* ===== verification/Telemetry.thy ===== *)
theory Telemetry
  imports Engine_Decision
begin

text \<open>
  The second reading of a reply, for its advisory token usage: it succeeds on every reply the
  parser accepts, and it raises on some the parser rejects.
\<close>

section \<open>One reader covers another\<close>

text \<open>Whatever one set of hooks reads, a set of hooks that never raises reads as well.\<close>

definition hooks_total :: "json_hooks \<Rightarrow> bool" where
  "hooks_total h \<longleftrightarrow> (\<forall>t. \<exists>v. jh_float h t = Inr v) \<and>
     (\<forall>t. \<exists>v. jh_constant h t = Inr v) \<and> (\<forall>ps. \<exists>v. jh_pairs h ps = Inr v)"

definition covers :: "scanner \<Rightarrow> scanner \<Rightarrow> bool" where
  "covers f g \<longleftrightarrow> (\<forall>s v r. f s = Inr (v, r) \<longrightarrow> (\<exists>v'. g s = Inr (v', r)))"

lemma coversD: "covers f g \<Longrightarrow> f s = Inr (v, r) \<Longrightarrow> \<exists>v'. g s = Inr (v', r)"
  by (auto simp: covers_def)

lemma scan_members_covers:
  assumes "hooks_total h'" "covers value value'"
    and "scan_members h value n acc s = Inr (v, r)"
  shows "\<exists>v'. scan_members h' value' n acc' s = Inr (v', r)"
  using assms(3)
proof (induction n arbitrary: acc acc' s)
  case 0
  then show ?case by simp
next
  case (Suc n)
  from Suc.prems obtain cs key r0 r1 x r2 d ds where s: "s = 34 # cs" "scan_string cs = Inr (key, r0)"
    "skip_ws r0 = 58 # r1" "value (skip_ws r1) = Inr (x, r2)" "skip_ws r2 = d # ds"
    "if d = 125 then ds = r else d = 44 \<and> scan_members h value n ((key, x) # acc) (skip_ws ds) = Inr (v, r)"
    by (auto simp: scan_cases split: if_splits)
  obtain x' where x': "value' (skip_ws r1) = Inr (x', r2)"
    using coversD[OF assms(2) s(4)] by blast
  from s(6) show ?case
  proof (cases "d = 125")
    case True
    obtain o' where "jh_pairs h' (rev ((key, x') # acc')) = Inr o'"
      using assms(1) unfolding hooks_total_def by blast
    with True s x' show ?thesis by simp
  next
    case False
    with s(6) Suc.IH[of "(key, x) # acc" "skip_ws ds" "(key, x') # acc'"] s x' show ?thesis by simp
  qed
qed

lemma scan_elements_covers:
  assumes "covers value value'" "scan_elements value n acc s = Inr (v, r)"
  shows "\<exists>v'. scan_elements value' n acc' s = Inr (v', r)"
  using assms(2)
proof (induction n arbitrary: acc acc' s)
  case 0
  then show ?case by simp
next
  case (Suc n)
  from Suc.prems obtain x r1 d ds where s: "value s = Inr (x, r1)" "skip_ws r1 = d # ds"
    "if d = 93 then ds = r else d = 44 \<and> scan_elements value n (x # acc) (skip_ws ds) = Inr (v, r)"
    by (auto simp: scan_cases split: if_splits)
  obtain x' where x': "value' s = Inr (x', r1)" using coversD[OF assms(1) s(1)] by blast
  with s Suc.IH[of "x # acc" "skip_ws ds" "x' # acc'"] show ?case by (cases "d = 93") auto
qed

lemma scan_constant_covers:
  assumes "hooks_total h'"
  shows "scan_constant h s = None \<longleftrightarrow> scan_constant h' s = None"
    "scan_constant h s = Some (Inr (v, r)) \<Longrightarrow> \<exists>v'. scan_constant h' s = Some (Inr (v', r))"
proof -
  have c: "\<exists>v. jh_constant h' t = Inr v" for t using assms by (simp add: hooks_total_def)
  show "scan_constant h s = None \<longleftrightarrow> scan_constant h' s = None"
    by (simp add: scan_constant_def split: option.split)
  show "\<exists>v'. scan_constant h' s = Some (Inr (v', r))" if "scan_constant h s = Some (Inr (v, r))"
    using that c[of "ascii ''NaN''"] c[of "ascii ''Infinity''"] c[of "ascii ''-Infinity''"]
    by (auto simp: scan_constant_def and_then_eq_Inr split: option.splits)
qed

lemma scan_number_covers:
  assumes "hooks_total h'" "scan_number h s = Inr (v, r)"
  shows "\<exists>v'. scan_number h' s = Inr (v', r)"
proof -
  have f: "\<exists>v'. and_then (jh_float h' t) (\<lambda>v. Inr (v, q)) = Inr (v', q)" for t q
    using assms(1) by (auto simp: hooks_total_def and_then_eq_Inr)
  obtain sg body where b: "(case s of x # r \<Rightarrow> if x = 45 then ([x], r) else ([], s) | [] \<Rightarrow> ([], s))
      = (sg, body)" by (meson surj_pair)
  from assms(2) b obtain ds r0 where p: "scan_int_part body = Some (ds, r0)"
    by (cases "scan_int_part body") (auto simp: scan_number_def)
  obtain fr r1 ex r2 where q: "scan_fraction r0 = (fr, r1)" "scan_exponent r1 = (ex, r2)"
    by (meson surj_pair)
  show ?thesis
  proof (cases "fr \<noteq> [] \<or> ex \<noteq> []")
    case True
    with assms(2) b p q have "r2 = r" by (auto simp: scan_number_def and_then_eq_Inr)
    with True b p q f[of "sg @ ds @ fr @ ex" r2] show ?thesis by (simp add: scan_number_def)
  next
    case False
    with assms(2) b p q show ?thesis by (auto simp: scan_number_def split: if_splits)
  qed
qed

lemma scan_once_covers:
  assumes "hooks_total h'" "covers f f'" "covers g g'"
  shows "covers (scan_once h f g) (scan_once h' f' g')"
  unfolding covers_def
proof (intro allI impI)
  fix s v r assume a: "scan_once h f g s = Inr (v, r)"
  then obtain c cs where s: "s = c # cs" by (cases s) (simp_all add: scan_once_def)
  consider "c = 34" | "c = 123" | "c = 91" | "c \<noteq> 34" "c \<noteq> 123" "c \<noteq> 91" by blast
  then show "\<exists>v'. scan_once h' f' g' s = Inr (v', r)"
  proof cases
    case 4
    show ?thesis
    proof (cases "scan_constant h s")
      case None
      with 4 a s scan_constant_covers(1)[OF assms(1), of h s] scan_number_covers[OF assms(1), of h s v r]
      show ?thesis by (simp add: scan_once_def)
    next
      case (Some x)
      with 4 a s scan_constant_covers(2)[OF assms(1), of h s v r]
      show ?thesis by (auto simp: scan_once_def)
    qed
  qed (use a s assms(2,3) in \<open>auto simp: scan_once_def and_then_eq_Inr covers_def\<close>)
qed

lemma scan_object_covers:
  assumes "hooks_total h'" "covers value value'"
  shows "covers (scan_object h value) (scan_object h' value')"
  unfolding covers_def
proof (intro allI impI)
  fix s v r assume "scan_object h value s = Inr (v, r)"
  then obtain d ds where s: "skip_ws s = d # ds"
    "if d = 125 then ds = r else scan_members h value (length s) [] (d # ds) = Inr (v, r)"
    by (auto simp: scan_object_def scan_cases split: if_splits)
  obtain e where "jh_pairs h' [] = Inr e" using assms(1) unfolding hooks_total_def by blast
  with s scan_members_covers[OF assms, of h "length s" "[]" "d # ds" v r "[]"]
  show "\<exists>v'. scan_object h' value' s = Inr (v', r)" by (auto simp: scan_object_def split: if_splits)
qed

lemma scan_array_covers:
  assumes "covers value value'"
  shows "covers (scan_array value) (scan_array value')"
  unfolding covers_def
proof (intro allI impI)
  fix s v r assume "scan_array value s = Inr (v, r)"
  with scan_elements_covers[OF assms, of "length s" "[]" _ v r "[]"]
  show "\<exists>v'. scan_array value' s = Inr (v', r)"
    by (auto simp: scan_array_def split: list.splits if_splits)
qed

lemma scan_value_covers:
  assumes "hooks_total h'"
  shows "covers (scan_value depth h) (scan_value depth h')"
proof (induction depth)
  case 0
  show ?case by (simp, rule scan_once_covers[OF assms]) (simp_all add: covers_def)
next
  case (Suc depth)
  show ?case unfolding scan_value.simps
    by (rule scan_once_covers[OF assms scan_object_covers[OF assms Suc] scan_array_covers[OF Suc]])
qed

lemma json_loads_covers:
  assumes "hooks_total h'" "json_loads h depth t = Inr v"
  shows "\<exists>v'. json_loads h' depth t = Inr v'"
proof -
  from assms(2) obtain r where "take 1 t \<noteq> [0xFEFF]" "scan_value depth h (skip_ws t) = Inr (v, r)"
    "skip_ws r = []" by (auto simp: json_loads_def and_then_eq_Inr split: if_splits)
  moreover from coversD[OF scan_value_covers[OF assms(1)] this(2)]
  obtain v' where "scan_value depth h' (skip_ws t) = Inr (v', r)" by blast
  ultimately show ?thesis by (simp add: json_loads_def)
qed
text \<open>A text that starts with a zero code point, or has one in second place, is no JSON text.\<close>

lemma scan_constant_no_zero:
  "scan_constant h (0 # s) = None" "scan_constant h (c # 0 # s) = None"
  by (simp_all add: scan_constant_def strip_prefix_def ascii_simps take_Cons')

lemma not_ws_zero [simp]: "\<not> is_ws 0"
  by (simp add: is_ws_def)

lemma scan_value_zero: "scan_value depth h (0 # s) \<noteq> Inr (v, r)"
proof -
  have "scan_number h (0 # s) = Inl JSONDecodeError"
    by (simp add: scan_number_def scan_int_part_def is_digit_cp_def)
  then show ?thesis by (cases depth) (simp_all add: scan_once_def scan_constant_no_zero)
qed

lemma scan_number_second_zero:
  assumes "scan_number h (c # 0 # s) = Inr (v, r)"
  shows "r = 0 # s"
proof (cases "c = 45")
  case True
  with assms show ?thesis by (simp add: scan_number_def scan_int_part_def is_digit_cp_def)
next
  case False
  have f: "scan_fraction (0 # s) = ([], 0 # s)" "scan_exponent (0 # s) = ([], 0 # s)"
    by (auto simp: scan_fraction_def scan_exponent_def split: list.split)
  have i: "scan_int_part (c # 0 # s) = None \<or> scan_int_part (c # 0 # s) = Some ([c], 0 # s)"
    by (simp add: scan_int_part_def split_digits_def is_digit_cp_def)
  with assms False f show ?thesis by (auto simp: scan_number_def split: if_splits)
qed

lemma scan_once_second_zero:
  assumes "scan_once h (scan_object h f) (scan_array g) (c # 0 # s) = Inr (v, r)"
    "\<not> is_ws c" "\<And>v r. g (0 # s) \<noteq> Inr (v, r)"
  shows "r = 0 # s"
proof -
  have w: "skip_ws (0 # s) = 0 # s" by (simp add: skip_ws_def is_ws_def)
  have "scan_string (0 # s) = Inl JSONDecodeError" by simp
  moreover have "scan_object h f (0 # s) = Inl JSONDecodeError"
    by (simp add: scan_object_def w)
  moreover have "scan_array g (0 # s) \<noteq> Inr (v, r)"
    using assms(3) by (auto simp: scan_array_def w and_then_eq_Inr)
  ultimately show ?thesis
    using assms(1) scan_number_second_zero[of h c s v r]
    by (auto simp: scan_once_def scan_constant_no_zero split: if_splits)
qed

lemma scan_value_second_zero:
  assumes "scan_value depth h (c # 0 # s) = Inr (v, r)" "\<not> is_ws c"
  shows "r = 0 # s"
proof (cases depth)
  case 0
  have "scan_string (0 # s) = Inl JSONDecodeError" by simp
  with assms(1) 0 scan_number_second_zero[of h c s v r] show ?thesis
    by (auto simp: scan_once_def scan_constant_no_zero split: if_splits)
next
  case (Suc d)
  with assms show ?thesis
    by (intro scan_once_second_zero[of h "scan_value d h" "scan_value d h" c s v r])
       (simp_all add: scan_value_zero)
qed

lemma json_text_head:
  assumes "json_loads h depth t = Inr v"
  shows "take 1 t \<noteq> [0]" "take 1 (drop 1 t) \<noteq> [0]" "take 1 t \<noteq> [0xFEFF]"
proof -
  from assms obtain r where l: "take 1 t \<noteq> [0xFEFF]" "scan_value depth h (skip_ws t) = Inr (v, r)"
    "skip_ws r = []" by (auto simp: json_loads_def and_then_eq_Inr split: if_splits)
  show "take 1 t \<noteq> [0xFEFF]" by (rule l)
  have w: "skip_ws (0 # s) = 0 # s" for s by (simp add: skip_ws_def)
  show "take 1 t \<noteq> [0]"
  proof
    assume "take 1 t = [0]"
    then obtain s where "t = 0 # s" by (cases t) auto
    with l(2) show False by (simp add: scan_value_zero)
  qed
  show "take 1 (drop 1 t) \<noteq> [0]"
  proof
    assume "take 1 (drop 1 t) = [0]"
    then obtain c s where t: "t = c # 0 # s" by (cases t; cases "tl t") auto
    show False
    proof (cases "is_ws c")
      case True
      with l(2) show False by (simp add: t skip_ws_def is_ws_def[of 0] scan_value_zero)
    next
      case False
      with l(2) have "r = 0 # s" by (intro scan_value_second_zero) (simp_all add: t skip_ws_def)
      with l(3) show False by (simp add: w)
    qed
  qed
qed

lemma strict_utf8_head:
  assumes "utf8_decode_units False b = Some t"
  shows "2 \<le> length b \<Longrightarrow> b ! 1 = 0 \<Longrightarrow> take 1 (drop 1 t) = [0]"
    "b \<noteq> [] \<Longrightarrow> b ! 0 = 0 \<Longrightarrow> take 1 t = [0]"
proof -
  have a: "utf8_char False 0 cs = Some (0, cs)" for cs by (simp add: utf8_char_def)
  show "take 1 t = [0]" if "b \<noteq> []" "b ! 0 = 0"
    using that assms a by (cases b) auto
  show "take 1 (drop 1 t) = [0]" if "2 \<le> length b" "b ! 1 = 0"
  proof -
    from that obtain x cs where b: "b = x # 0 # cs"
      by (cases b; cases "tl b") auto
    have "utf8_char False x (0 # cs) = (if x < 128 then Some (x, 0 # cs) else None)"
      by (simp add: utf8_char_def continuation_def)
    with assms show ?thesis by (auto simp: b a split: if_splits)
  qed
qed
lemma usage_hooks_total: "hooks_total usage_hooks"
  by (simp add: hooks_total_def usage_hooks_def)

text \<open>
  Property C28. Reading the advisory token usage never disturbs a reply the parser accepts:
  the second reader, with its own encoding detection and its own hooks, succeeds on every
  body whose action is accepted, so no accepted reply can end the episode.
\<close>

theorem accepted_reply_has_telemetry:
  assumes "parse_action depth (BytesBody body) markets attempt = Inr r" "ar_action r = Some a"
    "1 \<le> attempt"
  shows "\<exists>usage. extract_token_usage depth body = Inr usage"
  using assms(3)
proof (cases rule: parse_action_cases[of attempt depth "BytesBody body" markets])
  case (rejected reason)
  with assms(1,2) show ?thesis by (auto simp: reject_def)
next
  case (parsed raw uni decoded targets slippage)
  let ?b = "map unat body"
  from parsed(1,3) have u: "utf8_decode_units False ?b = Some uni"
    by (simp add: wire_bytes_def utf8_decode_def)
  note head = json_text_head[OF parsed(4)]
  have "detect_encoding ?b = Utf8"
    using u head strict_utf8_head[OF u] by (intro detect_utf8) auto
  then have "json_loads_bytes usage_hooks depth body = json_loads usage_hooks depth uni"
    using strict_then_lenient[OF u] by (simp add: json_loads_bytes_def decode_surrogatepass_def Let_def)
  with json_loads_covers[OF usage_hooks_total parsed(4)] show ?thesis
    by (auto simp: extract_token_usage_def)
qed
theorem accepted_reply_has_telemetry_witness:
  "\<exists>body usage. parse_action 8 (BytesBody body) [''BTC''] 1
      = Inr \<lparr>ar_action = Some sample_action, ar_reason = None\<rparr> \<and>
    extract_token_usage 8 body = Inr usage"
proof -
  obtain raw where r: "parse_action 8 (BytesBody raw) [''BTC''] 1
     = Inr \<lparr>ar_action = Some sample_action, ar_reason = None\<rparr>" using sample_parses by blast
  from accepted_reply_has_telemetry[OF r, of sample_action] r show ?thesis by auto
qed

text \<open>A reply that is one long run of the digit one.\<close>

definition ones_body :: "nat \<Rightarrow> byte list" where
  "ones_body n = replicate n 0x31"

lemma utf8_decode_ones: "utf8_decode_units p (replicate n 49) = Some (replicate n 49)"
  by (induction n) (simp_all add: utf8_char_def)

lemma json_loads_ones:
  assumes "INT_MAX_STR_DIGITS < n"
  shows "\<exists>m. json_loads h depth (replicate n 49) = Inl (ValueError m)"
proof -
  from assms obtain k where n: "n = Suc k" by (cases n) simp_all
  have d: "takeWhile is_digit_cp (replicate k 49) = replicate k 49"
    "dropWhile is_digit_cp (replicate k 49) = []"
    by (simp_all add: takeWhile_eq_all_conv dropWhile_eq_Nil_conv is_digit_cp_def)
  have num: "\<exists>m. scan_number h (replicate n 49) = Inl (ValueError m)"
    using assms d by (simp add: n scan_number_def scan_int_part_def split_digits_def
        scan_fraction_def scan_exponent_def is_digit_cp_def)
  have "scan_constant h (replicate n 49) = None"
    by (simp add: n scan_constant_def strip_prefix_def ascii_simps take_Cons')
  with num have "\<exists>m. scan_value depth h (replicate n 49) = Inl (ValueError m)"
    by (cases depth) (auto simp: n scan_once_def)
  moreover have "skip_ws (replicate n 49) = replicate n 49" by (simp add: n is_ws_def)
  ultimately show ?thesis by (auto simp: json_loads_def n)
qed



end
