(* ===== verification/Engine_Run.thy ===== *)
theory Engine_Run
  imports Engine_Close Engine_Decision Observation
begin

text \<open>
  The episode loop of \<open>core/engine.py\<close>: one turn builds an observation, asks the agent (or
  takes the recorded decision), writes the evidence and runs the market phase; a profile run
  is the loop over all turns; an episode is the primary run, the stress run on the same
  decisions, the metrics and the ledgers.
\<close>

section \<open>Inputs and outputs\<close>

record 'st profile_input =
  pi_pack :: PackData
  pi_config :: EpisodeConfig
  pi_profile :: string
  pi_episode_id :: string
  pi_agent :: "'st agent option"
  pi_replay :: "TurnDecision list option"
  pi_collect_evidence :: bool
  pi_depth :: nat

record Totals =
  tt_reason :: string
  tt_final_turn :: int
  tt_final_nav_micro :: int
  tt_turnover_notional_micro :: int
  tt_fill_cost_cum_micro :: int
  tt_fees_cum_micro :: int
  tt_funding_cum_micro :: int
  tt_liquidation_penalty_cum_micro :: int

section \<open>Harness evidence\<close>

definition emit_harness_event ::
    "int \<Rightarrow> nat option \<Rightarrow> nat option \<Rightarrow> HarnessEvent \<Rightarrow> event list \<Rightarrow> event list" where
  "emit_harness_event ts turn bar_index e events =
     fst (emit events (he_type e) (JObj (he_payload e)) ts turn bar_index ''harness'')"

definition emit_harness_events ::
    "event list \<Rightarrow> HarnessEvent list \<Rightarrow> int \<Rightarrow> nat option \<Rightarrow> nat option \<Rightarrow> event list result" where
  "emit_harness_events events drained ts turn bar_index =
     and_then (coalesce_harness_events drained) (\<lambda>merged.
       Inr (fold (emit_harness_event ts turn bar_index) merged events))"

definition raw_ref :: "nat \<Rightarrow> nat \<Rightarrow> string" where
  "raw_ref turn attempt = ''raw/'' @ pad4 turn @ ''-a'' @ show_nat attempt @ ''.txt''"

definition record_reply ::
    "nat \<Rightarrow> int \<Rightarrow> nat \<Rightarrow> nat \<times> AgentReply \<Rightarrow> run_state \<Rightarrow> run_state result" where
  "record_reply depth ts turn attempt_reply run =
     (let (attempt, reply) = attempt_reply; ref = raw_ref turn attempt in
      and_then (extract_token_usage depth (rp_body reply)) (\<lambda>usage.
      Inr (run\<lparr>rn_raw_blobs := AList.update ref (rp_body reply) (rn_raw_blobs run),
               rn_events := fst (emit (rn_events run) ''AgentResponded'' (JObj
                 [(''attempt'', JInt (int attempt)), (''raw_ref'', JStr ref),
                  (''raw_sha256'', JStr (sha256_prefixed (rp_body reply))),
                  (''raw_bytes'', JInt (int (length (rp_body reply)))),
                  (''latency_ms'', JInt (rp_latency_ms reply)),
                  (''http_status'', opt_int (rp_http_status reply)),
                  (''token_usage'', usage), (''transport'', JStr (rp_transport reply))])
                 ts (Some turn) (Some turn) ''harness'')\<rparr>)))"

definition record_decision_evidence ::
    "nat \<Rightarrow> int \<Rightarrow> nat \<Rightarrow> string jobject \<Rightarrow> TurnDecision \<Rightarrow> run_state \<Rightarrow> run_state result" where
  "record_decision_evidence depth ts turn observation decision run =
     and_then (canonical_bytes (unicode_json (JObj observation))) (\<lambda>bytes.
     let run = run\<lparr>rn_observations := rn_observations run @ [JObj observation],
           rn_events := fst (emit (rn_events run) ''ObservationEmitted'' (JObj
             [(''observation_sha256'', JStr (sha256_prefixed bytes)),
              (''observation_ref'', JStr (''observations/'' @ pad4 turn @ ''.json''))])
             ts (Some turn) (Some turn) ''engine'')\<rparr>
     in
     and_then (fold_result (record_reply depth ts turn)
                 (zip [1..<length (td_responses decision) + 1] (td_responses decision)) run) (\<lambda>run.
     and_then (emit_harness_events (rn_events run) (td_harness_events decision) ts
                 (Some turn) (Some turn)) (\<lambda>events.
     Inr (run\<lparr>rn_events := events\<rparr>))))"

section \<open>The decision of a turn\<close>

definition position_for_observation :: "Account \<Rightarrow> Snapshot \<Rightarrow> PositionState result" where
  "position_for_observation account snap =
     (if ac_position_qty_base_1e8 account = 0 then make_PositionState 0 None 0 None
      else make_PositionState (ac_position_qty_base_1e8 account)
             (Some (ac_entry_px_ticks account)) (sn_margin_micro snap)
             (sn_liquidation_px_ticks snap))"

definition turn_observation ::
    "'st profile_input \<Rightarrow> string \<Rightarrow> nat \<Rightarrow> int \<Rightarrow> int \<Rightarrow> run_state \<Rightarrow> ObservationBuild result" where
  "turn_observation inp alias turn drawdown_used turnover_used run =
     (let account = rn_account run; current = last (rn_snapshots run);
          free_cash = ac_cash_micro account - sn_margin_micro current
      in
      and_then (position_for_observation account current) (\<lambda>position.
      and_then (make_RiskState drawdown_used turnover_used (ac_kill_switch_active account)) (\<lambda>risk.
      build_observation (pi_pack inp) (pi_config inp)
        \<lparr>oq_episode_id = pi_episode_id inp, oq_turn = int turn,
         oq_account = \<lparr>as_cash_micro = free_cash,
                       as_realized_pnl_micro = account_realized_pnl account\<rparr>,
         oq_positions = [(alias, position)], oq_risk = risk\<rparr>)))"

definition live_decision ::
    "'st profile_input \<Rightarrow> string \<Rightarrow> nat \<Rightarrow> int \<Rightarrow> int \<Rightarrow> int \<Rightarrow> run_state \<Rightarrow> 'st
      \<Rightarrow> (TurnDecision \<times> run_state \<times> 'st) result" where
  "live_decision inp alias turn ts drawdown_used turnover_used run st =
     (case pi_agent inp of
        None \<Rightarrow> Inl (EngineError ''primary simulation requires an agent'')
      | Some agent \<Rightarrow>
          and_then (turn_observation inp alias turn drawdown_used turnover_used run) (\<lambda>build.
          let observation = ob_document build in
          and_then (request_decision (pi_depth inp) agent (pi_config inp)
                      (market_aliases (pi_pack inp)) observation st) (\<lambda>(decision, st').
          let run = run\<lparr>rn_decisions := rn_decisions run @ [decision]\<rparr> in
          and_then (if pi_collect_evidence inp
                    then record_decision_evidence (pi_depth inp) ts turn observation decision run
                    else Inr run) (\<lambda>run.
          Inr (decision, run, st')))))"

definition turn_decision ::
    "'st profile_input \<Rightarrow> string \<Rightarrow> nat \<Rightarrow> int \<Rightarrow> int \<Rightarrow> int \<Rightarrow> run_state \<Rightarrow> 'st
      \<Rightarrow> (TurnDecision \<times> run_state \<times> 'st) result" where
  "turn_decision inp alias turn ts drawdown_used turnover_used run st =
     (case pi_replay inp of
        None \<Rightarrow> live_decision inp alias turn ts drawdown_used turnover_used run st
      | Some recorded \<Rightarrow>
          if turn \<ge> length recorded
          then Inl (EngineError ''recorded decision trace ended before the episode'')
          else Inr (recorded ! turn, run, st))"

section \<open>One profile\<close>

definition context_of ::
    "'st profile_input \<Rightarrow> string \<Rightarrow> MarketData \<Rightarrow> int \<Rightarrow> nat \<Rightarrow> int \<Rightarrow> int \<Rightarrow> turn_context" where
  "context_of inp alias market multiplier turn decision_ts drawdown_used =
     (let decision_abs = pk_warmup_bars (pi_pack inp) + turn
      in \<lparr>tc_pack = pi_pack inp, tc_config = pi_config inp, tc_market = market, tc_alias = alias,
          tc_multiplier = multiplier, tc_collect_evidence = pi_collect_evidence inp,
          tc_turn = turn, tc_decision_abs = decision_abs, tc_fill_abs = decision_abs + 1,
          tc_decision_ts = decision_ts, tc_drawdown_used = drawdown_used\<rparr>)"

text \<open>
  One iteration of the loop. The source leaves the loop when a turn has ended in a
  liquidation; here the remaining iterations do nothing.
\<close>

definition play_turn ::
    "'st profile_input \<Rightarrow> string \<Rightarrow> MarketData \<Rightarrow> int \<Rightarrow> nat \<Rightarrow> run_state \<times> 'st
      \<Rightarrow> (run_state \<times> 'st) result" where
  "play_turn inp alias market multiplier turn run_st =
     (let (run, st) = run_st in
      if rn_terminal run then Inr (run, st)
      else
      and_then (clock_real_ts (pi_pack inp) turn) (\<lambda>decision_ts.
      and_then (drawdown_1e8 (rn_snapshots run)) (\<lambda>drawdown_used.
      and_then (turnover_1e8 (ac_turnover_notional_micro (rn_account run))
                  (cfg_starting_nav_micro (pi_config inp)) RATE_SCALE) (\<lambda>turnover_used.
      and_then (turn_decision inp alias turn decision_ts drawdown_used turnover_used run st)
        (\<lambda>(decision, run, st).
      and_then (market_phase (context_of inp alias market multiplier turn decision_ts drawdown_used)
                  decision run) (\<lambda>run.
      Inr (run, st)))))))"

definition initial_run :: "'st profile_input \<Rightarrow> MarketData \<Rightarrow> run_state result" where
  "initial_run inp market =
     (let account = new_account (cfg_starting_nav_micro (pi_config inp)) in
      and_then (clock_real_ts (pi_pack inp) 0) (\<lambda>ts.
      and_then (snapshot account market (pk_warmup_bars (pi_pack inp)) 0 (Some ts)) (\<lambda>snap.
      Inr \<lparr>rn_account = account, rn_snapshots = [snap], rn_events = [], rn_decisions = [],
           rn_observations = [], rn_raw_blobs = [], rn_counters = new_counters,
           rn_terminal = False, rn_last_turn = -1\<rparr>)))"

definition totals_of :: "run_state \<Rightarrow> Totals" where
  "totals_of run =
     (let account = rn_account run
      in \<lparr>tt_reason = (if rn_terminal run then ''liquidated'' else ''completed''),
          tt_final_turn = rn_last_turn run,
          tt_final_nav_micro = sn_nav_micro (last (rn_snapshots run)),
          tt_turnover_notional_micro = ac_turnover_notional_micro account,
          tt_fill_cost_cum_micro = ac_fill_cost_cum_micro account,
          tt_fees_cum_micro = ac_fees_cum_micro account,
          tt_funding_cum_micro = ac_funding_cum_micro account,
          tt_liquidation_penalty_cum_micro = ac_liquidation_penalty_cum_micro account\<rparr>)"

definition run_profile :: "'st profile_input \<Rightarrow> 'st \<Rightarrow> (run_state \<times> Totals \<times> 'st) result" where
  "run_profile inp st =
     (case market_aliases (pi_pack inp) of
        [alias] \<Rightarrow>
          and_then (pack_market (pi_pack inp) alias) (\<lambda>market.
          case map_of (ms_cost_profile_multipliers_1e4 (md_spec market)) (pi_profile inp) of
            None \<Rightarrow> Inl (EngineError ''pack does not declare cost profile'')
          | Some multiplier \<Rightarrow>
              and_then (initial_run inp market) (\<lambda>run0.
              and_then (bars_total (pi_pack inp)) (\<lambda>bars.
              and_then (fold_result (play_turn inp alias market multiplier) [0..<bars] (run0, st))
                (\<lambda>(run, st').
              Inr (run, totals_of run, st')))))
      | _ \<Rightarrow> Inl (EngineError ''V1 engine supports exactly one market per scenario pack''))"

end
