(* ===== verification/Engine_Episode.thy ===== *)
theory Engine_Episode
  imports Engine_Run
begin

text \<open>
  The products of an episode in \<open>core/engine.py\<close>: the ledger rows of a profile, its metrics,
  the summary shared by both profiles, the composition \<open>run_episode\<close> of the two profile runs,
  and the economic projection of the event log.
\<close>

section \<open>Ledger rows\<close>

text \<open>The change of NAV between two snapshots and its four attributed parts.\<close>

record ledger_change =
  lc_nav :: int
  lc_price :: int
  lc_funding :: int
  lc_fees :: int
  lc_penalty :: int

definition ledger_change_of :: "Snapshot option \<Rightarrow> Snapshot \<Rightarrow> ledger_change" where
  "ledger_change_of previous s =
     (case previous of
        None \<Rightarrow> \<lparr>lc_nav = 0, lc_price = 0, lc_funding = 0, lc_fees = 0, lc_penalty = 0\<rparr>
      | Some p \<Rightarrow>
          \<lparr>lc_nav = sn_nav_micro s - sn_nav_micro p,
           lc_price = sn_upnl_micro s - sn_upnl_micro p
             + sn_realized_price_cum_micro s - sn_realized_price_cum_micro p,
           lc_funding = - (sn_funding_cum_micro s - sn_funding_cum_micro p),
           lc_fees = - (sn_fees_cum_micro s - sn_fees_cum_micro p),
           lc_penalty = - (sn_liquidation_penalty_cum_micro s
                            - sn_liquidation_penalty_cum_micro p)\<rparr>)"

definition ledger_position :: "string \<Rightarrow> Snapshot \<Rightarrow> string json" where
  "ledger_position alias s = JObj [(alias, JObj
     [(''qty_base_1e8'', JInt (sn_position_qty_base_1e8 s)),
      (''entry_px_ticks'', opt_int (sn_entry_px_ticks s)),
      (''mark_px_ticks'', JInt (sn_mark_close_ticks s)),
      (''upnl_micro'', JInt (sn_upnl_micro s)), (''margin_micro'', JInt (sn_margin_micro s)),
      (''maintenance_margin_micro'', JInt (sn_maintenance_margin_micro s)),
      (''liq_px_ticks'', opt_int (sn_liquidation_px_ticks s)),
      (''dist_to_liq_1e8'', opt_int (sn_distance_to_liquidation_1e8 s))])]"

definition ledger_row :: "string \<Rightarrow> string \<Rightarrow> Snapshot option \<Rightarrow> Snapshot \<Rightarrow> string json result" where
  "ledger_row profile alias previous s =
     (let d = ledger_change_of previous s;
          realized = sn_realized_price_cum_micro s - sn_fees_cum_micro s
            - sn_funding_cum_micro s - sn_liquidation_penalty_cum_micro s
      in
      if lc_nav d \<noteq> lc_price d + lc_funding d + lc_fees d + lc_penalty d
      then Inl (EngineError ''MATH-2 ledger invariant failed'')
      else Inr (JObj
        [(''ts'', JInt (sn_close_ts s)), (''bar_index'', JInt (int (sn_bar_index s))),
         (''turn'', if sn_bar_index s = 0 then JNull else JInt (int (sn_bar_index s) - 1)),
         (''profile'', JStr profile), (''nav_micro'', JInt (sn_nav_micro s)),
         (''cash_micro'', JInt (sn_cash_micro s)), (''realized_pnl_micro'', JInt realized),
         (''d_nav_micro'', JInt (lc_nav d)), (''d_price_pnl_micro'', JInt (lc_price d)),
         (''d_funding_micro'', JInt (lc_funding d)), (''d_fees_micro'', JInt (lc_fees d)),
         (''d_liq_penalty_micro'', JInt (lc_penalty d)),
         (''positions'', ledger_position alias s)]))"

fun ledger_rows :: "string \<Rightarrow> string \<Rightarrow> Snapshot option \<Rightarrow> Snapshot list \<Rightarrow> string json list result" where
  "ledger_rows profile alias previous [] = Inr []"
| "ledger_rows profile alias previous (s # rest) =
     and_then (ledger_row profile alias previous s) (\<lambda>row.
     and_then (ledger_rows profile alias (Some s) rest) (\<lambda>rows. Inr (row # rows)))"

section \<open>Metrics\<close>

text \<open>
  The distances of a snapshot with a position are never missing (an invariant of the run);
  \<open>cast\<close> does nothing at run time.
\<close>

definition cast_int :: "int option \<Rightarrow> int" where
  "cast_int x = (case x of Some n \<Rightarrow> n | None \<Rightarrow> 0)"

definition profile_metrics ::
    "Snapshot list \<Rightarrow> Totals \<Rightarrow> int \<Rightarrow> string \<Rightarrow> string json result" where
  "profile_metrics snapshots totals starting_nav_micro equity_curve_ref =
     (let navs = map sn_nav_micro snapshots;
          in_position = filter (\<lambda>s. sn_position_qty_base_1e8 s \<noteq> 0) snapshots
      in
      and_then (bar_returns navs) (\<lambda>returns.
      and_then (distance_statistics
                  (map (cast_int \<circ> sn_distance_to_liquidation_1e8) in_position)
                  (map (cast_int \<circ> sn_min_intrabar_distance_1e8) in_position)) (\<lambda>distances.
      and_then (case sortino_1e8 returns RATE_SCALE of
                  Inl (UndefinedMetricError _) \<Rightarrow> Inr 0
                | other \<Rightarrow> other) (\<lambda>sortino.
      and_then (net_return_1e8 (tt_final_nav_micro totals) starting_nav_micro RATE_SCALE) (\<lambda>net_return.
      and_then (max_drawdown_1e8 navs RATE_SCALE) (\<lambda>max_drawdown.
      and_then (cvar_5_1e8 returns RATE_SCALE) (\<lambda>cvar.
      and_then (turnover_1e8 (tt_turnover_notional_micro totals) starting_nav_micro RATE_SCALE)
        (\<lambda>turnover.
      Inr (JObj
        [(''net_return_1e8'', JInt net_return), (''max_drawdown_1e8'', JInt max_drawdown),
         (''sortino_1e8'', JInt sortino), (''cvar5_1e8'', JInt cvar),
         (''funding_paid_micro'', JInt (- tt_funding_cum_micro totals)),
         (''fees_paid_micro'', JInt (- tt_fees_cum_micro totals)),
         (''fill_cost_micro'', JInt (- tt_fill_cost_cum_micro totals)),
         (''turnover_1e8'', JInt turnover),
         (''dist_to_liq_min_1e8'', opt_int (ds_min_intrabar_1e8 distances)),
         (''dist_to_liq_p05_1e8'', opt_int (ds_p05_close_1e8 distances)),
         (''dist_to_liq_p25_1e8'', opt_int (ds_p25_close_1e8 distances)),
         (''dist_to_liq_median_1e8'', opt_int (ds_median_close_1e8 distances)),
         (''equity_curve_ref'', JStr equity_curve_ref)])))))))))"

section \<open>Summary of the primary run\<close>

definition survival_verdict :: "Counters \<Rightarrow> string" where
  "survival_verdict counters =
     (if ct_liquidations counters > 0 then ''liquidated''
      else if ct_kill_switch_fired counters then ''killed_flat'' else ''survived'')"

definition add_egress_count :: "event \<Rightarrow> int \<Rightarrow> int result" where
  "add_egress_count e so_far =
     (if ev_type e \<noteq> ''EgressBlocked'' then Inr so_far
      else case ev_payload e of
        JObj payload \<Rightarrow>
          (case dict_get payload ''count'' of
             JInt n \<Rightarrow>
               if n < 1 then Inl (EngineError ''EgressBlocked event count is invalid'')
               else if so_far + n > MAX_IJSON_INT
               then Inl (EngineError ''egress_blocked_count exceeds the I-JSON safe range'')
               else Inr (so_far + n)
           | _ \<Rightarrow> Inl (EngineError ''EgressBlocked event count is invalid''))
      | _ \<Rightarrow> Inl (EngineError ''EgressBlocked event payload is not an object''))"

definition profile_invariant :: "run_state \<Rightarrow> string json result" where
  "profile_invariant run =
     (let c = rn_counters run in
      and_then (fold_result add_egress_count (rn_events run) 0) (\<lambda>egress_blocked.
      Inr (JObj
        [(''bars'', JInt (int (length (rn_snapshots run)))), (''turns'', JInt (int (ct_turns c))),
         (''invalid_actions'', JInt (int (ct_invalid_actions c))),
         (''missed_decisions'', JInt (int (ct_missed_decisions c))),
         (''gate_blocks'', JInt (int (ct_gate_blocks c))),
         (''post_kill_switch_attempts'', JInt (int (ct_post_kill_switch_attempts c))),
         (''egress_blocked_count'', JInt egress_blocked),
         (''liquidated'', JBool (ct_liquidations c > 0)),
         (''kill_switch_fired'', JBool (ct_kill_switch_fired c)),
         (''survival_verdict'', JStr (survival_verdict c))])))"

section \<open>The episode\<close>

record EpisodeResult =
  er_events :: "event list"
  er_observations :: "string json list"
  er_raw_blobs :: "(string \<times> byte list) list"
  er_ledger_primary :: "string json list"
  er_ledger_stress_2x :: "string json list"
  er_metrics :: "string json"
  er_pack :: PackData
  er_config :: EpisodeConfig
  er_run_id :: string
  er_episode_id :: string

definition primary_input ::
    "PackData \<Rightarrow> EpisodeConfig \<Rightarrow> 'st agent \<Rightarrow> string \<Rightarrow> nat \<Rightarrow> 'st profile_input" where
  "primary_input pack config agent episode_id depth =
     \<lparr>pi_pack = pack, pi_config = config, pi_profile = ''primary'', pi_episode_id = episode_id,
      pi_agent = Some agent, pi_replay = None, pi_collect_evidence = True, pi_depth = depth\<rparr>"

definition stress_input ::
    "PackData \<Rightarrow> EpisodeConfig \<Rightarrow> TurnDecision list \<Rightarrow> string \<Rightarrow> nat \<Rightarrow> 'st profile_input" where
  "stress_input pack config decisions episode_id depth =
     \<lparr>pi_pack = pack, pi_config = config, pi_profile = ''stress_2x'', pi_episode_id = episode_id,
      pi_agent = None, pi_replay = Some decisions, pi_collect_evidence = False, pi_depth = depth\<rparr>"

definition episode_metrics :: "string \<Rightarrow> string json \<Rightarrow> string json \<Rightarrow> string json \<Rightarrow> string json" where
  "episode_metrics run_id primary stress invariant = JObj
     [(''schema'', JStr ''metrics/v1''), (''run_id'', JStr run_id),
      (''claim_label'', JStr ''survival-stress''),
      (''profiles'', JObj [(''primary'', primary), (''stress_2x'', stress)]),
      (''profile_invariant'', invariant)]"

definition episode_end_payload :: "Totals \<Rightarrow> string \<Rightarrow> string json" where
  "episode_end_payload totals metrics_sha = JObj
     [(''reason'', JStr (tt_reason totals)), (''final_turn'', JInt (tt_final_turn totals)),
      (''final_nav_micro'', JInt (tt_final_nav_micro totals)),
      (''metrics_sha256'', JStr metrics_sha)]"

text \<open>
  \<open>pack\<close> is the loaded pack. Every member of the result is computed in the source's order.
\<close>

definition run_episode ::
    "PackData \<Rightarrow> 'st agent \<Rightarrow> EpisodeConfig \<Rightarrow> string \<Rightarrow> string \<Rightarrow> nat \<Rightarrow> 'st
      \<Rightarrow> (EpisodeResult \<times> 'st) result" where
  "run_episode pack agent config run_id episode_id depth st =
     (case market_aliases pack of
        [] \<Rightarrow> Inl IndexError
      | alias # _ \<Rightarrow>
      and_then (pack_market pack alias) (\<lambda>market.
      and_then (validate_cost_profiles config (ms_cost_profile_multipliers_1e4 (md_spec market)))
        (\<lambda>_.
      if cfg_cost_profiles config \<noteq> [''primary'', ''stress_2x'']
      then Inl (EngineError ''V1 requires primary and stress_2x cost profiles'')
      else
      and_then (run_profile (primary_input pack config agent episode_id depth) st)
        (\<lambda>(primary, primary_totals, st1).
      and_then (run_profile (stress_input pack config (rn_decisions primary) episode_id depth) st1)
        (\<lambda>(stress, stress_totals, _).
      let close_ts = sn_close_ts (last (rn_snapshots primary)) in
      and_then (drain_harness_events agent st1) (\<lambda>(drained, st2).
      and_then (emit_harness_events (rn_events primary) drained close_ts None None) (\<lambda>events.
      let primary = primary\<lparr>rn_events := events\<rparr> in
      and_then (profile_invariant primary) (\<lambda>invariant.
      and_then (profile_metrics (rn_snapshots primary) primary_totals
                  (cfg_starting_nav_micro config) ''ledger.jsonl'') (\<lambda>primary_metrics.
      and_then (profile_metrics (rn_snapshots stress) stress_totals
                  (cfg_starting_nav_micro config) ''ledger_stress_2x.jsonl'') (\<lambda>stress_metrics.
      let metrics = episode_metrics run_id primary_metrics stress_metrics invariant in
      and_then (canonical_bytes (unicode_json metrics)) (\<lambda>bytes.
      let events = fst (emit events ''EpisodeEnd''
            (episode_end_payload primary_totals (sha256_prefixed (bytes @ [10])))
            close_ts None None ''engine'')
      in
      and_then (ledger_rows ''primary'' alias None (rn_snapshots primary)) (\<lambda>ledger_primary.
      and_then (ledger_rows ''stress_2x'' alias None (rn_snapshots stress)) (\<lambda>ledger_stress.
      Inr (\<lparr>er_events = events, er_observations = rn_observations primary,
            er_raw_blobs = rn_raw_blobs primary, er_ledger_primary = ledger_primary,
            er_ledger_stress_2x = ledger_stress, er_metrics = metrics, er_pack = pack,
            er_config = config, er_run_id = run_id, er_episode_id = episode_id\<rparr>, st2))))))))))))))"

section \<open>Economic projection of the log\<close>

definition GOLDEN_EVENT_TYPES :: "string list" where
  "GOLDEN_EVENT_TYPES = [''ActionParsed'', ''ActionRejected'', ''RiskCheck'', ''OrderFilled'',
     ''OrderCancelled'', ''FundingApplied'', ''NearLiquidation'', ''LiquidationTriggered'',
     ''EpisodeEnd'']"

text \<open>Wick-derived events carry the opening time of their bar.\<close>

definition golden_ts :: "PackData \<Rightarrow> event \<Rightarrow> int result" where
  "golden_ts pack e =
     (if ev_type e = ''NearLiquidation'' \<or> ev_type e = ''LiquidationTriggered''
      then (case ev_bar_index e of
              None \<Rightarrow> Inr (ev_ts e)
            | Some bar_index \<Rightarrow>
                and_then (py_nth (market_aliases pack) 0) (\<lambda>alias.
                and_then (pack_market pack alias) (\<lambda>market.
                and_then (py_nth (md_trade market) (pk_warmup_bars pack + bar_index)) (\<lambda>row.
                Inr (br_ts row)))))
      else Inr (ev_ts e))"

definition project_event :: "PackData \<Rightarrow> event \<Rightarrow> event list \<Rightarrow> event list result" where
  "project_event pack e projected =
     (if ev_type e \<notin> set GOLDEN_EVENT_TYPES then Inr projected
      else and_then (golden_ts pack e) (\<lambda>ts.
        Inr (projected @ [e\<lparr>ev_ts := ts, ev_seq := length projected\<rparr>])))"

definition golden_event_projection :: "EpisodeResult \<Rightarrow> event list result" where
  "golden_event_projection r = fold_result (project_event (er_pack r)) (er_events r) []"

end
