(* ===== verification/Run_Invariant.thy ===== *)
theory Run_Invariant
  imports Engine_Episode Engine_Invariant
begin

text \<open>
  What holds at the end of every profile run: the interface of a counted loop, its
  interpretation on the turns of the engine, and the conservation laws, the shape of the run
  and the ledger that follow.
\<close>

section \<open>Counted loops\<close>

text \<open>
  The client is a \<open>for i in range(n)\<close> loop whose body may raise; the provider promises that
  iteration \<open>i\<close> takes \<open>inv i\<close> to \<open>inv (i + 1)\<close>.
\<close>

locale counted_loop =
  fixes body :: "nat \<Rightarrow> 's \<Rightarrow> 's result" and inv :: "nat \<Rightarrow> 's \<Rightarrow> bool"
  assumes body_inv: "inv i s \<Longrightarrow> body i s = Inr t \<Longrightarrow> inv (Suc i) t"
begin

lemma loop_inv_from:
  "inv a s \<Longrightarrow> a \<le> b \<Longrightarrow> fold_result body [a..<b] s = Inr t \<Longrightarrow> inv b t"
proof (induction "b - a" arbitrary: a s)
  case 0
  then show ?case by simp
next
  case (Suc k)
  then have "[a..<b] = a # [Suc a..<b]" by (simp add: upt_conv_Cons)
  with Suc.prems(3) obtain u where "body a s = Inr u" "fold_result body [Suc a..<b] u = Inr t"
    by (auto simp: and_then_eq_Inr)
  with Suc show ?case by (intro Suc.hyps(1)[of "Suc a" u]) (auto intro: body_inv)
qed

lemma loop_inv: "inv 0 s \<Longrightarrow> fold_result body [0..<n] s = Inr t \<Longrightarrow> inv n t"
  by (rule loop_inv_from) simp_all

end

section \<open>Evidence of the decision\<close>

lemma emit_harness_numbered:
  "numbered es \<Longrightarrow> numbered (fold (emit_harness_event ts t b) fs es)"
  by (induction fs arbitrary: es) (simp_all add: emit_harness_event_def numbered_snoc)

lemma emit_harness_events_numbered:
  "emit_harness_events es fs ts t b = Inr es' \<Longrightarrow> numbered es \<Longrightarrow> numbered es'"
  by (auto simp: emit_harness_events_def and_then_eq_Inr emit_harness_numbered)

lemma record_reply_only:
  "record_reply depth ts turn ar run = Inr run' \<Longrightarrow> only_evidence run run'"
  by (auto simp: record_reply_def Let_def and_then_eq_Inr only_evidence_def frame_def numbered_snoc
      split: prod.splits)

lemma record_replies_only:
  "fold_result (record_reply depth ts turn) ars run = Inr run' \<Longrightarrow> only_evidence run run'"
  by (induction ars arbitrary: run)
     (auto simp: and_then_eq_Inr intro: only_evidence_trans dest: record_reply_only)

lemma record_decision_evidence_only:
  assumes "record_decision_evidence depth ts turn obs d run = Inr run'"
  shows "only_evidence run run'"
proof -
  from assms obtain bytes mid events where
    mid: "fold_result (record_reply depth ts turn) (zip [1..<length (td_responses d) + 1] (td_responses d))
      (run\<lparr>rn_observations := rn_observations run @ [JObj obs],
           rn_events := fst (emit (rn_events run) ''ObservationEmitted'' (JObj
             [(''observation_sha256'', JStr (sha256_prefixed bytes)),
              (''observation_ref'', JStr (''observations/'' @ pad4 turn @ ''.json''))])
             ts (Some turn) (Some turn) ''engine'')\<rparr>) = Inr mid"
    and ev: "emit_harness_events (rn_events mid) (td_harness_events d) ts (Some turn) (Some turn) = Inr events"
    and run': "run' = mid\<lparr>rn_events := events\<rparr>"
    by (auto simp: record_decision_evidence_def Let_def and_then_eq_Inr)
  note m = record_replies_only[OF mid]
  show ?thesis
    using m emit_harness_events_numbered[OF ev]
    by (auto simp: run' only_evidence_def frame_def numbered_snoc)
qed

lemma live_decision_effect:
  assumes "live_decision inp alias turn ts dd tu run st = Inr (d, run', st')"
  shows "only_evidence (run\<lparr>rn_decisions := rn_decisions run @ [d]\<rparr>) run'"
  using assms
  by (auto simp: live_decision_def Let_def and_then_eq_Inr split: option.splits if_splits
      dest: record_decision_evidence_only)

lemma turn_decision_effect:
  assumes "turn_decision inp alias turn ts dd tu run st = Inr (d, run', st')"
  shows "only_evidence (run\<lparr>rn_decisions := rn_decisions run'\<rparr>) run'"
    "rn_decisions run' = (if pi_replay inp = None then rn_decisions run @ [d] else rn_decisions run)"
    "\<And>ds. pi_replay inp = Some ds \<Longrightarrow> turn < length ds \<and> d = ds ! turn"
proof -
  show r: "\<And>ds. pi_replay inp = Some ds \<Longrightarrow> turn < length ds \<and> d = ds ! turn"
    using assms by (auto simp: turn_decision_def split: if_splits)
  show dec: "rn_decisions run' = (if pi_replay inp = None then rn_decisions run @ [d] else rn_decisions run)"
    and "only_evidence (run\<lparr>rn_decisions := rn_decisions run'\<rparr>) run'"
  proof (induction "pi_replay inp")
    case None
    then have l: "live_decision inp alias turn ts dd tu run st = Inr (d, run', st')"
      using assms by (simp add: turn_decision_def)
    note e = live_decision_effect[OF l]
    then have d: "rn_decisions run' = rn_decisions run @ [d]" by (simp add: only_evidence_def frame_def)
    { case 1 from d None show ?case by simp }
    { case 2 from e show ?case by (simp only: d) }
  next
    case (Some ds)
    note ds = Some[symmetric]
    then have "run' = run" using assms by (simp add: turn_decision_def split: if_split_asm)
    { case 1 then show ?case using ds \<open>run' = run\<close> by auto }
    { case 2 show ?case by (simp add: \<open>run' = run\<close>) }
  qed
qed

lemma with_decisions_ok: "run_ok start run \<Longrightarrow> run_ok start (run\<lparr>rn_decisions := ds\<rparr>)"
  by (simp add: run_ok_def)

section \<open>The turns of a run\<close>

definition turns_inv :: "'st profile_input \<Rightarrow> nat \<Rightarrow> run_state \<times> 'st \<Rightarrow> bool" where
  "turns_inv inp i run_st \<longleftrightarrow> (let run = fst run_st; turns = ct_turns (rn_counters run) in
     run_ok (cfg_starting_nav_micro (pi_config inp)) run \<and>
     taken_from (rn_account run) (last (rn_snapshots run)) \<and>
     length (rn_snapshots run) = turns + 1 \<and> turns \<le> i \<and>
     (\<not> rn_terminal run \<longrightarrow> turns = i) \<and>
     length (rn_decisions run) = (if pi_replay inp = None then turns else 0) \<and>
     (\<forall>ds. pi_replay inp = Some ds \<longrightarrow> turns \<le> length ds))"

lemma play_turn_inv:
  assumes "turns_inv inp i s" "play_turn inp alias market mul i s = Inr t"
  shows "turns_inv inp (Suc i) t"
proof -
  obtain run st where s: "s = (run, st)" by (cases s)
  let ?start = "cfg_starting_nav_micro (pi_config inp)"
  from assms(1) have inv: "run_ok ?start run" "length (rn_snapshots run) = ct_turns (rn_counters run) + 1"
    "ct_turns (rn_counters run) \<le> i" "\<not> rn_terminal run \<longrightarrow> ct_turns (rn_counters run) = i"
    "length (rn_decisions run) = (if pi_replay inp = None then ct_turns (rn_counters run) else 0)"
    by (simp_all add: turns_inv_def s Let_def)
  show ?thesis
  proof (cases "rn_terminal run")
    case True
    with assms show ?thesis by (auto simp: play_turn_def turns_inv_def s Let_def)
  next
    case False
    from assms(2) False obtain ts dd tu d mid st' run' where
      d: "turn_decision inp alias i ts dd tu run st = Inr (d, mid, st')"
      and m: "market_phase (context_of inp alias market mul i ts dd) d mid = Inr run'"
      and t: "t = (run', st')"
      by (auto simp: play_turn_def s and_then_eq_Inr)
    note D = turn_decision_effect[OF d]
    have ok: "run_ok ?start mid" by (rule only_evidence_ok[OF D(1) with_decisions_ok[OF inv(1)]])
    have mid: "\<not> rn_terminal mid" "rn_snapshots mid = rn_snapshots run"
      "ct_turns (rn_counters mid) = i"
      using D(1) False inv(4) by (simp_all add: only_evidence_def frame_def)
    have len: "length (rn_snapshots mid) = tc_turn (context_of inp alias market mul i ts dd) + 1"
      using mid(2) inv(2,4) False by (simp add: context_of_def Let_def)
    from m ok mid(1) len obtain sn where R: "run_ok ?start run'"
      "rn_snapshots run' = rn_snapshots mid @ [sn]" "taken_from (rn_account run') sn"
      "rn_decisions run' = rn_decisions mid"
      "ct_turns (rn_counters run') = ct_turns (rn_counters mid) + 1"
      by (rule market_phase_ok)
    have "length (rn_decisions run') = (if pi_replay inp = None then Suc i else 0)"
      using R(4) D(2) inv(4,5) False by (simp split: if_split_asm)
    moreover have "\<And>ds. pi_replay inp = Some ds \<Longrightarrow> Suc i \<le> length ds" using D(3) by force
    ultimately show ?thesis using R mid len
      by (simp add: turns_inv_def t Let_def context_of_def)
  qed
qed

interpretation turns: counted_loop "play_turn inp alias market mul" "turns_inv inp"
  for inp :: "'st profile_input" and "alias" market mul
  by unfold_locales (rule play_turn_inv)

lemma initial_run_inv:
  assumes "initial_run inp market = Inr run"
  shows "turns_inv inp 0 (run, st)"
proof -
  let ?a = "new_account (cfg_starting_nav_micro (pi_config inp))"
  from assms obtain ts snap where s: "snapshot ?a market (pk_warmup_bars (pi_pack inp)) 0 (Some ts) = Inr snap"
    and run: "run = \<lparr>rn_account = ?a, rn_snapshots = [snap], rn_events = [], rn_decisions = [],
           rn_observations = [], rn_raw_blobs = [], rn_counters = new_counters,
           rn_terminal = False, rn_last_turn = -1\<rparr>"
    by (auto simp: initial_run_def Let_def and_then_eq_Inr)
  note f = snapshot_fields[OF s]
  have "sn_upnl_micro snap = 0" by (rule f(5)) (simp add: new_account_def)
  moreover have "sn_cash_micro snap = cfg_starting_nav_micro (pi_config inp)"
    using f(1) by (simp add: taken_from_def new_account_def)
  ultimately show ?thesis
    using f(1,2,3) snapshot_is_ok[OF s new_account_ok] new_account_ok
    by (simp add: turns_inv_def run run_ok_def new_counters_def numbered_def)
       (simp add: new_account_def)
qed

lemma run_profile_inv:
  assumes "run_profile inp st = Inr (run, totals, st')"
  obtains bars where "bars_total (pi_pack inp) = Inr bars" "turns_inv inp bars (run, st')"
    "totals = totals_of run"
proof -
  from assms obtain "alias" market mul run0 bars where r:
    "initial_run inp market = Inr run0" "bars_total (pi_pack inp) = Inr bars"
    "fold_result (play_turn inp alias market mul) [0..<bars] (run0, st) = Inr (run, st')"
    "totals = totals_of run"
    by (auto simp: run_profile_def and_then_eq_Inr split: list.splits option.splits)
  show thesis by (rule that[OF r(2) turns.loop_inv[OF initial_run_inv[OF r(1)] r(3)] r(4)])
qed

end
