(* ===== verification/Sample_Run.thy ===== *)
theory Sample_Run
  imports Run_Invariant
begin

text \<open>
  A small scenario on which the engine's definitions are evaluated: one market, flat bars,
  and decisions with a leverage target. The witnesses of the engine's properties and the
  concrete behaviours of a whole run are computed on it.
\<close>

section \<open>A pack of flat bars\<close>

definition sample_provenance :: "string \<Rightarrow> nat \<Rightarrow> int \<Rightarrow> RowProvenance" where
  "sample_provenance role i ts = \<lparr>pv_market = ''BTC'', pv_role = role, pv_path = role,
     pv_row_index = i, pv_ts = ts, pv_available_at = ts + 3600000\<rparr>"

text \<open>Bar \<open>i\<close> opens and closes at \<open>p\<close> and reaches down to \<open>low\<close>.\<close>

definition sample_bar :: "string \<Rightarrow> nat \<Rightarrow> int \<Rightarrow> int \<Rightarrow> BarRow" where
  "sample_bar role i p low = (let ts = 1600000000000 + int i * 3600000 in
     \<lparr>br_ts = ts, br_available_at = ts + 3600000, br_o = p, br_h = p, br_l = low, br_c = p,
      br_v_base_1e8 = 1000000000000, br_provenance = sample_provenance role i ts\<rparr>)"

definition sample_bars :: "string \<Rightarrow> int list \<Rightarrow> BarRow list" where
  "sample_bars role lows = map (\<lambda>i. sample_bar role i 500000 (lows ! i)) [0..<length lows]"

definition sample_spec :: MarketSpec where
  "sample_spec = \<lparr>ms_alias = ''BTC'', ms_tick_size_micro = 100000, ms_qty_step_base_1e8 = 100000,
     ms_min_notional_micro = 10000000, ms_maker_fee_rate_1e8 = 20000, ms_taker_fee_rate_1e8 = 50000,
     ms_leverage_cap_lev_1e4 = 100000,
     ms_margin_tiers = [\<lparr>mt_notional_cap_micro = 10000000000000, mt_initial_rate_1e8 = 1000000,
       mt_maintenance_rate_1e8 = 500000\<rparr>],
     ms_liquidation_penalty_1e8 = 500000,
     ms_funding = \<lparr>fs_interval_ms = 28800000, fs_settlement_offsets_ms = [0, 28800000, 57600000],
       fs_cap_1e8 = 300000, fs_floor_1e8 = -300000\<rparr>,
     ms_half_spread_1e8 = 50000, ms_impact_model = ''linear'', ms_impact_coeff_1e8 = 0,
     ms_participation_cap_1e8 = 10000000,
     ms_cost_profile_multipliers_1e4 = [(''primary'', 10000), (''stress_2x'', 20000)]\<rparr>"

text \<open>\<open>lows\<close> are the lows of the mark; trade and index bars are flat.\<close>

definition sample_market :: "int list \<Rightarrow> MarketData" where
  "sample_market lows = \<lparr>md_spec = sample_spec, md_trade = sample_bars ''trade'' (map (\<lambda>_. 500000) lows),
     md_mark = sample_bars ''mark'' lows,
     md_index = sample_bars ''index'' (map (\<lambda>_. 500000) lows),
     md_funding = []\<rparr>"

definition sample_pack :: "int list \<Rightarrow> PackData" where
  "sample_pack lows = \<lparr>pk_root = ''sample'', pk_pack_id = ''sample'', pk_content_hash = [],
     pk_window_start_ts = 1600000000000, pk_window_end_ts = 1600010800000,
     pk_decision_bar_ms = 3600000, pk_warmup_bars = 0,
     pk_default_lookback = \<lparr>lb_bars = 1, lb_funding_prints = 0\<rparr>,
     pk_markets = [(''BTC'', sample_market lows)], pk_manifest = []\<rparr>"

section \<open>Recorded decisions\<close>

definition sample_decision :: "int \<Rightarrow> int option \<Rightarrow> TurnDecision" where
  "sample_decision target slippage = \<lparr>td_responses = [], td_harness_events = [],
     td_parsed = Some \<lparr>pa_intent_kind = ''leverage_target'', pa_target_lev_1e4 = [(''BTC'', target)],
       pa_max_slippage_bps = slippage, pa_from_attempt = 1\<rparr>,
     td_rejection = None, td_raw_sha256 = None\<rparr>"

definition sample_input :: "int list \<Rightarrow> string \<Rightarrow> TurnDecision list \<Rightarrow> unit profile_input" where
  "sample_input lows profile decisions =
     \<lparr>pi_pack = sample_pack lows, pi_config = default_EpisodeConfig, pi_profile = profile,
      pi_episode_id = ''ep_0123456789abcdef'', pi_agent = None, pi_replay = Some decisions,
      pi_collect_evidence = False, pi_depth = 8\<rparr>"

section \<open>States of a run\<close>

text \<open>A flat account at bar \<open>i\<close>, and the run that has idled for \<open>n\<close> turns.\<close>

definition sample_snapshot :: "nat \<Rightarrow> Snapshot" where
  "sample_snapshot i = \<lparr>sn_bar_index = i, sn_absolute_bar_index = i,
     sn_close_ts = 1600003600000 + int i * 3600000, sn_position_qty_base_1e8 = 0,
     sn_entry_px_ticks = None, sn_mark_close_ticks = 500000, sn_upnl_micro = 0,
     sn_cash_micro = 10000000000, sn_nav_micro = 10000000000, sn_fees_cum_micro = 0,
     sn_funding_cum_micro = 0, sn_realized_price_cum_micro = 0,
     sn_liquidation_penalty_cum_micro = 0, sn_margin_micro = 0, sn_maintenance_margin_micro = 0,
     sn_liquidation_px_ticks = None, sn_distance_to_liquidation_1e8 = None,
     sn_min_intrabar_distance_1e8 = None\<rparr>"

definition sample_idle :: "nat \<Rightarrow> run_state" where
  "sample_idle n = \<lparr>rn_account = new_account 10000000000,
     rn_snapshots = map sample_snapshot [0..<n + 1], rn_events = [], rn_decisions = [],
     rn_observations = [], rn_raw_blobs = [], rn_counters = new_counters\<lparr>ct_turns := n\<rparr>,
     rn_terminal = False, rn_last_turn = int n - 1\<rparr>"

lemma sample_shape:
  "market_aliases (sample_pack lows) = [''BTC'']"
  "pack_market (sample_pack lows) ''BTC'' = Inr (sample_market lows)"
  "bars_total (sample_pack [a, b]) = Inr 1" "bars_total (sample_pack [a, b, c]) = Inr 2"
  by (simp_all add: market_aliases_def sample_pack_def pack_market_def bars_total_def
      sample_market_def sample_bars_def)

lemma sample_initial:
  "initial_run (sample_input [500000, 300000, 500000] profile ds) (sample_market [500000, 300000, 500000])
     = Inr (sample_idle 0)"
  by code_simp

lemma sample_initial_2:
  "initial_run (sample_input [500000, 500000] profile ds) (sample_market [500000, 500000])
     = Inr (sample_idle 0)"
  by code_simp

text \<open>Under the primary costs the order fills and the crash liquidates it.\<close>

lemma sample_liquidated:
  "case play_turn (sample_input [500000, 300000, 500000] ''primary'' [sample_decision 30000 (Some 7)])
      ''BTC'' (sample_market [500000, 300000, 500000]) 10000 0 (sample_idle 0, ())
   of Inr (run, _) \<Rightarrow> rn_terminal run \<and> rn_last_turn run = 0 | Inl _ \<Rightarrow> False"
  by code_simp

text \<open>Without evidence the text of a cancellation is never built.\<close>

lemma cancel_order_quiet [code]:
  "cancel_order ctx reason requested run =
     (if tc_collect_evidence ctx
      then record_event ctx ''OrderCancelled''
        (order_cancelled_payload ctx reason requested requested
           (reason @ '': requested_qty '' @ show_int requested @ '' not executed''))
        (tc_decision_ts ctx) (tc_turn ctx + 1) run
      else run)"
  by (simp add: cancel_order_def record_event_def)

text \<open>Under the doubled costs the same order exceeds its slippage limit and is cancelled.\<close>

lemma sample_stress_turns:
  "play_turn (sample_input [500000, 300000, 500000] ''stress_2x'' [sample_decision 30000 (Some 7)])
      ''BTC'' (sample_market [500000, 300000, 500000]) 20000 0 (sample_idle 0, ()) = Inr (sample_idle 1, ())"
  "play_turn (sample_input [500000, 300000, 500000] ''stress_2x'' [sample_decision 30000 (Some 7)])
      ''BTC'' (sample_market [500000, 300000, 500000]) 20000 1 (sample_idle 1, ())
     = Inl (EngineError ''recorded decision trace ended before the episode'')"
  by code_simp+

text \<open>One turn that buys and holds.\<close>

lemma sample_hold:
  "case play_turn (sample_input [500000, 500000] ''primary'' [sample_decision 30000 None])
      ''BTC'' (sample_market [500000, 500000]) 10000 0 (sample_idle 0, ())
   of Inr (run, _) \<Rightarrow> ac_position_qty_base_1e8 (rn_account run) = 60000000 | Inl _ \<Rightarrow> False"
  by code_simp

end
