(* ===== verification/Run_Properties.thy ===== *)
theory Run_Properties
  imports Sample_Run
begin

text \<open>
  The properties of whole runs: value is conserved in every snapshot, the run has the shape
  the recorder relies on, a run that was liquidated or killed ends flat, and the ledger of a
  run always balances. The last property is about the stress run, which can outlive the
  decisions it replays.
\<close>

section \<open>Conservation and shape\<close>

lemma sample_run:
  obtains run totals where
    "run_profile (sample_input [500000, 500000] ''primary'' [sample_decision 30000 None]) ()
       = Inr (run, totals, ())"
    "ac_position_qty_base_1e8 (rn_account run) = 60000000"
proof -
  let ?inp = "sample_input [500000, 500000] ''primary'' [sample_decision 30000 None]"
  let ?m = "sample_market [500000, 500000]"
  obtain run where r: "play_turn ?inp ''BTC'' ?m 10000 0 (sample_idle 0, ()) = Inr (run, ())"
    "ac_position_qty_base_1e8 (rn_account run) = 60000000"
    using sample_hold by (auto split: sum.splits prod.splits)
  have m: "map_of (ms_cost_profile_multipliers_1e4 (md_spec ?m)) ''primary'' = Some 10000"
    by (simp add: sample_market_def sample_spec_def)
  have p: "pi_pack ?inp = sample_pack [500000, 500000]" "pi_profile ?inp = ''primary''"
    by (simp_all add: sample_input_def)
  have "run_profile ?inp () = Inr (run, totals_of run, ())"
    by (simp add: run_profile_def p sample_shape m sample_initial_2 r)
  with r(2) that show thesis by blast
qed

text \<open>
  Property C30. Value is conserved by a whole run, to the unit and in every snapshot: NAV is
  cash plus unrealised PnL, and cash is the starting NAV plus realised price PnL minus fees,
  funding and liquidation penalties; the run starts at the starting NAV.
\<close>

theorem run_value_conserved:
  assumes "run_profile inp st = Inr (run, totals, st')"
  shows "(\<forall>s \<in> set (rn_snapshots run).
      sn_nav_micro s = sn_cash_micro s + sn_upnl_micro s \<and>
      sn_cash_micro s = cfg_starting_nav_micro (pi_config inp) + sn_realized_price_cum_micro s
        - sn_fees_cum_micro s - sn_funding_cum_micro s - sn_liquidation_penalty_cum_micro s) \<and>
    sn_nav_micro (hd (rn_snapshots run)) = cfg_starting_nav_micro (pi_config inp) \<and>
    tt_final_nav_micro totals = sn_nav_micro (last (rn_snapshots run))"
proof -
  from assms obtain bars where inv: "turns_inv inp bars (run, st')" "totals = totals_of run"
    by (rule run_profile_inv)
  then have ok: "run_ok (cfg_starting_nav_micro (pi_config inp)) run"
    by (simp add: turns_inv_def Let_def)
  have "sn_nav_micro s = sn_cash_micro s + sn_upnl_micro s \<and>
      sn_cash_micro s = cfg_starting_nav_micro (pi_config inp) + sn_realized_price_cum_micro s
        - sn_fees_cum_micro s - sn_funding_cum_micro s - sn_liquidation_penalty_cum_micro s"
    if "s \<in> set (rn_snapshots run)" for s
    using run_okD(5)[OF ok that] unfolding snapshot_ok_def nav_identity_holds_def
      cash_conservation_holds_def by linarith
  with run_okD(3)[OF ok] inv(2) show ?thesis by (simp add: totals_of_def Let_def)
qed

theorem run_value_conserved_witness:
  "\<exists>run totals. run_profile (sample_input [500000, 500000] ''primary'' [sample_decision 30000 None]) ()
      = Inr (run, totals, ()) \<and>
    tt_final_nav_micro totals = sn_nav_micro (last (rn_snapshots run))"
proof -
  obtain run totals where
    r: "run_profile (sample_input [500000, 500000] ''primary'' [sample_decision 30000 None]) () = Inr (run, totals, ())"
    by (rule sample_run)
  from run_value_conserved[OF r] r show ?thesis by blast
qed

text \<open>
  Property C31. The shape of a run: one snapshot per turn after the opening one, numbered by
  bar; events numbered without gaps; every bar is played unless the run was liquidated; at
  most one liquidation, and exactly one when that is the reason of the end; one decision per
  turn when the agent is live, and never more turns than recorded decisions in a replay.
\<close>

theorem run_shape:
  assumes "run_profile inp st = Inr (run, totals, st')"
  shows "\<exists>bars turns. bars_total (pi_pack inp) = Inr bars \<and> turns = ct_turns (rn_counters run) \<and>
    turns \<le> bars \<and> (tt_reason totals \<noteq> ''liquidated'' \<longrightarrow> turns = bars) \<and>
    map sn_bar_index (rn_snapshots run) = [0..<turns + 1] \<and>
    map ev_seq (rn_events run) = [0..<length (rn_events run)] \<and>
    ct_liquidations (rn_counters run) = (if tt_reason totals = ''liquidated'' then 1 else 0) \<and>
    (pi_replay inp = None \<longrightarrow> length (rn_decisions run) = turns) \<and>
    (\<forall>ds. pi_replay inp = Some ds \<longrightarrow> turns \<le> length ds)"
proof -
  from assms obtain bars where inv: "bars_total (pi_pack inp) = Inr bars"
    "turns_inv inp bars (run, st')" "totals = totals_of run"
    by (rule run_profile_inv)
  then have ok: "run_ok (cfg_starting_nav_micro (pi_config inp)) run"
    by (simp add: turns_inv_def Let_def)
  have reason: "tt_reason totals = ''liquidated'' \<longleftrightarrow> rn_terminal run"
    by (simp add: inv(3) totals_of_def Let_def)
  show ?thesis
    unfolding reason
    using inv(1,2) run_okD(4,6,7)[OF ok] by (auto simp: turns_inv_def Let_def numbered_def)
qed

theorem run_shape_witness:
  "\<exists>run totals. run_profile (sample_input [500000, 500000] ''primary'' [sample_decision 30000 None]) ()
      = Inr (run, totals, ()) \<and> (\<exists>turns. map sn_bar_index (rn_snapshots run) = [0..<turns + 1])"
proof -
  obtain run totals where
    r: "run_profile (sample_input [500000, 500000] ''primary'' [sample_decision 30000 None]) () = Inr (run, totals, ())"
    by (rule sample_run)
  from run_shape[OF r] r show ?thesis by blast
qed

text \<open>
  Property C32. A run that was liquidated, or whose drawdown kill switch fired, ends flat: the
  last snapshot has no position and no margin, and its NAV is pure cash.
\<close>

theorem stopped_run_ends_flat:
  assumes "run_profile inp st = Inr (run, totals, st')"
    and "tt_reason totals = ''liquidated'' \<or> ct_kill_switch_fired (rn_counters run)"
  shows "let s = last (rn_snapshots run) in
    sn_position_qty_base_1e8 s = 0 \<and> sn_margin_micro s = 0 \<and>
    sn_nav_micro s = sn_cash_micro s \<and> sn_liquidation_px_ticks s = None"
proof -
  from assms(1) obtain bars where inv: "turns_inv inp bars (run, st')" "totals = totals_of run"
    by (rule run_profile_inv)
  then have ok: "run_ok (cfg_starting_nav_micro (pi_config inp)) run"
    and tk: "taken_from (rn_account run) (last (rn_snapshots run))"
    by (simp_all add: turns_inv_def Let_def)
  have "rn_terminal run \<or> ac_kill_switch_active (rn_account run)"
    using assms(2) run_okD(9)[OF ok] by (auto simp: inv(2) totals_of_def Let_def split: if_splits)
  then have "ac_position_qty_base_1e8 (rn_account run) = 0"
    using run_okD(1,8)[OF ok] by (auto simp: account_ok_def)
  then show ?thesis
    using tk run_okD(5)[OF ok, of "last (rn_snapshots run)"] run_okD(2)[OF ok]
    by (simp add: taken_from_def snapshot_ok_def nav_identity_holds_def Let_def)
qed

section \<open>Liquidation of one profile only\<close>

abbreviation crash_decisions :: "TurnDecision list" where
  "crash_decisions \<equiv> [sample_decision 30000 (Some 7)]"

lemma sample_crash_primary:
  obtains run totals where
    "run_profile (sample_input [500000, 300000, 500000] ''primary'' crash_decisions) () = Inr (run, totals, ())"
    "tt_reason totals = ''liquidated''" "tt_final_turn totals = 0"
proof -
  let ?inp = "sample_input [500000, 300000, 500000] ''primary'' crash_decisions"
  let ?m = "sample_market [500000, 300000, 500000]"
  obtain run where r: "play_turn ?inp ''BTC'' ?m 10000 0 (sample_idle 0, ()) = Inr (run, ())"
    "rn_terminal run" "rn_last_turn run = 0"
    using sample_liquidated by (auto split: sum.splits prod.splits)
  have m: "map_of (ms_cost_profile_multipliers_1e4 (md_spec ?m)) ''primary'' = Some 10000"
    by (simp add: sample_market_def sample_spec_def)
  have p: "pi_pack ?inp = sample_pack [500000, 300000, 500000]" "pi_profile ?inp = ''primary''"
    by (simp_all add: sample_input_def)
  have "play_turn ?inp ''BTC'' ?m 10000 1 (run, ()) = Inr (run, ())"
    using r(2) by (simp add: play_turn_def)
  with r(1) have "run_profile ?inp () = Inr (run, totals_of run, ())"
    by (simp add: run_profile_def p sample_shape m sample_initial upt_rec numeral_2_eq_2)
  then show thesis by (rule that) (use r in \<open>simp_all add: totals_of_def Let_def\<close>)
qed

theorem stopped_run_ends_flat_witness:
  "\<exists>run totals. run_profile (sample_input [500000, 300000, 500000] ''primary'' crash_decisions) ()
      = Inr (run, totals, ()) \<and> sn_position_qty_base_1e8 (last (rn_snapshots run)) = 0"
proof -
  obtain run totals where r: "run_profile (sample_input [500000, 300000, 500000] ''primary'' crash_decisions) ()
      = Inr (run, totals, ())" "tt_reason totals = ''liquidated''"
    by (rule sample_crash_primary)
  with stopped_run_ends_flat[OF r(1)] show ?thesis by (auto simp: Let_def)
qed


section \<open>The ledger\<close>

definition row_int :: "string \<Rightarrow> string json \<Rightarrow> int" where
  "row_int key row = as_int (dict_get (as_obj row) key)"

definition row_balances :: "string json \<Rightarrow> bool" where
  "row_balances row \<longleftrightarrow> row_int ''d_nav_micro'' row = row_int ''d_price_pnl_micro'' row
     + row_int ''d_funding_micro'' row + row_int ''d_fees_micro'' row
     + row_int ''d_liq_penalty_micro'' row"

lemma ledger_row_total:
  assumes "snapshot_ok start s" "\<And>p. previous = Some p \<Longrightarrow> snapshot_ok start p"
  obtains row where "ledger_row profile alias previous s = Inr row" "row_balances row"
    "row_int ''d_nav_micro'' row = (case previous of None \<Rightarrow> 0 | Some p \<Rightarrow> sn_nav_micro s - sn_nav_micro p)"
proof -
  let ?d = "ledger_change_of previous s"
  have b: "lc_nav ?d = lc_price ?d + lc_funding ?d + lc_fees ?d + lc_penalty ?d"
  proof (cases previous)
    case (Some p)
    have v: "sn_nav_micro x = sn_cash_micro x + sn_upnl_micro x"
      "sn_cash_micro x = start + sn_realized_price_cum_micro x - sn_fees_cum_micro x
         - sn_funding_cum_micro x - sn_liquidation_penalty_cum_micro x" if "snapshot_ok start x" for x
      using that unfolding snapshot_ok_def nav_identity_holds_def cash_conservation_holds_def
      by linarith+
    show ?thesis using v[OF assms(1)] v[OF assms(2)[OF Some]]
      by (simp add: ledger_change_of_def Some)
  qed (simp add: ledger_change_of_def)
  then obtain row where row: "ledger_row profile alias previous s = Inr row"
    by (simp add: ledger_row_def Let_def)
  then have "row_balances row" "row_int ''d_nav_micro'' row = lc_nav ?d"
    by (auto simp: ledger_row_def Let_def row_balances_def row_int_def as_obj_def as_int_def b
        split: if_split_asm)
  with row show thesis by (intro that) (auto simp: ledger_change_of_def split: option.split)
qed

lemma ledger_rows_total:
  assumes "\<forall>s \<in> set snaps. snapshot_ok start s" "\<And>p. previous = Some p \<Longrightarrow> snapshot_ok start p"
  shows "\<exists>rows. ledger_rows profile alias previous snaps = Inr rows \<and> length rows = length snaps \<and>
    (\<forall>row \<in> set rows. row_balances row) \<and>
    (snaps \<noteq> [] \<longrightarrow> sum_list (map (row_int ''d_nav_micro'') rows) = sn_nav_micro (last snaps)
      - (case previous of None \<Rightarrow> sn_nav_micro (hd snaps) | Some p \<Rightarrow> sn_nav_micro p))"
  using assms
proof (induction snaps arbitrary: previous)
  case Nil
  then show ?case by simp
next
  case (Cons s snaps)
  from Cons.prems obtain row where row: "ledger_row profile alias previous s = Inr row" "row_balances row"
    "row_int ''d_nav_micro'' row = (case previous of None \<Rightarrow> 0 | Some p \<Rightarrow> sn_nav_micro s - sn_nav_micro p)"
    using ledger_row_total[of start s previous profile "alias"] by auto
  from Cons.IH[of "Some s"] Cons.prems(1) obtain rows where
    "ledger_rows profile alias (Some s) snaps = Inr rows" "length rows = length snaps"
    "\<forall>row \<in> set rows. row_balances row"
    "snaps \<noteq> [] \<longrightarrow> sum_list (map (row_int ''d_nav_micro'') rows) = sn_nav_micro (last snaps) - sn_nav_micro s"
    by auto
  with row show ?case by (cases "snaps = []") (auto split: option.splits)
qed

text \<open>
  Property C33. The ledger of a run can always be written: the engine's own balance check
  (MATH-2) never fails on its snapshots, there is one row per snapshot, every row attributes
  its change of NAV exactly to price, funding, fees and penalty, and the changes add up to
  the NAV gained or lost over the run.
\<close>

theorem ledger_always_balances:
  assumes "run_profile inp st = Inr (run, totals, st')"
  shows "\<exists>rows. ledger_rows profile alias None (rn_snapshots run) = Inr rows \<and>
    length rows = length (rn_snapshots run) \<and> (\<forall>row \<in> set rows. row_balances row) \<and>
    sum_list (map (row_int ''d_nav_micro'') rows)
      = tt_final_nav_micro totals - cfg_starting_nav_micro (pi_config inp)"
proof -
  from assms obtain bars where inv: "turns_inv inp bars (run, st')" "totals = totals_of run"
    by (rule run_profile_inv)
  then have ok: "run_ok (cfg_starting_nav_micro (pi_config inp)) run"
    by (simp add: turns_inv_def Let_def)
  from ledger_rows_total[of "rn_snapshots run" _ None profile "alias"] run_okD(5)[OF ok] run_okD(2,3)[OF ok]
  show ?thesis by (auto simp: inv(2) totals_of_def Let_def)
qed

theorem ledger_always_balances_witness:
  "\<exists>run totals rows. run_profile (sample_input [500000, 500000] ''primary'' [sample_decision 30000 None]) ()
      = Inr (run, totals, ()) \<and> ledger_rows ''primary'' ''BTC'' None (rn_snapshots run) = Inr rows"
proof -
  obtain run totals where
    r: "run_profile (sample_input [500000, 500000] ''primary'' [sample_decision 30000 None]) () = Inr (run, totals, ())"
    by (rule sample_run)
  from ledger_always_balances[OF r] r show ?thesis by blast
qed

end
