(* ===== verification/Observation_Facts.thy ===== *)
theory Observation_Facts
  imports Observation
begin

text \<open>
  Correctness of the observation builder: it is causal (rows published after the clock have no
  influence on the document) and its own rechecks never reject a document it built.
\<close>

section \<open>Packs that agree on the past\<close>

definition same_past :: "int \<Rightarrow> MarketData \<Rightarrow> MarketData \<Rightarrow> bool" where
  "same_past t m m' \<longleftrightarrow> md_spec m = md_spec m' \<and>
     filter (\<lambda>r. br_available_at r \<le> t) (md_trade m) = filter (\<lambda>r. br_available_at r \<le> t) (md_trade m') \<and>
     filter (\<lambda>r. br_available_at r \<le> t) (md_mark m) = filter (\<lambda>r. br_available_at r \<le> t) (md_mark m') \<and>
     filter (\<lambda>r. br_available_at r \<le> t) (md_index m) = filter (\<lambda>r. br_available_at r \<le> t) (md_index m') \<and>
     filter (\<lambda>r. fd_available_at r \<le> t) (md_funding m) = filter (\<lambda>r. fd_available_at r \<le> t) (md_funding m')"

definition same_until :: "int \<Rightarrow> PackData \<Rightarrow> PackData \<Rightarrow> bool" where
  "same_until t p p' \<longleftrightarrow>
     pk_window_start_ts p = pk_window_start_ts p' \<and> pk_window_end_ts p = pk_window_end_ts p' \<and>
     pk_decision_bar_ms p = pk_decision_bar_ms p' \<and> pk_warmup_bars p = pk_warmup_bars p' \<and>
     pk_default_lookback p = pk_default_lookback p' \<and> bars_total p = bars_total p' \<and>
     list_all2 (\<lambda>(a, m) (a', m'). a = a' \<and> same_past t m m') (pk_markets p) (pk_markets p')"

lemma same_past_views:
  assumes "same_past t m m'"
  shows "available_trade m t = available_trade m' t" "available_mark m t = available_mark m' t"
    "available_index m t = available_index m' t" "available_funding m t = available_funding m' t"
  using assms unfolding same_past_def
  by (auto intro: trade_series.causal mark_series.causal index_series.causal funding_series.causal)

lemma same_past_spec: "same_past t m m' \<Longrightarrow> md_spec m = md_spec m'"
  by (simp add: same_past_def)

lemma same_past_document:
  assumes "same_past (vc_real_ts clock) m m'"
  shows "market_document m clock n k = market_document m' clock n k"
  unfolding market_document_def Let_def same_past_views[OF assms] same_past_spec[OF assms] ..
lemma same_aliases:
  assumes "same_until t p p'"
  shows "market_aliases p = market_aliases p'"
proof -
  have "list_all2 (\<lambda>(a, m) (a', m'). a = a' \<and> same_past t m m') xs ys \<Longrightarrow> map fst xs = map fst ys"
    for xs ys by (induction rule: list_all2_induct) auto
  from this[of "pk_markets p" "pk_markets p'"] assms
  have "map fst (pk_markets p) = map fst (pk_markets p')" by (simp add: same_until_def)
  then show ?thesis by (simp add: market_aliases_def)
qed

lemma same_lookup:
  assumes "same_until t p p'"
  shows "rel_sum (=) (same_past t) (pack_market p a) (pack_market p' a)"
proof -
  have "list_all2 (\<lambda>(a, m) (a', m'). a = a' \<and> same_past t m m') xs ys \<Longrightarrow>
      rel_option (same_past t) (map_of xs a) (map_of ys a)" for xs ys
    by (induction rule: list_all2_induct) auto
  with assms have "rel_option (same_past t) (map_of (pk_markets p) a) (map_of (pk_markets p') a)"
    by (simp add: same_until_def)
  then show ?thesis
    by (cases "map_of (pk_markets p) a"; cases "map_of (pk_markets p') a")
      (auto simp: pack_market_def)
qed

lemma same_market_bind:
  assumes "same_until t p p'" "\<And>m m'. same_past t m m' \<Longrightarrow> f m = g m'"
  shows "and_then (pack_market p a) f = and_then (pack_market p' a) g"
  using same_lookup[OF assms(1), of a] assms(2)
  by (cases "pack_market p a"; cases "pack_market p' a") auto

lemma same_part:
  assumes "same_until (vc_real_ts clock) p p'"
  shows "market_part_of p clock eff ps a = market_part_of p' clock eff ps a"
  unfolding market_part_of_def Let_def
  by (rule same_market_bind[OF assms]) (simp only: same_past_document same_past_spec)

lemma same_constraints:
  assumes "same_until t p p'"
  shows "risk_constraints c p ns nav r = risk_constraints c p' ns nav r"
proof -
  have "and_then (pack_market p a) (\<lambda>market.
          case map_of ns a of None \<Rightarrow> Inl (KeyError a) | Some notional \<Rightarrow> Inr (constraint_document (''lev-'' @ a) ''leverage_cap_market'' a
              (ms_leverage_cap_lev_1e4 (md_spec market)) (notional * OBS_LEV_SCALE div nav) ''lev_1e4''))
      = and_then (pack_market p' a) (\<lambda>market.
          case map_of ns a of None \<Rightarrow> Inl (KeyError a) | Some notional \<Rightarrow> Inr (constraint_document (''lev-'' @ a) ''leverage_cap_market'' a
              (ms_leverage_cap_lev_1e4 (md_spec market)) (notional * OBS_LEV_SCALE div nav) ''lev_1e4''))" for a
    by (rule same_market_bind[OF assms]) (simp only: same_past_spec)
  then show ?thesis
    by (simp add: risk_constraints_def same_aliases[OF assms])
qed

lemma same_profiles:
  assumes "same_until t p p'"
  shows "and_then (pack_market p a) (\<lambda>m. validate_cost_profiles c (ms_cost_profile_multipliers_1e4 (md_spec m)))
    = and_then (pack_market p' a) (\<lambda>m. validate_cost_profiles c (ms_cost_profile_multipliers_1e4 (md_spec m)))"
  by (rule same_market_bind[OF assms]) (simp only: same_past_spec)

lemma clock_keeps_time: "clock_for_window w t = Inr clock \<Longrightarrow> vc_real_ts clock = t"
  by (auto simp: clock_for_window_def make_VirtualClock_def and_then_eq_Inr split: if_splits)

lemma and_then_same:
  "m = m' \<Longrightarrow> (\<And>x. m' = Inr x \<Longrightarrow> f x = g x) \<Longrightarrow> and_then m f = and_then m' g"
  by (cases m') simp_all

lemma same_draft:
  assumes "clock_real_ts p (nat (oq_turn q)) = Inr t" "same_until t p p'"
  shows "draft_observation p c q = draft_observation p' c q"
proof -
  have ct: "clock_real_ts p' (nat (oq_turn q)) = Inr t"
    using assms(1,2) unfolding clock_real_ts_eq same_until_def by simp
  have e: "pk_window_start_ts p = pk_window_start_ts p'" "pk_decision_bar_ms p = pk_decision_bar_ms p'"
    "pk_default_lookback p = pk_default_lookback p'" "bars_total p = bars_total p'"
    using assms(2) by (simp_all add: same_until_def)
  have part: "market_part_of p x = market_part_of p' x" if "vc_real_ts x = t" for x
    using assms(2) that by (intro ext) (auto intro: same_part)
  show ?thesis
    unfolding draft_observation_def assms(1) ct e same_aliases[OF assms(2)]
      same_profiles[OF assms(2)] observation_document_def same_constraints[OF assms(2)]
    by (auto intro!: and_then_same arg_cong[where f = "\<lambda>x. and_then x _"]
        dest!: clock_keeps_time simp: part)
qed

section \<open>The rechecks\<close>

definition sound_rows :: "MarketData \<Rightarrow> bool" where
  "sound_rows m \<longleftrightarrow>
     (\<forall>r \<in> set (md_trade m) \<union> set (md_mark m) \<union> set (md_index m).
        pv_available_at (br_provenance r) = br_available_at r) \<and>
     (\<forall>r \<in> set (md_funding m). pv_available_at (fd_provenance r) = fd_available_at r)"

definition sound_sources :: "PackData \<Rightarrow> bool" where
  "sound_sources pack \<longleftrightarrow> distinct (map fst (pk_markets pack)) \<and>
     (\<forall>(a, m) \<in> set (pk_markets pack). sound_rows m)"

text \<open>A position state that \<open>PositionState\<close> accepts.\<close>

definition sound_position :: "PositionState \<Rightarrow> bool" where
  "sound_position ps \<longleftrightarrow> make_PositionState (ps_qty_base_1e8 ps) (ps_entry_px_ticks ps)
     (ps_margin_micro ps) (ps_liq_px_ticks ps) = Inr ps"

lemma sound_position_prices:
  assumes "sound_position ps" "ps_qty_base_1e8 ps \<noteq> 0"
  obtains e l where "ps_entry_px_ticks ps = Some e" "ps_liq_px_ticks ps = Some l"
  using assms
  by (auto simp: sound_position_def make_PositionState_def non_negative_price_def
      split: if_splits option.splits)

lemma sound_flat: "sound_position flat_position"
  by (simp add: sound_position_def flat_position_def make_PositionState_def)

lemma last_n_in: "x \<in> set (last_n k xs) \<Longrightarrow> x \<in> set xs"
  by (auto simp: last_n_def dest: in_set_dropD)

lemma market_view_rows:
  assumes "market_document m clock n k = Inr view"
  shows "mv_mark_row view \<in> set (available_mark m (vc_real_ts clock))"
    "mv_index_row view \<in> set (available_index m (vc_real_ts clock))"
    "set (mv_trade_rows view) \<subseteq> set (available_trade m (vc_real_ts clock))"
    "set (mv_funding_rows view) \<subseteq> set (available_funding m (vc_real_ts clock))"
    "as_int (dict_get (as_obj (mv_document view)) ''last_mark_px_ticks'') = br_c (mv_mark_row view)"
    "as_int (dict_get (as_obj (mv_document view)) ''tick_size_micro'') = ms_tick_size_micro (md_spec m)"
  using assms
  by (auto simp: market_document_def Let_def and_then_eq_Inr last_available_bar_def as_obj_def
      as_int_def dest: last_n_in split: if_splits)

lemma part_sources:
  assumes "market_part_of pack clock eff positions a = Inr p" "sound_sources pack"
    and "s \<in> set (provenance_rows (mk_provenance p))"
  shows "pv_available_at s \<le> vc_real_ts clock"
proof -
  from assms(1) obtain m view where m: "pack_market pack a = Inr m"
    "market_document m clock (lb_bars eff) (lb_funding_prints eff) = Inr view"
    and p: "mk_provenance p = \<lparr>mp_trade_rows = map br_provenance (mv_trade_rows view),
             mp_mark_row = br_provenance (mv_mark_row view),
             mp_index_row = br_provenance (mv_index_row view),
             mp_funding_rows = map fd_provenance (mv_funding_rows view)\<rparr>"
    by (auto simp: market_part_of_def Let_def and_then_eq_Inr)
  from m(1) have "(a, m) \<in> set (pk_markets pack)"
    by (auto simp: pack_market_def split: option.splits dest: map_of_SomeD)
  with assms(2) have r: "sound_rows m" by (auto simp: sound_sources_def)
  note rows = market_view_rows[OF m(2)]
  have "pv_available_at (br_provenance x) \<le> vc_real_ts clock"
    if "x \<in> set (available_trade m (vc_real_ts clock)) \<union> set (available_mark m (vc_real_ts clock))
        \<union> set (available_index m (vc_real_ts clock))" for x
    using that r
    by (auto simp: sound_rows_def available_trade_def available_mark_def available_index_def)
  moreover have "pv_available_at (fd_provenance x) \<le> vc_real_ts clock"
    if "x \<in> set (available_funding m (vc_real_ts clock))" for x
    using that r by (auto simp: sound_rows_def available_funding_def)
  ultimately show ?thesis using assms(3) rows by (auto simp: provenance_rows_def p)
qed

lemma mark_values_agree:
  assumes "position_document ps mark tick = Inr (document, upnl)" "sound_position ps"
    and "as_int (dict_get market ''last_mark_px_ticks'') = mark"
    and "as_int (dict_get market ''tick_size_micro'') = tick"
  shows "\<exists>d. expected_mark_values market (as_obj document) = Inr (upnl, d) \<and>
    dict_get (as_obj document) ''upnl_micro'' = JInt upnl \<and>
    dict_get (as_obj document) ''dist_to_liq_1e8'' = d \<and>
    as_int (dict_get (as_obj document) ''margin_micro'') = ps_margin_micro ps"
proof (cases "ps_qty_base_1e8 ps = 0")
  case True
  with assms show ?thesis
    by (auto simp: position_document_def obs_distance_to_liquidation_1e8_def obs_upnl_micro_def
        expected_mark_values_def as_obj_def as_int_def)
next
  case False
  with assms(2) obtain e l where "ps_entry_px_ticks ps = Some e" "ps_liq_px_ticks ps = Some l"
    by (rule sound_position_prices)
  with assms False show ?thesis
    by (auto simp: position_document_def obs_distance_to_liquidation_1e8_def obs_upnl_micro_def
        expected_mark_values_def as_obj_def as_int_def Let_def and_then_eq_Inr split: if_splits)
qed

lemma part_mark:
  assumes "market_part_of pack clock eff positions a = Inr p"
    and "\<forall>(a, ps) \<in> set positions. sound_position ps"
  shows "mk_alias p = a"
    "dict_get markets a = mk_document p \<Longrightarrow> dict_get docs a = mk_position_document p \<Longrightarrow>
       check_market_mark markets docs a n = Inr (n + mk_margin_and_upnl p)"
proof -
  let ?ps = "case map_of positions a of Some x \<Rightarrow> x | None \<Rightarrow> flat_position"
  from assms(1) obtain m view document upnl where m: "pack_market pack a = Inr m"
    "market_document m clock (lb_bars eff) (lb_funding_prints eff) = Inr view"
    and d: "position_document ?ps (br_c (mv_mark_row view)) (ms_tick_size_micro (md_spec m))
      = Inr (document, upnl)"
    and p: "mk_alias p = a" "mk_document p = mv_document view" "mk_position_document p = document"
      "mk_margin_and_upnl p = ps_margin_micro ?ps + upnl"
    by (auto simp: market_part_of_def Let_def and_then_eq_Inr)
  have s: "sound_position ?ps"
    using assms(2) by (auto simp: sound_flat split: option.splits dest: map_of_SomeD)
  from mark_values_agree[OF d s market_view_rows(5,6)[OF m(2)]] p
  show "mk_alias p = a"
    "dict_get markets a = mk_document p \<Longrightarrow> dict_get docs a = mk_position_document p \<Longrightarrow>
       check_market_mark markets docs a n = Inr (n + mk_margin_and_upnl p)"
    by (auto simp: check_market_mark_def)
qed

lemma parts_aliases:
  assumes "traverse (market_part_of pack clock eff positions) aliases = Inr parts"
  shows "map mk_alias parts = aliases"
  using assms
  by (induction aliases arbitrary: parts)
    (auto simp: and_then_eq_Inr market_part_of_def Let_def)

lemma parts_checked:
  assumes "traverse (market_part_of pack clock eff positions) aliases = Inr parts"
    and "\<forall>(a, ps) \<in> set positions. sound_position ps"
    and "\<And>p. p \<in> set parts \<Longrightarrow> dict_get markets (mk_alias p) = mk_document p \<and>
      dict_get docs (mk_alias p) = mk_position_document p"
  shows "fold_result (check_market_mark markets docs) aliases n
    = Inr (n + sum_list (map mk_margin_and_upnl parts))"
  using assms(1,3)
proof (induction aliases arbitrary: parts n)
  case Nil
  then show ?case by simp
next
  case (Cons a aliases)
  from Cons.prems(1) obtain p ps where p: "market_part_of pack clock eff positions a = Inr p"
    "traverse (market_part_of pack clock eff positions) aliases = Inr ps" "parts = p # ps"
    by (auto simp: and_then_eq_Inr)
  note c = part_mark[OF p(1) assms(2)]
  have "dict_get markets a = mk_document p" "dict_get docs a = mk_position_document p"
    using Cons.prems(2)[of p] p(3) c(1) by auto
  from c(2)[OF this, of n] Cons.IH[OF p(2), of "n + mk_margin_and_upnl p"] Cons.prems(2) p(3)
  show ?case by auto
qed

lemma dict_get_part:
  assumes "distinct (map mk_alias parts)" "p \<in> set parts"
  shows "dict_get (map (\<lambda>p. (mk_alias p, f p)) parts) (mk_alias p) = f p"
proof -
  have "map_of (map (\<lambda>p. (mk_alias p, f p)) parts) (mk_alias p) = Some (f p)"
    using assms by (intro map_of_is_SomeI) (auto simp: comp_def)
  then show ?thesis by (simp add: dict_get_def dict_get_default_def)
qed

lemma aliases_distinct: "sound_sources pack \<Longrightarrow> distinct (market_aliases pack)"
  by (simp add: market_aliases_def sound_sources_def)

lemma draft_passes:
  assumes "draft_observation pack config q = Inr b" "sound_sources pack"
    and "\<forall>(a, ps) \<in> set (oq_positions q). sound_position ps"
  shows "assert_no_future_sources b = Inr ()" "assert_single_mark_invariant b = Inr ()"
    "\<forall>(a, src) \<in> set (ob_provenance b). \<forall>s \<in> set (provenance_rows src).
       pv_available_at s \<le> ob_real_clock_ts b"
proof -
  from assms(1) obtain bars eff clock parts clock_ts constraints where
    parts: "traverse (market_part_of pack clock eff (oq_positions q)) (market_aliases pack) = Inr parts"
    and b: "b = \<lparr>ob_document = observation_document pack config q bars clock_ts parts
             (as_cash_micro (oq_account q) + sum_list (map mk_margin_and_upnl parts)) constraints,
           ob_real_clock_ts = vc_real_ts clock, ob_rebase_offset_ms = vc_rebase_offset_ms clock,
           ob_provenance = map (\<lambda>p. (mk_alias p, mk_provenance p)) parts\<rparr>"
    by (auto simp: draft_observation_def Let_def and_then_eq_Inr split: if_splits)
  show past: "\<forall>(a, src) \<in> set (ob_provenance b). \<forall>s \<in> set (provenance_rows src).
       pv_available_at s \<le> ob_real_clock_ts b"
    using part_sources[OF _ assms(2)] traverse_set[OF parts] by (fastforce simp: b)
  then show "assert_no_future_sources b = Inr ()"
    by (fastforce simp: assert_no_future_sources_def)
  have al: "map mk_alias parts = market_aliases pack" by (rule parts_aliases[OF parts])
  have dist: "distinct (map mk_alias parts)"
    unfolding al by (rule aliases_distinct[OF assms(2)])
  have srt: "sort (map mk_alias parts) = market_aliases pack"
    unfolding al by (simp add: market_aliases_def sorted_sort_id)
  have "fold_result (check_market_mark (map (\<lambda>p. (mk_alias p, mk_document p)) parts)
      (map (\<lambda>p. (mk_alias p, mk_position_document p)) parts)) (market_aliases pack)
      (as_cash_micro (oq_account q))
    = Inr (as_cash_micro (oq_account q) + sum_list (map mk_margin_and_upnl parts))"
    by (rule parts_checked[OF parts assms(3)]) (simp add: dict_get_part[OF dist])
  then show "assert_single_mark_invariant b = Inr ()"
    by (simp add: assert_single_mark_invariant_def b observation_document_def as_obj_def as_int_def
        comp_def srt)
qed

end
