(* ===== verification/Causality.thy ===== *)
theory Causality
  imports Observation_Facts Engine_Run
begin

text \<open>
  The engine does not look ahead: two packs that agree on everything published by the clock of
  a turn give the same run up to that turn and the same observation at it.
\<close>

section \<open>Turn contexts that agree\<close>

text \<open>
  Two contexts of one turn that differ in the pack only, where the packs agree on the bars the
  turn touches and on the funding settled before it ends.
\<close>

definition alike :: "turn_context \<Rightarrow> turn_context \<Rightarrow> bool" where
  "alike c d \<longleftrightarrow>
     tc_config c = tc_config d \<and> tc_alias c = tc_alias d \<and> tc_multiplier c = tc_multiplier d \<and>
     tc_collect_evidence c = tc_collect_evidence d \<and> tc_turn c = tc_turn d \<and>
     tc_decision_abs c = tc_decision_abs d \<and> tc_fill_abs c = tc_fill_abs d \<and>
     tc_decision_ts c = tc_decision_ts d \<and> tc_drawdown_used c = tc_drawdown_used d \<and>
     pk_decision_bar_ms (tc_pack c) = pk_decision_bar_ms (tc_pack d) \<and>
     0 < pk_decision_bar_ms (tc_pack c) \<and>
     md_spec (tc_market c) = md_spec (tc_market d) \<and>
     (\<forall>i \<in> {tc_decision_abs c, tc_fill_abs c}.
        py_nth (md_mark (tc_market c)) i = py_nth (md_mark (tc_market d)) i \<and>
        py_nth (md_trade (tc_market c)) i = py_nth (md_trade (tc_market d)) i) \<and>
     (\<forall>t < holding_close_ts c. find (\<lambda>row. br_ts row = t) (md_index (tc_market c))
        = find (\<lambda>row. br_ts row = t) (md_index (tc_market d))) \<and>
     filter (\<lambda>row. fd_ts row < holding_close_ts c) (md_funding (tc_market c))
       = filter (\<lambda>row. fd_ts row < holding_close_ts c) (md_funding (tc_market d))"

lemma alike_fields:
  assumes "alike c d"
  shows "tc_config c = tc_config d" "tc_alias c = tc_alias d" "tc_multiplier c = tc_multiplier d"
    "tc_collect_evidence c = tc_collect_evidence d" "tc_turn c = tc_turn d"
    "tc_decision_abs c = tc_decision_abs d" "tc_fill_abs c = tc_fill_abs d"
    "tc_decision_ts c = tc_decision_ts d" "tc_drawdown_used c = tc_drawdown_used d"
    "md_spec (tc_market c) = md_spec (tc_market d)" "holding_close_ts c = holding_close_ts d"
    "py_nth (md_mark (tc_market c)) (tc_decision_abs d) = py_nth (md_mark (tc_market d)) (tc_decision_abs d)"
    "py_nth (md_mark (tc_market c)) (tc_fill_abs d) = py_nth (md_mark (tc_market d)) (tc_fill_abs d)"
    "py_nth (md_trade (tc_market c)) (tc_fill_abs d) = py_nth (md_trade (tc_market d)) (tc_fill_abs d)"
  using assms unfolding alike_def holding_close_ts_def by auto

lemma fold_result_filter:
  "fold_result (\<lambda>x s. if P x then f x s else Inr s) xs s = fold_result f (filter P xs) s"
  by (induction xs arbitrary: s) (auto intro: arg_cong2[where f = and_then])

lemma find_filter: "(\<And>x. P x \<Longrightarrow> Q x) \<Longrightarrow> find P (filter Q xs) = find P xs"
  by (induction xs) auto

lemma fold_result_same:
  "(\<And>x s. x \<in> set xs \<Longrightarrow> f x s = g x s) \<Longrightarrow> fold_result f xs s = fold_result g xs s"
  by (induction xs arbitrary: s) (auto intro: arg_cong2[where f = and_then])
lemma alike_record: "alike c d \<Longrightarrow> record_event c = record_event d"
  by (intro ext) (simp add: record_event_def alike_fields)

lemma alike_book: "alike c d \<Longrightarrow> book_decision c = book_decision d"
  unfolding book_decision_def by (simp only: alike_record alike_fields)

lemma alike_settle:
  assumes "alike c d" "fd_ts row < holding_close_ts d"
  shows "settle_funding c row = settle_funding d row"
proof -
  have "find (\<lambda>r. br_ts r = fd_ts row) (md_index (tc_market c))
      = find (\<lambda>r. br_ts r = fd_ts row) (md_index (tc_market d))"
    using assms alike_fields(11)[OF assms(1)] by (simp add: alike_def)
  then show ?thesis
    unfolding settle_funding_def applied_funding_def
    by (simp only: alike_record[OF assms(1)] alike_fields[OF assms(1)])
qed

lemma alike_funding_rows:
  assumes "alike c d"
  shows "filter (\<lambda>row. fd_ts row < holding_close_ts d) (md_funding (tc_market c))
    = filter (\<lambda>row. fd_ts row < holding_close_ts d) (md_funding (tc_market d))"
  using assms alike_fields(11)[OF assms] by (simp add: alike_def)

lemma alike_opening:
  assumes "alike c d"
  shows "settle_opening_funding c = settle_opening_funding d"
proof -
  have lt: "tc_decision_ts d < holding_close_ts d"
    using assms by (auto simp: alike_def holding_close_ts_def)
  have f: "find (\<lambda>row. fd_ts row = tc_decision_ts d) (md_funding (tc_market c))
      = find (\<lambda>row. fd_ts row = tc_decision_ts d) (md_funding (tc_market d))"
    using find_filter[of "\<lambda>row. fd_ts row = tc_decision_ts d" "\<lambda>row. fd_ts row < holding_close_ts d"]
      alike_funding_rows[OF assms] lt by metis
  have s: "settle_funding c row = settle_funding d row"
    if "find (\<lambda>row. fd_ts row = tc_decision_ts d) (md_funding (tc_market d)) = Some row" for row
    using alike_settle[OF assms] lt that by (auto simp: find_Some_iff)
  show ?thesis
    unfolding settle_opening_funding_def alike_fields[OF assms] f
    by (intro ext) (simp add: s split: option.splits)
qed

lemma alike_inside:
  assumes "alike c d"
  shows "settle_inside_funding c = settle_inside_funding d"
proof -
  let ?in = "\<lambda>row. tc_decision_ts d < fd_ts row \<and> fd_ts row < holding_close_ts d"
  have f: "filter ?in xs = filter ?in (filter (\<lambda>row. fd_ts row < holding_close_ts d) xs)" for xs
    by (simp add: conj_commute conj_left_commute)
  have "filter ?in (md_funding (tc_market c)) = filter ?in (md_funding (tc_market d))"
    by (subst (1 2) f) (simp only: alike_funding_rows[OF assms])
  then show ?thesis
    unfolding settle_inside_funding_def alike_fields[OF assms] fold_result_filter
    by (intro ext) (auto intro: fold_result_same simp: alike_settle[OF assms])
qed

lemma alike_snapshot:
  assumes "alike c d"
  shows "snapshot account (tc_market c) (tc_fill_abs d) i ts = snapshot account (tc_market d) (tc_fill_abs d) i ts"
    "margin_payload account (tc_market c) (tc_fill_abs d) = margin_payload account (tc_market d) (tc_fill_abs d)"
  by (simp_all only: snapshot_def margin_payload_def alike_fields[OF assms])

lemmas order_defs = act_on_decision_def act_on_parsed_def size_action_def risk_checks_def
  note_post_kill_switch_def execute_order_def order_request_def cancel_reason_def
  cancel_order_def record_fill_def zero_delta_def partial_fill_detail_def order_filled_payload_def
  order_cancelled_payload_def

lemma alike_check: "alike c d \<Longrightarrow> apply_check c = apply_check d"
  by (intro ext) (simp add: apply_check_def alike_record alike_fields)

lemma alike_act: "alike c d \<Longrightarrow> act_on_decision c = act_on_decision d"
  by (intro ext, unfold order_defs) (simp only: alike_record alike_fields alike_check)

lemmas close_defs = open_margin_update_def record_margin_def liquidation_phase_def liquidate_def
  near_liquidation_def append_snapshot_def closing_snapshot_def kill_switch_phase_def
  flatten_position_def flatten_payload_def terminal_margin_update_def

lemma alike_close:
  assumes "alike c d"
  shows "open_margin_update c = open_margin_update d" "liquidation_phase c = liquidation_phase d"
    "append_snapshot c = append_snapshot d" "kill_switch_phase c = kill_switch_phase d"
    "terminal_margin_update c = terminal_margin_update d"
  unfolding close_defs
  by (simp_all only: alike_record[OF assms] alike_fields[OF assms] alike_snapshot[OF assms])

lemma alike_market_phase: "alike c d \<Longrightarrow> market_phase c = market_phase d"
  unfolding market_phase_def
  by (simp only: alike_book alike_opening alike_inside alike_act alike_close alike_fields)

section \<open>Runs that agree\<close>

text \<open>
  Packs that agree on what is published by \<open>t\<close> and on the first \<open>n\<close> bars (those whose holding
  period has ended by \<open>t\<close>), the index and the funding before \<open>t\<close>.
\<close>

definition same_world :: "nat \<Rightarrow> int \<Rightarrow> MarketData \<Rightarrow> MarketData \<Rightarrow> bool" where
  "same_world n t m m' \<longleftrightarrow> md_spec m = md_spec m' \<and>
     (\<forall>i < n. py_nth (md_mark m) i = py_nth (md_mark m') i \<and> py_nth (md_trade m) i = py_nth (md_trade m') i) \<and>
     (\<forall>u < t. find (\<lambda>row. br_ts row = u) (md_index m) = find (\<lambda>row. br_ts row = u) (md_index m')) \<and>
     filter (\<lambda>row. fd_ts row < t) (md_funding m) = filter (\<lambda>row. fd_ts row < t) (md_funding m')"

text \<open>The visible past only grows with the clock.\<close>

lemma filter_weaken:
  "filter Q xs = filter Q ys \<Longrightarrow> (\<And>x. P x \<Longrightarrow> Q x) \<Longrightarrow> filter P xs = filter P ys"
  by (metis (mono_tags, lifting) filter_cong filter_filter)

lemma same_past_earlier: "same_past t m m' \<Longrightarrow> u \<le> t \<Longrightarrow> same_past u m m'"
  unfolding same_past_def by (auto elim!: filter_weaken)

lemma same_until_earlier: "same_until t p p' \<Longrightarrow> u \<le> t \<Longrightarrow> same_until u p p'"
  unfolding same_until_def by (auto elim!: list_all2_mono same_past_earlier)

lemma same_clock:
  assumes "same_until t p p'"
  shows "clock_real_ts p = clock_real_ts p'"
proof -
  from assms have "pk_window_start_ts p = pk_window_start_ts p'" "bars_total p = bars_total p'"
    "pk_window_end_ts p = pk_window_end_ts p'" "pk_decision_bar_ms p = pk_decision_bar_ms p'"
    "pk_warmup_bars p = pk_warmup_bars p'" by (simp_all add: same_until_def)
  then show ?thesis by (intro ext) (simp only: clock_real_ts_def)
qed

lemma same_alike:
  assumes "same_until t (pi_pack inp) p'" "same_world n t m m'"
    and "0 < pk_decision_bar_ms (pi_pack inp)" "pk_warmup_bars p' + turn + 1 < n"
    and "ts + pk_decision_bar_ms (pi_pack inp) \<le> t"
  shows "alike (context_of inp alias m mul turn ts dd)
    (context_of (inp\<lparr>pi_pack := p'\<rparr>) alias m' mul turn ts dd)"
proof -
  have e: "pk_decision_bar_ms (pi_pack inp) = pk_decision_bar_ms p'"
    "pk_warmup_bars (pi_pack inp) = pk_warmup_bars p'"
    using assms(1) by (simp_all add: same_until_def)
  note w = assms(2)[unfolded same_world_def]
  have "filter (\<lambda>row. fd_ts row < ts + pk_decision_bar_ms p') (md_funding m)
      = filter (\<lambda>row. fd_ts row < ts + pk_decision_bar_ms p') (md_funding m')"
    using w assms(5) e by (auto elim!: filter_weaken)
  with w assms(3-5) e show ?thesis
    by (simp add: alike_def context_of_def holding_close_ts_def Let_def)
qed

lemma same_observation:
  assumes "same_until t (pi_pack inp) p'" "clock_real_ts (pi_pack inp) turn = Inr t"
  shows "turn_observation inp alias turn du tu run = turn_observation (inp\<lparr>pi_pack := p'\<rparr>) alias turn du tu run"
proof -
  have "build_observation (pi_pack inp) c q = build_observation p' c q" if "oq_turn q = int turn" for c q
    using same_draft[OF _ assms(1), of q c] assms(2) that by (simp add: build_observation_def)
  then show ?thesis by (simp add: turn_observation_def)
qed

lemma same_turn:
  assumes "same_until t (pi_pack inp) p'" "same_world n t m m'"
    and "0 < pk_decision_bar_ms (pi_pack inp)" "pk_warmup_bars (pi_pack inp) + turn + 1 < n"
    and "clock_real_ts (pi_pack inp) turn = Inr ts" "ts + pk_decision_bar_ms (pi_pack inp) \<le> t"
  shows "play_turn inp alias m mul turn rs = play_turn (inp\<lparr>pi_pack := p'\<rparr>) alias m' mul turn rs"
proof -
  have u: "same_until ts (pi_pack inp) p'"
    by (rule same_until_earlier[OF assms(1)]) (use assms(3,6) in linarith)
  have e: "market_aliases (pi_pack inp) = market_aliases p'" by (rule same_aliases[OF assms(1)])
  have w: "pk_warmup_bars p' + turn + 1 < n"
    using assms(1,4) by (simp add: same_until_def)
  have d: "turn_decision inp alias turn ts du tu run st
      = turn_decision (inp\<lparr>pi_pack := p'\<rparr>) alias turn ts du tu run st" for du tu run st
    unfolding turn_decision_def live_decision_def same_observation[OF u assms(5)]
    by (auto simp: e Let_def cong: if_cong split: option.splits)
  have k: "market_phase (context_of inp alias m mul turn ts dd)
      = market_phase (context_of (inp\<lparr>pi_pack := p'\<rparr>) alias m' mul turn ts dd)" for dd
    by (rule alike_market_phase) (rule same_alike[OF assms(1-3) w assms(6)])
  have c: "clock_real_ts p' turn = Inr ts"
    using assms(5) by (simp add: same_clock[OF assms(1)])
  show ?thesis
    unfolding play_turn_def by (cases rs) (simp add: assms(5) c d k)
qed

lemma same_turns:
  assumes "same_until t (pi_pack inp) p'" "same_world n t m m'"
    and "0 < pk_decision_bar_ms (pi_pack inp)" "pk_warmup_bars (pi_pack inp) + k < n"
    and "clock_real_ts (pi_pack inp) k = Inr t" "j \<le> k"
  shows "fold_result (play_turn inp alias m mul) [0..<j] rs
    = fold_result (play_turn (inp\<lparr>pi_pack := p'\<rparr>) alias m' mul) [0..<j] rs"
proof (rule fold_result_same)
  fix i s assume "i \<in> set [0..<j]"
  with assms(6) have i: "i < k" by simp
  obtain bars where c: "bars_total (pi_pack inp) = Inr bars" "k < bars"
    "t = pk_window_start_ts (pi_pack inp)
       + (int (pk_warmup_bars (pi_pack inp)) + int k + 1) * pk_decision_bar_ms (pi_pack inp)"
    "t \<le> pk_window_end_ts (pi_pack inp)"
    using assms(5) by (auto simp: clock_real_ts_eq)
  define ts where "ts = pk_window_start_ts (pi_pack inp)
       + (int (pk_warmup_bars (pi_pack inp)) + int i + 1) * pk_decision_bar_ms (pi_pack inp)"
  have "(int (pk_warmup_bars (pi_pack inp)) + int i + 1 + 1) * pk_decision_bar_ms (pi_pack inp)
      \<le> (int (pk_warmup_bars (pi_pack inp)) + int k + 1) * pk_decision_bar_ms (pi_pack inp)"
    using i assms(3) by (intro mult_right_mono) auto
  then have l: "ts + pk_decision_bar_ms (pi_pack inp) \<le> t"
    by (simp add: ts_def c(3) distrib_right)
  moreover from l c i assms(3) have "clock_real_ts (pi_pack inp) i = Inr ts"
    by (auto simp: clock_real_ts_eq ts_def)
  ultimately show "play_turn inp alias m mul i s = play_turn (inp\<lparr>pi_pack := p'\<rparr>) alias m' mul i s"
    using i assms(4) by (intro same_turn[OF assms(1-3)]) auto
qed

end
