(* ===== verification/Observation_Properties.thy ===== *)
theory Observation_Properties
  imports Causality Sample_Run
begin

text \<open>
  What the observation builder guarantees to the benchmark: no look-ahead, for one document and
  for a whole run, and rechecks that never reject a document the builder made.
\<close>

section \<open>Two futures of one scenario\<close>

text \<open>Two packs whose mark differs in the last bar only.\<close>

abbreviation calm :: "int list" where "calm \<equiv> [500000, 500000, 500000]"
abbreviation crash :: "int list" where "crash \<equiv> [500000, 500000, 300000]"

lemma sample_same_until: "same_until 1600007200000 (sample_pack calm) (sample_pack crash)"
  by code_simp

lemma sample_same_world:
  "same_world 2 1600007200000 (sample_market calm) (sample_market crash)"
  by (auto simp: same_world_def sample_market_def sample_bars_def py_nth_def less_2_cases_iff)

lemma sample_clock_1: "clock_real_ts (sample_pack calm) 1 = Inr 1600007200000"
  by code_simp

section \<open>Properties\<close>

text \<open>
  Property C35. The benchmark never looks ahead. Two packs that agree on everything published by
  the clock of turn \<open>k\<close> drive the engine through the same first \<open>k\<close> turns (same account, same
  agent state, same evidence, same errors), and the observation served at turn \<open>k\<close> is the same
  document: no later price, volume or funding print can influence it.
\<close>

theorem engine_never_looks_ahead:
  assumes "same_until t (pi_pack inp) p'" "same_world n t m m'"
    and "0 < pk_decision_bar_ms (pi_pack inp)" "pk_warmup_bars (pi_pack inp) + k < n"
    and "clock_real_ts (pi_pack inp) k = Inr t"
  shows "fold_result (play_turn inp alias m mul) [0..<k] start
      = fold_result (play_turn (inp\<lparr>pi_pack := p'\<rparr>) alias m' mul) [0..<k] start \<and>
    turn_observation inp alias k drawdown turnover run
      = turn_observation (inp\<lparr>pi_pack := p'\<rparr>) alias k drawdown turnover run"
  using same_turns[OF assms order_refl] same_observation[OF assms(1,5)] by blast

theorem engine_never_looks_ahead_witness:
  "let inp = sample_input calm ''primary'' [sample_decision 30000 None];
       inp' = inp\<lparr>pi_pack := sample_pack crash\<rparr>
   in fold_result (play_turn inp ''BTC'' (sample_market calm) 10000) [0..<1] (sample_idle 0, ())
      = fold_result (play_turn inp' ''BTC'' (sample_market crash) 10000) [0..<1] (sample_idle 0, ()) \<and>
     turn_observation inp ''BTC'' 1 0 0 (sample_idle 0) = turn_observation inp' ''BTC'' 1 0 0 (sample_idle 0)"
proof -
  let ?inp = "sample_input calm ''primary'' [sample_decision 30000 None]"
  have p: "pi_pack ?inp = sample_pack calm" by (simp add: sample_input_def)
  have w: "0 < pk_decision_bar_ms (sample_pack calm)" "pk_warmup_bars (sample_pack calm) + 1 < 2"
    by (simp_all add: sample_pack_def)
  show ?thesis
    unfolding Let_def
    by (rule engine_never_looks_ahead[where t = 1600007200000 and n = 2, of ?inp, unfolded p])
      (rule sample_same_until sample_same_world w sample_clock_1)+
qed

text \<open>
  Property C36. The builder's two rechecks (no future source, one mark for every derived value)
  hold of every document it drafts from a pack whose rows carry their own publication time, so
  they reject nothing: the drafted observation is the one returned, and every source row it
  names was published at or before its clock.
\<close>

theorem built_observation_passes_rechecks:
  assumes "draft_observation pack config q = Inr b" "sound_sources pack"
    and "\<forall>(a, ps) \<in> set (oq_positions q). sound_position ps"
  shows "build_observation pack config q = Inr b \<and>
    (\<forall>(a, src) \<in> set (ob_provenance b). \<forall>s \<in> set (provenance_rows src).
       pv_available_at s \<le> ob_real_clock_ts b)"
  using draft_passes[OF assms] assms(1) by (simp add: build_observation_def)

definition sample_request :: observation_request where
  "sample_request = \<lparr>oq_episode_id = ''ep_0123456789abcdef'', oq_turn = 1,
     oq_account = \<lparr>as_cash_micro = 10000000000, as_realized_pnl_micro = 0\<rparr>,
     oq_positions = [(''BTC'', \<lparr>ps_qty_base_1e8 = 60000000, ps_entry_px_ticks = Some 500000,
        ps_margin_micro = 10000000000, ps_liq_px_ticks = Some 400000\<rparr>)],
     oq_risk = \<lparr>rs_drawdown_used_1e8 = 0, rs_turnover_used_1e8 = 0, rs_kill_switch_active = False\<rparr>\<rparr>"

theorem built_observation_passes_rechecks_witness:
  "\<exists>b. draft_observation (sample_pack calm) default_EpisodeConfig sample_request = Inr b \<and>
    build_observation (sample_pack calm) default_EpisodeConfig sample_request = Inr b"
proof -
  have "\<not> isl (draft_observation (sample_pack calm) default_EpisodeConfig sample_request)"
    by code_simp
  then obtain b where b: "draft_observation (sample_pack calm) default_EpisodeConfig sample_request = Inr b"
    by (cases "draft_observation (sample_pack calm) default_EpisodeConfig sample_request") simp_all
  have "sound_sources (sample_pack calm)" by code_simp
  moreover have "\<forall>(a, ps) \<in> set (oq_positions sample_request). sound_position ps" by code_simp
  ultimately show ?thesis
    using built_observation_passes_rechecks[OF b] b by blast
qed

end
