(* ===== verification/Decision_Record.thy ===== *)
theory Decision_Record
  imports Canonical "HOL-Library.AList"
begin

text \<open>
  Model of \<open>recorder/decisions.py\<close>: the decision records of an episode, regenerated from the
  event stream and the primary ledger. Documents are JSON objects over code points, as they are
  read back from a bundle.
\<close>

section \<open>Reading documents\<close>

definition uget :: "ustring jobject \<Rightarrow> string \<Rightarrow> ustring json" where
  "uget d k = dict_get d (ascii k)"

lemma uget_Cons [simp]:
  "uget ((ascii k', v) # d) k = (if k = k' then v else uget d k)"
  "uget [] k = JNull"
  by (auto simp: uget_def)

definition dr_integer :: "ustring json \<Rightarrow> int \<Rightarrow> int result" where
  "dr_integer v minimum =
     (case v of
        JInt n \<Rightarrow> if n < minimum then Inl (DecisionProjectionError ''must be an integer >='') else Inr n
      | _ \<Rightarrow> Inl (DecisionProjectionError ''must be an integer >=''))"

definition payload_of :: "ustring jobject \<Rightarrow> ustring jobject result" where
  "payload_of e =
     (case uget e ''payload'' of
        JObj m \<Rightarrow> Inr m | _ \<Rightarrow> Inl (DecisionProjectionError ''payload must be an object''))"

definition typed_payloads :: "ustring jobject list \<Rightarrow> string \<Rightarrow> ustring jobject list result" where
  "typed_payloads events event_type =
     traverse payload_of (filter (\<lambda>e. uget e ''type'' = utext event_type) events)"

definition exactly_one :: "'a list \<Rightarrow> 'a result" where
  "exactly_one payloads =
     (case payloads of [p] \<Rightarrow> Inr p | _ \<Rightarrow> Inl (DecisionProjectionError ''requires exactly one''))"

definition zero_or_one :: "'a list \<Rightarrow> 'a option result" where
  "zero_or_one payloads =
     (if length payloads > 1 then Inl (DecisionProjectionError ''permits at most one'')
      else Inr (case payloads of [] \<Rightarrow> None | p # _ \<Rightarrow> Some p))"

definition ACCOUNT_FIELDS :: "string list" where
  "ACCOUNT_FIELDS = [''nav_micro'', ''cash_micro'', ''realized_pnl_micro'', ''d_nav_micro'',
     ''d_price_pnl_micro'', ''d_funding_micro'', ''d_fees_micro'', ''d_liq_penalty_micro'']"

definition account_after :: "ustring jobject \<Rightarrow> ustring json result" where
  "account_after row =
     and_then (traverse (\<lambda>field. and_then (dr_integer (uget row field) (- (2 ^ 53 - 1)))
                           (\<lambda>n. Inr (ascii field, JInt n))) ACCOUNT_FIELDS)
       (\<lambda>members. Inr (JObj members))"

section \<open>Grouping by turn\<close>

type_synonym turn_groups = "(int \<times> ustring jobject list) list"

definition add_to_group :: "int \<Rightarrow> ustring jobject \<Rightarrow> turn_groups \<Rightarrow> turn_groups" where
  "add_to_group turn e groups =
     AList.update turn ((case map_of groups turn of None \<Rightarrow> [] | Some es \<Rightarrow> es) @ [e]) groups"

definition group_event :: "nat \<times> ustring jobject \<Rightarrow> turn_groups \<Rightarrow> turn_groups result" where
  "group_event ie groups = (case ie of (expected_seq, e) \<Rightarrow>
     and_then (dr_integer (uget e ''seq'') 0) (\<lambda>seq.
     if seq \<noteq> int expected_seq
     then Inl (DecisionProjectionError ''event seq is not contiguous'')
     else case uget e ''type'' of
       JStr _ \<Rightarrow>
         (case uget e ''turn'' of
            JNull \<Rightarrow> Inr groups
          | turn_value \<Rightarrow>
              and_then (dr_integer turn_value 0) (\<lambda>turn. Inr (add_to_group turn e groups)))
     | _ \<Rightarrow> Inl (DecisionProjectionError ''event type must be a string'')))"

definition events_by_turn :: "ustring jobject list \<Rightarrow> turn_groups result" where
  "events_by_turn events = fold_result group_event (zip [0..<length events] events) []"

definition add_ledger_row ::
    "ustring jobject \<Rightarrow> (int \<times> ustring jobject) list \<Rightarrow> (int \<times> ustring jobject) list result" where
  "add_ledger_row row by_turn =
     (if uget row ''profile'' \<noteq> utext ''primary''
      then Inl (DecisionProjectionError ''ledger row is not profile primary'')
      else case uget row ''turn'' of
        JNull \<Rightarrow> Inr by_turn
      | turn_value \<Rightarrow>
          and_then (dr_integer turn_value 0) (\<lambda>turn.
          if map_of by_turn turn \<noteq> None
          then Inl (DecisionProjectionError ''primary ledger has duplicate holding row'')
          else Inr (by_turn @ [(turn, row)])))"

section \<open>One record\<close>

definition opt_object :: "ustring jobject option \<Rightarrow> ustring json" where
  "opt_object p = (case p of None \<Rightarrow> JNull | Some m \<Rightarrow> JObj m)"

text \<open>What the agent meant: exactly one of an accepted action and a rejection.\<close>

definition meant_of :: "ustring jobject list \<Rightarrow> ustring jobject list \<Rightarrow> ustring json result" where
  "meant_of parsed rejected =
     (case (parsed, rejected) of
        ([p], []) \<Rightarrow> Inr (JObj [(ascii ''status'', utext ''parsed''), (ascii ''action'', JObj p),
                                (ascii ''rejected'', JNull)])
      | ([], [r]) \<Rightarrow> Inr (JObj [(ascii ''status'', utext ''rejected''), (ascii ''action'', JNull),
                                (ascii ''rejected'', JObj r)])
      | _ \<Rightarrow> Inl (DecisionProjectionError ''requires ActionParsed XOR ActionRejected''))"

text \<open>The events of a turn occupy one contiguous range of the stream.\<close>

definition event_range :: "ustring jobject list \<Rightarrow> (int \<times> int) result" where
  "event_range turn_events =
     and_then (traverse (\<lambda>e. dr_integer (uget e ''seq'') 0) turn_events) (\<lambda>seqs.
     and_then (py_nth seqs 0) (\<lambda>first.
     if seqs \<noteq> [first..last seqs]
     then Inl (DecisionProjectionError ''event range is not contiguous'')
     else Inr (first, last seqs)))"

definition check_attempts :: "ustring jobject list \<Rightarrow> unit result" where
  "check_attempts attempts =
     and_then (traverse (\<lambda>a. dr_integer (uget a ''attempt'') 1) attempts) (\<lambda>numbers.
     if numbers \<noteq> [1..int (length attempts)]
     then Inl (DecisionProjectionError ''response attempts are not ordered from 1'') else Inr ())"

definition decision_document ::
    "ustring \<Rightarrow> int \<Rightarrow> int \<Rightarrow> int \<Rightarrow> ustring jobject \<Rightarrow> ustring jobject list \<Rightarrow> ustring json
      \<Rightarrow> ustring json \<Rightarrow> ustring json \<Rightarrow> ustring json \<Rightarrow> ustring json \<Rightarrow> int \<times> int \<Rightarrow> ustring jobject" where
  "decision_document run_id turn bar_index ts saw attempts meant rules happened cost_to_hold account
       seqs =
     [(ascii ''schema'', utext ''decision_record/v1''), (ascii ''run_id'', JStr run_id),
      (ascii ''turn'', JInt turn), (ascii ''bar_index'', JInt bar_index), (ascii ''ts'', JInt ts),
      (ascii ''saw'', JObj saw),
      (ascii ''said'', JObj [(ascii ''attempts'', JArr (map JObj attempts))]),
      (ascii ''meant'', meant), (ascii ''rules'', rules), (ascii ''happened'', happened),
      (ascii ''cost_to_hold'', cost_to_hold), (ascii ''account_after'', account),
      (ascii ''event_seq_range'', JObj [(ascii ''first_seq'', JInt (fst seqs)),
                                        (ascii ''last_seq'', JInt (snd seqs))])]"

definition happened_document ::
    "ustring jobject list \<Rightarrow> ustring jobject list \<Rightarrow> ustring jobject option
      \<Rightarrow> ustring jobject option \<Rightarrow> ustring json" where
  "happened_document fills cancels liquidation post_kill_switch_attempt = JObj
     [(ascii ''fills'', JArr (map JObj fills)), (ascii ''cancels'', JArr (map JObj cancels)),
      (ascii ''liquidation'', opt_object liquidation),
      (ascii ''post_kill_switch_attempt'', opt_object post_kill_switch_attempt)]"

definition cost_document :: "ustring jobject list \<Rightarrow> ustring jobject list \<Rightarrow> ustring json" where
  "cost_document funding margin_updates = JObj
     [(ascii ''funding'', JArr (map JObj funding)),
      (ascii ''margin_after'', if margin_updates = [] then JNull else JObj (last margin_updates))]"

definition decision_record ::
    "ustring \<Rightarrow> int \<Rightarrow> ustring jobject list \<Rightarrow> ustring jobject \<Rightarrow> ustring jobject result" where
  "decision_record run_id turn turn_events row =
     and_then (event_range turn_events) (\<lambda>seq_range.
     let observation_event = hd turn_events in
     if uget observation_event ''type'' \<noteq> utext ''ObservationEmitted''
     then Inl (DecisionProjectionError ''must start with ObservationEmitted'')
     else
     and_then (and_then (typed_payloads turn_events ''ObservationEmitted'') exactly_one) (\<lambda>saw.
     and_then (dr_integer (uget observation_event ''ts'') 0) (\<lambda>ts.
     and_then (dr_integer (uget observation_event ''bar_index'') 0) (\<lambda>bar_index.
     and_then (typed_payloads turn_events ''AgentResponded'') (\<lambda>attempts.
     and_then (check_attempts attempts) (\<lambda>_.
     and_then (typed_payloads turn_events ''ActionParsed'') (\<lambda>parsed.
     and_then (typed_payloads turn_events ''ActionRejected'') (\<lambda>rejected.
     and_then (meant_of parsed rejected) (\<lambda>meant.
     and_then (typed_payloads turn_events ''RiskCheck'') (\<lambda>rules.
     and_then (typed_payloads turn_events ''OrderFilled'') (\<lambda>fills.
     and_then (typed_payloads turn_events ''OrderCancelled'') (\<lambda>cancels.
     and_then (and_then (typed_payloads turn_events ''LiquidationTriggered'') zero_or_one)
       (\<lambda>liquidation.
     and_then (and_then (typed_payloads turn_events ''PostKillSwitchAttempt'') zero_or_one)
       (\<lambda>post_kill_switch_attempt.
     and_then (typed_payloads turn_events ''FundingApplied'') (\<lambda>funding.
     and_then (typed_payloads turn_events ''MarginUpdate'') (\<lambda>margin_updates.
     and_then (account_after row) (\<lambda>account.
     Inr (decision_document run_id turn bar_index ts saw attempts meant
            (JArr (map JObj rules)) (happened_document fills cancels liquidation post_kill_switch_attempt)
            (cost_document funding margin_updates) account seq_range))))))))))))))))))"

section \<open>All records\<close>

definition lower_hex_cp :: "codepoint \<Rightarrow> bool" where
  "lower_hex_cp c \<longleftrightarrow> (48 \<le> c \<and> c \<le> 57) \<or> (97 \<le> c \<and> c \<le> 102)"

definition run_id_ok :: "ustring \<Rightarrow> bool" where
  "run_id_ok s \<longleftrightarrow> take 4 s = ascii ''run_'' \<and> length s = 20 \<and> list_all lower_hex_cp (drop 4 s)"

definition generate_decision_records ::
    "ustring jobject list \<Rightarrow> ustring jobject list \<Rightarrow> ustring \<Rightarrow> ustring jobject list result" where
  "generate_decision_records events ledger_rows run_id =
     (if \<not> run_id_ok run_id then Inl (DecisionProjectionError ''invalid run_id'')
      else
      and_then (events_by_turn events) (\<lambda>groups.
      let turns = sort (map fst groups) in
      if turns \<noteq> map int [0..<length turns]
      then Inl (DecisionProjectionError ''processed turns must be gap-free from zero'')
      else
      and_then (fold_result add_ledger_row ledger_rows []) (\<lambda>ledger_by_turn.
      if set (map fst ledger_by_turn) \<noteq> set turns
      then Inl (DecisionProjectionError ''primary ledger/event turn mismatch'')
      else traverse (\<lambda>turn.
             case (map_of groups turn, map_of ledger_by_turn turn) of
               (Some turn_events, Some row) \<Rightarrow> decision_record run_id turn turn_events row
             | _ \<Rightarrow> Inl (KeyError ''turn'')) turns)))"

end
