(* ===== verification/Bundle.thy ===== *)
theory Bundle
  imports Decision_Record Json_Decode "HOL-Library.Char_ord"
begin

text \<open>
  The stored bundle as \<open>recorder/verify.py\<close> sees it: a directory tree with symbolic links, the
  path discipline of the verifier, and its readers of canonical documents and JSONL streams.
  The JSON Schema validator is a parameter.
\<close>

section \<open>A directory tree\<close>

text \<open>
  \<open>Unreadable\<close> is a file whose bytes the operating system refuses; a link carries what it
  resolves to, \<open>None\<close> when it dangles.
\<close>

datatype node = File "byte list" | Unreadable | Dir "(ustring \<times> node) list" | Link "node option"

definition follow :: "node \<Rightarrow> node option" where
  "follow n = (case n of Link target \<Rightarrow> target | _ \<Rightarrow> Some n)"

fun look :: "ustring list \<Rightarrow> node \<Rightarrow> node option" where
  "look [] n = Some n"
| "look (p # ps) n =
     (case follow n of
        Some (Dir entries) \<Rightarrow> (case map_of entries p of None \<Rightarrow> None | Some c \<Rightarrow> look ps c)
      | _ \<Rightarrow> None)"

definition reach :: "node \<Rightarrow> ustring list \<Rightarrow> node option" where
  "reach bundle ps = (case look ps bundle of None \<Rightarrow> None | Some n \<Rightarrow> follow n)"

definition path_exists :: "node \<Rightarrow> ustring list \<Rightarrow> bool" where
  "path_exists bundle ps \<longleftrightarrow> reach bundle ps \<noteq> None"

definition is_symlink :: "node \<Rightarrow> ustring list \<Rightarrow> bool" where
  "is_symlink bundle ps \<longleftrightarrow> (case look ps bundle of Some (Link _) \<Rightarrow> True | _ \<Rightarrow> False)"

definition is_dir :: "node \<Rightarrow> ustring list \<Rightarrow> bool" where
  "is_dir bundle ps \<longleftrightarrow> (case reach bundle ps of Some (Dir _) \<Rightarrow> True | _ \<Rightarrow> False)"

definition is_file :: "node \<Rightarrow> ustring list \<Rightarrow> bool" where
  "is_file bundle ps \<longleftrightarrow>
     (case reach bundle ps of Some (File _) \<Rightarrow> True | Some Unreadable \<Rightarrow> True | _ \<Rightarrow> False)"

definition read_bytes :: "node \<Rightarrow> ustring list \<Rightarrow> byte list result" where
  "read_bytes bundle ps =
     (case reach bundle ps of Some (File bs) \<Rightarrow> Inr bs | _ \<Rightarrow> Inl (OSError ''cannot read''))"

text \<open>The names \<open>iterdir\<close> yields.\<close>

definition iterdir :: "node \<Rightarrow> ustring list \<Rightarrow> ustring list result" where
  "iterdir bundle ps =
     (case reach bundle ps of
        Some (Dir entries) \<Rightarrow> Inr (map fst entries) | _ \<Rightarrow> Inl (OSError ''not a directory''))"

section \<open>Paths\<close>

fun split_on :: "'a \<Rightarrow> 'a list \<Rightarrow> 'a list list" where
  "split_on s [] = [[]]"
| "split_on s (x # xs) =
     (if x = s then [] # split_on s xs
      else case split_on s xs of [] \<Rightarrow> [[x]] | y # ys \<Rightarrow> (x # y) # ys)"

text \<open>The components of a relative \<open>PurePosixPath\<close>: empty ones and single dots vanish.\<close>

definition path_parts :: "ustring \<Rightarrow> ustring list" where
  "path_parts p = filter (\<lambda>c. c \<noteq> [] \<and> c \<noteq> [46]) (split_on 47 p)"

definition path_name :: "ustring \<Rightarrow> ustring" where
  "path_name p = (if path_parts p = [] then [] else last (path_parts p))"

definition failure :: "string \<Rightarrow> ustring \<Rightarrow> error" where
  "failure message path = VerificationFailure message (Some path) None None"

definition failure_at :: "string \<Rightarrow> ustring \<Rightarrow> string option \<Rightarrow> int option \<Rightarrow> error" where
  "failure_at message path stream seq = VerificationFailure message (Some path) stream seq"

text \<open>
  No component may be a symbolic link; with that, a path without \<open>..\<close> cannot leave the bundle,
  so the source's last test, on the resolved path, cannot fail.
\<close>

definition safe_bundle_path :: "node \<Rightarrow> ustring \<Rightarrow> ustring list result" where
  "safe_bundle_path bundle relative =
     (let parts = path_parts relative in
      if take 1 relative = [47] \<or> [46, 46] \<in> set parts
      then Inl (failure ''unsafe bundle-relative path'' relative)
      else if \<exists>k \<in> set [1..<length parts + 1]. is_symlink bundle (take k parts)
      then Inl (failure ''symlink path components are forbidden'' relative)
      else Inr parts)"

definition SEALED_FILES :: "string list" where
  "SEALED_FILES = [''manifest.json'', ''agent_manifest.json'', ''ledger.jsonl'',
     ''ledger_stress_2x.jsonl'', ''metrics.json'', ''chain.jsonl'']"

definition SEALED_TOP_LEVEL :: "string list" where
  "SEALED_TOP_LEVEL = [''manifest.json'', ''agent_manifest.json'', ''observations'', ''raw'',
     ''events.jsonl'', ''chain.jsonl'', ''decisions'', ''ledger.jsonl'', ''ledger_stress_2x.jsonl'',
     ''metrics.json'', ''chain.json'']"

definition top :: "string \<Rightarrow> ustring list" where "top name = [ascii name]"

text \<open>The least element of the symmetric difference, the one the source names.\<close>

definition first_difference :: "ustring list \<Rightarrow> ustring list \<Rightarrow> ustring" where
  "first_difference xs ys =
     (case sort (filter (\<lambda>x. x \<notin> set ys) xs @ filter (\<lambda>y. y \<notin> set xs) ys) of
        [] \<Rightarrow> [] | d # _ \<Rightarrow> d)"

definition require_directory :: "node \<Rightarrow> string \<Rightarrow> unit result" where
  "require_directory bundle directory =
     and_then (safe_bundle_path bundle (ascii directory)) (\<lambda>parts.
     if \<not> is_dir bundle parts
     then Inl (failure ''missing or not a real directory'' (ascii directory)) else Inr ())"

definition verify_layout :: "node \<Rightarrow> bool \<Rightarrow> unit result" where
  "verify_layout bundle sealed =
     and_then (traverse (require_directory bundle) [''observations'', ''raw'', ''decisions'']) (\<lambda>_.
     if \<not> sealed then Inr ()
     else
       let allowed = map ascii (SEALED_TOP_LEVEL @
             (if path_exists bundle (top ''redaction.json'') then [''redaction.json''] else []))
       in
       and_then (iterdir bundle []) (\<lambda>actual.
       if set actual \<noteq> set allowed
       then Inl (failure ''sealed top-level layout mismatch'' (first_difference actual allowed))
       else Inr ()))"

section \<open>Reading JSON\<close>

definition reject_duplicate_keys :: "(ustring \<times> ustring json) list \<Rightarrow> ustring json result" where
  "reject_duplicate_keys pairs =
     (if distinct (map fst pairs) then Inr (JObj pairs)
      else Inl (ValueError ''duplicate JSON key''))"

definition strict_hooks :: json_hooks where
  "strict_hooks =
     \<lparr>jh_float = (\<lambda>_. Inl (ValueError ''fractional/exponent JSON number is forbidden'')),
      jh_constant = (\<lambda>_. Inl (ValueError ''non-finite JSON number is forbidden'')),
      jh_pairs = reject_duplicate_keys\<rparr>"

text \<open>
  What the verifier is given: how deep the interpreter lets documents nest, and the JSON Schema
  validator with the frozen schemas.
\<close>

record verifier =
  vf_depth :: nat
  vf_schema :: "string \<Rightarrow> ustring json \<Rightarrow> bool"

definition decode_document :: "verifier \<Rightarrow> byte list \<Rightarrow> ustring \<Rightarrow> ustring json result" where
  "decode_document env raw path =
     (case utf8_decode raw of
        None \<Rightarrow> Inl (failure ''invalid UTF-8'' path)
      | Some text \<Rightarrow>
          (case json_loads strict_hooks (vf_depth env) text of
             Inr v \<Rightarrow> Inr v
           | Inl JSONDecodeError \<Rightarrow> Inl (failure ''invalid JSON'' path)
           | Inl (ValueError _) \<Rightarrow> Inl (failure ''invalid JSON'' path)
           | Inl e \<Rightarrow> Inl e))"

definition as_document :: "ustring json \<Rightarrow> ustring \<Rightarrow> ustring jobject result" where
  "as_document v path =
     (case v of JObj m \<Rightarrow> Inr m | _ \<Rightarrow> Inl (failure ''expected an object'' path))"

text \<open>\<open>validate_instance\<close> of \<open>recorder/writer.py\<close>.\<close>

definition validate_instance :: "verifier \<Rightarrow> string \<Rightarrow> ustring json \<Rightarrow> unit result" where
  "validate_instance env name value =
     (if \<not> vf_schema env name value then Inl (RecorderValidationError ''schema violation'')
      else case canonical_bytes value of
        Inl (CanonicalizationError m) \<Rightarrow> Inl (RecorderValidationError m)
      | Inl e \<Rightarrow> Inl e
      | Inr _ \<Rightarrow> Inr ())"

datatype newline_rule = Forbid | Require_one | Optional_one

definition logical_bytes :: "newline_rule \<Rightarrow> ustring \<Rightarrow> byte list \<Rightarrow> byte list result" where
  "logical_bytes rule relative raw =
     (let ends = (raw \<noteq> [] \<and> last raw = 10) in
      case rule of
        Require_one \<Rightarrow>
          if \<not> ends \<or> (length raw \<ge> 2 \<and> last (butlast raw) = 10)
          then Inl (failure ''expected exactly one trailing newline'' relative)
          else Inr (butlast raw)
      | Optional_one \<Rightarrow>
          let logical = (if ends then butlast raw else raw) in
          if logical \<noteq> [] \<and> last logical = 10
          then Inl (failure ''more than one trailing newline'' relative) else Inr logical
      | Forbid \<Rightarrow>
          if ends then Inl (failure ''unexpected trailing newline'' relative) else Inr raw)"

text \<open>Stored bytes must be the canonical encoding of what they decode to.\<close>

definition canonical_object ::
    "verifier \<Rightarrow> byte list \<Rightarrow> ustring \<Rightarrow> (string \<Rightarrow> error) \<Rightarrow> ustring jobject result" where
  "canonical_object env logical path fail =
     and_then (decode_document env logical path) (\<lambda>decoded.
     and_then (as_document decoded path) (\<lambda>value.
     case canonical_bytes (JObj value) of
       Inl (CanonicalizationError _) \<Rightarrow> Inl (fail ''cannot canonicalize'')
     | Inl e \<Rightarrow> Inl e
     | Inr expected \<Rightarrow>
         if logical \<noteq> expected then Inl (fail ''stored bytes are not canonical JCS'')
         else Inr value))"

definition validate_stored ::
    "verifier \<Rightarrow> string option \<Rightarrow> ustring jobject \<Rightarrow> (string \<Rightarrow> error) \<Rightarrow> unit result" where
  "validate_stored env schema value fail =
     (case schema of
        None \<Rightarrow> Inr ()
      | Some name \<Rightarrow>
          (case validate_instance env name (JObj value) of
             Inl (RecorderValidationError m) \<Rightarrow> Inl (fail m)
           | other \<Rightarrow> other))"

definition read_document ::
    "verifier \<Rightarrow> node \<Rightarrow> ustring \<Rightarrow> string option \<Rightarrow> newline_rule
      \<Rightarrow> (ustring jobject \<times> byte list) result" where
  "read_document env bundle relative schema rule =
     and_then (safe_bundle_path bundle relative) (\<lambda>parts.
     case read_bytes bundle parts of
       Inl _ \<Rightarrow> Inl (failure ''cannot read required file'' relative)
     | Inr raw \<Rightarrow>
         and_then (logical_bytes rule relative raw) (\<lambda>logical.
         and_then (canonical_object env logical relative (\<lambda>m. failure m relative)) (\<lambda>value.
         and_then (validate_stored env schema value (\<lambda>m. failure m relative)) (\<lambda>_.
         Inr (value, raw)))))"

section \<open>JSONL streams\<close>

record jsonl_read =
  jl_objects :: "ustring jobject list"
  jl_records :: "byte list list"
  jl_partial_tail :: "byte list"
  jl_raw :: "byte list"

definition line_path :: "ustring \<Rightarrow> nat \<Rightarrow> ustring" where
  "line_path relative index = relative @ [58] @ ascii (show_nat (index + 1))"

definition read_line ::
    "verifier \<Rightarrow> ustring \<Rightarrow> string option \<Rightarrow> string option \<Rightarrow> nat \<times> byte list
      \<Rightarrow> ustring jobject result" where
  "read_line env relative schema stream il = (case il of (index, line) \<Rightarrow>
     let fail = (\<lambda>m. failure_at m relative stream (Some (int index))) in
     if line = [] then Inl (fail ''blank record'')
     else
     and_then (canonical_object env line (line_path relative index) fail) (\<lambda>value.
     and_then (validate_stored env schema value fail) (\<lambda>_.
     Inr value)))"

definition read_jsonl ::
    "verifier \<Rightarrow> node \<Rightarrow> ustring \<Rightarrow> string option \<Rightarrow> bool \<Rightarrow> string option \<Rightarrow> jsonl_read result" where
  "read_jsonl env bundle relative schema sealed stream =
     and_then (safe_bundle_path bundle relative) (\<lambda>parts.
     case read_bytes bundle parts of
       Inl _ \<Rightarrow> Inl (failure_at ''cannot read required file'' relative stream None)
     | Inr raw \<Rightarrow>
         let pieces = split_on 10 raw; tail = last pieces; complete = butlast pieces in
         if sealed \<and> tail \<noteq> []
         then Inl (failure_at ''sealed JSONL has an unterminated final record'' relative stream
                (Some (int (length complete))))
         else
         and_then (traverse (read_line env relative schema stream)
                     (zip [0..<length complete] complete)) (\<lambda>objects.
         Inr \<lparr>jl_objects = objects, jl_records = complete, jl_partial_tail = tail, jl_raw = raw\<rparr>))"

end
