(* ===== verification/Verify.thy ===== *)
theory Verify
  imports Bundle
begin

text \<open>
  Model of \<open>recorder/verify.py\<close>: the three-valued verdict on a stored evidence bundle. What the
  body of \<open>verify_bundle\<close> has learnt when it fails is a state of its own, because the report of
  a corrupt bundle shows it.
\<close>

section \<open>Numbered names\<close>

definition all_digits :: "ustring \<Rightarrow> bool" where
  "all_digits s \<longleftrightarrow> list_all is_digit_cp s"

definition pad4_int :: "int \<Rightarrow> string" where
  "pad4_int n = (if n < 0 then CHR ''-'' # replicate (3 - length (show_nat (nat (- n)))) (CHR ''0'')
                     @ show_nat (nat (- n))
                 else pad4 (nat n))"

text \<open>\<open>NNNN.json\<close> and \<open>NNNN-aK.txt\<close>, with the number they carry.\<close>

definition numbered_json :: "ustring \<Rightarrow> int option" where
  "numbered_json name =
     (if length name = 9 \<and> all_digits (take 4 name) \<and> drop 4 name = ascii ''.json''
      then Some (int (cp_digits_value (take 4 name))) else None)"

definition raw_name :: "ustring \<Rightarrow> int option" where
  "raw_name name =
     (if length name = 11 \<and> all_digits (take 4 name)
         \<and> drop 4 name \<in> {ascii ''-a1.txt'', ascii ''-a2.txt''}
      then Some (int (cp_digits_value (take 4 name))) else None)"

section \<open>Chain links and streams\<close>

type_synonym links = "ustring jobject list \<times> ustring jobject list"

text \<open>
  \<open>_stream_links\<close>: the links of the two streams, in file order. A link the schema accepts but
  that has no usable \<open>stream\<close> member would raise outside the verifier's own exceptions.
\<close>

definition add_link :: "verifier \<Rightarrow> nat \<times> ustring jobject \<Rightarrow> links \<Rightarrow> links result" where
  "add_link env il acc = (case il of (line, value) \<Rightarrow>
     let at_line = (\<lambda>m. failure_at m (ascii ''chain.jsonl'') None (Some (int line))) in
     if \<not> vf_schema env ''chain_link'' (JObj value) then Inl (at_line ''invalid chain link'')
     else if \<not> dict_has value (ascii ''stream'') then Inl (KeyError ''stream'')
     else case uget value ''stream'' of
       JArr _ \<Rightarrow> Inl (TypeError ''unhashable type'')
     | JObj _ \<Rightarrow> Inl (TypeError ''unhashable type'')
     | stream \<Rightarrow>
         if stream = utext ''events'' then Inr (fst acc @ [value], snd acc)
         else if stream = utext ''decisions'' then Inr (fst acc, snd acc @ [value])
         else Inl (at_line ''unknown stream''))"

definition stream_links :: "verifier \<Rightarrow> ustring jobject list \<Rightarrow> links result" where
  "stream_links env chain_objects =
     fold_result (add_link env) (zip [0..<length chain_objects] chain_objects) ([], [])"

definition stream_path :: "string \<Rightarrow> nat \<Rightarrow> ustring" where
  "stream_path stream seq = ascii
     (if stream = ''events'' then ''events.jsonl'' else ''decisions/'' @ pad4 seq @ ''.json'')"

text \<open>The exceptions of the chain, as the verifier reports them.\<close>

definition run_chain ::
    "string \<Rightarrow> string \<Rightarrow> byte list list \<Rightarrow> ustring jobject list \<Rightarrow> string option \<Rightarrow> int option
      \<Rightarrow> unit result" where
  "run_chain stream genesis records links expected_head expected_count =
     (case verify_chain stream genesis records links expected_head expected_count of
        Inr _ \<Rightarrow> Inr ()
      | Inl (ChainVerificationError _ seq m) \<Rightarrow>
          Inl (failure_at m
            (ascii (if stream = ''events'' then ''events.jsonl''
                    else ''decisions/'' @ pad4_int seq @ ''.json''))
            (Some stream) (Some seq))
      | Inl e \<Rightarrow> Inl e)"

definition verify_stream ::
    "string \<Rightarrow> string \<Rightarrow> byte list list \<Rightarrow> ustring jobject list \<Rightarrow> ustring jobject option
      \<Rightarrow> unit result" where
  "verify_stream stream genesis records links sealed_head =
     (case sealed_head of
        None \<Rightarrow>
          if length records < length links
          then Inl (failure_at ''links but fewer complete records'' (stream_path stream (length records))
                 (Some stream) (Some (int (length records))))
          else if length records - length links > 1
          then Inl (failure_at ''more than one unlinked trailing record''
                 (stream_path stream (length links)) (Some stream) (Some (int (length links))))
          else run_chain stream genesis (take (length links) records) links None None
      | Some head \<Rightarrow>
          let at_seal = (\<lambda>m. failure_at m (ascii ''chain.json'') (Some stream) None) in
          if uget head ''genesis'' \<noteq> utext genesis
          then Inl (at_seal ''genesis does not match the recomputed bundle identity'')
          else case (uget head ''head'', uget head ''count'') of
            (JStr h, JInt n) \<Rightarrow>
              if ascii (map char_of h) = h
              then run_chain stream genesis records links (Some (map char_of h)) (Some n)
              else Inl (CanonicalizationError ''expected_head'')
          | _ \<Rightarrow> Inl (at_seal ''invalid head/count''))"

section \<open>Decisions\<close>

definition read_decision ::
    "verifier \<Rightarrow> node \<Rightarrow> nat \<times> ustring \<Rightarrow> (ustring jobject \<times> byte list) result" where
  "read_decision env bundle ip = (case ip of (expected, name) \<Rightarrow>
     let relative = ascii ''decisions/'' @ name;
         fail = (\<lambda>m. failure_at m relative (Some ''decisions'') (Some (int expected)))
     in case numbered_json name of
       None \<Rightarrow> Inl (fail ''unexpected decision artifact'')
     | Some number \<Rightarrow>
         if number \<noteq> int expected then Inl (fail ''expected the next decision'')
         else
         and_then (read_document env bundle relative (Some ''decision_record'') Forbid)
           (\<lambda>(value, raw).
         if \<not> equals_int (uget value ''turn'') (int expected)
         then Inl (fail ''decision.turn'') else Inr (value, raw)))"

definition visible_names :: "bool \<Rightarrow> ustring list \<Rightarrow> ustring list" where
  "visible_names include_hidden names =
     filter (\<lambda>name. include_hidden \<or> take 1 name \<noteq> [46]) names"

definition read_decisions ::
    "verifier \<Rightarrow> node \<Rightarrow> bool \<Rightarrow> (ustring jobject list \<times> byte list list) result" where
  "read_decisions env bundle sealed =
     and_then (safe_bundle_path bundle (ascii ''decisions'')) (\<lambda>parts.
     and_then (iterdir bundle parts) (\<lambda>names.
     let candidates = sort (visible_names sealed names) in
     and_then (traverse (read_decision env bundle) (zip [0..<length candidates] candidates))
       (\<lambda>pairs. Inr (map fst pairs, map snd pairs))))"

section \<open>Ledgers\<close>

definition ledger_integer :: "ustring \<Rightarrow> nat \<Rightarrow> ustring jobject \<Rightarrow> string \<Rightarrow> int result" where
  "ledger_integer relative index row field =
     (case uget row field of
        JInt n \<Rightarrow> Inr n
      | _ \<Rightarrow> Inl (failure_at ''is not an integer'' relative None (Some (int index))))"

definition check_ledger_row ::
    "ustring \<Rightarrow> string \<Rightarrow> nat \<times> ustring jobject \<Rightarrow> int option \<Rightarrow> int option result" where
  "check_ledger_row relative profile ir previous_nav = (case ir of (index, row) \<Rightarrow>
     let fail = (\<lambda>m. failure_at m relative None (Some (int index))) in
     if uget row ''profile'' \<noteq> utext profile then Inl (fail ''row has the wrong profile'')
     else
     and_then (ledger_integer relative index row ''d_nav_micro'') (\<lambda>d_nav.
     and_then (ledger_integer relative index row ''d_price_pnl_micro'') (\<lambda>d_price.
     and_then (ledger_integer relative index row ''d_funding_micro'') (\<lambda>d_funding.
     and_then (ledger_integer relative index row ''d_fees_micro'') (\<lambda>d_fees.
     and_then (ledger_integer relative index row ''d_liq_penalty_micro'') (\<lambda>d_penalty.
     and_then (ledger_integer relative index row ''nav_micro'') (\<lambda>nav.
     if d_nav \<noteq> d_price + d_funding + d_fees + d_penalty then Inl (fail ''violates MATH-2'')
     else if (case previous_nav of None \<Rightarrow> False | Some p \<Rightarrow> nav - p \<noteq> d_nav)
     then Inl (fail ''NAV delta disagrees with prior row'')
     else Inr (Some nav))))))))"

definition read_ledger ::
    "verifier \<Rightarrow> node \<Rightarrow> string \<Rightarrow> string \<Rightarrow> bool \<Rightarrow> jsonl_read option result" where
  "read_ledger env bundle relative profile sealed =
     (if \<not> path_exists bundle (top relative)
      then if sealed then Inl (failure ''missing required ledger'' (ascii relative)) else Inr None
      else
      and_then (read_jsonl env bundle (ascii relative) (Some ''ledger_row'') sealed None) (\<lambda>rows.
      and_then (fold_result (check_ledger_row (ascii relative) profile)
                  (zip [0..<length (jl_objects rows)] (jl_objects rows)) None) (\<lambda>_.
      Inr (Some rows))))"

section \<open>Blobs\<close>

type_synonym refs = "(ustring \<times> ustring \<times> int) list"

definition event_seq :: "ustring jobject \<Rightarrow> int" where
  "event_seq e = (case uget e ''seq'' of JInt n \<Rightarrow> n | _ \<Rightarrow> 0)"

definition observation_reference :: "ustring jobject \<Rightarrow> ustring jobject \<Rightarrow> refs \<Rightarrow> refs result" where
  "observation_reference e payload refs =
     (let fail = (\<lambda>m. failure_at m (ascii ''events.jsonl'') (Some ''events'') (Some (event_seq e))) in
      case uget e ''turn'' of
        JInt turn \<Rightarrow>
          (let expected = ascii (''observations/'' @ pad4_int turn @ ''.json'') in
           case (uget payload ''observation_ref'', uget payload ''observation_sha256'') of
             (JStr relative, JStr digest) \<Rightarrow>
               if relative \<noteq> expected
               then Inl (fail ''ObservationEmitted reference/hash is invalid'')
               else if map_of refs relative \<noteq> None
               then Inl (fail ''duplicate observation reference'')
               else Inr (refs @ [(relative, digest, turn)])
           | _ \<Rightarrow> Inl (fail ''ObservationEmitted reference/hash is invalid''))
      | _ \<Rightarrow> Inl (fail ''ObservationEmitted has no integer turn''))"

definition raw_reference :: "ustring jobject \<Rightarrow> ustring jobject \<Rightarrow> refs \<Rightarrow> refs result" where
  "raw_reference e payload refs =
     (let fail = (\<lambda>m. failure_at m (ascii ''events.jsonl'') (Some ''events'') (Some (event_seq e))) in
      case (uget payload ''raw_ref'', uget payload ''raw_sha256'', uget payload ''raw_bytes'') of
        (JStr relative, JStr digest, JInt byte_count) \<Rightarrow>
          if raw_name (path_name relative) = None \<or> take 4 relative \<noteq> ascii ''raw/''
          then Inl (fail ''AgentResponded raw reference/hash/bytes is invalid'')
          else if map_of refs relative \<noteq> None then Inl (fail ''duplicate raw reference'')
          else Inr (refs @ [(relative, digest, byte_count)])
      | _ \<Rightarrow> Inl (fail ''AgentResponded raw reference/hash/bytes is invalid''))"

definition add_reference :: "ustring jobject \<Rightarrow> refs \<times> refs \<Rightarrow> (refs \<times> refs) result" where
  "add_reference e acc =
     (case uget e ''payload'' of
        JObj payload \<Rightarrow>
          if uget e ''type'' = utext ''ObservationEmitted''
          then and_then (observation_reference e payload (fst acc)) (\<lambda>r. Inr (r, snd acc))
          else if uget e ''type'' = utext ''AgentResponded''
          then and_then (raw_reference e payload (snd acc)) (\<lambda>r. Inr (fst acc, r))
          else Inr acc
      | _ \<Rightarrow> Inr acc)"

definition referenced_blobs :: "ustring jobject list \<Rightarrow> (refs \<times> refs) result" where
  "referenced_blobs events = fold_result add_reference events ([], [])"

definition disclose ::
    "node \<Rightarrow> refs \<Rightarrow> nat \<times> ustring json \<Rightarrow> refs \<Rightarrow> refs result" where
  "disclose bundle raw_refs ii disclosed = (case ii of (index, item) \<Rightarrow>
     let fail = (\<lambda>m. failure_at m (ascii ''redaction.json'') None (Some (int index))) in
     case item of
       JObj removal \<Rightarrow>
         (case (uget removal ''path'', uget removal ''sha256'', uget removal ''bytes'') of
            (JStr relative, JStr digest, JInt byte_count) \<Rightarrow>
              if map_of disclosed relative \<noteq> None then Inl (fail ''duplicates a removal'')
              else if map_of raw_refs relative \<noteq> Some (digest, byte_count)
              then Inl (fail ''removal disagrees with event'')
              else if path_exists bundle (path_parts relative)
              then Inl (failure_at ''lists present blob'' relative None (Some (int index)))
              else Inr (disclosed @ [(relative, digest, byte_count)])
          | _ \<Rightarrow> Inl (fail ''removal has invalid fields''))
     | _ \<Rightarrow> Inl (fail ''removal is not an object''))"

definition redactions ::
    "verifier \<Rightarrow> node \<Rightarrow> ustring jobject option \<Rightarrow> ustring \<Rightarrow> refs \<Rightarrow> refs result" where
  "redactions env bundle seal run_id raw_refs =
     (let fail = (\<lambda>m. failure m (ascii ''redaction.json'')) in
      if \<not> path_exists bundle (top ''redaction.json'') then Inr []
      else case seal of
        None \<Rightarrow> Inl (fail ''only valid for a sealed share bundle'')
      | Some sealed \<Rightarrow>
          and_then (read_document env bundle (ascii ''redaction.json'') (Some ''redaction'') Optional_one)
            (\<lambda>(redaction, _).
          if uget redaction ''run_id'' \<noteq> JStr run_id
          then Inl (fail ''run_id does not match manifest'')
          else if uget redaction ''parent_root'' \<noteq> uget sealed ''root''
          then Inl (fail ''parent_root does not match chain root'')
          else case uget redaction ''removals'' of
            JArr removals \<Rightarrow>
              fold_result (disclose bundle raw_refs) (zip [0..<length removals] removals) []
          | _ \<Rightarrow> Inl (fail ''removals is not an array'')))"
definition check_observation_blob ::
    "verifier \<Rightarrow> node \<Rightarrow> ustring \<times> ustring \<times> int \<Rightarrow> unit result" where
  "check_observation_blob env bundle ref = (case ref of (relative, digest, _) \<Rightarrow>
     and_then (read_document env bundle relative (Some ''observation'') Forbid) (\<lambda>(_, raw).
     if ascii (sha256_prefixed raw) \<noteq> digest
     then Inl (failure ''observation hash mismatch'' relative) else Inr ()))"

definition check_raw_blob :: "node \<Rightarrow> refs \<Rightarrow> ustring \<times> ustring \<times> int \<Rightarrow> unit result" where
  "check_raw_blob bundle disclosed ref = (case ref of (relative, digest, byte_count) \<Rightarrow>
     and_then (safe_bundle_path bundle relative) (\<lambda>parts.
     if \<not> path_exists bundle parts
     then if map_of disclosed relative \<noteq> None then Inr ()
          else Inl (failure ''referenced raw blob is missing and undisclosed'' relative)
     else if is_symlink bundle parts \<or> \<not> is_file bundle parts
     then Inl (failure ''raw blob is not a regular file'' relative)
     else
     and_then (read_bytes bundle parts) (\<lambda>stored.
     if int (length stored) \<noteq> byte_count then Inl (failure ''raw byte count mismatch'' relative)
     else if ascii (sha256_prefixed stored) \<noteq> digest then Inl (failure ''raw hash mismatch'' relative)
     else Inr ())))"

text \<open>The names found in a store, as bundle-relative paths.\<close>

definition store_names :: "node \<Rightarrow> string \<Rightarrow> bool \<Rightarrow> ustring list result" where
  "store_names bundle store include_hidden =
     and_then (safe_bundle_path bundle (ascii store)) (\<lambda>parts.
     and_then (iterdir bundle parts) (\<lambda>names.
     Inr (map (\<lambda>name. ascii (store @ ''/'') @ name) (visible_names include_hidden names))))"

definition check_store ::
    "bool \<Rightarrow> string \<Rightarrow> ustring list \<Rightarrow> ustring list \<Rightarrow> unit result" where
  "check_store sealed message actual expected =
     (if (if sealed then set actual \<noteq> set expected else \<not> set expected \<subseteq> set actual)
      then Inl (failure message (first_difference actual expected)) else Inr ())"

definition verify_blobs ::
    "verifier \<Rightarrow> node \<Rightarrow> ustring jobject list \<Rightarrow> ustring jobject option \<Rightarrow> ustring
      \<Rightarrow> (nat \<times> nat \<times> nat) result" where
  "verify_blobs env bundle events seal run_id =
     and_then (referenced_blobs events) (\<lambda>(observation_refs, raw_refs).
     and_then (redactions env bundle seal run_id raw_refs) (\<lambda>disclosed.
     and_then (traverse (check_observation_blob env bundle) observation_refs) (\<lambda>_.
     and_then (traverse (check_raw_blob bundle disclosed) raw_refs) (\<lambda>_.
     and_then (store_names bundle ''observations'' (seal \<noteq> None)) (\<lambda>actual_observations.
     and_then (store_names bundle ''raw'' (seal \<noteq> None)) (\<lambda>actual_raw.
     and_then (check_store (seal \<noteq> None) ''observation store/reference mismatch''
                 actual_observations (map fst observation_refs)) (\<lambda>_.
     and_then (check_store (seal \<noteq> None) ''raw store/reference mismatch'' actual_raw
                 (filter (\<lambda>r. r \<notin> set (map fst disclosed)) (map fst raw_refs))) (\<lambda>_.
     Inr (length observation_refs, length raw_refs, length disclosed)))))))))"

section \<open>Inventory of the turns\<close>

record TurnInventory =
  ti_turn :: int
  ti_observation :: bool
  ti_raw_attempts :: nat
  ti_decision :: bool
  ti_first_event_seq :: "int option"
  ti_last_event_seq :: "int option"

definition numbers_in :: "node \<Rightarrow> string \<Rightarrow> (ustring \<Rightarrow> int option) \<Rightarrow> int list" where
  "numbers_in bundle store number =
     (if is_dir bundle (top store)
      then (case iterdir bundle (top store) of
              Inr names \<Rightarrow> List.map_filter number names | Inl _ \<Rightarrow> [])
      else [])"

definition add_range :: "ustring jobject \<Rightarrow> (int \<times> int \<times> int) list \<Rightarrow> (int \<times> int \<times> int) list" where
  "add_range e ranges =
     (case (uget e ''turn'', uget e ''seq'') of
        (JInt turn, JInt seq) \<Rightarrow>
          AList.update turn
            (case map_of ranges turn of None \<Rightarrow> (seq, seq) | Some (first, _) \<Rightarrow> (first, seq)) ranges
      | _ \<Rightarrow> ranges)"

text \<open>In Python \<open>True\<close> is the integer 1.\<close>

definition int_like :: "ustring json \<Rightarrow> int option" where
  "int_like v = (case v of JInt n \<Rightarrow> Some n | JBool b \<Rightarrow> Some (if b then 1 else 0) | _ \<Rightarrow> None)"

definition turn_inventory ::
    "node \<Rightarrow> ustring jobject list \<Rightarrow> ustring jobject list \<Rightarrow> TurnInventory list" where
  "turn_inventory bundle events decisions =
     (let observations = numbers_in bundle ''observations'' numbered_json;
          raw = numbers_in bundle ''raw'' raw_name;
          ranges = fold add_range events [];
          decided = List.map_filter (\<lambda>d. int_like (uget d ''turn'')) decisions;
          turns = sort (remdups (observations @ raw @ map fst ranges @ decided))
      in map (\<lambda>turn.
           \<lparr>ti_turn = turn, ti_observation = (turn \<in> set observations),
            ti_raw_attempts = length (filter (\<lambda>t. t = turn) raw),
            ti_decision = (turn \<in> set decided),
            ti_first_event_seq = map_option fst (map_of ranges turn),
            ti_last_event_seq = map_option snd (map_of ranges turn)\<rparr>) turns)"

section \<open>The seal\<close>

definition sealed_stream_head :: "ustring jobject \<Rightarrow> string \<Rightarrow> ustring jobject result" where
  "sealed_stream_head seal stream =
     (case uget seal ''streams'' of
        JObj streams \<Rightarrow>
          (case uget streams stream of
             JObj head \<Rightarrow> Inr head
           | _ \<Rightarrow> Inl (failure_at ''streams member is not an object'' (ascii ''chain.json'')
                        (Some stream) None))
      | _ \<Rightarrow> Inl (failure ''streams is not an object'' (ascii ''chain.json'')))"

definition check_seal_file :: "node \<Rightarrow> ustring jobject \<Rightarrow> string \<Rightarrow> unit result" where
  "check_seal_file bundle files relative =
     (case read_bytes bundle (top relative) of
        Inl _ \<Rightarrow> Inl (failure ''cannot read sealed file'' (ascii relative))
      | Inr raw \<Rightarrow>
          if uget files relative \<noteq> utext (sha256_prefixed raw)
          then Inl (failure ''sealed whole-file hash mismatch'' (ascii relative)) else Inr ())"

definition verify_seal_files :: "node \<Rightarrow> ustring jobject \<Rightarrow> unit result" where
  "verify_seal_files bundle seal =
     (case uget seal ''files'' of
        JObj files \<Rightarrow>
          if set (map fst files) \<noteq> set (map ascii SEALED_FILES)
          then Inl (failure ''files coverage mismatch'' (ascii ''chain.json''))
          else and_then (traverse (check_seal_file bundle files) (sort SEALED_FILES)) (\<lambda>_. Inr ())
      | _ \<Rightarrow> Inl (failure ''files is not an object'' (ascii ''chain.json'')))"

definition decision_failure :: "string \<Rightarrow> nat \<Rightarrow> error" where
  "decision_failure m seq = failure_at m (ascii (''decisions/'' @ pad4 seq @ ''.json''))
     (Some ''decisions'') (Some (int seq))"

definition compare_decision :: "nat \<times> ustring jobject \<times> byte list \<Rightarrow> unit result" where
  "compare_decision x = (case x of (seq, expected, stored) \<Rightarrow>
     and_then (canonical_bytes (JObj expected)) (\<lambda>bytes.
     if bytes \<noteq> stored
     then Inl (decision_failure ''stored decision differs from canonical event-derived view'' seq)
     else Inr ()))"

definition verify_decision_projection ::
    "ustring jobject list \<Rightarrow> byte list list \<Rightarrow> ustring jobject list \<Rightarrow> ustring \<Rightarrow> unit result" where
  "verify_decision_projection events decision_bytes ledger run_id =
     (case generate_decision_records events ledger run_id of
        Inl (DecisionProjectionError m) \<Rightarrow>
          Inl (failure_at m (ascii ''decisions'') (Some ''decisions'') None)
      | Inl e \<Rightarrow> Inl e
      | Inr regenerated \<Rightarrow>
          if length regenerated \<noteq> length decision_bytes
          then Inl (decision_failure ''decision record count differs from regenerated event view''
                 (min (length regenerated) (length decision_bytes)))
          else and_then (traverse compare_decision
                 (zip [0..<length regenerated] (zip regenerated decision_bytes))) (\<lambda>_. Inr ()))"

section \<open>The verdict\<close>

datatype verdict = COMPLETE | TRUNCATED | CORRUPT

record VerificationResult =
  vr_verdict :: verdict
  vr_message :: string
  vr_stream :: "string option"
  vr_seq :: "int option"
  vr_path :: "ustring option"
  vr_root :: "string option"
  vr_last_good :: "int \<times> int"
  vr_inventory :: "(string \<times> nat) list"
  vr_turns :: "TurnInventory list"

text \<open>What the body has established so far.\<close>

record progress =
  pg_root :: "string option"
  pg_events :: "ustring jobject list"
  pg_decisions :: "ustring jobject list"
  pg_links :: links

definition after :: "progress \<Rightarrow> 'a result \<Rightarrow> (error \<times> progress) + 'a" where
  "after p m = (case m of Inl e \<Rightarrow> Inl (e, p) | Inr x \<Rightarrow> Inr x)"

lemma after_simps [simp]: "after p (Inl e) = Inl (e, p)" "after p (Inr x) = Inr x"
  by (simp_all add: after_def)

lemma after_eq_Inr [simp]: "after p m = Inr x \<longleftrightarrow> m = Inr x"
  by (cases m) simp_all

record identity =
  id_run_id :: ustring
  id_event_genesis :: string
  id_decision_genesis :: string

definition read_identity :: "verifier \<Rightarrow> node \<Rightarrow> identity result" where
  "read_identity env bundle =
     (let fail = (\<lambda>m. failure m (ascii ''manifest.json'')) in
      and_then (read_document env bundle (ascii ''manifest.json'') (Some ''bundle_manifest'') Forbid)
        (\<lambda>(manifest, _).
      and_then (read_document env bundle (ascii ''agent_manifest.json'') (Some ''agent_manifest'') Forbid)
        (\<lambda>(_, agent_bytes).
      let agent_hash = sha256_prefixed agent_bytes in
      if uget manifest ''agent_manifest_sha256'' \<noteq> utext agent_hash
      then Inl (failure ''hash does not match manifest'' (ascii ''agent_manifest.json''))
      else case uget manifest ''run_id'' of
        JStr run_id \<Rightarrow>
          (case (uget manifest ''pack'', uget manifest ''run_config'') of
             (JObj pack, JObj run_config) \<Rightarrow>
               (case uget pack ''content_hash'' of
                  JStr pack_hash \<Rightarrow>
                    and_then (run_config_sha256 (JObj run_config)) (\<lambda>config_hash.
                    and_then (chain_genesis ''events'' run_id pack_hash agent_hash config_hash)
                      (\<lambda>event_genesis.
                    and_then (chain_genesis ''decisions'' run_id pack_hash agent_hash config_hash)
                      (\<lambda>decision_genesis.
                    Inr \<lparr>id_run_id = run_id, id_event_genesis = event_genesis,
                         id_decision_genesis = decision_genesis\<rparr>)))
                | _ \<Rightarrow> Inl (fail ''pack.content_hash is invalid''))
           | _ \<Rightarrow> Inl (fail ''manifest pack/run_config is invalid''))
      | _ \<Rightarrow> Inl (fail ''run_id is not a string''))))"

text \<open>The seal and the root it recomputes, \<open>None\<close> for a bundle without one.\<close>

definition read_seal ::
    "verifier \<Rightarrow> node \<Rightarrow> ustring \<Rightarrow> (ustring jobject \<times> string) option result" where
  "read_seal env bundle run_id =
     (let fail = (\<lambda>m. failure m (ascii ''chain.json'')) in
      if is_symlink bundle (top ''chain.json'') then Inl (fail ''symlinks are forbidden'')
      else if \<not> path_exists bundle (top ''chain.json'') then Inr None
      else
      and_then (read_document env bundle (ascii ''chain.json'') (Some ''chain'') Forbid) (\<lambda>(seal, _).
      if uget seal ''run_id'' \<noteq> JStr run_id then Inl (fail ''run_id does not match manifest'')
      else if uget seal ''complete'' \<noteq> JBool True then Inl (fail ''complete is not true'')
      else
      and_then (seal_root seal) (\<lambda>expected_root.
      if uget seal ''root'' \<noteq> utext expected_root then Inl (fail ''root mismatch'')
      else Inr (Some (seal, expected_root)))))"

definition check_event_seq :: "nat \<times> ustring jobject \<Rightarrow> unit result" where
  "check_event_seq ie = (case ie of (index, e) \<Rightarrow>
     if \<not> equals_int (uget e ''seq'') (int index)
     then Inl (failure_at ''event seq'' (ascii ''events.jsonl'') (Some ''events'') (Some (int index)))
     else Inr ())"

definition read_metrics :: "verifier \<Rightarrow> node \<Rightarrow> bool \<Rightarrow> ustring \<Rightarrow> byte list option result" where
  "read_metrics env bundle sealed run_id =
     (if path_exists bundle (top ''metrics.json'')
      then
        and_then (read_document env bundle (ascii ''metrics.json'') (Some ''metrics'') Require_one)
          (\<lambda>(metrics, raw).
        if uget metrics ''run_id'' \<noteq> JStr run_id
        then Inl (failure ''run_id does not match manifest'' (ascii ''metrics.json''))
        else Inr (Some raw))
      else if sealed then Inl (failure ''missing required file'' (ascii ''metrics.json''))
      else Inr None)"

text \<open>The heads of the two streams, from the seal when there is one.\<close>

definition seal_heads ::
    "ustring jobject option \<Rightarrow> (ustring jobject option \<times> ustring jobject option) result" where
  "seal_heads seal =
     (case seal of
        None \<Rightarrow> Inr (None, None)
      | Some s \<Rightarrow>
          and_then (sealed_stream_head s ''events'') (\<lambda>event_head.
          and_then (sealed_stream_head s ''decisions'') (\<lambda>decision_head.
          Inr (Some event_head, Some decision_head))))"

definition check_ledger_lengths :: "jsonl_read option \<Rightarrow> jsonl_read option \<Rightarrow> unit result" where
  "check_ledger_lengths primary stress =
     (case (primary, stress) of
        (Some p, Some s) \<Rightarrow>
          if length (jl_objects p) \<noteq> length (jl_objects s)
          then Inl (failure ''primary/stress ledger row count mismatch'' (ascii ''ledger_stress_2x.jsonl''))
          else Inr ()
      | _ \<Rightarrow> Inr ())"

section \<open>Verifying a bundle\<close>

definition empty_progress :: progress where
  "empty_progress = \<lparr>pg_root = None, pg_events = [], pg_decisions = [], pg_links = ([], [])\<rparr>"

text \<open>Everything that was read and checked before the two kinds of bundle part ways.\<close>

record contents =
  co_identity :: identity
  co_seal :: "(ustring jobject \<times> string) option"
  co_events :: jsonl_read
  co_decisions :: "ustring jobject list"
  co_decision_records :: "byte list list"
  co_chain :: jsonl_read
  co_links :: links
  co_primary :: "jsonl_read option"
  co_stress :: "jsonl_read option"
  co_metrics :: "byte list option"
  co_blobs :: "nat \<times> nat \<times> nat"

definition committed_events :: "links \<Rightarrow> jsonl_read \<Rightarrow> ustring jobject list" where
  "committed_events links events = take (length (fst links)) (jl_objects events)"

definition read_contents :: "verifier \<Rightarrow> node \<Rightarrow> (error \<times> progress) + (contents \<times> progress)" where
  "read_contents env bundle =
     (let p = empty_progress in
      and_then (after p (read_identity env bundle)) (\<lambda>ident.
      and_then (after p (read_seal env bundle (id_run_id ident))) (\<lambda>seal_root.
      let seal = map_option fst seal_root; sealed = (seal_root \<noteq> None);
          p = p\<lparr>pg_root := map_option snd seal_root\<rparr>
      in
      and_then (after p (verify_layout bundle sealed)) (\<lambda>_.
      and_then (after p (read_jsonl env bundle (ascii ''events.jsonl'') (Some ''event'') sealed
                           (Some ''events''))) (\<lambda>events_read.
      let p = p\<lparr>pg_events := jl_objects events_read\<rparr> in
      and_then (after p (traverse check_event_seq
                  (zip [0..<length (jl_objects events_read)] (jl_objects events_read)))) (\<lambda>_.
      and_then (after p (read_decisions env bundle sealed)) (\<lambda>(decisions, decision_records).
      let p = p\<lparr>pg_decisions := decisions\<rparr> in
      and_then (after p (read_jsonl env bundle (ascii ''chain.jsonl'') None sealed None)) (\<lambda>chain_read.
      and_then (after p (stream_links env (jl_objects chain_read))) (\<lambda>links.
      let p = p\<lparr>pg_links := links\<rparr> in
      and_then (after p (seal_heads seal)) (\<lambda>(event_head, decision_head).
      and_then (after p (verify_stream ''events'' (id_event_genesis ident) (jl_records events_read)
                           (fst links) event_head)) (\<lambda>_.
      and_then (after p (verify_stream ''decisions'' (id_decision_genesis ident) decision_records
                           (snd links) decision_head)) (\<lambda>_.
      and_then (after p (read_ledger env bundle ''ledger.jsonl'' ''primary'' sealed)) (\<lambda>primary.
      and_then (after p (read_ledger env bundle ''ledger_stress_2x.jsonl'' ''stress_2x'' sealed)) (\<lambda>stress.
      and_then (after p (check_ledger_lengths primary stress)) (\<lambda>_.
      and_then (after p (read_metrics env bundle sealed (id_run_id ident))) (\<lambda>metrics_bytes.
      and_then (after p (verify_blobs env bundle (committed_events links events_read) seal
                           (id_run_id ident))) (\<lambda>blobs.
      Inr (\<lparr>co_identity = ident, co_seal = seal_root, co_events = events_read,
            co_decisions = decisions, co_decision_records = decision_records,
            co_chain = chain_read, co_links = links, co_primary = primary, co_stress = stress,
            co_metrics = metrics_bytes, co_blobs = blobs\<rparr>, p))))))))))))))))))"

definition residue_of :: "contents \<Rightarrow> string list" where
  "residue_of c =
     (if length (jl_records (co_events c)) > length (fst (co_links c)) then [''one unlinked event''] else [])
   @ (if length (co_decision_records c) > length (snd (co_links c)) then [''one unlinked decision''] else [])
   @ (if jl_partial_tail (co_events c) \<noteq> [] then [''partial event bytes''] else [])
   @ (if jl_partial_tail (co_chain c) \<noteq> [] then [''partial chain-link bytes''] else [])"

definition inventory_of :: "contents \<Rightarrow> nat \<Rightarrow> nat \<Rightarrow> (string \<times> nat) list" where
  "inventory_of c events decisions = (case co_blobs c of (observations, raw, disclosed) \<Rightarrow>
     [(''events'', events), (''event_records_present'', length (jl_records (co_events c))),
      (''decisions'', decisions), (''decision_records_present'', length (co_decision_records c)),
      (''observations'', observations), (''raw'', raw), (''raw_disclosed'', disclosed)])"

definition truncated_result :: "node \<Rightarrow> contents \<Rightarrow> VerificationResult" where
  "truncated_result bundle c =
     (let n = length (fst (co_links c)); k = length (snd (co_links c)) in
      \<lparr>vr_verdict = TRUNCATED,
       vr_message = ''unsealed bundle has a valid committed prefix'' @ concat (residue_of c),
       vr_stream = None, vr_seq = None, vr_path = None, vr_root = None,
       vr_last_good = (int n - 1, int k - 1), vr_inventory = inventory_of c n k,
       vr_turns = turn_inventory bundle (committed_events (co_links c) (co_events c))
                    (take k (co_decisions c))\<rparr>)"

text \<open>The tests that only a sealed bundle must pass.\<close>

definition check_sealed :: "node \<Rightarrow> contents \<Rightarrow> ustring jobject \<Rightarrow> jsonl_read result" where
  "check_sealed bundle c seal =
     (let events = jl_objects (co_events c);
          at_end = (\<lambda>m. failure_at m (ascii ''events.jsonl'') (Some ''events'')
                          (Some (int (length events) - 1)));
          at_seal = (\<lambda>m. failure m (ascii ''chain.json''))
      in
      if events = []
      then Inl (failure_at ''sealed event stream is empty'' (ascii ''events.jsonl'') (Some ''events'') (Some 0))
      else if uget (last events) ''type'' \<noteq> utext ''EpisodeEnd''
      then Inl (at_end ''sealed event stream does not end with EpisodeEnd'')
      else case co_metrics c of
        None \<Rightarrow> Inl (failure ''bytes unavailable'' (ascii ''metrics.json''))
      | Some metrics \<Rightarrow>
      if (case uget (last events) ''payload'' of
            JObj payload \<Rightarrow> uget payload ''metrics_sha256'' \<noteq> utext (sha256_prefixed metrics)
          | _ \<Rightarrow> True)
      then Inl (at_end ''EpisodeEnd.metrics_sha256 does not match metrics.json'')
      else case co_primary c of
        None \<Rightarrow> Inl (failure ''primary ledger unavailable'' (ascii ''ledger.jsonl''))
      | Some primary \<Rightarrow>
          and_then (verify_decision_projection events (co_decision_records c) (jl_objects primary)
                      (id_run_id (co_identity c))) (\<lambda>_.
          and_then (verify_seal_files bundle seal) (\<lambda>_.
          case (uget seal ''blobs'', co_blobs c) of
            (JObj blobs, (observation_count, raw_count, _)) \<Rightarrow>
              if (case uget blobs ''observations'' of
                    JObj b \<Rightarrow> \<not> equals_int (uget b ''count'') (int observation_count) | _ \<Rightarrow> True)
              then Inl (at_seal ''observation blob count mismatch'')
              else if (case uget blobs ''raw'' of
                    JObj b \<Rightarrow> \<not> equals_int (uget b ''count'') (int raw_count) | _ \<Rightarrow> True)
              then Inl (at_seal ''raw blob count mismatch'')
              else Inr primary
          | _ \<Rightarrow> Inl (at_seal ''blobs is not an object''))))"

definition complete_result :: "node \<Rightarrow> contents \<Rightarrow> string \<Rightarrow> jsonl_read \<Rightarrow> VerificationResult" where
  "complete_result bundle c expected_root primary =
     (let n = length (jl_objects (co_events c)); k = length (co_decisions c) in
      \<lparr>vr_verdict = COMPLETE, vr_message = ''sealed bundle verifies completely'',
       vr_stream = None, vr_seq = None, vr_path = None, vr_root = Some expected_root,
       vr_last_good = (int n - 1, int k - 1),
       vr_inventory = inventory_of c n k @ [(''ledger_rows'', length (jl_objects primary))],
       vr_turns = turn_inventory bundle (jl_objects (co_events c)) (co_decisions c)\<rparr>)"

definition verify_body :: "verifier \<Rightarrow> node \<Rightarrow> (error \<times> progress) + VerificationResult" where
  "verify_body env bundle =
     and_then (read_contents env bundle) (\<lambda>(c, p).
     case co_seal c of
       None \<Rightarrow> Inr (truncated_result bundle c)
     | Some (seal, expected_root) \<Rightarrow>
         and_then (after p (check_sealed bundle c seal)) (\<lambda>primary.
         Inr (complete_result bundle c expected_root primary)))"

text \<open>\<open>except (_VerificationFailure, RecorderError, OSError, ValueError)\<close>.\<close>

definition caught :: "error \<Rightarrow> bool" where
  "caught e \<longleftrightarrow>
     (case e of
        VerificationFailure _ _ _ _ \<Rightarrow> True | RecorderError _ \<Rightarrow> True | RecorderValidationError _ \<Rightarrow> True
      | OSError _ \<Rightarrow> True | ValueError _ \<Rightarrow> True | CanonicalizationError _ \<Rightarrow> True
      | JSONDecodeError \<Rightarrow> True | UnicodeDecodeError \<Rightarrow> True | DecisionProjectionError _ \<Rightarrow> True
      | _ \<Rightarrow> False)"

definition failure_place :: "error \<Rightarrow> ustring option \<times> string option \<times> int option" where
  "failure_place e =
     (case e of VerificationFailure _ path stream seq \<Rightarrow> (path, stream, seq) | _ \<Rightarrow> (None, None, None))"

definition failure_message :: "error \<Rightarrow> string" where
  "failure_message e =
     (case e of
        VerificationFailure m _ _ _ \<Rightarrow> m | RecorderError m \<Rightarrow> m | RecorderValidationError m \<Rightarrow> m
      | OSError m \<Rightarrow> m | ValueError m \<Rightarrow> m | CanonicalizationError m \<Rightarrow> m
      | DecisionProjectionError m \<Rightarrow> m | _ \<Rightarrow> [])"

definition corrupt_result :: "node \<Rightarrow> error \<Rightarrow> progress \<Rightarrow> VerificationResult" where
  "corrupt_result bundle e p =
     (let (path, stream, seq) = failure_place e;
          n = length (fst (pg_links p)); k = length (snd (pg_links p))
      in
      \<lparr>vr_verdict = CORRUPT, vr_message = failure_message e, vr_stream = stream, vr_seq = seq,
       vr_path = path, vr_root = pg_root p,
       vr_last_good =
         (case (stream, seq) of
            (Some s, Some i) \<Rightarrow>
              if s = ''events'' then (i - 1, int k - 1)
              else if s = ''decisions'' then (int n - 1, i - 1) else (int n - 1, int k - 1)
          | _ \<Rightarrow> (int n - 1, int k - 1)),
       vr_inventory = [(''events'', n), (''event_records_present'', length (pg_events p)),
         (''decisions'', k), (''decision_records_present'', length (pg_decisions p))],
       vr_turns = turn_inventory bundle (pg_events p) (pg_decisions p)\<rparr>)"

definition verify_bundle :: "verifier \<Rightarrow> node \<Rightarrow> VerificationResult result" where
  "verify_bundle env bundle =
     (if \<not> is_dir bundle [] \<or> is_symlink bundle []
      then Inr \<lparr>vr_verdict = CORRUPT, vr_message = ''bundle directory is missing or invalid'',
             vr_stream = None, vr_seq = None, vr_path = None, vr_root = None,
             vr_last_good = (-1, -1), vr_inventory = [], vr_turns = []\<rparr>
      else case verify_body env bundle of
        Inr r \<Rightarrow> Inr r
      | Inl (e, p) \<Rightarrow> if caught e then Inr (corrupt_result bundle e p) else Inl e)"

end
