(* ===== verification/Verify_Total.thy ===== *)
theory Verify_Total
  imports Verify
begin

text \<open>
  Which exceptions leave the verifier. A computation is tame when everything it raises is caught
  by \<open>verify_bundle\<close> or is the interpreter's recursion limit; the combinators preserve it, so the
  proof follows the structure of the code.
\<close>

named_theorems tame \<open>computations that raise nothing unexpected\<close>

definition raises :: "('e \<Rightarrow> bool) \<Rightarrow> 'e + 'a \<Rightarrow> bool" where
  "raises P m \<longleftrightarrow> (\<forall>e. m = Inl e \<longrightarrow> P e)"

definition expected_error :: "error \<Rightarrow> bool" where
  "expected_error e \<longleftrightarrow> caught e \<or> e = RecursionError"

abbreviation tame :: "'a result \<Rightarrow> bool" where
  "tame \<equiv> raises expected_error"

lemma raises_Inr [tame]: "raises P (Inr x)"
  by (simp add: raises_def)

lemma raises_Inl [simp]: "raises P (Inl e) \<longleftrightarrow> P e"
  by (simp add: raises_def)

lemma caught_failure [simp]: "caught (failure m p)" "caught (failure_at m p s q)"
  by (simp_all add: caught_def failure_def failure_at_def)

lemma caught_simps [simp]:
  "caught (OSError m)" "caught (ValueError m)" "caught (CanonicalizationError m)"
  "caught (DecisionProjectionError m)" "caught (RecorderValidationError m)"
  "caught (RecorderError m)" "\<not> caught RecursionError" "caught JSONDecodeError"
  "caught (VerificationFailure m p s q)"
  by (simp_all add: caught_def)

lemma expected_simps [simp]: "caught e \<Longrightarrow> expected_error e" "expected_error RecursionError"
  by (simp_all add: expected_error_def)

lemma raises_and_then [tame]:
  "raises P m \<Longrightarrow> (\<And>x. m = Inr x \<Longrightarrow> raises P (f x)) \<Longrightarrow> raises P (and_then m f)"
  by (cases m) (auto simp: raises_def)

lemma raises_traverse [tame]:
  "(\<And>x. x \<in> set xs \<Longrightarrow> raises P (f x)) \<Longrightarrow> raises P (traverse f xs)"
  by (induction xs) (auto intro!: raises_and_then raises_Inr)

lemma raises_fold [tame]:
  "(\<And>x s. x \<in> set xs \<Longrightarrow> raises P (f x s)) \<Longrightarrow> raises P (fold_result f xs s)"
  by (induction xs arbitrary: s) (auto intro!: raises_and_then raises_Inr)

lemma raises_if [tame]:
  "(B \<Longrightarrow> raises P a) \<Longrightarrow> (\<not> B \<Longrightarrow> raises P b) \<Longrightarrow> raises P (if B then a else b)"
  by simp

lemma raises_let [tame]: "raises P (f x) \<Longrightarrow> raises P (Let x f)"
  by simp

lemma raises_prod [tame]: "(\<And>a b. x = (a, b) \<Longrightarrow> raises P (f a b)) \<Longrightarrow> raises P (case x of (a, b) \<Rightarrow> f a b)"
  by (cases x) simp

lemma raises_option [tame]:
  "raises P a \<Longrightarrow> (\<And>y. x = Some y \<Longrightarrow> raises P (f y)) \<Longrightarrow> raises P (case x of None \<Rightarrow> a | Some y \<Rightarrow> f y)"
  by (cases x) simp_all

lemma raises_json [tame]:
  assumes "raises P n" "\<And>b. v = JBool b \<Longrightarrow> raises P (fb b)" "\<And>i. v = JInt i \<Longrightarrow> raises P (fi i)"
    "\<And>x. v = JFloat x \<Longrightarrow> raises P (ff x)" "\<And>x. v = JStr x \<Longrightarrow> raises P (fs x)"
    "\<And>x. v = JArr x \<Longrightarrow> raises P (fa x)" "\<And>x. v = JObj x \<Longrightarrow> raises P (fo x)"
  shows "raises P (case v of JNull \<Rightarrow> n | JBool b \<Rightarrow> fb b | JInt i \<Rightarrow> fi i | JFloat x \<Rightarrow> ff x
    | JStr x \<Rightarrow> fs x | JArr x \<Rightarrow> fa x | JObj x \<Rightarrow> fo x)"
  using assms by (cases v) simp_all

text \<open>A caught exception reported by the verifier itself: what remains is recursion.\<close>

lemma raises_read:
  "(\<And>y. x = Inr y \<Longrightarrow> raises P (f y)) \<Longrightarrow> raises P a \<Longrightarrow> raises P (case x of Inl _ \<Rightarrow> a | Inr y \<Rightarrow> f y)"
  by (cases x) simp_all

section \<open>Readers\<close>

lemma traverse_Inl: "traverse f xs = Inl e \<Longrightarrow> \<exists>x \<in> set xs. f x = Inl e"
  by (induction xs) (auto simp: and_then_eq_Inl)

lemma encode_json_error:
  "encode_json v = Inl e \<Longrightarrow> \<exists>m. e = CanonicalizationError m"
  "x \<in> set (encode_items xs) \<Longrightarrow> x = Inl e \<Longrightarrow> \<exists>m. e = CanonicalizationError m"
  "kv \<in> set (encode_members kvs) \<Longrightarrow> snd kv = Inl e \<Longrightarrow> \<exists>m. e = CanonicalizationError m"
proof (induction v and xs and kvs arbitrary: e and x e and kv e
    rule: encode_json_encode_items_encode_members.induct)
  case (6 xs)
  then show ?case by (auto simp: and_then_eq_Inl dest!: traverse_Inl)
next
  case (7 kvs)
  have k: "(\<lambda>(k, v). and_then (sort_key_bytes k) (\<lambda>b. Inr (b, k, v))) m = Inl e \<Longrightarrow>
      \<exists>t. e = CanonicalizationError t" for m :: "ustring \<times> ustring result" and e
    by (cases m) (auto simp: and_then_eq_Inl sort_key_bytes_def split: option.splits)
  have sub: "set sm \<subseteq> set ms" if "sort_members ms = Inr sm" for ms sm :: "(ustring \<times> ustring result) list"
  proof -
    from that obtain keyed where
      t: "traverse (\<lambda>(k, v). and_then (sort_key_bytes k) (\<lambda>b. Inr (b, k, v))) ms = Inr keyed"
      and s: "sm = map snd (sort_key fst keyed)" by (auto simp: sort_members_def and_then_eq_Inr)
    show ?thesis
    proof
      fix x assume "x \<in> set sm"
      with s obtain y where "y \<in> set keyed" "x = snd y" by auto
      from traverse_set[OF t this(1)] this(2) show "x \<in> set ms" by (auto simp: and_then_eq_Inr)
    qed
  qed
  from 7(2) consider "sort_members (encode_members kvs) = Inl e"
    | sm kv where "sort_members (encode_members kvs) = Inr sm" "kv \<in> set sm" "snd kv = Inl e"
    by (auto simp: and_then_eq_Inl dest!: traverse_Inl)
  then show ?case
  proof cases
    case 1
    then show ?thesis using k by (auto simp: sort_members_def and_then_eq_Inl dest!: traverse_Inl)
  next
    case 2
    with sub[OF 2(1)] show ?thesis using 7(1) by blast
  qed
qed (auto split: if_splits)

lemma canonical_bytes_error: "canonical_bytes v = Inl e \<Longrightarrow> \<exists>m. e = CanonicalizationError m"
  by (auto simp: canonical_bytes_def and_then_eq_Inl dest: encode_json_error split: option.splits)

lemma tame_canonical [tame]: "tame (canonical_bytes v)"
  by (auto simp: raises_def expected_error_def dest: canonical_bytes_error)

lemma tame_case_canonical [tame]:
  assumes "\<And>m. tame (g m)" "\<And>bs. canonical_bytes v = Inr bs \<Longrightarrow> tame (f bs)"
  shows "tame (case canonical_bytes v of Inl (CanonicalizationError m) \<Rightarrow> g m | Inl e \<Rightarrow> Inl e | Inr bs \<Rightarrow> f bs)"
  using assms canonical_bytes_error[of v] by (cases "canonical_bytes v") auto

lemma tame_content_hash [tame]: "tame (content_hash v)"
  by (auto simp: content_hash_def intro!: tame)

lemma strict_hooks_safe: "hooks_safe strict_hooks"
  by (auto simp: hooks_safe_def strict_hooks_def reject_duplicate_keys_def)

lemma tame_decode [tame]: "tame (decode_document env raw path)"
proof (cases "utf8_decode raw")
  case None
  then show ?thesis by (simp add: decode_document_def)
next
  case (Some txt_in)
  show ?thesis
  proof (cases "json_loads strict_hooks (vf_depth env) txt_in")
    case (Inl e)
    with json_loads_errors[OF strict_hooks_safe Inl] Some show ?thesis
      by (auto simp: decode_document_def decode_error_def)
  next
    case (Inr v)
    with Some show ?thesis by (simp add: decode_document_def tame)
  qed
qed

lemma tame_as_document [tame]: "tame (as_document v path)"
  by (auto simp: as_document_def intro!: tame)

lemma tame_canonical_object [tame]: "(\<And>m. caught (fail m)) \<Longrightarrow> tame (canonical_object env l p fail)"
  by (auto simp: canonical_object_def intro!: tame)

lemma tame_validate [tame]: "(\<And>m. caught (fail m)) \<Longrightarrow> tame (validate_stored env schema value fail)"
  using canonical_bytes_error[of "JObj value"]
  by (cases "canonical_bytes (JObj value)")
    (auto simp: validate_stored_def validate_instance_def intro!: tame split: option.splits)

lemma tame_safe_path [tame]: "tame (safe_bundle_path bundle relative)"
  by (auto simp: safe_bundle_path_def intro!: tame)

lemma tame_read_bytes [tame]: "tame (read_bytes bundle ps)"
  by (auto simp: read_bytes_def intro!: tame split: option.splits node.splits)

lemma tame_iterdir [tame]: "tame (iterdir bundle ps)"
  by (auto simp: iterdir_def intro!: tame split: option.splits node.splits)

lemma tame_logical [tame]: "tame (logical_bytes rule relative raw)"
  by (cases rule) (auto simp: logical_bytes_def intro!: tame)

lemma tame_read_document [tame]: "tame (read_document env bundle relative schema rule)"
  by (auto simp: read_document_def intro!: tame raises_read)

lemma tame_read_jsonl [tame]: "tame (read_jsonl env bundle relative schema sealed stream)"
  by (auto simp: read_jsonl_def read_line_def intro!: tame raises_read)

lemma tame_layout [tame]: "tame (verify_layout bundle sealed)"
  by (auto simp: verify_layout_def require_directory_def intro!: tame)

section \<open>Decision records\<close>

abbreviation projecting :: "'a result \<Rightarrow> bool" where
  "projecting \<equiv> raises (\<lambda>e. \<exists>m. e = DecisionProjectionError m)"

lemma projecting_integer [tame]: "projecting (dr_integer v k)"
  by (auto simp: dr_integer_def intro!: tame)

lemma projecting_payloads [tame]: "projecting (typed_payloads events t)"
  by (auto simp: typed_payloads_def payload_of_def intro!: tame)

lemma projecting_counts [tame]: "projecting (exactly_one ps)" "projecting (zero_or_one ps)"
  by (auto simp: exactly_one_def zero_or_one_def intro!: tame split: list.splits)

lemma projecting_meant [tame]: "projecting (meant_of parsed rejected)"
  by (auto simp: meant_of_def intro!: tame split: list.splits)

text \<open>The group of a turn is never empty, so its first event exists.\<close>

lemma projecting_range [tame]:
  assumes "turn_events \<noteq> []"
  shows "projecting (event_range turn_events)"
  unfolding event_range_def
proof (rule raises_and_then)
  show "projecting (traverse (\<lambda>e. dr_integer (uget e ''seq'') 0) turn_events)"
    by (intro tame)
  fix seqs assume "traverse (\<lambda>e. dr_integer (uget e ''seq'') 0) turn_events = Inr seqs"
  from traverse_length[OF this] assms
  show "projecting (and_then (py_nth seqs 0) (\<lambda>first. if seqs \<noteq> [first..last seqs]
      then Inl (DecisionProjectionError ''event range is not contiguous'') else Inr (first, last seqs)))"
    by (auto simp: py_nth_def intro!: tame)
qed

lemma projecting_account [tame]: "projecting (account_after row)"
  by (auto simp: account_after_def intro!: tame)

lemma projecting_record [tame]:
  "turn_events \<noteq> [] \<Longrightarrow> projecting (decision_record run_id turn turn_events row)"
  unfolding decision_record_def check_attempts_def by (auto intro!: tame)

lemma group_event_cases:
  assumes "group_event ie g = Inr g'"
  obtains "g' = g" | t where "g' = add_to_group t (snd ie) g"
  using assms
  by (cases ie) (auto simp: group_event_def and_then_eq_Inr split: json.splits if_splits)

lemma groups_not_empty:
  assumes "events_by_turn events = Inr groups" "map_of groups turn = Some es"
  shows "es \<noteq> []"
proof -
  have "\<forall>t es. map_of groups t = Some es \<longrightarrow> es \<noteq> []"
  proof (rule fold_result_invariant[OF assms(1)[unfolded events_by_turn_def]])
    fix x g g' assume inv: "\<forall>t es. map_of g t = Some es \<longrightarrow> es \<noteq> []" and "group_event x g = Inr g'"
    from this(2) show "\<forall>t es. map_of g' t = Some es \<longrightarrow> es \<noteq> []"
      by (rule group_event_cases) (use inv in \<open>auto simp: add_to_group_def update_conv'\<close>)
  qed simp
  with assms(2) show ?thesis by blast
qed

lemma projecting_grouping [tame]: "projecting (events_by_turn events)"
  by (auto simp: events_by_turn_def group_event_def intro!: tame)

lemma projecting_ledger [tame]: "projecting (fold_result add_ledger_row rows acc)"
  by (auto simp: add_ledger_row_def intro!: tame)

lemma projecting_records: "projecting (generate_decision_records events rows run_id)"
  unfolding generate_decision_records_def
proof (intro raises_if raises_and_then raises_let raises_traverse)
  fix groups turn and by_turn :: "(int \<times> ustring jobject) list"
  assume g: "events_by_turn events = Inr groups"
    and l: "\<not> set (map fst by_turn) \<noteq> set (sort (map fst groups))"
    and t: "turn \<in> set (sort (map fst groups))"
  from t obtain es where es: "map_of groups turn = Some es"
    by (metis map_of_eq_None_iff not_Some_eq set_map set_sort)
  moreover from l t obtain row where "map_of by_turn turn = Some row"
    by (metis map_of_eq_None_iff not_Some_eq set_map)
  ultimately show "projecting (case (map_of groups turn, map_of by_turn turn) of
      (Some turn_events, Some row) \<Rightarrow> decision_record run_id turn turn_events row
    | _ \<Rightarrow> Inl (KeyError ''turn''))"
    using groups_not_empty[OF g es] by (auto intro: projecting_record)
qed (auto intro: tame)

lemma tame_projection [tame]: "tame (verify_decision_projection events bytes ledger run_id)"
  using projecting_records[of events ledger run_id]
  by (cases "generate_decision_records events ledger run_id")
    (auto simp: verify_decision_projection_def compare_decision_def decision_failure_def intro!: tame)

section \<open>The verifier\<close>

text \<open>What the frozen schema of a chain link guarantees and the verifier relies on.\<close>

definition links_have_streams :: "verifier \<Rightarrow> bool" where
  "links_have_streams env \<longleftrightarrow>
     (\<forall>m. vf_schema env ''chain_link'' (JObj m) \<longrightarrow>
        dict_has m (ascii ''stream'') \<and> (\<exists>s. uget m ''stream'' = JStr s))"

lemma tame_links [tame]:
  assumes "links_have_streams env"
  shows "tame (stream_links env objects)"
  unfolding stream_links_def
proof (intro raises_fold)
  fix x :: "nat \<times> ustring jobject" and acc
  obtain line m where x: "x = (line, m)" by (cases x)
  show "tame (add_link env x acc)"
  proof (cases "vf_schema env ''chain_link'' (JObj m)")
    case True
    with assms obtain s where "dict_has m (ascii ''stream'')" "uget m ''stream'' = JStr s"
      by (auto simp: links_have_streams_def)
    with True show ?thesis by (auto simp: add_link_def x intro!: tame)
  qed (simp add: add_link_def x)
qed

lemma tame_hash [tame]: "tame (require_hash h what)" "tame (require_hash_text u what)"
  by (auto simp: require_hash_def require_hash_text_def intro!: tame)

lemma tame_genesis [tame]: "tame (chain_genesis stream run_id p a r)"
  by (auto simp: chain_genesis_def intro!: tame)

definition chain_error :: "error \<Rightarrow> bool" where
  "chain_error e \<longleftrightarrow> (\<exists>m. e = CanonicalizationError m) \<or> (\<exists>s n m. e = ChainVerificationError s n m)"

lemma chain_error_simps [simp]:
  "chain_error (CanonicalizationError m)" "chain_error (ChainVerificationError s n m)"
  by (simp_all add: chain_error_def)

lemma chain_raises: "raises chain_error (verify_chain stream genesis records links head n)"
proof -
  have r: "raises chain_error (require_hash h what)" for h what
    by (auto simp: require_hash_def intro!: tame)
  have v: "raises chain_error (chain_link_value s i a b)" for s i a b
    by (auto simp: chain_link_value_def content_hash_def raises_def and_then_eq_Inl require_hash_def
        dest: canonical_bytes_error split: if_splits)
  have l: "raises chain_error (check_link s i a b c)" for s i a b c
    using v by (auto simp: check_link_def intro!: tame)
  have c: "raises chain_error (check_links s i xs prev)" for s i xs prev
    by (induction s i xs prev rule: check_links.induct) (auto intro!: tame l)
  show ?thesis
    using r c by (auto simp: verify_chain_def verify_links_def intro!: tame)
qed

lemma tame_run_chain [tame]: "tame (run_chain stream genesis records links head n)"
  using chain_raises[of stream genesis records links head n]
  by (cases "verify_chain stream genesis records links head n")
    (auto simp: run_chain_def chain_error_def intro!: tame)

lemma tame_stream [tame]: "tame (verify_stream stream genesis records links head)"
  by (auto simp: verify_stream_def intro!: tame)

lemma tame_decisions [tame]: "tame (read_decisions env bundle sealed)"
  by (auto simp: read_decisions_def read_decision_def intro!: tame)

lemma tame_ledger [tame]: "tame (read_ledger env bundle relative profile sealed)"
  by (auto simp: read_ledger_def check_ledger_row_def ledger_integer_def intro!: tame)

lemma tame_references [tame]: "tame (referenced_blobs events)"
  by (auto simp: referenced_blobs_def add_reference_def observation_reference_def raw_reference_def
      intro!: tame)

lemma tame_redactions [tame]: "tame (redactions env bundle seal run_id refs)"
  by (auto simp: redactions_def disclose_def intro!: tame)

lemma tame_blobs [tame]: "tame (verify_blobs env bundle events seal run_id)"
  unfolding verify_blobs_def check_observation_blob_def check_raw_blob_def store_names_def
    check_store_def
  by (auto intro!: tame)

lemma tame_identity [tame]: "tame (read_identity env bundle)"
  by (auto simp: read_identity_def run_config_sha256_def intro!: tame)

lemma tame_seal [tame]: "tame (read_seal env bundle run_id)"
  by (auto simp: read_seal_def seal_root_def intro!: tame)

lemma tame_metrics [tame]: "tame (read_metrics env bundle sealed run_id)"
  by (auto simp: read_metrics_def intro!: tame)

lemma tame_heads [tame]: "tame (seal_heads seal)"
  by (auto simp: seal_heads_def sealed_stream_head_def intro!: tame)

lemma tame_lengths [tame]: "tame (check_ledger_lengths primary stress)"
  by (auto simp: check_ledger_lengths_def intro!: tame)

lemma tame_event_seq [tame]: "tame (check_event_seq ie)"
  by (auto simp: check_event_seq_def intro!: tame)

lemma tame_seal_files [tame]: "tame (verify_seal_files bundle seal)"
  by (auto simp: verify_seal_files_def check_seal_file_def intro!: tame raises_read)

lemma tame_sealed [tame]: "tame (check_sealed bundle c seal)"
  by (auto simp: check_sealed_def intro!: tame)

text \<open>The same with what is known at the point of failure.\<close>

abbreviation tame_at :: "(error \<times> progress) + 'a \<Rightarrow> bool" where
  "tame_at \<equiv> raises (\<lambda>ep. expected_error (fst ep))"

lemma tame_after [tame]: "tame m \<Longrightarrow> tame_at (after p m)"
  by (cases m) (auto simp: raises_def)

lemma tame_contents [tame]: "links_have_streams env \<Longrightarrow> tame_at (read_contents env bundle)"
  by (auto simp: read_contents_def Let_def intro!: tame)

lemma tame_body: "links_have_streams env \<Longrightarrow> tame_at (verify_body env bundle)"
  by (auto simp: verify_body_def intro!: tame)

section \<open>Property\<close>


text \<open>
  It happens: a manifest nested beyond the limit is not reported as corrupt, the exception
  escapes. The limit is 1 here; the bundle is one file.
\<close>

definition deep_bundle :: node where
  "deep_bundle = Dir [(ascii ''manifest.json'', File [91, 91, 91, 93, 93, 93])]"

definition strict_verifier :: verifier where
  "strict_verifier = \<lparr>vf_depth = 1, vf_schema = (\<lambda>_ _. False)\<rparr>"


end
