(* ===== verification/Disk.thy ===== *)
theory Disk
  imports Bundle
begin

text \<open>
  Writing files: the durable primitives of \<open>recorder/writer.py\<close> on the directory trees of the
  verifier, and the flat store such a tree implements: a map from paths to file contents. The
  bundle's writer puts files into its root and into three stores, so paths have one or two names.
\<close>

section \<open>Primitives\<close>

fun put :: "ustring list \<Rightarrow> node \<Rightarrow> node \<Rightarrow> node" where
  "put (p # ps) new (Dir entries) =
     Dir (AList.update p
       (if ps = [] then new
        else put ps new (case map_of entries p of Some c \<Rightarrow> c | None \<Rightarrow> Dir [])) entries)"
| "put _ _ n = n"

text \<open>
  \<open>_atomic_new_file\<close>: the data go to a hidden temporary file, which then takes the name of the
  target. Both must be free.
\<close>

definition temporary_path :: "ustring list \<Rightarrow> ustring list" where
  "temporary_path ps = butlast ps @ [ascii ''.'' @ last ps @ ascii ''.tmp'']"

definition atomic_new_file :: "ustring list \<Rightarrow> byte list \<Rightarrow> node \<Rightarrow> node result" where
  "atomic_new_file ps contents_written disk =
     (if path_exists disk ps then Inl (RecorderError ''refusing to overwrite immutable file'')
      else if path_exists disk (temporary_path ps) then Inl (RecorderError ''stale recorder temporary file'')
      else Inr (put ps (File contents_written) disk))"

definition append_fsync :: "ustring list \<Rightarrow> byte list \<Rightarrow> node \<Rightarrow> node result" where
  "append_fsync ps contents_written disk =
     (if is_symlink disk ps then Inl (OSError ''symbolic link'')
      else and_then (read_bytes disk ps) (\<lambda>old. Inr (put ps (File (old @ contents_written)) disk)))"

section \<open>The flat store a tree implements\<close>

type_synonym store = "ustring list \<rightharpoonup> byte list"

definition DIRECTORIES :: "string list" where
  "DIRECTORIES = [''observations'', ''raw'', ''decisions'']"

text \<open>A path a bundle can have a file at.\<close>

definition file_path :: "ustring list \<Rightarrow> bool" where
  "file_path ps \<longleftrightarrow>
     (\<exists>n. ps = [n] \<and> n \<notin> set (map ascii DIRECTORIES)) \<or>
     (\<exists>d n. ps = [d, n] \<and> d \<in> set (map ascii DIRECTORIES))"

text \<open>The files among the entries of a directory, and a directory that holds nothing else.\<close>

definition plain_files :: "(ustring \<times> node) list \<Rightarrow> (ustring \<rightharpoonup> byte list) \<Rightarrow> bool" where
  "plain_files entries F \<longleftrightarrow> distinct (map fst entries) \<and>
     (\<forall>n. map_of entries n = map_option File (F n))"

definition implements :: "node \<Rightarrow> store \<Rightarrow> bool" where
  "implements disk F \<longleftrightarrow>
     (\<exists>entries. disk = Dir entries \<and> distinct (map fst entries) \<and>
        (\<forall>n. n \<notin> set (map ascii DIRECTORIES) \<longrightarrow> map_of entries n = map_option File (F [n])) \<and>
        (\<forall>d \<in> set (map ascii DIRECTORIES). \<exists>es. map_of entries d = Some (Dir es) \<and>
           plain_files es (\<lambda>n. F [d, n]))) \<and>
     (\<forall>ps. F ps \<noteq> None \<longrightarrow> file_path ps)"

lemma implementsE:
  assumes "implements disk F"
  obtains entries where "disk = Dir entries"
    "\<And>n. n \<notin> set (map ascii DIRECTORIES) \<Longrightarrow> map_of entries n = map_option File (F [n])"
    "\<And>d. d \<in> set (map ascii DIRECTORIES) \<Longrightarrow> \<exists>es. map_of entries d = Some (Dir es) \<and> plain_files es (\<lambda>n. F [d, n])"
    "\<And>ps. F ps \<noteq> None \<Longrightarrow> file_path ps"
  using assms unfolding implements_def by blast

lemma implements_distinct: "implements (Dir entries) F \<Longrightarrow> distinct (map fst entries)"
  by (simp add: implements_def)

lemma look_simps:
  "look [p] (Dir es) = map_of es p"
  "look [p, q] (Dir es) = (case map_of es p of Some (Dir es') \<Rightarrow> map_of es' q
     | Some (Link (Some (Dir es'))) \<Rightarrow> map_of es' q | _ \<Rightarrow> None)"
  by (auto simp: follow_def split: option.splits node.splits)

lemma implements_look:
  assumes "implements disk F" "file_path ps"
  shows "look ps disk = map_option File (F ps)"
  using assms(1)
proof (rule implementsE)
  fix entries
  assume e: "disk = Dir entries"
    "\<And>n. n \<notin> set (map ascii DIRECTORIES) \<Longrightarrow> map_of entries n = map_option File (F [n])"
    "\<And>d. d \<in> set (map ascii DIRECTORIES) \<Longrightarrow> \<exists>es. map_of entries d = Some (Dir es) \<and> plain_files es (\<lambda>n. F [d, n])"
  from assms(2) consider (one) n where "ps = [n]" "n \<notin> set (map ascii DIRECTORIES)"
    | (two) d n where "ps = [d, n]" "d \<in> set (map ascii DIRECTORIES)" by (auto simp: file_path_def)
  then show ?thesis
  proof cases
    case one
    with e(1,2) show ?thesis by (simp only: look_simps)
  next
    case two
    with e(3) obtain es where "map_of entries d = Some (Dir es)" "plain_files es (\<lambda>n. F [d, n])" by blast
    with two e(1) show ?thesis by (simp add: look_simps plain_files_def del: look.simps)
  qed
qed

text \<open>What the verifier and the writer see of an implemented store.\<close>

lemma implements_reads:
  assumes "implements disk F" "file_path ps"
  shows "read_bytes disk ps = (case F ps of Some bs \<Rightarrow> Inr bs | None \<Rightarrow> Inl (OSError ''cannot read''))"
    "path_exists disk ps \<longleftrightarrow> F ps \<noteq> None" "\<not> is_symlink disk ps" "is_file disk ps \<longleftrightarrow> F ps \<noteq> None"
  using implements_look[OF assms]
  by (auto simp: read_bytes_def path_exists_def is_symlink_def is_file_def reach_def follow_def
      split: option.splits)

lemma implements_directories:
  assumes "implements disk F"
  shows "is_dir disk []" "\<not> is_symlink disk []"
    "d \<in> set (map ascii DIRECTORIES) \<Longrightarrow> is_dir disk [d] \<and> \<not> is_symlink disk [d]"
    "d \<in> set (map ascii DIRECTORIES) \<Longrightarrow> \<exists>ns. iterdir disk [d] = Inr ns \<and> distinct ns \<and> set ns = {n. F [d, n] \<noteq> None}"
    "\<exists>ns. iterdir disk [] = Inr ns \<and>
       set ns = {n. n \<notin> set (map ascii DIRECTORIES) \<and> F [n] \<noteq> None} \<union> set (map ascii DIRECTORIES)"
proof -
  from assms obtain entries where e: "disk = Dir entries"
    "\<And>n. n \<notin> set (map ascii DIRECTORIES) \<Longrightarrow> map_of entries n = map_option File (F [n])"
    "\<And>d. d \<in> set (map ascii DIRECTORIES) \<Longrightarrow> \<exists>es. map_of entries d = Some (Dir es) \<and> plain_files es (\<lambda>n. F [d, n])"
    by (rule implementsE) blast
  show "is_dir disk []" "\<not> is_symlink disk []"
    by (simp_all add: e(1) is_dir_def is_symlink_def reach_def follow_def)
  have dir: "\<exists>es. map_of entries d = Some (Dir es) \<and> look [d] disk = Some (Dir es) \<and>
      distinct (map fst es) \<and> (\<forall>n. map_of es n = map_option File (F [d, n]))" if "d \<in> set (map ascii DIRECTORIES)" for d
    using e(3)[OF that] by (auto simp: look_simps e(1) plain_files_def simp del: look.simps)
  show "is_dir disk [d] \<and> \<not> is_symlink disk [d]" if d: "d \<in> set (map ascii DIRECTORIES)" for d
    using dir[OF d] by (auto simp: is_dir_def is_symlink_def reach_def follow_def simp del: look.simps)
  have keys: "set (map fst es) = {n. map_of es n \<noteq> None}" for es :: "(ustring \<times> node) list"
    by (force simp: map_of_eq_None_iff)
  show "\<exists>ns. iterdir disk [d] = Inr ns \<and> distinct ns \<and> set ns = {n. F [d, n] \<noteq> None}"
    if d: "d \<in> set (map ascii DIRECTORIES)" for d
  proof -
    from dir[OF d] obtain es where es: "look [d] disk = Some (Dir es)" "distinct (map fst es)"
      "\<And>n. map_of es n = map_option File (F [d, n])" by blast
    then have "iterdir disk [d] = Inr (map fst es)"
      by (simp add: iterdir_def reach_def follow_def del: look.simps)
    moreover have "set (map fst es) = {n. F [d, n] \<noteq> None}" unfolding keys es(3) by simp
    ultimately show ?thesis using es(2) by blast
  qed
  have "iterdir disk [] = Inr (map fst entries)" by (simp add: iterdir_def reach_def follow_def e(1))
  moreover have "set (map fst entries) =
      {n. n \<notin> set (map ascii DIRECTORIES) \<and> F [n] \<noteq> None} \<union> set (map ascii DIRECTORIES)"
    unfolding keys
  proof (intro set_eqI)
    fix n
    show "n \<in> {n. map_of entries n \<noteq> None} \<longleftrightarrow>
        n \<in> {n. n \<notin> set (map ascii DIRECTORIES) \<and> F [n] \<noteq> None} \<union> set (map ascii DIRECTORIES)"
    proof (cases "n \<in> set (map ascii DIRECTORIES)")
      case True
      with dir[OF True] show ?thesis by auto
    next
      case False
      with e(2)[OF False] show ?thesis by simp
    qed
  qed
  ultimately show "\<exists>ns. iterdir disk [] = Inr ns \<and>
       set ns = {n. n \<notin> set (map ascii DIRECTORIES) \<and> F [n] \<noteq> None} \<union> set (map ascii DIRECTORIES)"
    by blast
qed

text \<open>Putting a file is an update of the flat store.\<close>

lemma implements_put:
  assumes "implements disk F" "file_path ps"
  shows "implements (put ps (File bs) disk) (F(ps \<mapsto> bs))"
  using assms(1)
proof (rule implementsE)
  fix entries
  assume e: "disk = Dir entries"
    "\<And>n. n \<notin> set (map ascii DIRECTORIES) \<Longrightarrow> map_of entries n = map_option File (F [n])"
    "\<And>d. d \<in> set (map ascii DIRECTORIES) \<Longrightarrow> \<exists>es. map_of entries d = Some (Dir es) \<and> plain_files es (\<lambda>n. F [d, n])"
    "\<And>ps. F ps \<noteq> None \<Longrightarrow> file_path ps"
  have dis: "distinct (map fst entries)" using implements_distinct assms(1) e(1) by blast
  have dom: "\<forall>qs. (F(ps \<mapsto> bs)) qs \<noteq> None \<longrightarrow> file_path qs" using e(4) assms(2) by auto
  from assms(2) consider (one) n where "ps = [n]" "n \<notin> set (map ascii DIRECTORIES)"
    | (two) d n where "ps = [d, n]" "d \<in> set (map ascii DIRECTORIES)" by (auto simp: file_path_def)
  then show ?thesis
  proof cases
    case one
    have "\<forall>d \<in> set (map ascii DIRECTORIES). \<exists>es. map_of (AList.update n (File bs) entries) d = Some (Dir es) \<and>
        plain_files es (\<lambda>m. (F(ps \<mapsto> bs)) [d, m])"
    proof
      fix d assume d: "d \<in> set (map ascii DIRECTORIES)"
      with one(2) have "d \<noteq> n" by blast
      with e(3)[OF d] one(1) show "\<exists>es. map_of (AList.update n (File bs) entries) d = Some (Dir es) \<and>
        plain_files es (\<lambda>m. (F(ps \<mapsto> bs)) [d, m])" by (simp add: update_conv')
    qed
    with one e(2) dom dis show ?thesis
      unfolding implements_def e(1) by (auto simp: update_conv' distinct_update)
  next
    case two
    from e(3)[OF two(2)] obtain es where es: "map_of entries d = Some (Dir es)"
      "plain_files es (\<lambda>n. F [d, n])" by blast
    let ?es = "AList.update n (File bs) es"
    have put: "put ps (File bs) disk = Dir (AList.update d (Dir ?es) entries)"
      by (simp add: two(1) e(1) es(1))
    have "\<forall>d' \<in> set (map ascii DIRECTORIES). \<exists>es'. map_of (AList.update d (Dir ?es) entries) d' = Some (Dir es') \<and>
        plain_files es' (\<lambda>m. (F(ps \<mapsto> bs)) [d', m])"
    proof
      fix d' assume d': "d' \<in> set (map ascii DIRECTORIES)"
      show "\<exists>es'. map_of (AList.update d (Dir ?es) entries) d' = Some (Dir es') \<and>
        plain_files es' (\<lambda>m. (F(ps \<mapsto> bs)) [d', m])"
        using e(3)[OF d'] es(2) two(1)
        by (cases "d' = d") (auto simp: update_conv' plain_files_def distinct_update)
    qed
    moreover have "\<forall>m. m \<notin> set (map ascii DIRECTORIES) \<longrightarrow>
        map_of (AList.update d (Dir ?es) entries) m = map_option File ((F(ps \<mapsto> bs)) [m])"
      using e(2) two by (auto simp: update_conv')
    ultimately show ?thesis
      using dom distinct_update[OF dis] unfolding implements_def put by blast
  qed
qed

end
