(* ===== verification/Strict_Documents.thy ===== *)
theory Strict_Documents
  imports Verify_Total Json_Roundtrip Chain
begin

text \<open>
  What the verifier's strict reader guarantees of the documents it accepts: no duplicate member,
  bounded nesting, and, because the stored bytes must be the canonical encoding, exactly one
  document per byte string.
\<close>

section \<open>Values the strict scanner yields\<close>

definition yields :: "('s json \<Rightarrow> bool) \<Rightarrow> ('t \<Rightarrow> ('s json \<times> 't) result) \<Rightarrow> bool" where
  "yields Q f \<longleftrightarrow> (\<forall>s v r. f s = Inr (v, r) \<longrightarrow> Q v)"

definition shaped :: "nat \<Rightarrow> 's json \<Rightarrow> bool" where
  "shaped d v \<longleftrightarrow> dict_like v \<and> nesting v \<le> d"

lemma shaped_atoms [simp]:
  "shaped d JNull" "shaped d (JBool b)" "shaped d (JInt n)" "shaped d (JFloat t)" "shaped d (JStr t)"
  by (simp_all add: shaped_def)

lemma shaped_JArr [simp]: "shaped (Suc d) (JArr xs) \<longleftrightarrow> (\<forall>x \<in> set xs. shaped d x)"
  by (auto simp: shaped_def dict_like_items_iff nesting_items_le)

lemma shaped_JObj [simp]:
  "shaped (Suc d) (JObj kvs) \<longleftrightarrow> distinct (map fst kvs) \<and> (\<forall>kv \<in> set kvs. shaped d (snd kv))"
  by (auto simp: shaped_def dict_like_members_iff nesting_members_le)

lemma yieldsD: "yields Q f \<Longrightarrow> f s = Inr (v, r) \<Longrightarrow> Q v"
  by (auto simp: yields_def)

text \<open>Hooks that refuse fractional and non-finite numbers and duplicate keys.\<close>

definition refusing :: "json_hooks \<Rightarrow> bool" where
  "refusing h \<longleftrightarrow> (\<forall>t v. jh_float h t \<noteq> Inr v) \<and> (\<forall>t v. jh_constant h t \<noteq> Inr v) \<and>
     (\<forall>ps v. jh_pairs h ps = Inr v \<longleftrightarrow> distinct (map fst ps) \<and> v = JObj ps)"

lemma refusing_pairs: "refusing h \<Longrightarrow> jh_pairs h ps = Inr v \<longleftrightarrow> distinct (map fst ps) \<and> v = JObj ps"
  by (simp add: refusing_def)

lemma strict_refuses: "refusing strict_hooks"
  by (auto simp: refusing_def strict_hooks_def reject_duplicate_keys_def)

lemma members_shaped:
  assumes h: "refusing h" and f: "yields (shaped d) f"
  shows "scan_members h f n acc s = Inr (v, r) \<Longrightarrow> \<forall>kv \<in> set acc. shaped d (snd kv) \<Longrightarrow>
    shaped (Suc d) v"
proof (induction n arbitrary: acc s)
  case 0
  then show ?case by simp
next
  case (Suc n)
  from Suc.prems(1) obtain key r1 x r2 ds and ch :: codepoint where x: "f (skip_ws r1) = Inr (x, r2)"
    and e: "if ch = 125 then jh_pairs h (rev ((key, x) # acc)) = Inr v
      else ch = 44 \<and> scan_members h f n ((key, x) # acc) (skip_ws ds) = Inr (v, r)"
    by (force simp: scan_cases split: if_splits)
  have a: "\<forall>kv \<in> set ((key, x) # acc). shaped d (snd kv)"
    using yieldsD[OF f x] Suc.prems(2) by simp
  show ?case
  proof (cases "ch = 125")
    case True
    with e a show ?thesis by (auto simp: refusing_pairs[OF h])
  next
    case False
    with e Suc.IH[OF _ a, of "skip_ws ds"] show ?thesis by auto
  qed
qed

lemma elements_shaped:
  assumes "yields (shaped d) f"
  shows "scan_elements f n acc s = Inr (v, r) \<Longrightarrow> \<forall>x \<in> set acc. shaped d x \<Longrightarrow> shaped (Suc d) v"
proof (induction n arbitrary: acc s)
  case 0
  then show ?case by simp
next
  case (Suc n)
  from Suc.prems(1) obtain x r1 ds and ch :: codepoint where x: "f s = Inr (x, r1)"
    and e: "if ch = 93 then v = JArr (rev (x # acc))
      else ch = 44 \<and> scan_elements f n (x # acc) (skip_ws ds) = Inr (v, r)"
    by (force simp: scan_cases split: if_splits)
  have a: "\<forall>y \<in> set (x # acc). shaped d y"
    using yieldsD[OF assms x] Suc.prems(2) by simp
  show ?case
  proof (cases "ch = 93")
    case True
    with e a show ?thesis by auto
  next
    case False
    with e Suc.IH[OF _ a, of "skip_ws ds"] show ?thesis by auto
  qed
qed

lemma constants_shaped:
  "refusing h \<Longrightarrow> scan_constant h s = Some (Inr (v, r)) \<Longrightarrow> shaped d v"
  by (auto simp: scan_constant_def refusing_def and_then_eq_Inr split: option.splits)

lemma numbers_shaped: "refusing h \<Longrightarrow> scan_number h s = Inr (v, r) \<Longrightarrow> shaped d v"
  by (auto simp: scan_number_def refusing_def and_then_eq_Inr Let_def split: prod.splits option.splits if_splits)

lemma once_shaped:
  assumes "refusing h" "yields (shaped d) ob" "yields (shaped d) ar"
  shows "yields (shaped d) (scan_once h ob ar)"
  unfolding yields_def
proof (intro allI impI)
  fix s v r assume a: "scan_once h ob ar s = Inr (v, r)"
  then obtain c cs where s: "s = c # cs" by (cases s) (simp_all add: scan_once_def)
  from a s show "shaped d v"
    by (auto simp: scan_once_def and_then_eq_Inr constants_shaped[OF assms(1)] numbers_shaped[OF assms(1)]
        split: if_splits option.splits dest: yieldsD[OF assms(2)] yieldsD[OF assms(3)])
qed

lemma object_shaped:
  assumes h: "refusing h" and f: "yields (shaped d) f"
  shows "yields (shaped (Suc d)) (scan_object h f)"
  unfolding yields_def
proof (intro allI impI)
  fix s v r assume a: "scan_object h f s = Inr (v, r)"
  then obtain c cs where s: "skip_ws s = c # cs" by (cases "skip_ws s") (simp_all add: scan_object_def)
  show "shaped (Suc d) v"
  proof (cases "c = 125")
    case True
    with a s show ?thesis by (auto simp: scan_object_def and_then_eq_Inr refusing_pairs[OF h])
  next
    case False
    with a s have "scan_members h f (length s) [] (c # cs) = Inr (v, r)"
      by (simp add: scan_object_def)
    from members_shaped[OF h f this] show ?thesis by simp
  qed
qed

lemma array_shaped:
  assumes "yields (shaped d) f"
  shows "yields (shaped (Suc d)) (scan_array f)"
  unfolding yields_def
proof (intro allI impI)
  fix s v r assume a: "scan_array f s = Inr (v, r)"
  then obtain c cs where s: "skip_ws s = c # cs" by (cases "skip_ws s") (simp_all add: scan_array_def)
  show "shaped (Suc d) v"
  proof (cases "c = 93")
    case True
    with a s show ?thesis by (auto simp: scan_array_def)
  next
    case False
    with a s have "scan_elements f (length s) [] (c # cs) = Inr (v, r)" by (simp add: scan_array_def)
    from elements_shaped[OF assms this] show ?thesis by simp
  qed
qed

lemma value_shaped: "refusing h \<Longrightarrow> yields (shaped d) (scan_value d h)"
proof (induction d)
  case 0
  have "yields (shaped 0) (\<lambda>_. Inl RecursionError)" by (simp add: yields_def)
  from once_shaped[OF 0 this this] show ?case by (simp add: yields_def)
next
  case (Suc d)
  from once_shaped[OF Suc.prems object_shaped[OF Suc.prems Suc.IH] array_shaped[OF Suc.IH], OF Suc.prems Suc.prems] show ?case by (simp add: yields_def)
qed

lemma loads_refusing: "refusing h \<Longrightarrow> json_loads h depth s = Inr v \<Longrightarrow> shaped depth v"
  using value_shaped[of h depth] by (auto simp: json_loads_def and_then_eq_Inr yields_def split: if_splits)

lemma loads_shaped: "json_loads strict_hooks depth s = Inr v \<Longrightarrow> shaped depth v"
  by (rule loads_refusing[OF strict_refuses])

section \<open>Canonical stored documents\<close>

lemma refusing_keeps: "refusing h \<Longrightarrow> keeps_pairs h"
  by (simp add: keeps_pairs_def refusing_pairs)

lemma strict_keeps: "keeps_pairs strict_hooks"
  by (rule refusing_keeps[OF strict_refuses])

text \<open>A document whose stored bytes are its canonical encoding.\<close>

definition stored_value :: "ustring json \<Rightarrow> byte list \<Rightarrow> bool" where
  "stored_value v bytes \<longleftrightarrow> canonical_bytes v = Inr bytes \<and> dict_like v \<and> canonical_form v = v"

lemma canonical_object_eq_Inr:
  assumes "canonical_object env bytes path fail = Inr d"
  shows "decode_document env bytes path = Inr (JObj d)" "canonical_bytes (JObj d) = Inr bytes"
proof -
  from assms obtain v where v: "decode_document env bytes path = Inr v"
    and r: "and_then (as_document v path) (\<lambda>value.
     case canonical_bytes (JObj value) of
       Inl (CanonicalizationError _) \<Rightarrow> Inl (fail ''cannot canonicalize'')
     | Inl e \<Rightarrow> Inl e
     | Inr expected \<Rightarrow>
         if bytes \<noteq> expected then Inl (fail ''stored bytes are not canonical JCS'')
         else Inr value) = Inr d"
    unfolding canonical_object_def by (cases "decode_document env bytes path") auto
  then obtain m where m: "v = JObj m" by (cases v) (simp_all add: as_document_def)
  with r canonical_bytes_error[of "JObj m"] have "m = d \<and> canonical_bytes (JObj m) = Inr bytes"
    by (cases "canonical_bytes (JObj m)") (auto simp: as_document_def split: if_splits)
  with v m show "decode_document env bytes path = Inr (JObj d)" "canonical_bytes (JObj d) = Inr bytes"
    by auto
qed

lemma canonical_bytes_eq_Inr:
  "canonical_bytes v = Inr bs \<Longrightarrow> \<exists>t. encode_json v = Inr t \<and> utf8_encode t = Some bs"
  by (auto simp: canonical_bytes_def and_then_eq_Inr split: option.splits)

lemma decode_document_eq_Inr:
  assumes "decode_document env bytes path = Inr v"
  obtains t where "utf8_decode bytes = Some t" "json_loads strict_hooks (vf_depth env) t = Inr v"
proof (cases "utf8_decode bytes")
  case None
  with assms show thesis by (simp add: decode_document_def)
next
  case (Some t)
  show thesis
  proof (cases "json_loads strict_hooks (vf_depth env) t")
    case (Inl e)
    with json_loads_errors[OF strict_hooks_safe Inl] Some assms show thesis
      by (auto simp: decode_document_def decode_error_def)
  next
    case (Inr w)
    with Some assms that show thesis by (auto simp: decode_document_def)
  qed
qed

lemma canonical_object_stored:
  assumes "canonical_object env bytes path fail = Inr d"
  shows "stored_value (JObj d) bytes"
proof -
  note c = canonical_object_eq_Inr[OF assms]
  from c(1) obtain t where t: "utf8_decode bytes = Some t"
    "json_loads strict_hooks (vf_depth env) t = Inr (JObj d)" by (rule decode_document_eq_Inr)
  from loads_shaped[OF t(2)] have s: "dict_like (JObj d)" "nesting (JObj d) \<le> vf_depth env"
    by (simp_all only: shaped_def)
  from c(2) obtain t' where e: "encode_json (JObj d) = Inr t'" "utf8_encode t' = Some bytes"
    using canonical_bytes_eq_Inr by blast
  from utf8_roundtrip[OF e(2)] t(1) have "t' = t" by simp
  with loads_encoded[OF e(1) s strict_keeps] t(2) have "canonical_form (JObj d) = JObj d" by simp
  with c(2) s(1) show ?thesis by (simp only: stored_value_def)
qed

text \<open>One byte string, one document.\<close>

lemma same_bytes_same_form:
  assumes "canonical_bytes v = Inr bytes" "canonical_bytes w = Inr bytes" "dict_like v" "dict_like w"
  shows "canonical_form v = canonical_form w"
proof -
  obtain t u where t: "encode_json v = Inr t" "utf8_encode t = Some bytes"
    and u: "encode_json w = Inr u" "utf8_encode u = Some bytes"
    using canonical_bytes_eq_Inr[OF assms(1)] canonical_bytes_eq_Inr[OF assms(2)] by blast
  then have "t = u" by (auto intro: utf8_encode_inject)
  with loads_encoded[OF t(1) assms(3) _ strict_keeps, of "max (nesting v) (nesting w)"]
    loads_encoded[OF u(1) assms(4) _ strict_keeps, of "max (nesting v) (nesting w)"]
  show ?thesis by simp
qed

lemma stored_inject: "stored_value v bytes \<Longrightarrow> stored_value w bytes \<Longrightarrow> v = w"
  using same_bytes_same_form[of v bytes w] by (simp add: stored_value_def)

text \<open>A member of an encodable object is encodable; an encodable integer is in the safe range.\<close>

lemma encodes_member:
  assumes "encode_json (JObj kvs) = Inr t" "(k, v) \<in> set kvs"
  shows "\<exists>u. encode_json v = Inr u"
proof -
  from assms(1) obtain sm ms where s: "sort_members (encode_members kvs) = Inr sm"
    "traverse (\<lambda>(k, e). and_then e (\<lambda>t. Inr (encode_string k @ [58] @ t))) sm = Inr ms"
    by (auto simp: and_then_eq_Inr)
  from sort_members_eq[OF s(1)] assms(2) have "(k, encode_json v) \<in> set sm"
    by (auto simp: encode_members_map)
  then obtain i where "i < length sm" "sm ! i = (k, encode_json v)" by (auto simp: in_set_conv_nth)
  with traverse_nth[OF s(2), of i] show ?thesis by (auto simp: and_then_eq_Inr)
qed

lemma encodes_get:
  assumes "encode_json (JObj d) = Inr t" "uget d k = v"
  shows "\<exists>u. encode_json v = Inr u"
proof (cases "map_of d (ascii k)")
  case None
  with assms(2) show ?thesis by (simp add: uget_def dict_get_def dict_get_default_def)
next
  case (Some w)
  with assms(2) have "w = v" by (simp add: uget_def dict_get_def dict_get_default_def)
  with encodes_member[OF assms(1) map_of_SomeD[OF Some]] show ?thesis by simp
qed

lemma encodes_int: "encode_json (JInt n) = Inr t \<Longrightarrow> \<bar>n\<bar> \<le> MAX_SAFE_INT"
  by (auto split: if_splits)

end
