(* ===== verification/Tamper_Evidence.thy ===== *)
theory Tamper_Evidence
  imports Strict_Documents
begin

text \<open>
  What the root of a sealed bundle commits to: two bundles the verifier calls complete under one
  root hold the same bytes everywhere, or exhibit a SHA-256 collision among the byte strings
  that were hashed when they were verified.
\<close>

section \<open>Complete bundles\<close>

definition complete :: "verifier \<Rightarrow> node \<Rightarrow> contents \<Rightarrow> ustring jobject \<Rightarrow> string \<Rightarrow> bool" where
  "complete env b c seal r \<longleftrightarrow>
     (\<exists>p primary. read_contents env b = Inr (c, p) \<and> co_seal c = Some (seal, r) \<and>
        check_sealed b c seal = Inr primary)"

lemma verdict_complete:
  assumes "verify_bundle env b = Inr v" "vr_verdict v = COMPLETE"
  obtains c seal r where "complete env b c seal r" "vr_root v = Some r"
proof -
  from assms have "verify_body env b = Inr v"
    by (auto simp: verify_bundle_def corrupt_result_def Let_def split: if_splits sum.splits prod.splits)
  then obtain c p where c: "read_contents env b = Inr (c, p)"
    "(case co_seal c of
       None \<Rightarrow> Inr (truncated_result b c)
     | Some (seal, expected_root) \<Rightarrow>
         and_then (after p (check_sealed b c seal)) (\<lambda>primary.
         Inr (complete_result b c expected_root primary))) = Inr v"
    by (auto simp: verify_body_def and_then_eq_Inr)
  show thesis
  proof (cases "co_seal c")
    case None
    with c(2) assms(2) show thesis by (auto simp: truncated_result_def Let_def)
  next
    case (Some sr)
    with c that show thesis
      by (cases sr) (auto simp: complete_def and_then_eq_Inr complete_result_def Let_def)
  qed
qed

lemma contents_parts:
  assumes "read_contents env b = Inr (c, p)" "co_seal c = Some (seal, r)"
  obtains event_head decision_head where
    "read_identity env b = Inr (co_identity c)"
    "read_seal env b (id_run_id (co_identity c)) = Inr (Some (seal, r))"
    "verify_layout b True = Inr ()"
    "read_jsonl env b (ascii ''events.jsonl'') (Some ''event'') True (Some ''events'') = Inr (co_events c)"
    "read_decisions env b True = Inr (co_decisions c, co_decision_records c)"
    "read_jsonl env b (ascii ''chain.jsonl'') None True None = Inr (co_chain c)"
    "stream_links env (jl_objects (co_chain c)) = Inr (co_links c)"
    "seal_heads (Some seal) = Inr (Some event_head, Some decision_head)"
    "verify_stream ''events'' (id_event_genesis (co_identity c)) (jl_records (co_events c))
       (fst (co_links c)) (Some event_head) = Inr ()"
    "verify_stream ''decisions'' (id_decision_genesis (co_identity c)) (co_decision_records c)
       (snd (co_links c)) (Some decision_head) = Inr ()"
    "verify_blobs env b (committed_events (co_links c) (co_events c)) (Some seal)
       (id_run_id (co_identity c)) = Inr (co_blobs c)"
  using assms
  by (auto simp: read_contents_def Let_def and_then_eq_Inr seal_heads_def)

section \<open>Reading the tree\<close>

lemma read_bytes_in_dir:
  assumes "read_bytes b [d, n] = Inr bs"
  obtains names where "iterdir b [d] = Inr names" "n \<in> set names"
proof -
  from assms obtain node where r: "reach b [d, n] = Some node"
    by (auto simp: read_bytes_def split: option.splits)
  then obtain x where x: "look [d, n] b = Some x" by (auto simp: reach_def split: option.splits)
  then obtain es c where c: "follow b = Some (Dir es)" "map_of es d = Some c" "look [n] c = Some x"
    by (auto split: option.splits node.splits)
  then obtain es' y where y: "follow c = Some (Dir es')" "map_of es' n = Some y"
    by (auto split: option.splits node.splits)
  have "iterdir b [d] = Inr (map fst es')"
    using c y by (simp add: iterdir_def reach_def)
  moreover have "n \<in> set (map fst es')" using map_of_SomeD[OF y(2)] by force
  ultimately show thesis by (rule that)
qed

lemma read_bytes_not_in_dir:
  assumes "iterdir b [d] = Inr names" "n \<notin> set names"
  shows "read_bytes b [d, n] = Inl (OSError ''cannot read'')"
proof (cases "read_bytes b [d, n]")
  case (Inl e)
  then show ?thesis by (auto simp: read_bytes_def split: option.splits node.splits)
next
  case (Inr bs)
  then obtain names' where "iterdir b [d] = Inr names'" "n \<in> set names'" by (rule read_bytes_in_dir)
  with assms show ?thesis by simp
qed

lemma safe_path_parts: "safe_bundle_path b relative = Inr parts \<Longrightarrow> parts = path_parts relative"
  by (auto simp: safe_bundle_path_def Let_def split: if_splits)

lemma split_on_join: "split_on s (xs @ s # ys) = split_on s xs @ split_on s ys"
proof (induction xs)
  case Nil
  then show ?case by simp
next
  case (Cons x xs)
  have ne: "split_on s xs \<noteq> []" for xs by (induction xs) (auto split: list.splits)
  show ?case
  proof (cases "split_on s xs")
    case Nil
    with ne show ?thesis by blast
  next
    case (Cons z zs)
    with Cons.IH show ?thesis by simp
  qed
qed

lemma split_on_whole: "s \<notin> set xs \<Longrightarrow> split_on s xs = [xs]"
  by (induction xs) auto

lemma split_on_not_empty: "split_on s xs \<noteq> []"
  by (induction xs) (auto split: list.splits)

text \<open>The lines of a file that ends with a newline are its bytes.\<close>

lemma split_on_lines:
  "last (split_on s xs) = [] \<Longrightarrow> xs = concat (map (\<lambda>l. l @ [s]) (butlast (split_on s xs)))"
proof (induction xs)
  case Nil
  then show ?case by simp
next
  case (Cons x xs)
  show ?case
  proof (cases "x = s")
    case True
    with Cons split_on_not_empty[of s xs] show ?thesis by simp
  next
    case False
    obtain y ys where y: "split_on s xs = y # ys"
      using split_on_not_empty[of s xs] by (cases "split_on s xs") auto
    from False Cons.prems y have ys: "ys \<noteq> []" by auto
    with False Cons y show ?thesis by simp
  qed
qed

lemma path_parts_in_store:
  assumes "name \<noteq> []" "name \<noteq> [46]" "47 \<notin> set name"
    and "store \<noteq> []" "ascii store \<noteq> [46]" "47 \<notin> set (ascii store)"
  shows "path_parts (ascii (store @ ''/'') @ name) = [ascii store, name]"
proof -
  have "ascii (store @ ''/'') @ name = ascii store @ 47 # name" by (simp add: ascii_simps)
  moreover have "ascii store \<noteq> []" using assms(4) by (simp add: ascii_def)
  ultimately show ?thesis
    using assms by (simp add: path_parts_def split_on_join split_on_whole)
qed

section \<open>Documents and streams\<close>

lemma read_document_stored:
  assumes "read_document env b relative schema Forbid = Inr (d, raw)"
  shows "read_bytes b (path_parts relative) = Inr raw" "stored_value (JObj d) raw"
proof -
  from assms obtain parts where s: "safe_bundle_path b relative = Inr parts"
    by (auto simp: read_document_def and_then_eq_Inr)
  with assms obtain raw' logical where r: "read_bytes b parts = Inr raw'"
    "logical_bytes Forbid relative raw' = Inr logical"
    "canonical_object env logical relative (\<lambda>m. failure m relative) = Inr d" "raw = raw'"
    by (auto simp: read_document_def and_then_eq_Inr split: sum.splits)
  from r(2) have "logical = raw'" by (auto simp: logical_bytes_def Let_def split: if_splits)
  with r s canonical_object_stored[OF r(3)] safe_path_parts[OF s]
  show "read_bytes b (path_parts relative) = Inr raw" "stored_value (JObj d) raw" by simp_all
qed

lemma read_jsonl_stored:
  assumes "read_jsonl env b relative schema True stream = Inr js"
  shows "read_bytes b (path_parts relative) = Inr (concat (map (\<lambda>l. l @ [10]) (jl_records js)))"
    "list_all2 (\<lambda>d l. stored_value (JObj d) l) (jl_objects js) (jl_records js)"
proof -
  from assms obtain parts where s: "safe_bundle_path b relative = Inr parts"
    by (auto simp: read_jsonl_def and_then_eq_Inr)
  with assms obtain raw objects where r: "read_bytes b parts = Inr raw" "last (split_on 10 raw) = []"
    "traverse (read_line env relative schema stream)
       (zip [0..<length (butlast (split_on 10 raw))] (butlast (split_on 10 raw))) = Inr objects"
    "jl_records js = butlast (split_on 10 raw)" "jl_objects js = objects"
    by (auto simp: read_jsonl_def and_then_eq_Inr Let_def split: sum.splits if_splits)
  from split_on_lines[OF r(2)] r(1,4) safe_path_parts[OF s]
  show "read_bytes b (path_parts relative) = Inr (concat (map (\<lambda>l. l @ [10]) (jl_records js)))" by simp
  have l: "length objects = length (butlast (split_on 10 raw))" using traverse_length[OF r(3)] by simp
  show "list_all2 (\<lambda>d l. stored_value (JObj d) l) (jl_objects js) (jl_records js)"
    unfolding r(4,5)
  proof (rule list_all2_all_nthI[OF l])
    fix i assume i: "i < length objects"
    with traverse_nth[OF r(3), of i] l
    show "stored_value (JObj (objects ! i)) (butlast (split_on 10 raw) ! i)"
      by (auto simp: read_line_def and_then_eq_Inr Let_def split: if_splits
          dest: canonical_object_stored)
  qed
qed

lemma stored_lines_inject:
  assumes "list_all2 (\<lambda>d l. stored_value (JObj d) l) ds ls" "list_all2 (\<lambda>d l. stored_value (JObj d) l) ds' ls"
  shows "ds = ds'"
proof -
  have "length ds = length ls" "length ds' = length ls" using assms by (auto dest: list_all2_lengthD)
  moreover have "ds ! i = ds' ! i" if "i < length ls" for i
    using assms that stored_inject[of "JObj (ds ! i)" "ls ! i" "JObj (ds' ! i)"]
    by (auto simp: list_all2_conv_all_nth)
  ultimately show ?thesis by (intro nth_equalityI) auto
qed

section \<open>Numbered files\<close>

lemma base_ten_inject:
  fixes a b x y :: nat
  assumes "10 * a + x = 10 * b + y" "x < 10" "y < 10"
  shows "a = b \<and> x = y"
proof -
  have "(10 * a + x) div 10 = a" "(10 * b + y) div 10 = b" using assms(2,3) by simp_all
  with assms(1) have "a = b" by simp
  with assms(1) show ?thesis by simp
qed

lemma digits_inject:
  "length s = length t \<Longrightarrow> all_digits s \<Longrightarrow> all_digits t \<Longrightarrow> cp_digits_value s = cp_digits_value t \<Longrightarrow> s = t"
proof (induction s arbitrary: t rule: rev_induct)
  case Nil
  then show ?case by simp
next
  case (snoc c s)
  then obtain d t' where t: "t = t' @ [d]" by (cases t rule: rev_cases) auto
  from snoc.prems t have d: "is_digit_cp c" "is_digit_cp d" "all_digits s" "all_digits t'"
    "10 * cp_digits_value s + (c - 48) = 10 * cp_digits_value t' + (d - 48)"
    by (simp_all add: all_digits_def cp_digits_value_def)
  from d(1,2) have "c - 48 < 10" "d - 48 < 10" "48 \<le> c" "48 \<le> d" by (auto simp: is_digit_cp_def)
  with base_ten_inject[OF d(5)] have e: "cp_digits_value s = cp_digits_value t'" "c = d" by auto
  with snoc.IH[OF _ d(3,4) e(1)] snoc.prems(1) t show ?case by simp
qed

lemma numbered_json_inject:
  assumes "numbered_json m = Some k" "numbered_json n = Some k"
  shows "m = n"
proof -
  from assms have "take 4 m = take 4 n" "drop 4 m = drop 4 n"
    by (auto simp: numbered_json_def intro!: digits_inject split: if_splits)
  then show ?thesis by (metis append_take_drop_id)
qed

lemma read_decisions_stored:
  assumes "read_decisions env b True = Inr (ds, rs)"
  obtains names where "iterdir b (top ''decisions'') = Inr names" "length ds = length rs"
    "length (sort names) = length rs"
    "\<And>i. i < length rs \<Longrightarrow> numbered_json (sort names ! i) = Some (int i) \<and>
       read_bytes b [ascii ''decisions'', sort names ! i] = Inr (rs ! i)"
proof -
  have v: "visible_names True xs = xs" for xs by (simp add: visible_names_def)
  have p: "path_parts (ascii ''decisions'') = top ''decisions''"
    by (simp add: path_parts_def ascii_simps top_def)
  from assms obtain names pairs where n: "iterdir b (top ''decisions'') = Inr names"
    and t: "traverse (read_decision env b) (zip [0..<length (sort names)] (sort names)) = Inr pairs"
    and r: "ds = map fst pairs" "rs = map snd pairs"
    by (auto simp: read_decisions_def and_then_eq_Inr v Let_def p dest!: safe_path_parts)
  have l: "length pairs = length (sort names)" using traverse_length[OF t] by simp
  have "numbered_json (sort names ! i) = Some (int i) \<and>
      read_bytes b [ascii ''decisions'', sort names ! i] = Inr (rs ! i)" if i: "i < length rs" for i
  proof -
    from traverse_nth[OF t, of i] i l r
    have rd: "read_decision env b (i, sort names ! i) = Inr (pairs ! i)" by simp
    obtain d raw where pr: "pairs ! i = (d, raw)" by (cases "pairs ! i")
    with rd have num: "numbered_json (sort names ! i) = Some (int i)"
      and doc: "read_document env b (ascii ''decisions/'' @ sort names ! i) (Some ''decision_record'') Forbid
        = Inr (d, raw)"
      by (auto simp: read_decision_def Let_def and_then_eq_Inr split: option.splits if_splits)
    have "set (sort names ! i) \<subseteq> {c. is_digit_cp c} \<union> set (ascii ''.json'')"
      using num by (auto simp: numbered_json_def all_digits_def list_all_iff split: if_splits
          dest: in_set_takeD) (metis UnE append_take_drop_id set_append)+
    then have sl: "47 \<notin> set (sort names ! i)" by (auto simp: is_digit_cp_def ascii_simps)
    have ln: "length (sort names ! i) = 9" using num by (simp add: numbered_json_def split: if_splits)
    have "path_parts (ascii (''decisions'' @ ''/'') @ sort names ! i) = [ascii ''decisions'', sort names ! i]"
      using ln sl by (intro path_parts_in_store) (auto simp: ascii_simps)
    with read_document_stored(1)[OF doc] num pr i r show ?thesis by simp
  qed
  with that n l r show thesis by simp
qed
section \<open>UTF-16 is injective\<close>

lemma utf16_units_inject:
  assumes "list_all scalar_value s" "list_all scalar_value t"
    and "concat (map utf16_units s) = concat (map utf16_units t)"
  shows "s = t"
  using assms
proof (induction s arbitrary: t)
  case Nil
  then show ?case by (cases t) (auto simp: utf16_units_def split: if_splits)
next
  case (Cons c s)
  then obtain d t' where t: "t = d # t'"
    by (cases t) (auto simp: utf16_units_def split: if_splits)
  have c: "scalar_value c" "scalar_value d" using Cons.prems(1,2) t by simp_all
  have e: "utf16_units c @ concat (map utf16_units s) = utf16_units d @ concat (map utf16_units t')"
    using Cons.prems(3) t by simp
  have "c = d \<and> concat (map utf16_units s) = concat (map utf16_units t')"
  proof (cases "c < 0x10000")
    case True
    with e c show ?thesis
      by (cases "d < 0x10000") (auto simp: utf16_units_def Let_def scalar_value_def is_surrogate_def)
  next
    case False
    have d: "\<not> d < 0x10000"
    proof
      assume "d < 0x10000"
      with e c False show False
        by (auto simp: utf16_units_def Let_def scalar_value_def is_surrogate_def)
    qed
    have "c - 0x10000 = d - 0x10000"
    proof -
      from e False d have "(c - 0x10000) div 0x400 = (d - 0x10000) div 0x400"
        "(c - 0x10000) mod 0x400 = (d - 0x10000) mod 0x400"
        by (auto simp: utf16_units_def Let_def)
      then show ?thesis by (metis mult_div_mod_eq)
    qed
    with False d e show ?thesis by (auto simp: utf16_units_def Let_def)
  qed
  with Cons.IH[of t'] Cons.prems(1,2) t show ?case by simp
qed

lemma two_bytes_inject:
  fixes us vs :: "nat list"
  shows "concat (map (\<lambda>u. [u div 256, u mod 256]) us) = concat (map (\<lambda>u. [u div 256, u mod 256]) vs)
    \<Longrightarrow> us = vs"
proof (induction us arbitrary: vs)
  case Nil
  then show ?case by (cases vs) simp_all
next
  case (Cons u us)
  then obtain v vs' where v: "vs = v # vs'" by (cases vs) simp_all
  with Cons.prems have "u div 256 = v div 256" "u mod 256 = v mod 256" by simp_all
  then have "u = v" by (metis mult_div_mod_eq)
  with Cons v show ?case by simp
qed

lemma utf16_be_encode_inject:
  "utf16_be_encode s = Some bs \<Longrightarrow> utf16_be_encode t = Some bs \<Longrightarrow> s = t"
  by (auto simp: utf16_be_encode_def dest!: two_bytes_inject intro: utf16_units_inject split: if_splits)
section \<open>The seal under a root\<close>

abbreviation unrooted :: "ustring jobject \<Rightarrow> ustring jobject" where
  "unrooted seal \<equiv> filter (\<lambda>(k, v). k \<noteq> ascii ''root'') seal"

lemma sorted_key_split:
  "sorted (map f xs) \<Longrightarrow>
     xs = filter (\<lambda>x. f x < k) xs @ filter (\<lambda>x. f x = k) xs @ filter (\<lambda>x. k < f x) xs"
  for f :: "'a \<Rightarrow> 'b :: linorder"
proof (induction xs)
  case Nil
  then show ?case by simp
next
  case (Cons x xs)
  then have IH: "xs = filter (\<lambda>x. f x < k) xs @ filter (\<lambda>x. f x = k) xs @ filter (\<lambda>x. k < f x) xs"
    and le: "\<forall>y \<in> set xs. f x \<le> f y" by auto
  consider "f x < k" | "f x = k" | "k < f x" by (rule linorder_cases)
  then show ?case
  proof cases
    case 1
    with IH show ?thesis by auto
  next
    case 2
    with le have "filter (\<lambda>x. f x < k) xs = []" by (auto simp: filter_empty_conv)
    with 2 IH show ?thesis by auto
  next
    case 3
    with le have "filter (\<lambda>x. f x < k) xs = []" "filter (\<lambda>x. f x = k) xs = []"
      by (auto simp: filter_empty_conv)
    with 3 IH show ?thesis by auto
  qed
qed

lemma canonical_object_form:
  "canonical_form (JObj d) = JObj d \<longleftrightarrow>
     sorted (map member_key d) \<and> (\<forall>(k, v) \<in> set d. canonical_form v = v)"
proof
  assume a: "canonical_form (JObj d) = JObj d"
  then have d: "map (\<lambda>(k, v). (k, canonical_form v)) (sort_key member_key d) = d"
    by (simp add: canonical_members_sorted)
  have "map member_key d = map member_key (sort_key member_key d)"
    by (subst d[symmetric]) (auto simp: member_key_def)
  then have s: "sorted (map member_key d)" by simp
  then have "sort_key member_key d = d" by (rule sort_key_id_if_sorted)
  with d have "map (\<lambda>(k, v). (k, canonical_form v)) d = map id d" by simp
  then have "\<forall>m \<in> set d. (case m of (k, v) \<Rightarrow> (k, canonical_form v)) = id m" by (simp only: map_eq_conv)
  then have "\<forall>(k, v) \<in> set d. canonical_form v = v" by auto
  with s show "sorted (map member_key d) \<and> (\<forall>(k, v) \<in> set d. canonical_form v = v)" by simp
next
  assume a: "sorted (map member_key d) \<and> (\<forall>(k, v) \<in> set d. canonical_form v = v)"
  then have "sort_key member_key d = d" by (simp add: sort_key_id_if_sorted)
  moreover from a have "map (\<lambda>(k, v). (k, canonical_form v)) d = map id d"
    unfolding map_eq_conv by auto
  ultimately show "canonical_form (JObj d) = JObj d" by (simp add: canonical_members_sorted)
qed

lemma stored_keys:
  assumes "stored_value (JObj d) bytes" "(k, v) \<in> set d"
  shows "utf16_be_encode k \<noteq> None"
proof -
  from assms(1) obtain t where "encode_json (JObj d) = Inr t"
    unfolding stored_value_def using canonical_bytes_eq_Inr by blast
  then obtain sm where "sort_members (encode_members d) = Inr sm" by (auto simp: and_then_eq_Inr)
  from sort_members_keys[OF this] assms(2) show ?thesis by (force simp: encode_members_map)
qed

lemma same_seal:
  assumes s: "stored_value (JObj seal) bytes" "stored_value (JObj seal') bytes'"
    and r: "uget seal ''root'' = r" "uget seal' ''root'' = r" "r \<noteq> JNull"
    and u: "unrooted seal = unrooted seal'"
  shows "seal = seal'"
proof -
  let ?k = "member_key (ascii ''root'', JNull :: ustring json)"
  have part: "filter (\<lambda>m. member_key m = ?k) d = [(ascii ''root'', r)]"
    and off: "filter (\<lambda>m. member_key m < ?k) d = filter (\<lambda>m. member_key m < ?k) (unrooted d)"
      "filter (\<lambda>m. ?k < member_key m) d = filter (\<lambda>m. ?k < member_key m) (unrooted d)"
    if d: "stored_value (JObj d) bs" "uget d ''root'' = r" for d bs
  proof -
    obtain rk where rk: "utf16_be_encode (ascii ''root'') = Some rk"
      by (simp add: utf16_be_encode_def scalar_value_def is_surrogate_def ascii_simps)
    have key: "member_key m = ?k \<longleftrightarrow> fst m = ascii ''root''" if m: "m \<in> set d" for m
      using stored_keys[OF d(1), of "fst m" "snd m"] m rk utf16_be_encode_inject[of "fst m" rk "ascii ''root''"]
      by (auto simp: member_key_def split: option.splits)
    have dis: "distinct (map fst d)" using d(1) by (simp add: stored_value_def)
    have mem: "(ascii ''root'', r) \<in> set d"
      using d(2) r(3) by (auto simp: uget_def dict_get_def dict_get_default_def split: option.splits
          dest: map_of_SomeD)
    have "filter (\<lambda>m. member_key m = ?k) d = filter (\<lambda>m. fst m = ascii ''root'') d"
      by (rule filter_cong) (auto simp: key)
    also have "\<dots> = [(ascii ''root'', r)]"
      using dis mem by (induction d) (auto simp: filter_empty_conv image_iff)
    finally show "filter (\<lambda>m. member_key m = ?k) d = [(ascii ''root'', r)]" .
    show "filter (\<lambda>m. member_key m < ?k) d = filter (\<lambda>m. member_key m < ?k) (unrooted d)"
      "filter (\<lambda>m. ?k < member_key m) d = filter (\<lambda>m. ?k < member_key m) (unrooted d)"
      using key by (force simp: intro!: filter_cong)+
  qed
  have so: "sorted (map member_key seal)" "sorted (map member_key seal')"
    using s by (simp_all only: stored_value_def canonical_object_form)
  show ?thesis
    using sorted_key_split[OF so(1), of ?k] sorted_key_split[OF so(2), of ?k]
      part[OF s(1) r(1)] part[OF s(2) r(2)] off[OF s(1) r(1)] off[OF s(2) r(2)] u
    by simp
qed
section \<open>What was hashed\<close>

definition file_bytes :: "node \<Rightarrow> ustring list \<Rightarrow> byte list" where
  "file_bytes b ps = (case read_bytes b ps of Inr bs \<Rightarrow> bs | Inl _ \<Rightarrow> [])"

definition store_files :: "node \<Rightarrow> string \<Rightarrow> byte list list" where
  "store_files b store =
     (case iterdir b (top store) of
        Inr names \<Rightarrow> map (\<lambda>name. file_bytes b [ascii store, name]) names | Inl _ \<Rightarrow> [])"

definition seal_preimage :: "ustring jobject \<Rightarrow> byte list" where
  "seal_preimage seal = (case canonical_bytes (JObj (unrooted seal)) of Inr bs \<Rightarrow> bs | Inl _ \<Rightarrow> [])"

definition hashed_of :: "node \<Rightarrow> contents \<Rightarrow> ustring jobject \<Rightarrow> byte list list" where
  "hashed_of b c seal =
     [seal_preimage seal] @ map (\<lambda>n. file_bytes b (top n)) SEALED_FILES
   @ store_files b ''observations'' @ store_files b ''raw''
   @ hashed_inputs sha256_prefixed (link_bytes ''events'') 0 (jl_records (co_events c))
       (id_event_genesis (co_identity c))
   @ hashed_inputs sha256_prefixed (link_bytes ''decisions'') 0 (co_decision_records c)
       (id_decision_genesis (co_identity c))"

definition hashed_while_verifying :: "verifier \<Rightarrow> node \<Rightarrow> byte list list" where
  "hashed_while_verifying env b =
     (case read_contents env b of
        Inl _ \<Rightarrow> []
      | Inr (c, _) \<Rightarrow> (case co_seal c of None \<Rightarrow> [] | Some (seal, _) \<Rightarrow> hashed_of b c seal))"

lemma complete_hashed: "complete env b c seal r \<Longrightarrow> hashed_while_verifying env b = hashed_of b c seal"
  by (auto simp: complete_def hashed_while_verifying_def)

lemma collision_mono:
  "collision_among digest xs ys \<Longrightarrow> set xs \<subseteq> set xs' \<Longrightarrow> set ys \<subseteq> set ys' \<Longrightarrow>
     collision_among digest xs' ys'"
  unfolding collision_among_def by blast

lemma no_collisionD:
  "\<not> collision_among digest xs ys \<Longrightarrow> x \<in> set xs \<Longrightarrow> y \<in> set ys \<Longrightarrow> digest x = digest y \<Longrightarrow> x = y"
  unfolding collision_among_def by blast

lemma read_file_bytes: "read_bytes b ps = Inr bs \<Longrightarrow> file_bytes b ps = bs"
  by (simp add: file_bytes_def)

lemma sealed_file_hashed:
  "n \<in> set SEALED_FILES \<Longrightarrow> read_bytes b (top n) = Inr bs \<Longrightarrow> bs \<in> set (hashed_of b c seal)"
  by (force simp: hashed_of_def dest: read_file_bytes)

lemma stored_blob_hashed:
  assumes "store = ''observations'' \<or> store = ''raw''" "read_bytes b [ascii store, name] = Inr bs"
  shows "bs \<in> set (hashed_of b c seal)"
proof -
  from assms(2) obtain names where "iterdir b [ascii store] = Inr names" "name \<in> set names"
    by (rule read_bytes_in_dir)
  then have "bs \<in> set (store_files b store)"
    using read_file_bytes[OF assms(2)] by (force simp: store_files_def top_def)
  with assms(1) show ?thesis by (auto simp: hashed_of_def)
qed

section \<open>One root, one seal\<close>

lemma read_seal_parts:
  assumes "read_seal env b run_id = Inr (Some (seal, r))"
  obtains raw where "read_bytes b (top ''chain.json'') = Inr raw" "stored_value (JObj seal) raw"
    "seal_root seal = Inr r" "uget seal ''root'' = utext r"
proof -
  have p: "path_parts (ascii ''chain.json'') = top ''chain.json''"
    by (simp add: path_parts_def ascii_simps top_def)
  from assms obtain raw where d: "read_document env b (ascii ''chain.json'') (Some ''chain'') Forbid = Inr (seal, raw)"
    and s: "seal_root seal = Inr r" "uget seal ''root'' = utext r"
    by (auto simp: read_seal_def Let_def and_then_eq_Inr split: if_splits)
  from read_document_stored[OF d] s that p show thesis by simp
qed

lemma preimage_hashed:
  assumes "seal_root seal = Inr r"
  shows "canonical_bytes (JObj (unrooted seal)) = Inr (seal_preimage seal)"
    "r = sha256_prefixed (seal_preimage seal)"
  using assms by (auto simp: seal_root_def content_hash_def seal_preimage_def and_then_eq_Inr)

lemma stored_unrooted:
  assumes "stored_value (JObj seal) bytes"
  shows "dict_like (JObj (unrooted seal))" "canonical_form (JObj (unrooted seal)) = JObj (unrooted seal)"
proof -
  from assms have "distinct (map fst seal)" "\<forall>p \<in> set seal. dict_like (snd p)"
    by (simp_all add: stored_value_def dict_like_members_iff)
  then show "dict_like (JObj (unrooted seal))"
    by (auto simp: dict_like_members_iff distinct_map_filter)
  from assms have "sorted (map member_key seal)" "\<forall>(k, v) \<in> set seal. canonical_form v = v"
    unfolding stored_value_def canonical_object_form by blast+
  then show "canonical_form (JObj (unrooted seal)) = JObj (unrooted seal)"
    unfolding canonical_object_form by (auto simp: sorted_filter)
qed

lemma one_root_one_seal:
  assumes "stored_value (JObj seal) raw" "seal_root seal = Inr r" "uget seal ''root'' = utext r"
    and "stored_value (JObj seal') raw'" "seal_root seal' = Inr r" "uget seal' ''root'' = utext r"
    and "sha256_prefixed (seal_preimage seal) = sha256_prefixed (seal_preimage seal') \<Longrightarrow>
      seal_preimage seal = seal_preimage seal'"
  shows "seal = seal'" "raw = raw'"
proof -
  note p = preimage_hashed[OF assms(2)] and p' = preimage_hashed[OF assms(5)]
  from p(2) p'(2) assms(7) have "seal_preimage seal = seal_preimage seal'" by simp
  with p(1) p'(1) same_bytes_same_form[of "JObj (unrooted seal)" "seal_preimage seal" "JObj (unrooted seal')"]
    stored_unrooted[OF assms(1)] stored_unrooted[OF assms(4)]
  have u: "unrooted seal = unrooted seal'" by simp
  show "seal = seal'"
    by (rule same_seal[OF assms(1,4,3,6) _ u]) (simp add: utext_def)
  with assms(1,4) show "raw = raw'" by (simp add: stored_value_def)
qed
section \<open>The streams a seal closes\<close>

lemma verify_stream_sealed:
  assumes "verify_stream stream g records links (Some head) = Inr ()"
  obtains h n y where "uget head ''head'' = JStr h" "uget head ''count'' = JInt n"
    "verify_chain stream g records links (Some (map char_of h)) (Some n) = Inr y"
proof -
  from assms obtain h n where h: "uget head ''head'' = JStr h" "uget head ''count'' = JInt n"
    and c: "run_chain stream g records links (Some (map char_of h)) (Some n) = Inr ()"
    by (auto simp: verify_stream_def Let_def split: if_splits json.splits)
  from c obtain y where "verify_chain stream g records links (Some (map char_of h)) (Some n) = Inr y"
    by (cases "verify_chain stream g records links (Some (map char_of h)) (Some n)")
       (auto simp: run_chain_def split: error.splits)
  with h that show thesis by blast
qed

lemma sealed_stream_head_member:
  assumes "sealed_stream_head seal stream = Inr head" "stored_value (JObj seal) raw"
    and "uget head ''count'' = JInt n"
  shows "n \<le> MAX_SAFE_INT"
proof -
  from assms(1) obtain streams where s: "uget seal ''streams'' = JObj streams"
    "uget streams stream = JObj head"
    by (auto simp: sealed_stream_head_def split: json.splits)
  from assms(2) obtain t where "encode_json (JObj seal) = Inr t"
    unfolding stored_value_def using canonical_bytes_eq_Inr by blast
  from encodes_get[OF this s(1)] obtain t1 where "encode_json (JObj streams) = Inr t1" by blast
  from encodes_get[OF this s(2)] obtain t2 where "encode_json (JObj head) = Inr t2" by blast
  from encodes_get[OF this assms(3)] obtain t3 where "encode_json (JInt n :: ustring json) = Inr t3" by blast
  from encodes_int[OF this] show ?thesis by simp
qed

lemma one_seal_one_stream:
  assumes "sealed_stream_head seal stream = Inr head" "stored_value (JObj seal) raw"
    and "verify_stream stream g records links (Some head) = Inr ()"
    and "verify_stream stream g' records' links' (Some head) = Inr ()"
    and "\<not> collision_among sha256_prefixed
      (hashed_inputs sha256_prefixed (link_bytes stream) 0 records g)
      (hashed_inputs sha256_prefixed (link_bytes stream) 0 records' g')"
  shows "records = records'"
proof -
  from assms(3) obtain h n y where a: "uget head ''head'' = JStr h" "uget head ''count'' = JInt n"
    "verify_chain stream g records links (Some (map char_of h)) (Some n) = Inr y"
    by (rule verify_stream_sealed)
  from assms(4) obtain h' n' y' where b: "uget head ''head'' = JStr h'" "uget head ''count'' = JInt n'"
    "verify_chain stream g' records' links' (Some (map char_of h')) (Some n') = Inr y'"
    by (rule verify_stream_sealed)
  from a b have "h' = h" "n' = n" by simp_all
  with sealed_chains_agree[OF a(3) sealed_stream_head_member[OF assms(1,2) a(2)]] b(3) assms(5)
  show ?thesis by blast
qed

lemma verify_seal_files_read:
  assumes "verify_seal_files b seal = Inr ()" "n \<in> set SEALED_FILES"
  obtains files raw where "uget seal ''files'' = JObj files" "read_bytes b (top n) = Inr raw"
    "uget files n = utext (sha256_prefixed raw)"
proof -
  from assms(1) obtain files us where f: "uget seal ''files'' = JObj files"
    and t: "traverse (check_seal_file b files) (sort SEALED_FILES) = Inr us"
    by (auto simp: verify_seal_files_def and_then_eq_Inr split: json.splits if_splits)
  from assms(2) obtain i where i: "i < length (sort SEALED_FILES)" "sort SEALED_FILES ! i = n"
    by (metis in_set_conv_nth set_sort)
  with traverse_nth[OF t i(1)] have "check_seal_file b files n = Inr ()" by simp
  with f that show thesis by (auto simp: check_seal_file_def split: sum.splits if_splits)
qed

lemma one_seal_one_file:
  assumes "verify_seal_files b seal = Inr ()" "verify_seal_files b' seal = Inr ()" "n \<in> set SEALED_FILES"
    and "\<not> collision_among sha256_prefixed (hashed_of b c seal) (hashed_of b' c' seal)"
  shows "read_bytes b (top n) = read_bytes b' (top n)"
proof -
  obtain f raw where f: "uget seal ''files'' = JObj f" "read_bytes b (top n) = Inr raw"
    "uget f n = utext (sha256_prefixed raw)" using assms(1,3) by (rule verify_seal_files_read)
  obtain f' raw' where f': "uget seal ''files'' = JObj f'" "read_bytes b' (top n) = Inr raw'"
    "uget f' n = utext (sha256_prefixed raw')" using assms(2,3) by (rule verify_seal_files_read)
  from f f' have "sha256_prefixed raw = sha256_prefixed raw'" by (simp add: utext_def)
  with no_collisionD[OF assms(4) sealed_file_hashed[OF assms(3) f(2)] sealed_file_hashed[OF assms(3) f'(2)]]
  show ?thesis by (simp add: f(2) f'(2))
qed
section \<open>Stores\<close>

text \<open>A name a directory entry can have.\<close>

definition plain_name :: "ustring \<Rightarrow> bool" where
  "plain_name name \<longleftrightarrow> name \<noteq> [] \<and> name \<noteq> [46] \<and> 47 \<notin> set name"

lemma one_stream_one_decision_store:
  assumes "read_decisions env b True = Inr (ds, rs)" "read_decisions env b' True = Inr (ds', rs)"
  shows "read_bytes b [ascii ''decisions'', name] = read_bytes b' [ascii ''decisions'', name]"
proof -
  obtain ns where n: "iterdir b (top ''decisions'') = Inr ns" "length (sort ns) = length rs"
    and num: "\<And>i. i < length rs \<Longrightarrow> numbered_json (sort ns ! i) = Some (int i) \<and>
       read_bytes b [ascii ''decisions'', sort ns ! i] = Inr (rs ! i)"
    using assms(1) by (rule read_decisions_stored) blast
  obtain ns' where n': "iterdir b' (top ''decisions'') = Inr ns'" "length (sort ns') = length rs"
    and num': "\<And>i. i < length rs \<Longrightarrow> numbered_json (sort ns' ! i) = Some (int i) \<and>
       read_bytes b' [ascii ''decisions'', sort ns' ! i] = Inr (rs ! i)"
    using assms(2) by (rule read_decisions_stored) blast
  have "sort ns = sort ns'"
  proof (rule nth_equalityI)
    show "length (sort ns) = length (sort ns')" by (simp only: n(2) n'(2))
    fix i assume "i < length (sort ns)"
    then have "i < length rs" by (simp only: n(2))
    with num num' show "sort ns ! i = sort ns' ! i" by (blast intro: numbered_json_inject)
  qed
  then have e: "sort ns' = sort ns" and s: "set ns' = set ns" by (metis, metis set_sort)
  show ?thesis
  proof (cases "name \<in> set ns")
    case True
    then obtain i where "i < length rs" "sort ns ! i = name"
      using n(2) by (metis in_set_conv_nth set_sort)
    with num[of i] num'[of i] e show ?thesis by simp
  next
    case False
    with read_bytes_not_in_dir[of b "ascii ''decisions''" ns name]
      read_bytes_not_in_dir[of b' "ascii ''decisions''" ns' name] n(1) n'(1) s
    show ?thesis by (simp add: top_def)
  qed
qed

lemma traverse_unit:
  fixes f :: "'a \<Rightarrow> unit result"
  assumes "traverse f xs = Inr us" shows "\<forall>x \<in> set xs. f x = Inr ()"
proof
  fix x assume "x \<in> set xs"
  then obtain i where "i < length xs" "x = xs ! i" by (auto simp: in_set_conv_nth)
  with traverse_nth[OF assms, of i] show "f x = Inr ()" by simp
qed

lemma verify_blobs_parts:
  assumes "verify_blobs env b events (Some seal) run_id = Inr counts"
  obtains obs raws disclosed obs_names raw_names where
    "referenced_blobs events = Inr (obs, raws)"
    "\<forall>r \<in> set obs. check_observation_blob env b r = Inr ()"
    "\<forall>r \<in> set raws. check_raw_blob b disclosed r = Inr ()"
    "iterdir b (top ''observations'') = Inr obs_names"
    "(\<lambda>n. ascii ''observations/'' @ n) ` set obs_names = fst ` set obs"
    "iterdir b (top ''raw'') = Inr raw_names"
    "(\<lambda>n. ascii ''raw/'' @ n) ` set raw_names \<subseteq> fst ` set raws"
proof -
  have p: "path_parts (ascii ''observations'') = top ''observations''" "path_parts (ascii ''raw'') = top ''raw''"
    by (simp_all add: path_parts_def ascii_simps top_def)
  have v: "visible_names True xs = xs" for xs by (simp add: visible_names_def)
  have st: "\<exists>ns. iterdir b (path_parts (ascii store)) = Inr ns \<and>
      set actual = (\<lambda>name. ascii (store @ ''/'') @ name) ` set ns"
    if "store_names b store True = Inr actual" for store actual
    using that by (auto simp: store_names_def and_then_eq_Inr v dest!: safe_path_parts)
  from assms obtain obs raws disclosed us vs ao ar where f: "referenced_blobs events = Inr (obs, raws)"
    "traverse (check_observation_blob env b) obs = Inr us"
    "traverse (check_raw_blob b disclosed) raws = Inr vs"
    "store_names b ''observations'' True = Inr ao" "store_names b ''raw'' True = Inr ar"
    "check_store True ''observation store/reference mismatch'' ao (map fst obs) = Inr ()"
    "check_store True ''raw store/reference mismatch'' ar
       (filter (\<lambda>r. r \<notin> set (map fst disclosed)) (map fst raws)) = Inr ()"
    by (auto simp: verify_blobs_def and_then_eq_Inr)
  from f(6) have "set ao = fst ` set obs" by (auto simp: check_store_def split: if_splits)
  moreover from f(7) have "set ar \<subseteq> fst ` set raws" by (auto simp: check_store_def split: if_splits)
  moreover have "\<forall>r \<in> set obs. check_observation_blob env b r = Inr ()"
    "\<forall>r \<in> set raws. check_raw_blob b disclosed r = Inr ()"
    using traverse_unit[OF f(2)] traverse_unit[OF f(3)] by blast+
  moreover obtain on where "iterdir b (top ''observations'') = Inr on"
    "set ao = (\<lambda>n. ascii ''observations/'' @ n) ` set on" using st[OF f(4)] p by auto
  moreover obtain rn where "iterdir b (top ''raw'') = Inr rn"
    "set ar = (\<lambda>n. ascii ''raw/'' @ n) ` set rn" using st[OF f(5)] p by auto
  ultimately show thesis using that[OF f(1)] by simp
qed

lemma observation_blob_read:
  assumes "check_observation_blob env b (ascii ''observations/'' @ name, digest, t) = Inr ()" "plain_name name"
  obtains raw where "read_bytes b [ascii ''observations'', name] = Inr raw" "digest = ascii (sha256_prefixed raw)"
proof -
  from assms(1) obtain d raw where d: "read_document env b (ascii ''observations/'' @ name)
      (Some ''observation'') Forbid = Inr (d, raw)" "digest = ascii (sha256_prefixed raw)"
    by (auto simp: check_observation_blob_def and_then_eq_Inr split: if_splits)
  have "path_parts (ascii (''observations'' @ ''/'') @ name) = [ascii ''observations'', name]"
    using assms(2) by (intro path_parts_in_store) (auto simp: plain_name_def ascii_simps)
  with read_document_stored(1)[OF d(1)] d(2) that show thesis by simp
qed

lemma raw_blob_read:
  assumes "check_raw_blob b disclosed (ascii ''raw/'' @ name, digest, t) = Inr ()" "plain_name name"
    and "read_bytes b [ascii ''raw'', name] = Inr raw"
  shows "digest = ascii (sha256_prefixed raw)"
proof -
  have p: "path_parts (ascii (''raw'' @ ''/'') @ name) = [ascii ''raw'', name]"
    using assms(2) by (intro path_parts_in_store) (auto simp: plain_name_def ascii_simps)
  have e: "path_exists b [ascii ''raw'', name]"
    using assms(3) by (auto simp: read_bytes_def path_exists_def split: option.splits)
  from assms(1) p e assms(3) show ?thesis
    by (auto simp: check_raw_blob_def and_then_eq_Inr split: if_splits dest!: safe_path_parts)
qed

lemma fst_imageE:
  assumes "k \<in> fst ` S" obtains d t where "(k, d, t) \<in> S"
  using assms by auto

lemma same_references_same_blobs:
  assumes v: "verify_blobs env b events (Some seal) run_id = Inr counts"
    and v': "verify_blobs env b' events (Some seal) run_id' = Inr counts'"
    and nc: "\<not> collision_among sha256_prefixed (hashed_of b c seal) (hashed_of b' c' seal)"
    and pl: "plain_name name"
  shows "read_bytes b [ascii ''observations'', name] = read_bytes b' [ascii ''observations'', name]"
    "read_bytes b [ascii ''raw'', name] = Inr bs \<Longrightarrow> read_bytes b' [ascii ''raw'', name] = Inr bs' \<Longrightarrow> bs = bs'"
proof -
  from v obtain obs raws disclosed on rn where p: "referenced_blobs events = Inr (obs, raws)"
    "\<forall>r \<in> set obs. check_observation_blob env b r = Inr ()"
    "\<forall>r \<in> set raws. check_raw_blob b disclosed r = Inr ()"
    "iterdir b (top ''observations'') = Inr on"
    "(\<lambda>n. ascii ''observations/'' @ n) ` set on = fst ` set obs"
    "iterdir b (top ''raw'') = Inr rn" "(\<lambda>n. ascii ''raw/'' @ n) ` set rn \<subseteq> fst ` set raws"
    by (rule verify_blobs_parts)
  from v' obtain obs' raws' disclosed' on' rn' where p': "referenced_blobs events = Inr (obs', raws')"
    "\<forall>r \<in> set obs'. check_observation_blob env b' r = Inr ()"
    "\<forall>r \<in> set raws'. check_raw_blob b' disclosed' r = Inr ()"
    "iterdir b' (top ''observations'') = Inr on'"
    "(\<lambda>n. ascii ''observations/'' @ n) ` set on' = fst ` set obs'"
    "iterdir b' (top ''raw'') = Inr rn'" "(\<lambda>n. ascii ''raw/'' @ n) ` set rn' \<subseteq> fst ` set raws'"
    by (rule verify_blobs_parts)
  from p(1) p'(1) have same: "obs' = obs" "raws' = raws" by simp_all
  have "inj (\<lambda>n. ascii ''observations/'' @ n)" by (auto intro: injI)
  moreover have "(\<lambda>n. ascii ''observations/'' @ n) ` set on' = (\<lambda>n. ascii ''observations/'' @ n) ` set on"
    using p(5) p'(5) same(1) by simp
  ultimately have on: "set on' = set on" by (simp add: inj_image_eq_iff)
  show "read_bytes b [ascii ''observations'', name] = read_bytes b' [ascii ''observations'', name]"
  proof (cases "name \<in> set on")
    case True
    then have "ascii ''observations/'' @ name \<in> fst ` set obs" unfolding p(5)[symmetric] by (rule imageI)
    then obtain digest t where r: "(ascii ''observations/'' @ name, digest, t) \<in> set obs"
      by (rule fst_imageE)
    with p(2) have "check_observation_blob env b (ascii ''observations/'' @ name, digest, t) = Inr ()" by blast
    then obtain raw where raw: "read_bytes b [ascii ''observations'', name] = Inr raw"
      "digest = ascii (sha256_prefixed raw)" using pl by (rule observation_blob_read)
    from r p'(2) same have "check_observation_blob env b' (ascii ''observations/'' @ name, digest, t) = Inr ()"
      by blast
    then obtain raw' where raw': "read_bytes b' [ascii ''observations'', name] = Inr raw'"
      "digest = ascii (sha256_prefixed raw')" using pl by (rule observation_blob_read)
    from raw(2) raw'(2) have "sha256_prefixed raw = sha256_prefixed raw'" by simp
    with no_collisionD[OF nc stored_blob_hashed[OF disjI1[OF refl] raw(1)]
        stored_blob_hashed[OF disjI1[OF refl] raw'(1)]]
    show ?thesis by (simp add: raw(1) raw'(1))
  next
    case False
    with read_bytes_not_in_dir[of b "ascii ''observations''" on name]
      read_bytes_not_in_dir[of b' "ascii ''observations''" on' name] p(4) p'(4) on
    show ?thesis by (simp add: top_def)
  qed
  assume r: "read_bytes b [ascii ''raw'', name] = Inr bs" "read_bytes b' [ascii ''raw'', name] = Inr bs'"
  from r(1) p(6) have "name \<in> set rn" by (auto simp: top_def elim: read_bytes_in_dir)
  then have "ascii ''raw/'' @ name \<in> fst ` set raws" using p(7) by blast
  then obtain digest t where t: "(ascii ''raw/'' @ name, digest, t) \<in> set raws" by (rule fst_imageE)
  from raw_blob_read[OF bspec[OF p(3) t] pl r(1)] raw_blob_read[OF bspec[OF p'(3)[unfolded same] t] pl r(2)]
  have "sha256_prefixed bs = sha256_prefixed bs'" by simp
  with no_collisionD[OF nc stored_blob_hashed[OF disjI2[OF refl] r(1)]
      stored_blob_hashed[OF disjI2[OF refl] r(2)]]
  show "bs = bs'" by simp
qed
section \<open>One root, one evidence\<close>

definition same_evidence :: "node \<Rightarrow> node \<Rightarrow> bool" where
  "same_evidence b b' \<longleftrightarrow>
     (\<forall>n \<in> set (''events.jsonl'' # ''chain.json'' # SEALED_FILES).
        read_bytes b (top n) = read_bytes b' (top n)) \<and>
     (\<forall>name. plain_name name \<longrightarrow>
        read_bytes b [ascii ''decisions'', name] = read_bytes b' [ascii ''decisions'', name] \<and>
        read_bytes b [ascii ''observations'', name] = read_bytes b' [ascii ''observations'', name] \<and>
        (\<forall>bs bs'. read_bytes b [ascii ''raw'', name] = Inr bs \<longrightarrow>
           read_bytes b' [ascii ''raw'', name] = Inr bs' \<longrightarrow> bs = bs'))"

lemma check_sealed_files: "check_sealed b c seal = Inr p \<Longrightarrow> verify_seal_files b seal = Inr ()"
  by (auto simp: check_sealed_def Let_def and_then_eq_Inr split: if_splits option.splits)

lemma stored_stream:
  assumes "read_jsonl env b (ascii name) schema True stream = Inr js" "47 \<notin> set (ascii name)"
    "name \<noteq> []" "ascii name \<noteq> [46]"
  shows "read_bytes b (top name) = Inr (concat (map (\<lambda>l. l @ [10]) (jl_records js)))"
proof -
  have "path_parts (ascii name) = top name"
    using assms(2-4) by (simp add: path_parts_def split_on_whole top_def) (simp add: ascii_def)
  with read_jsonl_stored(1)[OF assms(1)] show ?thesis by simp
qed

lemma same_lines_same_objects:
  assumes "read_jsonl env b relative schema True stream = Inr js"
    "read_jsonl env b' relative schema True stream = Inr js'" "jl_records js = jl_records js'"
  shows "jl_objects js = jl_objects js'"
  using read_jsonl_stored(2)[OF assms(1)] read_jsonl_stored(2)[OF assms(2)] assms(3)
  by (auto intro: stored_lines_inject)

lemma verify_stream_lengths:
  assumes "verify_stream stream g records links (Some head) = Inr ()"
  shows "length links = length records"
proof -
  from assms obtain h :: ustring and n y where
    "verify_chain stream g records links (Some (map char_of h)) (Some n) = Inr y"
    by (rule verify_stream_sealed)
  then show ?thesis by (auto simp: verify_chain_def verify_links_def and_then_eq_Inr split: if_splits)
qed

lemma complete_evidence:
  assumes C: "complete env b c seal r" and C': "complete env b' c' seal' r"
    and nc: "\<not> collision_among sha256_prefixed (hashed_of b c seal) (hashed_of b' c' seal')"
  shows "same_evidence b b'"
proof -
  from C obtain p pr where c: "read_contents env b = Inr (c, p)" "co_seal c = Some (seal, r)"
    "check_sealed b c seal = Inr pr" by (auto simp: complete_def)
  from C' obtain p' pr' where c': "read_contents env b' = Inr (c', p')" "co_seal c' = Some (seal', r)"
    "check_sealed b' c' seal' = Inr pr'" by (auto simp: complete_def)
  obtain eh dh where P:
    "read_seal env b (id_run_id (co_identity c)) = Inr (Some (seal, r))"
    "read_jsonl env b (ascii ''events.jsonl'') (Some ''event'') True (Some ''events'') = Inr (co_events c)"
    "read_decisions env b True = Inr (co_decisions c, co_decision_records c)"
    "read_jsonl env b (ascii ''chain.jsonl'') None True None = Inr (co_chain c)"
    "stream_links env (jl_objects (co_chain c)) = Inr (co_links c)"
    "seal_heads (Some seal) = Inr (Some eh, Some dh)"
    "verify_stream ''events'' (id_event_genesis (co_identity c)) (jl_records (co_events c))
       (fst (co_links c)) (Some eh) = Inr ()"
    "verify_stream ''decisions'' (id_decision_genesis (co_identity c)) (co_decision_records c)
       (snd (co_links c)) (Some dh) = Inr ()"
    "verify_blobs env b (committed_events (co_links c) (co_events c)) (Some seal)
       (id_run_id (co_identity c)) = Inr (co_blobs c)"
    by (rule contents_parts[OF c(1,2)]) blast
  obtain eh' dh' where P':
    "read_seal env b' (id_run_id (co_identity c')) = Inr (Some (seal', r))"
    "read_jsonl env b' (ascii ''events.jsonl'') (Some ''event'') True (Some ''events'') = Inr (co_events c')"
    "read_decisions env b' True = Inr (co_decisions c', co_decision_records c')"
    "read_jsonl env b' (ascii ''chain.jsonl'') None True None = Inr (co_chain c')"
    "stream_links env (jl_objects (co_chain c')) = Inr (co_links c')"
    "seal_heads (Some seal') = Inr (Some eh', Some dh')"
    "verify_stream ''events'' (id_event_genesis (co_identity c')) (jl_records (co_events c'))
       (fst (co_links c')) (Some eh') = Inr ()"
    "verify_stream ''decisions'' (id_decision_genesis (co_identity c')) (co_decision_records c')
       (snd (co_links c')) (Some dh') = Inr ()"
    "verify_blobs env b' (committed_events (co_links c') (co_events c')) (Some seal')
       (id_run_id (co_identity c')) = Inr (co_blobs c')"
    by (rule contents_parts[OF c'(1,2)]) blast
  obtain raw where S: "read_bytes b (top ''chain.json'') = Inr raw" "stored_value (JObj seal) raw"
    "seal_root seal = Inr r" "uget seal ''root'' = utext r" using P(1) by (rule read_seal_parts)
  obtain raw' where S': "read_bytes b' (top ''chain.json'') = Inr raw'" "stored_value (JObj seal') raw'"
    "seal_root seal' = Inr r" "uget seal' ''root'' = utext r" using P'(1) by (rule read_seal_parts)
  have "seal_preimage seal = seal_preimage seal'"
    if "sha256_prefixed (seal_preimage seal) = sha256_prefixed (seal_preimage seal')"
    using no_collisionD[OF nc _ _ that] by (simp add: hashed_of_def)
  note one = one_root_one_seal[OF S(2-4) S'(2-4) this]
  have seal: "seal' = seal" and raws: "raw' = raw" using one by simp_all
  note nc = nc[unfolded seal] and P' = P'[unfolded seal] and c' = c'[unfolded seal]
  have files: "read_bytes b (top n) = read_bytes b' (top n)" if "n \<in> set SEALED_FILES" for n
    using one_seal_one_file[OF check_sealed_files[OF c(3)] check_sealed_files[OF c'(3)] that nc] .
  from P(6) P'(6) have heads: "eh' = eh" "dh' = dh" "sealed_stream_head seal ''events'' = Inr eh"
    "sealed_stream_head seal ''decisions'' = Inr dh" by (auto simp: seal_heads_def and_then_eq_Inr)
  have events: "jl_records (co_events c) = jl_records (co_events c')"
    by (rule one_seal_one_stream[OF heads(3) S(2) P(7) P'(7)[unfolded heads(1)]],
        rule contrapos_nn[OF nc], erule collision_mono) (auto simp: hashed_of_def)
  have decisions: "co_decision_records c = co_decision_records c'"
    by (rule one_seal_one_stream[OF heads(4) S(2) P(8) P'(8)[unfolded heads(2)]],
        rule contrapos_nn[OF nc], erule collision_mono) (auto simp: hashed_of_def)
  have event_objects: "jl_objects (co_events c) = jl_objects (co_events c')"
    by (rule same_lines_same_objects[OF P(2) P'(2) events])
  have ev: "read_bytes b (top ''events.jsonl'') = read_bytes b' (top ''events.jsonl'')"
    using stored_stream[OF P(2)] stored_stream[OF P'(2)] events by (simp add: ascii_simps)
  have "length (fst (co_links c)) = length (jl_records (co_events c))"
    "length (fst (co_links c')) = length (jl_records (co_events c'))"
    using verify_stream_lengths[OF P(7)] verify_stream_lengths[OF P'(7)] by simp_all
  then have committed: "committed_events (co_links c') (co_events c') = committed_events (co_links c) (co_events c)"
    by (simp add: committed_events_def event_objects events)
  have dec: "read_bytes b [ascii ''decisions'', name] = read_bytes b' [ascii ''decisions'', name]" for name
    by (rule one_stream_one_decision_store[OF P(3)[unfolded decisions] P'(3)])
  show ?thesis
    unfolding same_evidence_def
  proof (intro conjI ballI allI impI)
    fix n assume "n \<in> set (''events.jsonl'' # ''chain.json'' # SEALED_FILES)"
    then show "read_bytes b (top n) = read_bytes b' (top n)"
      using ev files S(1) S'(1) raws by auto
  next
    fix name assume pl: "plain_name name"
    show "read_bytes b [ascii ''decisions'', name] = read_bytes b' [ascii ''decisions'', name]" by (rule dec)
    show "read_bytes b [ascii ''observations'', name] = read_bytes b' [ascii ''observations'', name]"
      by (rule same_references_same_blobs(1)[OF P(9) P'(9)[unfolded committed] nc pl])
    fix bs bs' assume "read_bytes b [ascii ''raw'', name] = Inr bs" "read_bytes b' [ascii ''raw'', name] = Inr bs'"
    then show "bs = bs'"
      by (rule same_references_same_blobs(2)[OF P(9) P'(9)[unfolded committed] nc pl])
  qed
qed

end
