(* ===== verification/Stored_Decisions.thy ===== *)
theory Stored_Decisions
  imports Tamper_Evidence
begin

text \<open>
  A document that was stored and read back has its members in canonical order. Nothing the
  recorder computes from it depends on that: in particular the decision records regenerated from
  stored events and ledger rows have the bytes of the ones generated when they were written.
\<close>

section \<open>A document read back\<close>

definition stored_form :: "ustring jobject \<Rightarrow> ustring jobject" where
  "stored_form d = map (\<lambda>(k, v). (k, canonical_form v)) (sort_key member_key d)"

lemma canonical_form_JObj: "canonical_form (JObj d) = JObj (stored_form d)"
  by (simp add: stored_form_def canonical_members_sorted)

lemma canonical_form_JArr: "canonical_form (JArr xs) = JArr (map canonical_form xs)"
  by (simp add: canonical_items_map)

lemma map_of_sort_key: "distinct (map fst d) \<Longrightarrow> map_of (sort_key f d) = map_of d"
  by (rule map_of_eqI) (auto simp: distinct_map)

lemma uget_stored: "distinct (map fst d) \<Longrightarrow> uget (stored_form d) k = canonical_form (uget d k)"
proof -
  assume d: "distinct (map fst d)"
  have "map_of (stored_form d) (ascii k) = map_option canonical_form (map_of d (ascii k))"
    unfolding stored_form_def using map_of_sort_key[OF d, of member_key]
    by (simp add: map_of_map comp_def)
  then show ?thesis by (simp add: uget_def dict_get_def dict_get_default_def split: option.splits)
qed

lemma keys_stored: "set (map fst (stored_form d)) = set (map fst d)"
  by (force simp: stored_form_def)

lemma canonical_form_eqs [simp]:
  "canonical_form v = JStr s \<longleftrightarrow> v = JStr s" "canonical_form v = JInt n \<longleftrightarrow> v = JInt n"
  "canonical_form v = JNull \<longleftrightarrow> v = JNull" "canonical_form v = JBool b \<longleftrightarrow> v = JBool b"
  "canonical_form v = utext t \<longleftrightarrow> v = utext t"
  by (cases v; simp add: utext_def)+

lemma equals_int_canonical [simp]: "equals_int (canonical_form v) n = equals_int v n"
  by (cases v) (simp_all add: equals_int_def)

text \<open>Parts of a document that Python holds and whose nesting the reader allows.\<close>

lemma shaped_distinct: "shaped depth (JObj d) \<Longrightarrow> distinct (map fst d)"
  by (simp add: shaped_def)

lemma shaped_member:
  assumes "shaped depth (JObj d)" "uget d k = v"
  shows "shaped depth v" "v \<noteq> JNull \<Longrightarrow> shaped (depth - 1) v"
proof -
  have "shaped (depth - 1) v \<and> shaped depth v"
  proof (cases "map_of d (ascii k)")
    case None
    with assms(2) show ?thesis by (simp add: uget_def dict_get_def dict_get_default_def shaped_def)
  next
    case (Some w)
    with assms(2) have w: "w = v" by (simp add: uget_def dict_get_def dict_get_default_def)
    from map_of_SomeD[OF Some] have m: "(ascii k, v) \<in> set d" by (simp add: w)
    have "dict_like v" using assms(1) m by (auto simp: shaped_def dict_like_members_iff)
    moreover have "nesting v < depth"
      using assms(1) nesting_members_le[of d "depth - 1"] m
      by (cases depth) (auto simp: shaped_def)
    ultimately show ?thesis by (simp add: shaped_def)
  qed
  then show "shaped depth v" "v \<noteq> JNull \<Longrightarrow> shaped (depth - 1) v" by simp_all
qed
section \<open>Encoding\<close>

declare encode_json.simps(6,7) [simp del] and canonical_form.simps(1,2) [simp del]

definition encodable :: "ustring json \<Rightarrow> bool" where
  "encodable v \<longleftrightarrow> (\<exists>t. encode_json v = Inr t)"

lemma encode_stored: "encodable v \<Longrightarrow> encode_json (canonical_form v) = encode_json v"
  using encode_canonical_form by (auto simp: encodable_def)

lemma encode_members_cong:
  "list_all2 (\<lambda>(k, v) (k', v'). k = k' \<and> encode_json v = encode_json v') kvs kvs' \<Longrightarrow>
     encode_json (JObj kvs) = encode_json (JObj kvs')"
proof -
  assume "list_all2 (\<lambda>(k, v) (k', v'). k = k' \<and> encode_json v = encode_json v') kvs kvs'"
  then have "encode_members kvs = encode_members kvs'"
    by (induction rule: list_all2_induct) auto
  then show ?thesis by (simp add: encode_json.simps)
qed

lemma encode_items_cong:
  "list_all2 (\<lambda>v v'. encode_json v = encode_json v') xs ys \<Longrightarrow> encode_json (JArr xs) = encode_json (JArr ys)"
proof -
  assume "list_all2 (\<lambda>v v'. encode_json v = encode_json v') xs ys"
  then have "encode_items xs = encode_items ys" by (induction rule: list_all2_induct) auto
  then show ?thesis by (simp add: encode_json.simps)
qed

text \<open>A document with the keys of a \<open>dict\<close> all the way down that canonical encoding accepts.\<close>

definition whole :: "ustring jobject \<Rightarrow> bool" where
  "whole d \<longleftrightarrow> dict_like (JObj d) \<and> encodable (JObj d)"

lemma whole_distinct: "whole d \<Longrightarrow> distinct (map fst d)"
  by (simp add: whole_def)

lemma whole_member: "whole d \<Longrightarrow> uget d k = JObj m \<Longrightarrow> whole m"
proof -
  assume w: "whole d" and m: "uget d k = JObj m"
  from w obtain t where "encode_json (JObj d) = Inr t" by (auto simp: whole_def encodable_def)
  from encodes_get[OF this m] have "encodable (JObj m)" by (simp add: encodable_def)
  moreover have "dict_like (JObj m)"
    using w shaped_member(1)[of "nesting (JObj d)" d k "JObj m"] m by (simp add: whole_def shaped_def)
  ultimately show "whole m" by (simp add: whole_def)
qed

lemma encode_whole: "whole d \<Longrightarrow> encode_json (JObj (stored_form d)) = encode_json (JObj d)"
  using encode_stored[of "JObj d"] by (simp add: whole_def canonical_form_JObj)

lemma encode_wholes:
  "\<forall>d \<in> set ds. whole d \<Longrightarrow>
     encode_json (JArr (map JObj (map stored_form ds))) = encode_json (JArr (map JObj ds))"
  by (rule encode_items_cong) (auto simp: list_all2_conv_all_nth encode_whole)

section \<open>Regenerating the decision records\<close>

lemma dr_integer_canonical [simp]: "dr_integer (canonical_form v) n = dr_integer v n"
  by (cases v) (simp_all add: dr_integer_def canonical_form_JObj canonical_form_JArr)

lemma payload_stored:
  assumes "whole e" "payload_of e = Inr p"
  shows "payload_of (stored_form e) = Inr (stored_form p)" "whole p"
proof -
  from assms(2) have u: "uget e ''payload'' = JObj p" by (auto simp: payload_of_def split: json.splits)
  then show "payload_of (stored_form e) = Inr (stored_form p)"
    by (simp add: payload_of_def uget_stored[OF whole_distinct[OF assms(1)]] canonical_form_JObj)
  show "whole p" by (rule whole_member[OF assms(1) u])
qed

lemma traverse_mapped:
  assumes "traverse f xs = Inr ys" "\<And>x y. x \<in> set xs \<Longrightarrow> f x = Inr y \<Longrightarrow> f (g x) = Inr (h y) \<and> P y"
  shows "traverse f (map g xs) = Inr (map h ys)" "\<forall>y \<in> set ys. P y"
proof -
  have "traverse f (map g xs) = Inr (map h ys) \<and> (\<forall>y \<in> set ys. P y)"
    using assms
  proof (induction xs arbitrary: ys)
    case Nil
    then show ?case by simp
  next
    case (Cons x xs)
    from Cons.prems(1) obtain y zs where y: "f x = Inr y" "traverse f xs = Inr zs" "ys = y # zs"
      by (auto simp: and_then_eq_Inr)
    have "traverse f (map g xs) = Inr (map h zs) \<and> (\<forall>y \<in> set zs. P y)"
      using y(2) Cons.prems(2) by (intro Cons.IH) auto
    with Cons.prems(2)[of x y] y show ?case by simp
  qed
  then show "traverse f (map g xs) = Inr (map h ys)" "\<forall>y \<in> set ys. P y" by simp_all
qed

lemma typed_stored:
  assumes "\<forall>e \<in> set es. whole e" "typed_payloads es t = Inr ps"
  shows "typed_payloads (map stored_form es) t = Inr (map stored_form ps)" "\<forall>p \<in> set ps. whole p"
proof -
  have f: "filter (\<lambda>e. uget e ''type'' = utext t) (map stored_form es)
      = map stored_form (filter (\<lambda>e. uget e ''type'' = utext t) es)"
    unfolding filter_map comp_def using assms(1)
    by (intro arg_cong[where f = "map stored_form"] filter_cong) (simp_all add: uget_stored whole_distinct)
  have p: "payload_of (stored_form e) = Inr (stored_form y) \<and> whole y"
    if "e \<in> set (filter (\<lambda>e. uget e ''type'' = utext t) es)" "payload_of e = Inr y" for e y
    using that assms(1) payload_stored[of e y] by auto
  from traverse_mapped[where g = stored_form and h = stored_form and P = whole, OF assms(2)[unfolded typed_payloads_def] p]
  show "typed_payloads (map stored_form es) t = Inr (map stored_form ps)" "\<forall>p \<in> set ps. whole p"
    unfolding typed_payloads_def f by blast+
qed

lemma singles_stored:
  "exactly_one ps = Inr p \<Longrightarrow> exactly_one (map stored_form ps) = Inr (stored_form p) \<and> p \<in> set ps"
  "zero_or_one ps = Inr q \<Longrightarrow> zero_or_one (map stored_form ps) = Inr (map_option stored_form q)
     \<and> (\<forall>p. q = Some p \<longrightarrow> p \<in> set ps)"
  by (auto simp: exactly_one_def zero_or_one_def split: list.splits if_splits)

lemma encode_optional:
  "(\<forall>p. q = Some p \<longrightarrow> whole p) \<Longrightarrow>
     encode_json (opt_object (map_option stored_form q)) = encode_json (opt_object q)"
  by (cases q) (simp_all only: opt_object_def option.simps encode_whole)

lemma meant_stored:
  assumes "meant_of ps rs = Inr m" "\<forall>p \<in> set ps. whole p" "\<forall>r \<in> set rs. whole r"
  obtains m' where "meant_of (map stored_form ps) (map stored_form rs) = Inr m'"
    "encode_json m' = encode_json m"
proof -
  from assms(1) consider (parsed) p where "ps = [p]" "rs = []" | (rejected) r where "ps = []" "rs = [r]"
    by (auto simp: meant_of_def split: list.splits)
  then show thesis
  proof cases
    case parsed
    with assms show thesis
      by (intro that[of "JObj [(ascii ''status'', utext ''parsed''), (ascii ''action'', JObj (stored_form p)),
              (ascii ''rejected'', JNull)]"])
         (auto simp: meant_of_def intro!: encode_members_cong encode_whole)
  next
    case rejected
    with assms show thesis
      by (intro that[of "JObj [(ascii ''status'', utext ''rejected''), (ascii ''action'', JNull),
              (ascii ''rejected'', JObj (stored_form r))]"])
         (auto simp: meant_of_def intro!: encode_members_cong encode_whole)
  qed
qed

lemma traverse_uget_stored:
  assumes "\<forall>d \<in> set ds. whole d" "\<And>v. f (canonical_form v) = f v"
  shows "traverse (\<lambda>d. f (uget d k)) (map stored_form ds) = traverse (\<lambda>d. f (uget d k)) ds"
  using assms by (induction ds) (simp_all add: uget_stored whole_distinct)

lemma ranges_stored:
  assumes "\<forall>d \<in> set ds. whole d"
  shows "event_range (map stored_form ds) = event_range ds"
    "check_attempts (map stored_form ds) = check_attempts ds"
  using traverse_uget_stored[OF assms, of "\<lambda>v. dr_integer v 0" "''seq''"]
    traverse_uget_stored[OF assms, of "\<lambda>v. dr_integer v 1" "''attempt''"]
  by (simp_all add: event_range_def check_attempts_def)

lemma account_stored: "whole row \<Longrightarrow> account_after (stored_form row) = account_after row"
  by (simp add: account_after_def uget_stored whole_distinct)
lemma document_cong:
  assumes "encode_json (JObj saw') = encode_json (JObj saw)"
    "encode_json (JArr (map JObj attempts')) = encode_json (JArr (map JObj attempts))"
    "encode_json meant' = encode_json meant" "encode_json rules' = encode_json rules"
    "encode_json happened' = encode_json happened" "encode_json cost' = encode_json cost"
  shows "encode_json (JObj (decision_document run_id turn bar_index ts saw' attempts' meant' rules' happened' cost' acc seqs))
    = encode_json (JObj (decision_document run_id turn bar_index ts saw attempts meant rules happened cost acc seqs))"
  unfolding decision_document_def using assms
  by (intro encode_members_cong) (auto intro!: encode_members_cong)

lemma happened_cong:
  assumes "\<forall>p \<in> set fills. whole p" "\<forall>p \<in> set cancels. whole p"
    "\<forall>p. liquidation = Some p \<longrightarrow> whole p" "\<forall>p. attempt = Some p \<longrightarrow> whole p"
  shows "encode_json (happened_document (map stored_form fills) (map stored_form cancels)
      (map_option stored_form liquidation) (map_option stored_form attempt))
    = encode_json (happened_document fills cancels liquidation attempt)"
  unfolding happened_document_def
  by (intro encode_members_cong)
     (use assms encode_wholes encode_optional in \<open>simp del: map_map\<close>)

lemma cost_cong:
  assumes "\<forall>p \<in> set funding. whole p" "\<forall>p \<in> set margins. whole p"
  shows "encode_json (cost_document (map stored_form funding) (map stored_form margins))
    = encode_json (cost_document funding margins)"
  unfolding cost_document_def
  by (intro encode_members_cong)
     (use assms encode_wholes[of funding] encode_whole[of "last margins"] in \<open>simp add: last_map del: map_map\<close>)

lemma decision_record_stored:
  assumes es: "\<forall>e \<in> set es. whole e" "es \<noteq> []" and row: "whole row"
    and r: "decision_record run_id turn es row = Inr r"
  obtains r' where "decision_record run_id turn (map stored_form es) (stored_form row) = Inr r'"
    "encode_json (JObj r') = encode_json (JObj r)"
proof -
  from r obtain range saws saw ts bar_index attempts parsed rejected meant rules fills cancels liqs liquidation
      pks post funding margins account where
    range: "event_range es = Inr range"
    and start: "uget (hd es) ''type'' = utext ''ObservationEmitted''"
    and saw: "typed_payloads es ''ObservationEmitted'' = Inr saws" "exactly_one saws = Inr saw"
    and ts: "dr_integer (uget (hd es) ''ts'') 0 = Inr ts" "dr_integer (uget (hd es) ''bar_index'') 0 = Inr bar_index"
    and att: "typed_payloads es ''AgentResponded'' = Inr attempts" "check_attempts attempts = Inr ()"
    and par: "typed_payloads es ''ActionParsed'' = Inr parsed" "typed_payloads es ''ActionRejected'' = Inr rejected"
      "meant_of parsed rejected = Inr meant"
    and rul: "typed_payloads es ''RiskCheck'' = Inr rules"
    and fil: "typed_payloads es ''OrderFilled'' = Inr fills" "typed_payloads es ''OrderCancelled'' = Inr cancels"
    and liq: "typed_payloads es ''LiquidationTriggered'' = Inr liqs" "zero_or_one liqs = Inr liquidation"
    and pka: "typed_payloads es ''PostKillSwitchAttempt'' = Inr pks" "zero_or_one pks = Inr post"
    and fnd: "typed_payloads es ''FundingApplied'' = Inr funding" "typed_payloads es ''MarginUpdate'' = Inr margins"
    and acc: "account_after row = Inr account"
    and rd: "r = decision_document run_id turn bar_index ts saw attempts meant (JArr (map JObj rules))
        (happened_document fills cancels liquidation post) (cost_document funding margins) account range"
    by (auto simp: decision_record_def and_then_eq_Inr Let_def split: if_splits)
  note ty = typed_stored[OF es(1)]
  have hd: "hd (map stored_form es) = stored_form (hd es)" "distinct (map fst (hd es))"
    using es whole_distinct[of "hd es"] by (simp_all add: hd_map)
  obtain meant' where m: "meant_of (map stored_form parsed) (map stored_form rejected) = Inr meant'"
    "encode_json meant' = encode_json meant"
    by (rule meant_stored[OF par(3) ty(2)[OF par(1)] ty(2)[OF par(2)]])
  have rng: "event_range (map stored_form es) = Inr range" using ranges_stored(1)[OF es(1)] range by simp
  have att': "check_attempts (map stored_form attempts) = Inr ()"
    using ranges_stored(2)[OF ty(2)[OF att(1)]] att(2) by simp
  let ?r' = "decision_document run_id turn bar_index ts (stored_form saw) (map stored_form attempts) meant'
     (JArr (map JObj (map stored_form rules)))
     (happened_document (map stored_form fills) (map stored_form cancels)
        (map_option stored_form liquidation) (map_option stored_form post))
     (cost_document (map stored_form funding) (map stored_form margins)) account range"
  have "decision_record run_id turn (map stored_form es) (stored_form row) = Inr ?r'"
    using start ts acc singles_stored(1)[OF saw(2)] singles_stored(2)[OF liq(2)] singles_stored(2)[OF pka(2)]
    by (simp add: decision_record_def rng Let_def hd uget_stored ty(1)[OF saw(1)] ty(1)[OF att(1)] att'
        ty(1)[OF par(1)] ty(1)[OF par(2)] m(1) ty(1)[OF rul] ty(1)[OF fil(1)] ty(1)[OF fil(2)]
        ty(1)[OF liq(1)] ty(1)[OF pka(1)] ty(1)[OF fnd(1)] ty(1)[OF fnd(2)] account_stored[OF row])
  moreover have "encode_json (JObj ?r') = encode_json (JObj r)"
    unfolding rd
  proof (rule document_cong)
    show "encode_json (JObj (stored_form saw)) = encode_json (JObj saw)"
      using singles_stored(1)[OF saw(2)] ty(2)[OF saw(1)] by (intro encode_whole) blast
    show "encode_json (JArr (map JObj (map stored_form attempts))) = encode_json (JArr (map JObj attempts))"
      by (rule encode_wholes[OF ty(2)[OF att(1)]])
    show "encode_json (JArr (map JObj (map stored_form rules))) = encode_json (JArr (map JObj rules))"
      by (rule encode_wholes[OF ty(2)[OF rul]])
    show "encode_json (happened_document (map stored_form fills) (map stored_form cancels)
        (map_option stored_form liquidation) (map_option stored_form post))
      = encode_json (happened_document fills cancels liquidation post)"
      using ty(2)[OF fil(1)] ty(2)[OF fil(2)] singles_stored(2)[OF liq(2)] ty(2)[OF liq(1)]
        singles_stored(2)[OF pka(2)] ty(2)[OF pka(1)] by (intro happened_cong) blast+
    show "encode_json (cost_document (map stored_form funding) (map stored_form margins))
      = encode_json (cost_document funding margins)"
      by (rule cost_cong[OF ty(2)[OF fnd(1)] ty(2)[OF fnd(2)]])
  qed (rule m(2))
  ultimately show thesis by (rule that)
qed
section \<open>All records\<close>

text \<open>The groups of the stored events.\<close>

definition stored_groups :: "turn_groups \<Rightarrow> turn_groups" where
  "stored_groups groups = map (\<lambda>(t, es). (t, map stored_form es)) groups"

lemma stored_groups_simps [simp]:
  "map fst (stored_groups gs) = map fst gs"
  "map_of (stored_groups gs) t = map_option (map stored_form) (map_of gs t)"
  by (induction gs) (auto simp: stored_groups_def)

lemma update_mapped:
  "AList.update t (f v) (map (\<lambda>(t, x). (t, f x)) gs) = map (\<lambda>(t, x). (t, f x)) (AList.update t v gs)"
  by (induction gs) auto

lemma add_to_group_stored:
  "add_to_group t (stored_form e) (stored_groups gs) = stored_groups (add_to_group t e gs)"
  using update_mapped[of t "map stored_form"
      "(case map_of gs t of None \<Rightarrow> [] | Some es \<Rightarrow> es) @ [e]" gs]
  by (cases "map_of gs t") (simp_all add: add_to_group_def stored_groups_def[symmetric])

lemma group_event_stored:
  assumes "distinct (map fst e)" "group_event (i, e) gs = Inr gs'"
  shows "group_event (i, stored_form e) (stored_groups gs) = Inr (stored_groups gs')"
  using assms
  by (auto simp: group_event_def uget_stored and_then_eq_Inr add_to_group_stored
      canonical_form_JObj canonical_form_JArr dr_integer_def split: json.splits if_splits)

lemma fold_result_mapped:
  assumes "fold_result f xs s = Inr t" "P s"
    and "\<And>x s t. x \<in> set xs \<Longrightarrow> P s \<Longrightarrow> f x s = Inr t \<Longrightarrow> f (g x) (h s) = Inr (h t) \<and> P t"
  shows "fold_result f (map g xs) (h s) = Inr (h t) \<and> P t"
  using assms
proof (induction xs arbitrary: s)
  case Nil
  then show ?case by simp
next
  case (Cons x xs)
  from Cons.prems(1) obtain u where u: "f x s = Inr u" "fold_result f xs u = Inr t"
    by (auto simp: and_then_eq_Inr)
  have x: "f (g x) (h s) = Inr (h u)" "P u"
    using Cons.prems(3)[OF _ Cons.prems(2) u(1)] by simp_all
  have "fold_result f (map g xs) (h u) = Inr (h t) \<and> P t"
    using Cons.prems(3) by (intro Cons.IH[OF u(2) x(2)]) auto
  with x(1) show ?case by simp
qed

lemma events_by_turn_stored:
  assumes "\<forall>e \<in> set es. whole e" "events_by_turn es = Inr gs"
  shows "events_by_turn (map stored_form es) = Inr (stored_groups gs)"
    "\<forall>t g. map_of gs t = Some g \<longrightarrow> g \<noteq> [] \<and> set g \<subseteq> set es"
proof -
  let ?g = "\<lambda>(i, e). (i, stored_form e)"
  let ?P = "\<lambda>gs. \<forall>t g. map_of gs t = Some g \<longrightarrow> g \<noteq> [] \<and> set g \<subseteq> set es"
  have z: "zip [0..<length es] (map stored_form es) = map ?g (zip [0..<length es] es)"
    by (simp add: zip_map2)
  have step: "group_event (?g ie) (stored_groups gs) = Inr (stored_groups gs') \<and> ?P gs'"
    if "ie \<in> set (zip [0..<length es] es)" "?P gs" "group_event ie gs = Inr gs'" for ie gs gs'
  proof -
    obtain i e where ie: "ie = (i, e)" by (cases ie)
    have e: "e \<in> set es" using that(1) by (auto simp: ie dest: set_zip_rightD)
    have d: "distinct (map fst e)" using e assms(1) by (auto intro: whole_distinct)
    have "?P gs'"
      using that(2,3) e
      by (fastforce simp: ie group_event_def and_then_eq_Inr add_to_group_def update_conv'
          split: json.splits if_splits option.splits)
    with group_event_stored[OF d] that(3) show ?thesis by (simp add: ie)
  qed
  have "fold_result group_event (map ?g (zip [0..<length es] es)) (stored_groups []) = Inr (stored_groups gs) \<and> ?P gs"
    by (rule fold_result_mapped[OF assms(2)[unfolded events_by_turn_def] _ step]) (simp_all split: prod.splits)
  then show "events_by_turn (map stored_form es) = Inr (stored_groups gs)" "?P gs"
    by (simp_all add: events_by_turn_def z stored_groups_def)
qed

lemma ledger_rows_stored:
  assumes "\<forall>r \<in> set rows. whole r" "fold_result add_ledger_row rows [] = Inr by_turn"
  shows "fold_result add_ledger_row (map stored_form rows) []
      = Inr (map (\<lambda>(t, r). (t, stored_form r)) by_turn)"
    "\<forall>t r. map_of by_turn t = Some r \<longrightarrow> r \<in> set rows"
proof -
  let ?h = "map (\<lambda>(t, r). (t, stored_form r))"
  let ?P = "\<lambda>m. \<forall>t r. map_of m t = Some r \<longrightarrow> r \<in> set rows"
  have mo: "map_of (?h m) t = map_option stored_form (map_of m t)" for m and t :: int
    by (induction m) auto
  have step: "add_ledger_row (stored_form r) (?h m) = Inr (?h m') \<and> ?P m'"
    if "r \<in> set rows" "?P m" "add_ledger_row r m = Inr m'" for r m m'
    using that assms(1)
    by (auto simp: add_ledger_row_def uget_stored whole_distinct and_then_eq_Inr mo map_add_def
        canonical_form_JObj canonical_form_JArr dr_integer_def split: json.splits if_splits option.splits)
  have "fold_result add_ledger_row (map stored_form rows) (?h []) = Inr (?h by_turn) \<and> ?P by_turn"
    by (rule fold_result_mapped[OF assms(2) _ step]) simp_all
  then show "fold_result add_ledger_row (map stored_form rows) [] = Inr (?h by_turn)" "?P by_turn"
    by simp_all
qed
lemma traverse_related:
  assumes "traverse f xs = Inr ys" "\<And>x y. x \<in> set xs \<Longrightarrow> f x = Inr y \<Longrightarrow> \<exists>z. g x = Inr z \<and> R z y"
  shows "\<exists>zs. traverse g xs = Inr zs \<and> list_all2 R zs ys"
  using assms
proof (induction xs arbitrary: ys)
  case Nil
  then show ?case by simp
next
  case (Cons x xs)
  from Cons.prems(1) obtain y ys' where y: "f x = Inr y" "traverse f xs = Inr ys'" "ys = y # ys'"
    by (auto simp: and_then_eq_Inr)
  obtain z where "g x = Inr z" "R z y" using Cons.prems(2)[of x] y(1) by auto
  moreover obtain zs where "traverse g xs = Inr zs" "list_all2 R zs ys'"
    using Cons.IH[OF y(2)] Cons.prems(2) by auto
  ultimately show ?case using y(3) by simp
qed

lemma decision_records_stored:
  assumes es: "\<forall>e \<in> set es. whole e" and rows: "\<forall>r \<in> set rows. whole r"
    and ds: "generate_decision_records es rows run_id = Inr ds"
  obtains ds' where "generate_decision_records (map stored_form es) (map stored_form rows) run_id = Inr ds'"
    "list_all2 (\<lambda>d' d. encode_json (JObj d') = encode_json (JObj d)) ds' ds"
proof -
  from ds obtain gs by_turn where ok: "run_id_ok run_id" and gs: "events_by_turn es = Inr gs"
    and turns: "sort (map fst gs) = map int [0..<length (sort (map fst gs))]"
    and by_turn: "fold_result add_ledger_row rows [] = Inr by_turn"
    and keys: "set (map fst by_turn) = set (sort (map fst gs))"
    and tr: "traverse (\<lambda>turn. case (map_of gs turn, map_of by_turn turn) of
        (Some turn_events, Some row) \<Rightarrow> decision_record run_id turn turn_events row
      | _ \<Rightarrow> Inl (KeyError ''turn'')) (sort (map fst gs)) = Inr ds"
    by (auto simp only: generate_decision_records_def and_then_eq_Inr Let_def sum.distinct split: if_splits)
  let ?by = "map (\<lambda>(t, r). (t, stored_form r)) by_turn"
  have mo: "map_of ?by t = map_option stored_form (map_of by_turn t)" "map fst ?by = map fst by_turn" for t
    by (induction by_turn) auto
  note g = events_by_turn_stored[OF es gs] and l = ledger_rows_stored[OF rows by_turn]
  have "\<exists>ds'. traverse (\<lambda>turn. case (map_of (stored_groups gs) turn, map_of ?by turn) of
        (Some turn_events, Some row) \<Rightarrow> decision_record run_id turn turn_events row
      | _ \<Rightarrow> Inl (KeyError ''turn'')) (sort (map fst gs)) = Inr ds'
    \<and> list_all2 (\<lambda>d' d. encode_json (JObj d') = encode_json (JObj d)) ds' ds"
  proof (rule traverse_related[OF tr])
    fix t d
    assume "(case (map_of gs t, map_of by_turn t) of
        (Some turn_events, Some row) \<Rightarrow> decision_record run_id t turn_events row
      | _ \<Rightarrow> Inl (KeyError ''turn'')) = Inr d"
    then obtain group row where gr: "map_of gs t = Some group" "map_of by_turn t = Some row"
      "decision_record run_id t group row = Inr d" by (auto split: option.splits)
    have group: "\<forall>e \<in> set group. whole e" "group \<noteq> []" "whole row"
      using g(2) l(2) gr(1,2) es rows by blast+
    obtain d' where "decision_record run_id t (map stored_form group) (stored_form row) = Inr d'"
      "encode_json (JObj d') = encode_json (JObj d)"
      by (rule decision_record_stored[OF group gr(3)])
    then show "\<exists>d'. (case (map_of (stored_groups gs) t, map_of ?by t) of
        (Some turn_events, Some row) \<Rightarrow> decision_record run_id t turn_events row
      | _ \<Rightarrow> Inl (KeyError ''turn'')) = Inr d' \<and> encode_json (JObj d') = encode_json (JObj d)"
      by (simp add: gr(1,2) mo(1))
  qed
  then obtain ds' where ds': "traverse (\<lambda>turn. case (map_of (stored_groups gs) turn, map_of ?by turn) of
        (Some turn_events, Some row) \<Rightarrow> decision_record run_id turn turn_events row
      | _ \<Rightarrow> Inl (KeyError ''turn'')) (sort (map fst gs)) = Inr ds'"
    "list_all2 (\<lambda>d' d. encode_json (JObj d') = encode_json (JObj d)) ds' ds" by blast
  have "generate_decision_records (map stored_form es) (map stored_form rows) run_id = Inr ds'"
    using ok turns keys
    by (simp only: generate_decision_records_def g(1) l(1) and_then_Inr Let_def stored_groups_simps(1)
        mo(2) ds'(1) if_True if_False not_True_eq_False turns[symmetric] simp_thms)
  with ds'(2) show thesis by (rule that[rotated])
qed

end
