(* ===== verification/Stored_Reads.thy ===== *)
theory Stored_Reads
  imports Disk Stored_Decisions
begin

text \<open>
  What the verifier's readers return for files that hold canonical encodings: the documents that
  were written, with their members in canonical order.
\<close>

section \<open>Canonical bytes hold no newline\<close>

abbreviation printable :: "ustring \<Rightarrow> bool" where
  "printable t \<equiv> \<forall>c \<in> set t. 32 \<le> c"

lemma printable_joined: "\<forall>p \<in> set ps. printable p \<Longrightarrow> printable (join_commas ps)"
  by (auto simp: join_commas_def split: list.splits)

lemma hex4_printable: "printable (ascii (hex4 n))"
proof -
  have "\<forall>c \<in> set hex_digits. 32 \<le> (of_char c :: nat)" by (simp add: hex_digits_def)
  moreover have "hex_digits ! (m mod 16) \<in> set hex_digits" for m
    by (rule nth_mem) (simp add: hex_digits_def)
  ultimately show ?thesis by (auto simp: hex4_def ascii_def)
qed

lemma escape_printable: "printable (escape_char c)"
  using hex4_printable[of c] by (simp add: escape_char_def)

lemma encode_string_printable: "printable (encode_string s)"
  using escape_printable by (simp add: encode_string_def)

lemma encode_printable:
  shows "\<forall>t. encode_json v = Inr t \<longrightarrow> printable t"
    and "\<forall>v \<in> set vs. \<forall>t. encode_json v = Inr t \<longrightarrow> printable t"
    and "\<forall>kv \<in> set (kvs :: (ustring \<times> ustring json) list). \<forall>t. encode_json (snd kv) = Inr t \<longrightarrow> printable t"
proof (induction v and vs and kvs rule: encode_json_encode_items_encode_members.induct)
  case (4 n)
  have "printable (ascii (show_int n))"
    by (auto simp: ascii_def show_int_def is_digit_def dest!: show_nat_digits[unfolded is_digit_def])
  then show ?case by (auto simp: encode_json.simps split: if_splits)
next
  case (6 xs)
  show ?case
  proof (intro allI impI)
    fix t assume "encode_json (JArr xs) = Inr t"
    then obtain ps where ps: "traverse id (map encode_json xs) = Inr ps"
      and t: "t = [91] @ join_commas ps @ [93]"
      by (auto simp: encode_json.simps and_then_eq_Inr encode_items_map)
    from traverse_id_map[OF ps] 6 have "\<forall>p \<in> set ps. printable p"
      by (fastforce simp: list_all2_conv_all_nth in_set_conv_nth)
    with printable_joined[of ps] t show "printable t" by auto
  qed
next
  case (7 kvs)
  show ?case
  proof (intro allI impI)
    fix t assume "encode_json (JObj kvs) = Inr t"
    then obtain sm ps where sm: "sort_members (encode_members kvs) = Inr sm"
      and ps: "traverse (\<lambda>(k, e). and_then e (\<lambda>t. Inr (encode_string k @ [58] @ t))) sm = Inr ps"
      and t: "t = [123] @ join_commas ps @ [125]"
      by (auto simp: encode_json.simps and_then_eq_Inr)
    have mem: "set sm = set (encode_members kvs)" using sort_members_eq[OF sm] by simp
    have "printable p" if p: "p \<in> set ps" for p
    proof -
      from traverse_set[OF ps p] obtain k e u where e: "(k, e) \<in> set sm" "e = Inr u"
        "p = encode_string k @ [58] @ u" by (auto simp: and_then_eq_Inr)
      with mem obtain v where "(k, v) \<in> set kvs" "encode_json v = Inr u"
        by (auto simp: encode_members_map)
      with 7 have "printable u" by force
      with e(3) encode_string_printable[of k] show ?thesis by auto
    qed
    with printable_joined[of ps] t show "printable t" by auto
  qed
qed (use encode_string_printable in \<open>auto simp: encode_json.simps ascii_simps\<close>)

lemma utf8_no_control:
  assumes "utf8_encode t = Some bs" "printable t" "b < 32"
  shows "b \<notin> set bs"
proof
  assume b: "b \<in> set bs"
  from assms(1) have e: "bs = map of_nat (concat (map utf8_units t))" "list_all scalar_value t"
    by (simp_all add: utf8_encode_def split: if_splits)
  from b obtain u where u: "u \<in> set (concat (map utf8_units t))" "b = of_nat u" unfolding e(1) by auto
  then obtain c where c: "c \<in> set t" "u \<in> set (utf8_units c)" by auto
  with e(2) have "u < 256" by (auto simp: list_all_iff dest: utf8_units_bound)
  then have "unat b = u" by (simp add: u(2) unat_of_nat)
  moreover have "32 \<le> u" using c assms(2) by (auto simp: utf8_units_def split: if_splits)
  ultimately show False using assms(3) by (simp add: word_less_nat_alt)
qed

lemma canonical_no_control:
  assumes "canonical_bytes v = Inr bs" "b < 32" shows "b \<notin> set bs"
  using assms encode_printable(1)[of v] utf8_no_control
  by (auto simp: canonical_bytes_def and_then_eq_Inr split: option.splits)

lemma canonical_no_newline:
  assumes "canonical_bytes v = Inr bs" shows "10 \<notin> set bs" "13 \<notin> set bs"
  using canonical_no_control[OF assms] by simp_all

section \<open>Paths\<close>

definition relative_path :: "ustring \<Rightarrow> ustring list \<Rightarrow> bool" where
  "relative_path rel ps \<longleftrightarrow> path_parts rel = ps \<and> take 1 rel \<noteq> [47] \<and> [46, 46] \<notin> set ps"

lemma no_links:
  assumes "implements disk F"
  shows "\<not> is_symlink disk [n]" "d \<in> set (map ascii DIRECTORIES) \<Longrightarrow> \<not> is_symlink disk [d, n]"
proof -
  show "\<not> is_symlink disk [n]"
    using implements_directories(3)[OF assms, of n] implements_reads(3)[OF assms, of "[n]"]
    by (auto simp: file_path_def)
  show "d \<in> set (map ascii DIRECTORIES) \<Longrightarrow> \<not> is_symlink disk [d, n]"
    by (rule implements_reads(3)[OF assms]) (auto simp: file_path_def)
qed

lemma safe_written:
  assumes "implements disk F" "relative_path rel ps" "file_path ps \<or> (\<exists>d. ps = [d])"
  shows "safe_bundle_path disk rel = Inr ps"
proof -
  from assms(3) have "\<not> is_symlink disk (take k ps)" if "k \<in> set [1..<length ps + 1]" for k
    using that no_links[OF assms(1)] by (auto simp: file_path_def numeral_2_eq_2 less_Suc_eq)
  with assms(2) show ?thesis by (auto simp: safe_bundle_path_def relative_path_def Let_def)
qed

text \<open>The files at the top and in the stores.\<close>

definition BUNDLE_FILES :: "string list" where
  "BUNDLE_FILES = [''manifest.json'', ''agent_manifest.json'', ''events.jsonl'', ''chain.jsonl'',
     ''ledger.jsonl'', ''ledger_stress_2x.jsonl'', ''metrics.json'', ''chain.json'']"

lemma top_is_file_path: "name \<notin> set DIRECTORIES \<Longrightarrow> file_path (top name)"
  by (auto simp: file_path_def top_def)

lemma top_paths:
  assumes "name \<in> set BUNDLE_FILES"
  shows "relative_path (ascii name) (top name)" "file_path (top name)"
proof -
  have "list_all (\<lambda>name. relative_path (ascii name) (top name)) BUNDLE_FILES"
    by (simp add: BUNDLE_FILES_def relative_path_def top_def path_parts_def ascii_simps)
  with assms show "relative_path (ascii name) (top name)" by (simp add: list_all_iff)
  have "list_all (\<lambda>name. name \<notin> set DIRECTORIES) BUNDLE_FILES"
    by (simp add: BUNDLE_FILES_def DIRECTORIES_def)
  with assms show "file_path (top name)"
    by (auto simp: file_path_def top_def list_all_iff ascii_inject)
qed

lemma store_paths:
  assumes "store \<in> set DIRECTORIES"
  shows "relative_path (ascii store) (top store)"
    "plain_name name \<Longrightarrow> name \<noteq> [46, 46] \<Longrightarrow>
      relative_path (ascii (store @ ''/'') @ name) [ascii store, name]"
    "file_path [ascii store, name]"
proof -
  have "list_all (\<lambda>d. relative_path (ascii d) (top d)) DIRECTORIES"
    by (simp add: DIRECTORIES_def relative_path_def top_def path_parts_def ascii_simps)
  with assms show "relative_path (ascii store) (top store)" by (simp add: list_all_iff)
  have "list_all (\<lambda>d. d \<noteq> [] \<and> ascii d \<noteq> [46] \<and> ascii d \<noteq> [46, 46] \<and> 47 \<notin> set (ascii d)) DIRECTORIES"
    by (simp add: DIRECTORIES_def ascii_simps)
  with assms have d: "store \<noteq> []" "ascii store \<noteq> [46]" "ascii store \<noteq> [46, 46]" "47 \<notin> set (ascii store)"
    by (simp_all add: list_all_iff)
  then have "take 1 (ascii (store @ ''/'') @ name) \<noteq> [47]"
    by (cases store) (simp_all add: ascii_simps)
  with d show "plain_name name \<Longrightarrow> name \<noteq> [46, 46] \<Longrightarrow>
      relative_path (ascii (store @ ''/'') @ name) [ascii store, name]"
    by (simp add: relative_path_def plain_name_def path_parts_in_store)
  show "file_path [ascii store, name]" using assms by (simp add: file_path_def)
qed

section \<open>Reading a canonical document\<close>

definition schema_ignores_order :: "verifier \<Rightarrow> bool" where
  "schema_ignores_order env \<longleftrightarrow>
     (\<forall>n v. dict_like v \<longrightarrow> vf_schema env n (canonical_form v) = vf_schema env n v)"

text \<open>A document that was written: its canonical bytes, read with the nesting that is allowed.\<close>

definition written :: "verifier \<Rightarrow> ustring jobject \<Rightarrow> byte list \<Rightarrow> bool" where
  "written env d bs \<longleftrightarrow> shaped (vf_depth env) (JObj d) \<and> canonical_bytes (JObj d) = Inr bs"

lemma canonical_bytes_stored:
  "canonical_bytes (JObj d) = Inr bs \<Longrightarrow> canonical_bytes (JObj (stored_form d)) = Inr bs"
  using encode_canonical_form[of "JObj d"]
  by (auto simp: canonical_bytes_def and_then_eq_Inr canonical_form_JObj)

lemma written_read:
  assumes "written env d bs"
  shows "canonical_object env bs path fail = Inr (stored_form d)"
proof -
  from assms have w: "dict_like (JObj d)" "nesting (JObj d) \<le> vf_depth env" "canonical_bytes (JObj d) = Inr bs"
    by (simp_all add: written_def shaped_def)
  from canonical_bytes_read_back[OF w(3,1,2) strict_keeps] obtain t where
    "utf8_decode bs = Some t" "json_loads strict_hooks (vf_depth env) t = Inr (JObj (stored_form d))"
    by (auto simp: canonical_form_JObj)
  with canonical_bytes_stored[OF w(3)] show ?thesis
    by (simp add: canonical_object_def decode_document_def as_document_def)
qed

lemma written_valid:
  assumes "written env d bs" "schema_ignores_order env" "vf_schema env n (JObj d)"
  shows "validate_stored env (Some n) (stored_form d) fail = Inr ()"
proof -
  have "vf_schema env n (JObj (stored_form d))"
    using assms by (simp add: schema_ignores_order_def written_def shaped_def canonical_form_JObj[symmetric])
  with assms(1) show ?thesis
    by (simp add: validate_stored_def validate_instance_def canonical_bytes_stored written_def)
qed

text \<open>What the readers report: the documents in their stored form.\<close>

lemma read_document_written:
  assumes disk: "implements disk F" "relative_path rel ps" "file_path ps"
    and bytes: "F ps = Some (bs @ (if rule = Require_one then [10] else []))" "rule \<noteq> Optional_one"
    and d: "written env d bs" "schema_ignores_order env" "vf_schema env n (JObj d)"
  shows "read_document env disk rel (Some n) rule
    = Inr (stored_form d, bs @ (if rule = Require_one then [10] else []))"
proof -
  have "10 \<notin> set bs" using canonical_no_newline[of "JObj d" bs] d(1) by (simp add: written_def)
  then have "bs \<noteq> [] \<Longrightarrow> last bs \<noteq> 10" using last_in_set[of bs] by metis
  then have "logical_bytes rule rel (bs @ (if rule = Require_one then [10] else [])) = Inr bs"
    using bytes(2) by (cases rule; cases "bs = []") (auto simp: logical_bytes_def)
  then show ?thesis
    using safe_written[OF disk(1,2)] disk(3) implements_reads(1)[OF disk(1,3)] bytes(1)
      written_read[OF d(1)] written_valid[OF d]
    by (simp add: read_document_def)
qed

lemma split_on_joined_lines:
  "\<forall>l \<in> set ls. s \<notin> set l \<Longrightarrow> split_on s (concat (map (\<lambda>l. l @ [s]) ls)) = ls @ [[]]"
  by (induction ls) (simp_all add: split_on_join split_on_whole)

abbreviation lines_of :: "byte list list \<Rightarrow> byte list" where
  "lines_of ls \<equiv> concat (map (\<lambda>l. l @ [10]) ls)"

lemma read_line_written:
  assumes "written env d bs" "\<forall>n. schema = Some n \<longrightarrow> schema_ignores_order env \<and> vf_schema env n (JObj d)"
  shows "read_line env relative schema stream (i, bs) = Inr (stored_form d)"
proof -
  have "bs \<noteq> []"
  proof
    assume "bs = []"
    with assms(1) have "canonical_bytes (JObj d) = Inr []" by (simp add: written_def)
    then obtain t where "encode_json (JObj d) = Inr t" "utf8_encode t = Some []"
      using canonical_bytes_eq_Inr by blast
    then show False by (auto simp: encode_json.simps and_then_eq_Inr utf8_encode_def utf8_units_def split: if_splits)
  qed
  with assms written_read[OF assms(1)] written_valid[OF assms(1)] show ?thesis
    by (cases schema) (auto simp: read_line_def Let_def validate_stored_def[of env None])
qed

lemma traverse_indexed:
  assumes "length ys = length xs" "\<And>i. i < length xs \<Longrightarrow> f (i, xs ! i) = Inr (ys ! i)"
  shows "traverse f (zip [0..<length xs] xs) = Inr ys"
proof -
  have "traverse f (zip [k..<k + length xs] xs) = Inr ys"
    if "length ys = length xs" "\<And>i. i < length xs \<Longrightarrow> f (k + i, xs ! i) = Inr (ys ! i)" for k
    using that
  proof (induction xs ys arbitrary: k rule: list_induct2')
    case (4 x xs y ys)
    have "f (k, x) = Inr y" using "4.prems"(2)[of 0] by simp
    moreover have "traverse f (zip [Suc k..<Suc k + length xs] xs) = Inr ys"
    proof (rule "4.IH")
      show "length ys = length xs" using "4.prems"(1) by simp
      fix i assume "i < length xs"
      with "4.prems"(2)[of "Suc i"] show "f (Suc k + i, xs ! i) = Inr (ys ! i)" by simp
    qed
    moreover have "[k..<k + length (x # xs)] = k # [Suc k..<Suc k + length xs]"
      by (subst upt_conv_Cons) simp_all
    ultimately show ?case by (simp del: upt_Suc)
  qed simp_all
  from this[of 0] assms show ?thesis by simp
qed

lemma read_jsonl_written:
  assumes disk: "implements disk F" "relative_path rel ps" "file_path ps"
    and bytes: "F ps = Some (lines_of ls)"
    and d: "list_all2 (written env) ds ls"
      "\<forall>n. schema = Some n \<longrightarrow> schema_ignores_order env \<and> (\<forall>d \<in> set ds. vf_schema env n (JObj d))"
  shows "read_jsonl env disk rel schema sealed stream
    = Inr \<lparr>jl_objects = map stored_form ds, jl_records = ls, jl_partial_tail = [], jl_raw = lines_of ls\<rparr>"
proof -
  have "\<forall>l \<in> set ls. 10 \<notin> set l"
    using d(1) canonical_no_newline
    by (fastforce simp: list_all2_conv_all_nth in_set_conv_nth written_def)
  then have split: "split_on 10 (lines_of ls) = ls @ [[]]" by (rule split_on_joined_lines)
  have "traverse (read_line env rel schema stream) (zip [0..<length ls] ls) = Inr (map stored_form ds)"
  proof (rule traverse_indexed)
    show "length (map stored_form ds) = length ls" using list_all2_lengthD[OF d(1)] by simp
    fix i assume i: "i < length ls"
    with d have "written env (ds ! i) (ls ! i)" "length ds = length ls"
      by (auto simp: list_all2_conv_all_nth)
    with i d(2) show "read_line env rel schema stream (i, ls ! i) = Inr (map stored_form ds ! i)"
      by (simp add: read_line_written)
  qed
  then show ?thesis
    using safe_written[OF disk(1,2)] disk(3) implements_reads(1)[OF disk(1,3)] bytes
    by (simp add: read_jsonl_def split)
qed
section \<open>Numbered files\<close>

definition numbered_name :: "nat \<Rightarrow> ustring" where
  "numbered_name n = ascii (pad4 n @ ''.json'')"

lemma digits_less:
  "length s = length t \<Longrightarrow> all_digits s \<Longrightarrow> all_digits t \<Longrightarrow> cp_digits_value s < cp_digits_value t \<Longrightarrow> s < t"
proof (induction s arbitrary: t rule: rev_induct)
  case Nil
  then show ?case by simp
next
  case (snoc c s)
  then obtain d t' where t: "t = t' @ [d]" by (cases t rule: rev_cases) auto
  from snoc.prems t have d: "is_digit_cp c" "is_digit_cp d" "all_digits s" "all_digits t'" "length s = length t'"
    "10 * cp_digits_value s + (c - 48) < 10 * cp_digits_value t' + (d - 48)"
    by (simp_all add: all_digits_def cp_digits_value_def)
  from d(1,2) have b: "c - 48 < 10" "d - 48 < 10" "48 \<le> c" "48 \<le> d" by (auto simp: is_digit_cp_def)
  show ?case
  proof (cases "cp_digits_value s < cp_digits_value t'")
    case True
    with snoc.IH[OF d(5,3,4)] have "s < t'" by simp
    then show ?thesis using d(5) unfolding t list_less_def by (intro lexord_sufI) auto
  next
    case False
    with d(6) b have e: "cp_digits_value s = cp_digits_value t'" "c < d" by auto
    with digits_inject[OF d(5,3,4)] have "s = t'" by simp
    with e(2) show ?thesis unfolding t list_less_def by (simp add: lexord_append_leftI)
  qed
qed

lemma pad4_digits:
  assumes "n < 10000"
  shows "length (ascii (pad4 n)) = 4" "all_digits (ascii (pad4 n))" "cp_digits_value (ascii (pad4 n)) = n"
proof -
  note p = pad4_value[OF assms]
  show "length (ascii (pad4 n)) = 4" by (simp add: ascii_def p(1))
  show "all_digits (ascii (pad4 n))"
    using p(3) by (simp add: all_digits_def list_all_iff ascii_def is_digit_cp_ascii)
  show "cp_digits_value (ascii (pad4 n)) = n" by (simp add: cp_digits_value_ascii p(2))
qed

lemma numbered_name_facts:
  assumes "n < 10000"
  shows "numbered_json (numbered_name n) = Some (int n)" "plain_name (numbered_name n)"
    "numbered_name n \<noteq> [46, 46]" "length (numbered_name n) = 9"
proof -
  note d = pad4_digits[OF assms]
  have l: "take 4 (numbered_name n) = ascii (pad4 n)" "drop 4 (numbered_name n) = ascii ''.json''"
    using d(1) by (simp_all add: numbered_name_def ascii_simps(3))
  show len: "length (numbered_name n) = 9" using d(1) by (simp add: numbered_name_def ascii_simps(3))
  then show "numbered_json (numbered_name n) = Some (int n)" "numbered_name n \<noteq> [46, 46]"
    using l d by (auto simp: numbered_json_def)
  have "47 \<notin> set (ascii (pad4 n))" using d(2) by (auto simp: all_digits_def list_all_iff is_digit_cp_def)
  then show "plain_name (numbered_name n)"
    using len by (auto simp: plain_name_def numbered_name_def ascii_simps)
qed

lemma numbered_name_less:
  assumes "i < j" "j < 10000"
  shows "numbered_name i < numbered_name j"
proof -
  from assms have i: "i < 10000" by simp
  note di = pad4_digits[OF i] and dj = pad4_digits[OF assms(2)]
  have "ascii (pad4 i) < ascii (pad4 j)"
    by (rule digits_less) (use di dj assms(1) in simp_all)
  then show ?thesis
    using di(1) dj(1) by (auto simp: numbered_name_def ascii_simps(3) list_less_def intro!: lexord_sufI)
qed

lemma numbered_names_sorted:
  assumes "n \<le> 10000" "distinct names" "set names = numbered_name ` {0..<n}"
  shows "sort names = map numbered_name [0..<n]"
proof (rule sorted_distinct_set_unique)
  have "sorted_wrt (<) (map numbered_name [0..<n])"
    using assms(1) by (auto simp: sorted_wrt_iff_nth_less intro!: numbered_name_less)
  then show "sorted (map numbered_name [0..<n])" "distinct (map numbered_name [0..<n])"
    by (simp_all only: strict_sorted_iff)
qed (use assms in auto)

end
