(* ===== verification/Bundle_Store.thy ===== *)
theory Bundle_Store
  imports Stored_Reads
begin

text \<open>
  The abstract content of a recorded bundle: a flat store with one file per document, blob and
  stream. The writer implements it on a directory tree, the verifier reads it back.
\<close>

section \<open>The store\<close>

record bundle_bytes =
  bb_agent :: "byte list"
  bb_manifest :: "byte list"
  bb_observations :: "byte list list"
  bb_raw :: "(ustring \<times> byte list) list"
  bb_events :: "byte list list"
  bb_event_links :: "byte list list"
  bb_decisions :: "byte list list"
  bb_decision_links :: "byte list list"
  bb_primary :: "byte list list"
  bb_stress :: "byte list list"
  bb_metrics :: "byte list"

definition numbered_paths :: "string \<Rightarrow> nat \<Rightarrow> ustring list list" where
  "numbered_paths dir n = map (\<lambda>i. [ascii dir, numbered_name i]) [0..<n]"

definition raw_paths :: "bundle_bytes \<Rightarrow> ustring list list" where
  "raw_paths b = map (\<lambda>(name, _). [ascii ''raw'', name]) (bb_raw b)"

definition created_store :: "bundle_bytes \<Rightarrow> store" where
  "created_store b = Map.empty(top ''agent_manifest.json'' \<mapsto> bb_agent b, top ''manifest.json'' \<mapsto> bb_manifest b,
     top ''events.jsonl'' \<mapsto> [], top ''chain.jsonl'' \<mapsto> [])"

definition blob_store :: "bundle_bytes \<Rightarrow> store" where
  "blob_store b =
     map_upds (map_upds (created_store b)
         (numbered_paths ''observations'' (length (bb_observations b))) (bb_observations b))
       (raw_paths b) (map snd (bb_raw b))"

definition event_store :: "bundle_bytes \<Rightarrow> store" where
  "event_store b = (blob_store b)(top ''events.jsonl'' \<mapsto> lines_of (bb_events b),
     top ''chain.jsonl'' \<mapsto> lines_of (bb_event_links b))"

definition decision_store :: "bundle_bytes \<Rightarrow> store" where
  "decision_store b =
     (map_upds (event_store b) (numbered_paths ''decisions'' (length (bb_decisions b))) (bb_decisions b))
       (top ''chain.jsonl'' \<mapsto> lines_of (bb_event_links b @ bb_decision_links b))"

definition product_store :: "bundle_bytes \<Rightarrow> store" where
  "product_store b = (decision_store b)(top ''ledger.jsonl'' \<mapsto> lines_of (bb_primary b),
     top ''ledger_stress_2x.jsonl'' \<mapsto> lines_of (bb_stress b), top ''metrics.json'' \<mapsto> bb_metrics b @ [10])"

definition sealed_store :: "bundle_bytes \<Rightarrow> byte list \<Rightarrow> store" where
  "sealed_store b seal = (product_store b)(top ''chain.json'' \<mapsto> seal)"

lemmas store_defs = sealed_store_def product_store_def decision_store_def event_store_def blob_store_def
  created_store_def

section \<open>What it holds\<close>

lemma top_eqs [simp]: "top a = top b \<longleftrightarrow> a = b" "top a \<noteq> [d, n]" "[d, n] \<noteq> top a" "[d] = top a \<longleftrightarrow> d = ascii a"
  by (auto simp: top_def)

lemma no_top_path [simp]: "top a \<notin> set (numbered_paths d n)" "top a \<notin> set (raw_paths b)"
  by (auto simp: numbered_paths_def raw_paths_def)

lemma store_tops:
  "sealed_store b s (top ''agent_manifest.json'') = Some (bb_agent b)"
  "sealed_store b s (top ''manifest.json'') = Some (bb_manifest b)"
  "sealed_store b s (top ''events.jsonl'') = Some (lines_of (bb_events b))"
  "sealed_store b s (top ''chain.jsonl'') = Some (lines_of (bb_event_links b @ bb_decision_links b))"
  "sealed_store b s (top ''ledger.jsonl'') = Some (lines_of (bb_primary b))"
  "sealed_store b s (top ''ledger_stress_2x.jsonl'') = Some (lines_of (bb_stress b))"
  "sealed_store b s (top ''metrics.json'') = Some (bb_metrics b @ [10])"
  "sealed_store b s (top ''chain.json'') = Some s"
  by (simp_all add: store_defs)

lemma map_upds_nth:
  "distinct xs \<Longrightarrow> length ys = length xs \<Longrightarrow> i < length xs \<Longrightarrow> (map_upds m xs ys) (xs ! i) = Some (ys ! i)"
proof (induction xs arbitrary: ys i m)
  case Nil
  then show ?case by simp
next
  case (Cons x xs)
  then obtain y ys' where "ys = y # ys'" by (cases ys) auto
  with Cons show ?case by (cases i) auto
qed

lemma numbered_paths_facts:
  "length (numbered_paths d n) = n" "i < n \<Longrightarrow> numbered_paths d n ! i = [ascii d, numbered_name i]"
  "n \<le> 10000 \<Longrightarrow> distinct (numbered_paths d n)"
  "[e, m] \<in> set (numbered_paths d n) \<longleftrightarrow> e = ascii d \<and> m \<in> numbered_name ` {0..<n}"
proof -
  have "inj_on numbered_name {0..<n}" if "n \<le> 10000"
    using that numbered_name_facts(1) by (intro inj_onI) (metis atLeastLessThan_iff dual_order.strict_trans1
        of_nat_eq_iff option.inject)
  then show "n \<le> 10000 \<Longrightarrow> distinct (numbered_paths d n)"
    by (simp add: numbered_paths_def distinct_map inj_on_def)
qed (auto simp: numbered_paths_def)

lemma raw_paths_facts:
  "length (raw_paths b) = length (bb_raw b)"
  "i < length (bb_raw b) \<Longrightarrow> raw_paths b ! i = [ascii ''raw'', fst (bb_raw b ! i)]"
  "distinct (raw_paths b) \<longleftrightarrow> distinct (map fst (bb_raw b))"
  "[e, m] \<in> set (raw_paths b) \<longleftrightarrow> e = ascii ''raw'' \<and> m \<in> fst ` set (bb_raw b)"
proof -
  have "raw_paths b = map (\<lambda>n. [ascii ''raw'', n]) (map fst (bb_raw b))"
    by (simp add: raw_paths_def split_def comp_def)
  then show "distinct (raw_paths b) \<longleftrightarrow> distinct (map fst (bb_raw b))"
    by (simp only: distinct_map) (auto simp: inj_on_def distinct_map)
qed (force simp: raw_paths_def split_def)+

lemma store_observations:
  assumes "i < length (bb_observations b)" "length (bb_observations b) \<le> 10000"
  shows "sealed_store b s [ascii ''observations'', numbered_name i] = Some (bb_observations b ! i)"
  using assms map_upds_nth[where xs = "numbered_paths ''observations'' (length (bb_observations b))"
      and ys = "bb_observations b" and m = "created_store b" and i = i]
  by (simp add: store_defs numbered_paths_facts raw_paths_facts map_upds_apply_nontin)

lemma store_decisions:
  assumes "i < length (bb_decisions b)" "length (bb_decisions b) \<le> 10000"
  shows "sealed_store b s [ascii ''decisions'', numbered_name i] = Some (bb_decisions b ! i)"
  using assms map_upds_nth[where xs = "numbered_paths ''decisions'' (length (bb_decisions b))"
      and ys = "bb_decisions b" and m = "event_store b" and i = i]
  by (simp add: store_defs numbered_paths_facts)

lemma store_raw:
  assumes "map_of (bb_raw b) name = Some data" "distinct (map fst (bb_raw b))"
  shows "sealed_store b s [ascii ''raw'', name] = Some data"
proof -
  from map_of_SomeD[OF assms(1)] obtain i where i: "i < length (bb_raw b)" "bb_raw b ! i = (name, data)"
    by (auto simp: in_set_conv_nth)
  with assms(2) map_upds_nth[of "raw_paths b" "map snd (bb_raw b)" i] show ?thesis
    by (simp add: store_defs numbered_paths_facts raw_paths_facts map_upds_apply_nontin)
qed

lemma store_names:
  "sealed_store b s [ascii ''observations'', m] \<noteq> None \<longleftrightarrow> m \<in> numbered_name ` {0..<length (bb_observations b)}"
  "sealed_store b s [ascii ''decisions'', m] \<noteq> None \<longleftrightarrow> m \<in> numbered_name ` {0..<length (bb_decisions b)}"
  "sealed_store b s [ascii ''raw'', m] \<noteq> None \<longleftrightarrow> m \<in> fst ` set (bb_raw b)"
  "sealed_store b s [n] \<noteq> None \<longleftrightarrow> n \<in> set (map ascii BUNDLE_FILES)"
  by (simp_all only: domIff[symmetric])
     (auto simp: store_defs numbered_paths_facts raw_paths_facts BUNDLE_FILES_def numbered_paths_def raw_paths_def
       intro: rev_image_eqI)

end
