(* ===== verification/Recorded_Bundle.thy ===== *)
theory Recorded_Bundle
  imports Bundle_Store
begin

text \<open>
  How the verifier judges a tree that implements a sealed store: each of its stages, in the order
  of \<open>verify_bundle\<close>.
\<close>

section \<open>Documents and their bytes\<close>

record bundle_documents =
  bd_agent :: "ustring jobject"
  bd_manifest :: "ustring jobject"
  bd_observations :: "ustring jobject list"
  bd_events :: "ustring jobject list"
  bd_event_links :: "ustring jobject list"
  bd_decisions :: "ustring jobject list"
  bd_decision_links :: "ustring jobject list"
  bd_primary :: "ustring jobject list"
  bd_stress :: "ustring jobject list"
  bd_metrics :: "ustring jobject"
  bd_seal :: "ustring jobject"

definition stores :: "verifier \<Rightarrow> bundle_documents \<Rightarrow> bundle_bytes \<Rightarrow> byte list \<Rightarrow> bool" where
  "stores env D b s \<longleftrightarrow>
     written env (bd_agent D) (bb_agent b) \<and> written env (bd_manifest D) (bb_manifest b) \<and>
     list_all2 (written env) (bd_observations D) (bb_observations b) \<and>
     list_all2 (written env) (bd_events D) (bb_events b) \<and>
     list_all2 (written env) (bd_event_links D) (bb_event_links b) \<and>
     list_all2 (written env) (bd_decisions D) (bb_decisions b) \<and>
     list_all2 (written env) (bd_decision_links D) (bb_decision_links b) \<and>
     list_all2 (written env) (bd_primary D) (bb_primary b) \<and>
     list_all2 (written env) (bd_stress D) (bb_stress b) \<and>
     written env (bd_metrics D) (bb_metrics b) \<and> written env (bd_seal D) s"

definition valid :: "verifier \<Rightarrow> string \<Rightarrow> ustring jobject \<Rightarrow> bool" where
  "valid env name d \<longleftrightarrow> vf_schema env name (JObj d)"

definition accepted :: "verifier \<Rightarrow> bundle_documents \<Rightarrow> bool" where
  "accepted env D \<longleftrightarrow>
     valid env ''agent_manifest'' (bd_agent D) \<and> valid env ''bundle_manifest'' (bd_manifest D) \<and>
     list_all (valid env ''observation'') (bd_observations D) \<and>
     list_all (valid env ''event'') (bd_events D) \<and>
     list_all (valid env ''chain_link'') (bd_event_links D @ bd_decision_links D) \<and>
     list_all (valid env ''decision_record'') (bd_decisions D) \<and>
     list_all (valid env ''ledger_row'') (bd_primary D @ bd_stress D) \<and>
     valid env ''metrics'' (bd_metrics D) \<and> valid env ''chain'' (bd_seal D)"

text \<open>A tree that holds the documents of a sealed bundle.\<close>

definition holds :: "verifier \<Rightarrow> node \<Rightarrow> bundle_documents \<Rightarrow> bundle_bytes \<Rightarrow> byte list \<Rightarrow> bool" where
  "holds env disk D b s \<longleftrightarrow> implements disk (sealed_store b s) \<and> stores env D b s \<and> accepted env D \<and>
     schema_ignores_order env"

lemma written_distinct: "written env d bs \<Longrightarrow> distinct (map fst d)"
  by (auto simp: written_def dest: shaped_distinct)

lemma written_whole: "written env d bs \<Longrightarrow> whole d"
  by (auto simp: written_def whole_def shaped_def encodable_def dest!: canonical_bytes_eq_Inr)

lemma list_all2_memberE:
  assumes "list_all2 P xs ys" "x \<in> set xs" obtains y where "P x y"
  using assms by (auto simp: list_all2_conv_all_nth in_set_conv_nth)

lemma all_whole: "list_all2 (written env) ds bs \<Longrightarrow> \<forall>d \<in> set ds. whole d"
  by (auto elim: list_all2_memberE intro: written_whole)

lemma all_distinct: "list_all2 (written env) ds bs \<Longrightarrow> d \<in> set ds \<Longrightarrow> distinct (map fst d)"
  using all_whole whole_distinct by blast

lemma content_hash_stored: "content_hash (JObj d) = Inr h \<Longrightarrow> content_hash (JObj (stored_form d)) = Inr h"
  using canonical_bytes_stored by (fastforce simp: content_hash_def and_then_eq_Inr)

section \<open>Identity and layout\<close>

lemma read_top_document:
  assumes "holds env disk D b s" "name \<in> set BUNDLE_FILES"
    and "sealed_store b s (top name) = Some (bs @ (if rule = Require_one then [10] else []))"
    and "written env d bs" "valid env n d" "rule \<noteq> Optional_one"
  shows "read_document env disk (ascii name) (Some n) rule
    = Inr (stored_form d, bs @ (if rule = Require_one then [10] else []))"
  using assms top_paths[OF assms(2)]
  by (intro read_document_written[where F = "sealed_store b s"]) (simp_all add: holds_def valid_def)

lemma manifests_read:
  assumes "holds env disk D b s"
  shows "read_document env disk (ascii ''manifest.json'') (Some ''bundle_manifest'') Forbid
      = Inr (stored_form (bd_manifest D), bb_manifest b)"
    "read_document env disk (ascii ''agent_manifest.json'') (Some ''agent_manifest'') Forbid
      = Inr (stored_form (bd_agent D), bb_agent b)"
    "read_document env disk (ascii ''chain.json'') (Some ''chain'') Forbid
      = Inr (stored_form (bd_seal D), s)"
    "read_document env disk (ascii ''metrics.json'') (Some ''metrics'') Require_one
      = Inr (stored_form (bd_metrics D), bb_metrics b @ [10])"
  using read_top_document[OF assms, where rule = Forbid] read_top_document[OF assms, where rule = Require_one]
    assms
  by (auto simp: BUNDLE_FILES_def store_tops holds_def stores_def accepted_def)

lemma identity_read:
  assumes h: "holds env disk D b s"
    and m: "uget (bd_manifest D) ''agent_manifest_sha256'' = utext (sha256_prefixed (bb_agent b))"
      "uget (bd_manifest D) ''run_id'' = JStr run_id" "uget (bd_manifest D) ''pack'' = JObj pack"
      "uget pack ''content_hash'' = JStr pack_hash" "uget (bd_manifest D) ''run_config'' = JObj run_config"
    and g: "run_config_sha256 (JObj run_config) = Inr config_hash"
      "chain_genesis ''events'' run_id pack_hash (sha256_prefixed (bb_agent b)) config_hash = Inr eg"
      "chain_genesis ''decisions'' run_id pack_hash (sha256_prefixed (bb_agent b)) config_hash = Inr dg"
  shows "read_identity env disk
    = Inr \<lparr>id_run_id = run_id, id_event_genesis = eg, id_decision_genesis = dg\<rparr>"
proof -
  have w: "whole (bd_manifest D)" using h written_whole by (auto simp: holds_def stores_def)
  then have "whole pack" using m(3) by (rule whole_member)
  then have "uget (stored_form pack) ''content_hash'' = JStr pack_hash"
    by (simp add: uget_stored whole_distinct m(4))
  with m g content_hash_stored[of run_config config_hash] show ?thesis
    by (simp add: read_identity_def manifests_read[OF h] uget_stored whole_distinct[OF w]
        canonical_form_JObj run_config_sha256_def)
qed

text \<open>The root is hashed over the seal without it, so it can be recomputed from the stored seal.\<close>

lemma unrooted_stored: "unrooted (stored_form d) = stored_form (unrooted d)"
  by (simp add: stored_form_def filter_map filter_sort comp_def split_def)

lemma seal_root_stored: "seal_root d = Inr r \<Longrightarrow> seal_root (stored_form d) = Inr r"
  by (simp add: seal_root_def unrooted_stored content_hash_stored)

lemma seal_read:
  assumes h: "holds env disk D b s"
    and "uget (bd_seal D) ''run_id'' = JStr run_id" "uget (bd_seal D) ''complete'' = JBool True"
      "seal_root (bd_seal D) = Inr r" "uget (bd_seal D) ''root'' = utext r"
  shows "read_seal env disk run_id = Inr (Some (stored_form (bd_seal D), r))"
proof -
  have w: "distinct (map fst (bd_seal D))" using h written_distinct by (auto simp: holds_def stores_def)
  have i: "implements disk (sealed_store b s)" using h by (simp add: holds_def)
  have p: "file_path (top ''chain.json'')" by (rule top_paths) (simp add: BUNDLE_FILES_def)
  show ?thesis
    using assms seal_root_stored[OF assms(4)] implements_reads(2,3)[OF i p]
    by (simp add: read_seal_def manifests_read[OF h] uget_stored w store_tops)
qed

lemma layout_verified:
  assumes "implements disk (sealed_store b s)"
  shows "verify_layout disk True = Inr ()"
proof -
  have d: "safe_bundle_path disk (ascii d) = Inr (top d)" if "d \<in> set DIRECTORIES" for d
    using safe_written[OF assms store_paths(1)[OF that]] by (simp add: top_def)
  have "require_directory disk d = Inr ()" if "d \<in> set DIRECTORIES" for d
    using implements_directories(3)[OF assms, of "ascii d"] that d[OF that]
    by (simp add: require_directory_def top_def)
  then have r: "traverse (require_directory disk) [''observations'', ''raw'', ''decisions''] = Inr [(), (), ()]"
    by (simp add: DIRECTORIES_def)
  have "file_path (top ''redaction.json'')" by (auto simp: file_path_def top_def DIRECTORIES_def)
  moreover have "sealed_store b s (top ''redaction.json'') = None"
    using store_names(4)[of b s "ascii ''redaction.json''"] by (auto simp: top_def BUNDLE_FILES_def)
  ultimately have nr: "\<not> path_exists disk (top ''redaction.json'')"
    using implements_reads(2)[OF assms] by simp
  obtain ns where ns: "iterdir disk [] = Inr ns"
    "set ns = {n. n \<notin> set (map ascii DIRECTORIES) \<and> sealed_store b s [n] \<noteq> None} \<union> set (map ascii DIRECTORIES)"
    using implements_directories(5)[OF assms] by blast
  have "set ns = set (map ascii SEALED_TOP_LEVEL)"
    unfolding ns(2) store_names(4) by (auto simp: BUNDLE_FILES_def DIRECTORIES_def SEALED_TOP_LEVEL_def)
  with ns(1) nr r show ?thesis by (simp add: verify_layout_def)
qed
section \<open>Streams\<close>

lemma read_stream:
  assumes "holds env disk D b s" "name \<in> set BUNDLE_FILES"
    and "sealed_store b s (top name) = Some (lines_of ls)" "list_all2 (written env) ds ls"
    and "\<forall>n. schema = Some n \<longrightarrow> list_all (valid env n) ds"
  shows "read_jsonl env disk (ascii name) schema sealed stream
    = Inr \<lparr>jl_objects = map stored_form ds, jl_records = ls, jl_partial_tail = [], jl_raw = lines_of ls\<rparr>"
  using assms top_paths[OF assms(2)]
  by (intro read_jsonl_written[where F = "sealed_store b s"]) (auto simp: holds_def valid_def list_all_iff)

lemma streams_read:
  assumes "holds env disk D b s"
  shows "read_jsonl env disk (ascii ''events.jsonl'') (Some ''event'') True (Some ''events'')
      = Inr \<lparr>jl_objects = map stored_form (bd_events D), jl_records = bb_events b, jl_partial_tail = [],
             jl_raw = lines_of (bb_events b)\<rparr>"
    "read_jsonl env disk (ascii ''chain.jsonl'') None True None
      = Inr \<lparr>jl_objects = map stored_form (bd_event_links D @ bd_decision_links D),
             jl_records = bb_event_links b @ bb_decision_links b, jl_partial_tail = [],
             jl_raw = lines_of (bb_event_links b @ bb_decision_links b)\<rparr>"
    "read_jsonl env disk (ascii ''ledger.jsonl'') (Some ''ledger_row'') True None
      = Inr \<lparr>jl_objects = map stored_form (bd_primary D), jl_records = bb_primary b, jl_partial_tail = [],
             jl_raw = lines_of (bb_primary b)\<rparr>"
    "read_jsonl env disk (ascii ''ledger_stress_2x.jsonl'') (Some ''ledger_row'') True None
      = Inr \<lparr>jl_objects = map stored_form (bd_stress D), jl_records = bb_stress b, jl_partial_tail = [],
             jl_raw = lines_of (bb_stress b)\<rparr>"
  using assms
  by (intro read_stream[OF assms]; auto simp: BUNDLE_FILES_def store_tops holds_def stores_def accepted_def
      intro: list_all2_appendI)+

lemma event_seqs_checked:
  assumes "\<And>i. i < length es \<Longrightarrow> uget (es ! i) ''seq'' = JInt (int i)" "\<forall>e \<in> set es. whole e"
  shows "traverse check_event_seq (zip [0..<length es] (map stored_form es)) = Inr (replicate (length es) ())"
  using assms traverse_indexed[of "replicate (length es) ()" "map stored_form es" check_event_seq]
  by (simp add: check_event_seq_def uget_stored whole_distinct equals_int_def)

lemma fold_result_steps:
  assumes "length is = length xs" "\<And>i x acc. x \<in> set xs \<Longrightarrow> f (i, x) acc = Inr (g x acc)"
  shows "fold_result f (zip is xs) acc = Inr (fold g xs acc)"
  using assms
proof (induction "is" xs arbitrary: acc rule: list_induct2)
  case Nil
  then show ?case by simp
next
  case (Cons i is' x xs)
  then show ?case by simp
qed

definition on_stream :: "string \<Rightarrow> ustring jobject \<Rightarrow> bool" where
  "on_stream stream l \<longleftrightarrow> uget l ''stream'' = utext stream"

lemma has_member: "uget d k \<noteq> JNull \<Longrightarrow> dict_has d (ascii k)"
  by (auto simp: uget_def dict_get_def dict_get_default_def dict_has_def split: option.splits)

lemma add_link_stored:
  assumes "whole l" "vf_schema env ''chain_link'' (JObj (stored_form l))"
    and "on_stream ''events'' l \<or> on_stream ''decisions'' l"
  shows "add_link env (i, stored_form l) acc =
    Inr (if on_stream ''events'' l then (fst acc @ [stored_form l], snd acc)
         else (fst acc, snd acc @ [stored_form l]))"
proof -
  have u: "uget (stored_form l) ''stream'' = canonical_form (uget l ''stream'')"
    by (simp add: uget_stored whole_distinct assms(1))
  have "uget (stored_form l) ''stream'' \<noteq> JNull" unfolding u using assms(3) by (auto simp: on_stream_def utext_def)
  from has_member[OF this] assms show ?thesis
    by (auto simp: add_link_def u on_stream_def utext_def)
qed

lemma links_separated:
  assumes "\<forall>l \<in> set (els @ dls). whole l \<and> vf_schema env ''chain_link'' (JObj (stored_form l))"
    and "list_all (on_stream ''events'') els" "list_all (on_stream ''decisions'') dls"
  shows "stream_links env (map stored_form (els @ dls)) = Inr (map stored_form els, map stored_form dls)"
proof -
  let ?g = "\<lambda>l acc. if on_stream ''events'' l then (fst acc @ [stored_form l], snd acc)
         else (fst acc, snd acc @ [stored_form l])"
  let ?f = "\<lambda>(i, l). add_link env (i, stored_form l)"
  have mapped: "fold_result f (zip is (map h xs)) acc = fold_result (\<lambda>(i, x). f (i, h x)) (zip is xs) acc"
    for f :: "nat \<times> 'b \<Rightarrow> links \<Rightarrow> links result" and h "is" xs acc
  proof (induction xs arbitrary: "is" acc)
    case Nil
    then show ?case by simp
  next
    case (Cons x xs)
    then show ?case by (cases "is") (simp_all cong: and_then_cong)
  qed
  have off: "\<not> on_stream ''events'' l" if "l \<in> set dls" for l
    using that assms(3) by (auto simp: on_stream_def utext_def list_all_iff)
  have "fold_result ?f (zip [0..<length (els @ dls)] (els @ dls)) ([], [])
      = Inr (fold ?g (els @ dls) ([], []))"
  proof (rule fold_result_steps)
    fix i l acc assume "l \<in> set (els @ dls)"
    with assms show "?f (i, l) acc = Inr (?g l acc)"
      by (simp only: prod.case) (rule add_link_stored, auto simp: list_all_iff)
  qed simp
  moreover have "fold ?g els (a, c) = (a @ map stored_form els, c)" for a c
    using assms(2) by (induction els arbitrary: a) auto
  moreover have "fold ?g dls (a, c) = (a, c @ map stored_form dls)" for a c
    using off by (induction dls arbitrary: c) auto
  moreover have "stream_links env (map stored_form (els @ dls))
      = fold_result ?f (zip [0..<length (els @ dls)] (els @ dls)) ([], [])"
    unfolding stream_links_def length_map by (rule mapped)
  ultimately show ?thesis by simp
qed
section \<open>Chains\<close>

lemma check_link_stored:
  "whole l \<Longrightarrow> check_link st i r (stored_form l) p = check_link st i r l p"
  using uget_stored[of l] by (simp add: check_link_def uget_def[symmetric] whole_distinct Let_def)

lemma check_links_stored:
  "\<forall>l \<in> set ls. whole l \<Longrightarrow> check_links st i (zip rs (map stored_form ls)) p = check_links st i (zip rs ls) p"
proof (induction ls arbitrary: i rs p)
  case Nil
  then show ?case by simp
next
  case (Cons l ls)
  then show ?case by (cases rs) (simp_all add: check_link_stored cong: and_then_cong)
qed

lemma verify_chain_stored:
  assumes "\<forall>l \<in> set ls. whole l"
  shows "verify_chain st g rs (map stored_form ls) h n = verify_chain st g rs ls h n"
proof -
  have "verify_links st g rs (map stored_form ls) h = verify_links st g rs ls h" for h
    by (simp add: verify_links_def check_links_stored[OF assms])
  then show ?thesis by (simp only: verify_chain_def)
qed

lemma heads_read:
  assumes "whole seal" "uget seal ''streams'' = JObj streams"
    "uget streams ''events'' = JObj eh" "uget streams ''decisions'' = JObj dh"
  shows "seal_heads (Some (stored_form seal)) = Inr (Some (stored_form eh), Some (stored_form dh))"
proof -
  have "whole streams" by (rule whole_member[OF assms(1,2)])
  with assms show ?thesis
    by (simp add: seal_heads_def sealed_stream_head_def uget_stored whole_distinct canonical_form_JObj)
qed

lemma map_char_of_ascii [simp]: "map char_of (ascii h) = h"
  by (simp add: ascii_def comp_def)

lemma stream_verified:
  assumes "verify_chain st g rs ls (Some h) (Some n) = Inr y" "\<forall>l \<in> set ls. whole l" "whole head"
    and "uget head ''genesis'' = utext g" "uget head ''head'' = utext h" "uget head ''count'' = JInt n"
  shows "verify_stream st g rs (map stored_form ls) (Some (stored_form head)) = Inr ()"
  using assms
  by (simp add: verify_stream_def uget_stored whole_distinct utext_def run_chain_def verify_chain_stored Let_def)

section \<open>Decisions\<close>

lemma decisions_read:
  assumes h: "holds env disk D b s" and n: "length (bd_decisions D) \<le> 10000"
    and turns: "\<And>i. i < length (bd_decisions D) \<Longrightarrow> uget (bd_decisions D ! i) ''turn'' = JInt (int i)"
  shows "read_decisions env disk True = Inr (map stored_form (bd_decisions D), bb_decisions b)"
proof -
  have i: "implements disk (sealed_store b s)" "schema_ignores_order env"
    and w: "list_all2 (written env) (bd_decisions D) (bb_decisions b)"
    and v: "list_all (valid env ''decision_record'') (bd_decisions D)"
    using h by (simp_all add: holds_def stores_def accepted_def)
  have len: "length (bb_decisions b) = length (bd_decisions D)" using list_all2_lengthD[OF w] by simp
  have dir: "''decisions'' \<in> set DIRECTORIES" by (simp add: DIRECTORIES_def)
  then have "ascii ''decisions'' \<in> set (map ascii DIRECTORIES)" by simp
  from implements_directories(4)[OF i(1) this] obtain names where names: "iterdir disk [ascii ''decisions''] = Inr names"
    "distinct names" "set names = {n. sealed_store b s [ascii ''decisions'', n] \<noteq> None}" by blast
  have "set names = numbered_name ` {0..<length (bd_decisions D)}" unfolding names(3) store_names(2) len by simp
  then have sorted: "sort names = map numbered_name [0..<length (bd_decisions D)]"
    by (rule numbered_names_sorted[OF n names(2)])
  have rd: "read_decision env disk (i, numbered_name i) = Inr (stored_form (bd_decisions D ! i), bb_decisions b ! i)"
    if k: "i < length (bd_decisions D)" for i
  proof -
    have k': "i < 10000" using k n by simp
    have d: "written env (bd_decisions D ! i) (bb_decisions b ! i)" using w k by (simp add: list_all2_conv_all_nth)
    have "read_document env disk (ascii (''decisions'' @ ''/'') @ numbered_name i) (Some ''decision_record'') Forbid
      = Inr (stored_form (bd_decisions D ! i), bb_decisions b ! i @ (if Forbid = Require_one then [10] else []))"
      using store_decisions[of i b s] k n len v numbered_name_facts(2,3)[OF k'] store_paths[OF dir]
      by (intro read_document_written[OF i(1) _ _ _ _ d i(2)])
         (simp_all add: list_all_iff valid_def)
    then show ?thesis
      using turns[OF k] numbered_name_facts(1)[OF k'] written_distinct[OF d]
      by (simp add: read_decision_def Let_def uget_stored equals_int_def)
  qed
  let ?pairs = "zip (map stored_form (bd_decisions D)) (bb_decisions b)"
  have "traverse (read_decision env disk) (zip [0..<length (sort names)] (sort names)) = Inr ?pairs"
    using rd len by (intro traverse_indexed) (simp_all add: sorted)
  moreover have "safe_bundle_path disk (ascii ''decisions'') = Inr [ascii ''decisions'']"
    using safe_written[OF i(1) store_paths(1)[OF dir]] by (simp add: top_def)
  ultimately show ?thesis
    using names(1) len by (simp add: read_decisions_def visible_names_def Let_def)
qed
section \<open>Ledgers\<close>

text \<open>The net asset value of each row follows from the one before it.\<close>

fun nav_chain :: "int option \<Rightarrow> ustring jobject list \<Rightarrow> bool" where
  "nav_chain previous [] = True"
| "nav_chain previous (row # rows) =
     (case (uget row ''nav_micro'', uget row ''d_nav_micro'') of
        (JInt nav, JInt d) \<Rightarrow>
          (case previous of None \<Rightarrow> True | Some p \<Rightarrow> nav - p = d) \<and> nav_chain (Some nav) rows
      | _ \<Rightarrow> False)"

definition balanced_row :: "string \<Rightarrow> ustring jobject \<Rightarrow> bool" where
  "balanced_row profile row \<longleftrightarrow> uget row ''profile'' = utext profile \<and>
     (\<exists>price funding fees penalty.
        uget row ''d_price_pnl_micro'' = JInt price \<and> uget row ''d_funding_micro'' = JInt funding \<and>
        uget row ''d_fees_micro'' = JInt fees \<and> uget row ''d_liq_penalty_micro'' = JInt penalty \<and>
        uget row ''d_nav_micro'' = JInt (price + funding + fees + penalty))"

lemma ledger_rows_checked:
  assumes "length is = length rows" "\<forall>r \<in> set rows. whole r \<and> balanced_row profile r" "nav_chain previous rows"
  shows "\<exists>nav. fold_result (check_ledger_row relative profile) (zip is (map stored_form rows)) previous = Inr nav"
  using assms
proof (induction "is" rows arbitrary: previous rule: list_induct2)
  case Nil
  then show ?case by simp
next
  case (Cons i is' row rows)
  from Cons.prems have row: "whole row" "balanced_row profile row" by simp_all
  from row(2) obtain price funding fees penalty where r: "uget row ''profile'' = utext profile"
    "uget row ''d_price_pnl_micro'' = JInt price" "uget row ''d_funding_micro'' = JInt funding"
    "uget row ''d_fees_micro'' = JInt fees" "uget row ''d_liq_penalty_micro'' = JInt penalty"
    "uget row ''d_nav_micro'' = JInt (price + funding + fees + penalty)"
    unfolding balanced_row_def by blast
  from Cons.prems(2) r(6) obtain nav where nav: "uget row ''nav_micro'' = JInt nav" "nav_chain (Some nav) rows"
    "case previous of None \<Rightarrow> True | Some p \<Rightarrow> nav - p = price + funding + fees + penalty"
    by (auto split: json.splits)
  have "check_ledger_row relative profile (i, stored_form row) previous = Inr (Some nav)"
    using nav(3) by (auto simp: check_ledger_row_def uget_stored[OF whole_distinct[OF row(1)]] r nav(1)
        ledger_integer_def Let_def split: option.splits)
  with Cons.IH[OF _ nav(2)] Cons.prems(1) show ?case by simp
qed

lemma ledger_read:
  assumes "implements disk (sealed_store b s)" "relative \<in> set BUNDLE_FILES"
    and rd: "read_jsonl env disk (ascii relative) (Some ''ledger_row'') True None = Inr rows"
    and "jl_objects rows = map stored_form ds"
    and ds: "\<forall>r \<in> set ds. whole r \<and> balanced_row profile r" "nav_chain None ds"
  shows "read_ledger env disk relative profile True = Inr (Some rows)"
proof -
  have "path_exists disk (top relative)"
    using implements_reads(2)[OF assms(1) top_paths(2)[OF assms(2)]] store_names(4)[of b s "ascii relative"] assms(2)
    by (simp add: top_def)
  moreover obtain nav where "fold_result (check_ledger_row (ascii relative) profile)
      (zip [0..<length ds] (map stored_form ds)) None = Inr nav"
    using ledger_rows_checked[of "[0..<length ds]" ds profile None "ascii relative"] ds by auto
  ultimately show ?thesis using rd assms(4) by (simp add: read_ledger_def)
qed

lemma metrics_read:
  assumes h: "holds env disk D b s" and "uget (bd_metrics D) ''run_id'' = JStr run_id"
  shows "read_metrics env disk True run_id = Inr (Some (bb_metrics b @ [10]))"
proof -
  have "''metrics.json'' \<in> set BUNDLE_FILES" by (simp add: BUNDLE_FILES_def)
  moreover have i: "implements disk (sealed_store b s)" using h by (simp add: holds_def)
  ultimately have "path_exists disk (top ''metrics.json'')"
    using implements_reads(2)[OF i top_paths(2)] by (simp add: store_tops)
  moreover have "distinct (map fst (bd_metrics D))" using h written_distinct by (auto simp: holds_def stores_def)
  ultimately show ?thesis using assms(2) by (simp add: read_metrics_def manifests_read[OF h] uget_stored)
qed

section \<open>Blobs\<close>

text \<open>The events name every observation in order, and every raw blob once, with their digests.\<close>

definition observation_path :: "nat \<Rightarrow> ustring" where
  "observation_path i = ascii (''observations'' @ ''/'') @ numbered_name i"

definition raw_path :: "ustring \<Rightarrow> ustring" where
  "raw_path name = ascii (''raw'' @ ''/'') @ name"

definition observation_refs :: "byte list list \<Rightarrow> refs" where
  "observation_refs obs = map (\<lambda>i. (observation_path i, ascii (sha256_prefixed (obs ! i)), int i)) [0..<length obs]"

definition raw_refs :: "(ustring \<times> byte list) list \<Rightarrow> refs" where
  "raw_refs raw = map (\<lambda>(name, data). (raw_path name, ascii (sha256_prefixed data), int (length data))) raw"

definition references_match :: "ustring jobject list \<Rightarrow> byte list list \<Rightarrow> (ustring \<times> byte list) list \<Rightarrow> bool" where
  "references_match events obs raw \<longleftrightarrow>
     (case referenced_blobs events of
        Inr (orefs, rrefs) \<Rightarrow>
          orefs = observation_refs obs \<and> set rrefs = set (raw_refs raw) \<and> length rrefs = length raw
      | Inl _ \<Rightarrow> False)"

lemma add_reference_stored:
  assumes "whole e" shows "add_reference (stored_form e) acc = add_reference e acc"
proof -
  have u: "uget (stored_form e) k = canonical_form (uget e k)" for k
    by (simp add: uget_stored whole_distinct assms)
  have s: "event_seq (stored_form e) = event_seq e"
    by (cases "uget e ''seq''") (simp_all add: event_seq_def u canonical_form_JObj canonical_form_JArr)
  show ?thesis
  proof (cases "\<exists>p. uget e ''payload'' = JObj p")
    case True
    then obtain p where p: "uget e ''payload'' = JObj p" by blast
    have up: "uget (stored_form p) k = canonical_form (uget p k)" for k
      using whole_member[OF assms p] by (simp add: uget_stored whole_distinct)
    have "observation_reference (stored_form e) (stored_form p) r = observation_reference e p r" for r
      by (simp add: observation_reference_def u up s canonical_form_JObj canonical_form_JArr split: json.split)
    moreover have "raw_reference (stored_form e) (stored_form p) r = raw_reference e p r" for r
      by (simp add: raw_reference_def up s canonical_form_JObj canonical_form_JArr split: json.split)
    ultimately show ?thesis by (simp add: add_reference_def u p canonical_form_JObj)
  next
    case False
    then have "(case canonical_form (uget e ''payload'') of JObj p \<Rightarrow> f p | _ \<Rightarrow> Inr acc) = Inr acc" for f
      by (cases "uget e ''payload''") (simp_all add: canonical_form_JObj canonical_form_JArr)
    moreover from False have "(case uget e ''payload'' of JObj p \<Rightarrow> f p | _ \<Rightarrow> Inr acc) = Inr acc" for f
      by (cases "uget e ''payload''") simp_all
    ultimately show ?thesis unfolding add_reference_def u by metis
  qed
qed

lemma referenced_stored:
  assumes "\<forall>e \<in> set es. whole e" shows "referenced_blobs (map stored_form es) = referenced_blobs es"
proof -
  have "fold_result add_reference (map stored_form es) acc = fold_result add_reference es acc" for acc
    using assms by (induction es arbitrary: acc) (simp_all add: add_reference_stored cong: and_then_cong)
  then show ?thesis by (simp add: referenced_blobs_def)
qed
lemma blob_names:
  assumes "implements disk (F)" "store \<in> set DIRECTORIES"
  obtains names where "store_names disk store True = Inr (map (\<lambda>n. ascii (store @ ''/'') @ n) names)"
    "set names = {n. F [ascii store, n] \<noteq> None}"
proof -
  have "ascii store \<in> set (map ascii DIRECTORIES)" using assms(2) by simp
  from implements_directories(4)[OF assms(1) this] obtain names where
    "iterdir disk [ascii store] = Inr names" "set names = {n. F [ascii store, n] \<noteq> None}" by blast
  moreover have "safe_bundle_path disk (ascii store) = Inr [ascii store]"
    using safe_written[OF assms(1) store_paths(1)[OF assms(2)]] by (simp add: top_def)
  ultimately show thesis by (intro that) (simp_all add: store_names_def visible_names_def)
qed

lemma observation_blob_checked:
  assumes h: "holds env disk D b s" and n: "length (bb_observations b) \<le> 10000" "i < length (bb_observations b)"
  shows "check_observation_blob env disk (observation_path i, ascii (sha256_prefixed (bb_observations b ! i)), t) = Inr ()"
proof -
  have i: "implements disk (sealed_store b s)" "schema_ignores_order env"
    and w: "list_all2 (written env) (bd_observations D) (bb_observations b)"
    and v: "list_all (valid env ''observation'') (bd_observations D)"
    using h by (simp_all add: holds_def stores_def accepted_def)
  have dir: "''observations'' \<in> set DIRECTORIES" by (simp add: DIRECTORIES_def)
  have d: "written env (bd_observations D ! i) (bb_observations b ! i)" "i < length (bd_observations D)"
    using w n(2) by (simp_all add: list_all2_conv_all_nth)
  have k: "i < 10000" using n by simp
  have "read_document env disk (observation_path i) (Some ''observation'') Forbid
      = Inr (stored_form (bd_observations D ! i), bb_observations b ! i @ (if Forbid = Require_one then [10] else []))"
    unfolding observation_path_def
    using store_observations[OF n(2,1)] d(2) v numbered_name_facts(2,3)[OF k] store_paths[OF dir]
    by (intro read_document_written[OF i(1) _ _ _ _ d(1) i(2)]) (simp_all add: list_all_iff valid_def)
  then show ?thesis by (simp add: check_observation_blob_def)
qed

definition raw_file_names :: "(ustring \<times> byte list) list \<Rightarrow> bool" where
  "raw_file_names raw \<longleftrightarrow> distinct (map fst raw) \<and> list_all (\<lambda>(name, _). raw_name name \<noteq> None) raw"

lemma raw_name_plain: "raw_name name \<noteq> None \<Longrightarrow> plain_name name \<and> name \<noteq> [46, 46]"
proof -
  assume r: "raw_name name \<noteq> None"
  then have l: "length name = 11" and d: "all_digits (take 4 name)"
    and t: "drop 4 name \<in> {ascii ''-a1.txt'', ascii ''-a2.txt''}" by (auto simp: raw_name_def split: if_splits)
  have "47 \<notin> set (take 4 name)" using d by (auto simp: all_digits_def list_all_iff is_digit_cp_def)
  moreover have "47 \<notin> set (drop 4 name)" using t by (auto simp: ascii_simps)
  ultimately have "47 \<notin> set name" by (metis UnE append_take_drop_id set_append)
  with l show ?thesis by (auto simp: plain_name_def)
qed

lemma raw_blob_checked:
  assumes i: "implements disk F" and raw: "raw_name name \<noteq> None" "F [ascii ''raw'', name] = Some data"
  shows "check_raw_blob disk [] (raw_path name, ascii (sha256_prefixed data), int (length data)) = Inr ()"
proof -
  have dir: "''raw'' \<in> set DIRECTORIES" by (simp add: DIRECTORIES_def)
  have pn: "plain_name name" "name \<noteq> [46, 46]" using raw_name_plain[OF raw(1)] by simp_all
  have p: "file_path [ascii ''raw'', name]" by (rule store_paths(3)[OF dir])
  have "safe_bundle_path disk (raw_path name) = Inr [ascii ''raw'', name]"
    unfolding raw_path_def using store_paths(2)[OF dir pn] p by (intro safe_written[OF i]) simp_all
  then show ?thesis using implements_reads[OF i p] by (simp add: check_raw_blob_def raw(2))
qed

lemma traverse_pointwise: "list_all2 (\<lambda>x y. f x = Inr y) xs ys \<Longrightarrow> traverse f xs = Inr ys"
  by (induction rule: list_all2_induct) simp_all

lemma traverse_accepts: "\<forall>x \<in> set xs. f x = Inr () \<Longrightarrow> \<exists>us. traverse f xs = Inr us"
  by (induction xs) auto

lemma blobs_verified:
  assumes h: "holds env disk D b s" and n: "length (bb_observations b) \<le> 10000"
    and raw: "raw_file_names (bb_raw b)"
    and refs: "references_match (bd_events D) (bb_observations b) (bb_raw b)"
  shows "verify_blobs env disk (map stored_form (bd_events D)) (Some seal) run_id
    = Inr (length (bb_observations b), length (bb_raw b), 0)"
proof -
  have i: "implements disk (sealed_store b s)" using h by (simp add: holds_def)
  have "\<forall>e \<in> set (bd_events D). whole e" using h by (intro all_whole[of env]) (auto simp: holds_def stores_def)
  from referenced_stored[OF this] refs obtain rrefs where
    rb: "referenced_blobs (map stored_form (bd_events D)) = Inr (observation_refs (bb_observations b), rrefs)"
    and rr: "set rrefs = set (raw_refs (bb_raw b))" "length rrefs = length (bb_raw b)"
    by (auto simp: references_match_def split: sum.splits)
  have "file_path (top ''redaction.json'')" by (auto simp: file_path_def top_def DIRECTORIES_def)
  moreover have "sealed_store b s (top ''redaction.json'') = None"
    using store_names(4)[of b s "ascii ''redaction.json''"] by (auto simp: top_def BUNDLE_FILES_def)
  ultimately have rd: "redactions env disk (Some seal) run_id rrefs = Inr []"
    using implements_reads(2)[OF i] by (simp add: redactions_def)
  obtain us where us: "traverse (check_observation_blob env disk) (observation_refs (bb_observations b)) = Inr us"
    using traverse_accepts[of "observation_refs (bb_observations b)" "check_observation_blob env disk"]
      observation_blob_checked[OF h n] by (auto simp: observation_refs_def)
  have "\<forall>r \<in> set rrefs. check_raw_blob disk [] r = Inr ()"
    unfolding rr(1) using raw_blob_checked[OF i] store_raw[of b _ _ s] raw
    by (force simp: raw_refs_def raw_file_names_def list_all_iff)
  then obtain vs where vs: "traverse (check_raw_blob disk []) rrefs = Inr vs" using traverse_accepts by blast
  have dirs: "''observations'' \<in> set DIRECTORIES" "''raw'' \<in> set DIRECTORIES" by (simp_all add: DIRECTORIES_def)
  obtain os where os: "store_names disk ''observations'' True = Inr (map (\<lambda>n. ascii (''observations'' @ ''/'') @ n) os)"
    "set os = {n. sealed_store b s [ascii ''observations'', n] \<noteq> None}" by (rule blob_names[OF i dirs(1)])
  obtain rs where rs: "store_names disk ''raw'' True = Inr (map (\<lambda>n. ascii (''raw'' @ ''/'') @ n) rs)"
    "set rs = {n. sealed_store b s [ascii ''raw'', n] \<noteq> None}" by (rule blob_names[OF i dirs(2)])
  have so: "set (map (\<lambda>n. ascii (''observations'' @ ''/'') @ n) os) = set (map fst (observation_refs (bb_observations b)))"
    unfolding set_map os(2) store_names(1) by (simp add: observation_refs_def image_image observation_path_def)
  have sr: "set (map (\<lambda>n. ascii (''raw'' @ ''/'') @ n) rs) = set (map fst rrefs)"
    unfolding set_map rs(2) store_names(3) rr(1) by (simp add: raw_refs_def image_image raw_path_def split_def)
  have "length (observation_refs obs) = length obs" for obs by (simp add: observation_refs_def)
  with so sr show ?thesis
    by (simp add: verify_blobs_def rb rd us vs os(1) rs(1) check_store_def rr(2) del: set_map)
qed
section \<open>The seal and the decisions\<close>

lemma seal_files_verified:
  assumes i: "implements disk (sealed_store b s)" and w: "whole seal" "uget seal ''files'' = JObj files"
    and keys: "set (map fst files) = set (map ascii SEALED_FILES)"
    and hashes: "\<And>n bs. n \<in> set SEALED_FILES \<Longrightarrow> sealed_store b s (top n) = Some bs \<Longrightarrow>
      uget files n = utext (sha256_prefixed bs)"
  shows "verify_seal_files disk (stored_form seal) = Inr ()"
proof -
  have wf: "whole files" by (rule whole_member[OF w])
  have "check_seal_file disk (stored_form files) n = Inr ()" if n: "n \<in> set SEALED_FILES" for n
  proof -
    have nb: "n \<in> set BUNDLE_FILES" using n by (auto simp: SEALED_FILES_def BUNDLE_FILES_def)
    then have "sealed_store b s (top n) \<noteq> None" using store_names(4)[of b s "ascii n"] by (simp add: top_def)
    then obtain bs where bs: "sealed_store b s (top n) = Some bs" by blast
    then have "read_bytes disk (top n) = Inr bs" using implements_reads(1)[OF i top_paths(2)[OF nb]] by simp
    then show ?thesis
      using hashes[OF n bs] by (simp add: check_seal_file_def uget_stored whole_distinct[OF wf])
  qed
  then obtain us where "traverse (check_seal_file disk (stored_form files)) (sort SEALED_FILES) = Inr us"
    using traverse_accepts[of "sort SEALED_FILES" "check_seal_file disk (stored_form files)"] by auto
  then show ?thesis
    by (simp only: verify_seal_files_def uget_stored[OF whole_distinct[OF w(1)]] w(2) canonical_form_JObj
        keys_stored keys json.case not_True_eq_False simp_thms if_False and_then_Inr)
qed

lemma projection_verified:
  assumes w: "\<forall>e \<in> set es. whole e" "\<forall>r \<in> set rows. whole r" "list_all2 (written env) ds bss"
    and g: "generate_decision_records es rows run_id = Inr ds"
  shows "verify_decision_projection (map stored_form es) bss (map stored_form rows) run_id = Inr ()"
proof -
  obtain ds' where ds': "generate_decision_records (map stored_form es) (map stored_form rows) run_id = Inr ds'"
    "list_all2 (\<lambda>d' d. encode_json (JObj d') = encode_json (JObj d)) ds' ds"
    by (rule decision_records_stored[OF w(1,2) g])
  have len: "length ds' = length bss" using list_all2_lengthD[OF ds'(2)] list_all2_lengthD[OF w(3)] by simp
  have "compare_decision (i, ds' ! i, bss ! i) = Inr ()" if i: "i < length bss" for i
  proof -
    have "encode_json (JObj (ds' ! i)) = encode_json (JObj (ds ! i))" "written env (ds ! i) (bss ! i)"
      using i len list_all2_nthD2[OF ds'(2), of i] list_all2_nthD2[OF w(3), of i] list_all2_lengthD[OF w(3)]
      by simp_all
    then show ?thesis by (simp add: compare_decision_def written_def canonical_bytes_def)
  qed
  then have "\<forall>x \<in> set (zip [0..<length ds'] (zip ds' bss)). compare_decision x = Inr ()"
    using len by (auto simp: set_zip)
  then obtain us where "traverse compare_decision (zip [0..<length ds'] (zip ds' bss)) = Inr us"
    using traverse_accepts by blast
  with ds'(1) len show ?thesis by (simp add: verify_decision_projection_def)
qed

end
