(* ===== verification/Sealed_Verdict.thy ===== *)
theory Sealed_Verdict
  imports Recorded_Bundle
begin

text \<open>The stages of the verifier put together: a sealed store whose parts agree is complete.\<close>
section \<open>The verdict\<close>

lemma sealed_bundle_complete:
  assumes h: "holds env disk D b s"
    and ident: "uget (bd_manifest D) ''agent_manifest_sha256'' = utext (sha256_prefixed (bb_agent b))"
      "uget (bd_manifest D) ''run_id'' = JStr run_id" "uget (bd_manifest D) ''pack'' = JObj pack"
      "uget pack ''content_hash'' = JStr pack_hash" "uget (bd_manifest D) ''run_config'' = JObj run_config"
      "run_config_sha256 (JObj run_config) = Inr config_hash"
      "chain_genesis ''events'' run_id pack_hash (sha256_prefixed (bb_agent b)) config_hash = Inr eg"
      "chain_genesis ''decisions'' run_id pack_hash (sha256_prefixed (bb_agent b)) config_hash = Inr dg"
    and seal: "uget (bd_seal D) ''run_id'' = JStr run_id" "uget (bd_seal D) ''complete'' = JBool True"
      "seal_root (bd_seal D) = Inr r" "uget (bd_seal D) ''root'' = utext r"
    and heads: "uget (bd_seal D) ''streams'' = JObj streams"
      "uget streams ''events'' = JObj (stream_head eb)" "uget streams ''decisions'' = JObj (stream_head db)"
      "cb_genesis eb = eg" "cb_genesis db = dg"
    and chains: "verify_chain ''events'' eg (bb_events b) (bd_event_links D) (Some (cb_head eb))
        (Some (int (cb_count eb))) = Inr y"
      "verify_chain ''decisions'' dg (bb_decisions b) (bd_decision_links D) (Some (cb_head db))
        (Some (int (cb_count db))) = Inr y'"
      "list_all (on_stream ''events'') (bd_event_links D)" "list_all (on_stream ''decisions'') (bd_decision_links D)"
    and seqs: "\<And>i. i < length (bd_events D) \<Longrightarrow> uget (bd_events D ! i) ''seq'' = JInt (int i)"
    and turns: "\<And>i. i < length (bd_decisions D) \<Longrightarrow> uget (bd_decisions D ! i) ''turn'' = JInt (int i)"
    and few: "length (bd_decisions D) \<le> 10000" "length (bb_observations b) \<le> 10000"
    and ledgers: "list_all (balanced_row ''primary'') (bd_primary D)" "list_all (balanced_row ''stress_2x'') (bd_stress D)"
      "nav_chain None (bd_primary D)" "nav_chain None (bd_stress D)" "length (bd_primary D) = length (bd_stress D)"
    and metrics: "uget (bd_metrics D) ''run_id'' = JStr run_id"
    and blobs: "raw_file_names (bb_raw b)" "references_match (bd_events D) (bb_observations b) (bb_raw b)"
    and ending: "bd_events D \<noteq> []" "uget (last (bd_events D)) ''type'' = utext ''EpisodeEnd''"
      "uget (last (bd_events D)) ''payload'' = JObj payload"
      "uget payload ''metrics_sha256'' = utext (sha256_prefixed (bb_metrics b @ [10]))"
    and decisions: "generate_decision_records (bd_events D) (bd_primary D) run_id = Inr (bd_decisions D)"
    and files: "uget (bd_seal D) ''files'' = JObj files" "set (map fst files) = set (map ascii SEALED_FILES)"
      "\<And>n bs. n \<in> set SEALED_FILES \<Longrightarrow> sealed_store b s (top n) = Some bs \<Longrightarrow>
        uget files n = utext (sha256_prefixed bs)"
    and counts: "uget (bd_seal D) ''blobs'' = JObj blob_counts" "uget blob_counts ''observations'' = JObj oc"
      "uget blob_counts ''raw'' = JObj rc" "uget oc ''count'' = JInt (int (length (bb_observations b)))"
      "uget rc ''count'' = JInt (int (length (bb_raw b)))"
  obtains v where "verify_bundle env disk = Inr v" "vr_verdict v = COMPLETE" "vr_root v = Some r"
proof -
  have i: "implements disk (sealed_store b s)" using h by (simp add: holds_def)
  have st: "stores env D b s" "accepted env D" "schema_ignores_order env" using h by (simp_all add: holds_def)
  have ws: "whole (bd_seal D)" "\<forall>e \<in> set (bd_events D). whole e" "\<forall>e \<in> set (bd_primary D). whole e"
    "\<forall>e \<in> set (bd_stress D). whole e" "\<forall>l \<in> set (bd_event_links D). whole l"
    "\<forall>l \<in> set (bd_decision_links D). whole l"
    using st(1) written_whole all_whole unfolding stores_def by metis+
  have wh: "whole streams" "whole blob_counts" using whole_member[OF ws(1)] heads(1) counts(1) by blast+
  have whd: "whole (stream_head eb)" "whole (stream_head db)" "whole oc" "whole rc"
    using whole_member[OF wh(1)] whole_member[OF wh(2)] heads(2,3) counts(2,3) by blast+
  have lv: "\<forall>l \<in> set (bd_event_links D @ bd_decision_links D). whole l \<and>
      vf_schema env ''chain_link'' (JObj (stored_form l))"
    using ws(5,6) st(2,3)
    by (auto simp: accepted_def valid_def list_all_iff schema_ignores_order_def whole_def canonical_form_JObj[symmetric])
  have lens: "length (bb_events b) = length (bd_events D)" "length (bb_decisions b) = length (bd_decisions D)"
    using st(1) by (auto simp: stores_def dest: list_all2_lengthD)
  have links: "length (bd_event_links D) = length (bd_events D)"
    using chains(1) lens by (auto simp: verify_chain_def verify_links_def and_then_eq_Inr split: if_splits)
  have lg: "read_ledger env disk ''ledger.jsonl'' ''primary'' True
      = Inr (Some \<lparr>jl_objects = map stored_form (bd_primary D), jl_records = bb_primary b, jl_partial_tail = [],
             jl_raw = lines_of (bb_primary b)\<rparr>)"
    by (rule ledger_read[OF i _ streams_read(3)[OF h], where ds = "bd_primary D"])
       (use ws ledgers in \<open>simp_all add: BUNDLE_FILES_def list_all_iff\<close>)
  have lg': "read_ledger env disk ''ledger_stress_2x.jsonl'' ''stress_2x'' True
      = Inr (Some \<lparr>jl_objects = map stored_form (bd_stress D), jl_records = bb_stress b, jl_partial_tail = [],
             jl_raw = lines_of (bb_stress b)\<rparr>)"
    by (rule ledger_read[OF i _ streams_read(4)[OF h], where ds = "bd_stress D"])
       (use ws ledgers in \<open>simp_all add: BUNDLE_FILES_def list_all_iff\<close>)
  have vs: "verify_stream ''events'' eg (bb_events b) (map stored_form (bd_event_links D))
      (Some (stored_form (stream_head eb))) = Inr ()"
    by (rule stream_verified[OF chains(1) ws(5) whd(1)]) (simp_all add: stream_head_def heads)
  have vs': "verify_stream ''decisions'' dg (bb_decisions b) (map stored_form (bd_decision_links D))
      (Some (stored_form (stream_head db))) = Inr ()"
    by (rule stream_verified[OF chains(2) ws(6) whd(2)]) (simp_all add: stream_head_def heads)
  let ?c = "\<lparr>co_identity = \<lparr>id_run_id = run_id, id_event_genesis = eg, id_decision_genesis = dg\<rparr>,
    co_seal = Some (stored_form (bd_seal D), r),
    co_events = \<lparr>jl_objects = map stored_form (bd_events D), jl_records = bb_events b, jl_partial_tail = [],
             jl_raw = lines_of (bb_events b)\<rparr>,
    co_decisions = map stored_form (bd_decisions D), co_decision_records = bb_decisions b,
    co_chain = \<lparr>jl_objects = map stored_form (bd_event_links D @ bd_decision_links D),
             jl_records = bb_event_links b @ bb_decision_links b, jl_partial_tail = [],
             jl_raw = lines_of (bb_event_links b @ bb_decision_links b)\<rparr>,
    co_links = (map stored_form (bd_event_links D), map stored_form (bd_decision_links D)),
    co_primary = Some \<lparr>jl_objects = map stored_form (bd_primary D), jl_records = bb_primary b, jl_partial_tail = [],
             jl_raw = lines_of (bb_primary b)\<rparr>,
    co_stress = Some \<lparr>jl_objects = map stored_form (bd_stress D), jl_records = bb_stress b, jl_partial_tail = [],
             jl_raw = lines_of (bb_stress b)\<rparr>,
    co_metrics = Some (bb_metrics b @ [10]), co_blobs = (length (bb_observations b), length (bb_raw b), 0)\<rparr>"
  have "\<exists>p. read_contents env disk = Inr (?c, p)"
    using identity_read[OF h ident] seal_read[OF h seal] layout_verified[OF i] streams_read(1,2)[OF h]
      event_seqs_checked[OF seqs ws(2)] decisions_read[OF h few(1) turns] links_separated[OF lv chains(3,4)]
      heads_read[OF ws(1) heads(1-3)] vs vs' lg lg' ledgers(5) metrics_read[OF h metrics]
      blobs_verified[OF h few(2) blobs] links
    by (simp add: read_contents_def check_ledger_lengths_def committed_events_def Let_def del: map_append)
  then obtain p where rc: "read_contents env disk = Inr (?c, p)" by blast
  have wl: "whole (last (bd_events D))" using ws(2) ending(1) by simp
  have "check_sealed disk ?c (stored_form (bd_seal D))
      = Inr \<lparr>jl_objects = map stored_form (bd_primary D), jl_records = bb_primary b, jl_partial_tail = [],
             jl_raw = lines_of (bb_primary b)\<rparr>"
    using ending counts st(1) projection_verified[OF ws(2,3) _ decisions, of env "bb_decisions b"]
      seal_files_verified[OF i ws(1) files] whole_member[OF wl ending(3)]
    by (simp add: check_sealed_def last_map uget_stored whole_distinct wl canonical_form_JObj ws(1) wh whd
        stores_def equals_int_def)
  with rc obtain primary where "verify_body env disk = Inr (complete_result disk ?c r primary)"
    by (simp add: verify_body_def)
  then have "verify_bundle env disk = Inr (complete_result disk ?c r primary)"
    using implements_directories(1,2)[OF i] by (simp add: verify_bundle_def)
  then show thesis by (rule that) (simp_all add: complete_result_def Let_def)
qed

end
