(* ===== verification/Writer.thy ===== *)
theory Writer
  imports Disk Verify Config
begin

text \<open>
  Model of \<open>recorder/writer.py\<close>: the bundle writer as a state that is passed through its methods,
  and \<open>record_episode_bundle\<close>, which drives it. The schema validator is the parameter the
  verifier has as well.
\<close>

section \<open>Small readers\<close>

definition w_mapping :: "ustring json \<Rightarrow> ustring jobject result" where
  "w_mapping v = (case v of JObj m \<Rightarrow> Inr m | _ \<Rightarrow> Inl (RecorderError ''must be an object''))"

definition w_integer :: "ustring json \<Rightarrow> int \<Rightarrow> int result" where
  "w_integer v minimum =
     (case v of
        JInt n \<Rightarrow> if n < minimum then Inl (RecorderError ''must be an integer'') else Inr n
      | _ \<Rightarrow> Inl (RecorderError ''must be an integer''))"

definition w_string :: "ustring json \<Rightarrow> ustring result" where
  "w_string v = (case v of JStr s \<Rightarrow> Inr s | _ \<Rightarrow> Inl (RecorderError ''must be a string''))"

definition canonical_line :: "ustring jobject \<Rightarrow> byte list result" where
  "canonical_line row = and_then (canonical_bytes (JObj row)) (\<lambda>bs. Inr (bs @ [10]))"

definition canonical_jsonl :: "ustring jobject list \<Rightarrow> byte list result" where
  "canonical_jsonl rows = and_then (traverse canonical_line rows) (\<lambda>ls. Inr (concat ls))"

section \<open>The manifest\<close>

record episode_identity =
  ei_run_id :: ustring
  ei_episode_id :: ustring
  ei_pack_id :: ustring
  ei_content_hash :: ustring
  ei_window_start_ts :: int
  ei_config :: EpisodeConfig

definition ENGINE_VERSION :: string where "ENGINE_VERSION = ''0.1.0''"

text \<open>
  \<open>pack_manifest\<close> is what reading the pack's manifest file gives, \<open>versions\<close> the document in
  \<open>VERSIONS.json\<close>.
\<close>

definition build_bundle_manifest ::
    "verifier \<Rightarrow> episode_identity \<Rightarrow> ustring jobject \<Rightarrow> ustring json \<Rightarrow> ustring jobject
      \<Rightarrow> byte list option \<Rightarrow> ustring json \<Rightarrow> ustring jobject result" where
  "build_bundle_manifest env ident agent_manifest created_at_ms host pack_manifest versions_value =
     and_then (validate_instance env ''agent_manifest'' (JObj agent_manifest)) (\<lambda>_.
     and_then (w_integer created_at_ms 0) (\<lambda>created.
     case pack_manifest of
       None \<Rightarrow> Inl (RecorderError ''cannot read pack manifest'')
     | Some pack_manifest_bytes \<Rightarrow>
     and_then (w_mapping versions_value) (\<lambda>versions_container.
     and_then (w_mapping (uget versions_container ''versions'')) (\<lambda>versions.
     and_then (canonical_bytes (JObj agent_manifest)) (\<lambda>agent_bytes.
     and_then (time_rebase_offset_ms (ei_window_start_ts ident)) (\<lambda>offset.
     let manifest =
       [(ascii ''schema'', utext ''bundle_manifest/v1''), (ascii ''run_id'', JStr (ei_run_id ident)),
        (ascii ''episode_id'', JStr (ei_episode_id ident)), (ascii ''created_at_ms'', JInt created),
        (ascii ''pack'', JObj
           [(ascii ''pack_id'', JStr (ei_pack_id ident)), (ascii ''content_hash'', JStr (ei_content_hash ident)),
            (ascii ''manifest_sha256'', utext (sha256_prefixed pack_manifest_bytes))]),
        (ascii ''agent_manifest_sha256'', utext (sha256_prefixed agent_bytes)),
        (ascii ''engine_version'', utext ENGINE_VERSION), (ascii ''spec_versions'', JObj versions),
        (ascii ''time_rebase_offset_ms'', JInt offset),
        (ascii ''run_config'', unicode_json (to_run_config (ei_config ident))),
        (ascii ''host'', JObj host)]
     in
     and_then (validate_instance env ''bundle_manifest'' (JObj manifest)) (\<lambda>_. Inr manifest)))))))"

section \<open>The writer\<close>

record BundleWriter =
  bw_root :: node
  bw_manifest :: "ustring jobject"
  bw_agent_manifest :: "ustring jobject"
  bw_event_chain :: ChainBuilder
  bw_decision_chain :: ChainBuilder
  bw_observations :: "int list"
  bw_raw_refs :: "ustring list"
  bw_last_event :: "ustring jobject option"
  bw_finalized :: bool

definition EMPTY_BUNDLE :: node where
  "EMPTY_BUNDLE = Dir (map (\<lambda>d. (ascii d, Dir [])) DIRECTORIES)"

definition on_disk :: "(node \<Rightarrow> node result) \<Rightarrow> BundleWriter \<Rightarrow> BundleWriter result" where
  "on_disk f w = and_then (f (bw_root w)) (\<lambda>disk. Inr (w\<lparr>bw_root := disk\<rparr>))"

text \<open>\<open>existing\<close> is what the bundle's path names before, if anything.\<close>

definition create_writer ::
    "verifier \<Rightarrow> node option \<Rightarrow> ustring jobject \<Rightarrow> ustring jobject \<Rightarrow> BundleWriter result" where
  "create_writer env existing bundle agent =
     (if existing \<noteq> None then Inl (RecorderError ''bundle directory already exists'')
      else
      and_then (validate_instance env ''agent_manifest'' (JObj agent)) (\<lambda>_.
      and_then (validate_instance env ''bundle_manifest'' (JObj bundle)) (\<lambda>_.
      and_then (canonical_bytes (JObj agent)) (\<lambda>agent_bytes.
      let agent_hash = sha256_prefixed agent_bytes in
      if uget bundle ''agent_manifest_sha256'' \<noteq> utext agent_hash
      then Inl (RecorderError ''manifest.agent_manifest_sha256 does not match'')
      else
      and_then (w_string (uget bundle ''run_id'')) (\<lambda>run_id.
      if \<not> run_id_ok run_id then Inl (RecorderError ''manifest.run_id is not a frozen run id'')
      else
      and_then (w_mapping (uget bundle ''pack'')) (\<lambda>pack.
      and_then (w_string (uget pack ''content_hash'')) (\<lambda>pack_hash.
      and_then (w_mapping (uget bundle ''run_config'')) (\<lambda>run_config.
      and_then (run_config_sha256 (JObj run_config)) (\<lambda>config_hash.
      and_then (atomic_new_file (top ''agent_manifest.json'') agent_bytes EMPTY_BUNDLE) (\<lambda>disk.
      and_then (canonical_bytes (JObj bundle)) (\<lambda>bundle_bytes.
      and_then (atomic_new_file (top ''manifest.json'') bundle_bytes disk) (\<lambda>disk.
      and_then (atomic_new_file (top ''events.jsonl'') [] disk) (\<lambda>disk.
      and_then (atomic_new_file (top ''chain.jsonl'') [] disk) (\<lambda>disk.
      and_then (chain_genesis ''events'' run_id pack_hash agent_hash config_hash) (\<lambda>event_genesis.
      and_then (chain_genesis ''decisions'' run_id pack_hash agent_hash config_hash) (\<lambda>decision_genesis.
      and_then (make_ChainBuilder ''events'' event_genesis) (\<lambda>event_chain.
      and_then (make_ChainBuilder ''decisions'' decision_genesis) (\<lambda>decision_chain.
      Inr \<lparr>bw_root = disk, bw_manifest = bundle, bw_agent_manifest = agent,
           bw_event_chain = event_chain, bw_decision_chain = decision_chain,
           bw_observations = [], bw_raw_refs = [], bw_last_event = None,
           bw_finalized = False\<rparr>))))))))))))))))))"

definition require_open :: "BundleWriter \<Rightarrow> unit result" where
  "require_open w =
     (if bw_finalized w then Inl (RecorderError ''bundle is already finalized'') else Inr ())"

definition write_observation :: "verifier \<Rightarrow> int \<Rightarrow> ustring jobject \<Rightarrow> BundleWriter \<Rightarrow> BundleWriter result" where
  "write_observation env turn document w =
     and_then (require_open w) (\<lambda>_.
     and_then (w_integer (JInt turn) 0) (\<lambda>turn_number.
     if turn_number \<in> set (bw_observations w)
     then Inl (RecorderError ''observation turn already written'')
     else
     and_then (validate_instance env ''observation'' (JObj document)) (\<lambda>_.
     and_then (canonical_bytes (JObj document)) (\<lambda>bs.
     and_then (on_disk (atomic_new_file
                 [ascii ''observations'', ascii (pad4_int turn_number @ ''.json'')] bs) w) (\<lambda>w.
     Inr (w\<lparr>bw_observations := bw_observations w @ [turn_number]\<rparr>))))))"

definition raw_ref_ok :: "ustring \<Rightarrow> bool" where
  "raw_ref_ok r \<longleftrightarrow> take 4 r = ascii ''raw/'' \<and> raw_name (drop 4 r) \<noteq> None"

definition write_raw :: "ustring \<Rightarrow> byte list \<Rightarrow> BundleWriter \<Rightarrow> BundleWriter result" where
  "write_raw relative_ref data w =
     and_then (require_open w) (\<lambda>_.
     if \<not> raw_ref_ok relative_ref then Inl (RecorderError ''invalid raw blob reference'')
     else if relative_ref \<in> set (bw_raw_refs w) then Inl (RecorderError ''raw blob already written'')
     else
     and_then (on_disk (atomic_new_file (path_parts relative_ref) data) w) (\<lambda>w.
     Inr (w\<lparr>bw_raw_refs := bw_raw_refs w @ [relative_ref]\<rparr>)))"

definition append_event :: "verifier \<Rightarrow> ustring jobject \<Rightarrow> BundleWriter \<Rightarrow> BundleWriter result" where
  "append_event env e w =
     and_then (require_open w) (\<lambda>_.
     and_then (validate_instance env ''event'' (JObj e)) (\<lambda>_.
     and_then (w_integer (uget e ''seq'') 0) (\<lambda>seq.
     if seq \<noteq> int (cb_count (bw_event_chain w)) then Inl (RecorderError ''event seq'')
     else
     and_then (canonical_bytes (JObj e)) (\<lambda>record_bytes.
     and_then (on_disk (append_fsync (top ''events.jsonl'') (record_bytes @ [10])) w) (\<lambda>w.
     and_then (chain_append (bw_event_chain w) record_bytes) (\<lambda>(event_chain, link).
     let w = w\<lparr>bw_event_chain := event_chain\<rparr> in
     and_then (canonical_bytes (JObj link)) (\<lambda>link_bytes.
     and_then (on_disk (append_fsync (top ''chain.jsonl'') (link_bytes @ [10])) w) (\<lambda>w.
     Inr (w\<lparr>bw_last_event := Some e\<rparr>)))))))))"

definition append_decision :: "verifier \<Rightarrow> ustring jobject \<Rightarrow> BundleWriter \<Rightarrow> BundleWriter result" where
  "append_decision env d w =
     and_then (require_open w) (\<lambda>_.
     and_then (w_integer (uget d ''turn'') 0) (\<lambda>turn.
     if turn \<noteq> int (cb_count (bw_decision_chain w)) then Inl (RecorderError ''decision turn'')
     else if uget d ''run_id'' \<noteq> uget (bw_manifest w) ''run_id''
     then Inl (RecorderError ''decision.run_id does not match manifest.run_id'')
     else
     and_then (validate_instance env ''decision_record'' (JObj d)) (\<lambda>_.
     and_then (canonical_bytes (JObj d)) (\<lambda>record_bytes.
     and_then (on_disk (atomic_new_file
                 [ascii ''decisions'', ascii (pad4_int turn @ ''.json'')] record_bytes) w) (\<lambda>w.
     and_then (chain_append (bw_decision_chain w) record_bytes) (\<lambda>(decision_chain, link).
     let w = w\<lparr>bw_decision_chain := decision_chain\<rparr> in
     and_then (canonical_bytes (JObj link)) (\<lambda>link_bytes.
     on_disk (append_fsync (top ''chain.jsonl'') (link_bytes @ [10])) w)))))))"

section \<open>Ledgers, metrics and the seal\<close>

definition check_written_row :: "verifier \<Rightarrow> string \<Rightarrow> ustring jobject \<Rightarrow> unit result" where
  "check_written_row env profile row =
     and_then (validate_instance env ''ledger_row'' (JObj row)) (\<lambda>_.
     if uget row ''profile'' \<noteq> utext profile then Inl (RecorderError ''ledger row has wrong profile'')
     else
     and_then (w_integer (uget row ''d_nav_micro'') (- (2 ^ 53 - 1))) (\<lambda>d_nav.
     and_then (traverse (\<lambda>field. w_integer (uget row field) (- (2 ^ 53 - 1)))
                 [''d_price_pnl_micro'', ''d_funding_micro'', ''d_fees_micro'', ''d_liq_penalty_micro''])
       (\<lambda>components.
     if d_nav \<noteq> sum_list components then Inl (RecorderError ''ledger row violates MATH-2'')
     else Inr ())))"

definition write_ledgers ::
    "verifier \<Rightarrow> ustring jobject list \<Rightarrow> ustring jobject list \<Rightarrow> BundleWriter \<Rightarrow> BundleWriter result" where
  "write_ledgers env primary stress_2x w =
     and_then (require_open w) (\<lambda>_.
     if length primary \<noteq> length stress_2x
     then Inl (RecorderError ''primary and stress ledgers have different lengths'')
     else
     and_then (traverse (check_written_row env ''primary'') primary) (\<lambda>_.
     and_then (traverse (check_written_row env ''stress_2x'') stress_2x) (\<lambda>_.
     and_then (canonical_jsonl primary) (\<lambda>primary_bytes.
     and_then (on_disk (atomic_new_file (top ''ledger.jsonl'') primary_bytes) w) (\<lambda>w.
     and_then (canonical_jsonl stress_2x) (\<lambda>stress_bytes.
     on_disk (atomic_new_file (top ''ledger_stress_2x.jsonl'') stress_bytes) w))))))"

definition write_metrics :: "verifier \<Rightarrow> ustring jobject \<Rightarrow> BundleWriter \<Rightarrow> BundleWriter result" where
  "write_metrics env document w =
     and_then (require_open w) (\<lambda>_.
     and_then (validate_instance env ''metrics'' (JObj document)) (\<lambda>_.
     if uget document ''run_id'' \<noteq> uget (bw_manifest w) ''run_id''
     then Inl (RecorderError ''metrics.run_id does not match manifest.run_id'')
     else
     and_then (canonical_line document) (\<lambda>bs.
     on_disk (atomic_new_file (top ''metrics.json'') bs) w)))"

definition REQUIRED_FILES :: "string list" where
  "REQUIRED_FILES = [''manifest.json'', ''agent_manifest.json'', ''ledger.jsonl'',
     ''ledger_stress_2x.jsonl'', ''metrics.json'', ''chain.jsonl'']"

definition seal_document :: "BundleWriter \<Rightarrow> (ustring \<times> ustring json) list \<Rightarrow> ustring jobject" where
  "seal_document w files =
     [(ascii ''schema'', utext ''chain/v1''), (ascii ''run_id'', uget (bw_manifest w) ''run_id''),
      (ascii ''streams'', JObj [(ascii ''events'', JObj (stream_head (bw_event_chain w))),
                                (ascii ''decisions'', JObj (stream_head (bw_decision_chain w)))]),
      (ascii ''files'', JObj files),
      (ascii ''blobs'', JObj
         [(ascii ''observations'', JObj [(ascii ''count'', JInt (int (length (bw_observations w))))]),
          (ascii ''raw'', JObj [(ascii ''count'', JInt (int (length (bw_raw_refs w))))])]),
      (ascii ''complete'', JBool True)]"

definition finalize :: "verifier \<Rightarrow> BundleWriter \<Rightarrow> (BundleWriter \<times> ustring jobject) result" where
  "finalize env w =
     and_then (require_open w) (\<lambda>_.
     case bw_last_event w of
       None \<Rightarrow> Inl (RecorderError ''cannot finalize without final EpisodeEnd'')
     | Some last_event \<Rightarrow>
     if uget last_event ''type'' \<noteq> utext ''EpisodeEnd''
     then Inl (RecorderError ''cannot finalize without final EpisodeEnd'')
     else if cb_count (bw_decision_chain w) \<noteq> length (bw_observations w)
     then Inl (RecorderError ''decision/observation count mismatch'')
     else if set (bw_observations w) \<noteq> int ` {0..<cb_count (bw_decision_chain w)}
     then Inl (RecorderError ''observation turns are not contiguous from zero'')
     else if \<not> list_all (\<lambda>name. is_file (bw_root w) (top name)) REQUIRED_FILES
     then Inl (RecorderError ''cannot finalize; missing required file(s)'')
     else
     and_then (w_mapping (uget last_event ''payload'')) (\<lambda>payload.
     and_then (read_bytes (bw_root w) (top ''metrics.json'')) (\<lambda>metrics_bytes.
     if uget payload ''metrics_sha256'' \<noteq> utext (sha256_prefixed metrics_bytes)
     then Inl (RecorderError ''EpisodeEnd.metrics_sha256 does not match metrics.json bytes'')
     else
     and_then (traverse (\<lambda>name. and_then (read_bytes (bw_root w) (top name))
                 (\<lambda>bs. Inr (ascii name, utext (sha256_prefixed bs)))) REQUIRED_FILES) (\<lambda>files.
     if \<not> dict_has (bw_manifest w) (ascii ''run_id'') then Inl (KeyError ''run_id'')
     else
     let unsealed = seal_document w files in
     and_then (seal_root unsealed) (\<lambda>seal_hash.
     let seal = unsealed @ [(ascii ''root'', utext seal_hash)] in
     and_then (validate_instance env ''chain'' (JObj seal)) (\<lambda>_.
     and_then (canonical_bytes (JObj seal)) (\<lambda>bs.
     and_then (on_disk (atomic_new_file (top ''chain.json'') bs) w) (\<lambda>w.
     Inr (w\<lparr>bw_finalized := True\<rparr>, seal)))))))))"

section \<open>Recording an episode\<close>

text \<open>The products of an episode, as documents.\<close>

record recording =
  rc_run_id :: ustring
  rc_episode_id :: ustring
  rc_observations :: "ustring jobject list"
  rc_raw_blobs :: "(ustring \<times> byte list) list"
  rc_events :: "ustring jobject list"
  rc_ledger_primary :: "ustring jobject list"
  rc_ledger_stress_2x :: "ustring jobject list"
  rc_metrics :: "ustring jobject"

definition write_blob :: "(ustring \<times> byte list) list \<Rightarrow> ustring \<Rightarrow> BundleWriter \<Rightarrow> BundleWriter result" where
  "write_blob blobs relative_ref w =
     (case map_of blobs relative_ref of
        None \<Rightarrow> Inl (KeyError ''raw_blobs'') | Some data \<Rightarrow> write_raw relative_ref data w)"

definition record_products :: "verifier \<Rightarrow> recording \<Rightarrow> BundleWriter \<Rightarrow> BundleWriter result" where
  "record_products env rc w =
     and_then (fold_result (\<lambda>(turn, document). write_observation env (int turn) document)
                 (zip [0..<length (rc_observations rc)] (rc_observations rc)) w) (\<lambda>w.
     and_then (fold_result (write_blob (rc_raw_blobs rc)) (sort (map fst (rc_raw_blobs rc))) w) (\<lambda>w.
     and_then (fold_result (append_event env) (rc_events rc) w) (\<lambda>w.
     and_then (generate_decision_records (rc_events rc) (rc_ledger_primary rc) (rc_run_id rc)) (\<lambda>decisions.
     and_then (fold_result (append_decision env) decisions w) (\<lambda>w.
     and_then (write_ledgers env (rc_ledger_primary rc) (rc_ledger_stress_2x rc) w) (\<lambda>w.
     write_metrics env (rc_metrics rc) w))))))"

definition record_episode_bundle ::
    "verifier \<Rightarrow> node option \<Rightarrow> recording \<Rightarrow> ustring jobject \<Rightarrow> ustring jobject
      \<Rightarrow> (BundleWriter \<times> ustring jobject) result" where
  "record_episode_bundle env existing rc manifest agent_manifest =
     (if uget manifest ''run_id'' \<noteq> JStr (rc_run_id rc)
      then Inl (RecorderError ''manifest.run_id does not match EpisodeResult.run_id'')
      else if uget manifest ''episode_id'' \<noteq> JStr (rc_episode_id rc)
      then Inl (RecorderError ''manifest.episode_id does not match EpisodeResult.episode_id'')
      else
      and_then (create_writer env existing manifest agent_manifest) (\<lambda>w.
      and_then (record_products env rc w) (finalize env)))"

end
