(* ===== verification/Writer_Steps.thy ===== *)
theory Writer_Steps
  imports Writer Recorded_Bundle
begin

text \<open>
  What each method of the bundle writer does to the store its tree implements. A method that
  returns has added exactly the file or the lines it is for, and changed nothing else of the
  writer.
\<close>

section \<open>The durable primitives\<close>

lemma empty_bundle_implements: "implements EMPTY_BUNDLE Map.empty"
  by (auto simp: implements_def EMPTY_BUNDLE_def DIRECTORIES_def plain_files_def)

lemma atomic_new_file_store:
  assumes "atomic_new_file ps bs disk = Inr disk'" "implements disk F" "file_path ps"
  shows "implements disk' (F(ps \<mapsto> bs))" "F ps = None"
  using assms implements_put[OF assms(2,3)] implements_reads(2)[OF assms(2,3)]
  by (auto simp: atomic_new_file_def split: if_splits)

lemma append_fsync_store:
  assumes "append_fsync ps bs disk = Inr disk'" "implements disk F" "file_path ps" "F ps = Some old"
  shows "implements disk' (F(ps \<mapsto> old @ bs))"
  using assms implements_put[OF assms(2,3)] implements_reads(1)[OF assms(2,3)]
  by (auto simp: append_fsync_def split: if_splits)

lemma on_disk_eq_Inr:
  "on_disk f w = Inr w' \<longleftrightarrow> (\<exists>disk. f (bw_root w) = Inr disk \<and> w' = w\<lparr>bw_root := disk\<rparr>)"
  by (auto simp: on_disk_def and_then_eq_Inr)

lemma numbered_path_int: "ascii (pad4_int (int n) @ ''.json'') = numbered_name n"
  by (simp add: pad4_int_def numbered_name_def)

lemma numbered_file_path:
  "file_path [ascii ''observations'', n]" "file_path [ascii ''decisions'', n]" "file_path [ascii ''raw'', n]"
  by (simp_all add: store_paths(3) DIRECTORIES_def)

abbreviation canonical :: "ustring jobject \<Rightarrow> byte list \<Rightarrow> bool" where
  "canonical d bs \<equiv> canonical_bytes (JObj d) = Inr bs"

lemma validate_instance_eq_Inr:
  "validate_instance env n v = Inr u \<longleftrightarrow> vf_schema env n v \<and> (\<exists>bs. canonical_bytes v = Inr bs)"
proof (cases "canonical_bytes v")
  case (Inl e)
  then show ?thesis by (cases e) (simp_all add: validate_instance_def)
next
  case (Inr bs)
  then show ?thesis by (simp add: validate_instance_def)
qed

section \<open>Observations and raw blobs\<close>

lemma write_observation_step:
  assumes "write_observation env (int n) d w = Inr w'" "implements (bw_root w) F"
  obtains bs disk where "canonical d bs" "vf_schema env ''observation'' (JObj d)"
    "implements disk (F([ascii ''observations'', numbered_name n] \<mapsto> bs))"
    "w' = w\<lparr>bw_root := disk, bw_observations := bw_observations w @ [int n]\<rparr>"
proof -
  from assms(1) obtain bs disk where "canonical d bs" "vf_schema env ''observation'' (JObj d)"
    "atomic_new_file [ascii ''observations'', numbered_name n] bs (bw_root w) = Inr disk"
    "w' = w\<lparr>bw_root := disk, bw_observations := bw_observations w @ [int n]\<rparr>"
    by (auto simp: write_observation_def and_then_eq_Inr validate_instance_eq_Inr on_disk_eq_Inr
        numbered_path_int w_integer_def split: if_splits)
  with atomic_new_file_store(1)[OF _ assms(2) numbered_file_path(1)] that show thesis by blast
qed

lemma observations_written:
  assumes "fold_result (\<lambda>(turn, document). write_observation env (int turn) document)
      (zip [k..<k + length ds] ds) w = Inr w'"
    and "implements (bw_root w) F" "bw_observations w = map int [0..<k]"
  obtains bss disk where "list_all2 canonical ds bss" "\<forall>d \<in> set ds. vf_schema env ''observation'' (JObj d)"
    "implements disk (map_upds F (map (\<lambda>i. [ascii ''observations'', numbered_name i]) [k..<k + length ds]) bss)"
    "w' = w\<lparr>bw_root := disk, bw_observations := map int [0..<k + length ds]\<rparr>"
  using assms
proof (induction ds arbitrary: k w F thesis)
  case Nil
  then show ?case by (auto intro!: Nil.prems(1)[of "[]" "bw_root w"])
next
  case (Cons d ds)
  have up: "[k..<k + length (d # ds)] = k # [Suc k..<Suc k + length ds]"
    by (subst upt_conv_Cons) simp_all
  from Cons.prems(2) obtain v where v: "write_observation env (int k) d w = Inr v"
    and rest: "fold_result (\<lambda>(turn, document). write_observation env (int turn) document)
      (zip [Suc k..<Suc k + length ds] ds) v = Inr w'"
    unfolding up by (auto simp: and_then_eq_Inr simp del: upt_Suc)
  from v Cons.prems(3) obtain bs disk where o: "canonical d bs" "vf_schema env ''observation'' (JObj d)"
    "implements disk (F([ascii ''observations'', numbered_name k] \<mapsto> bs))"
    "v = w\<lparr>bw_root := disk, bw_observations := bw_observations w @ [int k]\<rparr>"
    by (rule write_observation_step)
  have i: "implements (bw_root v) (F([ascii ''observations'', numbered_name k] \<mapsto> bs))"
    "bw_observations v = map int [0..<Suc k]" using o(3,4) Cons.prems(4) by simp_all
  obtain bss disk' where r: "list_all2 canonical ds bss" "\<forall>d \<in> set ds. vf_schema env ''observation'' (JObj d)"
    "implements disk' (map_upds (F([ascii ''observations'', numbered_name k] \<mapsto> bs))
       (map (\<lambda>i. [ascii ''observations'', numbered_name i]) [Suc k..<Suc k + length ds]) bss)"
    "w' = v\<lparr>bw_root := disk', bw_observations := map int [0..<Suc k + length ds]\<rparr>"
    by (rule Cons.IH[OF _ rest i])
  show ?case
    by (rule Cons.prems(1)[of "bs # bss" disk']) (use r o up in \<open>simp_all del: upt_Suc\<close>)
qed
lemma write_raw_step:
  assumes "write_blob blobs ref w = Inr w'" "implements (bw_root w) F"
  obtains data name disk where "map_of blobs ref = Some data" "ref = raw_path name" "raw_name name \<noteq> None"
    "ref \<notin> set (bw_raw_refs w)" "implements disk (F([ascii ''raw'', name] \<mapsto> data))"
    "w' = w\<lparr>bw_root := disk, bw_raw_refs := bw_raw_refs w @ [ref]\<rparr>"
proof -
  from assms(1) obtain data disk where d: "map_of blobs ref = Some data" "raw_ref_ok ref"
    "ref \<notin> set (bw_raw_refs w)" "atomic_new_file (path_parts ref) data (bw_root w) = Inr disk"
    "w' = w\<lparr>bw_root := disk, bw_raw_refs := bw_raw_refs w @ [ref]\<rparr>"
    by (auto simp: write_blob_def write_raw_def and_then_eq_Inr on_disk_eq_Inr split: option.splits if_splits)
  let ?n = "drop 4 ref"
  have r: "ref = raw_path ?n" "raw_name ?n \<noteq> None"
    using d(2) append_take_drop_id[of 4 ref] by (auto simp: raw_ref_ok_def raw_path_def)
  have "relative_path ref [ascii ''raw'', ?n]"
    by (subst r(1), unfold raw_path_def, rule store_paths(2))
       (use raw_name_plain[OF r(2)] in \<open>simp_all add: DIRECTORIES_def\<close>)
  then have "path_parts ref = [ascii ''raw'', ?n]" by (simp add: relative_path_def)
  with atomic_new_file_store(1)[OF _ assms(2) numbered_file_path(3)] d(4)
  have "implements disk (F([ascii ''raw'', ?n] \<mapsto> data))" by simp
  with d r that show thesis by blast
qed

lemma raw_path_inject [simp]: "raw_path m = raw_path n \<longleftrightarrow> m = n"
  by (simp add: raw_path_def)

text \<open>The blobs that were written, by the file's name.\<close>

definition blobs_by_name :: "(ustring \<times> byte list) list \<Rightarrow> ustring list \<Rightarrow> (ustring \<times> byte list) list" where
  "blobs_by_name blobs refs = map (\<lambda>ref. (drop 4 ref, case map_of blobs ref of Some data \<Rightarrow> data | None \<Rightarrow> [])) refs"

lemma raw_path_drop [simp]: "drop 4 (raw_path n) = n"
  by (simp add: raw_path_def ascii_simps)

lemma raws_written:
  assumes "fold_result (write_blob blobs) refs w = Inr w'" "implements (bw_root w) F"
  obtains disk where "\<forall>ref \<in> set refs. \<exists>name data. ref = raw_path name \<and> raw_name name \<noteq> None \<and>
      map_of blobs ref = Some data"
    "distinct refs" "set refs \<inter> set (bw_raw_refs w) = {}"
    "implements disk (map_upds F (map (\<lambda>(name, _). [ascii ''raw'', name]) (blobs_by_name blobs refs))
       (map snd (blobs_by_name blobs refs)))"
    "w' = w\<lparr>bw_root := disk, bw_raw_refs := bw_raw_refs w @ refs\<rparr>"
  using assms
proof (induction refs arbitrary: w F thesis)
  case Nil
  then show ?case by (auto simp: blobs_by_name_def intro!: Nil.prems(1)[of "bw_root w"])
next
  case (Cons ref refs)
  from Cons.prems(2) obtain v where v: "write_blob blobs ref w = Inr v"
    and rest: "fold_result (write_blob blobs) refs v = Inr w'" by (auto simp: and_then_eq_Inr)
  from v Cons.prems(3) obtain data name disk where o: "map_of blobs ref = Some data" "ref = raw_path name"
    "raw_name name \<noteq> None" "ref \<notin> set (bw_raw_refs w)" "implements disk (F([ascii ''raw'', name] \<mapsto> data))"
    "v = w\<lparr>bw_root := disk, bw_raw_refs := bw_raw_refs w @ [ref]\<rparr>"
    by (rule write_raw_step)
  have i: "implements (bw_root v) (F([ascii ''raw'', name] \<mapsto> data))" using o(5,6) by simp
  obtain disk' where r: "\<forall>ref \<in> set refs. \<exists>name data. ref = raw_path name \<and> raw_name name \<noteq> None \<and>
      map_of blobs ref = Some data"
    "distinct refs" "set refs \<inter> set (bw_raw_refs v) = {}"
    "implements disk' (map_upds (F([ascii ''raw'', name] \<mapsto> data))
       (map (\<lambda>(name, _). [ascii ''raw'', name]) (blobs_by_name blobs refs)) (map snd (blobs_by_name blobs refs)))"
    "w' = v\<lparr>bw_root := disk', bw_raw_refs := bw_raw_refs v @ refs\<rparr>"
    by (rule Cons.IH[OF _ rest i])
  show ?case
  proof (rule Cons.prems(1))
    show "\<forall>ref' \<in> set (ref # refs). \<exists>name data. ref' = raw_path name \<and> raw_name name \<noteq> None \<and>
        map_of blobs ref' = Some data" using r(1) o by auto
    show "distinct (ref # refs)" "set (ref # refs) \<inter> set (bw_raw_refs w) = {}" using r(2,3) o(4,6) by auto
    show "implements disk' (map_upds F (map (\<lambda>(name, _). [ascii ''raw'', name]) (blobs_by_name blobs (ref # refs)))
        (map snd (blobs_by_name blobs (ref # refs))))"
      using r(4) o(1,2) by (simp add: blobs_by_name_def)
    show "w' = w\<lparr>bw_root := disk', bw_raw_refs := bw_raw_refs w @ (ref # refs)\<rparr>" using r(5) o(6) by simp
  qed
qed
section \<open>Events and decisions\<close>

lemma stream_file_paths: "file_path (top ''events.jsonl'')" "file_path (top ''chain.jsonl'')"
  by (simp_all add: top_paths(2) BUNDLE_FILES_def)

lemma append_event_step:
  assumes "append_event env e w = Inr w'" "implements (bw_root w) F"
    and "F (top ''events.jsonl'') = Some es" "F (top ''chain.jsonl'') = Some ls"
  obtains bs cb l lb disk where "canonical e bs" "vf_schema env ''event'' (JObj e)"
    "uget e ''seq'' = JInt (int (cb_count (bw_event_chain w)))"
    "chain_append (bw_event_chain w) bs = Inr (cb, l)" "canonical l lb"
    "implements disk (F(top ''events.jsonl'' \<mapsto> es @ bs @ [10], top ''chain.jsonl'' \<mapsto> ls @ lb @ [10]))"
    "w' = w\<lparr>bw_root := disk, bw_event_chain := cb, bw_last_event := Some e\<rparr>"
proof -
  from assms(1) obtain bs cb l lb disk disk' where s: "canonical e bs" "vf_schema env ''event'' (JObj e)"
    "uget e ''seq'' = JInt (int (cb_count (bw_event_chain w)))"
    "append_fsync (top ''events.jsonl'') (bs @ [10]) (bw_root w) = Inr disk"
    "chain_append (bw_event_chain w) bs = Inr (cb, l)" "canonical l lb"
    "append_fsync (top ''chain.jsonl'') (lb @ [10]) disk = Inr disk'"
    "w' = w\<lparr>bw_root := disk', bw_event_chain := cb, bw_last_event := Some e\<rparr>"
    by (auto simp: append_event_def and_then_eq_Inr validate_instance_eq_Inr on_disk_eq_Inr w_integer_def Let_def
        split: if_splits json.splits)
  have i: "implements disk (F(top ''events.jsonl'' \<mapsto> es @ bs @ [10]))"
    by (rule append_fsync_store[OF s(4) assms(2) stream_file_paths(1) assms(3)])
  have "implements disk' ((F(top ''events.jsonl'' \<mapsto> es @ bs @ [10]))(top ''chain.jsonl'' \<mapsto> ls @ lb @ [10]))"
    by (rule append_fsync_store[OF s(7) i stream_file_paths(2)]) (simp add: assms(4))
  with s that show thesis by blast
qed

lemma events_written:
  assumes "fold_result (append_event env) evs w = Inr w'" "implements (bw_root w) F"
    and "F (top ''events.jsonl'') = Some es" "F (top ''chain.jsonl'') = Some ls"
  obtains bss cb links lbs disk where "list_all2 canonical evs bss"
    "\<forall>e \<in> set evs. vf_schema env ''event'' (JObj e)"
    "\<forall>i < length evs. uget (evs ! i) ''seq'' = JInt (int (cb_count (bw_event_chain w) + i))"
    "chain_append_all (bw_event_chain w) bss = Inr (cb, links)" "list_all2 canonical links lbs"
    "implements disk (F(top ''events.jsonl'' \<mapsto> es @ lines_of bss, top ''chain.jsonl'' \<mapsto> ls @ lines_of lbs))"
    "w' = w\<lparr>bw_root := disk, bw_event_chain := cb,
       bw_last_event := if evs = [] then bw_last_event w else Some (last evs)\<rparr>"
  using assms
proof (induction evs arbitrary: w F es ls thesis)
  case Nil
  have "F(top ''events.jsonl'' \<mapsto> es, top ''chain.jsonl'' \<mapsto> ls) = F"
    using Nil.prems(4,5) by (simp add: fun_upd_idem)
  then have "implements (bw_root w) (F(top ''events.jsonl'' \<mapsto> es, top ''chain.jsonl'' \<mapsto> ls))"
    using Nil.prems(3) by (simp only:)
  with Nil.prems(2) show ?case
    by (intro Nil.prems(1)[of "[]" "bw_event_chain w" "[]" "[]" "bw_root w"]) (simp_all del: fun_upd_apply)
next
  case (Cons e evs)
  from Cons.prems(2) obtain v where v: "append_event env e w = Inr v"
    and rest: "fold_result (append_event env) evs v = Inr w'" by (auto simp: and_then_eq_Inr)
  from v Cons.prems(3-5) obtain bs cb l lb disk where o: "canonical e bs" "vf_schema env ''event'' (JObj e)"
    "uget e ''seq'' = JInt (int (cb_count (bw_event_chain w)))"
    "chain_append (bw_event_chain w) bs = Inr (cb, l)" "canonical l lb"
    "implements disk (F(top ''events.jsonl'' \<mapsto> es @ bs @ [10], top ''chain.jsonl'' \<mapsto> ls @ lb @ [10]))"
    "v = w\<lparr>bw_root := disk, bw_event_chain := cb, bw_last_event := Some e\<rparr>"
    by (rule append_event_step)
  let ?F = "F(top ''events.jsonl'' \<mapsto> es @ bs @ [10], top ''chain.jsonl'' \<mapsto> ls @ lb @ [10])"
  have i: "implements (bw_root v) ?F" "?F (top ''events.jsonl'') = Some (es @ bs @ [10])"
    "?F (top ''chain.jsonl'') = Some (ls @ lb @ [10])" using o(6,7) by simp_all
  obtain bss cb' links lbs disk' where r: "list_all2 canonical evs bss"
    "\<forall>e \<in> set evs. vf_schema env ''event'' (JObj e)"
    "\<forall>i < length evs. uget (evs ! i) ''seq'' = JInt (int (cb_count (bw_event_chain v) + i))"
    "chain_append_all (bw_event_chain v) bss = Inr (cb', links)" "list_all2 canonical links lbs"
    "implements disk' (?F(top ''events.jsonl'' \<mapsto> (es @ bs @ [10]) @ lines_of bss,
       top ''chain.jsonl'' \<mapsto> (ls @ lb @ [10]) @ lines_of lbs))"
    "w' = v\<lparr>bw_root := disk', bw_event_chain := cb',
       bw_last_event := if evs = [] then bw_last_event v else Some (last evs)\<rparr>"
    by (rule Cons.IH[OF _ rest i])
  have cc: "cb_count cb = cb_count (bw_event_chain w) + 1"
    using o(4) by (auto simp: chain_append_def Let_def and_then_eq_Inr)
  show ?case
  proof (rule Cons.prems(1))
    show "list_all2 canonical (e # evs) (bs # bss)" "\<forall>e' \<in> set (e # evs). vf_schema env ''event'' (JObj e')"
      using o(1,2) r(1,2) by simp_all
    show "\<forall>i < length (e # evs). uget ((e # evs) ! i) ''seq'' = JInt (int (cb_count (bw_event_chain w) + i))"
      using o(3,7) r(3) cc by (auto simp: nth_Cons split: nat.splits)
    show "chain_append_all (bw_event_chain w) (bs # bss) = Inr (cb', l # links)" "list_all2 canonical (l # links) (lb # lbs)"
      using o r by simp_all
    show "implements disk' (F(top ''events.jsonl'' \<mapsto> es @ lines_of (bs # bss), top ''chain.jsonl'' \<mapsto> ls @ lines_of (lb # lbs)))"
      using r(6) by (simp add: fun_upd_twist[of "top ''chain.jsonl''" "top ''events.jsonl''"])
    show "w' = w\<lparr>bw_root := disk', bw_event_chain := cb',
       bw_last_event := if e # evs = [] then bw_last_event w else Some (last (e # evs))\<rparr>"
      using r(7) o(7) by simp
  qed
qed

lemma append_decision_step:
  assumes "append_decision env d w = Inr w'" "implements (bw_root w) F" "F (top ''chain.jsonl'') = Some ls"
  obtains bs cb l lb disk where "canonical d bs" "vf_schema env ''decision_record'' (JObj d)"
    "uget d ''turn'' = JInt (int (cb_count (bw_decision_chain w)))"
    "chain_append (bw_decision_chain w) bs = Inr (cb, l)" "canonical l lb"
    "implements disk (F([ascii ''decisions'', numbered_name (cb_count (bw_decision_chain w))] \<mapsto> bs,
       top ''chain.jsonl'' \<mapsto> ls @ lb @ [10]))"
    "w' = w\<lparr>bw_root := disk, bw_decision_chain := cb\<rparr>"
proof -
  let ?p = "[ascii ''decisions'', numbered_name (cb_count (bw_decision_chain w))]"
  from assms(1) obtain bs cb l lb disk disk' where s: "canonical d bs" "vf_schema env ''decision_record'' (JObj d)"
    "uget d ''turn'' = JInt (int (cb_count (bw_decision_chain w)))"
    "atomic_new_file ?p bs (bw_root w) = Inr disk"
    "chain_append (bw_decision_chain w) bs = Inr (cb, l)" "canonical l lb"
    "append_fsync (top ''chain.jsonl'') (lb @ [10]) disk = Inr disk'"
    "w' = w\<lparr>bw_root := disk', bw_decision_chain := cb\<rparr>"
    by (auto simp: append_decision_def and_then_eq_Inr validate_instance_eq_Inr on_disk_eq_Inr w_integer_def Let_def
        numbered_path_int split: if_splits json.splits)
  have i: "implements disk (F(?p \<mapsto> bs))"
    by (rule atomic_new_file_store(1)[OF s(4) assms(2) numbered_file_path(2)])
  have "implements disk' ((F(?p \<mapsto> bs))(top ''chain.jsonl'' \<mapsto> ls @ lb @ [10]))"
    by (rule append_fsync_store[OF s(7) i stream_file_paths(2)]) (simp add: assms(3))
  with s that show thesis by blast
qed

lemma decisions_written:
  assumes "fold_result (append_decision env) ds w = Inr w'" "implements (bw_root w) F"
    and "F (top ''chain.jsonl'') = Some ls" "cb_count (bw_decision_chain w) = k"
  obtains bss cb links lbs disk where "list_all2 canonical ds bss"
    "\<forall>d \<in> set ds. vf_schema env ''decision_record'' (JObj d)"
    "\<forall>i < length ds. uget (ds ! i) ''turn'' = JInt (int (k + i))"
    "chain_append_all (bw_decision_chain w) bss = Inr (cb, links)" "list_all2 canonical links lbs"
    "implements disk ((map_upds F (map (\<lambda>i. [ascii ''decisions'', numbered_name i]) [k..<k + length ds]) bss)
       (top ''chain.jsonl'' \<mapsto> ls @ lines_of lbs))"
    "w' = w\<lparr>bw_root := disk, bw_decision_chain := cb\<rparr>"
  using assms
proof (induction ds arbitrary: w F ls k thesis)
  case Nil
  have "F(top ''chain.jsonl'' \<mapsto> ls) = F" using Nil.prems(4) by (simp add: fun_upd_idem)
  with Nil.prems(2,3) show ?case
    by (intro Nil.prems(1)[of "[]" "bw_decision_chain w" "[]" "[]" "bw_root w"]) simp_all
next
  case (Cons d ds)
  have up: "[k..<k + length (d # ds)] = k # [Suc k..<Suc k + length ds]"
    by (subst upt_conv_Cons) simp_all
  from Cons.prems(2) obtain v where v: "append_decision env d w = Inr v"
    and rest: "fold_result (append_decision env) ds v = Inr w'" by (auto simp: and_then_eq_Inr)
  let ?p = "[ascii ''decisions'', numbered_name k]"
  from append_decision_step[OF v Cons.prems(3,4)] Cons.prems(5) obtain bs cb l lb disk where
    o: "canonical d bs" "vf_schema env ''decision_record'' (JObj d)" "uget d ''turn'' = JInt (int k)"
    "chain_append (bw_decision_chain w) bs = Inr (cb, l)" "canonical l lb"
    "implements disk (F(?p \<mapsto> bs, top ''chain.jsonl'' \<mapsto> ls @ lb @ [10]))"
    "v = w\<lparr>bw_root := disk, bw_decision_chain := cb\<rparr>" by metis
  let ?F = "F(?p \<mapsto> bs, top ''chain.jsonl'' \<mapsto> ls @ lb @ [10])"
  have cc: "cb_count cb = Suc k"
    using o(4) Cons.prems(5) by (auto simp: chain_append_def Let_def and_then_eq_Inr)
  have i: "implements (bw_root v) ?F" "?F (top ''chain.jsonl'') = Some (ls @ lb @ [10])"
    "cb_count (bw_decision_chain v) = Suc k" using o(6,7) cc by simp_all
  let ?ps = "map (\<lambda>i. [ascii ''decisions'', numbered_name i]) [Suc k..<Suc k + length ds]"
  obtain bss cb' links lbs disk' where r: "list_all2 canonical ds bss"
    "\<forall>d \<in> set ds. vf_schema env ''decision_record'' (JObj d)"
    "\<forall>i < length ds. uget (ds ! i) ''turn'' = JInt (int (Suc k + i))"
    "chain_append_all (bw_decision_chain v) bss = Inr (cb', links)" "list_all2 canonical links lbs"
    "implements disk' ((map_upds ?F ?ps bss)(top ''chain.jsonl'' \<mapsto> (ls @ lb @ [10]) @ lines_of lbs))"
    "w' = v\<lparr>bw_root := disk', bw_decision_chain := cb'\<rparr>"
    by (rule Cons.IH[OF _ rest i])
  have np: "top ''chain.jsonl'' \<notin> set ?ps" by auto
  show ?case
  proof (rule Cons.prems(1))
    show "list_all2 canonical (d # ds) (bs # bss)" "\<forall>d' \<in> set (d # ds). vf_schema env ''decision_record'' (JObj d')"
      using o(1,2) r(1,2) by simp_all
    show "\<forall>i < length (d # ds). uget ((d # ds) ! i) ''turn'' = JInt (int (k + i))"
      using o(3) r(3) by (auto simp: nth_Cons split: nat.splits)
    show "chain_append_all (bw_decision_chain w) (bs # bss) = Inr (cb', l # links)" "list_all2 canonical (l # links) (lb # lbs)"
      using o r by simp_all
    show "implements disk' ((map_upds F (map (\<lambda>i. [ascii ''decisions'', numbered_name i]) [k..<k + length (d # ds)]) (bs # bss))
       (top ''chain.jsonl'' \<mapsto> ls @ lines_of (lb # lbs)))"
      using r(6) np unfolding up by (simp del: upt_Suc)
    show "w' = w\<lparr>bw_root := disk', bw_decision_chain := cb'\<rparr>" using r(7) o(7) by simp
  qed
qed
section \<open>Creating, the ledgers, the metrics and the seal\<close>

lemma w_eq_Inr [simp]:
  "w_mapping v = Inr m \<longleftrightarrow> v = JObj m" "w_string v = Inr s \<longleftrightarrow> v = JStr s"
  "w_integer v n = Inr i \<longleftrightarrow> v = JInt i \<and> n \<le> i"
  by (auto simp: w_mapping_def w_string_def w_integer_def split: json.splits if_splits)

lemma created:
  assumes "create_writer env existing manifest agent = Inr w"
  obtains ab mb run_id pack pack_hash run_config config_hash eg dg ecb dcb disk where
    "canonical agent ab" "canonical manifest mb" "valid env ''agent_manifest'' agent"
    "valid env ''bundle_manifest'' manifest"
    "uget manifest ''agent_manifest_sha256'' = utext (sha256_prefixed ab)"
    "uget manifest ''run_id'' = JStr run_id" "uget manifest ''pack'' = JObj pack"
    "uget pack ''content_hash'' = JStr pack_hash" "uget manifest ''run_config'' = JObj run_config"
    "run_config_sha256 (JObj run_config) = Inr config_hash"
    "chain_genesis ''events'' run_id pack_hash (sha256_prefixed ab) config_hash = Inr eg"
    "chain_genesis ''decisions'' run_id pack_hash (sha256_prefixed ab) config_hash = Inr dg"
    "make_ChainBuilder ''events'' eg = Inr ecb" "make_ChainBuilder ''decisions'' dg = Inr dcb"
    "implements disk (Map.empty(top ''agent_manifest.json'' \<mapsto> ab, top ''manifest.json'' \<mapsto> mb,
       top ''events.jsonl'' \<mapsto> [], top ''chain.jsonl'' \<mapsto> []))"
    "w = \<lparr>bw_root = disk, bw_manifest = manifest, bw_agent_manifest = agent, bw_event_chain = ecb,
       bw_decision_chain = dcb, bw_observations = [], bw_raw_refs = [], bw_last_event = None, bw_finalized = False\<rparr>"
proof -
  from assms obtain ab mb run_id pack pack_hash run_config config_hash eg dg ecb dcb d1 d2 d3 d4 where
    c: "canonical agent ab" "canonical manifest mb" "valid env ''agent_manifest'' agent"
    "valid env ''bundle_manifest'' manifest"
    "uget manifest ''agent_manifest_sha256'' = utext (sha256_prefixed ab)"
    "uget manifest ''run_id'' = JStr run_id" "uget manifest ''pack'' = JObj pack"
    "uget pack ''content_hash'' = JStr pack_hash" "uget manifest ''run_config'' = JObj run_config"
    "run_config_sha256 (JObj run_config) = Inr config_hash"
    "chain_genesis ''events'' run_id pack_hash (sha256_prefixed ab) config_hash = Inr eg"
    "chain_genesis ''decisions'' run_id pack_hash (sha256_prefixed ab) config_hash = Inr dg"
    "make_ChainBuilder ''events'' eg = Inr ecb" "make_ChainBuilder ''decisions'' dg = Inr dcb"
    and d: "atomic_new_file (top ''agent_manifest.json'') ab EMPTY_BUNDLE = Inr d1"
    "atomic_new_file (top ''manifest.json'') mb d1 = Inr d2"
    "atomic_new_file (top ''events.jsonl'') [] d2 = Inr d3" "atomic_new_file (top ''chain.jsonl'') [] d3 = Inr d4"
    and w: "w = \<lparr>bw_root = d4, bw_manifest = manifest, bw_agent_manifest = agent, bw_event_chain = ecb,
       bw_decision_chain = dcb, bw_observations = [], bw_raw_refs = [], bw_last_event = None, bw_finalized = False\<rparr>"
    by (auto simp: create_writer_def and_then_eq_Inr validate_instance_eq_Inr valid_def Let_def split: if_splits)
  have p: "file_path (top n)" if "n \<in> set BUNDLE_FILES" for n using top_paths(2)[OF that] .
  have pp: "file_path (top ''agent_manifest.json'')" "file_path (top ''manifest.json'')"
    by (rule p, simp add: BUNDLE_FILES_def)+
  note i1 = atomic_new_file_store(1)[OF d(1) empty_bundle_implements pp(1)]
  note i2 = atomic_new_file_store(1)[OF d(2) i1 pp(2)]
  note i3 = atomic_new_file_store(1)[OF d(3) i2 stream_file_paths(1)]
  note i4 = atomic_new_file_store(1)[OF d(4) i3 stream_file_paths(2)]
  show thesis by (rule that[OF c i4 w])
qed

lemma canonical_line_eq_Inr: "canonical_line row = Inr l \<longleftrightarrow> (\<exists>b. canonical row b \<and> l = b @ [10])"
  by (auto simp: canonical_line_def and_then_eq_Inr)

lemma canonical_jsonl_lines:
  "canonical_jsonl rows = Inr bs \<Longrightarrow> \<exists>bss. list_all2 canonical rows bss \<and> bs = lines_of bss"
proof -
  assume "canonical_jsonl rows = Inr bs"
  then obtain ls where "traverse canonical_line rows = Inr ls" "bs = concat ls"
    by (auto simp: canonical_jsonl_def and_then_eq_Inr)
  then show ?thesis
  proof (induction rows arbitrary: ls bs)
    case Nil
    then show ?case by simp
  next
    case (Cons row rows)
    then obtain b ls' where "canonical row b" "traverse canonical_line rows = Inr ls'" "ls = (b @ [10]) # ls'"
      by (auto simp: and_then_eq_Inr canonical_line_eq_Inr)
    with Cons.IH[of ls'] Cons.prems(2) show ?case by (auto intro: exI[of _ "b # _"])
  qed
qed

lemma written_row_balanced:
  "check_written_row env profile row = Inr u \<Longrightarrow> valid env ''ledger_row'' row \<and> balanced_row profile row"
  by (auto simp: check_written_row_def and_then_eq_Inr validate_instance_eq_Inr valid_def balanced_row_def
      split: if_splits)

lemma ledgers_written:
  assumes "write_ledgers env primary stress w = Inr w'" "implements (bw_root w) F"
  obtains pbs sbs disk where "list_all2 canonical primary pbs" "list_all2 canonical stress sbs"
    "length primary = length stress" "list_all (valid env ''ledger_row'') (primary @ stress)"
    "list_all (balanced_row ''primary'') primary" "list_all (balanced_row ''stress_2x'') stress"
    "implements disk (F(top ''ledger.jsonl'' \<mapsto> lines_of pbs, top ''ledger_stress_2x.jsonl'' \<mapsto> lines_of sbs))"
    "w' = w\<lparr>bw_root := disk\<rparr>"
proof -
  from assms(1) obtain us vs pb sb d1 d2 where c: "length primary = length stress"
    "traverse (check_written_row env ''primary'') primary = Inr us"
    "traverse (check_written_row env ''stress_2x'') stress = Inr vs"
    "canonical_jsonl primary = Inr pb" "canonical_jsonl stress = Inr sb"
    "atomic_new_file (top ''ledger.jsonl'') pb (bw_root w) = Inr d1"
    "atomic_new_file (top ''ledger_stress_2x.jsonl'') sb d1 = Inr d2" "w' = w\<lparr>bw_root := d2\<rparr>"
    by (auto simp: write_ledgers_def and_then_eq_Inr on_disk_eq_Inr split: if_splits)
  have rows: "list_all (\<lambda>r. valid env ''ledger_row'' r \<and> balanced_row p r) rs"
    if "traverse (check_written_row env p) rs = Inr us" for p rs us
    using traverse_unit[OF that] written_row_balanced by (auto simp: list_all_iff)
  obtain pbs sbs where b: "list_all2 canonical primary pbs" "pb = lines_of pbs"
    "list_all2 canonical stress sbs" "sb = lines_of sbs"
    using canonical_jsonl_lines[OF c(4)] canonical_jsonl_lines[OF c(5)] by blast
  have pp: "file_path (top ''ledger.jsonl'')" "file_path (top ''ledger_stress_2x.jsonl'')"
    by (rule top_paths(2), simp add: BUNDLE_FILES_def)+
  note i1 = atomic_new_file_store(1)[OF c(6) assms(2) pp(1)]
  note i2 = atomic_new_file_store(1)[OF c(7) i1 pp(2)]
  show thesis
    by (rule that[OF b(1,3) c(1) _ _ _ i2[unfolded b] c(8)])
       (use rows[OF c(2)] rows[OF c(3)] in \<open>auto simp: list_all_iff\<close>)
qed

lemma metrics_written:
  assumes "write_metrics env d w = Inr w'" "implements (bw_root w) F"
  obtains bs disk where "canonical d bs" "valid env ''metrics'' d" "uget d ''run_id'' = uget (bw_manifest w) ''run_id''"
    "implements disk (F(top ''metrics.json'' \<mapsto> bs @ [10]))" "w' = w\<lparr>bw_root := disk\<rparr>"
proof -
  from assms(1) obtain bs disk where c: "canonical d bs" "valid env ''metrics'' d"
    "uget d ''run_id'' = uget (bw_manifest w) ''run_id''"
    "atomic_new_file (top ''metrics.json'') (bs @ [10]) (bw_root w) = Inr disk" "w' = w\<lparr>bw_root := disk\<rparr>"
    by (auto simp: write_metrics_def and_then_eq_Inr on_disk_eq_Inr canonical_line_def validate_instance_eq_Inr
        valid_def split: if_splits)
  have "file_path (top ''metrics.json'')" by (rule top_paths(2)) (simp add: BUNDLE_FILES_def)
  from that[OF c(1-3) atomic_new_file_store(1)[OF c(4) assms(2) this] c(5)] show thesis .
qed

lemma finalized:
  assumes "finalize env w = Inr (w', seal)" "implements (bw_root w) F"
  obtains last_event payload files r s disk where "bw_last_event w = Some last_event"
    "uget last_event ''type'' = utext ''EpisodeEnd''"
    "cb_count (bw_decision_chain w) = length (bw_observations w)"
    "uget last_event ''payload'' = JObj payload"
    "\<exists>m. F (top ''metrics.json'') = Some m \<and> uget payload ''metrics_sha256'' = utext (sha256_prefixed m)"
    "map fst files = map ascii REQUIRED_FILES" "\<forall>f \<in> set files. \<exists>h. snd f = utext h"
    "\<forall>n bs. n \<in> set REQUIRED_FILES \<longrightarrow> F (top n) = Some bs \<longrightarrow> uget files n = utext (sha256_prefixed bs)"
    "seal_root (seal_document w files) = Inr r" "seal = seal_document w files @ [(ascii ''root'', utext r)]"
    "valid env ''chain'' seal" "canonical seal s"
    "implements disk (F(top ''chain.json'' \<mapsto> s))" "w' = w\<lparr>bw_root := disk, bw_finalized := True\<rparr>"
proof -
  from assms(1) obtain last_event payload m files r s disk where
    c: "bw_last_event w = Some last_event" "uget last_event ''type'' = utext ''EpisodeEnd''"
    "cb_count (bw_decision_chain w) = length (bw_observations w)"
    "uget last_event ''payload'' = JObj payload" "read_bytes (bw_root w) (top ''metrics.json'') = Inr m"
    "uget payload ''metrics_sha256'' = utext (sha256_prefixed m)"
    and t: "traverse (\<lambda>name. and_then (read_bytes (bw_root w) (top name))
                 (\<lambda>bs. Inr (ascii name, utext (sha256_prefixed bs)))) REQUIRED_FILES = Inr files"
    and f: "seal_root (seal_document w files) = Inr r" "seal = seal_document w files @ [(ascii ''root'', utext r)]"
    "valid env ''chain'' seal" "canonical seal s"
    "atomic_new_file (top ''chain.json'') s (bw_root w) = Inr disk" "w' = w\<lparr>bw_root := disk, bw_finalized := True\<rparr>"
    by (auto simp: finalize_def and_then_eq_Inr on_disk_eq_Inr validate_instance_eq_Inr valid_def Let_def
        split: option.splits if_splits)
  have p: "file_path (top n)" if "n \<in> set BUNDLE_FILES" for n using top_paths(2)[OF that] .
  have mf: "F (top ''metrics.json'') = Some m"
    using c(5) implements_reads(1)[OF assms(2) p[of "''metrics.json''"]]
    by (auto simp: BUNDLE_FILES_def split: option.splits)
  have names: "map fst files = map ascii REQUIRED_FILES"
  proof (rule nth_equalityI)
    show "length (map fst files) = length (map ascii REQUIRED_FILES)" using traverse_length[OF t] by simp
    fix i assume "i < length (map fst files)"
    then have i: "i < length files" "i < length REQUIRED_FILES" using traverse_length[OF t] by simp_all
    from traverse_nth[OF t i(2)] obtain x where "(ascii (REQUIRED_FILES ! i), x) = files ! i"
      by (auto simp: and_then_eq_Inr)
    then have "fst (files ! i) = ascii (REQUIRED_FILES ! i)" by (metis fst_conv)
    with i show "map fst files ! i = map ascii REQUIRED_FILES ! i" by simp
  qed
  have hashes: "uget files n = utext (sha256_prefixed bs)"
    if n: "n \<in> set REQUIRED_FILES" "F (top n) = Some bs" for n bs
  proof -
    have nb: "n \<in> set BUNDLE_FILES" using n(1) by (auto simp: REQUIRED_FILES_def BUNDLE_FILES_def)
    have dis: "distinct (map fst files)" unfolding names by (simp add: REQUIRED_FILES_def)
    from n(1) obtain i where i: "i < length REQUIRED_FILES" "REQUIRED_FILES ! i = n" by (auto simp: in_set_conv_nth)
    from traverse_nth[OF t i(1)] i(2) implements_reads(1)[OF assms(2) p[OF nb]] n(2)
    have "files ! i = (ascii n, utext (sha256_prefixed bs))" by simp
    then have "(ascii n, utext (sha256_prefixed bs)) \<in> set files"
      using i(1) traverse_length[OF t] nth_mem[of i files] by simp
    with dis show ?thesis by (simp add: uget_def dict_get_def dict_get_default_def map_of_is_SomeI)
  qed
  have "file_path (top ''chain.json'')" by (rule p) (simp add: BUNDLE_FILES_def)
  note i = atomic_new_file_store(1)[OF f(5) assms(2) this]
  have texts: "\<forall>f \<in> set files. \<exists>h. snd f = utext h"
    using traverse_set[OF t] by (fastforce simp: and_then_eq_Inr)
  show thesis by (rule that[OF c(1-4) _ names texts _ f(1-4) i f(6)]) (use mf c(6) hashes in blast)+
qed

end
