(* ===== verification/Recording.thy ===== *)
theory Recording
  imports Sealed_Verdict Writer_Steps
begin

text \<open>
  The writer meets the verifier: a bundle that \<open>record_episode_bundle\<close> returns is one that
  \<open>verify_bundle\<close> calls complete, with the root of the seal that was returned.
\<close>

section \<open>Shapes of the documents the recorder makes\<close>

lemma shaped_mono: "shaped d v \<Longrightarrow> d \<le> e \<Longrightarrow> shaped e v"
  by (simp add: shaped_def)

lemma shaped_objects: "shaped (Suc d) (JArr (map JObj ps)) \<longleftrightarrow> (\<forall>p \<in> set ps. shaped d (JObj p))"
  by auto

lemma payloads_shaped:
  assumes "typed_payloads es t = Inr ps" "\<forall>e \<in> set es. shaped (Suc d) (JObj e)" "p \<in> set ps"
  shows "shaped d (JObj p)"
proof -
  from traverse_set[OF assms(1)[unfolded typed_payloads_def] assms(3)] obtain e where
    "e \<in> set es" "payload_of e = Inr p" by auto
  then have "uget e ''payload'' = JObj p" "shaped (Suc d) (JObj e)"
    using assms(2) by (auto simp: payload_of_def split: json.splits)
  with shaped_member(2)[of "Suc d" e "''payload''" "JObj p"] show ?thesis by simp
qed

lemma account_shaped:
  assumes "account_after row = Inr a" shows "shaped (Suc d) a"
proof -
  from assms obtain ms where ms: "a = JObj ms"
    "traverse (\<lambda>field. and_then (dr_integer (uget row field) (- (2 ^ 53 - 1)))
       (\<lambda>n. Inr (ascii field, JInt n))) ACCOUNT_FIELDS = Inr ms"
    by (auto simp: account_after_def and_then_eq_Inr)
  have "map fst ms = map ascii ACCOUNT_FIELDS" "\<forall>m \<in> set ms. shaped d (snd m)"
  proof -
    show "map fst ms = map ascii ACCOUNT_FIELDS"
      using ms(2) by (auto simp: ACCOUNT_FIELDS_def and_then_eq_Inr)
    show "\<forall>m \<in> set ms. shaped d (snd m)"
      using traverse_set[OF ms(2)] by (fastforce simp: and_then_eq_Inr)
  qed
  moreover have "distinct (map ascii ACCOUNT_FIELDS)" by (simp add: ACCOUNT_FIELDS_def)
  ultimately show ?thesis by (simp add: ms(1))
qed

lemma decision_record_shaped:
  assumes r: "decision_record run_id turn es row = Inr r" and es: "\<forall>e \<in> set es. shaped (Suc d) (JObj e)"
  shows "shaped (Suc (Suc (Suc d))) (JObj r)"
proof -
  from r obtain saws saw ts bar_index attempts parsed rejected meant rules fills cancels liqs liquidation
      pks post funding margins account range where
    saw: "typed_payloads es ''ObservationEmitted'' = Inr saws" "exactly_one saws = Inr saw"
    and att: "typed_payloads es ''AgentResponded'' = Inr attempts"
    and par: "typed_payloads es ''ActionParsed'' = Inr parsed" "typed_payloads es ''ActionRejected'' = Inr rejected"
      "meant_of parsed rejected = Inr meant"
    and rul: "typed_payloads es ''RiskCheck'' = Inr rules"
    and fil: "typed_payloads es ''OrderFilled'' = Inr fills" "typed_payloads es ''OrderCancelled'' = Inr cancels"
    and liq: "typed_payloads es ''LiquidationTriggered'' = Inr liqs" "zero_or_one liqs = Inr liquidation"
    and pka: "typed_payloads es ''PostKillSwitchAttempt'' = Inr pks" "zero_or_one pks = Inr post"
    and fnd: "typed_payloads es ''FundingApplied'' = Inr funding" "typed_payloads es ''MarginUpdate'' = Inr margins"
    and acc: "account_after row = Inr account"
    and rd: "r = decision_document run_id turn bar_index ts saw attempts meant (JArr (map JObj rules))
        (happened_document fills cancels liquidation post) (cost_document funding margins) account range"
    by (auto simp: decision_record_def and_then_eq_Inr Let_def split: if_splits)
  note sh = payloads_shaped[OF _ es] and up = shaped_mono[of _ _ "Suc (Suc d)"]
  have s1: "shaped (Suc (Suc d)) (JObj saw)"
    using sh[OF saw(1), of saw] singles_stored(1)[OF saw(2)] by (intro up) auto
  have s2: "shaped (Suc (Suc d)) (JObj [(ascii ''attempts'', JArr (map JObj attempts))])"
    using sh[OF att] by auto
  have s3: "shaped (Suc (Suc d)) meant"
    using par(3) shaped_mono[OF sh[OF par(1)], of _ "Suc d"] shaped_mono[OF sh[OF par(2)], of _ "Suc d"]
    by (auto simp: meant_of_def utext_def split: list.splits)
  have s4: "shaped (Suc (Suc d)) (JArr (map JObj rules))"
    by (rule up[of "Suc d"]) (use sh[OF rul] in auto)
  have opt: "shaped (Suc d) (opt_object q)" if "\<And>p. q = Some p \<Longrightarrow> shaped d (JObj p)" for q
  proof (cases q)
    case (Some p)
    with that have "shaped d (JObj p)" by simp
    from shaped_mono[OF this, of "Suc d"] Some show ?thesis by (simp add: opt_object_def)
  qed (simp add: opt_object_def)
  have s5: "shaped (Suc (Suc d)) (happened_document fills cancels liquidation post)"
    using sh[OF fil(1)] sh[OF fil(2)] opt[of liquidation] opt[of post]
      sh[OF liq(1)] singles_stored(2)[OF liq(2)] sh[OF pka(1)] singles_stored(2)[OF pka(2)]
    by (auto simp: happened_document_def)
  have s6: "shaped (Suc (Suc d)) (cost_document funding margins)"
    using sh[OF fnd(1)] shaped_mono[OF sh[OF fnd(2)], of "last margins" "Suc d"]
    by (auto simp: cost_document_def)
  have s7: "shaped (Suc (Suc d)) account" by (rule up[OF account_shaped[OF acc, of d]]) simp
  show ?thesis
    unfolding rd decision_document_def using s1 s2 s3 s4 s5 s6 s7 by (simp add: utext_def)
qed
lemma decisions_shaped:
  assumes g: "generate_decision_records es rows run_id = Inr ds"
    and es: "\<forall>e \<in> set es. whole e \<and> shaped (Suc d) (JObj e)" and "r \<in> set ds"
  shows "shaped (Suc (Suc (Suc d))) (JObj r)"
proof -
  from g obtain gs by_turn where gs: "events_by_turn es = Inr gs"
    and tr: "traverse (\<lambda>turn. case (map_of gs turn, map_of by_turn turn) of
        (Some turn_events, Some row) \<Rightarrow> decision_record run_id turn turn_events row
      | _ \<Rightarrow> Inl (KeyError ''turn'')) (sort (map fst gs)) = Inr ds"
    by (auto simp only: generate_decision_records_def and_then_eq_Inr Let_def sum.distinct split: if_splits)
  from traverse_set[OF tr assms(3)] obtain turn group row where "map_of gs turn = Some group"
    "decision_record run_id turn group row = Inr r" by (auto split: option.splits)
  moreover have "\<forall>t g. map_of gs t = Some g \<longrightarrow> g \<noteq> [] \<and> set g \<subseteq> set es"
    by (rule events_by_turn_stored(2)[OF _ gs]) (use es in blast)
  ultimately show ?thesis using es by (intro decision_record_shaped) blast+
qed

lemma links_made:
  assumes "chain_append_all b rs = Inr (b', ls)" "l \<in> set ls"
  shows "\<exists>seq h k. l = link_entry (cb_stream b) seq h k \<and> well_formed_hash h \<and> well_formed_hash k"
  using assms
proof (induction rs arbitrary: b b' ls)
  case Nil
  then show ?case by simp
next
  case (Cons r rs)
  from Cons.prems(1) obtain c l' ls' where c: "chain_append b r = Inr (c, l')"
    "chain_append_all c rs = Inr (b', ls')" "ls = l' # ls'" by (auto simp: and_then_eq_Inr)
  from c(1) obtain k where k: "chain_link_value (cb_stream b) (cb_count b) (sha256_prefixed r) (cb_head b) = Inr k"
    "l' = link_entry (cb_stream b) (cb_count b) (sha256_prefixed r) k" "cb_stream c = cb_stream b"
    by (auto simp: chain_append_def Let_def and_then_eq_Inr)
  have "well_formed_hash k" using k(1) by (auto simp: chain_link_value_def content_hash_def and_then_eq_Inr)
  with k(2) have "\<exists>seq h k. l' = link_entry (cb_stream b) seq h k \<and> well_formed_hash h \<and> well_formed_hash k"
    using sha_chain.digest_valid by blast
  with k(3) Cons.IH[OF c(2)] Cons.prems(2) c(3) show ?case by auto
qed

definition schema_accepts_links :: "verifier \<Rightarrow> bool" where
  "schema_accepts_links env \<longleftrightarrow>
     (\<forall>stream \<in> {''events'', ''decisions''}. \<forall>seq record_hash link.
        well_formed_hash record_hash \<and> well_formed_hash link \<longrightarrow>
        vf_schema env ''chain_link'' (JObj (link_entry stream seq record_hash link)))"

lemma link_entry_facts:
  "shaped (Suc d) (JObj (link_entry st i h k))" "on_stream st (link_entry st i h k)"
  by (simp_all add: link_entry_def utext_def on_stream_def)

text \<open>What a chain of the writer is to the verifier.\<close>

lemma chain_written:
  assumes "make_ChainBuilder st g = Inr b0" "chain_append_all b0 rs = Inr (b, ls)"
    and "int (cb_count b) \<le> MAX_SAFE_INT" "schema_accepts_links env" "st \<in> {''events'', ''decisions''}"
  shows "verify_chain st g rs ls (Some (cb_head b)) (Some (int (cb_count b))) = Inr (cb_head b)"
    "cb_genesis b = g" "list_all (on_stream st) ls" "list_all (valid env ''chain_link'') ls"
    "\<forall>l \<in> set ls. shaped (Suc d) (JObj l)" "cb_count b = length rs"
proof -
  have b0: "cb_stream b0 = st" "cb_genesis b0 = g" "cb_count b0 = 0" and wf: "well_formed_hash g"
    using assms(1) by (auto simp: make_ChainBuilder_def and_then_eq_Inr require_hash_eq_Inr)
  have n: "cb_count b = cb_count b0 + length rs \<and> cb_genesis b = cb_genesis b0"
    using assms(2)
  proof (induction rs arbitrary: b0 ls)
    case Nil
    then show ?case by simp
  next
    case (Cons r rs)
    then obtain c l where "chain_append b0 r = Inr (c, l)" "\<exists>ls. chain_append_all c rs = Inr (b, ls)"
      by (auto simp: and_then_eq_Inr)
    with Cons.IH show ?case by (auto simp: chain_append_def Let_def and_then_eq_Inr)
  qed
  then show len: "cb_count b = length rs" and "cb_genesis b = g" by (simp_all add: b0)
  obtain b' c links where v: "make_ChainBuilder st g = Inr b'" "chain_append_all b' rs = Inr (c, links)"
    "cb_count c = length rs" "verify_chain st g rs links (Some (cb_head c)) (Some (int (length rs))) = Inr (cb_head c)"
    by (rule builder_head_verified[OF wf, of rs st]) (use assms(3) len in auto)
  with assms(1,2) len show "verify_chain st g rs ls (Some (cb_head b)) (Some (int (cb_count b))) = Inr (cb_head b)"
    by simp
  show "list_all (on_stream st) ls" "list_all (valid env ''chain_link'') ls" "\<forall>l \<in> set ls. shaped (Suc d) (JObj l)"
    using links_made[OF assms(2)] assms(4,5) link_entry_facts
    by (auto simp: list_all_iff valid_def schema_accepts_links_def b0(1) simp del: shaped_JObj) blast+
qed
section \<open>The products of an episode\<close>

lemma products_written:
  assumes rec: "record_products env rc w = Inr w'"
    and w: "implements (bw_root w) (Map.empty(top ''agent_manifest.json'' \<mapsto> ab, top ''manifest.json'' \<mapsto> mb,
        top ''events.jsonl'' \<mapsto> [], top ''chain.jsonl'' \<mapsto> []))"
      "bw_observations w = []" "bw_raw_refs w = []" "bw_last_event w = None" "cb_count (bw_event_chain w) = 0"
      "cb_count (bw_decision_chain w) = 0"
  obtains b ds els dls ecb dcb disk where
    "bb_agent b = ab" "bb_manifest b = mb" "implements disk (product_store b)"
    "list_all2 canonical (rc_observations rc) (bb_observations b)"
    "bb_raw b = blobs_by_name (rc_raw_blobs rc) (sort (map fst (rc_raw_blobs rc)))"
    "\<forall>ref \<in> fst ` set (rc_raw_blobs rc). \<exists>name data. ref = raw_path name \<and> raw_name name \<noteq> None \<and>
      map_of (rc_raw_blobs rc) ref = Some data"
    "distinct (map fst (rc_raw_blobs rc))"
    "list_all2 canonical (rc_events rc) (bb_events b)" "list_all2 canonical els (bb_event_links b)"
    "chain_append_all (bw_event_chain w) (bb_events b) = Inr (ecb, els)"
    "\<forall>i < length (rc_events rc). uget (rc_events rc ! i) ''seq'' = JInt (int i)"
    "generate_decision_records (rc_events rc) (rc_ledger_primary rc) (rc_run_id rc) = Inr ds"
    "list_all2 canonical ds (bb_decisions b)" "list_all2 canonical dls (bb_decision_links b)"
    "chain_append_all (bw_decision_chain w) (bb_decisions b) = Inr (dcb, dls)"
    "\<forall>i < length ds. uget (ds ! i) ''turn'' = JInt (int i)"
    "list_all2 canonical (rc_ledger_primary rc) (bb_primary b)" "list_all2 canonical (rc_ledger_stress_2x rc) (bb_stress b)"
    "length (rc_ledger_primary rc) = length (rc_ledger_stress_2x rc)"
    "list_all (balanced_row ''primary'') (rc_ledger_primary rc)"
    "list_all (balanced_row ''stress_2x'') (rc_ledger_stress_2x rc)"
    "canonical (rc_metrics rc) (bb_metrics b)" "uget (rc_metrics rc) ''run_id'' = uget (bw_manifest w) ''run_id''"
    "list_all (valid env ''observation'') (rc_observations rc)" "list_all (valid env ''event'') (rc_events rc)"
    "list_all (valid env ''decision_record'') ds"
    "list_all (valid env ''ledger_row'') (rc_ledger_primary rc @ rc_ledger_stress_2x rc)"
    "valid env ''metrics'' (rc_metrics rc)"
    "w' = w\<lparr>bw_root := disk, bw_observations := map int [0..<length (rc_observations rc)],
      bw_raw_refs := sort (map fst (rc_raw_blobs rc)), bw_event_chain := ecb, bw_decision_chain := dcb,
      bw_last_event := if rc_events rc = [] then None else Some (last (rc_events rc))\<rparr>"
proof -
  from rec obtain w1 w2 w3 w4 w5 ds where
    f1: "fold_result (\<lambda>(turn, document). write_observation env (int turn) document)
          (zip [0..<0 + length (rc_observations rc)] (rc_observations rc)) w = Inr w1"
    and f2: "fold_result (write_blob (rc_raw_blobs rc)) (sort (map fst (rc_raw_blobs rc))) w1 = Inr w2"
    and f3: "fold_result (append_event env) (rc_events rc) w2 = Inr w3"
    and g: "generate_decision_records (rc_events rc) (rc_ledger_primary rc) (rc_run_id rc) = Inr ds"
    and f4: "fold_result (append_decision env) ds w3 = Inr w4"
    and f5: "write_ledgers env (rc_ledger_primary rc) (rc_ledger_stress_2x rc) w4 = Inr w5"
    and f6: "write_metrics env (rc_metrics rc) w5 = Inr w'"
    by (auto simp: record_products_def and_then_eq_Inr)
  obtain obs d1 where o: "list_all2 canonical (rc_observations rc) obs"
    "\<forall>d \<in> set (rc_observations rc). vf_schema env ''observation'' (JObj d)"
    "implements d1 (map_upds (Map.empty(top ''agent_manifest.json'' \<mapsto> ab, top ''manifest.json'' \<mapsto> mb,
        top ''events.jsonl'' \<mapsto> [], top ''chain.jsonl'' \<mapsto> []))
      (map (\<lambda>i. [ascii ''observations'', numbered_name i]) [0..<0 + length (rc_observations rc)]) obs)"
    "w1 = w\<lparr>bw_root := d1, bw_observations := map int [0..<0 + length (rc_observations rc)]\<rparr>"
    by (rule observations_written[OF f1 w(1)]) (simp_all add: w(2))
  have i1: "implements (bw_root w1) (map_upds (Map.empty(top ''agent_manifest.json'' \<mapsto> ab, top ''manifest.json'' \<mapsto> mb,
        top ''events.jsonl'' \<mapsto> [], top ''chain.jsonl'' \<mapsto> []))
      (map (\<lambda>i. [ascii ''observations'', numbered_name i]) [0..<0 + length (rc_observations rc)]) obs)"
    using o(3,4) by simp
  let ?raw = "blobs_by_name (rc_raw_blobs rc) (sort (map fst (rc_raw_blobs rc)))"
  define b1 where "b1 = \<lparr>bb_agent = ab, bb_manifest = mb, bb_observations = obs, bb_raw = ?raw, bb_events = [],
     bb_event_links = [], bb_decisions = [], bb_decision_links = [], bb_primary = [], bb_stress = [], bb_metrics = []\<rparr>"
  have ol: "length obs = length (rc_observations rc)" using list_all2_lengthD[OF o(1)] by simp
  obtain d2 where r: "\<forall>ref \<in> set (sort (map fst (rc_raw_blobs rc))). \<exists>name data. ref = raw_path name \<and>
      raw_name name \<noteq> None \<and> map_of (rc_raw_blobs rc) ref = Some data" "distinct (sort (map fst (rc_raw_blobs rc)))"
    "implements d2 (blob_store b1)"
    "w2 = w1\<lparr>bw_root := d2, bw_raw_refs := sort (map fst (rc_raw_blobs rc))\<rparr>"
    by (rule raws_written[OF f2 i1])
       (use ol w(3) o(4) in \<open>auto simp: blob_store_def created_store_def b1_def numbered_paths_def raw_paths_def\<close>)
  have i2: "implements (bw_root w2) (blob_store b1)" using r(3,4) by simp
  have tops: "blob_store b1 (top ''events.jsonl'') = Some []" "blob_store b1 (top ''chain.jsonl'') = Some []"
    by (simp_all add: blob_store_def created_store_def)
  obtain ebs ecb els elbs d3 where e: "list_all2 canonical (rc_events rc) ebs"
    "\<forall>e \<in> set (rc_events rc). vf_schema env ''event'' (JObj e)"
    "\<forall>i < length (rc_events rc). uget (rc_events rc ! i) ''seq'' = JInt (int (cb_count (bw_event_chain w2) + i))"
    "chain_append_all (bw_event_chain w2) ebs = Inr (ecb, els)" "list_all2 canonical els elbs"
    "implements d3 ((blob_store b1)(top ''events.jsonl'' \<mapsto> [] @ lines_of ebs, top ''chain.jsonl'' \<mapsto> [] @ lines_of elbs))"
    "w3 = w2\<lparr>bw_root := d3, bw_event_chain := ecb,
       bw_last_event := if rc_events rc = [] then bw_last_event w2 else Some (last (rc_events rc))\<rparr>"
    by (rule events_written[OF f3 i2 tops])
  let ?F3 = "(blob_store b1)(top ''events.jsonl'' \<mapsto> [] @ lines_of ebs, top ''chain.jsonl'' \<mapsto> [] @ lines_of elbs)"
  have i3: "implements (bw_root w3) ?F3" "?F3 (top ''chain.jsonl'') = Some (lines_of elbs)"
    "cb_count (bw_decision_chain w3) = 0" using e(6,7) r(4) o(4) w(6) by simp_all
  obtain dbs dcb dls dlbs d4 where dd: "list_all2 canonical ds dbs"
    "\<forall>d \<in> set ds. vf_schema env ''decision_record'' (JObj d)"
    "\<forall>i < length ds. uget (ds ! i) ''turn'' = JInt (int (0 + i))"
    "chain_append_all (bw_decision_chain w3) dbs = Inr (dcb, dls)" "list_all2 canonical dls dlbs"
    "implements d4 ((map_upds ?F3 (map (\<lambda>i. [ascii ''decisions'', numbered_name i]) [0..<0 + length ds]) dbs)
       (top ''chain.jsonl'' \<mapsto> lines_of elbs @ lines_of dlbs))"
    "w4 = w3\<lparr>bw_root := d4, bw_decision_chain := dcb\<rparr>"
    by (rule decisions_written[OF f4 i3])
  have dl: "length dbs = length ds" using list_all2_lengthD[OF dd(1)] by simp
  have i4: "implements (bw_root w4) ((map_upds ?F3 (map (\<lambda>i. [ascii ''decisions'', numbered_name i]) [0..<0 + length ds]) dbs)
       (top ''chain.jsonl'' \<mapsto> lines_of elbs @ lines_of dlbs))" using dd(6,7) by simp
  obtain pbs sbs d5 where l: "list_all2 canonical (rc_ledger_primary rc) pbs"
    "list_all2 canonical (rc_ledger_stress_2x rc) sbs"
    "length (rc_ledger_primary rc) = length (rc_ledger_stress_2x rc)"
    "list_all (valid env ''ledger_row'') (rc_ledger_primary rc @ rc_ledger_stress_2x rc)"
    "list_all (balanced_row ''primary'') (rc_ledger_primary rc)"
    "list_all (balanced_row ''stress_2x'') (rc_ledger_stress_2x rc)"
    "implements d5 ((map_upds ?F3 (map (\<lambda>i. [ascii ''decisions'', numbered_name i]) [0..<0 + length ds]) dbs)
       (top ''chain.jsonl'' \<mapsto> lines_of elbs @ lines_of dlbs, top ''ledger.jsonl'' \<mapsto> lines_of pbs,
        top ''ledger_stress_2x.jsonl'' \<mapsto> lines_of sbs))"
    "w5 = w4\<lparr>bw_root := d5\<rparr>"
    by (rule ledgers_written[OF f5 i4])
  have i5: "implements (bw_root w5) ((map_upds ?F3 (map (\<lambda>i. [ascii ''decisions'', numbered_name i]) [0..<0 + length ds]) dbs)
       (top ''chain.jsonl'' \<mapsto> lines_of elbs @ lines_of dlbs, top ''ledger.jsonl'' \<mapsto> lines_of pbs,
        top ''ledger_stress_2x.jsonl'' \<mapsto> lines_of sbs))" using l(7,8) by simp
  obtain met d6 where m: "canonical (rc_metrics rc) met" "valid env ''metrics'' (rc_metrics rc)"
    "uget (rc_metrics rc) ''run_id'' = uget (bw_manifest w5) ''run_id''"
    "implements d6 ((map_upds ?F3 (map (\<lambda>i. [ascii ''decisions'', numbered_name i]) [0..<0 + length ds]) dbs)
       (top ''chain.jsonl'' \<mapsto> lines_of elbs @ lines_of dlbs, top ''ledger.jsonl'' \<mapsto> lines_of pbs,
        top ''ledger_stress_2x.jsonl'' \<mapsto> lines_of sbs, top ''metrics.json'' \<mapsto> met @ [10]))"
    "w' = w5\<lparr>bw_root := d6\<rparr>"
    by (rule metrics_written[OF f6 i5])
  define b where "b = b1\<lparr>bb_events := ebs, bb_event_links := elbs, bb_decisions := dbs, bb_decision_links := dlbs,
     bb_primary := pbs, bb_stress := sbs, bb_metrics := met\<rparr>"
  have same: "blob_store b = blob_store b1"
    by (simp add: blob_store_def created_store_def b_def b1_def raw_paths_def)
  have store: "implements d6 (product_store b)"
    using m(4) dl same by (simp add: product_store_def decision_store_def event_store_def b_def numbered_paths_def)
  have parts: "bb_agent b = ab" "bb_manifest b = mb" "bb_observations b = obs" "bb_raw b = ?raw" "bb_events b = ebs"
    "bb_event_links b = elbs" "bb_decisions b = dbs" "bb_decision_links b = dlbs" "bb_primary b = pbs"
    "bb_stress b = sbs" "bb_metrics b = met"
    by (simp_all add: b_def b1_def)
  have chains: "bw_event_chain w2 = bw_event_chain w" "bw_decision_chain w3 = bw_decision_chain w"
    "cb_count (bw_event_chain w2) = 0" "bw_manifest w5 = bw_manifest w"
    using w(5) by (simp_all add: l(8) dd(7) e(7) r(4) o(4))
  note done_facts = parts store o(1) r(1,2) e(1,5) e(4)[unfolded chains] g dd(1,5) dd(4)[unfolded chains]
    l(1-6) m(1,2) m(3)[unfolded chains]
  have w': "w' = w\<lparr>bw_root := d6, bw_observations := map int [0..<length (rc_observations rc)],
      bw_raw_refs := sort (map fst (rc_raw_blobs rc)), bw_event_chain := ecb, bw_decision_chain := dcb,
      bw_last_event := if rc_events rc = [] then None else Some (last (rc_events rc))\<rparr>"
    by (simp add: m(5) l(8) dd(7) e(7) r(4) o(4) w(4))
  have v: "list_all (valid env ''observation'') (rc_observations rc)" "list_all (valid env ''event'') (rc_events rc)"
    "list_all (valid env ''decision_record'') ds"
    "\<forall>i < length (rc_events rc). uget (rc_events rc ! i) ''seq'' = JInt (int i)"
    "\<forall>i < length ds. uget (ds ! i) ''turn'' = JInt (int i)"
    "\<forall>ref \<in> fst ` set (rc_raw_blobs rc). \<exists>name data. ref = raw_path name \<and> raw_name name \<noteq> None \<and>
      map_of (rc_raw_blobs rc) ref = Some data" "distinct (map fst (rc_raw_blobs rc))"
    using o(2) e(2,3) dd(2,3) r(1,2) chains(3) by (simp_all add: list_all_iff valid_def)
  show thesis
    by (rule that[of b d6 els ecb ds dls dcb]; (unfold parts)?) (fact done_facts v w' refl)+
qed
section \<open>What is assumed of a recording\<close>

text \<open>
  The documents are values Python can hold, nested no deeper than the reader allows: two levels
  less for the events, whose payloads a decision record wraps.
\<close>

definition recordable :: "verifier \<Rightarrow> recording \<Rightarrow> ustring jobject \<Rightarrow> ustring jobject \<Rightarrow> bool" where
  "recordable env rc manifest agent_manifest \<longleftrightarrow>
     3 \<le> vf_depth env \<and>
     list_all (\<lambda>d. shaped (vf_depth env) (JObj d))
       ([manifest, agent_manifest, rc_metrics rc] @ rc_observations rc @ rc_ledger_primary rc @ rc_ledger_stress_2x rc) \<and>
     list_all (\<lambda>e. shaped (vf_depth env - 2) (JObj e)) (rc_events rc) \<and>
     length (rc_observations rc) \<le> 10000"

text \<open>The events name the observations and the raw blobs of the episode with their digests.\<close>

definition references_hold :: "recording \<Rightarrow> bool" where
  "references_hold rc \<longleftrightarrow>
     (case (referenced_blobs (rc_events rc), traverse (\<lambda>d. canonical_bytes (JObj d)) (rc_observations rc)) of
        (Inr (orefs, rrefs), Inr obs) \<Rightarrow>
          orefs = observation_refs obs \<and> length rrefs = length (rc_raw_blobs rc) \<and>
          set rrefs = set (map (\<lambda>(ref, data). (ref, ascii (sha256_prefixed data), int (length data))) (rc_raw_blobs rc))
      | _ \<Rightarrow> False)"

definition consistent :: "recording \<Rightarrow> bool" where
  "consistent rc \<longleftrightarrow> references_hold rc \<and> nav_chain None (rc_ledger_primary rc) \<and>
     nav_chain None (rc_ledger_stress_2x rc)"

lemma traverse_canonical: "list_all2 canonical ds bss \<Longrightarrow> traverse (\<lambda>d. canonical_bytes (JObj d)) ds = Inr bss"
  by (induction rule: list_all2_induct) simp_all

lemma recorded_raws:
  assumes raw: "\<forall>ref \<in> fst ` set blobs. \<exists>name data. ref = raw_path name \<and> raw_name name \<noteq> None \<and>
      map_of blobs ref = Some data" and dis: "distinct (map fst blobs)"
  defines "files \<equiv> blobs_by_name blobs (sort (map fst blobs))"
  shows "raw_file_names files" "length files = length blobs"
    "set (raw_refs files) = set (map (\<lambda>(ref, data). (ref, ascii (sha256_prefixed data), int (length data))) blobs)"
proof -
  have name: "raw_path (drop 4 ref) = ref" "raw_name (drop 4 ref) \<noteq> None" if "ref \<in> fst ` set blobs" for ref
    using raw that by auto
  have "distinct (map (drop 4) (sort (map fst blobs)))"
    using dis name(1) by (simp add: distinct_map) (metis (no_types, lifting) inj_onI)
  then show "raw_file_names files"
    using name(2) by (auto simp: raw_file_names_def files_def blobs_by_name_def comp_def list_all_iff)
  show "length files = length blobs" by (simp add: files_def blobs_by_name_def)
  have "set (raw_refs files) = (\<lambda>ref. (raw_path (drop 4 ref), ascii (sha256_prefixed (the (map_of blobs ref))),
      int (length (the (map_of blobs ref))))) ` fst ` set blobs"
    using raw by (auto simp: raw_refs_def files_def blobs_by_name_def image_image intro!: image_cong)
  also have "\<dots> = (\<lambda>(ref, data). (ref, ascii (sha256_prefixed data), int (length data))) ` set blobs"
    using name(1) dis by (auto simp: image_image intro!: image_cong)
  finally show "set (raw_refs files)
      = set (map (\<lambda>(ref, data). (ref, ascii (sha256_prefixed data), int (length data))) blobs)" by simp
qed

lemma count_is_safe:
  assumes "canonical seal s" "uget seal ''streams'' = JObj streams" "uget streams k = JObj (stream_head b)"
  shows "int (cb_count b) \<le> MAX_SAFE_INT"
proof -
  from assms(1) obtain t where "encode_json (JObj seal) = Inr t" using canonical_bytes_eq_Inr by blast
  from encodes_get[OF this assms(2)] obtain t' where "encode_json (JObj streams) = Inr t'" by blast
  from encodes_get[OF this assms(3)] obtain u where "encode_json (JObj (stream_head b)) = Inr u" by blast
  from encodes_get[OF this, of "''count''" "JInt (int (cb_count b))"]
  show ?thesis by (auto simp: stream_head_def split: if_splits)
qed

lemma seal_members:
  assumes "seal = seal_document w files @ [(ascii ''root'', utext r)]"
  shows "uget seal ''run_id'' = uget (bw_manifest w) ''run_id''" "uget seal ''complete'' = JBool True"
    "uget seal ''root'' = utext r" "unrooted seal = seal_document w files" "uget seal ''files'' = JObj files"
    "uget seal ''streams'' = JObj [(ascii ''events'', JObj (stream_head (bw_event_chain w))),
       (ascii ''decisions'', JObj (stream_head (bw_decision_chain w)))]"
    "uget seal ''blobs'' = JObj
       [(ascii ''observations'', JObj [(ascii ''count'', JInt (int (length (bw_observations w))))]),
        (ascii ''raw'', JObj [(ascii ''count'', JInt (int (length (bw_raw_refs w))))])]"
  by (simp_all add: assms seal_document_def)

lemma seal_shaped:
  assumes "map fst files = map ascii REQUIRED_FILES" "\<forall>f \<in> set files. \<exists>h. snd f = utext h"
    and "uget (bw_manifest w) ''run_id'' = JStr run_id"
  shows "shaped (Suc (Suc (Suc d))) (JObj (seal_document w files @ [(ascii ''root'', utext r)]))"
proof -
  have "distinct (map fst files)" unfolding assms(1) by (simp add: REQUIRED_FILES_def)
  moreover have "\<forall>f \<in> set files. shaped (Suc d) (snd f)" using assms(2) by (auto simp: utext_def)
  ultimately show ?thesis by (simp add: seal_document_def assms(3) stream_head_def utext_def)
qed
section \<open>Recorded bundles are complete\<close>

lemma recorded_bundle_complete:
  assumes rec: "record_episode_bundle env existing rc manifest agent = Inr (w', seal)"
    and env: "schema_ignores_order env" "schema_accepts_links env"
    and docs: "recordable env rc manifest agent" "consistent rc"
  obtains v r D b s where "verify_bundle env (bw_root w') = Inr v" "vr_verdict v = COMPLETE" "vr_root v = Some r"
    "uget seal ''root'' = utext r" "holds env (bw_root w') D b s" "bd_events D = rc_events rc"
proof -
  from rec obtain w0 w where ids: "uget manifest ''run_id'' = JStr (rc_run_id rc)"
    and cr: "create_writer env existing manifest agent = Inr w0"
    and pr: "record_products env rc w0 = Inr w" and fin: "finalize env w = Inr (w', seal)"
    by (auto simp: record_episode_bundle_def and_then_eq_Inr split: if_splits)
  obtain ab mb run_id pack pack_hash run_config config_hash eg dg eb0 db0 disk0 where
    c: "canonical agent ab" "canonical manifest mb" "valid env ''agent_manifest'' agent"
    "valid env ''bundle_manifest'' manifest"
    "uget manifest ''agent_manifest_sha256'' = utext (sha256_prefixed ab)"
    "uget manifest ''run_id'' = JStr run_id" "uget manifest ''pack'' = JObj pack"
    "uget pack ''content_hash'' = JStr pack_hash" "uget manifest ''run_config'' = JObj run_config"
    "run_config_sha256 (JObj run_config) = Inr config_hash"
    "chain_genesis ''events'' run_id pack_hash (sha256_prefixed ab) config_hash = Inr eg"
    "chain_genesis ''decisions'' run_id pack_hash (sha256_prefixed ab) config_hash = Inr dg"
    "make_ChainBuilder ''events'' eg = Inr eb0" "make_ChainBuilder ''decisions'' dg = Inr db0"
    "implements disk0 (Map.empty(top ''agent_manifest.json'' \<mapsto> ab, top ''manifest.json'' \<mapsto> mb,
       top ''events.jsonl'' \<mapsto> [], top ''chain.jsonl'' \<mapsto> []))"
    "w0 = \<lparr>bw_root = disk0, bw_manifest = manifest, bw_agent_manifest = agent, bw_event_chain = eb0,
       bw_decision_chain = db0, bw_observations = [], bw_raw_refs = [], bw_last_event = None, bw_finalized = False\<rparr>"
    by (rule created[OF cr])
  have run_id: "rc_run_id rc = run_id" using ids c(6) by simp
  have zero: "cb_count eb0 = 0" "cb_count db0 = 0" using c(13,14) by (auto simp: make_ChainBuilder_def and_then_eq_Inr)
  obtain b ds els dls ecb dcb disk where
    b: "bb_agent b = ab" "bb_manifest b = mb" and store: "implements disk (product_store b)"
    and obs: "list_all2 canonical (rc_observations rc) (bb_observations b)"
    and raw: "bb_raw b = blobs_by_name (rc_raw_blobs rc) (sort (map fst (rc_raw_blobs rc)))"
      "\<forall>ref \<in> fst ` set (rc_raw_blobs rc). \<exists>name data. ref = raw_path name \<and> raw_name name \<noteq> None \<and>
        map_of (rc_raw_blobs rc) ref = Some data" "distinct (map fst (rc_raw_blobs rc))"
    and evs: "list_all2 canonical (rc_events rc) (bb_events b)" "list_all2 canonical els (bb_event_links b)"
      "chain_append_all (bw_event_chain w0) (bb_events b) = Inr (ecb, els)"
      "\<forall>i < length (rc_events rc). uget (rc_events rc ! i) ''seq'' = JInt (int i)"
    and dec: "generate_decision_records (rc_events rc) (rc_ledger_primary rc) (rc_run_id rc) = Inr ds"
      "list_all2 canonical ds (bb_decisions b)" "list_all2 canonical dls (bb_decision_links b)"
      "chain_append_all (bw_decision_chain w0) (bb_decisions b) = Inr (dcb, dls)"
      "\<forall>i < length ds. uget (ds ! i) ''turn'' = JInt (int i)"
    and led: "list_all2 canonical (rc_ledger_primary rc) (bb_primary b)"
      "list_all2 canonical (rc_ledger_stress_2x rc) (bb_stress b)"
      "length (rc_ledger_primary rc) = length (rc_ledger_stress_2x rc)"
      "list_all (balanced_row ''primary'') (rc_ledger_primary rc)"
      "list_all (balanced_row ''stress_2x'') (rc_ledger_stress_2x rc)"
    and met: "canonical (rc_metrics rc) (bb_metrics b)" "uget (rc_metrics rc) ''run_id'' = uget (bw_manifest w0) ''run_id''"
    and val: "list_all (valid env ''observation'') (rc_observations rc)" "list_all (valid env ''event'') (rc_events rc)"
      "list_all (valid env ''decision_record'') ds"
      "list_all (valid env ''ledger_row'') (rc_ledger_primary rc @ rc_ledger_stress_2x rc)"
      "valid env ''metrics'' (rc_metrics rc)"
    and w: "w = w0\<lparr>bw_root := disk, bw_observations := map int [0..<length (rc_observations rc)],
      bw_raw_refs := sort (map fst (rc_raw_blobs rc)), bw_event_chain := ecb, bw_decision_chain := dcb,
      bw_last_event := if rc_events rc = [] then None else Some (last (rc_events rc))\<rparr>"
    by (rule products_written[OF pr, of ab mb]) (simp_all add: c(15,16) zero)
  have iw: "implements (bw_root w) (product_store b)" using store by (simp add: w)
  obtain last_event payload files r s disk' where
    f: "bw_last_event w = Some last_event" "uget last_event ''type'' = utext ''EpisodeEnd''"
    "cb_count (bw_decision_chain w) = length (bw_observations w)" "uget last_event ''payload'' = JObj payload"
    "\<exists>m. product_store b (top ''metrics.json'') = Some m \<and> uget payload ''metrics_sha256'' = utext (sha256_prefixed m)"
    "map fst files = map ascii REQUIRED_FILES" "\<forall>f \<in> set files. \<exists>h. snd f = utext h"
    "\<forall>n bs. n \<in> set REQUIRED_FILES \<longrightarrow> product_store b (top n) = Some bs \<longrightarrow> uget files n = utext (sha256_prefixed bs)"
    "seal_root (seal_document w files) = Inr r" "seal = seal_document w files @ [(ascii ''root'', utext r)]"
    "valid env ''chain'' seal" "canonical seal s"
    "implements disk' ((product_store b)(top ''chain.json'' \<mapsto> s))" "w' = w\<lparr>bw_root := disk', bw_finalized := True\<rparr>"
    by (rule finalized[OF fin iw])
  note sm = seal_members[OF f(10)]
  obtain d where depth: "vf_depth env = Suc (Suc (Suc d))"
  proof -
    have "3 \<le> vf_depth env" using docs(1) by (simp only: recordable_def)
    then have "vf_depth env = Suc (Suc (Suc (vf_depth env - 3)))" by simp
    then show thesis by (rule that)
  qed
  define D where "D = \<lparr>bd_agent = agent, bd_manifest = manifest, bd_observations = rc_observations rc,
    bd_events = rc_events rc, bd_event_links = els, bd_decisions = ds, bd_decision_links = dls,
    bd_primary = rc_ledger_primary rc, bd_stress = rc_ledger_stress_2x rc, bd_metrics = rc_metrics rc, bd_seal = seal\<rparr>"
  have ce: "int (cb_count ecb) \<le> MAX_SAFE_INT"
    by (rule count_is_safe[OF f(12) sm(6), where k = "''events''"]) (simp add: w)
  have cd: "int (cb_count dcb) \<le> MAX_SAFE_INT"
    by (rule count_is_safe[OF f(12) sm(6), where k = "''decisions''"]) (simp add: w)
  have ch: "chain_append_all eb0 (bb_events b) = Inr (ecb, els)" "chain_append_all db0 (bb_decisions b) = Inr (dcb, dls)"
    using evs(3) dec(4) by (simp_all add: c(16))
  note ec = chain_written[OF c(13) ch(1) ce env(2)] and dc = chain_written[OF c(14) ch(2) cd env(2)]
  have sh: "shaped (vf_depth env) (JObj manifest)" "shaped (vf_depth env) (JObj agent)"
    "shaped (vf_depth env) (JObj (rc_metrics rc))" "\<forall>d \<in> set (rc_observations rc). shaped (vf_depth env) (JObj d)"
    "\<forall>d \<in> set (rc_ledger_primary rc). shaped (vf_depth env) (JObj d)"
    "\<forall>d \<in> set (rc_ledger_stress_2x rc). shaped (vf_depth env) (JObj d)"
    "\<forall>e \<in> set (rc_events rc). shaped (Suc d) (JObj e)" "length (rc_observations rc) \<le> 10000"
    using docs(1) by (auto simp: recordable_def list_all_iff depth simp del: shaped_JObj)
  have she: "\<forall>e \<in> set (rc_events rc). shaped (vf_depth env) (JObj e)"
    using sh(7) by (auto simp: depth intro: shaped_mono simp del: shaped_JObj)
  have we: "\<forall>e \<in> set (rc_events rc). whole e \<and> shaped (Suc d) (JObj e)"
  proof
    fix e assume e: "e \<in> set (rc_events rc)"
    from evs(1) e obtain bs where "canonical e bs" by (rule list_all2_memberE)
    with she e have "written env e bs" by (simp add: written_def)
    with sh(7) e show "whole e \<and> shaped (Suc d) (JObj e)" using written_whole by blast
  qed
  have shd: "\<forall>r \<in> set ds. shaped (vf_depth env) (JObj r)"
    unfolding depth using decisions_shaped[OF dec(1) we] by blast
  have shs: "shaped (vf_depth env) (JObj seal)"
    unfolding depth f(10) by (rule seal_shaped[OF f(6,7)]) (simp add: w c(6,16))
  have lift: "list_all2 (written env) xs bs" if "list_all2 canonical xs bs" "\<forall>x \<in> set xs. shaped (vf_depth env) (JObj x)" for xs bs
    using that by (auto simp: list_all2_conv_all_nth written_def)
  have st: "stores env D b s"
    using sh shs c(1,2) met(1) f(12) b
    by (simp add: stores_def D_def written_def lift[OF obs] lift[OF evs(1) she] lift[OF dec(2) shd]
        lift[OF led(1)] lift[OF led(2)] lift[OF evs(2) ec(5)[of "Suc (Suc d)", folded depth]]
        lift[OF dec(3) dc(5)[of "Suc (Suc d)", folded depth]] del: shaped_JObj)
  have ac: "accepted env D"
    using c(3,4) val ec(4) dc(4) f(11) by (simp add: accepted_def D_def)
  have h: "holds env disk' D b s"
    using f(13) st ac env(1) by (simp add: holds_def sealed_store_def)
  have refs: "references_match (rc_events rc) (bb_observations b) (bb_raw b)"
    using docs(2) traverse_canonical[OF obs] recorded_raws(2,3)[OF raw(2,3)]
    by (auto simp: consistent_def references_hold_def references_match_def raw(1) split: sum.splits)
  have last: "rc_events rc \<noteq> []" "last_event = last (rc_events rc)"
    using f(1) by (auto simp: w c(16) split: if_splits)
  have reqs: "set (map fst files) = set (map ascii SEALED_FILES)"
    unfolding f(6) by (simp add: REQUIRED_FILES_def SEALED_FILES_def)
  have hashes: "uget files n = utext (sha256_prefixed bs)"
    if "n \<in> set SEALED_FILES" "sealed_store b s (top n) = Some bs" for n bs
  proof -
    have "n \<noteq> ''chain.json''" using that(1) by (auto simp: SEALED_FILES_def)
    then have "product_store b (top n) = Some bs" using that(2) by (simp add: sealed_store_def)
    moreover have "n \<in> set REQUIRED_FILES" using that(1) by (simp add: REQUIRED_FILES_def SEALED_FILES_def)
    ultimately show ?thesis using f(8) by blast
  qed
  have few: "length ds \<le> 10000" "length (bb_observations b) = length (rc_observations rc)"
    using f(3) sh(8) dc(6) list_all2_lengthD[OF dec(2)] list_all2_lengthD[OF obs] by (simp_all add: w)
  have "seal_root seal = seal_root (unrooted seal)" by (simp add: seal_root_def)
  then have sealed_root: "seal_root seal = Inr r" unfolding sm(4) by (simp only: f(9))
  obtain v where v: "verify_bundle env disk' = Inr v" "vr_verdict v = COMPLETE" "vr_root v = Some r"
  proof (rule sealed_bundle_complete[OF h])
    show "uget (bd_manifest D) ''agent_manifest_sha256'' = utext (sha256_prefixed (bb_agent b))"
      "uget (bd_manifest D) ''run_id'' = JStr run_id" "uget (bd_manifest D) ''pack'' = JObj pack"
      "uget pack ''content_hash'' = JStr pack_hash" "uget (bd_manifest D) ''run_config'' = JObj run_config"
      "run_config_sha256 (JObj run_config) = Inr config_hash"
      "chain_genesis ''events'' run_id pack_hash (sha256_prefixed (bb_agent b)) config_hash = Inr eg"
      "chain_genesis ''decisions'' run_id pack_hash (sha256_prefixed (bb_agent b)) config_hash = Inr dg"
      by (simp_all add: D_def b(1) c)
    show "uget (bd_seal D) ''run_id'' = JStr run_id" "uget (bd_seal D) ''complete'' = JBool True"
      "seal_root (bd_seal D) = Inr r" "uget (bd_seal D) ''root'' = utext r"
      using sealed_root by (simp_all add: D_def sm(1-3) w c(6,16))
    show "uget (bd_seal D) ''streams'' = JObj [(ascii ''events'', JObj (stream_head ecb)),
        (ascii ''decisions'', JObj (stream_head dcb))]" by (simp add: D_def sm(6) w)
    show "uget [(ascii ''events'', JObj (stream_head ecb)), (ascii ''decisions'', JObj (stream_head dcb))] ''events''
        = JObj (stream_head ecb)"
      "uget [(ascii ''events'', JObj (stream_head ecb)), (ascii ''decisions'', JObj (stream_head dcb))] ''decisions''
        = JObj (stream_head dcb)" by simp_all
    show "cb_genesis ecb = eg" "cb_genesis dcb = dg" by (rule ec(2) dc(2), simp)+
    show "verify_chain ''events'' eg (bb_events b) (bd_event_links D) (Some (cb_head ecb)) (Some (int (cb_count ecb)))
        = Inr (cb_head ecb)"
      "verify_chain ''decisions'' dg (bb_decisions b) (bd_decision_links D) (Some (cb_head dcb))
        (Some (int (cb_count dcb))) = Inr (cb_head dcb)"
      "list_all (on_stream ''events'') (bd_event_links D)" "list_all (on_stream ''decisions'') (bd_decision_links D)"
      using ec(1,3) dc(1,3) by (simp_all add: D_def)
    show "\<And>i. i < length (bd_events D) \<Longrightarrow> uget (bd_events D ! i) ''seq'' = JInt (int i)"
      "\<And>i. i < length (bd_decisions D) \<Longrightarrow> uget (bd_decisions D ! i) ''turn'' = JInt (int i)"
      "length (bd_decisions D) \<le> 10000" "length (bb_observations b) \<le> 10000"
      using evs(4) dec(5) few sh(8) by (simp_all add: D_def)
    show "list_all (balanced_row ''primary'') (bd_primary D)" "list_all (balanced_row ''stress_2x'') (bd_stress D)"
      "nav_chain None (bd_primary D)" "nav_chain None (bd_stress D)" "length (bd_primary D) = length (bd_stress D)"
      using led docs(2) by (simp_all add: D_def consistent_def)
    show "uget (bd_metrics D) ''run_id'' = JStr run_id" using met(2) by (simp add: D_def c(6,16))
    show "raw_file_names (bb_raw b)" unfolding raw(1) by (rule recorded_raws(1)[OF raw(2,3)])
    show "references_match (bd_events D) (bb_observations b) (bb_raw b)" using refs by (simp add: D_def)
    show "bd_events D \<noteq> []" "uget (last (bd_events D)) ''type'' = utext ''EpisodeEnd''"
      "uget (last (bd_events D)) ''payload'' = JObj payload"
      "uget payload ''metrics_sha256'' = utext (sha256_prefixed (bb_metrics b @ [10]))"
      using last f(2,4,5) by (auto simp: D_def product_store_def)
    show "generate_decision_records (bd_events D) (bd_primary D) run_id = Inr (bd_decisions D)"
      using dec(1) by (simp add: D_def run_id)
    show "uget (bd_seal D) ''files'' = JObj files" by (simp add: D_def sm(5))
    show "set (map fst files) = set (map ascii SEALED_FILES)" by (rule reqs)
    show "\<And>n bs. n \<in> set SEALED_FILES \<Longrightarrow> sealed_store b s (top n) = Some bs \<Longrightarrow>
        uget files n = utext (sha256_prefixed bs)" by (rule hashes)
    let ?oc = "[(ascii ''count'', JInt (int (length (bb_observations b))))]"
    let ?rc = "[(ascii ''count'', JInt (int (length (bb_raw b))))]"
    show "uget (bd_seal D) ''blobs'' = JObj [(ascii ''observations'', JObj ?oc), (ascii ''raw'', JObj ?rc)]"
      using few(2) recorded_raws(2)[OF raw(2,3)] by (simp add: D_def sm(7) w raw(1))
    show "uget [(ascii ''observations'', JObj ?oc), (ascii ''raw'', JObj ?rc)] ''observations'' = JObj ?oc"
      "uget [(ascii ''observations'', JObj ?oc), (ascii ''raw'', JObj ?rc)] ''raw'' = JObj ?rc"
      "uget ?oc ''count'' = JInt (int (length (bb_observations b)))" "uget ?rc ''count'' = JInt (int (length (bb_raw b)))"
      by simp_all
  qed blast
  show thesis by (rule that[of v r D b s, OF _ v(2,3) sm(3)]) (use h in \<open>simp_all add: f(14) v(1) D_def\<close>)
qed

end
