(* ===== verification/Canonical_Domain.thy ===== *)
theory Canonical_Domain
  imports Stored_Reads
begin

text \<open>
  Exactly which documents have a canonical encoding: no floating point number, integers in the
  safe range, and no lone surrogate in a string or a key.
\<close>

section \<open>Hashable documents\<close>

fun hashable :: "ustring json \<Rightarrow> bool"
  and hashable_items :: "ustring json list \<Rightarrow> bool"
  and hashable_members :: "(ustring \<times> ustring json) list \<Rightarrow> bool" where
  "hashable JNull \<longleftrightarrow> True"
| "hashable (JBool b) \<longleftrightarrow> True"
| "hashable (JFloat t) \<longleftrightarrow> False"
| "hashable (JInt n) \<longleftrightarrow> - MAX_SAFE_INT \<le> n \<and> n \<le> MAX_SAFE_INT"
| "hashable (JStr s) \<longleftrightarrow> list_all scalar_value s"
| "hashable (JArr xs) \<longleftrightarrow> hashable_items xs"
| "hashable (JObj kvs) \<longleftrightarrow> hashable_members kvs"
| "hashable_items [] \<longleftrightarrow> True"
| "hashable_items (x # xs) \<longleftrightarrow> hashable x \<and> hashable_items xs"
| "hashable_members [] \<longleftrightarrow> True"
| "hashable_members ((k, v) # kvs) \<longleftrightarrow> list_all scalar_value k \<and> hashable v \<and> hashable_members kvs"

lemma hashable_items_iff: "hashable_items xs \<longleftrightarrow> (\<forall>x \<in> set xs. hashable x)"
  by (induction xs) simp_all

lemma hashable_members_iff:
  "hashable_members kvs \<longleftrightarrow> (\<forall>kv \<in> set kvs. list_all scalar_value (fst kv) \<and> hashable (snd kv))"
  by (induction kvs) auto

lemma scalar_encode_string_iff: "list_all scalar_value (encode_string s) \<longleftrightarrow> list_all scalar_value s"
proof
  assume a: "list_all scalar_value (encode_string s)"
  have "scalar_value c" if "c \<in> set s" for c
  proof (cases "c < 128")
    case True
    then show ?thesis by (simp add: scalar_value_def is_surrogate_def)
  next
    case False
    then have "escape_char c = [c]" by (simp add: escape_char_def)
    with a that show ?thesis by (auto simp: encode_string_def list_all_iff)
  qed
  then show "list_all scalar_value s" by (simp add: list_all_iff)
qed (rule scalar_encode_string)

lemma scalar_join_commas: "list_all scalar_value (join_commas ps) \<longleftrightarrow> (\<forall>p \<in> set ps. list_all scalar_value p)"
proof -
  have "scalar_value 44" by (simp add: scalar_value_def is_surrogate_def)
  then show ?thesis by (cases ps) (auto simp: join_commas_def list_all_iff)
qed

lemma traverse_defined_iff: "(\<exists>ys. traverse f xs = Inr ys) \<longleftrightarrow> (\<forall>x \<in> set xs. \<exists>y. f x = Inr y)"
  by (induction xs) (auto simp: and_then_eq_Inr)

abbreviation scalar_text :: "ustring json \<Rightarrow> ustring \<Rightarrow> bool" where
  "scalar_text v t \<equiv> encode_json v = Inr t \<and> list_all scalar_value t"

lemma items_text:
  "(\<exists>t. scalar_text (JArr xs) t) \<longleftrightarrow> (\<forall>x \<in> set xs. \<exists>t. scalar_text x t)"
proof -
  have "(\<exists>ps. traverse id (map encode_json xs) = Inr ps \<and> (\<forall>p \<in> set ps. list_all scalar_value p))
      \<longleftrightarrow> (\<forall>x \<in> set xs. \<exists>t. scalar_text x t)"
    by (induction xs) (auto simp: and_then_eq_Inr)
  moreover have "scalar_value 91" "scalar_value 93" by (simp_all add: scalar_value_def is_surrogate_def)
  ultimately show ?thesis
    by (auto simp: encode_json.simps and_then_eq_Inr encode_items_map scalar_join_commas)
qed

lemma members_text:
  "(\<exists>t. scalar_text (JObj kvs) t) \<longleftrightarrow>
     (\<forall>kv \<in> set kvs. list_all scalar_value (fst kv) \<and> (\<exists>t. scalar_text (snd kv) t))"
proof -
  let ?part = "\<lambda>(k, e). and_then e (\<lambda>t. Inr (encode_string k @ [58] @ t))"
  have keys: "(\<exists>sm. sort_members ms = Inr sm) \<longleftrightarrow> (\<forall>m \<in> set ms. utf16_be_encode (fst m) \<noteq> None)"
    for ms :: "(ustring \<times> ustring result) list"
    using sort_members_keys[of ms] sort_members_total[of ms] by auto
  have parts: "(\<exists>ps. traverse ?part sm = Inr ps \<and> (\<forall>p \<in> set ps. list_all scalar_value p))
      \<longleftrightarrow> (\<forall>m \<in> set sm. list_all scalar_value (fst m) \<and> (\<exists>t. snd m = Inr t \<and> list_all scalar_value t))"
    for sm :: "(ustring \<times> ustring result) list"
    by (induction sm) (auto simp: and_then_eq_Inr scalar_encode_string_iff scalar_value_def[of 58] is_surrogate_def)
  have sc: "scalar_value 123" "scalar_value 125" by (simp_all add: scalar_value_def is_surrogate_def)
  have "(\<exists>t. scalar_text (JObj kvs) t) \<longleftrightarrow>
      (\<exists>sm. sort_members (encode_members kvs) = Inr sm \<and>
        (\<exists>ps. traverse ?part sm = Inr ps \<and> (\<forall>p \<in> set ps. list_all scalar_value p)))"
    using sc by (auto simp: encode_json.simps and_then_eq_Inr scalar_join_commas)
  also have "\<dots> \<longleftrightarrow> (\<exists>sm. sort_members (encode_members kvs) = Inr sm) \<and>
      (\<forall>m \<in> set (encode_members kvs). list_all scalar_value (fst m) \<and> (\<exists>t. snd m = Inr t \<and> list_all scalar_value t))"
    unfolding parts using sort_members_eq[of "encode_members kvs"] by (auto dest!: arg_cong[where f = set])
  also have "\<dots> \<longleftrightarrow> (\<forall>kv \<in> set kvs. list_all scalar_value (fst kv) \<and> (\<exists>t. scalar_text (snd kv) t))"
    unfolding keys by (auto simp: encode_members_map utf16_be_encode_def)
  finally show ?thesis .
qed

lemma encodes_hashable:
  shows "(\<exists>t. scalar_text v t) \<longleftrightarrow> hashable v"
    and "\<forall>v \<in> set vs. (\<exists>t. scalar_text v t) \<longleftrightarrow> hashable v"
    and "\<forall>kv \<in> set (kvs :: (ustring \<times> ustring json) list). (\<exists>t. scalar_text (snd kv) t) \<longleftrightarrow> hashable (snd kv)"
proof (induction v and vs and kvs rule: encode_json_encode_items_encode_members.induct)
  case (6 xs)
  then show ?case unfolding items_text by (simp add: hashable_items_iff)
next
  case (7 kvs)
  then show ?case unfolding members_text by (auto simp: hashable_members_iff)
qed (auto simp: encode_json.simps scalar_encode_string_iff)

lemma canonical_defined: "(\<exists>bs. canonical_bytes v = Inr bs) \<longleftrightarrow> hashable v"
proof -
  have "(\<exists>bs. canonical_bytes v = Inr bs) \<longleftrightarrow> (\<exists>t. scalar_text v t)"
    by (auto simp: canonical_bytes_def and_then_eq_Inr utf8_encode_def split: if_splits)
  then show ?thesis by (simp only: encodes_hashable(1))
qed

section \<open>Properties\<close>

text \<open>
  Property C8. Canonical encoding is defined exactly on the hashable documents; on every other
  one it raises \<open>CanonicalizationError\<close> and nothing else.
\<close>

theorem canonical_bytes_domain:
  "case canonical_bytes v of
     Inr _ \<Rightarrow> hashable v
   | Inl e \<Rightarrow> \<not> hashable v \<and> (\<exists>m. e = CanonicalizationError m)"
  using canonical_defined[of v] canonical_bytes_error[of v] by (auto split: sum.splits)

section \<open>Members and run ids\<close>

lemma uget_hashable: "hashable (JObj d) \<Longrightarrow> hashable (uget d k)"
proof -
  assume h: "hashable (JObj d)"
  show ?thesis
  proof (cases "map_of d (ascii k)")
    case None
    then show ?thesis by (simp add: uget_def dict_get_def dict_get_default_def)
  next
    case (Some v)
    from map_of_SomeD[OF this] h have "hashable v" by (auto simp: hashable_members_iff)
    with Some show ?thesis by (simp add: uget_def dict_get_def dict_get_default_def)
  qed
qed

lemma run_id_scalar: "run_id_ok s \<Longrightarrow> list_all scalar_value s"
proof -
  assume r: "run_id_ok s"
  have "list_all scalar_value (take 4 s)" using r by (simp add: run_id_ok_def)
  moreover have "list_all scalar_value (drop 4 s)"
    using r by (auto simp: run_id_ok_def list_all_iff lower_hex_cp_def scalar_value_def is_surrogate_def)
  ultimately have "list_all scalar_value (take 4 s @ drop 4 s)" by (simp only: list_all_append)
  then show ?thesis by simp
qed

end
