(* ===== verification/Recording_Returns.thy ===== *)
theory Recording_Returns
  imports Recording Canonical_Domain
begin

text \<open>
  The recorder returns: on documents that have a canonical encoding and meet their schemas, in an
  order its numbering expects, no step of \<open>record_episode_bundle\<close> raises.
\<close>

section \<open>Durable primitives that succeed\<close>

text \<open>No file has the name of a temporary one.\<close>

definition unhidden :: "store \<Rightarrow> bool" where
  "unhidden F \<longleftrightarrow> (\<forall>ps. F ps \<noteq> None \<longrightarrow> take 1 (last ps) \<noteq> [46])"

lemma unhidden_upd: "unhidden F \<Longrightarrow> take 1 (last ps) \<noteq> [46] \<Longrightarrow> unhidden (F(ps \<mapsto> bs))"
  by (simp add: unhidden_def)

lemma map_upds_dom: "map_upds F ps bss q \<noteq> None \<Longrightarrow> q \<in> set ps \<or> F q \<noteq> None"
  by (cases "q \<in> set ps") (simp_all add: map_upds_apply_nontin)

lemma unhidden_upds:
  "unhidden F \<Longrightarrow> \<forall>ps \<in> set pss. take 1 (last ps) \<noteq> [46] \<Longrightarrow> unhidden (map_upds F pss bss)"
  unfolding unhidden_def by (metis map_upds_dom)

lemma temporary_file_path: "file_path ps \<Longrightarrow> file_path (temporary_path ps)"
proof -
  have h: "ascii ''.'' @ n @ ascii ''.tmp'' \<notin> set (map ascii DIRECTORIES)" for n
    by (auto simp: DIRECTORIES_def ascii_simps)
  assume "file_path ps"
  then show ?thesis using h by (auto simp: file_path_def temporary_path_def)
qed

lemma temporary_hidden: "file_path ps \<Longrightarrow> take 1 (last (temporary_path ps)) = [46]"
  by (simp add: temporary_path_def ascii_simps)

lemma new_file_returns:
  assumes "implements disk F" "unhidden F" "file_path ps" "F ps = None"
  shows "\<exists>disk'. atomic_new_file ps bs disk = Inr disk'"
proof -
  have "F (temporary_path ps) = None" using assms(2) temporary_hidden[OF assms(3)] by (auto simp: unhidden_def)
  with assms implements_reads(2)[OF assms(1)] temporary_file_path[OF assms(3)] show ?thesis
    by (simp add: atomic_new_file_def)
qed

lemma append_returns:
  assumes "implements disk F" "file_path ps" "F ps \<noteq> None"
  shows "\<exists>disk'. append_fsync ps bs disk = Inr disk'"
  using assms implements_reads[OF assms(1,2)] by (auto simp: append_fsync_def)

definition acceptable :: "verifier \<Rightarrow> string \<Rightarrow> ustring jobject \<Rightarrow> bool" where
  "acceptable env name d \<longleftrightarrow> hashable (JObj d) \<and> vf_schema env name (JObj d)"

lemma acceptable_valid: "acceptable env name d \<Longrightarrow> validate_instance env name (JObj d) = Inr ()"
  using canonical_defined[of "JObj d"] by (auto simp: acceptable_def validate_instance_eq_Inr)

lemma acceptable_canonical: "acceptable env name d \<Longrightarrow> \<exists>bs. canonical d bs"
  using canonical_defined[of "JObj d"] by (simp add: acceptable_def)

section \<open>Observations and raw blobs\<close>

lemma numbered_name_unhidden: "take 1 (numbered_name n) \<noteq> [46]"
proof -
  have "pad4 n \<noteq> []" "\<forall>c \<in> set (pad4 n). is_digit c"
    using show_nat_digits[of _ n] by (auto simp: pad4_def is_digit_def)
  then show ?thesis by (cases "pad4 n") (auto simp: numbered_name_def ascii_def is_digit_def)
qed

lemma numbered_name_inject: "numbered_name m = numbered_name n \<longleftrightarrow> m = n"
proof
  assume "numbered_name m = numbered_name n"
  then have "pad4 m = pad4 n" by (simp add: numbered_name_def ascii_inject)
  then have "read_nat (pad4 m) = read_nat (pad4 n)" by simp
  then show "m = n" by (simp add: pad4_def read_nat_zeros)
qed simp

lemma observation_returns:
  assumes "implements (bw_root w) F" "unhidden F" "\<not> bw_finalized w" "int n \<notin> set (bw_observations w)"
    "acceptable env ''observation'' d" "F [ascii ''observations'', numbered_name n] = None"
  shows "\<exists>w'. write_observation env (int n) d w = Inr w'"
proof -
  obtain bs where "canonical d bs" using acceptable_canonical[OF assms(5)] by blast
  with assms new_file_returns[OF assms(1,2) numbered_file_path(1) assms(6), of bs] show ?thesis
    by (auto simp: write_observation_def require_open_def w_integer_def acceptable_valid numbered_path_int on_disk_def)
qed

lemma observations_return:
  assumes "implements (bw_root w) F" "unhidden F" "\<not> bw_finalized w" "bw_observations w = map int [0..<k]"
    "list_all (acceptable env ''observation'') ds" "\<forall>n \<ge> k. F [ascii ''observations'', numbered_name n] = None"
  shows "\<exists>w'. fold_result (\<lambda>(turn, document). write_observation env (int turn) document)
    (zip [k..<k + length ds] ds) w = Inr w'"
  using assms
proof (induction ds arbitrary: k w F)
  case (Cons d ds)
  have up: "[k..<k + length (d # ds)] = k # [Suc k..<Suc k + length ds]"
    by (subst upt_conv_Cons) simp_all
  have "int k \<notin> set (bw_observations w)" by (auto simp: Cons.prems(4))
  then have "\<exists>v. write_observation env (int k) d w = Inr v"
    using Cons.prems(5,6) by (intro observation_returns[OF Cons.prems(1-3)]) simp_all
  then obtain v where v: "write_observation env (int k) d w = Inr v" by blast
  from v Cons.prems(1) obtain bs disk where o: "implements disk (F([ascii ''observations'', numbered_name k] \<mapsto> bs))"
    "v = w\<lparr>bw_root := disk, bw_observations := bw_observations w @ [int k]\<rparr>"
    by (rule write_observation_step)
  let ?F = "F([ascii ''observations'', numbered_name k] \<mapsto> bs)"
  have "\<exists>w'. fold_result (\<lambda>(turn, document). write_observation env (int turn) document)
    (zip [Suc k..<Suc k + length ds] ds) v = Inr w'"
  proof (rule Cons.IH)
    show "implements (bw_root v) ?F" "\<not> bw_finalized v" "bw_observations v = map int [0..<Suc k]"
      using o Cons.prems(3,4) by simp_all
    show "unhidden ?F" using Cons.prems(2) numbered_name_unhidden by (intro unhidden_upd) simp_all
    show "list_all (acceptable env ''observation'') ds" using Cons.prems(5) by simp
    show "\<forall>n \<ge> Suc k. ?F [ascii ''observations'', numbered_name n] = None"
      using Cons.prems(6) by (auto simp: numbered_name_inject)
  qed
  with v show ?case unfolding up by (simp del: upt_Suc)
qed simp

lemma raw_ref_name:
  assumes "raw_ref_ok ref"
  shows "path_parts ref = [ascii ''raw'', drop 4 ref]" "ref = raw_path (drop 4 ref)" "take 1 (drop 4 ref) \<noteq> [46]"
proof -
  let ?n = "drop 4 ref"
  have r: "ref = raw_path ?n" "raw_name ?n \<noteq> None"
    using assms append_take_drop_id[of 4 ref] by (auto simp: raw_ref_ok_def raw_path_def)
  then show "ref = raw_path ?n" by simp
  have "relative_path ref [ascii ''raw'', ?n]"
    by (subst r(1), unfold raw_path_def, rule store_paths(2))
       (use raw_name_plain[OF r(2)] in \<open>simp_all add: DIRECTORIES_def\<close>)
  then show "path_parts ref = [ascii ''raw'', ?n]" by (simp add: relative_path_def)
  have "all_digits (take 4 ?n)" "length ?n = 11" using r(2) by (auto simp: raw_name_def split: if_splits)
  then show "take 1 ?n \<noteq> [46]" by (cases ?n) (auto simp: all_digits_def is_digit_cp_def)
qed

lemma raws_return:
  assumes "implements (bw_root w) F" "unhidden F" "\<not> bw_finalized w"
    "\<forall>ref \<in> set refs. raw_ref_ok ref \<and> map_of blobs ref \<noteq> None \<and> F [ascii ''raw'', drop 4 ref] = None"
    "distinct refs" "set refs \<inter> set (bw_raw_refs w) = {}"
  shows "\<exists>w'. fold_result (write_blob blobs) refs w = Inr w'"
  using assms
proof (induction refs arbitrary: w F)
  case (Cons ref refs)
  from Cons.prems(4) obtain data where d: "raw_ref_ok ref" "map_of blobs ref = Some data"
    "F [ascii ''raw'', drop 4 ref] = None" by auto
  note n = raw_ref_name[OF d(1)]
  obtain disk0 where "atomic_new_file (path_parts ref) data (bw_root w) = Inr disk0"
    using new_file_returns[OF Cons.prems(1,2) numbered_file_path(3) d(3), of data] unfolding n(1) by blast
  then obtain v where v: "write_blob blobs ref w = Inr v"
    using d Cons.prems(3,6) by (simp add: write_blob_def write_raw_def require_open_def on_disk_def)
  from v Cons.prems(1) obtain data' name disk where o: "ref = raw_path name" "implements disk (F([ascii ''raw'', name] \<mapsto> data'))"
    "v = w\<lparr>bw_root := disk, bw_raw_refs := bw_raw_refs w @ [ref]\<rparr>" by (rule write_raw_step)
  let ?F = "F([ascii ''raw'', name] \<mapsto> data')"
  have "\<exists>w'. fold_result (write_blob blobs) refs v = Inr w'"
  proof (rule Cons.IH)
    show "implements (bw_root v) ?F" "\<not> bw_finalized v" using o Cons.prems(3) by simp_all
    show "unhidden ?F" using Cons.prems(2) n(3) o(1) by (intro unhidden_upd) simp_all
    show "distinct refs" "set refs \<inter> set (bw_raw_refs v) = {}" using Cons.prems(5,6) o(3) by auto
    show "\<forall>ref \<in> set refs. raw_ref_ok ref \<and> map_of blobs ref \<noteq> None \<and> ?F [ascii ''raw'', drop 4 ref] = None"
    proof
      fix ref' assume r: "ref' \<in> set refs"
      then have "raw_ref_ok ref'" "ref' \<noteq> ref" using Cons.prems(4,5) by auto
      with raw_ref_name(2)[of ref'] o(1) have "drop 4 ref' \<noteq> name" by metis
      with r Cons.prems(4) show "raw_ref_ok ref' \<and> map_of blobs ref' \<noteq> None \<and> ?F [ascii ''raw'', drop 4 ref'] = None"
        by simp
    qed
  qed
  with v show ?case by simp
qed simp
section \<open>The chains\<close>

lemma genesis_defined:
  assumes "list_all scalar_value run_id" "well_formed_hash p" "well_formed_hash a" "well_formed_hash c"
  shows "\<exists>g. chain_genesis stream run_id (ascii p) a c = Inr (sha256_prefixed g)"
proof -
  have "hashable (genesis_document stream run_id p a c)"
    using assms(1) by (simp add: genesis_document_def utext_def)
  then obtain bs where "canonical_bytes (genesis_document stream run_id p a c) = Inr bs"
    using canonical_defined by blast
  then have "chain_genesis stream run_id (ascii p) a c = Inr (sha256_prefixed bs)"
    using assms by (simp add: chain_genesis_def require_hash_text_def require_hash_def content_hash_def)
  then show ?thesis by blast
qed

lemma builder_defined: "make_ChainBuilder stream (sha256_prefixed g)
    = Inr \<lparr>cb_stream = stream, cb_genesis = sha256_prefixed g, cb_head = sha256_prefixed g, cb_count = 0\<rparr>"
  by (simp add: make_ChainBuilder_def require_hash_def)

text \<open>A chain that can be appended to.\<close>

definition open_chain :: "ChainBuilder \<Rightarrow> bool" where
  "open_chain b \<longleftrightarrow> well_formed_hash (cb_head b)"

lemma chain_append_returns:
  assumes "open_chain b" "int (cb_count b) \<le> MAX_SAFE_INT"
  shows "\<exists>cb l lb. chain_append b bs = Inr (cb, l) \<and> canonical l lb"
proof -
  let ?k = "sha256_prefixed (link_bytes (cb_stream b) (cb_count b) (sha256_prefixed bs) (cb_head b))"
  have "chain_link_value (cb_stream b) (cb_count b) (sha256_prefixed bs) (cb_head b) = Inr ?k"
    using assms by (simp add: chain_link_value_eq open_chain_def)
  then have "chain_append b bs = Inr (b\<lparr>cb_head := ?k, cb_count := cb_count b + 1\<rparr>,
      link_entry (cb_stream b) (cb_count b) (sha256_prefixed bs) ?k)"
    by (simp add: chain_append_def Let_def)
  moreover have "hashable (JObj (link_entry (cb_stream b) (cb_count b) (sha256_prefixed bs) ?k))"
    using assms(2) by (simp add: link_entry_def utext_def MAX_SAFE_INT_def)
  then obtain lb where "canonical (link_entry (cb_stream b) (cb_count b) (sha256_prefixed bs) ?k) lb"
    using canonical_defined by blast
  ultimately show ?thesis by blast
qed

lemma chain_append_open:
  assumes "chain_append b bs = Inr (cb, l)" "open_chain b" "int (cb_count b) \<le> MAX_SAFE_INT"
  shows "open_chain cb" "cb_count cb = cb_count b + 1"
  using assms by (auto simp: chain_append_def Let_def and_then_eq_Inr chain_link_value_eq open_chain_def)

section \<open>Events and decisions\<close>

lemma event_returns:
  assumes "implements (bw_root w) F" "F (top ''events.jsonl'') \<noteq> None" "F (top ''chain.jsonl'') \<noteq> None"
    and "\<not> bw_finalized w" "open_chain (bw_event_chain w)" "int (cb_count (bw_event_chain w)) \<le> MAX_SAFE_INT"
    and "acceptable env ''event'' e" "uget e ''seq'' = JInt (int (cb_count (bw_event_chain w)))"
  shows "\<exists>w'. append_event env e w = Inr w'"
proof -
  obtain bs where bs: "canonical e bs" using acceptable_canonical[OF assms(7)] by blast
  obtain cb l lb where c: "chain_append (bw_event_chain w) bs = Inr (cb, l)" "canonical l lb"
    using chain_append_returns[OF assms(5,6), of bs] by blast
  obtain d1 where d1: "append_fsync (top ''events.jsonl'') (bs @ [10]) (bw_root w) = Inr d1"
    using append_returns[OF assms(1) stream_file_paths(1) assms(2)] by blast
  from assms(2) obtain old where "F (top ''events.jsonl'') = Some old" by blast
  from append_fsync_store[OF d1 assms(1) stream_file_paths(1) this]
  have i1: "implements d1 (F(top ''events.jsonl'' \<mapsto> old @ bs @ [10]))" .
  obtain d2 where "append_fsync (top ''chain.jsonl'') (lb @ [10]) d1 = Inr d2"
    using append_returns[OF i1 stream_file_paths(2)] assms(3) by auto
  then show ?thesis
    using assms(4,8) bs c d1 acceptable_valid[OF assms(7)]
    by (simp add: append_event_def require_open_def w_integer_def on_disk_def Let_def)
qed

lemma events_return:
  assumes "implements (bw_root w) F" "F (top ''events.jsonl'') \<noteq> None" "F (top ''chain.jsonl'') \<noteq> None"
    and "\<not> bw_finalized w" "open_chain (bw_event_chain w)"
    and "int (cb_count (bw_event_chain w) + length es) \<le> MAX_SAFE_INT"
    and "list_all (acceptable env ''event'') es"
      "\<forall>i < length es. uget (es ! i) ''seq'' = JInt (int (cb_count (bw_event_chain w) + i))"
  shows "\<exists>w'. fold_result (append_event env) es w = Inr w'"
  using assms
proof (induction es arbitrary: w F)
  case (Cons e es)
  have n: "int (cb_count (bw_event_chain w)) \<le> MAX_SAFE_INT" using Cons.prems(6) by simp
  have e: "acceptable env ''event'' e" "uget e ''seq'' = JInt (int (cb_count (bw_event_chain w)))"
    using Cons.prems(7,8) by auto
  obtain v where v: "append_event env e w = Inr v"
    using event_returns[OF Cons.prems(1-5) n e] by blast
  from Cons.prems(2,3) obtain es0 ls0 where "F (top ''events.jsonl'') = Some es0" "F (top ''chain.jsonl'') = Some ls0" by auto
  with v Cons.prems(1) obtain bs cb l lb disk where o: "chain_append (bw_event_chain w) bs = Inr (cb, l)"
    "implements disk (F(top ''events.jsonl'' \<mapsto> es0 @ bs @ [10], top ''chain.jsonl'' \<mapsto> ls0 @ lb @ [10]))"
    "v = w\<lparr>bw_root := disk, bw_event_chain := cb, bw_last_event := Some e\<rparr>"
    by (rule append_event_step)
  note oc = chain_append_open[OF o(1) Cons.prems(5) n]
  have "\<exists>w'. fold_result (append_event env) es v = Inr w'"
  proof (rule Cons.IH)
    show "implements (bw_root v) (F(top ''events.jsonl'' \<mapsto> es0 @ bs @ [10], top ''chain.jsonl'' \<mapsto> ls0 @ lb @ [10]))"
      using o(2,3) by simp
    show "int (cb_count (bw_event_chain v) + length es) \<le> MAX_SAFE_INT" using oc o(3) Cons.prems(6) by simp
    show "\<forall>i < length es. uget (es ! i) ''seq'' = JInt (int (cb_count (bw_event_chain v) + i))"
      using Cons.prems(8) oc o(3) by force
  qed (use o(3) oc Cons.prems(4,7) in simp_all)
  with v show ?case by simp
qed simp

lemma decision_returns:
  assumes "implements (bw_root w) F" "unhidden F" "F (top ''chain.jsonl'') \<noteq> None"
    and "F [ascii ''decisions'', numbered_name (cb_count (bw_decision_chain w))] = None"
    and "\<not> bw_finalized w" "open_chain (bw_decision_chain w)" "int (cb_count (bw_decision_chain w)) \<le> MAX_SAFE_INT"
    and "acceptable env ''decision_record'' d" "uget d ''turn'' = JInt (int (cb_count (bw_decision_chain w)))"
      "uget d ''run_id'' = uget (bw_manifest w) ''run_id''"
  shows "\<exists>w'. append_decision env d w = Inr w'"
proof -
  let ?p = "[ascii ''decisions'', numbered_name (cb_count (bw_decision_chain w))]"
  obtain bs where bs: "canonical d bs" using acceptable_canonical[OF assms(8)] by blast
  obtain cb l lb where c: "chain_append (bw_decision_chain w) bs = Inr (cb, l)" "canonical l lb"
    using chain_append_returns[OF assms(6,7), of bs] by blast
  obtain d1 where d1: "atomic_new_file ?p bs (bw_root w) = Inr d1"
    using new_file_returns[OF assms(1,2) numbered_file_path(2) assms(4)] by blast
  from atomic_new_file_store(1)[OF d1 assms(1) numbered_file_path(2)] have i1: "implements d1 (F(?p \<mapsto> bs))" .
  obtain d2 where "append_fsync (top ''chain.jsonl'') (lb @ [10]) d1 = Inr d2"
    using append_returns[OF i1 stream_file_paths(2)] assms(3) by auto
  then show ?thesis
    using assms(5,9,10) bs c d1 acceptable_valid[OF assms(8)]
    by (simp add: append_decision_def require_open_def w_integer_def on_disk_def Let_def numbered_path_int)
qed

lemma decisions_return:
  assumes "implements (bw_root w) F" "unhidden F" "F (top ''chain.jsonl'') \<noteq> None"
    and "\<forall>n \<ge> cb_count (bw_decision_chain w). F [ascii ''decisions'', numbered_name n] = None"
    and "\<not> bw_finalized w" "open_chain (bw_decision_chain w)"
    and "int (cb_count (bw_decision_chain w) + length ds) \<le> MAX_SAFE_INT"
    and "list_all (acceptable env ''decision_record'') ds"
      "\<forall>i < length ds. uget (ds ! i) ''turn'' = JInt (int (cb_count (bw_decision_chain w) + i))"
      "\<forall>d \<in> set ds. uget d ''run_id'' = uget (bw_manifest w) ''run_id''"
  shows "\<exists>w'. fold_result (append_decision env) ds w = Inr w'"
  using assms
proof (induction ds arbitrary: w F)
  case (Cons d ds)
  let ?n = "cb_count (bw_decision_chain w)"
  have n: "int ?n \<le> MAX_SAFE_INT" using Cons.prems(7) by simp
  have d: "F [ascii ''decisions'', numbered_name ?n] = None" "acceptable env ''decision_record'' d"
    "uget d ''turn'' = JInt (int ?n)" "uget d ''run_id'' = uget (bw_manifest w) ''run_id''"
    using Cons.prems(4,8-10) by auto
  obtain v where v: "append_decision env d w = Inr v"
    using decision_returns[OF Cons.prems(1-3) d(1) Cons.prems(5,6) n d(2-4)] by blast
  from Cons.prems(3) obtain ls0 where "F (top ''chain.jsonl'') = Some ls0" by auto
  with v Cons.prems(1) obtain bs cb l lb disk where o: "chain_append (bw_decision_chain w) bs = Inr (cb, l)"
    "implements disk (F([ascii ''decisions'', numbered_name ?n] \<mapsto> bs, top ''chain.jsonl'' \<mapsto> ls0 @ lb @ [10]))"
    "v = w\<lparr>bw_root := disk, bw_decision_chain := cb\<rparr>" by (rule append_decision_step)
  let ?F = "F([ascii ''decisions'', numbered_name ?n] \<mapsto> bs, top ''chain.jsonl'' \<mapsto> ls0 @ lb @ [10])"
  note oc = chain_append_open[OF o(1) Cons.prems(6) n]
  have "\<exists>w'. fold_result (append_decision env) ds v = Inr w'"
  proof (rule Cons.IH)
    show "implements (bw_root v) ?F" using o(2,3) by simp
    show "unhidden ?F" using Cons.prems(2) numbered_name_unhidden
      by (intro unhidden_upd) (simp_all add: top_def ascii_simps)
    show "\<forall>n \<ge> cb_count (bw_decision_chain v). ?F [ascii ''decisions'', numbered_name n] = None"
      using Cons.prems(4) oc o(3) by (auto simp: numbered_name_inject)
    show "int (cb_count (bw_decision_chain v) + length ds) \<le> MAX_SAFE_INT" using oc o(3) Cons.prems(7) by simp
    show "\<forall>i < length ds. uget (ds ! i) ''turn'' = JInt (int (cb_count (bw_decision_chain v) + i))"
      using Cons.prems(9) oc o(3) by force
  qed (use o(3) oc Cons.prems(5,8,10) in simp_all)
  with v show ?case by simp
qed simp
section \<open>Ledgers and metrics\<close>

lemma row_returns:
  assumes "acceptable env ''ledger_row'' row" "balanced_row profile row"
  shows "check_written_row env profile row = Inr ()"
proof -
  have i: "w_integer (JInt n) (- (2 ^ 53 - 1)) = Inr n" if "uget row f = JInt n" for f n
  proof -
    have "hashable (uget row f)" using assms(1) by (intro uget_hashable) (simp add: acceptable_def)
    then have "- MAX_SAFE_INT \<le> n" using that by simp
    then show ?thesis by (simp add: w_integer_def MAX_SAFE_INT_def)
  qed
  from assms(2) obtain price funding fees penalty where r: "uget row ''profile'' = utext profile"
    "uget row ''d_price_pnl_micro'' = JInt price" "uget row ''d_funding_micro'' = JInt funding"
    "uget row ''d_fees_micro'' = JInt fees" "uget row ''d_liq_penalty_micro'' = JInt penalty"
    "uget row ''d_nav_micro'' = JInt (price + funding + fees + penalty)" by (auto simp: balanced_row_def)
  note j = r(2-6)[THEN i]
  show ?thesis
    unfolding check_written_row_def r list.map traverse.simps j acceptable_valid[OF assms(1)] by (simp add: add.assoc)
qed

lemma jsonl_returns: "list_all (acceptable env name) rows \<Longrightarrow> \<exists>bs. canonical_jsonl rows = Inr bs"
proof -
  assume "list_all (acceptable env name) rows"
  then have "\<forall>row \<in> set rows. \<exists>l. canonical_line row = Inr l"
    using acceptable_canonical by (fastforce simp: list_all_iff canonical_line_def)
  then obtain ls where "traverse canonical_line rows = Inr ls" using traverse_defined_iff[of canonical_line rows] by blast
  then show ?thesis by (simp add: canonical_jsonl_def)
qed

lemma ledgers_return:
  assumes "implements (bw_root w) F" "unhidden F" "\<not> bw_finalized w"
    and "F (top ''ledger.jsonl'') = None" "F (top ''ledger_stress_2x.jsonl'') = None"
    and "length primary = length stress" "list_all (acceptable env ''ledger_row'') (primary @ stress)"
    and "list_all (balanced_row ''primary'') primary" "list_all (balanced_row ''stress_2x'') stress"
  obtains pb sb disk where "write_ledgers env primary stress w = Inr (w\<lparr>bw_root := disk\<rparr>)"
    "implements disk (F(top ''ledger.jsonl'' \<mapsto> pb, top ''ledger_stress_2x.jsonl'' \<mapsto> sb))"
proof -
  have names: "file_path (top ''ledger.jsonl'')" "file_path (top ''ledger_stress_2x.jsonl'')"
    by (simp_all add: top_paths(2) BUNDLE_FILES_def)
  obtain pb sb where b: "canonical_jsonl primary = Inr pb" "canonical_jsonl stress = Inr sb"
    using jsonl_returns[of env "''ledger_row''"] assms(7) by fastforce
  obtain d1 where d1: "atomic_new_file (top ''ledger.jsonl'') pb (bw_root w) = Inr d1"
    using new_file_returns[OF assms(1,2) names(1) assms(4)] by blast
  note i1 = atomic_new_file_store(1)[OF d1 assms(1) names(1)]
  have u: "unhidden (F(top ''ledger.jsonl'' \<mapsto> pb))"
    using assms(2) by (rule unhidden_upd) (simp add: top_def ascii_simps)
  obtain d2 where d2: "atomic_new_file (top ''ledger_stress_2x.jsonl'') sb d1 = Inr d2"
    using new_file_returns[OF i1 u names(2)] assms(5) by auto
  note i2 = atomic_new_file_store(1)[OF d2 i1 names(2)]
  have "check_written_row env ''primary'' x = Inr ()" if "x \<in> set primary" for x
    using assms(7,8) that row_returns by (auto simp: list_all_iff)
  then obtain us where "traverse (check_written_row env ''primary'') primary = Inr us"
    using traverse_accepts[of primary "check_written_row env ''primary''"] by blast
  moreover have "check_written_row env ''stress_2x'' x = Inr ()" if "x \<in> set stress" for x
    using assms(7,9) that row_returns by (auto simp: list_all_iff)
  then obtain vs where "traverse (check_written_row env ''stress_2x'') stress = Inr vs"
    using traverse_accepts[of stress "check_written_row env ''stress_2x''"] by blast
  ultimately have "write_ledgers env primary stress w = Inr (w\<lparr>bw_root := d2\<rparr>)"
    using assms(3,6) b d1 d2 by (simp add: write_ledgers_def require_open_def on_disk_def)
  then show thesis using i2 by (rule that)
qed

lemma metrics_return:
  assumes "implements (bw_root w) F" "unhidden F" "\<not> bw_finalized w" "F (top ''metrics.json'') = None"
    and "acceptable env ''metrics'' document" "uget document ''run_id'' = uget (bw_manifest w) ''run_id''"
    and "canonical document bs"
  obtains disk where "write_metrics env document w = Inr (w\<lparr>bw_root := disk\<rparr>)"
    "implements disk (F(top ''metrics.json'' \<mapsto> bs @ [10]))"
proof -
  have name: "file_path (top ''metrics.json'')" by (simp add: top_paths(2) BUNDLE_FILES_def)
  obtain d1 where d1: "atomic_new_file (top ''metrics.json'') (bs @ [10]) (bw_root w) = Inr d1"
    using new_file_returns[OF assms(1,2) name assms(4)] by blast
  have "write_metrics env document w = Inr (w\<lparr>bw_root := d1\<rparr>)"
    using assms(3,6,7) acceptable_valid[OF assms(5)] d1
    by (simp add: write_metrics_def require_open_def canonical_line_def on_disk_def)
  then show thesis using atomic_new_file_store(1)[OF d1 assms(1) name] by (rule that)
qed

section \<open>The writer is created and finalized\<close>

lemma writer_created:
  assumes "acceptable env ''agent_manifest'' agent" "acceptable env ''bundle_manifest'' manifest"
    and "canonical agent ab" "uget manifest ''agent_manifest_sha256'' = utext (sha256_prefixed ab)"
    and "uget manifest ''run_id'' = JStr run_id" "run_id_ok run_id" "uget manifest ''pack'' = JObj pack"
    and "uget pack ''content_hash'' = utext h" "well_formed_hash h" "uget manifest ''run_config'' = JObj run_config"
  shows "\<exists>w. create_writer env None manifest agent = Inr w"
proof -
  obtain mb where mb: "canonical manifest mb" using acceptable_canonical[OF assms(2)] by blast
  have hm: "hashable (JObj manifest)" using assms(2) by (simp add: acceptable_def)
  from uget_hashable[OF this, of "''run_config''"] assms(10) have "hashable (JObj run_config)" by simp
  then obtain cb where cb: "canonical run_config cb" using canonical_defined by blast
  have names: "file_path (top ''agent_manifest.json'')" "file_path (top ''manifest.json'')"
    by (simp_all add: top_paths(2) BUNDLE_FILES_def)
  have ut: "take 1 (last (top n)) \<noteq> [46]" if "n \<in> set BUNDLE_FILES" for n
    using that by (auto simp: BUNDLE_FILES_def top_def ascii_simps)
  have u0: "unhidden Map.empty" by (simp add: unhidden_def)
  obtain d1 where d1: "atomic_new_file (top ''agent_manifest.json'') ab EMPTY_BUNDLE = Inr d1"
    using new_file_returns[OF empty_bundle_implements u0 names(1)] by auto
  note i1 = atomic_new_file_store(1)[OF d1 empty_bundle_implements names(1)]
  note u1 = unhidden_upd[OF u0 ut[of "''agent_manifest.json''"], of ab]
  obtain d2 where d2: "atomic_new_file (top ''manifest.json'') mb d1 = Inr d2"
    using new_file_returns[OF i1 u1 names(2)] by (auto simp: BUNDLE_FILES_def)
  note i2 = atomic_new_file_store(1)[OF d2 i1 names(2)]
  note u2 = unhidden_upd[OF u1 ut[of "''manifest.json''"], of mb]
  obtain d3 where d3: "atomic_new_file (top ''events.jsonl'') [] d2 = Inr d3"
    using new_file_returns[OF i2 u2 stream_file_paths(1)] by (auto simp: BUNDLE_FILES_def)
  note i3 = atomic_new_file_store(1)[OF d3 i2 stream_file_paths(1)]
  note u3 = unhidden_upd[OF u2 ut[of "''events.jsonl''"], of "[]"]
  obtain d4 where d4: "atomic_new_file (top ''chain.jsonl'') [] d3 = Inr d4"
    using new_file_returns[OF i3 u3 stream_file_paths(2)] by (auto simp: BUNDLE_FILES_def)
  have rc: "run_config_sha256 (JObj run_config) = Inr (sha256_prefixed cb)"
    by (simp add: run_config_sha256_def content_hash_def cb)
  have gen: "\<exists>g. chain_genesis stream run_id (ascii h) (sha256_prefixed ab) (sha256_prefixed cb) = Inr (sha256_prefixed g)"
    for stream by (rule genesis_defined[OF run_id_scalar[OF assms(6)] assms(9)]) simp_all
  from gen[of "''events''"] gen[of "''decisions''"] obtain eg dg where
    "chain_genesis ''events'' run_id (ascii h) (sha256_prefixed ab) (sha256_prefixed cb) = Inr (sha256_prefixed eg)"
    "chain_genesis ''decisions'' run_id (ascii h) (sha256_prefixed ab) (sha256_prefixed cb) = Inr (sha256_prefixed dg)"
    by blast
  then show ?thesis
    using assms(3-8,10) acceptable_valid[OF assms(1)] acceptable_valid[OF assms(2)] mb rc d1 d2 d3 d4
    by (simp add: create_writer_def Let_def utext_def builder_defined w_mapping_def w_string_def)
qed
text \<open>The schema of the seal accepts every document of the form the writer makes.\<close>

definition schema_accepts_seals :: "verifier \<Rightarrow> bool" where
  "schema_accepts_seals env \<longleftrightarrow>
     (\<forall>w files h. run_id_ok (case uget (bw_manifest w) ''run_id'' of JStr s \<Rightarrow> s | _ \<Rightarrow> []) \<and>
        open_chain (bw_event_chain w) \<and> open_chain (bw_decision_chain w) \<and>
        map fst files = map ascii REQUIRED_FILES \<and>
        (\<forall>f \<in> set files. \<exists>h. snd f = utext h \<and> well_formed_hash h) \<and> well_formed_hash h \<longrightarrow>
        vf_schema env ''chain'' (JObj (seal_document w files @ [(ascii ''root'', utext h)])))"

lemma required_hashes:
  assumes "implements disk F" "\<forall>n \<in> set REQUIRED_FILES. F (top n) \<noteq> None"
  obtains files where "traverse (\<lambda>name. and_then (read_bytes disk (top name))
      (\<lambda>bs. Inr (ascii name, utext (sha256_prefixed bs)))) REQUIRED_FILES = Inr files"
    "map fst files = map ascii REQUIRED_FILES" "\<forall>f \<in> set files. \<exists>h. snd f = utext h \<and> well_formed_hash h"
    "list_all (\<lambda>name. is_file disk (top name)) REQUIRED_FILES"
proof -
  let ?read = "\<lambda>name. and_then (read_bytes disk (top name)) (\<lambda>bs. Inr (ascii name, utext (sha256_prefixed bs)))"
  have fp: "file_path (top n)" if "n \<in> set REQUIRED_FILES" for n
    by (rule top_paths(2)) (use that in \<open>auto simp: REQUIRED_FILES_def BUNDLE_FILES_def\<close>)
  have rd: "?read n = Inr (ascii n, utext (sha256_prefixed (the (F (top n)))))" if n: "n \<in> set REQUIRED_FILES" for n
  proof -
    from assms(2) n obtain bs where bs: "F (top n) = Some bs" by blast
    with implements_reads(1)[OF assms(1) fp[OF n]] have "read_bytes disk (top n) = Inr bs"
      by (simp only: option.case)
    with bs show ?thesis by simp
  qed
  let ?files = "map (\<lambda>n. (ascii n, utext (sha256_prefixed (the (F (top n)))))) REQUIRED_FILES"
  have "traverse ?read REQUIRED_FILES = Inr ?files"
    using rd by (intro traverse_pointwise) (simp add: list_all2_conv_all_nth)
  moreover have "\<forall>f \<in> set ?files. \<exists>h. snd f = utext h \<and> well_formed_hash h"
    using sha256_prefixed_well_formed by auto
  moreover have "list_all (\<lambda>name. is_file disk (top name)) REQUIRED_FILES"
    unfolding list_all_iff using implements_reads(4)[OF assms(1) fp] assms(2) by blast
  moreover have "map fst ?files = map ascii REQUIRED_FILES" unfolding map_map comp_def fst_conv ..
  ultimately show thesis using that by blast
qed

lemma finalize_returns:
  assumes "implements (bw_root w) F" "unhidden F" "\<not> bw_finalized w"
    and files: "\<forall>n \<in> set REQUIRED_FILES. F (top n) \<noteq> None" "F (top ''chain.json'') = None"
    and ending: "bw_last_event w = Some e" "uget e ''type'' = utext ''EpisodeEnd''" "uget e ''payload'' = JObj p"
      "uget p ''metrics_sha256'' = utext (sha256_prefixed m)" "F (top ''metrics.json'') = Some m"
    and counts: "bw_observations w = map int [0..<cb_count (bw_decision_chain w)]"
      "int (cb_count (bw_event_chain w)) \<le> MAX_SAFE_INT" "int (cb_count (bw_decision_chain w)) \<le> MAX_SAFE_INT"
      "int (length (bw_raw_refs w)) \<le> MAX_SAFE_INT"
    and ids: "uget (bw_manifest w) ''run_id'' = JStr run_id" "run_id_ok run_id"
      "open_chain (bw_event_chain w)" "open_chain (bw_decision_chain w)"
    and env: "schema_accepts_seals env"
  shows "\<exists>w' seal. finalize env w = Inr (w', seal)"
proof -
  obtain fs where fs: "traverse (\<lambda>name. and_then (read_bytes (bw_root w) (top name))
      (\<lambda>bs. Inr (ascii name, utext (sha256_prefixed bs)))) REQUIRED_FILES = Inr fs"
    "map fst fs = map ascii REQUIRED_FILES" "\<forall>f \<in> set fs. \<exists>h. snd f = utext h \<and> well_formed_hash h"
    "list_all (\<lambda>name. is_file (bw_root w) (top name)) REQUIRED_FILES" by (rule required_hashes[OF assms(1) files(1)])
  have "\<forall>f \<in> set fs. list_all scalar_value (fst f)"
  proof
    fix f assume "f \<in> set fs"
    then have "fst f \<in> set (map ascii REQUIRED_FILES)" unfolding fs(2)[symmetric] by simp
    then show "list_all scalar_value (fst f)" by auto
  qed
  then have hf: "hashable_members fs" using fs(3) by (auto simp: hashable_members_iff utext_def)
  then have hd: "hashable (JObj (seal_document w fs @ xs))" if "hashable_members xs" for xs
    using that counts ids(1) run_id_scalar[OF ids(2)]
    by (simp add: seal_document_def stream_head_def utext_def MAX_SAFE_INT_def hashable_members_iff)
  have un: "unrooted (seal_document w fs) = seal_document w fs" by (simp add: seal_document_def)
  have "hashable (JObj (seal_document w fs))" using hd[of "[]"] by simp
  then obtain ub where "canonical (seal_document w fs) ub" using canonical_defined by blast
  then have sr: "seal_root (seal_document w fs) = Inr (sha256_prefixed ub)"
    by (simp add: seal_root_def un content_hash_def)
  let ?seal = "seal_document w fs @ [(ascii ''root'', utext (sha256_prefixed ub))]"
  have "hashable (JObj ?seal)" by (rule hd) (simp add: utext_def)
  moreover have "vf_schema env ''chain'' (JObj ?seal)"
    using env ids fs(2,3) sha256_prefixed_well_formed by (simp add: schema_accepts_seals_def)
  ultimately have ac: "acceptable env ''chain'' ?seal" by (simp add: acceptable_def)
  obtain sb where sb: "canonical ?seal sb" using acceptable_canonical[OF ac] by blast
  have "file_path (top ''chain.json'')" by (simp add: top_paths(2) BUNDLE_FILES_def)
  from new_file_returns[OF assms(1,2) this files(2)] obtain d where
    d: "atomic_new_file (top ''chain.json'') sb (bw_root w) = Inr d" by blast
  have "file_path (top ''metrics.json'')" by (simp add: top_paths(2) BUNDLE_FILES_def)
  from implements_reads(1)[OF assms(1) this] ending(5)
  have mr: "read_bytes (bw_root w) (top ''metrics.json'') = Inr m" by simp
  have run: "dict_has (bw_manifest w) (ascii ''run_id'')" by (rule has_member) (simp add: ids(1))
  have obs: "set (bw_observations w) = int ` {0..<cb_count (bw_decision_chain w)}"
    "length (bw_observations w) = cb_count (bw_decision_chain w)" by (simp_all add: counts(1))
  have "finalize env w = Inr (w\<lparr>bw_root := d, bw_finalized := True\<rparr>, ?seal)"
    using assms(3) fs(1,4) obs
    by (simp add: finalize_def require_open_def ending(1-4) w_mapping_def mr run sr
        acceptable_valid[OF ac] sb d on_disk_def Let_def)
  then show ?thesis by blast
qed
section \<open>The recorder returns\<close>

text \<open>
  What the caller of the recorder owes it: documents with a canonical encoding that meet their
  schemas, events and decisions numbered from 0, one decision for every observation, ledger rows
  that add up, and an \<open>EpisodeEnd\<close> that names the metrics that are written.
\<close>

definition names_manifest :: "verifier \<Rightarrow> ustring jobject \<Rightarrow> ustring jobject \<Rightarrow> ustring \<Rightarrow> bool" where
  "names_manifest env manifest agent run_id \<longleftrightarrow>
     acceptable env ''agent_manifest'' agent \<and> acceptable env ''bundle_manifest'' manifest \<and>
     uget manifest ''run_id'' = JStr run_id \<and> run_id_ok run_id \<and>
     (\<exists>ab. canonical agent ab \<and> uget manifest ''agent_manifest_sha256'' = utext (sha256_prefixed ab)) \<and>
     (\<exists>pack h. uget manifest ''pack'' = JObj pack \<and> uget pack ''content_hash'' = utext h \<and> well_formed_hash h) \<and>
     (\<exists>c. uget manifest ''run_config'' = JObj c)"

definition numbered :: "string \<Rightarrow> ustring jobject list \<Rightarrow> bool" where
  "numbered field ds \<longleftrightarrow> (\<forall>i < length ds. uget (ds ! i) field = JInt (int i))"

definition proper_streams :: "verifier \<Rightarrow> recording \<Rightarrow> ustring jobject list \<Rightarrow> bool" where
  "proper_streams env rc ds \<longleftrightarrow>
     list_all (acceptable env ''observation'') (rc_observations rc) \<and>
     list_all (\<lambda>(ref, _). raw_ref_ok ref) (rc_raw_blobs rc) \<and> distinct (map fst (rc_raw_blobs rc)) \<and>
     list_all (acceptable env ''event'') (rc_events rc) \<and> numbered ''seq'' (rc_events rc) \<and>
     generate_decision_records (rc_events rc) (rc_ledger_primary rc) (rc_run_id rc) = Inr ds \<and>
     list_all (acceptable env ''decision_record'') ds \<and> numbered ''turn'' ds \<and>
     (\<forall>d \<in> set ds. uget d ''run_id'' = JStr (rc_run_id rc)) \<and> length ds = length (rc_observations rc) \<and>
     int (length (rc_events rc)) \<le> MAX_SAFE_INT \<and> int (length ds) \<le> MAX_SAFE_INT \<and>
     int (length (rc_raw_blobs rc)) \<le> MAX_SAFE_INT"

definition proper_ledgers :: "verifier \<Rightarrow> recording \<Rightarrow> bool" where
  "proper_ledgers env rc \<longleftrightarrow>
     length (rc_ledger_primary rc) = length (rc_ledger_stress_2x rc) \<and>
     list_all (acceptable env ''ledger_row'') (rc_ledger_primary rc @ rc_ledger_stress_2x rc) \<and>
     list_all (balanced_row ''primary'') (rc_ledger_primary rc) \<and>
     list_all (balanced_row ''stress_2x'') (rc_ledger_stress_2x rc)"

definition proper_ending :: "verifier \<Rightarrow> recording \<Rightarrow> bool" where
  "proper_ending env rc \<longleftrightarrow>
     acceptable env ''metrics'' (rc_metrics rc) \<and> uget (rc_metrics rc) ''run_id'' = JStr (rc_run_id rc) \<and>
     rc_events rc \<noteq> [] \<and> uget (last (rc_events rc)) ''type'' = utext ''EpisodeEnd'' \<and>
     (\<exists>p m. canonical (rc_metrics rc) m \<and> uget (last (rc_events rc)) ''payload'' = JObj p \<and>
        uget p ''metrics_sha256'' = utext (sha256_prefixed (m @ [10])))"

text \<open>The writer's tree, by what lies in it.\<close>

definition CREATED_FILES :: "string list" where
  "CREATED_FILES = [''agent_manifest.json'', ''manifest.json'', ''events.jsonl'', ''chain.jsonl'']"

definition laid_out :: "store \<Rightarrow> string list \<Rightarrow> ustring list set \<Rightarrow> bool" where
  "laid_out F names P \<longleftrightarrow> top ` set names \<subseteq> dom F \<and> dom F \<subseteq> top ` set names \<union> P"

lemma laid_unhidden:
  assumes "laid_out F names P" "set names \<subseteq> set BUNDLE_FILES" "\<forall>q \<in> P. take 1 (last q) \<noteq> [46]"
  shows "unhidden F"
proof -
  have "list_all (\<lambda>n. take 1 (last (top n)) \<noteq> [46]) BUNDLE_FILES"
    by (simp add: BUNDLE_FILES_def top_def ascii_simps)
  with assms(2) have "\<forall>q \<in> top ` set names. take 1 (last q) \<noteq> [46]" by (auto simp: list_all_iff)
  with assms(1,3) show ?thesis unfolding laid_out_def unhidden_def by blast
qed

lemma laid_absent: "laid_out F names P \<Longrightarrow> q \<notin> top ` set names \<Longrightarrow> q \<notin> P \<Longrightarrow> F q = None"
  unfolding laid_out_def by blast

lemma laid_present: "laid_out F names P \<Longrightarrow> n \<in> set names \<Longrightarrow> F (top n) \<noteq> None"
  unfolding laid_out_def by blast

lemma laid_top: "laid_out F names P \<Longrightarrow> laid_out (F(top n \<mapsto> bs)) (n # names) P"
  unfolding laid_out_def by auto

lemma laid_again: "laid_out F names P \<Longrightarrow> n \<in> set names \<Longrightarrow> laid_out (F(top n \<mapsto> bs)) names P"
  unfolding laid_out_def by auto

lemma laid_upds: "laid_out F names P \<Longrightarrow> laid_out (map_upds F ps bss) names (P \<union> set ps)"
  unfolding laid_out_def using set_take_subset[of "length bss" ps] by (auto simp: dom_map_upds simp del: take_all)

lemma not_top: "[d, n] \<notin> top ` A"
  by (auto simp: top_def)

lemma top_apart: "m \<noteq> n \<Longrightarrow> top m \<noteq> top n"
  by (simp add: top_def ascii_inject)

lemma top_not_in: "m \<notin> set names \<Longrightarrow> top m \<notin> top ` set names"
  by (auto simp: top_def ascii_inject)
lemma chain_append_all_open:
  assumes "chain_append_all b rs = Inr (cb, ls)" "open_chain b" "int (cb_count b + length rs) \<le> MAX_SAFE_INT"
  shows "open_chain cb \<and> cb_count cb = cb_count b + length rs"
  using assms
proof (induction rs arbitrary: b ls)
  case (Cons r rs)
  from Cons.prems(1) obtain c l ls' where c: "chain_append b r = Inr (c, l)" "chain_append_all c rs = Inr (cb, ls')"
    by (auto simp: and_then_eq_Inr)
  have "int (cb_count b) \<le> MAX_SAFE_INT" using Cons.prems(3) by simp
  from chain_append_open[OF c(1) Cons.prems(2) this] Cons.IH[OF c(2)] Cons.prems(3) show ?case by simp
qed simp

text \<open>Paths of numbered files and blobs.\<close>

definition blob_paths :: "ustring list set" where
  "blob_paths = {[ascii d, n] | d n. d \<in> set DIRECTORIES \<and> take 1 n \<noteq> [46]}"

lemma blob_paths_apart: "blob_paths \<inter> top ` A = {}" "\<forall>q \<in> blob_paths. take 1 (last q) \<noteq> [46]"
  by (auto simp: blob_paths_def top_def)

lemma numbered_blobs:
  "d \<in> set DIRECTORIES \<Longrightarrow> set (map (\<lambda>i. [ascii d, numbered_name i]) is) \<subseteq> blob_paths"
  using numbered_name_unhidden by (auto simp: blob_paths_def)

lemma created_unhidden:
  "laid_out F names blob_paths \<Longrightarrow> set names \<subseteq> set BUNDLE_FILES \<Longrightarrow> unhidden F"
  by (rule laid_unhidden[OF _ _ blob_paths_apart(2)])

lemma laid_weaken: "laid_out F names P \<Longrightarrow> P \<subseteq> Q \<Longrightarrow> laid_out F names Q"
  unfolding laid_out_def by blast

lemma laid_blobs: "laid_out F names blob_paths \<Longrightarrow> set ps \<subseteq> blob_paths \<Longrightarrow> laid_out (map_upds F ps bss) names blob_paths"
  using laid_upds[of F names blob_paths ps bss] by (simp add: Un_absorb2)

lemma streams_return:
  assumes s: "proper_streams env rc ds"
    and w: "implements (bw_root w) F" "laid_out F CREATED_FILES {}" "\<not> bw_finalized w" "bw_observations w = []"
      "bw_raw_refs w = []" "cb_count (bw_event_chain w) = 0" "open_chain (bw_event_chain w)"
  obtains w1 w2 w3 disk cb G where
    "fold_result (\<lambda>(turn, document). write_observation env (int turn) document)
       (zip [0..<length (rc_observations rc)] (rc_observations rc)) w = Inr w1"
    "fold_result (write_blob (rc_raw_blobs rc)) (sort (map fst (rc_raw_blobs rc))) w1 = Inr w2"
    "fold_result (append_event env) (rc_events rc) w2 = Inr w3"
    "implements disk G" "laid_out G CREATED_FILES blob_paths"
    "\<forall>n. G [ascii ''decisions'', numbered_name n] = None"
    "w3 = w\<lparr>bw_root := disk, bw_observations := map int [0..<length (rc_observations rc)],
       bw_raw_refs := sort (map fst (rc_raw_blobs rc)), bw_event_chain := cb,
       bw_last_event := if rc_events rc = [] then bw_last_event w else Some (last (rc_events rc))\<rparr>"
    "open_chain cb" "cb_count cb = length (rc_events rc)"
proof -
  have obs: "list_all (acceptable env ''observation'') (rc_observations rc)"
    and raw: "\<forall>ref \<in> fst ` set (rc_raw_blobs rc). raw_ref_ok ref" "distinct (map fst (rc_raw_blobs rc))"
    and ev: "list_all (acceptable env ''event'') (rc_events rc)" "numbered ''seq'' (rc_events rc)"
      "int (length (rc_events rc)) \<le> MAX_SAFE_INT"
    using s by (auto simp: proper_streams_def list_all_iff)
  have created: "set CREATED_FILES \<subseteq> set BUNDLE_FILES" by (simp add: CREATED_FILES_def BUNDLE_FILES_def)
  have l0: "laid_out F CREATED_FILES blob_paths" using w(2) by (rule laid_weaken) simp
  note u0 = created_unhidden[OF l0 created]
  have none: "F [d, n] = None" for d n using laid_absent[OF w(2)] not_top by blast
  let ?po = "map (\<lambda>i. [ascii ''observations'', numbered_name i]) [0..<0 + length (rc_observations rc)]"
  have "\<exists>w1. fold_result (\<lambda>(turn, document). write_observation env (int turn) document)
       (zip [0..<0 + length (rc_observations rc)] (rc_observations rc)) w = Inr w1"
    by (rule observations_return[OF w(1) u0 w(3) _ obs]) (simp_all add: w(4) none)
  then obtain w1 where w1: "fold_result (\<lambda>(turn, document). write_observation env (int turn) document)
       (zip [0..<0 + length (rc_observations rc)] (rc_observations rc)) w = Inr w1" by blast
  obtain bss d1 where o: "implements d1 (map_upds F ?po bss)"
    "w1 = w\<lparr>bw_root := d1, bw_observations := map int [0..<0 + length (rc_observations rc)]\<rparr>"
    by (rule observations_written[OF w1 w(1)]) (simp_all add: w(4))
  let ?F1 = "map_upds F ?po bss"
  have po: "set ?po \<subseteq> blob_paths" by (rule numbered_blobs) (simp add: DIRECTORIES_def)
  note l1 = laid_blobs[OF l0 po, of bss]
  note u1 = created_unhidden[OF l1 created]
  have none1: "?F1 [ascii d, n] = None" if "d \<noteq> ''observations''" for d n
    using that none by (subst map_upds_apply_nontin) auto
  have i1: "implements (bw_root w1) ?F1" using o by simp
  have "\<exists>w2. fold_result (write_blob (rc_raw_blobs rc)) (sort (map fst (rc_raw_blobs rc))) w1 = Inr w2"
  proof (rule raws_return[OF i1 u1])
    show "\<forall>ref \<in> set (sort (map fst (rc_raw_blobs rc))). raw_ref_ok ref \<and> map_of (rc_raw_blobs rc) ref \<noteq> None \<and>
        ?F1 [ascii ''raw'', drop 4 ref] = None"
      using raw(1) none1 by (auto simp: map_of_eq_None_iff)
  qed (use o(2) w(3,5) raw(2) in simp_all)
  then obtain w2 where w2: "fold_result (write_blob (rc_raw_blobs rc)) (sort (map fst (rc_raw_blobs rc))) w1 = Inr w2"
    by blast
  let ?blobs = "blobs_by_name (rc_raw_blobs rc) (sort (map fst (rc_raw_blobs rc)))"
  let ?pr = "map (\<lambda>(name, _). [ascii ''raw'', name]) ?blobs"
  obtain d2 where r: "implements d2 (map_upds ?F1 ?pr (map snd ?blobs))"
    "w2 = w1\<lparr>bw_root := d2, bw_raw_refs := bw_raw_refs w1 @ sort (map fst (rc_raw_blobs rc))\<rparr>"
    by (rule raws_written[OF w2 i1])
  let ?F2 = "map_upds ?F1 ?pr (map snd ?blobs)"
  have pr: "set ?pr \<subseteq> blob_paths"
    using raw(1) raw_ref_name(3) by (force simp: blobs_by_name_def blob_paths_def DIRECTORIES_def)
  note l2 = laid_blobs[OF l1 pr, of "map snd ?blobs"]
  have none2: "?F2 [ascii ''decisions'', n] = None" for n
    using none1[of "''decisions''"] by (subst map_upds_apply_nontin) auto
  have i2: "implements (bw_root w2) ?F2" using r by simp
  obtain es ls where el: "?F2 (top ''events.jsonl'') = Some es" "?F2 (top ''chain.jsonl'') = Some ls"
    using laid_present[OF l2, of "''events.jsonl''"] laid_present[OF l2, of "''chain.jsonl''"]
    unfolding CREATED_FILES_def by auto
  have ch: "bw_event_chain w2 = bw_event_chain w" "\<not> bw_finalized w2" "bw_last_event w2 = bw_last_event w"
    using r(2) o(2) w(3) by simp_all
  have "\<exists>w3. fold_result (append_event env) (rc_events rc) w2 = Inr w3"
    by (rule events_return[OF i2]) (use el ch w(6,7) ev in \<open>simp_all add: numbered_def\<close>)
  then obtain w3 where w3: "fold_result (append_event env) (rc_events rc) w2 = Inr w3" by blast
  obtain ess cb links lbs d3 where e: "chain_append_all (bw_event_chain w2) ess = Inr (cb, links)"
    "list_all2 canonical (rc_events rc) ess"
    "implements d3 (?F2(top ''events.jsonl'' \<mapsto> es @ lines_of ess, top ''chain.jsonl'' \<mapsto> ls @ lines_of lbs))"
    "w3 = w2\<lparr>bw_root := d3, bw_event_chain := cb,
       bw_last_event := if rc_events rc = [] then bw_last_event w2 else Some (last (rc_events rc))\<rparr>"
    by (rule events_written[OF w3 i2 el])
  have oc: "open_chain cb" "cb_count cb = length (rc_events rc)"
    using chain_append_all_open[OF e(1)] ch(1) w(6,7) ev(3) list_all2_lengthD[OF e(2)] by simp_all
  have "laid_out (?F2(top ''events.jsonl'' \<mapsto> es @ lines_of ess, top ''chain.jsonl'' \<mapsto> ls @ lines_of lbs))
      CREATED_FILES blob_paths"
    by (intro laid_again l2) (simp_all add: CREATED_FILES_def)
  moreover have "\<forall>n. (?F2(top ''events.jsonl'' \<mapsto> es @ lines_of ess, top ''chain.jsonl'' \<mapsto> ls @ lines_of lbs))
      [ascii ''decisions'', numbered_name n] = None"
    using none2 by (simp add: top_def)
  moreover have "w3 = w\<lparr>bw_root := d3, bw_observations := map int [0..<length (rc_observations rc)],
       bw_raw_refs := sort (map fst (rc_raw_blobs rc)), bw_event_chain := cb,
       bw_last_event := if rc_events rc = [] then bw_last_event w else Some (last (rc_events rc))\<rparr>"
    using e(4) r(2) o(2) w(5) by simp
  ultimately show thesis using that w1 w2 w3 e(3) oc by simp
qed
lemma products_return:
  assumes s: "proper_streams env rc ds" "proper_ledgers env rc" "proper_ending env rc"
    and w: "implements (bw_root w) F" "laid_out F CREATED_FILES {}" "\<not> bw_finalized w" "bw_observations w = []"
      "bw_raw_refs w = []" "cb_count (bw_event_chain w) = 0" "open_chain (bw_event_chain w)"
      "cb_count (bw_decision_chain w) = 0" "open_chain (bw_decision_chain w)"
      "uget (bw_manifest w) ''run_id'' = JStr (rc_run_id rc)"
  obtains w' G m p where "record_products env rc w = Inr w'" "implements (bw_root w') G"
    "laid_out G (''metrics.json'' # ''ledger_stress_2x.jsonl'' # ''ledger.jsonl'' # CREATED_FILES) blob_paths"
    "\<not> bw_finalized w'" "bw_last_event w' = Some (last (rc_events rc))"
    "uget (last (rc_events rc)) ''payload'' = JObj p" "uget p ''metrics_sha256'' = utext (sha256_prefixed m)"
    "G (top ''metrics.json'') = Some m" "bw_observations w' = map int [0..<cb_count (bw_decision_chain w')]"
    "cb_count (bw_event_chain w') = length (rc_events rc)" "cb_count (bw_decision_chain w') = length ds"
    "length (bw_raw_refs w') = length (rc_raw_blobs rc)" "open_chain (bw_event_chain w')"
    "open_chain (bw_decision_chain w')" "bw_manifest w' = bw_manifest w"
proof -
  have dec: "generate_decision_records (rc_events rc) (rc_ledger_primary rc) (rc_run_id rc) = Inr ds"
    "list_all (acceptable env ''decision_record'') ds" "numbered ''turn'' ds"
    "\<forall>d \<in> set ds. uget d ''run_id'' = JStr (rc_run_id rc)" "length ds = length (rc_observations rc)"
    "int (length ds) \<le> MAX_SAFE_INT"
    using s(1) by (auto simp: proper_streams_def)
  have led: "length (rc_ledger_primary rc) = length (rc_ledger_stress_2x rc)"
    "list_all (acceptable env ''ledger_row'') (rc_ledger_primary rc @ rc_ledger_stress_2x rc)"
    "list_all (balanced_row ''primary'') (rc_ledger_primary rc)"
    "list_all (balanced_row ''stress_2x'') (rc_ledger_stress_2x rc)"
    using s(2) by (auto simp: proper_ledgers_def)
  from s(3) obtain p m where met: "acceptable env ''metrics'' (rc_metrics rc)"
    "uget (rc_metrics rc) ''run_id'' = JStr (rc_run_id rc)" "rc_events rc \<noteq> []" "canonical (rc_metrics rc) m"
    "uget (last (rc_events rc)) ''payload'' = JObj p" "uget p ''metrics_sha256'' = utext (sha256_prefixed (m @ [10]))"
    by (auto simp: proper_ending_def)
  obtain w1 w2 w3 disk cb G3 where f: "fold_result (\<lambda>(turn, document). write_observation env (int turn) document)
       (zip [0..<length (rc_observations rc)] (rc_observations rc)) w = Inr w1"
    "fold_result (write_blob (rc_raw_blobs rc)) (sort (map fst (rc_raw_blobs rc))) w1 = Inr w2"
    "fold_result (append_event env) (rc_events rc) w2 = Inr w3"
    and g3: "implements disk G3" "laid_out G3 CREATED_FILES blob_paths"
      "\<forall>n. G3 [ascii ''decisions'', numbered_name n] = None"
    and w3: "w3 = w\<lparr>bw_root := disk, bw_observations := map int [0..<length (rc_observations rc)],
       bw_raw_refs := sort (map fst (rc_raw_blobs rc)), bw_event_chain := cb,
       bw_last_event := if rc_events rc = [] then bw_last_event w else Some (last (rc_events rc))\<rparr>"
    and cb: "open_chain cb" "cb_count cb = length (rc_events rc)"
    by (rule streams_return[OF s(1) w(1-7)])
  have created: "set CREATED_FILES \<subseteq> set BUNDLE_FILES" by (simp add: CREATED_FILES_def BUNDLE_FILES_def)
  note u3 = created_unhidden[OF g3(2) created]
  have i3: "implements (bw_root w3) G3" using g3(1) w3 by simp
  obtain ls where ls: "G3 (top ''chain.jsonl'') = Some ls"
    using laid_present[OF g3(2), of "''chain.jsonl''"] by (auto simp: CREATED_FILES_def)
  have "\<exists>w4. fold_result (append_decision env) ds w3 = Inr w4"
    by (rule decisions_return[OF i3 u3]) (use ls g3(3) w3 w(3,8,9,10) dec in \<open>simp_all add: numbered_def\<close>)
  then obtain w4 where w4: "fold_result (append_decision env) ds w3 = Inr w4" by blast
  have k: "cb_count (bw_decision_chain w3) = 0" using w3 w(8) by simp
  obtain bss dcb links lbs d4 where d: "list_all2 canonical ds bss"
    "chain_append_all (bw_decision_chain w3) bss = Inr (dcb, links)"
    "implements d4 ((map_upds G3 (map (\<lambda>i. [ascii ''decisions'', numbered_name i]) [0..<0 + length ds]) bss)
       (top ''chain.jsonl'' \<mapsto> ls @ lines_of lbs))" "w4 = w3\<lparr>bw_root := d4, bw_decision_chain := dcb\<rparr>"
    by (rule decisions_written[OF w4 i3 ls k])
  have oc: "open_chain dcb" "cb_count dcb = length ds"
    using chain_append_all_open[OF d(2)] w3 w(8,9) dec(6) list_all2_lengthD[OF d(1)] by simp_all
  let ?G4 = "(map_upds G3 (map (\<lambda>i. [ascii ''decisions'', numbered_name i]) [0..<0 + length ds]) bss)
       (top ''chain.jsonl'' \<mapsto> ls @ lines_of lbs)"
  have l4: "laid_out ?G4 CREATED_FILES blob_paths"
    by (intro laid_again laid_blobs[OF g3(2)] numbered_blobs) (simp_all add: CREATED_FILES_def DIRECTORIES_def)
  note u4 = created_unhidden[OF l4 created]
  have ab4: "?G4 (top n) = None" if "n \<notin> set CREATED_FILES" for n
    using laid_absent[OF l4 top_not_in[OF that]] blob_paths_apart(1)[of UNIV] by blast
  have i4: "implements (bw_root w4) ?G4" using d(3,4) by simp
  have x4: "\<not> bw_finalized w4" "?G4 (top ''ledger.jsonl'') = None" "?G4 (top ''ledger_stress_2x.jsonl'') = None"
    using d(4) w3 w(3) by (simp, intro ab4, simp add: CREATED_FILES_def, intro ab4, simp add: CREATED_FILES_def)
  obtain pb sb d5 where l: "write_ledgers env (rc_ledger_primary rc) (rc_ledger_stress_2x rc) w4
      = Inr (w4\<lparr>bw_root := d5\<rparr>)"
    "implements d5 (?G4(top ''ledger.jsonl'' \<mapsto> pb, top ''ledger_stress_2x.jsonl'' \<mapsto> sb))"
    by (rule ledgers_return[OF i4 u4 x4 led])
  let ?G5 = "?G4(top ''ledger.jsonl'' \<mapsto> pb, top ''ledger_stress_2x.jsonl'' \<mapsto> sb)"
  have l5: "laid_out ?G5 (''ledger_stress_2x.jsonl'' # ''ledger.jsonl'' # CREATED_FILES) blob_paths"
    by (intro laid_top l4)
  have u5: "unhidden ?G5" by (rule created_unhidden[OF l5]) (simp add: CREATED_FILES_def BUNDLE_FILES_def)
  have i5: "implements (bw_root (w4\<lparr>bw_root := d5\<rparr>)) ?G5" using l(2) by simp
  have "top ''metrics.json'' \<notin> blob_paths" using blob_paths_apart(1)[of UNIV] by blast
  then have x5: "?G5 (top ''metrics.json'') = None"
    by (intro laid_absent[OF l5] top_not_in) (simp_all add: CREATED_FILES_def)
  have m5: "uget (rc_metrics rc) ''run_id'' = uget (bw_manifest (w4\<lparr>bw_root := d5\<rparr>)) ''run_id''" 
    "\<not> bw_finalized (w4\<lparr>bw_root := d5\<rparr>)" using d(4) w3 w(3,10) met(2) by simp_all
  obtain d6 where m: "write_metrics env (rc_metrics rc) (w4\<lparr>bw_root := d5\<rparr>) = Inr (w4\<lparr>bw_root := d5, bw_root := d6\<rparr>)"
    "implements d6 (?G5(top ''metrics.json'' \<mapsto> m @ [10]))"
    by (rule metrics_return[OF i5 u5 m5(2) x5 met(1) m5(1) met(4)])
  let ?w = "w4\<lparr>bw_root := d6\<rparr>"
  show thesis
  proof (rule that)
    show "record_products env rc w = Inr ?w" by (simp add: record_products_def f dec(1) w4 l(1) m(1))
    show "implements (bw_root ?w) (?G5(top ''metrics.json'' \<mapsto> m @ [10]))" using m(2) by simp
    show "laid_out (?G5(top ''metrics.json'' \<mapsto> m @ [10]))
      (''metrics.json'' # ''ledger_stress_2x.jsonl'' # ''ledger.jsonl'' # CREATED_FILES) blob_paths"
      by (intro laid_top l5)
    show "uget (last (rc_events rc)) ''payload'' = JObj p" "uget p ''metrics_sha256'' = utext (sha256_prefixed (m @ [10]))"
      "(?G5(top ''metrics.json'' \<mapsto> m @ [10])) (top ''metrics.json'') = Some (m @ [10])" using met by simp_all
  qed (use d(4) w3 w(3) met(3) oc cb dec(5) in simp_all)
qed
lemma writer_opened:
  assumes "names_manifest env manifest agent run_id"
  obtains w F where "create_writer env None manifest agent = Inr w" "implements (bw_root w) F"
    "laid_out F CREATED_FILES {}" "\<not> bw_finalized w" "bw_observations w = []" "bw_raw_refs w = []"
    "cb_count (bw_event_chain w) = 0" "open_chain (bw_event_chain w)" "cb_count (bw_decision_chain w) = 0"
    "open_chain (bw_decision_chain w)" "bw_manifest w = manifest"
proof -
  have "\<exists>w. create_writer env None manifest agent = Inr w"
    using assms by (auto simp: names_manifest_def intro!: writer_created)
  then obtain w where w: "create_writer env None manifest agent = Inr w" by blast
  obtain ab mb eg dg ecb dcb disk where c: "make_ChainBuilder ''events'' eg = Inr ecb"
    "make_ChainBuilder ''decisions'' dg = Inr dcb"
    "implements disk (Map.empty(top ''agent_manifest.json'' \<mapsto> ab, top ''manifest.json'' \<mapsto> mb,
       top ''events.jsonl'' \<mapsto> [], top ''chain.jsonl'' \<mapsto> []))"
    "w = \<lparr>bw_root = disk, bw_manifest = manifest, bw_agent_manifest = agent, bw_event_chain = ecb,
       bw_decision_chain = dcb, bw_observations = [], bw_raw_refs = [], bw_last_event = None, bw_finalized = False\<rparr>"
    by (rule created[OF w])
  have "laid_out (Map.empty(top ''agent_manifest.json'' \<mapsto> ab, top ''manifest.json'' \<mapsto> mb,
       top ''events.jsonl'' \<mapsto> [], top ''chain.jsonl'' \<mapsto> [])) CREATED_FILES {}"
    unfolding laid_out_def CREATED_FILES_def by auto
  then show thesis using that[OF w] c by (auto simp: make_ChainBuilder_def open_chain_def and_then_eq_Inr require_hash_eq_Inr)
qed

theorem recorder_returns:
  assumes "names_manifest env manifest agent (rc_run_id rc)" "uget manifest ''episode_id'' = JStr (rc_episode_id rc)"
    and "proper_streams env rc ds" "proper_ledgers env rc" "proper_ending env rc" "schema_accepts_seals env"
  obtains w seal where "record_episode_bundle env None rc manifest agent = Inr (w, seal)"
proof -
  have id: "uget manifest ''run_id'' = JStr (rc_run_id rc)" "run_id_ok (rc_run_id rc)"
    using assms(1) by (simp_all add: names_manifest_def)
  obtain w F where w: "create_writer env None manifest agent = Inr w" "implements (bw_root w) F"
    "laid_out F CREATED_FILES {}" "\<not> bw_finalized w" "bw_observations w = []" "bw_raw_refs w = []"
    "cb_count (bw_event_chain w) = 0" "open_chain (bw_event_chain w)" "cb_count (bw_decision_chain w) = 0"
    "open_chain (bw_decision_chain w)" "bw_manifest w = manifest" by (rule writer_opened[OF assms(1)])
  have run: "uget (bw_manifest w) ''run_id'' = JStr (rc_run_id rc)" by (simp add: w(11) id)
  let ?names = "''metrics.json'' # ''ledger_stress_2x.jsonl'' # ''ledger.jsonl'' # CREATED_FILES"
  obtain w' G m p where p: "record_products env rc w = Inr w'" "implements (bw_root w') G"
    "laid_out G ?names blob_paths" "\<not> bw_finalized w'" "bw_last_event w' = Some (last (rc_events rc))"
    "uget (last (rc_events rc)) ''payload'' = JObj p" "uget p ''metrics_sha256'' = utext (sha256_prefixed m)"
    "G (top ''metrics.json'') = Some m" "bw_observations w' = map int [0..<cb_count (bw_decision_chain w')]"
    "cb_count (bw_event_chain w') = length (rc_events rc)" "cb_count (bw_decision_chain w') = length ds"
    "length (bw_raw_refs w') = length (rc_raw_blobs rc)" "open_chain (bw_event_chain w')"
    "open_chain (bw_decision_chain w')" "bw_manifest w' = bw_manifest w"
    by (rule products_return[OF assms(3-5) w(2-10) run])
  have u: "unhidden G" by (rule created_unhidden[OF p(3)]) (simp add: CREATED_FILES_def BUNDLE_FILES_def)
  have req: "\<forall>n \<in> set REQUIRED_FILES. G (top n) \<noteq> None"
    using laid_present[OF p(3)] by (simp add: REQUIRED_FILES_def CREATED_FILES_def)
  have "top ''chain.json'' \<notin> blob_paths" using blob_paths_apart(1)[of UNIV] by blast
  then have seal: "G (top ''chain.json'') = None"
    by (intro laid_absent[OF p(3)] top_not_in) (simp_all add: CREATED_FILES_def)
  have "\<exists>w'' s. finalize env w' = Inr (w'', s)"
    by (rule finalize_returns[OF p(2) u p(4) req seal p(5) _ p(6-9)])
      (use assms(3,5,6) p id run in \<open>simp_all add: proper_streams_def proper_ending_def\<close>)
  then show thesis using that w(1) p(1) id(1) assms(2) by (auto simp: record_episode_bundle_def)
qed

end
