(* ===== verification/Sample_Recording.thy ===== *)
theory Sample_Recording
  imports Recording_Returns
begin

text \<open>
  A recording of one turn: the agent sees an observation, answers with text that is rejected, and the
  episode ends. The verifier's schemas accept everything.
\<close>

definition SAMPLE_VERIFIER :: verifier where
  "SAMPLE_VERIFIER = \<lparr>vf_depth = 6, vf_schema = (\<lambda>_ _. True)\<rparr>"

definition SAMPLE_RUN :: ustring where "SAMPLE_RUN = ascii ''run_0123456789abcdef''"

definition SAMPLE_MANIFEST :: "ustring jobject" where
  "SAMPLE_MANIFEST =
     [(ascii ''run_id'', JStr SAMPLE_RUN), (ascii ''episode_id'', utext ''episode''),
      (ascii ''agent_manifest_sha256'', utext (sha256_prefixed [123, 125])),
      (ascii ''pack'', JObj [(ascii ''content_hash'', utext (sha256_prefixed []))]),
      (ascii ''run_config'', JObj [])]"

definition SAMPLE_METRICS :: "ustring jobject" where
  "SAMPLE_METRICS = [(ascii ''run_id'', JStr SAMPLE_RUN)]"

definition SAMPLE_OBSERVATION :: "ustring jobject" where
  "SAMPLE_OBSERVATION = [(ascii ''turn'', JInt 0)]"

definition SAMPLE_ANSWER :: "byte list" where "SAMPLE_ANSWER = [110, 111]"

definition sample_event :: "int \<Rightarrow> string \<Rightarrow> ustring json \<Rightarrow> ustring jobject \<Rightarrow> ustring jobject" where
  "sample_event seq event_type turn payload =
     [(ascii ''seq'', JInt seq), (ascii ''type'', utext event_type), (ascii ''turn'', turn),
      (ascii ''ts'', JInt 0), (ascii ''bar_index'', JInt 0), (ascii ''payload'', JObj payload)]"

definition SAW :: "string \<Rightarrow> ustring jobject" where
  "SAW obs = [(ascii ''observation_ref'', utext ''observations/0000.json''),
     (ascii ''observation_sha256'', utext obs)]"

definition SAID :: "ustring jobject" where
  "SAID = [(ascii ''attempt'', JInt 1), (ascii ''raw_ref'', utext ''raw/0000-a1.txt''),
     (ascii ''raw_sha256'', utext (sha256_prefixed SAMPLE_ANSWER)), (ascii ''raw_bytes'', JInt 2)]"

definition sample_events :: "string \<Rightarrow> byte list \<Rightarrow> ustring jobject list" where
  "sample_events obs metrics =
     [sample_event 0 ''ObservationEmitted'' (JInt 0) (SAW obs),
      sample_event 1 ''AgentResponded'' (JInt 0) SAID,
      sample_event 2 ''ActionRejected'' (JInt 0) [(ascii ''reason'', utext ''not json'')],
      sample_event 3 ''EpisodeEnd'' JNull [(ascii ''metrics_sha256'', utext (sha256_prefixed metrics))]]"

definition sample_row :: "string \<Rightarrow> ustring jobject" where
  "sample_row profile =
     (ascii ''profile'', utext profile) # (ascii ''turn'', JInt 0) #
     map (\<lambda>f. (ascii f, JInt 0)) ACCOUNT_FIELDS"

definition sample_recording :: "string \<Rightarrow> byte list \<Rightarrow> recording" where
  "sample_recording obs metrics =
     \<lparr>rc_run_id = SAMPLE_RUN, rc_episode_id = ascii ''episode'', rc_observations = [SAMPLE_OBSERVATION],
      rc_raw_blobs = [(ascii ''raw/0000-a1.txt'', SAMPLE_ANSWER)],
      rc_events = sample_events obs metrics, rc_ledger_primary = [sample_row ''primary''],
      rc_ledger_stress_2x = [sample_row ''stress_2x''], rc_metrics = SAMPLE_METRICS\<rparr>"

definition SAMPLE_DECISION :: "string \<Rightarrow> ustring jobject" where
  "SAMPLE_DECISION obs = decision_document SAMPLE_RUN 0 0 0 (SAW obs) [SAID]
     (JObj [(ascii ''status'', utext ''rejected''), (ascii ''action'', JNull),
        (ascii ''rejected'', JObj [(ascii ''reason'', utext ''not json'')])])
     (JArr []) (happened_document [] [] None None) (cost_document [] [])
     (JObj (map (\<lambda>f. (ascii f, JInt 0)) ACCOUNT_FIELDS)) (0, 2)"

lemma sample_event_get:
  "uget (sample_event s t n p) ''seq'' = JInt s" "uget (sample_event s t n p) ''type'' = utext t"
  "uget (sample_event s t n p) ''turn'' = n" "uget (sample_event s t n p) ''ts'' = JInt 0"
  "uget (sample_event s t n p) ''bar_index'' = JInt 0" "uget (sample_event s t n p) ''payload'' = JObj p"
  by (simp_all add: sample_event_def)

lemma scalar_run [simp]: "list_all scalar_value SAMPLE_RUN"
  by (simp add: SAMPLE_RUN_def)

lemma sample_run_id: "run_id_ok SAMPLE_RUN"
  by (simp add: run_id_ok_def SAMPLE_RUN_def ascii_simps lower_hex_cp_def)

lemma sample_accepted: "acceptable SAMPLE_VERIFIER name d \<longleftrightarrow> hashable (JObj d)"
  by (simp add: acceptable_def SAMPLE_VERIFIER_def)

lemma sample_hashable:
  "hashable (JObj SAMPLE_MANIFEST)" "hashable (JObj SAMPLE_METRICS)" "hashable (JObj SAMPLE_OBSERVATION)"
  "hashable (JObj (sample_row p))" "\<forall>e \<in> set (sample_events o' m). hashable (JObj e)"
  "hashable (JObj (SAMPLE_DECISION o'))"
  by (simp_all add: SAMPLE_MANIFEST_def SAMPLE_METRICS_def SAMPLE_OBSERVATION_def sample_row_def sample_events_def
      sample_event_def SAW_def SAID_def SAMPLE_DECISION_def decision_document_def happened_document_def
      cost_document_def opt_object_def ACCOUNT_FIELDS_def utext_def MAX_SAFE_INT_def)

lemma sample_grouped: "events_by_turn (sample_events o' m) = Inr [(0, butlast (sample_events o' m))]"
  by (simp add: sample_events_def events_by_turn_def group_event_def sample_event_get dr_integer_def utext_def
      add_to_group_def)

lemma sample_row_get:
  "uget (sample_row p) ''profile'' = utext p" "uget (sample_row p) ''turn'' = JInt 0"
  "f \<in> set ACCOUNT_FIELDS \<Longrightarrow> uget (sample_row p) f = JInt 0"
  by (auto simp: sample_row_def ACCOUNT_FIELDS_def)

lemma sample_decided:
  "generate_decision_records (sample_events o' m) [sample_row ''primary''] SAMPLE_RUN = Inr [SAMPLE_DECISION o']"
proof -
  have s: "butlast (sample_events o' m) =
     [sample_event 0 ''ObservationEmitted'' (JInt 0) (SAW o'), sample_event 1 ''AgentResponded'' (JInt 0) SAID,
      sample_event 2 ''ActionRejected'' (JInt 0) [(ascii ''reason'', utext ''not json'')]]"
    by (simp add: sample_events_def)
  have a: "account_after (sample_row ''primary'') = Inr (JObj (map (\<lambda>f. (ascii f, JInt 0)) ACCOUNT_FIELDS))"
    by (simp add: account_after_def ACCOUNT_FIELDS_def sample_row_get dr_integer_def)
  have t: "typed_payloads (butlast (sample_events o' m)) t =
      Inr (if t = ''ObservationEmitted'' then [SAW o'] else if t = ''AgentResponded'' then [SAID]
        else if t = ''ActionRejected'' then [[(ascii ''reason'', utext ''not json'')]] else [])" for t
    unfolding s by (auto simp: typed_payloads_def sample_event_get payload_of_def utext_def)
  have r: "event_range (butlast (sample_events o' m)) = Inr (0, 2)"
    unfolding s by (simp add: event_range_def sample_event_get dr_integer_def py_nth_def upto_rec1)
  have at: "check_attempts [SAID] = Inr ()"
    by (simp add: check_attempts_def SAID_def dr_integer_def)
  have h: "hd (butlast (sample_events o' m)) = sample_event 0 ''ObservationEmitted'' (JInt 0) (SAW o')"
    by (simp add: s)
  have d: "decision_record SAMPLE_RUN 0 (butlast (sample_events o' m)) (sample_row ''primary'') = Inr (SAMPLE_DECISION o')"
    by (simp add: decision_record_def r t h a at sample_event_get dr_integer_def exactly_one_def zero_or_one_def
        meant_of_def SAMPLE_DECISION_def)
  show ?thesis
    by (simp add: generate_decision_records_def sample_run_id sample_grouped add_ledger_row_def sample_row_get
        dr_integer_def d)
qed
section \<open>It is recorded\<close>

lemma empty_object: "canonical_bytes (JObj []) = Inr [123, 125]"
  by (simp add: canonical_bytes_def encode_json.simps sort_members_def join_commas_def utf8_encode_def
      scalar_value_def is_surrogate_def utf8_units_def)

lemma sample_named: "names_manifest SAMPLE_VERIFIER SAMPLE_MANIFEST [] SAMPLE_RUN"
  unfolding names_manifest_def sample_accepted
  using sample_hashable(1) empty_object sample_run_id by (auto simp: SAMPLE_MANIFEST_def)

lemma sample_pad: "pad4 0 = ''0000''"
  by code_simp

lemma sample_raw_ref: "raw_ref_ok (ascii ''raw/0000-a1.txt'')"
  by (simp add: raw_ref_ok_def raw_name_def ascii_simps all_digits_def is_digit_cp_def)

lemma sample_streams: "proper_streams SAMPLE_VERIFIER (sample_recording o' m) [SAMPLE_DECISION o']"
proof -
  have "raw_ref_ok (ascii ''raw/0000-a1.txt'')" by (rule sample_raw_ref)
  moreover have "numbered ''seq'' (sample_events o' m)"
    by (simp add: numbered_def sample_events_def sample_event_get less_Suc_eq nth_Cons' numeral_nat)
  moreover have "numbered ''turn'' [SAMPLE_DECISION o']" "uget (SAMPLE_DECISION o') ''run_id'' = JStr SAMPLE_RUN"
    by (simp_all add: numbered_def SAMPLE_DECISION_def decision_document_def)
  moreover have "length (sample_events o' m) = 4" by (simp add: sample_events_def)
  ultimately show ?thesis
    using sample_hashable(5,6) sample_hashable(3) sample_decided
    by (simp add: proper_streams_def sample_recording_def sample_accepted list_all_iff MAX_SAFE_INT_def)
qed

lemma sample_ledgers: "proper_ledgers SAMPLE_VERIFIER (sample_recording o' m)"
  using sample_hashable(4) sample_row_get
  by (simp add: proper_ledgers_def sample_recording_def sample_accepted balanced_row_def ACCOUNT_FIELDS_def)

lemma sample_ending:
  assumes "canonical SAMPLE_METRICS m"
  shows "proper_ending SAMPLE_VERIFIER (sample_recording o' (m @ [10]))"
  using assms sample_hashable(2)
  by (auto simp: proper_ending_def sample_recording_def sample_accepted sample_events_def sample_event_get
      SAMPLE_METRICS_def)

lemma sample_schemas:
  "schema_ignores_order SAMPLE_VERIFIER" "schema_accepts_links SAMPLE_VERIFIER" "schema_accepts_seals SAMPLE_VERIFIER"
  by (simp_all add: schema_ignores_order_def schema_accepts_links_def schema_accepts_seals_def SAMPLE_VERIFIER_def)

lemma sample_episode: "uget SAMPLE_MANIFEST ''episode_id'' = JStr (rc_episode_id (sample_recording o' m))"
  by (simp add: SAMPLE_MANIFEST_def sample_recording_def utext_def)

lemma sample_recordable: "recordable SAMPLE_VERIFIER (sample_recording o' m) SAMPLE_MANIFEST []"
  by (simp add: recordable_def sample_recording_def SAMPLE_VERIFIER_def SAMPLE_MANIFEST_def SAMPLE_METRICS_def
      SAMPLE_OBSERVATION_def sample_row_def sample_events_def sample_event_def SAW_def SAID_def ACCOUNT_FIELDS_def
      utext_def numeral_nat)

lemma sample_referenced:
  "referenced_blobs (sample_events o' m) = Inr ([(ascii ''observations/0000.json'', ascii o', 0)],
     [(ascii ''raw/0000-a1.txt'', ascii (sha256_prefixed SAMPLE_ANSWER), 2)])"
proof -
  have "pad4_int 0 = ''0000''" by (simp add: pad4_int_def sample_pad)
  moreover have "path_name (ascii ''raw/0000-a1.txt'') = ascii ''0000-a1.txt''"
    using raw_ref_name(1)[OF sample_raw_ref] by (simp add: path_name_def ascii_simps)
  moreover have "raw_name (ascii ''0000-a1.txt'') \<noteq> None"
    using sample_raw_ref by (simp add: raw_ref_ok_def ascii_simps)
  moreover have "take 4 (ascii ''raw/0000-a1.txt'') = ascii ''raw/''" by (simp add: ascii_simps)
  ultimately show ?thesis
    by (simp add: referenced_blobs_def sample_events_def add_reference_def sample_event_get
        observation_reference_def raw_reference_def SAW_def SAID_def utext_def)
qed

lemma sample_consistent:
  assumes "canonical SAMPLE_OBSERVATION bs"
  shows "consistent (sample_recording (sha256_prefixed bs) m)"
proof -
  have "observation_path 0 = ascii ''observations/0000.json''"
    by (simp add: observation_path_def sample_pad numbered_name_def ascii_simps)
  then show ?thesis
    using assms sample_referenced[of "sha256_prefixed bs" m] sample_row_get(3)
    by (simp add: consistent_def references_hold_def sample_recording_def observation_refs_def SAMPLE_ANSWER_def
        ACCOUNT_FIELDS_def)
qed

lemma sample_recorded:
  obtains o' m w seal where
    "record_episode_bundle SAMPLE_VERIFIER None (sample_recording o' m) SAMPLE_MANIFEST [] = Inr (w, seal)"
    "consistent (sample_recording o' m)" "proper_streams SAMPLE_VERIFIER (sample_recording o' m) [SAMPLE_DECISION o']"
    "proper_ledgers SAMPLE_VERIFIER (sample_recording o' m)" "proper_ending SAMPLE_VERIFIER (sample_recording o' m)"
proof -
  obtain obs where obs: "canonical SAMPLE_OBSERVATION obs" using sample_hashable(3) canonical_defined by blast
  obtain met where met: "canonical SAMPLE_METRICS met" using sample_hashable(2) canonical_defined by blast
  have "names_manifest SAMPLE_VERIFIER SAMPLE_MANIFEST [] (rc_run_id (sample_recording (sha256_prefixed obs) (met @ [10])))"
    using sample_named by (simp add: sample_recording_def)
  from this sample_episode sample_streams sample_ledgers sample_ending[OF met] sample_schemas(3)
  obtain w seal where "record_episode_bundle SAMPLE_VERIFIER None (sample_recording (sha256_prefixed obs) (met @ [10]))
      SAMPLE_MANIFEST [] = Inr (w, seal)" by (rule recorder_returns)
  from that[OF this sample_consistent[OF obs] sample_streams sample_ledgers sample_ending[OF met]] show thesis .
qed

end
