(* ===== verification/Recording_Properties.thy ===== *)
theory Recording_Properties
  imports Sample_Recording
begin

text \<open>
  The promises of the evidence format: what is recorded verifies, and what verifies under one root
  is one bundle.
\<close>

text \<open>
  Property C1. Every bundle the recorder completes is one the verifier accepts: when
  \<open>record_episode_bundle\<close> returns for documents that Python holds, with references that name the
  stored blobs and ledgers whose values are continuous, \<open>verify_bundle\<close> of the written tree is
  COMPLETE, and its root is the one in the seal that was returned. The schema validator is only
  assumed not to look at the order of members and to accept chain links.
\<close>

theorem recorded_bundle_verifies:
  assumes "record_episode_bundle env existing rc manifest agent = Inr (w, seal)"
    and "schema_ignores_order env" "schema_accepts_links env"
    and "recordable env rc manifest agent" "consistent rc"
  shows "\<exists>v r. verify_bundle env (bw_root w) = Inr v \<and> vr_verdict v = COMPLETE \<and>
    vr_root v = Some r \<and> uget seal ''root'' = utext r"
  by (rule recorded_bundle_complete[OF assms]) blast

theorem recorded_bundle_verifies_witness:
  "\<exists>o' m w seal v r. record_episode_bundle SAMPLE_VERIFIER None (sample_recording o' m) SAMPLE_MANIFEST [] = Inr (w, seal) \<and>
     verify_bundle SAMPLE_VERIFIER (bw_root w) = Inr v \<and> vr_verdict v = COMPLETE \<and>
     vr_root v = Some r \<and> uget seal ''root'' = utext r"
proof -
  obtain o' m w seal where r: "record_episode_bundle SAMPLE_VERIFIER None (sample_recording o' m) SAMPLE_MANIFEST []
      = Inr (w, seal)" "consistent (sample_recording o' m)" by (rule sample_recorded)
  from recorded_bundle_verifies[OF r(1) sample_schemas(1,2) sample_recordable r(2)] r(1) show ?thesis by blast
qed



text \<open>
  Property C2. The root of a complete bundle is a commitment to its evidence: two bundles the
  verifier calls complete under one root hold the same manifest, streams, ledgers, metrics,
  decisions and observations and the same seal, or two different byte strings among those that
  were hashed to verify them have one SHA-256.
\<close>

theorem complete_bundles_share_evidence:
  assumes "verify_bundle env b = Inr v" "vr_verdict v = COMPLETE"
    and "verify_bundle env b' = Inr v'" "vr_verdict v' = COMPLETE" "vr_root v = vr_root v'"
  shows "same_evidence b b' \<or>
    collision_among sha256_prefixed (hashed_while_verifying env b) (hashed_while_verifying env b')"
proof -
  obtain c seal r where c: "complete env b c seal r" "vr_root v = Some r"
    using assms(1,2) by (rule verdict_complete)
  obtain c' seal' r' where c': "complete env b' c' seal' r'" "vr_root v' = Some r'"
    using assms(3,4) by (rule verdict_complete)
  from c(2) c'(2) assms(5) have "r' = r" by simp
  with c c' complete_evidence[of env b c seal r b' c' seal'] complete_hashed[OF c(1)] complete_hashed[OF c'(1)]
  show ?thesis by auto
qed

theorem complete_bundles_share_evidence_witness:
  "\<exists>b v. verify_bundle SAMPLE_VERIFIER b = Inr v \<and> vr_verdict v = COMPLETE \<and>
    (same_evidence b b \<or> collision_among sha256_prefixed (hashed_while_verifying SAMPLE_VERIFIER b)
       (hashed_while_verifying SAMPLE_VERIFIER b))"
proof -
  obtain o' m w seal where r: "record_episode_bundle SAMPLE_VERIFIER None (sample_recording o' m) SAMPLE_MANIFEST []
      = Inr (w, seal)" "consistent (sample_recording o' m)" by (rule sample_recorded)
  obtain v where v: "verify_bundle SAMPLE_VERIFIER (bw_root w) = Inr v" "vr_verdict v = COMPLETE"
    by (rule recorded_bundle_complete[OF r(1) sample_schemas(1,2) sample_recordable r(2)]) blast
  with complete_bundles_share_evidence[OF v v refl] show ?thesis by blast
qed

end
