(* ===== verification/Report_Format.thy ===== *)
theory Report_Format
  imports Decimal Unicode
begin

text \<open>
  The number and text formats of \<open>report/generator.py\<close>: fixed-point decimals truncated towards
  zero, and the escaping of agent-supplied text before it reaches a terminal.
\<close>

section \<open>Numbers\<close>

definition fixed :: "int \<Rightarrow> nat \<Rightarrow> nat \<Rightarrow> string" where
  "fixed v scale places =
     (let sign = (if v < 0 then ''-'' else []);
          whole = nat \<bar>v\<bar> div scale; remainder = nat \<bar>v\<bar> mod scale in
      if places = 0 then sign @ show_nat whole
      else
        let digits = show_nat (remainder * 10 ^ places div scale)
        in sign @ show_nat whole @ ''.'' @ replicate (places - length digits) (CHR ''0'') @ digits)"

definition money :: "int \<Rightarrow> bool \<Rightarrow> string" where
  "money v show_plus =
     (if show_plus \<and> v > 0 then ''+'' else []) @ fixed v 1000000 6 @ '' quote''"

definition percent :: "int option \<Rightarrow> bool \<Rightarrow> string" where
  "percent v show_plus =
     (case v of
        None \<Rightarrow> ''n/a''
      | Some n \<Rightarrow> (if show_plus \<and> n > 0 then ''+'' else []) @ fixed (n * 100) 100000000 4 @ ''%'')"

definition ratio :: "int \<Rightarrow> string" where
  "ratio v = fixed v 100000000 4"

definition leverage_text :: "int \<Rightarrow> string" where
  "leverage_text v = fixed v 10000 4 @ ''x''"

section \<open>Text\<close>

text \<open>\<open>replace\<close> of line ends, as the source does it in two passes.\<close>

fun newline_pairs :: "ustring \<Rightarrow> ustring" where
  "newline_pairs [] = []"
| "newline_pairs [c] = [c]"
| "newline_pairs (c # d # s) =
     (if c = 13 \<and> d = 10 then 10 # newline_pairs s else c # newline_pairs (d # s))"

definition hex_pair :: "codepoint \<Rightarrow> ustring" where
  "hex_pair c = map (\<lambda>d. if d < 10 then 48 + d else 87 + d) [c div 16, c mod 16]"

definition sanitize_char :: "codepoint \<Rightarrow> ustring" where
  "sanitize_char c =
     (if c = 10 then [92, 110]
      else if c = 9 then [92, 116]
      else if c < 32 \<or> c = 127 then [92, 120] @ hex_pair c
      else [c])"

definition sanitize_text :: "ustring \<Rightarrow> ustring" where
  "sanitize_text s =
     concat (map sanitize_char (map (\<lambda>c. if c = 13 then 10 else c) (newline_pairs s)))"

definition preview :: "ustring \<Rightarrow> nat \<Rightarrow> ustring" where
  "preview s limit =
     (let sanitized = sanitize_text s in
      if length sanitized \<le> limit then sanitized
      else take (limit - 3) sanitized @ ascii ''...'')"

section \<open>What the formats keep\<close>

lemma hex_pair_printable: "c < 256 \<Longrightarrow> x \<in> set (hex_pair c) \<Longrightarrow> 32 \<le> x \<and> x < 127"
  by (auto simp: hex_pair_def split: if_splits)

lemma sanitize_char_printable: "x \<in> set (sanitize_char c) \<Longrightarrow> 32 \<le> x \<and> x \<noteq> 127"
  using hex_pair_printable[of c x]
  by (auto simp: sanitize_char_def ascii_simps split: if_splits)

lemma sanitize_printable: "x \<in> set (sanitize_text s) \<Longrightarrow> 32 \<le> x \<and> x \<noteq> 127"
  by (auto simp: sanitize_text_def dest: sanitize_char_printable)

text \<open>
  A preview is one line of at most \<open>limit\<close> characters without control characters of ASCII.
\<close>

lemma preview_safe:
  assumes "3 \<le> limit"
  shows "length (preview s limit) \<le> limit" "\<forall>x \<in> set (preview s limit). 32 \<le> x \<and> x \<noteq> 127"
proof -
  show "length (preview s limit) \<le> limit" using assms by (auto simp: preview_def Let_def)
  show "\<forall>x \<in> set (preview s limit). 32 \<le> x \<and> x \<noteq> 127"
    by (auto simp: preview_def Let_def ascii_simps dest: sanitize_printable in_set_takeD split: if_splits)
qed

lemma fixed_is_truncation:
  assumes "0 < scale" "0 < places"
  obtains whole digits where
    "fixed v scale places = (if v < 0 then ''-'' else []) @ show_nat whole @ ''.'' @ digits"
    "length digits = places" "list_all is_digit digits"
    "whole * 10 ^ places + read_nat digits = nat \<bar>v\<bar> * 10 ^ places div scale"
proof -
  let ?w = "nat \<bar>v\<bar> div scale" and ?r = "nat \<bar>v\<bar> mod scale"
  let ?f = "?r * 10 ^ places div scale"
  let ?d = "replicate (places - length (show_nat ?f)) (CHR ''0'') @ show_nat ?f"
  have "?r < scale" using assms by simp
  then have f: "?f < 10 ^ places" by (simp add: div_less_iff_less_mult mult.commute assms)
  then have l: "length (show_nat ?f) \<le> places" using assms(2) length_show_nat_le by blast
  have "nat \<bar>v\<bar> * 10 ^ places = (?w * 10 ^ places) * scale + ?r * 10 ^ places"
    by (metis add_mult_distrib div_mult_mod_eq mult.assoc mult.commute)
  then have e: "nat \<bar>v\<bar> * 10 ^ places div scale = ?w * 10 ^ places + ?f"
    using assms(1) by simp
  show thesis
  proof (rule that[of ?w ?d])
    show "fixed v scale places = (if v < 0 then ''-'' else []) @ show_nat ?w @ ''.'' @ ?d"
      using assms(2) by (simp add: fixed_def Let_def)
    show "length ?d = places" using l by simp
    show "list_all is_digit ?d"
      by (auto simp: list_all_iff is_digit_def dest: show_nat_digits[unfolded is_digit_def])
    show "?w * 10 ^ places + read_nat ?d = nat \<bar>v\<bar> * 10 ^ places div scale"
      unfolding e read_nat_zeros by simp
  qed
qed

end
