(* ===== verification/Report_Evidence.thy ===== *)
theory Report_Evidence
  imports Verify Report_Format
begin

text \<open>
  The reading half of \<open>report/generator.py\<close>: a report is made from a bundle that verified
  COMPLETE and from nothing else. Responses are kept as bytes: the replacement decoding of
  malformed UTF-8 only serves the previews.
\<close>

section \<open>Reading files\<close>

definition CLAIM_LABEL :: string where "CLAIM_LABEL = ''survival-stress''"

definition PROFILE_FIELDS :: "string list" where
  "PROFILE_FIELDS = [''net_return_1e8'', ''max_drawdown_1e8'', ''sortino_1e8'', ''cvar5_1e8'',
     ''funding_paid_micro'', ''fees_paid_micro'', ''fill_cost_micro'', ''turnover_1e8'',
     ''dist_to_liq_min_1e8'', ''dist_to_liq_p05_1e8'', ''dist_to_liq_p25_1e8'',
     ''dist_to_liq_median_1e8'', ''equity_curve_ref'']"

definition rp_hooks :: json_hooks where
  "rp_hooks =
     \<lparr>jh_float = (\<lambda>_. Inl (ReportError ''fractional JSON number is forbidden'')),
      jh_constant = (\<lambda>_. Inl (ReportError ''non-finite JSON number is forbidden'')),
      jh_pairs = (\<lambda>pairs. if distinct (map fst pairs) then Inr (JObj pairs)
                         else Inl (ReportError ''duplicate JSON key''))\<rparr>"

definition decode_object :: "verifier \<Rightarrow> byte list \<Rightarrow> ustring jobject result" where
  "decode_object env raw =
     (case utf8_decode raw of
        None \<Rightarrow> Inl (ReportError ''invalid UTF-8'')
      | Some text \<Rightarrow>
          (case json_loads rp_hooks (vf_depth env) text of
             Inr (JObj m) \<Rightarrow> Inr m
           | Inr _ \<Rightarrow> Inl (ReportError ''expected a JSON object'')
           | Inl JSONDecodeError \<Rightarrow> Inl (ReportError ''invalid JSON'')
           | Inl e \<Rightarrow> Inl e))"

definition read_required :: "node \<Rightarrow> ustring list \<Rightarrow> byte list result" where
  "read_required bundle ps =
     (case read_bytes bundle ps of
        Inl _ \<Rightarrow> Inl (ReportError ''cannot read bundle file'') | Inr raw \<Rightarrow> Inr raw)"

definition load_object :: "verifier \<Rightarrow> node \<Rightarrow> ustring list \<Rightarrow> ustring jobject result" where
  "load_object env bundle ps = and_then (read_required bundle ps) (decode_object env)"

text \<open>\<open>bytes.splitlines\<close>: a line ends at a line feed, a carriage return, or the two together.\<close>

function bytes_splitlines :: "byte list \<Rightarrow> byte list list" where
  "bytes_splitlines [] = []"
| "bytes_splitlines (c # s) =
     (if c = 10 then [] # bytes_splitlines s
      else if c = 13 then [] # bytes_splitlines (if take 1 s = [10] then drop 1 s else s)
      else case bytes_splitlines s of
             [] \<Rightarrow> [[c]] | l # ls \<Rightarrow> (c # l) # ls)"
  by pat_completeness auto
termination by (relation "measure length") auto

definition load_line :: "verifier \<Rightarrow> byte list \<Rightarrow> ustring jobject result" where
  "load_line env line =
     (if line = [] then Inl (ReportError ''blank JSONL line'') else decode_object env line)"

definition load_jsonl :: "verifier \<Rightarrow> node \<Rightarrow> ustring list \<Rightarrow> ustring jobject list result" where
  "load_jsonl env bundle ps =
     and_then (read_required bundle ps) (\<lambda>raw. traverse (load_line env) (bytes_splitlines raw))"

section \<open>Members of documents\<close>

definition as_object :: "ustring json \<Rightarrow> ustring jobject result" where
  "as_object v = (case v of JObj m \<Rightarrow> Inr m | _ \<Rightarrow> Inl (ReportError ''must be an object''))"

definition as_list :: "ustring json \<Rightarrow> ustring json list result" where
  "as_list v = (case v of JArr xs \<Rightarrow> Inr xs | _ \<Rightarrow> Inl (ReportError ''must be an array''))"

definition as_str :: "ustring json \<Rightarrow> ustring result" where
  "as_str v = (case v of JStr s \<Rightarrow> Inr s | _ \<Rightarrow> Inl (ReportError ''must be a string''))"

definition as_int :: "ustring json \<Rightarrow> int result" where
  "as_int v = (case v of JInt n \<Rightarrow> Inr n | _ \<Rightarrow> Inl (ReportError ''must be an integer''))"

text \<open>
  A reference inside the bundle, \<open>None\<close> when nothing is there. A path with a symbolic link in it
  is taken to leave the bundle, where the source resolves the link to find out; the verifier has
  already refused a bundle whose stores are links.
\<close>

definition safe_ref :: "node \<Rightarrow> ustring \<Rightarrow> bool \<Rightarrow> ustring list option result" where
  "safe_ref bundle relative required =
     (let parts = path_parts relative in
      if take 1 relative = [47] \<or> parts = [] \<or> [46, 46] \<in> set parts
      then Inl (ReportError ''unsafe bundle reference'')
      else if is_symlink bundle parts then Inl (ReportError ''bundle reference is a symlink'')
      else if \<exists>k \<in> set [1..<length parts]. is_symlink bundle (take k parts)
      then Inl (ReportError ''bundle reference escapes root'')
      else if \<not> path_exists bundle parts
      then if required then Inl (ReportError ''missing bundle reference'') else Inr None
      else if \<not> is_file bundle parts then Inl (ReportError ''bundle reference is not a file'')
      else Inr (Some parts))"

definition redacted_raw_paths :: "verifier \<Rightarrow> node \<Rightarrow> ustring list result" where
  "redacted_raw_paths env bundle =
     (if \<not> path_exists bundle (top ''redaction.json'') then Inr []
      else
      and_then (load_object env bundle (top ''redaction.json'')) (\<lambda>redaction.
      and_then (as_list (uget redaction ''removals'')) (\<lambda>removals.
      traverse (\<lambda>v. and_then (as_object v) (\<lambda>removal. as_str (uget removal ''path''))) removals)))"

section \<open>The evidence of a bundle\<close>

record Evidence =
  ev_bundle_root :: string
  ev_manifest :: "ustring jobject"
  ev_agent_manifest :: "ustring jobject"
  ev_metrics :: "ustring jobject"
  ev_primary :: "ustring jobject"
  ev_stress_2x :: "ustring jobject"
  ev_invariant :: "ustring jobject"
  ev_events :: "ustring jobject list"
  ev_decisions :: "ustring jobject list"
  ev_observations :: "ustring jobject list"
  ev_raw :: "(ustring \<times> byte list option) list"
  ev_primary_ledger :: "ustring jobject list"
  ev_stress_ledger :: "ustring jobject list"

definition load_profile :: "ustring jobject \<Rightarrow> string \<Rightarrow> ustring jobject result" where
  "load_profile profiles name =
     and_then (as_object (uget profiles name)) (\<lambda>profile.
     if sort (map fst profile) \<noteq> sort (map ascii PROFILE_FIELDS)
     then Inl (ReportError ''unexpected key set'') else Inr profile)"

definition load_observation ::
    "verifier \<Rightarrow> node \<Rightarrow> nat \<Rightarrow> ustring jobject \<Rightarrow> ustring jobject result" where
  "load_observation env bundle turn decision =
     and_then (as_object (uget decision ''saw'')) (\<lambda>saw.
     and_then (as_str (uget saw ''observation_ref'')) (\<lambda>observation_ref.
     if observation_ref \<noteq> ascii (''observations/'' @ pad4 turn @ ''.json'')
     then Inl (ReportError ''non-canonical observation_ref'')
     else
     and_then (safe_ref bundle observation_ref True) (\<lambda>observation_path.
     case observation_path of
       None \<Rightarrow> Inl (ReportError ''missing observation'')
     | Some path \<Rightarrow>
         and_then (load_object env bundle path) (\<lambda>observation.
         and_then (as_object (uget observation ''episode'')) (\<lambda>episode.
         if \<not> equals_int (uget episode ''turn'') (int turn)
         then Inl (ReportError ''observation turn mismatch'') else Inr observation)))))"

definition load_raw ::
    "node \<Rightarrow> ustring list \<Rightarrow> ustring json \<Rightarrow> (ustring \<times> byte list option) list
      \<Rightarrow> (ustring \<times> byte list option) list result" where
  "load_raw bundle redacted_paths attempt_value raw =
     and_then (as_object attempt_value) (\<lambda>attempt.
     and_then (as_str (uget attempt ''raw_ref'')) (\<lambda>raw_ref.
     if map_of raw raw_ref \<noteq> None then Inr raw
     else
     and_then (safe_ref bundle raw_ref False) (\<lambda>raw_path.
     case raw_path of
       None \<Rightarrow>
         if raw_ref \<notin> set redacted_paths
         then Inl (ReportError ''raw response missing without disclosure'')
         else Inr (raw @ [(raw_ref, None)])
     | Some path \<Rightarrow>
         and_then (read_required bundle path) (\<lambda>data. Inr (raw @ [(raw_ref, Some data)])))))"

type_synonym turn_evidence =
  "ustring jobject list \<times> ustring jobject list \<times> (ustring \<times> byte list option) list"

definition load_turn ::
    "verifier \<Rightarrow> node \<Rightarrow> ustring \<Rightarrow> ustring list \<Rightarrow> nat \<Rightarrow> turn_evidence \<Rightarrow> turn_evidence result" where
  "load_turn env bundle run_id redacted_paths turn acc = (case acc of (decisions, observations, raw) \<Rightarrow>
     and_then (load_object env bundle [ascii ''decisions'', ascii (pad4 turn @ ''.json'')]) (\<lambda>decision.
     if uget decision ''run_id'' \<noteq> JStr run_id \<or> \<not> equals_int (uget decision ''turn'') (int turn)
     then Inl (ReportError ''decision identity mismatch'')
     else
     and_then (load_observation env bundle turn decision) (\<lambda>observation.
     and_then (as_object (uget decision ''said'')) (\<lambda>said.
     and_then (as_list (uget said ''attempts'')) (\<lambda>attempts.
     and_then (fold_result (load_raw bundle redacted_paths) attempts raw) (\<lambda>raw.
     Inr (decisions @ [decision], observations @ [observation], raw)))))))"

definition load_evidence :: "verifier \<Rightarrow> node \<Rightarrow> Evidence result" where
  "load_evidence env bundle =
     and_then (verify_bundle env bundle) (\<lambda>verification.
     if vr_verdict verification \<noteq> COMPLETE then Inl (ReportError ''report requires a COMPLETE bundle'')
     else case vr_root verification of
       None \<Rightarrow> Inl (ReportError ''complete bundle verification returned no root'')
     | Some bundle_root \<Rightarrow>
     and_then (load_object env bundle (top ''manifest.json'')) (\<lambda>manifest.
     and_then (load_object env bundle (top ''agent_manifest.json'')) (\<lambda>agent_manifest.
     and_then (load_object env bundle (top ''metrics.json'')) (\<lambda>metrics.
     and_then (as_str (uget manifest ''run_id'')) (\<lambda>run_id.
     if uget metrics ''run_id'' \<noteq> JStr run_id
     then Inl (ReportError ''metrics.run_id does not match manifest.run_id'')
     else if uget metrics ''claim_label'' \<noteq> utext CLAIM_LABEL
     then Inl (ReportError ''metrics.claim_label'')
     else
     and_then (as_object (uget metrics ''profiles'')) (\<lambda>profiles.
     and_then (load_profile profiles ''primary'') (\<lambda>primary_profile.
     and_then (load_profile profiles ''stress_2x'') (\<lambda>stress_profile.
     if set (map fst primary_profile) \<noteq> set (map fst stress_profile)
     then Inl (ReportError ''cost-profile metric key sets differ'')
     else
     and_then (as_object (uget metrics ''profile_invariant'')) (\<lambda>invariant.
     and_then (load_jsonl env bundle (top ''events.jsonl'')) (\<lambda>events.
     and_then (as_int (uget invariant ''turns'')) (\<lambda>decisions_count.
     and_then (redacted_raw_paths env bundle) (\<lambda>redacted_paths.
     and_then (fold_result (load_turn env bundle run_id redacted_paths) [0..<nat decisions_count]
                 ([], [], [])) (\<lambda>(decisions, observations, raw).
     and_then (load_jsonl env bundle (top ''ledger.jsonl'')) (\<lambda>primary.
     and_then (load_jsonl env bundle (top ''ledger_stress_2x.jsonl'')) (\<lambda>stress.
     if length primary \<noteq> length stress then Inl (ReportError ''cost-profile ledger lengths differ'')
     else if int (length primary) \<noteq> decisions_count + 1
     then Inl (ReportError ''ledger rows must equal decision turns plus the opening anchor'')
     else Inr \<lparr>ev_bundle_root = bundle_root, ev_manifest = manifest, ev_agent_manifest = agent_manifest,
       ev_metrics = metrics, ev_primary = primary_profile, ev_stress_2x = stress_profile,
       ev_invariant = invariant, ev_events = events, ev_decisions = decisions,
       ev_observations = observations, ev_raw = raw, ev_primary_ledger = primary,
       ev_stress_ledger = stress\<rparr>)))))))))))))))"

section \<open>Labels and counts\<close>

definition rp_pack_id :: "Evidence \<Rightarrow> ustring result" where
  "rp_pack_id ev =
     and_then (as_object (uget (ev_manifest ev) ''pack'')) (\<lambda>pack. as_str (uget pack ''pack_id''))"

definition agent_label :: "Evidence \<Rightarrow> ustring result" where
  "agent_label ev =
     and_then (as_str (uget (ev_agent_manifest ev) ''name'')) (\<lambda>name.
     and_then (as_str (uget (ev_agent_manifest ev) ''model_id'')) (\<lambda>model.
     Inr (name @ ascii '' ('' @ model @ ascii '')'')))"

text \<open>Upper case, for the ASCII letters a verdict is written with.\<close>

definition upper_cp :: "codepoint \<Rightarrow> codepoint" where
  "upper_cp c = (if 97 \<le> c \<and> c \<le> 122 then c - 32 else c)"

definition shown_verdict :: "Evidence \<Rightarrow> ustring result" where
  "shown_verdict ev =
     and_then (as_str (uget (ev_invariant ev) ''survival_verdict'')) (\<lambda>v.
     Inr (map (\<lambda>c. upper_cp (if c = 95 then 32 else c)) v))"

definition count_of :: "ustring jobject \<Rightarrow> string \<Rightarrow> nat result" where
  "count_of decision field =
     and_then (as_object (uget decision ''happened'')) (\<lambda>happened.
     and_then (as_list (uget happened field)) (\<lambda>xs. Inr (length xs)))"

definition execution_counts :: "Evidence \<Rightarrow> (nat \<times> nat) result" where
  "execution_counts ev =
     fold_result (\<lambda>decision (fills, cancels).
       and_then (count_of decision ''fills'') (\<lambda>f.
       and_then (count_of decision ''cancels'') (\<lambda>c.
       Inr (fills + f, cancels + c)))) (ev_decisions ev) (0, 0)"

definition is_flat_hold :: "Evidence \<Rightarrow> bool result" where
  "is_flat_hold ev =
     and_then (execution_counts ev) (\<lambda>(fills, _).
     if fills \<noteq> 0 then Inr False
     else and_then (shown_verdict ev) (\<lambda>v. Inr (v = ascii ''SURVIVED'')))"

text \<open>The dash of the untiered rows and of the flat-hold mark.\<close>

definition EM_DASH :: ustring where "EM_DASH = [8212]"

definition display_verdict :: "Evidence \<Rightarrow> ustring result" where
  "display_verdict ev =
     and_then (shown_verdict ev) (\<lambda>v.
     and_then (is_flat_hold ev) (\<lambda>flat.
     Inr (if flat then v @ ascii '' '' @ EM_DASH @ ascii '' FLAT-HOLD'' else v)))"

definition discipline_events :: "Evidence \<Rightarrow> int result" where
  "discipline_events ev =
     and_then (traverse (\<lambda>field. as_int (uget (ev_invariant ev) field))
       [''invalid_actions'', ''missed_decisions'', ''gate_blocks'', ''post_kill_switch_attempts'',
        ''egress_blocked_count'']) (\<lambda>ns. Inr (sum_list ns))"

end
