(* ===== verification/Redaction.thy ===== *)
theory Redaction
  imports Report_Evidence Disk Json_Roundtrip
begin

text \<open>
  Model of \<open>recorder/redaction.py\<close>: the share bundle, a copy of a complete bundle without the
  verbatim texts of the model, in which every removal is disclosed and the seal still holds.
  What a failed export leaves at the destination is not modelled.
\<close>

section \<open>Reading the parent\<close>

definition redaction_hooks :: json_hooks where
  "redaction_hooks =
     \<lparr>jh_float = (\<lambda>_. Inl (RedactionError ''fractional JSON number is forbidden'')),
      jh_constant = (\<lambda>_. Inl (RedactionError ''non-finite JSON number is forbidden'')),
      jh_pairs = (\<lambda>pairs. if distinct (map fst pairs) then Inr (JObj pairs)
                         else Inl (RedactionError ''duplicate JSON key''))\<rparr>"

definition share_decode :: "verifier \<Rightarrow> byte list \<Rightarrow> ustring jobject result" where
  "share_decode env raw =
     (case utf8_decode raw of
        None \<Rightarrow> Inl (RedactionError ''invalid UTF-8'')
      | Some text \<Rightarrow>
          (case json_loads redaction_hooks (vf_depth env) text of
             Inr (JObj m) \<Rightarrow> Inr m
           | Inr _ \<Rightarrow> Inl (RedactionError ''expected a JSON object'')
           | Inl JSONDecodeError \<Rightarrow> Inl (RedactionError ''invalid JSON'')
           | Inl e \<Rightarrow> Inl e))"

definition share_read :: "node \<Rightarrow> ustring list \<Rightarrow> byte list result" where
  "share_read bundle ps =
     (case read_bytes bundle ps of
        Inl _ \<Rightarrow> Inl (RedactionError ''cannot read required bundle file'') | Inr raw \<Rightarrow> Inr raw)"

definition share_object :: "verifier \<Rightarrow> node \<Rightarrow> ustring list \<Rightarrow> ustring jobject result" where
  "share_object env bundle ps = and_then (share_read bundle ps) (share_decode env)"

definition share_line :: "verifier \<Rightarrow> byte list \<Rightarrow> ustring jobject result" where
  "share_line env line =
     (if line = [] then Inl (RedactionError ''blank JSONL line'') else share_decode env line)"

definition share_events :: "verifier \<Rightarrow> node \<Rightarrow> ustring list \<Rightarrow> ustring jobject list result" where
  "share_events env bundle ps =
     and_then (share_read bundle ps) (\<lambda>raw. traverse (share_line env) (bytes_splitlines raw))"

definition share_as_object :: "ustring json \<Rightarrow> ustring jobject result" where
  "share_as_object v = (case v of JObj m \<Rightarrow> Inr m | _ \<Rightarrow> Inl (RedactionError ''must be an object''))"

definition share_as_str :: "ustring json \<Rightarrow> ustring result" where
  "share_as_str v = (case v of JStr s \<Rightarrow> Inr s | _ \<Rightarrow> Inl (RedactionError ''must be a string''))"

definition share_as_int :: "ustring json \<Rightarrow> int result" where
  "share_as_int v =
     (case v of
        JInt n \<Rightarrow> if n < 0 then Inl (RedactionError ''must be a non-negative integer'') else Inr n
      | _ \<Rightarrow> Inl (RedactionError ''must be a non-negative integer''))"

text \<open>\<open>_require_complete\<close>: the root of a bundle that verifies COMPLETE.\<close>

definition require_complete :: "verifier \<Rightarrow> node \<Rightarrow> string result" where
  "require_complete env bundle =
     and_then (verify_bundle env bundle) (\<lambda>receipt.
     if vr_verdict receipt \<noteq> COMPLETE
     then Inl (RedactionError ''share requires a COMPLETE parent bundle'')
     else case vr_root receipt of
       None \<Rightarrow> Inl (RedactionError ''complete bundle verification returned no root'')
     | Some bundle_root \<Rightarrow> Inr bundle_root)"

section \<open>Commitments\<close>

text \<open>The dictionary \<open>commitments\<close>, in insertion order: path, hash and length.\<close>

type_synonym commitments = "(ustring \<times> string \<times> nat) list"

definition response_ref :: "nat \<Rightarrow> int \<Rightarrow> ustring" where
  "response_ref turn attempt = ascii (''raw/'' @ pad4 turn @ ''-a'' @ show_nat (nat attempt) @ ''.txt'')"

text \<open>
  The blob of a path without \<open>..\<close>. A path with a symbolic link in it is taken to leave the bundle,
  where the source resolves the link to find out.
\<close>

definition resolve_blob :: "node \<Rightarrow> ustring \<Rightarrow> ustring list result" where
  "resolve_blob bundle path =
     (let parts = path_parts path in
      if is_symlink bundle parts then Inl (RedactionError ''raw blob must not be a symlink'')
      else if \<not> path_exists bundle parts then Inl (RedactionError ''committed raw blob is missing'')
      else if \<exists>k \<in> set [1..<length parts]. is_symlink bundle (take k parts)
      then Inl (RedactionError ''raw blob escapes bundle'')
      else Inr parts)"

definition commit_response :: "node \<Rightarrow> ustring jobject \<Rightarrow> commitments \<Rightarrow> commitments result" where
  "commit_response bundle event commitments =
     (if uget event ''type'' \<noteq> utext ''AgentResponded'' then Inr commitments
      else case uget event ''turn'' of
        JInt turn \<Rightarrow>
          if turn < 0 then Inl (RedactionError ''AgentResponded.turn must be non-negative'')
          else
          and_then (share_as_object (uget event ''payload'')) (\<lambda>payload.
          and_then (share_as_int (uget payload ''attempt'')) (\<lambda>attempt.
          if attempt \<notin> {1, 2} then Inl (RedactionError ''invalid attempt'')
          else
          and_then (share_as_str (uget payload ''raw_ref'')) (\<lambda>path.
          if path \<noteq> response_ref (nat turn) attempt
          then Inl (RedactionError ''AgentResponded raw_ref is not the canonical one'')
          else if path \<in> set (map fst commitments)
          then Inl (RedactionError ''duplicate raw commitment'')
          else
          and_then (resolve_blob bundle path) (\<lambda>resolved.
          and_then (read_bytes bundle resolved) (\<lambda>raw.
          and_then (share_as_str (uget payload ''raw_sha256'')) (\<lambda>expected_hash.
          and_then (share_as_int (uget payload ''raw_bytes'')) (\<lambda>expected_bytes.
          let actual_hash = sha256_prefixed raw in
          if ascii actual_hash \<noteq> expected_hash \<or> int (length raw) \<noteq> expected_bytes
          then Inl (RedactionError ''raw commitment mismatch'')
          else Inr (commitments @ [(path, actual_hash, length raw)]))))))))
      | _ \<Rightarrow> Inl (RedactionError ''AgentResponded.turn must be non-negative''))"

text \<open>
  \<open>rglob\<close> over a directory, which does not descend into links, filtered by \<open>is_file\<close>, which
  follows them.
\<close>

fun file_names :: "node \<Rightarrow> ustring list" where
  "file_names (Dir entries) =
     concat (map (\<lambda>(name, c).
       (case follow c of
          Some (File _) \<Rightarrow> [name] | Some Unreadable \<Rightarrow> [name]
        | _ \<Rightarrow> map (\<lambda>rest. name @ [47] @ rest) (file_names c))) entries)"
| "file_names _ = []"

definition raw_commitments :: "verifier \<Rightarrow> node \<Rightarrow> commitments result" where
  "raw_commitments env bundle =
     and_then (share_events env bundle (top ''events.jsonl'')) (\<lambda>events.
     and_then (fold_result (commit_response bundle) events []) (\<lambda>commitments.
     let actual_paths = (case reach bundle (top ''raw'') of
           None \<Rightarrow> [] | Some d \<Rightarrow> map (\<lambda>name. ascii ''raw/'' @ name) (file_names d));
         committed = map fst commitments
     in
     if \<not> set actual_paths \<subseteq> set committed
     then Inl (RedactionError ''uncommitted raw files would leak from share export'')
     else if \<not> set committed \<subseteq> set actual_paths
     then Inl (RedactionError ''committed raw files are missing'')
     else if commitments = []
     then Inl (RedactionError ''share profile requires at least one raw model response to redact'')
     else Inr (sort_key fst commitments)))"

section \<open>Copying\<close>

text \<open>\<open>shutil.copytree\<close> with \<open>symlinks=True\<close>: a link is copied as a link.\<close>

declare traverse_cong [fundef_cong]

fun copytree :: "node \<Rightarrow> node result" where
  "copytree (File bs) = Inr (File bs)"
| "copytree Unreadable = Inl (OSError ''cannot copy'')"
| "copytree (Link target) = Inr (Link target)"
| "copytree (Dir entries) =
     and_then (traverse (\<lambda>(name, c). and_then (copytree c) (\<lambda>c'. Inr (name, c'))) entries)
       (\<lambda>copied. Inr (Dir copied))"

fun unlink :: "ustring list \<Rightarrow> node \<Rightarrow> node" where
  "unlink [p] (Dir entries) = Dir (AList.delete p entries)"
| "unlink (p # ps) (Dir entries) =
     Dir (map (\<lambda>(name, c). (name, if name = p then unlink ps c else c)) entries)"
| "unlink _ n = n"

definition remove_blob :: "ustring \<times> string \<times> nat \<Rightarrow> node \<Rightarrow> node result" where
  "remove_blob removal target =
     (let parts = path_parts (fst removal) in
      if is_symlink target parts \<or> \<not> is_file target parts
      then Inl (RedactionError ''copied raw blob is not a regular file'')
      else Inr (unlink parts target))"

text \<open>\<open>Path.write_bytes\<close>, where no link stands at the path.\<close>

definition write_bytes :: "ustring list \<Rightarrow> byte list \<Rightarrow> node \<Rightarrow> node result" where
  "write_bytes ps bs disk =
     (if is_dir disk ps \<or> is_symlink disk ps then Inl (OSError ''cannot write'')
      else Inr (put ps (File bs) disk))"

section \<open>The export\<close>

definition removal_document :: "ustring \<times> string \<times> nat \<Rightarrow> ustring json" where
  "removal_document removal = (case removal of (path, hash, n) \<Rightarrow>
     JObj [(ascii ''path'', JStr path), (ascii ''sha256'', utext hash), (ascii ''bytes'', JInt (int n)),
       (ascii ''reason'', utext ''raw_model_text'')])"

definition redaction_document :: "ustring \<Rightarrow> string \<Rightarrow> commitments \<Rightarrow> ustring jobject" where
  "redaction_document run_id parent_root removals =
     [(ascii ''schema'', utext ''redaction/v1''), (ascii ''run_id'', JStr run_id),
      (ascii ''profile'', utext ''share''), (ascii ''parent_root'', utext parent_root),
      (ascii ''removals'', JArr (map removal_document removals))]"

text \<open>Paths are resolved and absolute, as lists of names.\<close>

definition is_relative_to :: "ustring list \<Rightarrow> ustring list \<Rightarrow> bool" where
  "is_relative_to path base \<longleftrightarrow> take (length base) path = base"

definition paths_overlap :: "ustring list \<Rightarrow> ustring list \<Rightarrow> bool" where
  "paths_overlap parent destination \<longleftrightarrow>
     is_relative_to destination parent \<or> is_relative_to parent destination"

record ShareBundleResult =
  sb_run_id :: ustring
  sb_parent_root :: string
  sb_removals :: nat

text \<open>
  \<open>parent\<close> is the tree at the path of the parent, \<open>occupant\<close> what is at the destination; the result
  holds the tree the destination then has.
\<close>

definition create_share_bundle ::
    "verifier \<Rightarrow> ustring list \<Rightarrow> ustring list \<Rightarrow> node \<Rightarrow> node option \<Rightarrow> (ShareBundleResult \<times> node) result" where
  "create_share_bundle env parent_path target_path parent occupant =
     (if \<not> is_dir parent [] then Inl (RedactionError ''parent bundle is not a directory'')
      else if (case occupant of None \<Rightarrow> False | Some n \<Rightarrow> path_exists n [])
      then Inl (RedactionError ''share destination already exists'')
      else if paths_overlap parent_path target_path
      then Inl (RedactionError ''share destination must not contain or be contained by parent bundle'')
      else
      and_then (require_complete env parent) (\<lambda>parent_root.
      and_then (share_object env parent (top ''manifest.json'')) (\<lambda>manifest.
      and_then (share_as_str (uget manifest ''run_id'')) (\<lambda>run_id.
      and_then (share_object env parent (top ''chain.json'')) (\<lambda>seal.
      and_then (share_as_str (uget seal ''root'')) (\<lambda>seal_root.
      if seal_root \<noteq> ascii parent_root
      then Inl (RedactionError ''verifier root disagrees with chain.root'')
      else
      and_then (raw_commitments env parent) (\<lambda>removals.
      if occupant \<noteq> None then Inl (OSError ''file exists'')
      else
      and_then (copytree parent) (\<lambda>copy.
      and_then (fold_result remove_blob removals copy) (\<lambda>target.
      and_then (canonical_bytes (JObj (redaction_document run_id parent_root removals))) (\<lambda>bytes.
      and_then (write_bytes (top ''redaction.json'') (bytes @ [10]) target) (\<lambda>target.
      and_then (require_complete env target) (\<lambda>share_root.
      if share_root \<noteq> parent_root then Inl (RedactionError ''share verification changed root'')
      else Inr (\<lparr>sb_run_id = run_id, sb_parent_root = parent_root, sb_removals = length removals\<rparr>,
                target)))))))))))))"

end
