(* ===== verification/Share_Bundle.thy ===== *)
theory Share_Bundle
  imports Redaction Recording Canonical_Domain
begin

text \<open>
  The share bundle keeps the seal of its parent: on a plain tree the copy without its raw blobs
  verifies COMPLETE under the parent's root.
\<close>

section \<open>Copying and removing\<close>

lemma traverse_identity: "\<forall>x \<in> set xs. f x = Inr x \<Longrightarrow> traverse f xs = Inr xs"
  by (induction xs) simp_all

lemma plain_entry:
  assumes "plain_files es G" "(name, c) \<in> set es" shows "\<exists>bs. c = File bs"
proof -
  have "map_of es name = Some c"
    using assms unfolding plain_files_def by (blast intro: map_of_is_SomeI)
  moreover have "map_of es name = map_option File (G name)" using assms by (simp add: plain_files_def)
  ultimately show ?thesis by (cases "G name") auto
qed

lemma copytree_files:
  assumes "plain_files es G" shows "copytree (Dir es) = Inr (Dir es)"
proof -
  have "and_then (copytree c) (\<lambda>c'. Inr (name, c')) = Inr (name, c)" if "(name, c) \<in> set es" for name c
    using plain_entry[OF assms that] by auto
  then have "traverse (\<lambda>(name, c). and_then (copytree c) (\<lambda>c'. Inr (name, c'))) es = Inr es"
    by (intro traverse_identity) auto
  then show ?thesis by simp
qed

lemma copytree_plain:
  assumes "implements disk F" shows "copytree disk = Inr disk"
  using assms
proof (rule implementsE)
  fix entries
  assume e: "disk = Dir entries"
    "\<And>n. n \<notin> set (map ascii DIRECTORIES) \<Longrightarrow> map_of entries n = map_option File (F [n])"
    "\<And>d. d \<in> set (map ascii DIRECTORIES) \<Longrightarrow> \<exists>es. map_of entries d = Some (Dir es) \<and> plain_files es (\<lambda>n. F [d, n])"
  have "distinct (map fst entries)" using assms e(1) implements_distinct by blast
  then have "and_then (copytree c) (\<lambda>c'. Inr (name, c')) = Inr (name, c)" if "(name, c) \<in> set entries" for name c
  proof (cases "name \<in> set (map ascii DIRECTORIES)")
    case True
    from e(3)[OF this] obtain es where "map_of entries name = Some (Dir es)" "plain_files es (\<lambda>n. F [name, n])"
      by blast
    with \<open>distinct (map fst entries)\<close> that have "c = Dir es" "plain_files es (\<lambda>n. F [name, n])" by simp_all
    with copytree_files show ?thesis by (metis and_then_Inr)
  next
    case False
    have "map_of entries name = Some c"
      using \<open>distinct (map fst entries)\<close> that by (rule map_of_is_SomeI)
    with e(2)[OF False] have "\<exists>bs. c = File bs" by (cases "F [name]") auto
    then show ?thesis by auto
  qed
  then have "traverse (\<lambda>(name, c). and_then (copytree c) (\<lambda>c'. Inr (name, c'))) entries = Inr entries"
    by (intro traverse_identity) auto
  then show ?thesis by (simp add: e(1))
qed

lemma map_of_map_values:
  "map_of (map (\<lambda>(k, v). (k, f k v)) xs) k = map_option (f k) (map_of xs k)"
  by (induction xs) auto

lemma implements_unlink:
  assumes "implements disk F" "file_path ps"
  shows "implements (unlink ps disk) (F(ps := None))"
  using assms(1)
proof (rule implementsE)
  fix entries
  assume e: "disk = Dir entries"
    "\<And>n. n \<notin> set (map ascii DIRECTORIES) \<Longrightarrow> map_of entries n = map_option File (F [n])"
    "\<And>d. d \<in> set (map ascii DIRECTORIES) \<Longrightarrow> \<exists>es. map_of entries d = Some (Dir es) \<and> plain_files es (\<lambda>n. F [d, n])"
    "\<And>ps. F ps \<noteq> None \<Longrightarrow> file_path ps"
  have dis: "distinct (map fst entries)" using implements_distinct assms(1) e(1) by blast
  from assms(2) consider (one) n where "ps = [n]" "n \<notin> set (map ascii DIRECTORIES)"
    | (two) d n where "ps = [d, n]" "d \<in> set (map ascii DIRECTORIES)" by (auto simp: file_path_def)
  then show ?thesis
  proof cases
    case one
    have "\<exists>es. map_of (AList.delete n entries) d = Some (Dir es) \<and> plain_files es (\<lambda>m. (F(ps := None)) [d, m])"
      if d: "d \<in> set (map ascii DIRECTORIES)" for d
    proof -
      from d one(2) have "d \<noteq> n" by blast
      with e(3)[OF d] one(1) show ?thesis by (simp add: delete_conv')
    qed
    with one e(2,4) dis show ?thesis
      unfolding implements_def e(1) by (auto simp: delete_conv' distinct_delete)
  next
    case two
    from e(3)[OF two(2)] obtain es where es: "map_of entries d = Some (Dir es)"
      "plain_files es (\<lambda>n. F [d, n])" by blast
    let ?f = "\<lambda>name c. if name = d then unlink [n] c else c"
    let ?es = "map (\<lambda>(k, v). (k, ?f k v)) entries"
    have un: "unlink ps disk = Dir ?es" by (simp add: two(1) e(1))
    have keys: "map fst ?es = map fst entries" by (induction entries) auto
    have "\<exists>es'. map_of ?es d' = Some (Dir es') \<and> plain_files es' (\<lambda>m. (F(ps := None)) [d', m])"
      if "d' \<in> set (map ascii DIRECTORIES)" for d'
      using e(3)[OF that] es two(1) unfolding map_of_map_values
      by (cases "d' = d") (auto simp: plain_files_def distinct_delete delete_conv')
    moreover have "map_of ?es m = map_option File ((F(ps := None)) [m])" if "m \<notin> set (map ascii DIRECTORIES)" for m
    proof -
      from that two(2) have "m \<noteq> d" by blast
      with e(2)[OF that] two(1) show ?thesis unfolding map_of_map_values by (cases "F [m]") auto
    qed
    moreover have "distinct (map fst ?es)" using dis by (simp only: keys)
    ultimately show ?thesis
      using e(4) unfolding implements_def un by auto
  qed
qed

definition without :: "ustring list set \<Rightarrow> store \<Rightarrow> store" where
  "without S F = (\<lambda>ps. if ps \<in> S then None else F ps)"

lemma removals_unlinked:
  assumes "implements disk F" "distinct (map (\<lambda>c. path_parts (fst c)) removals)"
    "\<forall>c \<in> set removals. file_path (path_parts (fst c)) \<and> F (path_parts (fst c)) \<noteq> None"
  shows "\<exists>target. fold_result remove_blob removals disk = Inr target \<and>
    implements target (without (set (map (\<lambda>c. path_parts (fst c)) removals)) F)"
  using assms
proof (induction removals arbitrary: disk F)
  case Nil
  then show ?case by (simp add: without_def)
next
  case (Cons c cs)
  let ?p = "path_parts (fst c)"
  have p: "file_path ?p" "F ?p \<noteq> None" using Cons.prems(3) by simp_all
  then have "remove_blob c disk = Inr (unlink ?p disk)"
    using implements_reads(3,4)[OF Cons.prems(1) p(1)] by (simp add: remove_blob_def)
  moreover have "\<forall>c \<in> set cs. file_path (path_parts (fst c)) \<and> (F(?p := None)) (path_parts (fst c)) \<noteq> None"
  proof
    fix x assume x: "x \<in> set cs"
    with Cons.prems(2) have "path_parts (fst x) \<noteq> ?p" by (force simp: image_iff)
    with Cons.prems(3) x show "file_path (path_parts (fst x)) \<and> (F(?p := None)) (path_parts (fst x)) \<noteq> None"
      by simp
  qed
  with Cons.IH[OF implements_unlink[OF Cons.prems(1) p(1)]] Cons.prems(2) obtain target where
    "fold_result remove_blob cs (unlink ?p disk) = Inr target"
    "implements target (without (set (map (\<lambda>c. path_parts (fst c)) cs)) (F(?p := None)))"
    by (auto simp del: fun_upd_apply)
  moreover have "without (set (map (\<lambda>c. path_parts (fst c)) cs)) (F(?p := None))
      = without (set (map (\<lambda>c. path_parts (fst c)) (c # cs))) F" by (auto simp: without_def)
  ultimately show ?case by auto
qed
section \<open>What the export reads of its parent\<close>

lemma redaction_keeps: "keeps_pairs redaction_hooks"
  by (simp add: keeps_pairs_def redaction_hooks_def)

lemma share_decode_stored:
  assumes "canonical_object env bs path fail = Inr d" shows "share_decode env bs = Inr d"
proof -
  from canonical_object_stored[OF assms] have s: "canonical_bytes (JObj d) = Inr bs" "dict_like (JObj d)"
    "canonical_form (JObj d) = JObj d" by (simp_all only: stored_value_def)
  from canonical_object_eq_Inr(1)[OF assms] obtain t where t: "utf8_decode bs = Some t"
    "json_loads strict_hooks (vf_depth env) t = Inr (JObj d)" by (rule decode_document_eq_Inr)
  from loads_shaped[OF t(2)] have n: "nesting (JObj d) \<le> vf_depth env" by (simp only: shaped_def)
  from canonical_bytes_eq_Inr[OF s(1)] obtain t' where e: "encode_json (JObj d) = Inr t'" "utf8_encode t' = Some bs"
    by blast
  from utf8_roundtrip[OF e(2)] t(1) have "t' = t" by simp
  with loads_encoded[OF e(1) s(2) n redaction_keeps] s(3) t(1) show ?thesis
    by (simp add: share_decode_def)
qed

lemma document_decoded:
  assumes "read_document env b rel schema Forbid = Inr (d, raw)"
  shows "share_object env b (path_parts rel) = Inr d"
proof -
  from assms obtain parts where s: "safe_bundle_path b rel = Inr parts"
    by (auto simp: read_document_def and_then_eq_Inr)
  with assms obtain logical where r: "read_bytes b parts = Inr raw"
    "logical_bytes Forbid rel raw = Inr logical"
    "canonical_object env logical rel (\<lambda>m. failure m rel) = Inr d"
    by (auto simp: read_document_def and_then_eq_Inr split: sum.splits)
  from r(2) have "logical = raw" by (auto simp: logical_bytes_def Let_def split: if_splits)
  with r s share_decode_stored[OF r(3)] safe_path_parts[OF s] show ?thesis
    by (simp add: share_object_def share_read_def)
qed

lemma splitlines_line:
  "10 \<notin> set l \<Longrightarrow> 13 \<notin> set l \<Longrightarrow> bytes_splitlines (l @ 10 # rest) = l # bytes_splitlines rest"
  by (induction l) auto

lemma splitlines_lines:
  "\<forall>l \<in> set ls. 10 \<notin> set l \<and> 13 \<notin> set l \<Longrightarrow> bytes_splitlines (lines_of ls) = ls"
  by (induction ls) (simp_all add: splitlines_line)

lemma events_decoded:
  assumes "read_jsonl env b rel schema True stream = Inr js"
  shows "share_events env b (path_parts rel) = Inr (jl_objects js)"
proof -
  from assms obtain parts where s: "safe_bundle_path b rel = Inr parts"
    by (auto simp: read_jsonl_def and_then_eq_Inr)
  with assms obtain raw where r: "read_bytes b parts = Inr raw" "jl_records js = butlast (split_on 10 raw)"
    "traverse (read_line env rel schema stream) (zip [0..<length (jl_records js)] (jl_records js))
      = Inr (jl_objects js)"
    by (auto simp: read_jsonl_def and_then_eq_Inr Let_def split: sum.splits if_splits)
  note st = read_jsonl_stored[OF assms]
  have raw: "raw = lines_of (jl_records js)" using st(1) r(1) safe_path_parts[OF s] by simp
  have ctl: "10 \<notin> set l \<and> 13 \<notin> set l" if "l \<in> set (jl_records js)" for l
    using st(2) that canonical_no_newline
    by (fastforce simp: list_all2_conv_all_nth in_set_conv_nth stored_value_def)
  have len: "length (jl_objects js) = length (jl_records js)" using st(2) by (rule list_all2_lengthD)
  have line: "share_line env (jl_records js ! i) = Inr (jl_objects js ! i)" if "i < length (jl_records js)" for i
  proof -
    from traverse_nth[OF r(3), of i] that have "read_line env rel schema stream (i, jl_records js ! i) = Inr (jl_objects js ! i)"
      by simp
    then show ?thesis
      by (auto simp: read_line_def and_then_eq_Inr Let_def share_line_def split: if_splits
          dest: share_decode_stored)
  qed
  have "traverse (share_line env) (jl_records js) = Inr (jl_objects js)"
    using len line by (intro traverse_pointwise) (simp add: list_all2_conv_all_nth)
  with r(1) safe_path_parts[OF s] splitlines_lines[of "jl_records js"] ctl raw show ?thesis
    by (simp add: share_events_def share_read_def)
qed
section \<open>The commitments\<close>

text \<open>A response that is stored where its turn and attempt say.\<close>

definition canonical_response :: "ustring jobject \<Rightarrow> bool" where
  "canonical_response e \<longleftrightarrow>
     (case (uget e ''turn'', uget e ''payload'') of
        (JInt turn, JObj payload) \<Rightarrow>
          (case uget payload ''attempt'' of
             JInt attempt \<Rightarrow> 0 \<le> turn \<and> attempt \<in> {1, 2} \<and>
               uget payload ''raw_ref'' = JStr (response_ref (nat turn) attempt)
           | _ \<Rightarrow> False)
      | _ \<Rightarrow> False)"

lemma canonical_responseE:
  assumes "canonical_response e"
  obtains turn attempt payload where "uget e ''turn'' = JInt turn" "uget e ''payload'' = JObj payload"
    "uget payload ''attempt'' = JInt attempt" "0 \<le> turn" "attempt \<in> {1, 2}"
    "uget payload ''raw_ref'' = JStr (response_ref (nat turn) attempt)"
  using assms by (auto simp: canonical_response_def split: json.splits)

definition is_response :: "ustring jobject \<Rightarrow> bool" where
  "is_response e \<longleftrightarrow> uget e ''type'' = utext ''AgentResponded''"

definition commitment :: "ustring \<times> ustring \<times> int \<Rightarrow> ustring \<times> string \<times> nat" where
  "commitment r = (case r of (path, digest, n) \<Rightarrow> (path, map char_of digest, nat n))"

lemma fst_commitment [simp]: "fst (commitment r) = fst r"
  by (simp add: commitment_def split: prod.split)

lemma add_reference_raw:
  "add_reference e (obs, rr) = Inr (obs', rr') \<Longrightarrow> rr' = rr \<or> (\<exists>r. rr' = rr @ [r])"
  by (auto simp: add_reference_def raw_reference_def Let_def and_then_eq_Inr split: json.splits if_splits)

lemma references_grow:
  "fold_result add_reference es (obs, rr) = Inr (obs', rr') \<Longrightarrow> set rr \<subseteq> set rr'"
proof (induction es arbitrary: obs rr)
  case (Cons e es)
  then obtain obs1 rr1 where "add_reference e (obs, rr) = Inr (obs1, rr1)"
    "fold_result add_reference es (obs1, rr1) = Inr (obs', rr')" by (auto simp: and_then_eq_Inr)
  with Cons.IH add_reference_raw show ?case by fastforce
qed simp

lemma blob_resolved:
  assumes "check_raw_blob b [] (path, digest, n) = Inr ()"
  obtains raw where "resolve_blob b path = Inr (path_parts path)" "read_bytes b (path_parts path) = Inr raw"
    "digest = ascii (sha256_prefixed raw)" "n = int (length raw)"
proof -
  from assms obtain raw where s: "safe_bundle_path b path = Inr (path_parts path)"
    and r: "path_exists b (path_parts path)" "\<not> is_symlink b (path_parts path)" "is_file b (path_parts path)"
      "read_bytes b (path_parts path) = Inr raw" "digest = ascii (sha256_prefixed raw)" "n = int (length raw)"
    by (auto simp: check_raw_blob_def and_then_eq_Inr split: if_splits dest: safe_path_parts)
  from s have "\<not> is_symlink b (take k (path_parts path))" if "k \<in> set [1..<length (path_parts path)]" for k
    using that by (auto simp: safe_bundle_path_def Let_def split: if_splits)
  with r(1,2) have "resolve_blob b path = Inr (path_parts path)" by (auto simp: resolve_blob_def Let_def)
  then show thesis using that r by blast
qed

lemma response_committed:
  assumes "is_response e" "canonical_response e" "add_reference e (obs, rr) = Inr (obs', rr')"
    and ok: "\<forall>r \<in> set rr'. check_raw_blob b [] r = Inr ()"
  shows "commit_response b e (map commitment rr) = Inr (map commitment rr')"
proof -
  from assms(2) obtain turn attempt payload where e: "uget e ''turn'' = JInt turn" "uget e ''payload'' = JObj payload"
    "uget payload ''attempt'' = JInt attempt" "0 \<le> turn" "attempt \<in> {1, 2}"
    "uget payload ''raw_ref'' = JStr (response_ref (nat turn) attempt)" by (rule canonical_responseE)
  let ?path = "response_ref (nat turn) attempt"
  have t: "uget e ''type'' = utext ''AgentResponded''" using assms(1) by (simp add: is_response_def)
  have ne: "utext ''AgentResponded'' \<noteq> utext ''ObservationEmitted''" by (simp add: utext_def ascii_simps)
  from assms(3) e t ne have q: "and_then (raw_reference e payload rr) (\<lambda>r. Inr (obs, r)) = Inr (obs', rr')"
    by (simp add: add_reference_def)
  then have new: "map_of rr ?path = None"
    using e(6) by (cases "map_of rr ?path")
      (auto simp: raw_reference_def Let_def and_then_eq_Inr split: json.splits if_splits)
  from q e(6) obtain digest n where r: "uget payload ''raw_sha256'' = JStr digest"
    "uget payload ''raw_bytes'' = JInt n" "rr' = rr @ [(?path, digest, n)]"
    by (auto simp: raw_reference_def Let_def and_then_eq_Inr split: json.splits if_splits)
  from ok r(3) have "check_raw_blob b [] (?path, digest, n) = Inr ()" by simp
  then obtain raw where raw: "resolve_blob b ?path = Inr (path_parts ?path)"
    "read_bytes b (path_parts ?path) = Inr raw" "digest = ascii (sha256_prefixed raw)" "n = int (length raw)"
    by (rule blob_resolved)
  from new have fresh: "?path \<notin> set (map fst (map commitment rr))" by (simp add: map_of_eq_None_iff comp_def)
  have "\<not> attempt < 0" "attempt = 1 \<or> attempt = 2" "\<not> n < 0" using e(5) raw(4) by auto
  with e t r raw fresh show ?thesis
    by (simp add: commit_response_def share_as_object_def share_as_int_def share_as_str_def Let_def commitment_def)
qed

lemma other_committed:
  assumes "\<not> is_response e" "add_reference e (obs, rr) = Inr (obs', rr')"
  shows "commit_response b e cs = Inr cs" "rr' = rr"
  using assms
  by (auto simp: is_response_def commit_response_def add_reference_def and_then_eq_Inr split: json.splits if_splits)

lemma responses_committed:
  assumes "fold_result add_reference es (obs, rr) = Inr (obs', rr')"
    and "\<forall>e \<in> set es. is_response e \<longrightarrow> canonical_response e"
    and "\<forall>r \<in> set rr'. check_raw_blob b [] r = Inr ()"
  shows "fold_result (commit_response b) es (map commitment rr) = Inr (map commitment rr')"
  using assms
proof (induction es arbitrary: obs rr)
  case (Cons e es)
  then obtain obs1 rr1 where a: "add_reference e (obs, rr) = Inr (obs1, rr1)"
    "fold_result add_reference es (obs1, rr1) = Inr (obs', rr')" by (auto simp: and_then_eq_Inr)
  from references_grow[OF a(2)] Cons.prems(3) have ok: "\<forall>r \<in> set rr1. check_raw_blob b [] r = Inr ()" by blast
  have "commit_response b e (map commitment rr) = Inr (map commitment rr1)"
  proof (cases "is_response e")
    case True
    with response_committed[OF True _ a(1) ok] Cons.prems(2) show ?thesis by simp
  next
    case False
    from other_committed[OF False a(1)] show ?thesis by simp
  qed
  with Cons.IH[OF a(2)] Cons.prems(2,3) show ?case by simp
qed simp

text \<open>The raw store of a plain tree.\<close>

lemma file_names_plain: "plain_files es G \<Longrightarrow> file_names (Dir es) = map fst es"
proof -
  assume p: "plain_files es G"
  have "(case x of (name, c) \<Rightarrow> (case follow c of
          Some (File _) \<Rightarrow> [name] | Some Unreadable \<Rightarrow> [name]
        | _ \<Rightarrow> map (\<lambda>rest. name @ [47] @ rest) (file_names c))) = [fst x]" if "x \<in> set es" for x
    using plain_entry[OF p, of "fst x" "snd x"] that by (cases x) (auto simp: follow_def)
  then have "file_names (Dir es) = concat (map (\<lambda>x. [fst x]) es)"
    unfolding file_names.simps by (intro arg_cong[where f = concat] map_cong) simp_all
  then show ?thesis by simp
qed

lemma raw_store_names:
  assumes "implements disk F"
  obtains d where "reach disk (top ''raw'') = Some d" "set (file_names d) = {n. F [ascii ''raw'', n] \<noteq> None}"
  using assms
proof (rule implementsE)
  fix entries
  assume e: "disk = Dir entries"
    "\<And>d. d \<in> set (map ascii DIRECTORIES) \<Longrightarrow> \<exists>es. map_of entries d = Some (Dir es) \<and> plain_files es (\<lambda>n. F [d, n])"
  from e(2)[of "ascii ''raw''"] obtain es where es: "map_of entries (ascii ''raw'') = Some (Dir es)"
    "plain_files es (\<lambda>n. F [ascii ''raw'', n])" by (auto simp: DIRECTORIES_def)
  have "set (map fst es) = {n. map_of es n \<noteq> None}" by (force simp: map_of_eq_None_iff)
  also have "\<dots> = {n. F [ascii ''raw'', n] \<noteq> None}" using es(2) by (simp add: plain_files_def)
  finally show thesis
    using that[of "Dir es"] es file_names_plain[OF es(2)]
    by (simp add: reach_def top_def look_simps e(1) follow_def del: look.simps file_names.simps)
qed

end
