(* ===== verification/Share_Verdict.thy ===== *)
theory Share_Verdict
  imports Share_Bundle
begin

text \<open>
  How the verifier judges the share bundle: each of its stages sees what it saw of the parent,
  except that the raw blobs are gone and disclosed.
\<close>

section \<open>Plain trees\<close>

lemma plain_look:
  assumes "implements disk F" "\<not> file_path ps"
  shows "look ps disk = None \<or> (\<exists>es. look ps disk = Some (Dir es))"
  using assms(1)
proof (rule implementsE)
  fix entries
  assume e: "disk = Dir entries"
    "\<And>n. n \<notin> set (map ascii DIRECTORIES) \<Longrightarrow> map_of entries n = map_option File (F [n])"
    "\<And>d. d \<in> set (map ascii DIRECTORIES) \<Longrightarrow> \<exists>es. map_of entries d = Some (Dir es) \<and> plain_files es (\<lambda>n. F [d, n])"
  show ?thesis
  proof (cases ps)
    case (Cons n rest)
    show ?thesis
    proof (cases "n \<in> set (map ascii DIRECTORIES)")
      case True
      from e(3)[OF this] obtain es where es: "map_of entries n = Some (Dir es)" "plain_files es (\<lambda>m. F [n, m])" by blast
      show ?thesis
      proof (cases rest)
        case Nil
        with es(1) Cons e(1) show ?thesis by (simp add: follow_def)
      next
        case (Cons m rest')
        then have "rest' \<noteq> []" using assms(2) True \<open>ps = n # rest\<close> by (auto simp: file_path_def)
        then obtain k rest'' where "rest' = k # rest''" by (cases rest') auto
        moreover have "map_of es m = map_option File (F [n, m])" using es(2) by (simp add: plain_files_def)
        ultimately show ?thesis using es(1) Cons \<open>ps = n # rest\<close> e(1)
          by (cases "F [n, m]") (simp_all add: follow_def)
      qed
    next
      case False
      then have "rest \<noteq> []" using assms(2) Cons by (auto simp: file_path_def)
      then obtain k rest' where "rest = k # rest'" by (cases rest) auto
      with e(2)[OF False] Cons e(1) show ?thesis by (cases "F [n]") (simp_all add: follow_def)
    qed
  qed (simp add: e(1))
qed

lemma plain_reads:
  assumes "implements disk F"
  shows "read_bytes disk ps = (case F ps of Some bs \<Rightarrow> Inr bs | None \<Rightarrow> Inl (OSError ''cannot read''))"
    "\<not> is_symlink disk ps"
proof -
  have "F ps = None" if "\<not> file_path ps" using assms that by (auto simp: implements_def)
  with plain_look[OF assms] implements_reads(1,3)[OF assms]
  show "read_bytes disk ps = (case F ps of Some bs \<Rightarrow> Inr bs | None \<Rightarrow> Inl (OSError ''cannot read''))"
    "\<not> is_symlink disk ps"
    by (cases "file_path ps"; force simp: read_bytes_def is_symlink_def reach_def follow_def)+
qed

lemma plain_paths:
  assumes "implements disk F"
  shows "safe_bundle_path disk rel =
    (if take 1 rel = [47] \<or> [46, 46] \<in> set (path_parts rel)
     then Inl (failure ''unsafe bundle-relative path'' rel) else Inr (path_parts rel))"
  using plain_reads(2)[OF assms] by (simp add: safe_bundle_path_def Let_def)

lemma read_document_same:
  assumes "implements b F" "implements b' F'" "F' (path_parts rel) = F (path_parts rel)"
  shows "read_document env b' rel schema rule = read_document env b rel schema rule"
  using assms by (simp add: read_document_def plain_paths plain_reads(1))

lemma read_jsonl_same:
  assumes "implements b F" "implements b' F'" "F' (path_parts rel) = F (path_parts rel)"
  shows "read_jsonl env b' rel schema sealed stream = read_jsonl env b rel schema sealed stream"
  using assms by (simp add: read_jsonl_def plain_paths plain_reads(1))

lemma plain_exists: "implements disk F \<Longrightarrow> file_path ps \<Longrightarrow> path_exists disk ps \<longleftrightarrow> F ps \<noteq> None"
  by (rule implements_reads(2))

section \<open>The shared store\<close>

definition shared_store :: "store \<Rightarrow> byte list \<Rightarrow> store" where
  "shared_store F redaction =
     (\<lambda>ps. if take 1 ps = top ''raw'' then None else F ps)(top ''redaction.json'' \<mapsto> redaction)"

lemma shared_raw [simp]: "shared_store F rb [ascii ''raw'', n] = None"
  by (simp add: shared_store_def top_def)

lemma shared_redaction [simp]: "shared_store F rb (top ''redaction.json'') = Some rb"
  by (simp add: shared_store_def)

lemma shared_same: "take 1 ps \<noteq> top ''raw'' \<Longrightarrow> ps \<noteq> top ''redaction.json'' \<Longrightarrow> shared_store F rb ps = F ps"
  by (simp add: shared_store_def)

lemma shared_top: "name \<in> set BUNDLE_FILES \<Longrightarrow> shared_store F rb (top name) = F (top name)"
  by (intro shared_same) (auto simp: BUNDLE_FILES_def top_def ascii_simps)

lemma top_parts: "name \<in> set BUNDLE_FILES \<Longrightarrow> path_parts (ascii name) = top name"
  using top_paths(1) by (simp add: relative_path_def)

lemma shared_parts:
  "name \<in> set BUNDLE_FILES \<Longrightarrow> shared_store F rb (path_parts (ascii name)) = F (path_parts (ascii name))"
  by (simp add: top_parts shared_top)

section \<open>The stages that see no difference\<close>

lemma shared_identity:
  assumes "implements b F" "implements b' (shared_store F rb)"
  shows "read_identity env b' = read_identity env b"
  using read_document_same[OF assms shared_parts[of "''manifest.json''"]]
    read_document_same[OF assms shared_parts[of "''agent_manifest.json''"]]
  by (simp add: read_identity_def BUNDLE_FILES_def)

lemma shared_exists:
  assumes "implements b F" "implements b' (shared_store F rb)" "name \<in> set BUNDLE_FILES"
  shows "path_exists b' (top name) = path_exists b (top name)"
  using plain_exists[OF assms(1) top_paths(2)[OF assms(3)]] plain_exists[OF assms(2) top_paths(2)[OF assms(3)]]
    shared_top[OF assms(3)] by simp

lemma shared_seal:
  assumes "implements b F" "implements b' (shared_store F rb)"
  shows "read_seal env b' run_id = read_seal env b run_id"
  using read_document_same[OF assms shared_parts[of "''chain.json''"]]
    shared_exists[OF assms, of "''chain.json''"] plain_reads(2)[OF assms(1)] plain_reads(2)[OF assms(2)]
  by (simp add: read_seal_def BUNDLE_FILES_def Let_def)

lemma shared_stream:
  assumes "implements b F" "implements b' (shared_store F rb)" "name \<in> set BUNDLE_FILES"
  shows "read_jsonl env b' (ascii name) schema sealed stream = read_jsonl env b (ascii name) schema sealed stream"
  by (rule read_jsonl_same[OF assms(1,2) shared_parts[OF assms(3)]])

lemma shared_ledger:
  assumes "implements b F" "implements b' (shared_store F rb)" "name \<in> set BUNDLE_FILES"
  shows "read_ledger env b' name profile sealed = read_ledger env b name profile sealed"
  by (simp add: read_ledger_def shared_exists[OF assms] shared_stream[OF assms])

lemma shared_metrics:
  assumes "implements b F" "implements b' (shared_store F rb)"
  shows "read_metrics env b' sealed run_id = read_metrics env b sealed run_id"
  using shared_exists[OF assms, of "''metrics.json''"]
    read_document_same[OF assms shared_parts[of "''metrics.json''"]]
  by (simp add: read_metrics_def BUNDLE_FILES_def)

lemma shared_seal_files:
  assumes "implements b F" "implements b' (shared_store F rb)"
  shows "verify_seal_files b' seal = verify_seal_files b seal"
proof -
  have "read_bytes b' (top n) = read_bytes b (top n)" if "n \<in> set SEALED_FILES" for n
  proof -
    have "list_all (\<lambda>n. n \<in> set BUNDLE_FILES) SEALED_FILES" by (simp add: SEALED_FILES_def BUNDLE_FILES_def)
    with that have "n \<in> set BUNDLE_FILES" by (simp add: list_all_iff)
    then show ?thesis by (simp add: plain_reads(1)[OF assms(1)] plain_reads(1)[OF assms(2)] shared_top)
  qed
  then have "traverse (check_seal_file b' files) (sort SEALED_FILES)
      = traverse (check_seal_file b files) (sort SEALED_FILES)" for files
    by (intro traverse_cong) (simp add: check_seal_file_def)
  then show ?thesis unfolding verify_seal_files_def by presburger
qed

lemma shared_names:
  assumes "implements b F" "implements b' (shared_store F rb)" "d \<in> set (map ascii DIRECTORIES)" "d \<noteq> ascii ''raw''"
  obtains ns ns' where "iterdir b [d] = Inr ns" "iterdir b' [d] = Inr ns'" "sort ns' = sort ns"
proof -
  from implements_directories(4)[OF assms(1,3)] obtain ns where n: "iterdir b [d] = Inr ns" "distinct ns"
    "set ns = {n. F [d, n] \<noteq> None}" by blast
  from implements_directories(4)[OF assms(2,3)] obtain ns' where n': "iterdir b' [d] = Inr ns'" "distinct ns'"
    "set ns' = {n. shared_store F rb [d, n] \<noteq> None}" by blast
  have "shared_store F rb [d, n] = F [d, n]" for n
    using assms(4) by (intro shared_same) (simp_all add: top_def)
  with n(3) n'(3) have "set ns' = set ns" by simp
  with n(2) n'(2) have "sort ns' = sort ns" by (simp add: sorted_distinct_set_unique)
  with n(1) n'(1) that show thesis by blast
qed

lemma numbered_json_plain: "numbered_json name = Some k \<Longrightarrow> plain_name name"
proof -
  assume r: "numbered_json name = Some k"
  then have l: "length name = 9" and d: "all_digits (take 4 name)" and t: "drop 4 name = ascii ''.json''"
    by (auto simp: numbered_json_def split: if_splits)
  have "47 \<notin> set (take 4 name)" using d by (auto simp: all_digits_def list_all_iff is_digit_cp_def)
  moreover have "47 \<notin> set (drop 4 name)" by (simp add: t ascii_simps)
  ultimately have "47 \<notin> set name" by (metis UnE append_take_drop_id set_append)
  with l show ?thesis by (auto simp: plain_name_def)
qed

lemma shared_decisions:
  assumes "implements b F" "implements b' (shared_store F rb)"
  shows "read_decisions env b' True = read_decisions env b True"
proof -
  have p: "path_parts (ascii ''decisions'') = [ascii ''decisions'']"
    using store_paths(1)[of "''decisions''"] by (simp add: DIRECTORIES_def relative_path_def top_def)
  have d: "ascii ''decisions'' \<in> set (map ascii DIRECTORIES)" "ascii ''decisions'' \<noteq> ascii ''raw''"
    by (simp_all add: DIRECTORIES_def ascii_simps)
  obtain ns ns' where n: "iterdir b [ascii ''decisions''] = Inr ns" "iterdir b' [ascii ''decisions''] = Inr ns'"
    "sort ns' = sort ns" by (rule shared_names[OF assms d])
  have same: "read_decision env b' x = read_decision env b x" for x
  proof -
    obtain i name where x: "x = (i, name)" by (cases x)
    show ?thesis
    proof (cases "numbered_json name")
      case None
      then show ?thesis by (simp add: read_decision_def x)
    next
      case (Some k)
      then have "plain_name name" by (rule numbered_json_plain)
      then have "path_parts (ascii (''decisions'' @ ''/'') @ name) = [ascii ''decisions'', name]"
        by (intro path_parts_in_store) (auto simp: plain_name_def ascii_simps)
      then have pp: "path_parts (ascii ''decisions/'' @ name) = [ascii ''decisions'', name]" by simp
      have "shared_store F rb (path_parts (ascii ''decisions/'' @ name)) = F (path_parts (ascii ''decisions/'' @ name))"
        unfolding pp by (rule shared_same) (simp_all add: top_def ascii_simps)
      from read_document_same[OF assms this] show ?thesis by (simp add: read_decision_def x Some Let_def)
    qed
  qed
  have "visible_names True xs = xs" for xs by (simp add: visible_names_def)
  then have names: "and_then (iterdir b' [ascii ''decisions'']) (\<lambda>names. G (sort (visible_names True names)))
      = and_then (iterdir b [ascii ''decisions'']) (\<lambda>names. G (sort (visible_names True names)))"
    for G :: "ustring list \<Rightarrow> (ustring jobject list \<times> byte list list) result" by (simp add: n)
  have "read_decision env b' = read_decision env b" using same by blast
  then show ?thesis
    using names[of "\<lambda>candidates. and_then (traverse (read_decision env b) (zip [0..<length candidates] candidates))
       (\<lambda>pairs. Inr (map fst pairs, map snd pairs))"]
    by (simp add: read_decisions_def plain_paths[OF assms(1)] plain_paths[OF assms(2)] Let_def p)
qed
section \<open>The layout\<close>

lemma plain_layout:
  assumes "implements disk F"
  shows "verify_layout disk True = Inr () \<longleftrightarrow>
    {n. n \<notin> set (map ascii DIRECTORIES) \<and> F [n] \<noteq> None} \<union> set (map ascii DIRECTORIES)
      = set (map ascii (SEALED_TOP_LEVEL @ (if F (top ''redaction.json'') \<noteq> None then [''redaction.json''] else [])))"
proof -
  have "require_directory disk d = Inr ()" if d: "d \<in> set DIRECTORIES" for d
  proof -
    from store_paths(1)[OF d] have "safe_bundle_path disk (ascii d) = Inr (top d)"
      by (intro safe_written[OF assms]) (auto simp: top_def)
    then show ?thesis
      using implements_directories(3)[OF assms, of "ascii d"] d by (simp add: require_directory_def top_def)
  qed
  then have dirs: "traverse (require_directory disk) [''observations'', ''raw'', ''decisions''] = Inr [(), (), ()]"
    by (simp add: DIRECTORIES_def)
  from implements_directories(5)[OF assms] obtain ns where ns: "iterdir disk [] = Inr ns"
    "set ns = {n. n \<notin> set (map ascii DIRECTORIES) \<and> F [n] \<noteq> None} \<union> set (map ascii DIRECTORIES)" by blast
  have "path_exists disk (top ''redaction.json'') \<longleftrightarrow> F (top ''redaction.json'') \<noteq> None"
    by (rule plain_exists[OF assms top_is_file_path]) (simp add: DIRECTORIES_def)
  with dirs ns show ?thesis by (simp add: verify_layout_def Let_def)
qed

lemma shared_layout:
  assumes "implements b F" "implements b' (shared_store F rb)" "F (top ''redaction.json'') = None"
    "verify_layout b True = Inr ()"
  shows "verify_layout b' True = Inr ()"
proof -
  let ?top = "\<lambda>G. {n. n \<notin> set (map ascii DIRECTORIES) \<and> G [n] \<noteq> None} \<union> set (map ascii DIRECTORIES)"
  have "shared_store F rb [n] = (if n = ascii ''redaction.json'' then Some rb else if n = ascii ''raw'' then None else F [n])" for n
    by (simp add: shared_store_def top_def)
  moreover have "ascii ''raw'' \<in> set (map ascii DIRECTORIES)" "ascii ''redaction.json'' \<notin> set (map ascii DIRECTORIES)"
    by (simp_all add: DIRECTORIES_def ascii_simps)
  ultimately have "?top (shared_store F rb) = insert (ascii ''redaction.json'') (?top F)" by auto
  moreover have "?top F = set (map ascii SEALED_TOP_LEVEL)"
    using assms(3,4) by (simp only: plain_layout[OF assms(1)]) simp
  ultimately show ?thesis unfolding plain_layout[OF assms(2)] by simp
qed

section \<open>The disclosure\<close>

text \<open>The blobs of a bundle that discloses nothing.\<close>

lemma blobs_undisclosed:
  assumes "implements b F" "F (top ''redaction.json'') = None"
    "verify_blobs env b events (Some seal) run_id = Inr counts"
  obtains obs raws where "referenced_blobs events = Inr (obs, raws)"
    "\<forall>r \<in> set obs. check_observation_blob env b r = Inr ()" "\<forall>r \<in> set raws. check_raw_blob b [] r = Inr ()"
    "(\<lambda>n. ascii ''observations/'' @ n) ` {n. F [ascii ''observations'', n] \<noteq> None} = fst ` set obs"
    "(\<lambda>n. ascii ''raw/'' @ n) ` {n. F [ascii ''raw'', n] \<noteq> None} = fst ` set raws"
    "counts = (length obs, length raws, 0)"
proof -
  have "path_exists b (top ''redaction.json'') \<longleftrightarrow> F (top ''redaction.json'') \<noteq> None"
    by (rule plain_exists[OF assms(1) top_is_file_path]) (simp add: DIRECTORIES_def)
  then have "redactions env b (Some seal) run_id rr = Inr []" for rr using assms(2) by (simp add: redactions_def)
  with assms(3) obtain obs raws us vs ao ar where f: "referenced_blobs events = Inr (obs, raws)"
    "traverse (check_observation_blob env b) obs = Inr us" "traverse (check_raw_blob b []) raws = Inr vs"
    "store_names b ''observations'' True = Inr ao" "store_names b ''raw'' True = Inr ar"
    "check_store True ''observation store/reference mismatch'' ao (map fst obs) = Inr ()"
    "check_store True ''raw store/reference mismatch'' ar (map fst raws) = Inr ()"
    "counts = (length obs, length raws, 0)"
    by (auto simp: verify_blobs_def and_then_eq_Inr)
  have dirs: "''observations'' \<in> set DIRECTORIES" "''raw'' \<in> set DIRECTORIES" by (simp_all add: DIRECTORIES_def)
  obtain os where os: "store_names b ''observations'' True = Inr (map (\<lambda>n. ascii (''observations'' @ ''/'') @ n) os)"
    "set os = {n. F [ascii ''observations'', n] \<noteq> None}" by (rule blob_names[OF assms(1) dirs(1)])
  obtain rs where rs: "store_names b ''raw'' True = Inr (map (\<lambda>n. ascii (''raw'' @ ''/'') @ n) rs)"
    "set rs = {n. F [ascii ''raw'', n] \<noteq> None}" by (rule blob_names[OF assms(1) dirs(2)])
  have "set ao = (\<lambda>n. ascii ''observations/'' @ n) ` set os" "set ar = (\<lambda>n. ascii ''raw/'' @ n) ` set rs"
    using f(4,5) os(1) rs(1) by auto
  with f(6,7) have "(\<lambda>n. ascii ''observations/'' @ n) ` set os = fst ` set obs"
    "(\<lambda>n. ascii ''raw/'' @ n) ` set rs = fst ` set raws"
    by (simp_all add: check_store_def split: if_splits)
  then show thesis
    using that[OF f(1) traverse_unit[OF f(2)] traverse_unit[OF f(3)]] f(8) os(2) rs(2) by simp
qed
text \<open>Where the responses are stored.\<close>

definition response_name :: "nat \<Rightarrow> int \<Rightarrow> ustring" where
  "response_name turn attempt = ascii (pad4 turn @ ''-a'' @ show_nat (nat attempt) @ ''.txt'')"

lemma response_ref_path: "response_ref turn attempt = raw_path (response_name turn attempt)"
  by (simp add: response_ref_def response_name_def raw_path_def ascii_simps)

lemma no_slash_digits: "\<forall>c \<in> set s. is_digit c \<Longrightarrow> 47 \<notin> set (ascii s)"
  by (auto simp: ascii_def is_digit_def)

lemma response_name_plain: "plain_name (response_name turn attempt)"
proof -
  have "\<forall>c \<in> set (pad4 turn). is_digit c" "\<forall>c \<in> set (show_nat (nat attempt)). is_digit c"
    using show_nat_digits by (auto simp: pad4_def is_digit_def)
  then have "47 \<notin> set (ascii (pad4 turn))" "47 \<notin> set (ascii (show_nat (nat attempt)))"
    by (simp_all only: no_slash_digits not_False_eq_True)
  moreover have "response_name turn attempt
      = ascii (pad4 turn) @ ascii ''-a'' @ ascii (show_nat (nat attempt)) @ ascii ''.txt''"
    by (simp add: response_name_def ascii_def)
  ultimately show ?thesis by (auto simp: plain_name_def ascii_simps)
qed

lemma raw_path_parts: "plain_name name \<Longrightarrow> path_parts (raw_path name) = [ascii ''raw'', name]"
  unfolding raw_path_def by (rule path_parts_in_store) (auto simp: plain_name_def ascii_simps)

text \<open>Every raw reference of canonical responses names a file of the raw store.\<close>

definition stored_response :: "ustring \<Rightarrow> bool" where
  "stored_response path \<longleftrightarrow> (\<exists>name. path = raw_path name \<and> plain_name name \<and> raw_name name \<noteq> None)"

lemma stored_responseE:
  assumes "stored_response path"
  obtains name where "path = raw_path name" "path_parts path = [ascii ''raw'', name]" "raw_name name \<noteq> None"
  using assms raw_path_parts by (auto simp: stored_response_def)

lemma reference_stored:
  assumes "add_reference e (obs, rr) = Inr (obs', rr')" "is_response e \<longrightarrow> canonical_response e"
    and "\<forall>r \<in> set rr. stored_response (fst r)" "distinct (map fst rr)"
  shows "\<forall>r \<in> set rr'. stored_response (fst r)" "distinct (map fst rr')"
proof -
  have "(\<forall>r \<in> set rr'. stored_response (fst r)) \<and> distinct (map fst rr')"
  proof (cases "is_response e")
    case False
    from other_committed(2)[OF False assms(1)] assms(3,4) show ?thesis by simp
  next
    case True
    with assms(2) obtain turn attempt payload where e: "uget e ''payload'' = JObj payload"
      "uget payload ''raw_ref'' = JStr (response_ref (nat turn) attempt)" by (auto elim: canonical_responseE)
    let ?path = "response_ref (nat turn) attempt"
    have t: "uget e ''type'' = utext ''AgentResponded''" "utext ''AgentResponded'' \<noteq> utext ''ObservationEmitted''"
      using True by (simp_all add: is_response_def utext_def ascii_simps)
    from assms(1) e t have q: "and_then (raw_reference e payload rr) (\<lambda>r. Inr (obs, r)) = Inr (obs', rr')"
      by (simp add: add_reference_def)
    then have new: "map_of rr ?path = None"
      using e(2) by (cases "map_of rr ?path")
        (auto simp: raw_reference_def Let_def and_then_eq_Inr split: json.splits if_splits)
    from q e(2) obtain digest n where r: "rr' = rr @ [(?path, digest, n)]" "raw_name (path_name ?path) \<noteq> None"
      by (auto simp: raw_reference_def Let_def and_then_eq_Inr split: json.splits if_splits)
    have "path_name ?path = response_name (nat turn) attempt"
      by (simp add: path_name_def response_ref_path raw_path_parts[OF response_name_plain])
    with r(2) have "stored_response ?path"
      using response_name_plain unfolding stored_response_def response_ref_path by auto
    moreover have "?path \<notin> set (map fst rr)" using new by (simp add: map_of_eq_None_iff)
    ultimately show ?thesis using r(1) assms(3,4) by auto
  qed
  then show "\<forall>r \<in> set rr'. stored_response (fst r)" "distinct (map fst rr')" by simp_all
qed

lemma references_stored:
  assumes "fold_result add_reference es (obs, rr) = Inr (obs', rr')"
    and "\<forall>e \<in> set es. is_response e \<longrightarrow> canonical_response e"
    and "\<forall>r \<in> set rr. stored_response (fst r)" "distinct (map fst rr)"
  shows "\<forall>r \<in> set rr'. stored_response (fst r)" "distinct (map fst rr')"
proof -
  have "(\<forall>r \<in> set rr'. stored_response (fst r)) \<and> distinct (map fst rr')"
    using assms
  proof (induction es arbitrary: obs rr)
    case (Cons e es)
    then obtain obs1 rr1 where a: "add_reference e (obs, rr) = Inr (obs1, rr1)"
      "fold_result add_reference es (obs1, rr1) = Inr (obs', rr')" by (auto simp: and_then_eq_Inr)
    have "is_response e \<longrightarrow> canonical_response e" using Cons.prems(2) by simp
    note s = reference_stored[OF a(1) this Cons.prems(3,4)]
    show ?case by (rule Cons.IH[OF a(2) _ s]) (use Cons.prems(2) in simp)
  qed simp
  then show "\<forall>r \<in> set rr'. stored_response (fst r)" "distinct (map fst rr')" by simp_all
qed
text \<open>The disclosure as the verifier reads it back.\<close>

definition removal_members :: "ustring \<times> ustring \<times> int \<Rightarrow> ustring jobject" where
  "removal_members r = (case r of (path, digest, n) \<Rightarrow>
     [(ascii ''path'', JStr path), (ascii ''sha256'', JStr digest), (ascii ''bytes'', JInt n),
      (ascii ''reason'', utext ''raw_model_text'')])"

text \<open>A reference whose digest and length are those of some bytes.\<close>

definition hashes :: "ustring \<times> ustring \<times> int \<Rightarrow> bool" where
  "hashes r \<longleftrightarrow> (\<exists>raw. snd r = (ascii (sha256_prefixed raw), int (length raw)))"

lemma removal_of_commitment: "hashes r \<Longrightarrow> removal_document (commitment r) = JObj (removal_members r)"
  by (cases r) (auto simp: hashes_def removal_document_def commitment_def removal_members_def utext_def)

lemma removal_read:
  "uget (stored_form (removal_members (p, d, n))) ''path'' = JStr p"
  "uget (stored_form (removal_members (p, d, n))) ''sha256'' = JStr d"
  "uget (stored_form (removal_members (p, d, n))) ''bytes'' = JInt n"
proof -
  have "distinct (map fst (removal_members (p, d, n)))" by (simp add: removal_members_def ascii_simps)
  from uget_stored[OF this] show "uget (stored_form (removal_members (p, d, n))) ''path'' = JStr p"
    "uget (stored_form (removal_members (p, d, n))) ''sha256'' = JStr d"
    "uget (stored_form (removal_members (p, d, n))) ''bytes'' = JInt n" by (simp_all add: removal_members_def)
qed

lemma removals_disclosed:
  assumes "distinct (map fst raws)" "set rs \<subseteq> set raws" "distinct (map fst (acc @ rs))"
    and "\<forall>r \<in> set rs. \<not> path_exists b (path_parts (fst r))"
  shows "fold_result (disclose b raws) (zip [k..<k + length rs] (map (\<lambda>r. JObj (stored_form (removal_members r))) rs)) acc
    = Inr (acc @ rs)"
  using assms(2-4)
proof (induction rs arbitrary: k acc)
  case (Cons r rs)
  obtain p d n where r: "r = (p, d, n)" by (cases r)
  have "map_of raws p = Some (d, n)" using assms(1) Cons.prems(1) r by simp
  moreover have "map_of acc p = None" using Cons.prems(2) r by (auto simp: map_of_eq_None_iff)
  moreover have "\<not> path_exists b (path_parts p)" using Cons.prems(3) r by simp
  ultimately have "disclose b raws (k, JObj (stored_form (removal_members r))) acc = Inr (acc @ [r])"
    by (simp add: disclose_def removal_read r Let_def)
  moreover have "fold_result (disclose b raws)
      (zip [Suc k..<Suc k + length rs] (map (\<lambda>r. JObj (stored_form (removal_members r))) rs)) (acc @ [r])
      = Inr ((acc @ [r]) @ rs)"
    using Cons.prems by (intro Cons.IH) simp_all
  moreover have "[k..<k + length (r # rs)] = k # [Suc k..<Suc k + length rs]"
    by (subst upt_conv_Cons) simp_all
  ultimately show ?case by (simp del: upt_Suc)
qed simp

lemma redaction_shaped:
  assumes "3 \<le> vf_depth env" shows "shaped (vf_depth env) (JObj (redaction_document run_id r removals))"
proof -
  from assms obtain d where "vf_depth env = 3 + d" using le_Suc_ex by blast
  then have "vf_depth env = Suc (Suc (Suc d))" by simp
  moreover have "shaped (Suc d) (removal_document c)" for c
    by (cases c) (simp add: removal_document_def utext_def)
  ultimately show ?thesis by (simp add: redaction_document_def utext_def)
qed

lemma redaction_members:
  "uget (stored_form (redaction_document run_id r removals)) ''run_id'' = JStr run_id"
  "uget (stored_form (redaction_document run_id r removals)) ''parent_root'' = utext r"
  "uget (stored_form (redaction_document run_id r removals)) ''removals''
    = JArr (map (\<lambda>c. canonical_form (removal_document c)) removals)"
proof -
  have "distinct (map fst (redaction_document run_id r removals))" by (simp add: redaction_document_def ascii_simps)
  note u = uget_stored[OF this]
  show "uget (stored_form (redaction_document run_id r removals)) ''run_id'' = JStr run_id"
    "uget (stored_form (redaction_document run_id r removals)) ''parent_root'' = utext r"
    "uget (stored_form (redaction_document run_id r removals)) ''removals''
      = JArr (map (\<lambda>c. canonical_form (removal_document c)) removals)"
    unfolding u by (simp_all add: redaction_document_def utext_def canonical_items_map comp_def)
qed

lemma redaction_document_read:
  assumes i: "implements b F" and F: "F (top ''redaction.json'') = Some (bs @ [10])"
    and w: "written env d bs" "schema_ignores_order env" "vf_schema env ''redaction'' (JObj d)"
  shows "read_document env b (ascii ''redaction.json'') (Some ''redaction'') Optional_one
    = Inr (stored_form d, bs @ [10])"
proof -
  have p: "path_parts (ascii ''redaction.json'') = top ''redaction.json''"
    by (simp add: path_parts_def ascii_simps top_def)
  have "10 \<notin> set bs" using canonical_no_newline[of "JObj d" bs] w(1) by (simp add: written_def)
  then have "bs \<noteq> [] \<Longrightarrow> last bs \<noteq> 10" using last_in_set[of bs] by metis
  then have "logical_bytes Optional_one (ascii ''redaction.json'') (bs @ [10]) = Inr bs"
    by (auto simp: logical_bytes_def)
  then show ?thesis
    using F written_read[OF w(1)] written_valid[OF w]
    by (simp add: read_document_def plain_paths[OF i] p plain_reads(1)[OF i]) (simp add: ascii_simps top_def)
qed
section \<open>The blobs of the share\<close>

lemma shared_observation:
  assumes "implements b F" "implements b' (shared_store F rb)" "add_reference e (obs, rr) = Inr (obs', rr')"
    "\<forall>r \<in> set obs. check_observation_blob env b' r = check_observation_blob env b r"
  shows "\<forall>r \<in> set obs'. check_observation_blob env b' r = check_observation_blob env b r"
proof (cases "obs' = obs")
  case False
  with assms(3) obtain turn digest where r: "obs' = obs @ [(ascii (''observations/'' @ pad4_int turn @ ''.json''), digest, turn)]"
    by (auto simp: add_reference_def observation_reference_def Let_def and_then_eq_Inr split: json.splits if_splits)
  let ?rel = "ascii (''observations/'' @ pad4_int turn @ ''.json'')"
  have "?rel = ascii ''observations'' @ 47 # ascii (pad4_int turn @ ''.json'')" by (simp add: ascii_simps)
  then have "take 1 (path_parts ?rel) = [ascii ''observations'']"
    by (simp add: path_parts_def split_on_join split_on_whole ascii_simps)
  then have "shared_store F rb (path_parts ?rel) = F (path_parts ?rel)"
    by (intro shared_same) (auto simp: top_def ascii_simps)
  from read_document_same[OF assms(1,2) this] r assms(4) show ?thesis
    by (simp add: check_observation_blob_def)
qed (use assms(4) in simp)

lemma shared_observations:
  assumes "implements b F" "implements b' (shared_store F rb)" "fold_result add_reference es (obs, rr) = Inr (obs', rr')"
    "\<forall>r \<in> set obs. check_observation_blob env b' r = check_observation_blob env b r"
  shows "\<forall>r \<in> set obs'. check_observation_blob env b' r = check_observation_blob env b r"
  using assms(3,4)
proof (induction es arbitrary: obs rr)
  case (Cons e es)
  then obtain obs1 rr1 where "add_reference e (obs, rr) = Inr (obs1, rr1)"
    "fold_result add_reference es (obs1, rr1) = Inr (obs', rr')" by (auto simp: and_then_eq_Inr)
  with Cons.IH shared_observation[OF assms(1,2)] Cons.prems(2) show ?case by blast
qed simp

lemma sort_commitments: "sort_key fst (map commitment raws) = map commitment (sort_key fst raws)"
  by (simp add: sort_key_map comp_def)

lemma shared_blobs:
  assumes i: "implements b F" "implements b' (shared_store F (bs @ [10]))" "F (top ''redaction.json'') = None"
    and v: "verify_blobs env b events (Some seal) run_id = Inr counts"
    and refs: "referenced_blobs events = Inr (obs, raws)"
    and can: "\<forall>e \<in> set events. is_response e \<longrightarrow> canonical_response e"
    and doc: "written env (redaction_document run_id r (sort_key fst (map commitment raws))) bs" "schema_ignores_order env"
      "vf_schema env ''redaction'' (JObj (redaction_document run_id r (sort_key fst (map commitment raws))))"
    and seal: "uget seal ''root'' = utext r"
  shows "counts = (length obs, length raws, 0)"
    "verify_blobs env b' events (Some seal) run_id = Inr (length obs, length raws, length raws)"
proof -
  obtain obs' raws' where f: "referenced_blobs events = Inr (obs', raws')"
    "\<forall>r \<in> set obs'. check_observation_blob env b r = Inr ()" "\<forall>r \<in> set raws'. check_raw_blob b [] r = Inr ()"
    "(\<lambda>n. ascii ''observations/'' @ n) ` {n. F [ascii ''observations'', n] \<noteq> None} = fst ` set obs'"
    "(\<lambda>n. ascii ''raw/'' @ n) ` {n. F [ascii ''raw'', n] \<noteq> None} = fst ` set raws'"
    "counts = (length obs', length raws', 0)" by (rule blobs_undisclosed[OF i(1,3) v])
  from f(1) refs have same: "obs' = obs" "raws' = raws" by simp_all
  with f(6) show "counts = (length obs, length raws, 0)" by simp
  note fold = refs[unfolded referenced_blobs_def]
  have st: "\<forall>r \<in> set raws. stored_response (fst r)" "distinct (map fst raws)"
    using references_stored[OF fold can] by simp_all
  have absent: "\<not> path_exists b' (path_parts (fst r))" if "r \<in> set raws" for r
  proof -
    from st(1) that obtain name where "path_parts (fst r) = [ascii ''raw'', name]" by (auto elim: stored_responseE)
    then show ?thesis using plain_exists[OF i(2) store_paths(3)[of "''raw''"]] by (simp add: DIRECTORIES_def)
  qed
  have hs: "hashes r" if "r \<in> set raws" for r
  proof -
    obtain p d n where r: "r = (p, d, n)" by (cases r)
    with f(3) that same have "check_raw_blob b [] (p, d, n) = Inr ()" by simp
    then show ?thesis unfolding r hashes_def by (rule blob_resolved) auto
  qed
  let ?rs = "sort_key fst raws"
  have removals: "map (\<lambda>c. canonical_form (removal_document c)) (sort_key fst (map commitment raws))
      = map (\<lambda>r. JObj (stored_form (removal_members r))) ?rs"
  proof -
    have "canonical_form (removal_document (commitment x)) = JObj (stored_form (removal_members x))"
      if "x \<in> set raws" for x
      unfolding removal_of_commitment[OF hs[OF that]] canonical_form_JObj by (rule refl)
    then show ?thesis by (simp add: sort_commitments)
  qed
  have "F' (top ''redaction.json'') \<noteq> None \<Longrightarrow> implements b' F' \<Longrightarrow> path_exists b' (top ''redaction.json'')" for F'
    using plain_exists[of b' F', OF _ top_is_file_path] by (simp add: DIRECTORIES_def)
  from this[OF _ i(2)] have "path_exists b' (top ''redaction.json'')" by simp
  moreover have "fold_result (disclose b' raws)
      (zip [0..<0 + length ?rs] (map (\<lambda>r. JObj (stored_form (removal_members r))) ?rs)) [] = Inr ([] @ ?rs)"
  proof (rule removals_disclosed[OF st(2)])
    have "distinct (map fst ?rs)" using st(2) by (simp add: distinct_map)
    then show "distinct (map fst ([] @ ?rs))" by simp
  qed (use absent in simp_all)
  ultimately have rd: "redactions env b' (Some seal) run_id raws = Inr ?rs"
    using redaction_document_read[OF i(2) shared_redaction doc]
    by (simp add: redactions_def redaction_members seal removals)
  have "\<forall>r \<in> set obs. check_observation_blob env b' r = Inr ()"
    using shared_observations[OF i(1,2) fold] f(2) same by simp
  then obtain us where us: "traverse (check_observation_blob env b') obs = Inr us" using traverse_accepts by blast
  have "check_raw_blob b' ?rs x = Inr ()" if x: "x \<in> set raws" for x
  proof -
    obtain p d n where r: "x = (p, d, n)" by (cases x)
    from st(1) x have "stored_response p" unfolding r by auto
    then obtain name where name: "p = raw_path name" "path_parts p = [ascii ''raw'', name]" "raw_name name \<noteq> None"
      by (rule stored_responseE)
    have "take 1 p \<noteq> [47]" by (simp add: name(1) raw_path_def ascii_simps)
    moreover have "[46, 46] \<notin> set (path_parts p)"
      using raw_name_plain[OF name(3)] by (auto simp: name(2) ascii_simps)
    ultimately have "safe_bundle_path b' p = Inr (path_parts p)" by (simp add: plain_paths[OF i(2)])
    moreover have "p \<in> fst ` set raws" using image_eqI[of p fst x, OF _ x] r by simp
    then have "map_of ?rs p \<noteq> None" unfolding map_of_eq_None_iff set_sort by blast
    ultimately show ?thesis using absent[OF x] unfolding r check_raw_blob_def by simp
  qed
  then have "\<forall>x \<in> set raws. check_raw_blob b' ?rs x = Inr ()" by blast
  from traverse_accepts[OF this] obtain vs where vs: "traverse (check_raw_blob b' ?rs) raws = Inr vs" by blast
  have dirs: "''observations'' \<in> set DIRECTORIES" "''raw'' \<in> set DIRECTORIES" by (simp_all add: DIRECTORIES_def)
  obtain os where os: "store_names b' ''observations'' True = Inr (map (\<lambda>n. ascii (''observations'' @ ''/'') @ n) os)"
    "set os = {n. shared_store F (bs @ [10]) [ascii ''observations'', n] \<noteq> None}" by (rule blob_names[OF i(2) dirs(1)])
  obtain ns where ns: "store_names b' ''raw'' True = Inr (map (\<lambda>n. ascii (''raw'' @ ''/'') @ n) ns)"
    "set ns = {n. shared_store F (bs @ [10]) [ascii ''raw'', n] \<noteq> None}" by (rule blob_names[OF i(2) dirs(2)])
  have "shared_store F (bs @ [10]) [ascii ''observations'', n] = F [ascii ''observations'', n]" for n
    by (rule shared_same) (simp_all add: top_def ascii_simps)
  then have "(\<lambda>n. ascii ''observations/'' @ n) ` set os = fst ` set obs" using f(4) os(2) same by simp
  then have "check_store True ''observation store/reference mismatch''
      (map (\<lambda>n. ascii (''observations'' @ ''/'') @ n) os) (map fst obs) = Inr ()" by (simp add: check_store_def)
  moreover have "ns = []" using ns(2) by simp
  moreover have "filter (\<lambda>p. p \<notin> set (map fst ?rs)) (map fst raws) = []"
    unfolding filter_empty_conv by auto
  ultimately show "verify_blobs env b' events (Some seal) run_id = Inr (length obs, length raws, length raws)"
    using os(1) ns(1) by (simp add: verify_blobs_def refs rd us vs check_store_def)
qed
section \<open>The verdict\<close>

lemma shared_contents:
  assumes i: "implements b F" "implements b' (shared_store F rb)" "F (top ''redaction.json'') = None"
    and c: "read_contents env b = Inr (c, p)" "co_seal c = Some (seal, r)"
    and blobs: "verify_blobs env b' (committed_events (co_links c) (co_events c)) (Some seal)
      (id_run_id (co_identity c)) = Inr counts"
  shows "read_contents env b' = Inr (c\<lparr>co_blobs := counts\<rparr>, p)"
proof -
  have names: "''events.jsonl'' \<in> set BUNDLE_FILES" "''chain.jsonl'' \<in> set BUNDLE_FILES"
    "''ledger.jsonl'' \<in> set BUNDLE_FILES" "''ledger_stress_2x.jsonl'' \<in> set BUNDLE_FILES"
    by (simp_all add: BUNDLE_FILES_def)
  note same = shared_identity[OF i(1,2)] shared_seal[OF i(1,2)] shared_decisions[OF i(1,2)] shared_metrics[OF i(1,2)]
    names[THEN shared_stream[OF i(1,2)]] names[THEN shared_ledger[OF i(1,2)]]
  have "verify_layout b True = Inr ()" using c by (auto simp: read_contents_def Let_def and_then_eq_Inr)
  from shared_layout[OF i this] have layout: "verify_layout b' True = Inr ()" .
  from c blobs layout show ?thesis
    by (cases counts) (auto simp: read_contents_def Let_def and_then_eq_Inr same)
qed

lemma check_sealed_counts:
  assumes "co_blobs c = (o_count, r_count, k)" "verify_seal_files b' seal = verify_seal_files b seal"
  shows "check_sealed b' (c\<lparr>co_blobs := (o_count, r_count, k')\<rparr>) seal = check_sealed b c seal"
  using assms(1) by (cases c) (simp only: check_sealed_def Let_def assms(2) contents.simps prod.case)

lemma complete_verdict:
  assumes "read_contents env b = Inr (c, p)" "co_seal c = Some (seal, r)" "check_sealed b c seal = Inr primary"
    "implements b F"
  shows "verify_bundle env b = Inr (complete_result b c r primary)"
  using assms(1-3) implements_directories(1,2)[OF assms(4)]
  by (simp add: verify_bundle_def verify_body_def)

text \<open>What the export returns for a complete bundle that discloses nothing yet.\<close>

definition responses_of :: "verifier \<Rightarrow> node \<Rightarrow> ustring jobject list" where
  "responses_of env bundle =
     (case share_events env bundle (top ''events.jsonl'') of
        Inr events \<Rightarrow> filter is_response events | Inl _ \<Rightarrow> [])"

text \<open>The schema of \<open>redaction.json\<close> accepts every document of the form it describes.\<close>

definition schema_accepts_redactions :: "verifier \<Rightarrow> bool" where
  "schema_accepts_redactions env \<longleftrightarrow>
     (\<forall>run_id h removals. run_id_ok run_id \<and> well_formed_hash h \<and> removals \<noteq> [] \<and>
        (\<forall>(path, hash, n) \<in> set removals. raw_ref_ok path \<and> well_formed_hash hash) \<longrightarrow>
        vf_schema env ''redaction'' (JObj (redaction_document run_id h removals)))"

lemma complete_run_id:
  assumes "check_sealed b c seal = Inr primary" shows "run_id_ok (id_run_id (co_identity c))"
  using assms
  by (auto simp: check_sealed_def Let_def and_then_eq_Inr verify_decision_projection_def
      generate_decision_records_def split: if_splits option.splits)

end
