(* ===== verification/Share_Export.thy ===== *)
theory Share_Export
  imports Share_Verdict
begin

text \<open>
  The export of a complete bundle, step by step: what it commits to, that its disclosure can be
  written, and that the share verifies under the root of its parent.
\<close>

section \<open>Where a raw reference comes from\<close>

lemma raw_references_source:
  assumes "fold_result add_reference es (obs, rr) = Inr (obs', rr')" "r \<in> set rr'"
  shows "r \<in> set rr \<or> (\<exists>e \<in> set es. \<exists>p. uget e ''payload'' = JObj p \<and> uget p ''raw_bytes'' = JInt (snd (snd r)))"
  using assms
proof (induction es arbitrary: obs rr)
  case (Cons e es)
  then obtain obs1 rr1 where a: "add_reference e (obs, rr) = Inr (obs1, rr1)"
    "fold_result add_reference es (obs1, rr1) = Inr (obs', rr')" by (auto simp: and_then_eq_Inr)
  have "r \<in> set rr1 \<Longrightarrow> r \<in> set rr \<or> (\<exists>p. uget e ''payload'' = JObj p \<and> uget p ''raw_bytes'' = JInt (snd (snd r)))"
    using a(1) by (auto simp: add_reference_def raw_reference_def Let_def and_then_eq_Inr split: json.splits if_splits)
  with Cons.IH[OF a(2) Cons.prems(2)] show ?case by auto
qed simp

lemma raw_references_counted:
  assumes "fold_result add_reference es (obs, rr) = Inr (obs', rr')"
    "\<forall>e \<in> set es. is_response e \<longrightarrow> canonical_response e"
  shows "length rr' = length rr + length (filter is_response es)"
  using assms
proof (induction es arbitrary: obs rr)
  case (Cons e es)
  then obtain obs1 rr1 where a: "add_reference e (obs, rr) = Inr (obs1, rr1)"
    "fold_result add_reference es (obs1, rr1) = Inr (obs', rr')" by (auto simp: and_then_eq_Inr)
  have "length rr1 = length rr + (if is_response e then 1 else 0)"
  proof (cases "is_response e")
    case True
    with Cons.prems(2) obtain p where "uget e ''payload'' = JObj p" by (auto elim: canonical_responseE)
    moreover have "uget e ''type'' = utext ''AgentResponded''" "utext ''AgentResponded'' \<noteq> utext ''ObservationEmitted''"
      using True by (simp_all add: is_response_def utext_def ascii_simps)
    ultimately show ?thesis
      using a(1) True
      by (auto simp: add_reference_def raw_reference_def Let_def and_then_eq_Inr split: json.splits if_splits)
  qed (use other_committed(2)[OF _ a(1)] in simp)
  with Cons.IH[OF a(2)] Cons.prems(2) show ?case by simp
qed simp

section \<open>The disclosure can be written\<close>

lemma disclosure_hashable:
  assumes "run_id_ok run_id"
    and "\<forall>(path, hash, n) \<in> set removals. list_all scalar_value path \<and> int n \<le> MAX_SAFE_INT"
  shows "hashable (JObj (redaction_document run_id h removals))"
proof -
  have "hashable (removal_document c)" if "c \<in> set removals" for c
    using assms(2) that by (cases c) (auto simp: removal_document_def utext_def MAX_SAFE_INT_def)
  with run_id_scalar[OF assms(1)] show ?thesis
    by (auto simp: redaction_document_def utext_def hashable_items_iff)
qed

section \<open>The evidence of the parent\<close>

lemma identity_manifest:
  assumes "read_identity env b = Inr ident"
  obtains manifest raw where
    "read_document env b (ascii ''manifest.json'') (Some ''bundle_manifest'') Forbid = Inr (manifest, raw)"
    "uget manifest ''run_id'' = JStr (id_run_id ident)"
  using assms by (auto simp: read_identity_def Let_def and_then_eq_Inr split: if_splits json.splits)

text \<open>What the export needs to know of a complete bundle that is a plain tree and discloses nothing.\<close>

lemma complete_parent:
  assumes i: "implements parent F" and red: "F (top ''redaction.json'') = None"
    and v: "verify_bundle env parent = Inr v" "vr_verdict v = COMPLETE" "vr_root v = Some r"
  obtains c p seal primary obs raws where
    "read_contents env parent = Inr (c, p)" "co_seal c = Some (seal, r)" "check_sealed parent c seal = Inr primary"
    "committed_events (co_links c) (co_events c) = jl_objects (co_events c)"
    "share_events env parent (top ''events.jsonl'') = Inr (jl_objects (co_events c))"
    "\<forall>e \<in> set (jl_objects (co_events c)). hashable (JObj e)"
    "verify_blobs env parent (jl_objects (co_events c)) (Some seal) (id_run_id (co_identity c)) = Inr (co_blobs c)"
    "referenced_blobs (jl_objects (co_events c)) = Inr (obs, raws)"
    "\<exists>manifest. share_object env parent (top ''manifest.json'') = Inr manifest \<and>
       uget manifest ''run_id'' = JStr (id_run_id (co_identity c))"
    "share_object env parent (top ''chain.json'') = Inr seal" "uget seal ''root'' = utext r" "well_formed_hash r"
proof -
  obtain c seal where "complete env parent c seal r" using v by (auto elim: verdict_complete)
  then obtain p primary where c: "read_contents env parent = Inr (c, p)" "co_seal c = Some (seal, r)"
    "check_sealed parent c seal = Inr primary" by (auto simp: complete_def)
  have parts: "path_parts (ascii ''events.jsonl'') = top ''events.jsonl''" "path_parts (ascii ''chain.json'') = top ''chain.json''"
    "path_parts (ascii ''manifest.json'') = top ''manifest.json''"
    by (simp_all add: top_parts BUNDLE_FILES_def)
  obtain eh dh where P:
    "read_identity env parent = Inr (co_identity c)"
    "read_seal env parent (id_run_id (co_identity c)) = Inr (Some (seal, r))"
    "read_jsonl env parent (ascii ''events.jsonl'') (Some ''event'') True (Some ''events'') = Inr (co_events c)"
    "verify_stream ''events'' (id_event_genesis (co_identity c)) (jl_records (co_events c))
       (fst (co_links c)) (Some eh) = Inr ()"
    "verify_blobs env parent (committed_events (co_links c) (co_events c)) (Some seal)
       (id_run_id (co_identity c)) = Inr (co_blobs c)"
    by (rule contents_parts[OF c(1,2)]) blast
  note st = read_jsonl_stored(2)[OF P(3)]
  have "length (fst (co_links c)) = length (jl_objects (co_events c))"
    using verify_stream_lengths[OF P(4)] list_all2_lengthD[OF st] by simp
  then have ce: "committed_events (co_links c) (co_events c) = jl_objects (co_events c)"
    by (simp add: committed_events_def)
  have ev: "share_events env parent (top ''events.jsonl'') = Inr (jl_objects (co_events c))"
    using events_decoded[OF P(3)] parts(1) by simp
  have he: "\<forall>e \<in> set (jl_objects (co_events c)). hashable (JObj e)"
  proof
    fix e assume "e \<in> set (jl_objects (co_events c))"
    then obtain i where i: "i < length (jl_objects (co_events c))" "e = jl_objects (co_events c) ! i"
      by (auto simp: in_set_conv_nth)
    with st have "\<exists>bs. canonical_bytes (JObj e) = Inr bs"
      unfolding list_all2_conv_all_nth stored_value_def by blast
    then show "hashable (JObj e)" by (simp only: canonical_defined)
  qed
  from P(5) ce obtain obs raws where rb: "referenced_blobs (jl_objects (co_events c)) = Inr (obs, raws)"
    by (auto simp: verify_blobs_def and_then_eq_Inr)
  obtain manifest raw where "read_document env parent (ascii ''manifest.json'') (Some ''bundle_manifest'') Forbid
      = Inr (manifest, raw)" "uget manifest ''run_id'' = JStr (id_run_id (co_identity c))"
    using P(1) by (rule identity_manifest)
  then have man: "share_object env parent (top ''manifest.json'') = Inr manifest \<and>
       uget manifest ''run_id'' = JStr (id_run_id (co_identity c))"
    using document_decoded parts(3) by metis
  obtain raw' where "read_document env parent (ascii ''chain.json'') (Some ''chain'') Forbid = Inr (seal, raw')"
    and s: "seal_root seal = Inr r" "uget seal ''root'' = utext r"
    using P(2) by (auto simp: read_seal_def Let_def and_then_eq_Inr split: if_splits)
  then have ch: "share_object env parent (top ''chain.json'') = Inr seal" using document_decoded parts(2) by metis
  have wf: "well_formed_hash r" using preimage_hashed(2)[OF s(1)] by simp
  have vb: "verify_blobs env parent (jl_objects (co_events c)) (Some seal) (id_run_id (co_identity c)) = Inr (co_blobs c)"
    using P(5) ce by simp
  show thesis by (rule that[OF c ce ev he vb rb _ ch s(2) wf]) (use man in blast)
qed
section \<open>The removals\<close>

lemma raw_blobs_committed:
  assumes i: "implements parent F"
    and ev: "share_events env parent (top ''events.jsonl'') = Inr events"
    and refs: "referenced_blobs events = Inr (obs, raws)" "raws \<noteq> []"
    and can: "\<forall>e \<in> set events. is_response e \<longrightarrow> canonical_response e"
    and ok: "\<forall>r \<in> set raws. check_raw_blob parent [] r = Inr ()"
    and names: "(\<lambda>n. ascii ''raw/'' @ n) ` {n. F [ascii ''raw'', n] \<noteq> None} = fst ` set raws"
  shows "raw_commitments env parent = Inr (sort_key fst (map commitment raws))"
proof -
  have "fold_result (commit_response parent) events (map commitment []) = Inr (map commitment raws)"
    using refs(1) can ok unfolding referenced_blobs_def by (rule responses_committed)
  moreover obtain d where "reach parent (top ''raw'') = Some d" "set (file_names d) = {n. F [ascii ''raw'', n] \<noteq> None}"
    by (rule raw_store_names[OF i])
  moreover have "fst ` commitment ` set raws = fst ` set raws" by (simp only: image_image fst_commitment)
  ultimately show ?thesis
    using ev names refs(2) by (simp add: raw_commitments_def Let_def)
qed

lemma raw_blobs_unlinked:
  assumes i: "implements parent F"
    and st: "\<forall>r \<in> set raws. stored_response (fst r)" "distinct (map fst raws)"
    and names: "(\<lambda>n. ascii ''raw/'' @ n) ` {n. F [ascii ''raw'', n] \<noteq> None} = fst ` set raws"
  obtains target where "fold_result remove_blob (sort_key fst (map commitment raws)) parent = Inr target"
    "implements target (\<lambda>ps. if take 1 ps = top ''raw'' then None else F ps)"
proof -
  let ?rs = "sort_key fst (map commitment raws)"
  have name: "\<exists>n. path_parts (fst r) = [ascii ''raw'', n] \<and> fst r = ascii ''raw/'' @ n \<and> F [ascii ''raw'', n] \<noteq> None"
    if "r \<in> set raws" for r
  proof -
    from st(1) that have "stored_response (fst r)" by blast
    then obtain name where n: "fst r = raw_path name" "path_parts (fst r) = [ascii ''raw'', name]"
      by (rule stored_responseE)
    have "raw_path name = ascii ''raw/'' @ name" by (simp add: raw_path_def)
    with n(1) that names have "ascii ''raw/'' @ name \<in> (\<lambda>n. ascii ''raw/'' @ n) ` {n. F [ascii ''raw'', n] \<noteq> None}"
      by (metis imageI)
    then have "F [ascii ''raw'', name] \<noteq> None" by auto
    with n \<open>raw_path name = _\<close> show ?thesis by auto
  qed
  have parts: "(\<lambda>c. path_parts (fst c)) ` set ?rs = (\<lambda>r. path_parts (fst r)) ` set raws" by (simp add: image_image)
  have "inj_on path_parts (fst ` set raws)"
  proof (rule inj_onI)
    fix x y
    assume xy: "x \<in> fst ` set raws" "y \<in> fst ` set raws" "path_parts x = path_parts y"
    from xy(1) name obtain m where "path_parts x = [ascii ''raw'', m]" "x = ascii ''raw/'' @ m" by blast
    moreover from xy(2) name obtain n where "path_parts y = [ascii ''raw'', n]" "y = ascii ''raw/'' @ n" by blast
    ultimately show "x = y" using xy(3) by simp
  qed
  then have "distinct (map path_parts (map fst raws))" using st(2) by (simp only: distinct_map set_map)
  then have "distinct (map (\<lambda>r. path_parts (fst r)) raws)" by (simp add: comp_def)
  then have dis: "distinct (map (\<lambda>c. path_parts (fst c)) ?rs)"
    by (simp add: sort_commitments comp_def distinct_map)
  have "\<forall>c \<in> set ?rs. file_path (path_parts (fst c)) \<and> F (path_parts (fst c)) \<noteq> None"
  proof
    fix c assume "c \<in> set ?rs"
    then obtain r where "r \<in> set raws" "fst c = fst r" by auto
    with name[of r] store_paths(3)[of "''raw''"] show "file_path (path_parts (fst c)) \<and> F (path_parts (fst c)) \<noteq> None"
      by (auto simp: DIRECTORIES_def)
  qed
  from removals_unlinked[OF i dis this] obtain target where t: "fold_result remove_blob ?rs parent = Inr target"
    "implements target (without (set (map (\<lambda>c. path_parts (fst c)) ?rs)) F)" by blast
  have "without (set (map (\<lambda>c. path_parts (fst c)) ?rs)) F = (\<lambda>ps. if take 1 ps = top ''raw'' then None else F ps)"
  proof
    fix ps
    have "ps \<in> set (map (\<lambda>c. path_parts (fst c)) ?rs) \<longleftrightarrow> take 1 ps = top ''raw'' \<and> F ps \<noteq> None"
      if "F ps \<noteq> None \<or> ps \<in> set (map (\<lambda>c. path_parts (fst c)) ?rs)"
    proof
      assume "ps \<in> set (map (\<lambda>c. path_parts (fst c)) ?rs)"
      then obtain r where "r \<in> set raws" "ps = path_parts (fst r)" unfolding set_map parts by blast
      with name[of r] show "take 1 ps = top ''raw'' \<and> F ps \<noteq> None" by (auto simp: top_def)
    next
      assume a: "take 1 ps = top ''raw'' \<and> F ps \<noteq> None"
      with i have "file_path ps" by (auto simp: implements_def)
      with a obtain n where n: "ps = [ascii ''raw'', n]" by (auto simp: file_path_def top_def DIRECTORIES_def)
      with a have "ascii ''raw/'' @ n \<in> fst ` set raws" using names by blast
      then obtain r where r: "r \<in> set raws" "fst r = ascii ''raw/'' @ n" by auto
      from name[OF r(1)] r(2) n have "ps = path_parts (fst r)" by auto
      with r(1) show "ps \<in> set (map (\<lambda>c. path_parts (fst c)) ?rs)" unfolding set_map parts by blast
    qed
    then show "without (set (map (\<lambda>c. path_parts (fst c)) ?rs)) F ps = (if take 1 ps = top ''raw'' then None else F ps)"
      unfolding without_def by (cases "F ps") auto
  qed
  with t that show thesis by metis
qed

lemma commitment_facts:
  assumes "fold_result add_reference es ([], []) = Inr (obs, raws)"
    and "\<forall>r \<in> set raws. stored_response (fst r)" "\<forall>e \<in> set es. hashable (JObj e)"
    and "\<forall>r \<in> set raws. check_raw_blob b [] r = Inr ()"
    and "(path, hash, n) \<in> commitment ` set raws"
  shows "raw_ref_ok path \<and> list_all scalar_value path \<and> well_formed_hash hash \<and> int n \<le> MAX_SAFE_INT"
proof -
  from assms(5) obtain digest k where r: "(path, digest, k) \<in> set raws" "commitment (path, digest, k) = (path, hash, n)"
    by (auto simp: commitment_def)
  from assms(2) r(1) have "stored_response path" by force
  then obtain name where name: "path = raw_path name" "raw_name name \<noteq> None" by (rule stored_responseE)
  from assms(4) r(1) have "check_raw_blob b [] (path, digest, k) = Inr ()" by blast
  then obtain raw where raw: "digest = ascii (sha256_prefixed raw)" "k = int (length raw)" by (rule blob_resolved)
  with r(2) have h: "hash = sha256_prefixed raw" "n = length raw" by (simp_all add: commitment_def)
  from raw_references_source[OF assms(1) r(1)] obtain e p where "e \<in> set es" "uget e ''payload'' = JObj p"
    "uget p ''raw_bytes'' = JInt k" by auto
  with assms(3) have "hashable (JObj e)" by blast
  from uget_hashable[OF this, of "''payload''"] \<open>uget e ''payload'' = JObj p\<close> have "hashable (JObj p)" by simp
  from uget_hashable[OF this, of "''raw_bytes''"] \<open>uget p ''raw_bytes'' = JInt k\<close> have "k \<le> MAX_SAFE_INT" by simp
  moreover have "raw_ref_ok path" using name by (simp add: raw_ref_ok_def raw_path_def ascii_simps)
  moreover have "list_all scalar_value path"
  proof -
    have "list_all scalar_value (take 4 name)" "list_all scalar_value (drop 4 name)"
      using name(2) by (auto simp: raw_name_def all_digits_def list_all_iff is_digit_cp_def scalar_value_def
          is_surrogate_def ascii_simps split: if_splits)
    then have "list_all scalar_value (take 4 name @ drop 4 name)" by (simp only: list_all_append)
    then show ?thesis by (simp add: name(1) raw_path_def)
  qed
  ultimately show ?thesis using h raw(2) by simp
qed

section \<open>The export\<close>

lemma share_exported:
  assumes i: "implements parent F" and red: "F (top ''redaction.json'') = None"
    and v: "verify_bundle env parent = Inr v" "vr_verdict v = COMPLETE" "vr_root v = Some r"
    and can: "\<forall>e \<in> set (responses_of env parent). canonical_response e" "responses_of env parent \<noteq> []"
    and env: "schema_ignores_order env" "schema_accepts_redactions env" "3 \<le> vf_depth env"
    and paths: "\<not> paths_overlap parent_path target_path"
  obtains receipt share v' rb where
    "create_share_bundle env parent_path target_path parent None = Inr (receipt, share)"
    "sb_parent_root receipt = r" "sb_removals receipt = length (responses_of env parent)"
    "implements share (shared_store F rb)"
    "verify_bundle env share = Inr v'" "vr_verdict v' = COMPLETE" "vr_root v' = Some r"
proof -
  obtain c p seal primary obs raws where
    C: "read_contents env parent = Inr (c, p)" "co_seal c = Some (seal, r)" "check_sealed parent c seal = Inr primary"
      "committed_events (co_links c) (co_events c) = jl_objects (co_events c)"
    and ev: "share_events env parent (top ''events.jsonl'') = Inr (jl_objects (co_events c))"
      "\<forall>e \<in> set (jl_objects (co_events c)). hashable (JObj e)"
    and vb: "verify_blobs env parent (jl_objects (co_events c)) (Some seal) (id_run_id (co_identity c)) = Inr (co_blobs c)"
    and refs: "referenced_blobs (jl_objects (co_events c)) = Inr (obs, raws)"
    and man: "\<exists>manifest. share_object env parent (top ''manifest.json'') = Inr manifest \<and>
       uget manifest ''run_id'' = JStr (id_run_id (co_identity c))"
    and sl: "share_object env parent (top ''chain.json'') = Inr seal" "uget seal ''root'' = utext r" "well_formed_hash r"
    by (rule complete_parent[OF i red v])
  let ?events = "jl_objects (co_events c)" and ?run = "id_run_id (co_identity c)"
  have resp: "responses_of env parent = filter is_response ?events" by (simp add: responses_of_def ev(1))
  have can': "\<forall>e \<in> set ?events. is_response e \<longrightarrow> canonical_response e" using can(1) by (simp add: resp)
  note fold = refs[unfolded referenced_blobs_def]
  have count: "length raws = length (responses_of env parent)"
    using raw_references_counted[OF fold can'] by (simp add: resp)
  then have ne: "raws \<noteq> []" using can(2) by auto
  have st: "\<forall>r \<in> set raws. stored_response (fst r)" "distinct (map fst raws)"
    using references_stored[OF fold can'] by simp_all
  obtain obs' raws' where "referenced_blobs ?events = Inr (obs', raws')" "\<forall>r \<in> set raws'. check_raw_blob parent [] r = Inr ()"
    "(\<lambda>n. ascii ''raw/'' @ n) ` {n. F [ascii ''raw'', n] \<noteq> None} = fst ` set raws'"
    by (rule blobs_undisclosed[OF i red vb])
  with refs have ok: "\<forall>r \<in> set raws. check_raw_blob parent [] r = Inr ()"
    and names: "(\<lambda>n. ascii ''raw/'' @ n) ` {n. F [ascii ''raw'', n] \<noteq> None} = fst ` set raws" by simp_all
  let ?cs = "sort_key fst (map commitment raws)"
  let ?doc = "redaction_document ?run r ?cs"
  have rc: "raw_commitments env parent = Inr ?cs"
    by (rule raw_blobs_committed[OF i ev(1) refs ne can' ok names])
  obtain target where t: "fold_result remove_blob ?cs parent = Inr target"
    "implements target (\<lambda>ps. if take 1 ps = top ''raw'' then None else F ps)"
    by (rule raw_blobs_unlinked[OF i st names])
  have run: "run_id_ok ?run" by (rule complete_run_id[OF C(3)])
  have each: "raw_ref_ok path \<and> list_all scalar_value path \<and> well_formed_hash hash \<and> int n \<le> MAX_SAFE_INT"
    if "(path, hash, n) \<in> set ?cs" for path hash n
    by (rule commitment_facts[OF fold st(1) ev(2) ok]) (use that in simp)
  have "\<forall>(path, hash, n) \<in> set ?cs. list_all scalar_value path \<and> int n \<le> MAX_SAFE_INT"
    using each by blast
  from disclosure_hashable[OF run this] obtain bs where bs: "canonical_bytes (JObj ?doc) = Inr bs"
    using canonical_defined by blast
  have w: "written env ?doc bs" using redaction_shaped[OF env(3)] bs by (simp only: written_def)
  have sch: "vf_schema env ''redaction'' (JObj ?doc)"
  proof -
    have "\<forall>(path, hash, n) \<in> set ?cs. raw_ref_ok path \<and> well_formed_hash hash" using each by blast
    moreover have "?cs \<noteq> []" using ne by (metis length_0_conv length_map length_sort)
    ultimately show ?thesis using env(2) run sl(3) unfolding schema_accepts_redactions_def by blast
  qed
  have tf: "file_path (top ''redaction.json'')" by (rule top_is_file_path) (simp add: DIRECTORIES_def)
  let ?share = "put (top ''redaction.json'') (File (bs @ [10])) target"
  have sh: "implements ?share (shared_store F (bs @ [10]))"
    using implements_put[OF t(2) tf] unfolding shared_store_def .
  have wb: "write_bytes (top ''redaction.json'') (bs @ [10]) target = Inr ?share"
    using implements_look[OF t(2) tf] red
    by (simp add: write_bytes_def is_dir_def is_symlink_def reach_def top_def del: look.simps)
  note blobs = shared_blobs[OF i sh red vb refs can' w env(1) sch sl(2)]
  have "read_contents env ?share = Inr (c\<lparr>co_blobs := (length obs, length raws, length raws)\<rparr>, p)"
    using blobs(2) C(4) by (intro shared_contents[OF i sh red C(1,2)]) simp
  moreover have "check_sealed ?share (c\<lparr>co_blobs := (length obs, length raws, length raws)\<rparr>) seal = Inr primary"
    using check_sealed_counts[OF blobs(1) shared_seal_files[OF i sh]] C(3) by simp
  ultimately have v': "verify_bundle env ?share = Inr (complete_result ?share
      (c\<lparr>co_blobs := (length obs, length raws, length raws)\<rparr>) r primary)"
    using C(2) by (intro complete_verdict[OF _ _ _ sh]) simp_all
  have fin: "vr_verdict (complete_result d x y z) = COMPLETE" "vr_root (complete_result d x y z) = Some y" for d x y z
    by (simp_all add: complete_result_def Let_def)
  let ?receipt = "\<lparr>sb_run_id = ?run, sb_parent_root = r, sb_removals = length ?cs\<rparr>"
  have "create_share_bundle env parent_path target_path parent None = Inr (?receipt, ?share)"
    using man sl(1,2) implements_directories(1)[OF i] paths v v' fin rc copytree_plain[OF i] t(1) bs wb
    by (auto simp: create_share_bundle_def require_complete_def share_as_str_def utext_def)
  then show thesis by (rule that[OF _ _ _ sh v' fin]) (simp_all add: count)
qed

end
