(* ===== verification/Share_Properties.thy ===== *)
theory Share_Properties
  imports Share_Export Sample_Recording
begin

text \<open>
  Recording, redacting and verifying composed: the share bundle of a recorded episode is verified
  under the root of the original.
\<close>

lemma stored_response:
  assumes "whole e"
  shows "is_response (stored_form e) = is_response e" "canonical_response e \<Longrightarrow> canonical_response (stored_form e)"
proof -
  have u: "uget (stored_form d) k = canonical_form (uget d k)" if "whole d" for d k
    by (simp add: uget_stored whole_distinct that)
  show "is_response (stored_form e) = is_response e"
    by (cases "uget e ''type''") (simp_all add: is_response_def u[OF assms] utext_def canonical_form_JObj canonical_form_JArr)
  assume "canonical_response e"
  then obtain turn attempt payload where c: "uget e ''turn'' = JInt turn" "uget e ''payload'' = JObj payload"
    "uget payload ''attempt'' = JInt attempt" "0 \<le> turn" "attempt \<in> {1, 2}"
    "uget payload ''raw_ref'' = JStr (response_ref (nat turn) attempt)" by (rule canonical_responseE)
  note p = whole_member[OF assms c(2)]
  have "uget (stored_form e) ''payload'' = JObj (stored_form payload)"
    by (simp only: u[OF assms] c(2) canonical_form_JObj)
  with c(4,5) show "canonical_response (stored_form e)"
    by (simp add: canonical_response_def u[OF assms] u[OF p] c(1,3,6))
qed

lemma recorded_responses:
  assumes "holds env disk D b s"
  shows "responses_of env disk = map stored_form (filter is_response (bd_events D))"
proof -
  have w: "\<forall>e \<in> set (bd_events D). whole e"
    using assms by (auto simp: holds_def stores_def intro: all_whole[THEN bspec])
  have "path_parts (ascii ''events.jsonl'') = top ''events.jsonl''"
    using top_paths(1)[of "''events.jsonl''"] by (simp add: BUNDLE_FILES_def relative_path_def)
  with events_decoded[OF streams_read(1)[OF assms]]
  have "share_events env disk (top ''events.jsonl'') = Inr (map stored_form (bd_events D))" by simp
  moreover have "filter is_response (map stored_form (bd_events D)) = map stored_form (filter is_response (bd_events D))"
    unfolding filter_map comp_def using w by (auto simp: stored_response intro!: arg_cong[of _ _ "map stored_form"] filter_cong)
  ultimately show ?thesis by (simp add: responses_of_def)
qed
lemma no_raw_path: "implements share (shared_store F rb) \<Longrightarrow> \<not> path_exists share [ascii ''raw'', n]"
  by (simp add: implements_reads(2)[OF _ numbered_file_path(3)])

lemma sample_responses:
  "\<forall>e \<in> set (rc_events (sample_recording o' m)). is_response e \<longrightarrow> canonical_response e"
  "\<exists>e \<in> set (rc_events (sample_recording o' m)). is_response e"
  "length (filter is_response (rc_events (sample_recording o' m))) = 1"
proof -
  have "show_nat 1 = ''1''" by code_simp
  then have "response_ref 0 1 = ascii ''raw/0000-a1.txt''" by (simp add: response_ref_def sample_pad ascii_simps)
  then show "\<forall>e \<in> set (rc_events (sample_recording o' m)). is_response e \<longrightarrow> canonical_response e"
    by (simp add: sample_recording_def sample_events_def is_response_def sample_event_get canonical_response_def
        SAID_def utext_def)
qed (simp_all add: sample_recording_def sample_events_def is_response_def sample_event_get utext_def)

text \<open>
  Property C4. Redaction keeps the evidence verifiable: from a bundle that the recorder returned,
  whose responses are stored under their canonical names, \<open>create_share_bundle\<close> returns a receipt with
  the root of the original and one removal for every response; the tree it makes holds no raw blob at
  all, and \<open>verify_bundle\<close> calls that tree COMPLETE under the root the recorder sealed.
\<close>

theorem recorded_bundle_shared:
  assumes "record_episode_bundle env existing rc manifest agent = Inr (w, seal)"
    and "schema_ignores_order env" "schema_accepts_links env" "schema_accepts_redactions env"
    and "recordable env rc manifest agent" "consistent rc"
    and "\<forall>e \<in> set (rc_events rc). is_response e \<longrightarrow> canonical_response e" "\<exists>e \<in> set (rc_events rc). is_response e"
    and "\<not> paths_overlap parent_path target_path"
  shows "\<exists>receipt share v r. create_share_bundle env parent_path target_path (bw_root w) None = Inr (receipt, share) \<and>
    uget seal ''root'' = utext r \<and> sb_parent_root receipt = r \<and>
    sb_removals receipt = length (filter is_response (rc_events rc)) \<and>
    (\<forall>n. \<not> path_exists share [ascii ''raw'', n]) \<and>
    verify_bundle env share = Inr v \<and> vr_verdict v = COMPLETE \<and> vr_root v = Some r"
proof -
  obtain v r D b s where h: "verify_bundle env (bw_root w) = Inr v" "vr_verdict v = COMPLETE" "vr_root v = Some r"
    "uget seal ''root'' = utext r" "holds env (bw_root w) D b s" "bd_events D = rc_events rc"
    by (rule recorded_bundle_complete[OF assms(1-3,5,6)]) blast
  have i: "implements (bw_root w) (sealed_store b s)" and st: "stores env D b s" using h(5) by (simp_all add: holds_def)
  have red: "sealed_store b s (top ''redaction.json'') = None"
    using store_names(4)[of b s "ascii ''redaction.json''"] by (auto simp: top_def BUNDLE_FILES_def)
  have whole: "\<forall>e \<in> set (rc_events rc). whole e" using st h(6) by (auto simp: stores_def intro: all_whole[THEN bspec])
  note resp = recorded_responses[OF h(5), unfolded h(6)]
  have can: "\<forall>e \<in> set (responses_of env (bw_root w)). canonical_response e" "responses_of env (bw_root w) \<noteq> []"
    using assms(7,8) whole stored_response(2) by (auto simp: resp filter_empty_conv)
  have depth: "3 \<le> vf_depth env" using assms(5) by (simp add: recordable_def)
  obtain receipt share v' rb where x: "create_share_bundle env parent_path target_path (bw_root w) None = Inr (receipt, share)"
    "sb_parent_root receipt = r" "sb_removals receipt = length (responses_of env (bw_root w))"
    "implements share (shared_store (sealed_store b s) rb)"
    "verify_bundle env share = Inr v'" "vr_verdict v' = COMPLETE" "vr_root v' = Some r"
    by (rule share_exported[OF i red h(1-3) can assms(2,4) depth assms(9)])
  have "\<not> path_exists share [ascii ''raw'', n]" for n
    by (rule no_raw_path[OF x(4)])
  with x h(4) show ?thesis by (auto simp: resp)
qed

theorem recorded_bundle_shared_witness:
  "\<exists>o' m w seal receipt share v r.
     record_episode_bundle SAMPLE_VERIFIER None (sample_recording o' m) SAMPLE_MANIFEST [] = Inr (w, seal) \<and>
     create_share_bundle SAMPLE_VERIFIER [ascii ''a''] [ascii ''b''] (bw_root w) None = Inr (receipt, share) \<and>
     sb_removals receipt = 1 \<and> (\<forall>n. \<not> path_exists share [ascii ''raw'', n]) \<and>
     verify_bundle SAMPLE_VERIFIER share = Inr v \<and> vr_verdict v = COMPLETE \<and> vr_root v = Some r"
proof -
  obtain o' m w seal where r: "record_episode_bundle SAMPLE_VERIFIER None (sample_recording o' m) SAMPLE_MANIFEST []
      = Inr (w, seal)" "consistent (sample_recording o' m)" by (rule sample_recorded)
  have "schema_accepts_redactions SAMPLE_VERIFIER" by (simp add: schema_accepts_redactions_def SAMPLE_VERIFIER_def)
  moreover have "\<not> paths_overlap [ascii ''a''] [ascii ''b'']" by (simp add: paths_overlap_def is_relative_to_def)
  ultimately obtain receipt share v r where "create_share_bundle SAMPLE_VERIFIER [ascii ''a''] [ascii ''b''] (bw_root w) None
      = Inr (receipt, share)" "sb_removals receipt = 1" "\<forall>n. \<not> path_exists share [ascii ''raw'', n]"
    "verify_bundle SAMPLE_VERIFIER share = Inr v" "vr_verdict v = COMPLETE" "vr_root v = Some r"
    using recorded_bundle_shared[OF r(1) sample_schemas(1,2) _ sample_recordable r(2) sample_responses(1,2)]
    unfolding sample_responses(3) by blast
  with r(1) show ?thesis by blast
qed

end
