(* ===== verification/Pack_Files.thy ===== *)
theory Pack_Files
  imports Pack Report_Evidence
begin

text \<open>
  The loader of \<open>core/pack.py\<close>: from the directory of a pack to the rows, the market specifications
  and the pack that the engine runs on. The engine holds text as strings, which stand for ASCII: \<open>text_of\<close> is the UTF-8
  form of a Python string, the string itself when it is ASCII.
\<close>

definition text_of :: "ustring \<Rightarrow> string" where
  "text_of s = map char_of (concat (map utf8_units s))"

section \<open>Strict JSON\<close>

text \<open>
  Decoding with hooks that raise an error of the caller's class on fractional and non-finite numbers
  and on duplicate keys; the loader and the validator of packs use it with their own classes.
\<close>

definition raising_hooks :: "(string \<Rightarrow> error) \<Rightarrow> json_hooks" where
  "raising_hooks fail =
     \<lparr>jh_float = (\<lambda>_. Inl (fail ''fractional JSON number is forbidden'')),
      jh_constant = (\<lambda>_. Inl (fail ''non-finite JSON number is forbidden'')),
      jh_pairs = (\<lambda>pairs. if distinct (map fst pairs) then Inr (JObj pairs)
                         else Inl (fail ''duplicate JSON key''))\<rparr>"

definition decode_raising :: "(string \<Rightarrow> error) \<Rightarrow> nat \<Rightarrow> byte list \<Rightarrow> ustring json result" where
  "decode_raising fail depth raw =
     (case utf8_decode raw of
        None \<Rightarrow> Inl (fail ''invalid UTF-8'')
      | Some text \<Rightarrow>
          (case json_loads (raising_hooks fail) depth text of
             Inl JSONDecodeError \<Rightarrow> Inl (fail ''invalid JSON'') | other \<Rightarrow> other))"

definition pack_decode :: "nat \<Rightarrow> byte list \<Rightarrow> ustring json result" where
  "pack_decode depth raw = decode_raising PackError depth raw"

definition pk_object :: "ustring json \<Rightarrow> ustring jobject result" where
  "pk_object v = (case v of JObj m \<Rightarrow> Inr m | _ \<Rightarrow> Inl (PackError ''must be an object''))"

definition pk_array :: "ustring json \<Rightarrow> ustring json list result" where
  "pk_array v = (case v of JArr xs \<Rightarrow> Inr xs | _ \<Rightarrow> Inl (PackError ''must be an array''))"

definition pk_int :: "ustring json \<Rightarrow> int option \<Rightarrow> int result" where
  "pk_int v minimum =
     (case v of
        JInt n \<Rightarrow>
          (case minimum of
             Some least \<Rightarrow> if n < least then Inl (PackError ''must be >='') else Inr n
           | None \<Rightarrow> Inr n)
      | _ \<Rightarrow> Inl (PackError ''must be an integer''))"

definition pk_str :: "ustring json \<Rightarrow> ustring result" where
  "pk_str v = (case v of JStr s \<Rightarrow> Inr s | _ \<Rightarrow> Inl (PackError ''must be a string''))"

section \<open>Rows\<close>

definition provenance_of :: "ustring \<Rightarrow> string \<Rightarrow> ustring list \<Rightarrow> nat \<Rightarrow> int \<Rightarrow> int \<Rightarrow> RowProvenance" where
  "provenance_of market role source index ts available_at =
     \<lparr>pv_market = text_of market, pv_role = role, pv_path = text_of (if source = [] then [] else last source),
      pv_row_index = index, pv_ts = ts, pv_available_at = available_at\<rparr>"

definition load_funding_row ::
    "nat \<Rightarrow> ustring list \<Rightarrow> ustring \<Rightarrow> nat \<times> byte list \<Rightarrow> FundingRow result" where
  "load_funding_row depth source market il = (case il of (index, line) \<Rightarrow>
     and_then (and_then (pack_decode depth line) pk_object) (\<lambda>item.
     and_then (pk_int (uget item ''ts'') (Some 0)) (\<lambda>ts.
     and_then (pk_int (uget item ''available_at'') (Some 0)) (\<lambda>available_at.
     and_then (pk_int (uget item ''rate_1e8'') None) (\<lambda>rate.
     Inr \<lparr>fd_ts = ts, fd_available_at = available_at, fd_rate_1e8 = rate,
          fd_provenance = provenance_of market ''funding'' source index ts available_at\<rparr>)))))"

definition load_bar_row ::
    "nat \<Rightarrow> ustring list \<Rightarrow> ustring \<Rightarrow> string \<Rightarrow> nat \<times> byte list \<Rightarrow> BarRow result" where
  "load_bar_row depth source market role il = (case il of (index, line) \<Rightarrow>
     and_then (and_then (pack_decode depth line) pk_object) (\<lambda>item.
     and_then (pk_int (uget item ''ts'') (Some 0)) (\<lambda>ts.
     and_then (pk_int (uget item ''available_at'') (Some 0)) (\<lambda>available_at.
     and_then (pk_int (uget item ''o'') (Some 0)) (\<lambda>opening.
     and_then (pk_int (uget item ''h'') (Some 0)) (\<lambda>high.
     and_then (pk_int (uget item ''l'') (Some 0)) (\<lambda>low.
     and_then (pk_int (uget item ''c'') (Some 0)) (\<lambda>closing.
     and_then (pk_int (uget item ''v_base_1e8'') (Some 0)) (\<lambda>volume.
     Inr \<lparr>br_ts = ts, br_available_at = available_at, br_o = opening, br_h = high, br_l = low,
          br_c = closing, br_v_base_1e8 = volume,
          br_provenance = provenance_of market role source index ts available_at\<rparr>)))))))))"

text \<open>\<open>_load_rows\<close>, for the funding role and for the three price roles.\<close>

definition row_lines :: "byte list \<Rightarrow> (nat \<times> byte list) list result" where
  "row_lines raw =
     (let lines = bytes_splitlines raw in
      if [] \<in> set lines then Inl (PackError ''blank JSONL record'')
      else Inr (zip [0..<length lines] lines))"

definition load_funding_rows ::
    "nat \<Rightarrow> ustring \<Rightarrow> ustring list \<times> byte list \<Rightarrow> FundingRow list result" where
  "load_funding_rows depth market file = (case file of (source, raw) \<Rightarrow>
     and_then (row_lines raw) (traverse (load_funding_row depth source market)))"

definition load_bar_rows ::
    "nat \<Rightarrow> ustring \<Rightarrow> string \<Rightarrow> ustring list \<times> byte list \<Rightarrow> BarRow list result" where
  "load_bar_rows depth market role file = (case file of (source, raw) \<Rightarrow>
     and_then (row_lines raw) (traverse (load_bar_row depth source market role)))"

section \<open>Files\<close>

text \<open>
  \<open>Path.resolve\<close> of a path relative to a tree. The tree does not know where its links lead, so a path
  through a symbolic link is taken to leave it, and so is an absolute path.
\<close>

datatype resolution = Inside "ustring list" | Outside | Absent

fun resolve_from :: "bool \<Rightarrow> node \<Rightarrow> ustring list \<Rightarrow> ustring list \<Rightarrow> resolution" where
  "resolve_from strict tree here [] = Inside here"
| "resolve_from strict tree here (p # ps) =
     (if p = [46, 46]
      then if here = [] then Outside else resolve_from strict tree (butlast here) ps
      else if is_symlink tree (here @ [p]) then Outside
      else if strict \<and> \<not> path_exists tree (here @ [p]) then Absent
      else resolve_from strict tree (here @ [p]) ps)"

definition resolve_path :: "bool \<Rightarrow> node \<Rightarrow> ustring \<Rightarrow> resolution" where
  "resolve_path strict tree relative =
     (if take 1 relative = [47] then Outside else resolve_from strict tree [] (path_parts relative))"

definition safe_pack_path :: "node \<Rightarrow> ustring \<Rightarrow> ustring list result" where
  "safe_pack_path tree relative =
     (case resolve_path False tree relative of
        Inside parts \<Rightarrow> Inr parts | _ \<Rightarrow> Inl (PackError ''series path escapes pack directory''))"

definition read_declared_file ::
    "node \<Rightarrow> ustring jobject \<Rightarrow> bool \<Rightarrow> (ustring list \<times> byte list) result" where
  "read_declared_file tree entry verify_integrity =
     and_then (pk_str (uget entry ''path'')) (\<lambda>relative.
     and_then (safe_pack_path tree relative) (\<lambda>path.
     case read_bytes tree path of
       Inl _ \<Rightarrow> Inl (PackError ''cannot read series file'')
     | Inr raw \<Rightarrow>
         if \<not> verify_integrity then Inr (path, raw)
         else
         and_then (pk_int (uget entry ''bytes'') (Some 0)) (\<lambda>expected_bytes.
         if int (length raw) \<noteq> expected_bytes then Inl (PackError ''byte count mismatch'')
         else
         and_then (pk_str (uget entry ''sha256'')) (\<lambda>expected_hash.
         if ascii (sha256_prefixed raw) \<noteq> expected_hash then Inl (PackError ''SHA-256 mismatch'')
         else
         and_then (pk_int (uget entry ''records'') (Some 0)) (\<lambda>expected_records.
         if int (length (bytes_splitlines raw)) \<noteq> expected_records
         then Inl (PackError ''record count mismatch'') else Inr (path, raw))))))"

fun strictly_increasing :: "int list \<Rightarrow> bool" where
  "strictly_increasing (x # y # ys) \<longleftrightarrow> x < y \<and> strictly_increasing (y # ys)"
| "strictly_increasing _ \<longleftrightarrow> True"

section \<open>Market specifications\<close>

definition market_profiles :: "ustring jobject \<Rightarrow> (string \<times> int) list result" where
  "market_profiles profile_raw =
     traverse (\<lambda>(name, v). and_then (pk_int v (Some 1)) (\<lambda>n. Inr (text_of name, n)))
       (sort_key fst profile_raw)"

definition market_tier :: "ustring json \<Rightarrow> MarginTier result" where
  "market_tier item =
     and_then (pk_object item) (\<lambda>tier.
     and_then (pk_int (uget tier ''notional_cap_micro'') (Some 1)) (\<lambda>cap.
     and_then (pk_int (uget tier ''initial_rate_1e8'') (Some 1)) (\<lambda>initial.
     and_then (pk_int (uget tier ''maintenance_rate_1e8'') (Some 1)) (\<lambda>maintenance.
     Inr \<lparr>mt_notional_cap_micro = cap, mt_initial_rate_1e8 = initial,
          mt_maintenance_rate_1e8 = maintenance\<rparr>))))"

definition market_spec :: "ustring \<Rightarrow> ustring jobject \<Rightarrow> MarketSpec result" where
  "market_spec alias raw =
     and_then (pk_object (uget raw ''funding'')) (\<lambda>funding.
     and_then (pk_object (uget raw ''fees'')) (\<lambda>fees.
     and_then (pk_object (uget raw ''margin'')) (\<lambda>margin.
     and_then (pk_object (uget raw ''execution'')) (\<lambda>execution.
     and_then (pk_object (uget execution ''cost_profile_multipliers_1e4'')) (\<lambda>profile_raw.
     and_then (market_profiles profile_raw) (\<lambda>profiles.
     and_then (pk_array (uget funding ''settlement_offsets_ms'')) (\<lambda>raw_offsets.
     and_then (traverse (\<lambda>v. pk_int v (Some 0)) raw_offsets) (\<lambda>offsets.
     if offsets = [] then Inl (PackError ''funding settlement offsets are empty'')
     else
     and_then (pk_array (uget margin ''tiers'')) (\<lambda>raw_tiers.
     and_then (traverse market_tier raw_tiers) (\<lambda>tiers.
     if tiers = [] then Inl (PackError ''margin.tiers must not be empty'')
     else
     and_then (pk_str (uget execution ''impact_model'')) (\<lambda>impact_model.
     if impact_model \<notin> {ascii ''linear'', ascii ''sqrt''}
     then Inl (PackError ''impact_model is invalid'')
     else
     and_then (pk_int (uget raw ''tick_size_micro'') (Some 1)) (\<lambda>tick_size.
     and_then (pk_int (uget raw ''qty_step_base_1e8'') (Some 1)) (\<lambda>qty_step.
     and_then (pk_int (uget raw ''min_notional_micro'') (Some 0)) (\<lambda>min_notional.
     and_then (pk_int (uget fees ''maker_rate_1e8'') (Some 0)) (\<lambda>maker.
     and_then (pk_int (uget fees ''taker_rate_1e8'') (Some 0)) (\<lambda>taker.
     and_then (pk_int (uget raw ''leverage_cap_lev_1e4'') (Some 1)) (\<lambda>leverage_cap.
     and_then (pk_int (uget margin ''liquidation_penalty_1e8'') (Some 0)) (\<lambda>penalty.
     and_then (pk_int (uget funding ''interval_ms'') (Some 1)) (\<lambda>interval_ms.
     and_then (pk_int (uget funding ''cap_1e8'') None) (\<lambda>cap.
     and_then (pk_int (uget funding ''floor_1e8'') None) (\<lambda>floor.
     and_then (pk_int (uget execution ''half_spread_1e8'') (Some 0)) (\<lambda>half_spread.
     and_then (pk_int (uget execution ''impact_coeff_1e8'') (Some 0)) (\<lambda>impact_coeff.
     and_then (pk_int (uget execution ''participation_cap_1e8'') (Some 1)) (\<lambda>participation.
     Inr \<lparr>ms_alias = text_of alias, ms_tick_size_micro = tick_size, ms_qty_step_base_1e8 = qty_step,
          ms_min_notional_micro = min_notional, ms_maker_fee_rate_1e8 = maker,
          ms_taker_fee_rate_1e8 = taker, ms_leverage_cap_lev_1e4 = leverage_cap,
          ms_margin_tiers = tiers, ms_liquidation_penalty_1e8 = penalty,
          ms_funding = \<lparr>fs_interval_ms = interval_ms, fs_settlement_offsets_ms = sort offsets,
                        fs_cap_1e8 = cap, fs_floor_1e8 = floor\<rparr>,
          ms_half_spread_1e8 = half_spread, ms_impact_model = text_of impact_model,
          ms_impact_coeff_1e8 = impact_coeff, ms_participation_cap_1e8 = participation,
          ms_cost_profile_multipliers_1e4 = profiles\<rparr>))))))))))))))))))))))))"

section \<open>Selecting the series\<close>

text \<open>\<open>selected[alias][role]\<close>, with the pair as key.\<close>

type_synonym selection = "((ustring \<times> ustring) \<times> ustring list \<times> byte list) list"

definition ROLES :: "string list" where "ROLES = [''funding'', ''index'', ''mark'', ''trade'']"

definition select_file ::
    "node \<Rightarrow> bool \<Rightarrow> ustring list \<Rightarrow> int \<Rightarrow> ustring json \<Rightarrow> selection \<Rightarrow> selection result" where
  "select_file tree verify_integrity aliases decision_bar_ms raw_entry selected =
     and_then (pk_object raw_entry) (\<lambda>entry.
     and_then (pk_str (uget entry ''market'')) (\<lambda>alias.
     if alias \<notin> set aliases then Inl (PackError ''series references undeclared market'')
     else
     and_then (pk_str (uget entry ''role'')) (\<lambda>role.
     and_then (pk_str (uget entry ''row_schema'')) (\<lambda>row_schema.
     and_then (pk_int (uget entry ''interval_ms'') (Some 0)) (\<lambda>interval_ms.
     if role \<notin> set (map ascii ROLES) then Inl (PackError ''unsupported series role'')
     else if row_schema \<noteq> ascii (if role = ascii ''funding'' then ''funding_row/v1'' else ''bar_row/v1'')
     then Inl (PackError ''series must declare its row schema'')
     else if role \<noteq> ascii ''funding'' \<and> interval_ms \<noteq> decision_bar_ms then Inr selected
     else if role = ascii ''funding'' \<and> interval_ms \<noteq> 0
     then Inl (PackError ''funding file interval_ms must be zero'')
     else if map_of selected (alias, role) \<noteq> None
     then Inl (PackError ''duplicate series at decision interval'')
     else and_then (read_declared_file tree entry verify_integrity) (\<lambda>file.
       Inr (((alias, role), file) # selected)))))))"

definition chosen :: "selection \<Rightarrow> ustring \<Rightarrow> string \<Rightarrow> (ustring list \<times> byte list) result" where
  "chosen selected alias role =
     (case map_of selected (alias, ascii role) of
        None \<Rightarrow> Inl (KeyError role) | Some file \<Rightarrow> Inr file)"

definition load_market ::
    "nat \<Rightarrow> selection \<Rightarrow> ustring \<times> MarketSpec \<Rightarrow> (string \<times> MarketData) result" where
  "load_market depth selected pair = (case pair of (alias, spec) \<Rightarrow>
     if \<exists>role \<in> set ROLES. map_of selected (alias, ascii role) = None
     then Inl (PackError ''missing decision series'')
     else
     and_then (and_then (chosen selected alias ''funding'') (load_funding_rows depth alias)) (\<lambda>funding.
     and_then (and_then (chosen selected alias ''index'') (load_bar_rows depth alias ''index'')) (\<lambda>index.
     and_then (and_then (chosen selected alias ''mark'') (load_bar_rows depth alias ''mark'')) (\<lambda>mark.
     and_then (and_then (chosen selected alias ''trade'') (load_bar_rows depth alias ''trade'')) (\<lambda>trade.
     if length trade \<noteq> length mark \<or> length mark \<noteq> length index
     then Inl (PackError ''trade/mark/index series lengths differ'')
     else if map br_ts trade \<noteq> map br_ts mark
     then Inl (PackError ''trade/mark timestamps are not aligned'')
     else if map br_ts trade \<noteq> map br_ts index
     then Inl (PackError ''trade/index timestamps are not aligned'')
     else if \<not> strictly_increasing (map br_ts trade)
     then Inl (PackError ''price-series timestamps are not increasing'')
     else if \<not> strictly_increasing (map fd_ts funding)
     then Inl (PackError ''funding timestamps are not increasing'')
     else Inr (text_of alias, \<lparr>md_spec = spec, md_trade = trade, md_mark = mark, md_index = index,
                              md_funding = funding\<rparr>))))))"

section \<open>The loader\<close>

definition load_pack :: "nat \<Rightarrow> ustring \<Rightarrow> node \<Rightarrow> bool \<Rightarrow> PackData result" where
  "load_pack depth root_path tree verify_integrity =
     (case read_bytes tree (top ''manifest.json'') of
        Inl _ \<Rightarrow> Inl (PackError ''cannot read pack manifest'')
      | Inr manifest_raw \<Rightarrow>
     and_then (and_then (pack_decode depth manifest_raw) pk_object) (\<lambda>manifest.
     if uget manifest ''schema'' \<noteq> utext ''pack_manifest/v1''
     then Inl (PackError ''manifest schema must equal pack_manifest/v1'')
     else
     and_then (pk_int (uget manifest ''decision_bar_ms'') (Some 1)) (\<lambda>decision_bar_ms.
     and_then (pk_object (uget manifest ''markets'')) (\<lambda>market_objects.
     if market_objects = [] then Inl (PackError ''pack must declare at least one market'')
     else
     and_then (traverse (\<lambda>(alias, v). and_then (and_then (pk_object v) (market_spec alias))
                 (\<lambda>spec. Inr (alias, spec))) (sort_key fst market_objects)) (\<lambda>specs.
     and_then (pk_array (uget manifest ''files'')) (\<lambda>files.
     and_then (fold_result (select_file tree verify_integrity (map fst specs) decision_bar_ms) files [])
       (\<lambda>selected.
     and_then (traverse (load_market depth selected) specs) (\<lambda>markets.
     and_then (pk_object (uget manifest ''window'')) (\<lambda>window.
     and_then (pk_object (uget manifest ''default_lookback'')) (\<lambda>defaults.
     and_then (pk_int (uget window ''start_ts'') (Some 0)) (\<lambda>window_start_ts.
     and_then (pk_int (uget window ''end_ts'') (Some 0)) (\<lambda>window_end_ts.
     if window_end_ts \<le> window_start_ts
     then Inl (PackError ''window.end_ts must be after window.start_ts'')
     else
     and_then (pk_str (uget manifest ''pack_id'')) (\<lambda>pack_id.
     and_then (pk_str (uget manifest ''content_hash'')) (\<lambda>content_hash.
     and_then (pk_int (uget manifest ''warmup_bars'') (Some 0)) (\<lambda>warmup_bars.
     and_then (pk_int (uget defaults ''bars'') (Some 1)) (\<lambda>bars.
     and_then (pk_int (uget defaults ''funding_prints'') (Some 0)) (\<lambda>funding_prints.
     and_then (make_EffectiveLookback bars funding_prints) (\<lambda>lookback.
     Inr \<lparr>pk_root = text_of root_path, pk_pack_id = text_of pack_id, pk_content_hash = text_of content_hash,
          pk_window_start_ts = window_start_ts, pk_window_end_ts = window_end_ts,
          pk_decision_bar_ms = decision_bar_ms, pk_warmup_bars = nat warmup_bars,
          pk_default_lookback = lookback, pk_markets = markets,
          pk_manifest = map (\<lambda>(k, v). (text_of k, map_json text_of v)) manifest\<rparr>))))))))))))))))))"

end
