(* ===== verification/Pack_Validator.thy ===== *)
theory Pack_Validator
  imports Pack_Files
begin

text \<open>
  The gate over built packs, \<open>data/validator.py\<close>: integrity, schemas, and the semantic invariants of
  series, funding clocks and margin tiers. The JSON Schema validator is the parameter of the bundle
  verifier; the origin test of upstream archives is \<open>validate_bulk_url\<close> of \<open>data/binance.py\<close>.
\<close>

section \<open>Upstream addresses\<close>

text \<open>
  \<open>urlsplit\<close> of the standard library, as far as the test looks. A network location that holds a bracket
  or a character beyond ASCII is refused by \<open>urlsplit\<close> or by a later test, which of them is not modelled.
\<close>

definition BINANCE_BULK_HOST :: ustring where "BINANCE_BULK_HOST = ascii ''data.binance.vision''"

definition ascii_alpha :: "codepoint \<Rightarrow> bool" where
  "ascii_alpha c \<longleftrightarrow> (65 \<le> c \<and> c \<le> 90) \<or> (97 \<le> c \<and> c \<le> 122)"

definition ascii_lower :: "codepoint \<Rightarrow> codepoint" where
  "ascii_lower c = (if 65 \<le> c \<and> c \<le> 90 then c + 32 else c)"

definition clean_url :: "ustring \<Rightarrow> ustring" where
  "clean_url url = filter (\<lambda>c. c \<notin> {9, 10, 13}) (dropWhile (\<lambda>c. c \<le> 32) url)"

definition split_scheme :: "ustring \<Rightarrow> ustring \<times> ustring" where
  "split_scheme url =
     (let scheme = takeWhile (\<lambda>c. c \<noteq> 58) url in
      if 58 \<in> set url \<and> scheme \<noteq> [] \<and> ascii_alpha (hd scheme)
         \<and> list_all (\<lambda>c. ascii_alpha c \<or> (48 \<le> c \<and> c \<le> 57) \<or> c \<in> {43, 45, 46}) scheme
      then (map ascii_lower scheme, drop (length scheme + 1) url) else ([], url))"

definition split_netloc :: "ustring \<Rightarrow> ustring \<times> ustring" where
  "split_netloc url =
     (if take 2 url = [47, 47]
      then (takeWhile (\<lambda>c. c \<notin> {47, 63, 35}) (drop 2 url), dropWhile (\<lambda>c. c \<notin> {47, 63, 35}) (drop 2 url))
      else ([], url))"

definition validate_bulk_url :: "ustring \<Rightarrow> unit result" where
  "validate_bulk_url url =
     (let (scheme, rest) = split_scheme (clean_url url);
          (netloc, rest) = split_netloc rest;
          resource = takeWhile (\<lambda>c. c \<noteq> 35) rest;
          fragment = drop (length resource + 1) rest;
          path = takeWhile (\<lambda>c. c \<noteq> 63) resource;
          query = drop (length path + 1) resource;
          hostinfo = rev (takeWhile (\<lambda>c. c \<noteq> 64) (rev netloc));
          hostname = takeWhile (\<lambda>c. c \<noteq> 58) hostinfo;
          port = drop (length hostname + 1) hostinfo
      in if \<exists>c \<in> set netloc. c \<ge> 128 \<or> c \<in> {91, 93} then Inl (ValueError ''invalid URL'')
         else if scheme \<noteq> ascii ''https'' then Inl (BulkURLRejected ''bulk URL must use HTTPS'')
         else if map ascii_lower hostname \<noteq> BINANCE_BULK_HOST
         then Inl (BulkURLRejected ''bulk URL host must be the archive'')
         else if port \<noteq> [] \<and> (\<not> all_digits port \<or> cp_digits_value port > 65535)
         then Inl (BulkURLRejected ''bulk URL has an invalid port'')
         else if port \<noteq> [] \<and> cp_digits_value port \<noteq> 443
         then Inl (BulkURLRejected ''bulk URL may only use HTTPS port 443'')
         else if 64 \<in> set netloc then Inl (BulkURLRejected ''bulk URL must not contain credentials'')
         else if query \<noteq> [] \<or> fragment \<noteq> []
         then Inl (BulkURLRejected ''bulk URL must not contain query/fragment'')
         else if take 6 path \<noteq> ascii ''/data/''
         then Inl (BulkURLRejected ''bulk URL path must start with /data/'')
         else if last path = 47 then Inl (BulkURLRejected ''bulk URL must name a file'')
         else Inr ())"

section \<open>Readers\<close>

definition UTC_DAY_MS :: int where "UTC_DAY_MS = 86400000"
definition HOUR_MS :: int where "HOUR_MS = 3600000"
definition BTCUSDT_FUNDING_INTERVAL_MS :: int where "BTCUSDT_FUNDING_INTERVAL_MS = 8 * HOUR_MS"
definition BTCUSDT_SETTLEMENT_OFFSETS_MS :: "int list" where
  "BTCUSDT_SETTLEMENT_OFFSETS_MS = [0, 8 * HOUR_MS, 16 * HOUR_MS]"
definition MARK_TRADE_MAX_DIVERGENCE_1E8 :: int where "MARK_TRADE_MAX_DIVERGENCE_1E8 = 5000000"

record PackValidationResult =
  pvr_pack_id :: ustring
  pvr_content_hash :: ustring
  pvr_files :: nat
  pvr_bar_rows :: nat
  pvr_funding_rows :: nat
  pvr_actionable_bars :: int

record series =
  sr_path :: ustring
  sr_market :: ustring
  sr_role :: ustring
  sr_interval_ms :: int
  sr_rows :: "ustring jobject list"

record FundingPolicy =
  fp_interval_ms :: int
  fp_settlement_offsets_ms :: "int list"
  fp_floor_1e8 :: int
  fp_cap_1e8 :: int

definition va_decode :: "nat \<Rightarrow> byte list \<Rightarrow> ustring json result" where
  "va_decode depth raw = decode_raising PackValidationError depth raw"

definition va_object :: "ustring json \<Rightarrow> ustring jobject result" where
  "va_object v = (case v of JObj m \<Rightarrow> Inr m | _ \<Rightarrow> Inl (PackValidationError ''TYPE_ERROR''))"

definition va_array :: "ustring json \<Rightarrow> ustring json list result" where
  "va_array v = (case v of JArr xs \<Rightarrow> Inr xs | _ \<Rightarrow> Inl (PackValidationError ''TYPE_ERROR''))"

definition va_int :: "ustring json \<Rightarrow> int result" where
  "va_int v = (case v of JInt n \<Rightarrow> Inr n | _ \<Rightarrow> Inl (PackValidationError ''TYPE_ERROR''))"

definition va_str :: "ustring json \<Rightarrow> ustring result" where
  "va_str v = (case v of JStr s \<Rightarrow> Inr s | _ \<Rightarrow> Inl (PackValidationError ''TYPE_ERROR''))"

definition va_schema :: "verifier \<Rightarrow> string \<Rightarrow> ustring jobject \<Rightarrow> unit result" where
  "va_schema env name d =
     (if vf_schema env name (JObj d) then Inr () else Inl (PackValidationError ''SCHEMA_INVALID''))"

text \<open>A document must be the canonical encoding of what it decodes to; \<open>code\<close> names the failure.\<close>

definition va_canonical :: "string \<Rightarrow> ustring jobject \<Rightarrow> byte list \<Rightarrow> unit result" where
  "va_canonical code d raw =
     (case canonical_bytes (JObj d) of
        Inl (CanonicalizationError _) \<Rightarrow> Inl (PackValidationError code)
      | Inl e \<Rightarrow> Inl e
      | Inr canonical \<Rightarrow> if raw \<noteq> canonical then Inl (PackValidationError code) else Inr ())"

definition safe_series_path :: "node \<Rightarrow> ustring \<Rightarrow> ustring list result" where
  "safe_series_path tree relative =
     (case resolve_path True tree relative of
        Inside parts \<Rightarrow>
          if is_file tree parts then Inr parts else Inl (PackValidationError ''UNSAFE_PATH'')
      | Outside \<Rightarrow> Inl (PackValidationError ''UNSAFE_PATH'')
      | Absent \<Rightarrow> Inl (PackValidationError ''MISSING_FILE''))"

definition check_upstream :: "ustring json \<Rightarrow> unit result" where
  "check_upstream raw_source =
     and_then (va_object raw_source) (\<lambda>source.
     and_then (va_str (uget source ''url'')) (\<lambda>url.
     case validate_bulk_url url of
       Inl (BulkURLRejected _) \<Rightarrow> Inl (PackValidationError ''UPSTREAM_ORIGIN'') | other \<Rightarrow> other))"

definition read_row :: "verifier \<Rightarrow> string \<Rightarrow> byte list \<Rightarrow> ustring jobject result" where
  "read_row env schema_name line =
     and_then (and_then (va_decode (vf_depth env) line) va_object) (\<lambda>row.
     and_then (va_schema env schema_name row) (\<lambda>_.
     and_then (va_canonical ''JSONL_CANONICAL'' row line) (\<lambda>_. Inr row)))"

definition read_series :: "verifier \<Rightarrow> node \<Rightarrow> ustring jobject \<Rightarrow> series result" where
  "read_series env tree entry =
     and_then (va_str (uget entry ''path'')) (\<lambda>relative.
     and_then (va_str (uget entry ''role'')) (\<lambda>role.
     and_then (va_str (uget entry ''market'')) (\<lambda>market.
     and_then (va_int (uget entry ''interval_ms'')) (\<lambda>interval_ms.
     and_then (va_str (uget entry ''row_schema'')) (\<lambda>row_schema.
     if row_schema \<noteq> ascii (if role = ascii ''funding'' then ''funding_row/v1'' else ''bar_row/v1'')
     then Inl (PackValidationError ''ROW_SCHEMA'')
     else
     and_then (va_array (uget entry ''upstream'')) (\<lambda>upstream.
     if upstream = [] then Inl (PackValidationError ''UPSTREAM_PROVENANCE'')
     else
     and_then (traverse check_upstream upstream) (\<lambda>_.
     and_then (safe_series_path tree relative) (\<lambda>path.
     and_then (read_bytes tree path) (\<lambda>raw.
     and_then (va_int (uget entry ''bytes'')) (\<lambda>expected_bytes.
     if int (length raw) \<noteq> expected_bytes then Inl (PackValidationError ''BYTE_COUNT'')
     else
     and_then (va_str (uget entry ''sha256'')) (\<lambda>expected_sha256.
     if ascii (sha256_prefixed raw) \<noteq> expected_sha256 then Inl (PackValidationError ''FILE_HASH'')
     else if raw \<noteq> [] \<and> last raw \<noteq> 10 then Inl (PackValidationError ''JSONL_CANONICAL'')
     else
     let lines = (if raw = [] then [] else split_on 10 (butlast raw)) in
     if [] \<in> set lines then Inl (PackValidationError ''JSONL_CANONICAL'')
     else
     and_then (va_int (uget entry ''records'')) (\<lambda>expected_records.
     if int (length lines) \<noteq> expected_records then Inl (PackValidationError ''RECORD_COUNT'')
     else
     and_then (traverse (read_row env (if role = ascii ''funding'' then ''funding_row'' else ''bar_row'')) lines)
       (\<lambda>rows.
     Inr \<lparr>sr_path = relative, sr_market = market, sr_role = role, sr_interval_ms = interval_ms,
          sr_rows = rows\<rparr>)))))))))))))"

section \<open>Series invariants\<close>

definition strict_timestamp_order :: "series \<Rightarrow> int list result" where
  "strict_timestamp_order s =
     and_then (traverse (\<lambda>row. va_int (uget row ''ts'')) (sr_rows s)) (\<lambda>timestamps.
     if \<not> distinct timestamps then Inl (PackValidationError ''DUPLICATE_TIMESTAMP'')
     else if \<not> strictly_increasing timestamps then Inl (PackValidationError ''TIMESTAMP_ORDER'')
     else Inr timestamps)"

definition check_bar_row :: "int \<Rightarrow> int \<times> ustring jobject \<Rightarrow> unit result" where
  "check_bar_row interval_ms tr = (case tr of (ts, row) \<Rightarrow>
     and_then (va_int (uget row ''available_at'')) (\<lambda>available_at.
     if available_at \<noteq> ts + interval_ms then Inl (PackValidationError ''AVAILABLE_AT'')
     else
     and_then (va_int (uget row ''o'')) (\<lambda>opening.
     and_then (va_int (uget row ''h'')) (\<lambda>high.
     and_then (va_int (uget row ''l'')) (\<lambda>low.
     and_then (va_int (uget row ''c'')) (\<lambda>closing.
     if low > min opening (min closing high) then Inl (PackValidationError ''BAR_OHLC'')
     else if high < max opening (max closing low) then Inl (PackValidationError ''BAR_OHLC'')
     else Inr ()))))))"

definition validate_bar_rows :: "series \<Rightarrow> int list result" where
  "validate_bar_rows s =
     and_then (strict_timestamp_order s) (\<lambda>timestamps.
     and_then (traverse (check_bar_row (sr_interval_ms s)) (zip timestamps (sr_rows s))) (\<lambda>_.
     Inr timestamps))"

text \<open>Python's \<open>range\<close> with a positive step.\<close>

definition py_range :: "int \<Rightarrow> int \<Rightarrow> int \<Rightarrow> int list" where
  "py_range first end_excl step =
     (if step \<le> 0 then []
      else map (\<lambda>i. first + int i * step) [0..<nat ((end_excl - first + step - 1) div step)])"

definition expected_funding_timestamps :: "int \<Rightarrow> int \<Rightarrow> int list \<Rightarrow> int list" where
  "expected_funding_timestamps window_start_ts window_end_ts offsets =
     (let first_day = window_start_ts - window_start_ts mod UTC_DAY_MS in
      concat (map (\<lambda>day_start. filter (\<lambda>stamp. window_start_ts \<le> stamp \<and> stamp < window_end_ts)
                     (map (\<lambda>offset. day_start + offset) offsets))
               (py_range first_day window_end_ts UTC_DAY_MS)))"

definition check_funding_row :: "FundingPolicy \<Rightarrow> int \<times> ustring jobject \<Rightarrow> unit result" where
  "check_funding_row policy tr = (case tr of (ts, row) \<Rightarrow>
     and_then (va_int (uget row ''available_at'')) (\<lambda>available_at.
     if available_at \<noteq> ts then Inl (PackValidationError ''AVAILABLE_AT'')
     else if ts mod UTC_DAY_MS \<notin> set (fp_settlement_offsets_ms policy)
     then Inl (PackValidationError ''FUNDING_SETTLEMENT'')
     else
     and_then (va_int (uget row ''rate_1e8'')) (\<lambda>rate.
     if \<not> (fp_floor_1e8 policy \<le> rate \<and> rate \<le> fp_cap_1e8 policy)
     then Inl (PackValidationError ''FUNDING_CAP'') else Inr ())))"

fun steps_of :: "int \<Rightarrow> int list \<Rightarrow> bool" where
  "steps_of step (x # y # ys) \<longleftrightarrow> y - x = step \<and> steps_of step (y # ys)"
| "steps_of step _ \<longleftrightarrow> True"

definition validate_funding_rows :: "series \<Rightarrow> FundingPolicy \<Rightarrow> int \<Rightarrow> int \<Rightarrow> int list result" where
  "validate_funding_rows s policy window_start_ts window_end_ts =
     and_then (strict_timestamp_order s) (\<lambda>timestamps.
     and_then (traverse (check_funding_row policy) (zip timestamps (sr_rows s))) (\<lambda>_.
     if \<not> steps_of (fp_interval_ms policy) timestamps then Inl (PackValidationError ''FUNDING_GAP'')
     else if timestamps \<noteq> expected_funding_timestamps window_start_ts window_end_ts
               (fp_settlement_offsets_ms policy)
     then Inl (PackValidationError ''FUNDING_GAP'') else Inr timestamps))"

definition validate_bar_grid :: "int \<Rightarrow> int list \<Rightarrow> int list \<Rightarrow> int list \<Rightarrow> int \<Rightarrow> int \<Rightarrow> unit result" where
  "validate_bar_grid interval_ms trade mark index window_start_ts window_end_ts =
     (if trade \<noteq> mark \<or> trade \<noteq> index then Inl (PackValidationError ''BAR_ALIGNMENT'')
      else if interval_ms = 0 then Inl ZeroDivisionError
      else if (window_end_ts - window_start_ts) mod interval_ms \<noteq> 0 then Inl (PackValidationError ''BAR_GAP'')
      else if trade \<noteq> py_range window_start_ts window_end_ts interval_ms
      then Inl (PackValidationError ''BAR_GAP'') else Inr ())"

definition check_divergence :: "ustring jobject \<times> ustring jobject \<Rightarrow> unit result" where
  "check_divergence rows = (case rows of (trade_row, mark_row) \<Rightarrow>
     and_then (va_int (uget trade_row ''c'')) (\<lambda>trade_close.
     and_then (va_int (uget mark_row ''c'')) (\<lambda>mark_close.
     if trade_close \<le> 0 then Inl (PackValidationError ''MARK_TRADE_DIVERGENCE'')
     else if \<bar>mark_close - trade_close\<bar> * 100000000 > trade_close * MARK_TRADE_MAX_DIVERGENCE_1E8
     then Inl (PackValidationError ''MARK_TRADE_DIVERGENCE'') else Inr ())))"

definition validate_mark_trade_divergence :: "series \<Rightarrow> series \<Rightarrow> unit result" where
  "validate_mark_trade_divergence trade mark =
     and_then (traverse check_divergence (zip (sr_rows trade) (sr_rows mark))) (\<lambda>_.
     if length (sr_rows trade) \<noteq> length (sr_rows mark) then Inl (ValueError ''zip() arguments differ in length'')
     else Inr ())"

section \<open>Market invariants\<close>

definition cyclic_gaps :: "int list \<Rightarrow> int list" where
  "cyclic_gaps offsets =
     map (\<lambda>i. (offsets ! ((i + 1) mod length offsets) - offsets ! i) mod UTC_DAY_MS) [0..<length offsets]"

definition check_settlement_clock :: "string \<Rightarrow> int \<Rightarrow> int list \<Rightarrow> unit result" where
  "check_settlement_clock code interval_ms offsets =
     (if sort (remdups offsets) \<noteq> offsets then Inl (PackValidationError code)
      else if interval_ms \<le> 0 \<or> UTC_DAY_MS mod interval_ms \<noteq> 0 then Inl (PackValidationError code)
      else if int (length offsets) \<noteq> UTC_DAY_MS div interval_ms then Inl (PackValidationError code)
      else if \<exists>gap \<in> set (cyclic_gaps offsets). gap \<noteq> interval_ms then Inl (PackValidationError code)
      else Inr ())"

definition funding_policy :: "ustring \<Rightarrow> ustring jobject \<Rightarrow> FundingPolicy result" where
  "funding_policy venue descriptor =
     and_then (va_object (uget descriptor ''funding'')) (\<lambda>funding.
     and_then (va_int (uget funding ''interval_ms'')) (\<lambda>interval_ms.
     and_then (va_array (uget funding ''settlement_offsets_ms'')) (\<lambda>raw_offsets.
     and_then (traverse va_int raw_offsets) (\<lambda>offsets.
     and_then (check_settlement_clock ''FUNDING_INTERVAL'' interval_ms offsets) (\<lambda>_.
     and_then (va_str (uget descriptor ''instrument'')) (\<lambda>instrument.
     if venue = ascii ''binance-um'' \<and> instrument = ascii ''binance-um:BTCUSDT'' \<and>
        (interval_ms \<noteq> BTCUSDT_FUNDING_INTERVAL_MS \<or> offsets \<noteq> BTCUSDT_SETTLEMENT_OFFSETS_MS)
     then Inl (PackValidationError ''FUNDING_INTERVAL'')
     else
     and_then (va_int (uget funding ''floor_1e8'')) (\<lambda>floor_1e8.
     and_then (va_int (uget funding ''cap_1e8'')) (\<lambda>cap_1e8.
     if floor_1e8 > 0 \<or> cap_1e8 < 0 \<or> floor_1e8 > cap_1e8 then Inl (PackValidationError ''FUNDING_CAP'')
     else
     and_then (va_object (uget descriptor ''margin'')) (\<lambda>margin.
     and_then (va_array (uget margin ''tiers'')) (\<lambda>raw_tiers.
     if raw_tiers = [] then Inl (PackValidationError ''MARGIN_INVARIANT'')
     else
     and_then (traverse va_object raw_tiers) (\<lambda>tiers.
     and_then (traverse (\<lambda>tier. va_int (uget tier ''notional_cap_micro'')) tiers) (\<lambda>caps.
     if \<not> strictly_increasing caps then Inl (PackValidationError ''MARGIN_INVARIANT'')
     else
     and_then (va_int (uget (hd tiers) ''initial_rate_1e8'')) (\<lambda>initial.
     and_then (va_int (uget (hd tiers) ''maintenance_rate_1e8'')) (\<lambda>maintenance.
     if maintenance * 2 \<noteq> initial then Inl (PackValidationError ''MARGIN_INVARIANT'')
     else Inr \<lparr>fp_interval_ms = interval_ms, fp_settlement_offsets_ms = offsets,
               fp_floor_1e8 = floor_1e8, fp_cap_1e8 = cap_1e8\<rparr>))))))))))))))"

section \<open>The matrix of series\<close>

type_synonym series_key = "ustring \<times> ustring \<times> int"

definition add_series :: "ustring list \<Rightarrow> int list \<Rightarrow> series \<Rightarrow> (series_key \<times> series) list \<Rightarrow> (series_key \<times> series) list result" where
  "add_series aliases intervals item by_key =
     (if sr_market item \<notin> set aliases then Inl (PackValidationError ''UNKNOWN_MARKET'')
      else if sr_role item = ascii ''funding'' \<and> sr_interval_ms item \<noteq> 0
      then Inl (PackValidationError ''FUNDING_INTERVAL'')
      else if sr_role item \<noteq> ascii ''funding'' \<and> sr_interval_ms item \<notin> set intervals
      then Inl (PackValidationError ''MANIFEST_INTERVALS'')
      else let key = (sr_market item, sr_role item, sr_interval_ms item) in
        if map_of by_key key \<noteq> None then Inl (PackValidationError ''DUPLICATE_SERIES'')
        else Inr ((key, item) # by_key))"

definition series_at :: "(series_key \<times> series) list \<Rightarrow> ustring \<Rightarrow> int \<Rightarrow> string \<Rightarrow> series result" where
  "series_at by_key alias interval_ms role =
     (case map_of by_key (alias, ascii role, interval_ms) of
        None \<Rightarrow> Inl (PackValidationError ''MISSING_SERIES'') | Some s \<Rightarrow> Inr s)"

text \<open>One market at one interval: the number of its rows and of its trade rows.\<close>

definition validate_interval ::
    "(series_key \<times> series) list \<Rightarrow> ustring \<Rightarrow> int \<Rightarrow> int \<Rightarrow> int \<Rightarrow> (nat \<times> nat) result" where
  "validate_interval by_key alias window_start_ts window_end_ts interval_ms =
     and_then (series_at by_key alias interval_ms ''trade'') (\<lambda>trade.
     and_then (series_at by_key alias interval_ms ''mark'') (\<lambda>mark.
     and_then (series_at by_key alias interval_ms ''index'') (\<lambda>index.
     and_then (validate_bar_rows index) (\<lambda>index_ts.
     and_then (validate_bar_rows mark) (\<lambda>mark_ts.
     and_then (validate_bar_rows trade) (\<lambda>trade_ts.
     and_then (validate_bar_grid interval_ms trade_ts mark_ts index_ts window_start_ts window_end_ts) (\<lambda>_.
     and_then (validate_mark_trade_divergence trade mark) (\<lambda>_.
     Inr (length (sr_rows trade) + length (sr_rows mark) + length (sr_rows index),
          length (sr_rows trade))))))))))"

text \<open>One market: its funding rows, its bar rows, and its trade rows at the decision interval.\<close>

definition validate_market ::
    "(series_key \<times> series) list \<Rightarrow> int list \<Rightarrow> int \<Rightarrow> int \<Rightarrow> int \<Rightarrow> ustring \<times> FundingPolicy
      \<Rightarrow> (nat \<times> nat \<times> nat list) result" where
  "validate_market by_key intervals decision_bar_ms window_start_ts window_end_ts ap = (case ap of (alias, policy) \<Rightarrow>
     and_then (series_at by_key alias 0 ''funding'') (\<lambda>funding.
     and_then (validate_funding_rows funding policy window_start_ts window_end_ts) (\<lambda>_.
     and_then (traverse (validate_interval by_key alias window_start_ts window_end_ts) intervals) (\<lambda>counts.
     Inr (length (sr_rows funding), sum_list (map fst counts),
          map snd (filter (\<lambda>p. fst p = decision_bar_ms) (zip intervals (map snd counts))))))))"

definition expected_key :: "ustring list \<Rightarrow> int list \<Rightarrow> series_key \<Rightarrow> bool" where
  "expected_key aliases intervals key = (case key of (alias, role, interval_ms) \<Rightarrow>
     alias \<in> set aliases \<and>
     (role \<in> set (map ascii [''trade'', ''mark'', ''index'']) \<and> interval_ms \<in> set intervals \<or>
      role = ascii ''funding'' \<and> interval_ms = 0))"

section \<open>The gate\<close>

definition projection :: "ustring jobject \<Rightarrow> ustring json" where
  "projection entry = JObj (map (\<lambda>key. (ascii key, uget entry key)) [''path'', ''sha256'', ''bytes'', ''records''])"

definition read_manifest :: "verifier \<Rightarrow> node \<Rightarrow> ustring jobject result" where
  "read_manifest env tree =
     (case read_bytes tree (top ''manifest.json'') of
        Inl _ \<Rightarrow> Inl (PackValidationError ''MISSING_MANIFEST'')
      | Inr manifest_raw \<Rightarrow>
     and_then (and_then (va_decode (vf_depth env) manifest_raw) va_object) (\<lambda>manifest.
     and_then (va_schema env ''pack_manifest'' manifest) (\<lambda>_.
     and_then (va_canonical ''MANIFEST_CANONICAL'' manifest manifest_raw) (\<lambda>_. Inr manifest))))"

definition read_window :: "ustring jobject \<Rightarrow> (int \<times> int) result" where
  "read_window manifest =
     and_then (va_object (uget manifest ''window'')) (\<lambda>window.
     and_then (va_int (uget window ''start_ts'')) (\<lambda>window_start_ts.
     and_then (va_int (uget window ''end_ts'')) (\<lambda>window_end_ts.
     if window_end_ts \<le> window_start_ts then Inl (PackValidationError ''WINDOW'')
     else Inr (window_start_ts, window_end_ts))))"

definition read_intervals :: "ustring jobject \<Rightarrow> (int list \<times> int) result" where
  "read_intervals manifest =
     and_then (va_array (uget manifest ''bar_intervals_ms'')) (\<lambda>raw_intervals.
     and_then (traverse va_int raw_intervals) (\<lambda>intervals.
     if sort (remdups intervals) \<noteq> intervals then Inl (PackValidationError ''MANIFEST_INTERVALS'')
     else
     and_then (va_int (uget manifest ''decision_bar_ms'')) (\<lambda>decision_bar_ms.
     if decision_bar_ms \<notin> set intervals then Inl (PackValidationError ''MANIFEST_INTERVALS'')
     else Inr (intervals, decision_bar_ms))))"

definition read_entries :: "ustring jobject \<Rightarrow> ustring jobject list result" where
  "read_entries manifest =
     and_then (va_array (uget manifest ''files'')) (\<lambda>raw_files.
     and_then (traverse va_object raw_files) (\<lambda>entries.
     and_then (traverse (\<lambda>entry. va_str (uget entry ''path'')) entries) (\<lambda>paths.
     if sort paths \<noteq> paths then Inl (PackValidationError ''MANIFEST_FILE_ORDER'')
     else if \<not> distinct paths then Inl (PackValidationError ''MANIFEST_FILE_ORDER'')
     else Inr entries)))"

definition check_content_hash :: "ustring jobject \<Rightarrow> ustring jobject list \<Rightarrow> ustring result" where
  "check_content_hash manifest entries =
     and_then (content_hash (JObj [(ascii ''schema'', utext ''pack_content/v1''),
        (ascii ''files'', JArr (map projection entries))])) (\<lambda>actual.
     and_then (va_str (uget manifest ''content_hash'')) (\<lambda>expected.
     if ascii actual \<noteq> expected then Inl (PackValidationError ''CONTENT_HASH'') else Inr expected))"

definition read_policies :: "ustring jobject \<Rightarrow> (ustring \<times> FundingPolicy) list result" where
  "read_policies manifest =
     and_then (va_object (uget manifest ''markets'')) (\<lambda>market_values.
     and_then (traverse (\<lambda>(alias, v). and_then (va_object v) (\<lambda>d. Inr (alias, d)))
       (sort_key fst market_values)) (\<lambda>markets.
     and_then (va_str (uget manifest ''venue'')) (\<lambda>venue.
     traverse (\<lambda>(alias, d). and_then (funding_policy venue d) (\<lambda>p. Inr (alias, p))) markets)))"

definition validate_pack :: "verifier \<Rightarrow> node \<Rightarrow> PackValidationResult result" where
  "validate_pack env tree =
     and_then (read_manifest env tree) (\<lambda>manifest.
     and_then (read_window manifest) (\<lambda>(window_start_ts, window_end_ts).
     and_then (read_intervals manifest) (\<lambda>(intervals, decision_bar_ms).
     and_then (read_entries manifest) (\<lambda>entries.
     and_then (traverse (read_series env tree) entries) (\<lambda>series.
     and_then (check_content_hash manifest entries) (\<lambda>content.
     and_then (read_policies manifest) (\<lambda>policies.
     and_then (fold_result (add_series (map fst policies) intervals) series []) (\<lambda>by_key.
     and_then (traverse (validate_market by_key intervals decision_bar_ms window_start_ts window_end_ts) policies)
       (\<lambda>counts.
     if \<exists>k \<in> set (map fst by_key). \<not> expected_key (map fst policies) intervals k
     then Inl (PackValidationError ''UNEXPECTED_SERIES'')
     else
     and_then (va_int (uget manifest ''warmup_bars'')) (\<lambda>warmup_bars.
     let decision_counts = concat (map (\<lambda>(_, _, ns). ns) counts) in
     if decision_counts = [] then Inl (PackValidationError ''WARMUP_LENGTH'')
     else let actionable = int (Min (set decision_counts)) - warmup_bars - 1 in
     if actionable < 1 then Inl (PackValidationError ''WARMUP_LENGTH'')
     else
     and_then (va_str (uget manifest ''pack_id'')) (\<lambda>pack_id.
     Inr \<lparr>pvr_pack_id = pack_id, pvr_content_hash = content, pvr_files = length series,
          pvr_bar_rows = sum_list (map (\<lambda>(_, n, _). n) counts),
          pvr_funding_rows = sum_list (map (\<lambda>(n, _, _). n) counts), pvr_actionable_bars = actionable\<rparr>)))))))))))"

end
