(* ===== verification/Pack_Accepted.thy ===== *)
theory Pack_Accepted
  imports Pack_Validator Share_Bundle Observation_Facts
begin

text \<open>
  The gate and the loader of packs agree: what \<open>validate_pack\<close> accepts, \<open>load_pack\<close> loads, and the pack
  it loads is sound for the engine.
\<close>

section \<open>What the schemas say\<close>

text \<open>
  The part of \<open>spec/schemas\<close> that the loader relies on: types, constants, enumerations and least values.
\<close>

definition int_of :: "ustring jobject \<Rightarrow> string \<Rightarrow> int" where
  "int_of d field = (case uget d field of JInt n \<Rightarrow> n | _ \<Rightarrow> 0)"

definition has_int :: "ustring jobject \<Rightarrow> string \<Rightarrow> bool" where
  "has_int d field \<longleftrightarrow> (case uget d field of JInt _ \<Rightarrow> True | _ \<Rightarrow> False)"

definition has_least :: "ustring jobject \<Rightarrow> int \<Rightarrow> string \<Rightarrow> bool" where
  "has_least d least field \<longleftrightarrow> has_int d field \<and> least \<le> int_of d field"

definition has_str :: "ustring jobject \<Rightarrow> string \<Rightarrow> bool" where
  "has_str d field \<longleftrightarrow> (case uget d field of JStr _ \<Rightarrow> True | _ \<Rightarrow> False)"

definition object_of :: "ustring jobject \<Rightarrow> string \<Rightarrow> ustring jobject" where
  "object_of d field = (case uget d field of JObj m \<Rightarrow> m | _ \<Rightarrow> [])"

definition has_object :: "ustring jobject \<Rightarrow> string \<Rightarrow> bool" where
  "has_object d field \<longleftrightarrow> (case uget d field of JObj _ \<Rightarrow> True | _ \<Rightarrow> False)"

definition array_of :: "ustring jobject \<Rightarrow> string \<Rightarrow> ustring json list" where
  "array_of d field = (case uget d field of JArr xs \<Rightarrow> xs | _ \<Rightarrow> [])"

definition has_array :: "ustring jobject \<Rightarrow> string \<Rightarrow> bool" where
  "has_array d field \<longleftrightarrow> (case uget d field of JArr _ \<Rightarrow> True | _ \<Rightarrow> False)"

definition bar_row_schema :: "ustring jobject \<Rightarrow> bool" where
  "bar_row_schema d \<longleftrightarrow> list_all (has_least d 0) [''ts'', ''available_at'', ''o'', ''h'', ''l'', ''c'', ''v_base_1e8'']"

definition funding_row_schema :: "ustring jobject \<Rightarrow> bool" where
  "funding_row_schema d \<longleftrightarrow> list_all (has_least d 0) [''ts'', ''available_at''] \<and> has_int d ''rate_1e8''"

definition tier_schema :: "ustring json \<Rightarrow> bool" where
  "tier_schema v \<longleftrightarrow> (case v of
     JObj d \<Rightarrow> list_all (has_least d 1) [''notional_cap_micro'', ''initial_rate_1e8'', ''maintenance_rate_1e8'']
   | _ \<Rightarrow> False)"

definition int_at_least :: "int \<Rightarrow> ustring json \<Rightarrow> bool" where
  "int_at_least least v \<longleftrightarrow> (case v of JInt n \<Rightarrow> least \<le> n | _ \<Rightarrow> False)"

definition descriptor_schema :: "ustring jobject \<Rightarrow> bool" where
  "descriptor_schema d \<longleftrightarrow>
     (let margin = object_of d ''margin''; funding = object_of d ''funding''; fees = object_of d ''fees'';
          execution = object_of d ''execution'' in
      list_all (has_object d) [''margin'', ''funding'', ''fees'', ''execution''] \<and>
      list_all (has_least d 1) [''tick_size_micro'', ''qty_step_base_1e8'', ''leverage_cap_lev_1e4''] \<and>
      has_least d 0 ''min_notional_micro'' \<and>
      has_array margin ''tiers'' \<and> array_of margin ''tiers'' \<noteq> [] \<and> list_all tier_schema (array_of margin ''tiers'') \<and>
      has_least margin 0 ''liquidation_penalty_1e8'' \<and>
      has_least funding 1 ''interval_ms'' \<and> has_int funding ''cap_1e8'' \<and> has_int funding ''floor_1e8'' \<and>
      has_array funding ''settlement_offsets_ms'' \<and> array_of funding ''settlement_offsets_ms'' \<noteq> [] \<and>
      list_all (int_at_least 0) (array_of funding ''settlement_offsets_ms'') \<and>
      list_all (has_least fees 0) [''maker_rate_1e8'', ''taker_rate_1e8''] \<and>
      list_all (has_least execution 0) [''half_spread_1e8'', ''impact_coeff_1e8''] \<and>
      has_least execution 1 ''participation_cap_1e8'' \<and>
      uget execution ''impact_model'' \<in> {utext ''linear'', utext ''sqrt''} \<and>
      has_object execution ''cost_profile_multipliers_1e4'' \<and>
      list_all (\<lambda>(_, v). int_at_least 1 v) (object_of execution ''cost_profile_multipliers_1e4''))"

definition market_alias :: "ustring \<Rightarrow> bool" where
  "market_alias s \<longleftrightarrow> s \<noteq> [] \<and> length s \<le> 12 \<and> list_all (\<lambda>c. (48 \<le> c \<and> c \<le> 57) \<or> (65 \<le> c \<and> c \<le> 90)) s"

definition entry_schema :: "ustring json \<Rightarrow> bool" where
  "entry_schema v \<longleftrightarrow> (case v of
     JObj d \<Rightarrow> uget d ''role'' \<in> set (map utext ROLES) \<and> list_all (has_least d 0) [''interval_ms'', ''bytes'', ''records'']
   | _ \<Rightarrow> False)"

definition manifest_schema :: "ustring jobject \<Rightarrow> bool" where
  "manifest_schema d \<longleftrightarrow>
     uget d ''schema'' = utext ''pack_manifest/v1'' \<and> has_str d ''pack_id'' \<and>
     has_least d 1 ''decision_bar_ms'' \<and> has_least d 0 ''warmup_bars'' \<and>
     has_object d ''window'' \<and> list_all (has_least (object_of d ''window'') 0) [''start_ts'', ''end_ts''] \<and>
     has_object d ''default_lookback'' \<and> has_least (object_of d ''default_lookback'') 1 ''bars'' \<and>
     has_least (object_of d ''default_lookback'') 0 ''funding_prints'' \<and>
     list_all entry_schema (array_of d ''files'') \<and>
     object_of d ''markets'' \<noteq> [] \<and>
     list_all (\<lambda>(alias, v). market_alias alias \<and> (case v of JObj m \<Rightarrow> descriptor_schema m | _ \<Rightarrow> False))
       (object_of d ''markets'')"

definition pack_schemas :: "verifier \<Rightarrow> bool" where
  "pack_schemas env \<longleftrightarrow>
     (\<forall>d. (vf_schema env ''pack_manifest'' (JObj d) \<longrightarrow> manifest_schema d) \<and>
        (vf_schema env ''bar_row'' (JObj d) \<longrightarrow> bar_row_schema d) \<and>
        (vf_schema env ''funding_row'' (JObj d) \<longrightarrow> funding_row_schema d))"

section \<open>Reading typed members\<close>

lemma has_intE: "has_int d f \<Longrightarrow> uget d f = JInt (int_of d f)"
  by (auto simp: has_int_def int_of_def split: json.splits)

lemma has_leastE: "has_least d k f \<Longrightarrow> uget d f = JInt (int_of d f) \<and> k \<le> int_of d f"
  using has_intE by (simp add: has_least_def)

lemma has_objectE: "has_object d f \<Longrightarrow> uget d f = JObj (object_of d f)"
  by (auto simp: has_object_def object_of_def split: json.splits)

lemma has_arrayE: "has_array d f \<Longrightarrow> uget d f = JArr (array_of d f)"
  by (auto simp: has_array_def array_of_def split: json.splits)

lemma pk_reads:
  "has_least d k f \<Longrightarrow> pk_int (uget d f) (Some k) = Inr (int_of d f)"
  "has_int d f \<Longrightarrow> pk_int (uget d f) None = Inr (int_of d f)"
  "has_object d f \<Longrightarrow> pk_object (uget d f) = Inr (object_of d f)"
  "has_array d f \<Longrightarrow> pk_array (uget d f) = Inr (array_of d f)"
  using has_leastE[of d k f] has_intE[of d f] has_objectE[of d f] has_arrayE[of d f]
  by (auto simp: pk_int_def pk_object_def pk_array_def)

lemma va_reads:
  "va_int v = Inr n \<longleftrightarrow> v = JInt n"
  "va_str v = Inr s \<longleftrightarrow> v = JStr s"
  "va_object v = Inr m \<longleftrightarrow> v = JObj m"
  "va_array v = Inr xs \<longleftrightarrow> v = JArr xs"
  by (auto simp: va_int_def va_str_def va_object_def va_array_def split: json.splits)

lemma int_of_eq: "uget d f = JInt n \<Longrightarrow> int_of d f = n"
  by (simp add: int_of_def)

section \<open>Both decode the same documents\<close>

lemma raising_refuses: "refusing (raising_hooks fail)"
  by (auto simp: refusing_def raising_hooks_def)

lemma decode_canonical:
  assumes "decode_raising f depth raw = Inr (JObj d)" "canonical_bytes (JObj d) = Inr raw"
  shows "shaped depth (JObj d)" "decode_raising g depth raw = Inr (JObj d)"
proof -
  from assms(1) obtain t where t: "utf8_decode raw = Some t" "json_loads (raising_hooks f) depth t = Inr (JObj d)"
    by (auto simp: decode_raising_def split: option.splits sum.splits error.splits)
  from loads_refusing[OF raising_refuses t(2)] show s: "shaped depth (JObj d)" .
  from canonical_bytes_eq_Inr[OF assms(2)] obtain t' where e: "encode_json (JObj d) = Inr t'" "utf8_encode t' = Some raw"
    by blast
  from utf8_roundtrip[OF e(2)] t(1) have "t' = t" by simp
  with loads_encoded[OF e(1) _ _ refusing_keeps[OF raising_refuses], of depth] s
  have l: "json_loads (raising_hooks h) depth t = Inr (canonical_form (JObj d))" for h by (simp only: shaped_def)
  from l[of f] t(2) have "canonical_form (JObj d) = JObj d" by simp
  with l[of g] t(1) show "decode_raising g depth raw = Inr (JObj d)" by (simp add: decode_raising_def)
qed

lemma canonical_checked: "va_canonical code d raw = Inr u \<Longrightarrow> canonical_bytes (JObj d) = Inr raw"
  by (cases "canonical_bytes (JObj d)") (auto simp: va_canonical_def split: if_splits error.splits)

lemma row_read:
  assumes "read_row env n line = Inr row"
  shows "pack_decode (vf_depth env) line = Inr (JObj row)" "vf_schema env n (JObj row)"
    "10 \<notin> set line \<and> 13 \<notin> set line" "shaped (vf_depth env) (JObj row)"
proof -
  from assms obtain u where r: "va_decode (vf_depth env) line = Inr (JObj row)" "vf_schema env n (JObj row)"
    "va_canonical ''JSONL_CANONICAL'' row line = Inr u"
    by (auto simp: read_row_def and_then_eq_Inr va_reads va_schema_def split: if_splits)
  note c = canonical_checked[OF r(3)]
  show "pack_decode (vf_depth env) line = Inr (JObj row)" "shaped (vf_depth env) (JObj row)"
    using decode_canonical[OF r(1)[unfolded va_decode_def] c] by (simp_all add: pack_decode_def)
  show "vf_schema env n (JObj row)" by (rule r(2))
  show "10 \<notin> set line \<and> 13 \<notin> set line" using canonical_no_newline[OF c] by simp
qed
section \<open>The same rows\<close>

lemma split_on_joined: "lines_of (split_on 10 xs) = xs @ [10]"
proof (induction xs)
  case (Cons x xs)
  then show ?case by (cases "split_on 10 xs") auto
qed simp

lemma file_lines:
  assumes "raw \<noteq> [] \<longrightarrow> last raw = 10" "ls = (if raw = [] then [] else split_on 10 (butlast raw))"
  shows "raw = lines_of ls"
proof (cases "raw = []")
  case False
  then have "raw = butlast raw @ [10]" using assms(1) append_butlast_last_id[of raw] by simp
  then show ?thesis using split_on_joined[of "butlast raw"] False assms(2) by simp
qed (simp add: assms(2))

text \<open>The file of a series, where its path resolves.\<close>

definition file_of :: "node \<Rightarrow> series \<Rightarrow> ustring list \<times> byte list" where
  "file_of tree s =
     (case resolve_path False tree (sr_path s) of
        Inside path \<Rightarrow> (path, case read_bytes tree path of Inr raw \<Rightarrow> raw | _ \<Rightarrow> [])
      | _ \<Rightarrow> ([], []))"

lemma resolve_strict: "resolve_from True tree here ps = Inside path \<Longrightarrow> resolve_from False tree here ps = Inside path"
  by (induction ps arbitrary: here) (auto split: if_splits)

lemma series_read:
  assumes "read_series env tree entry = Inr s" "has_least entry 0 ''bytes''" "has_least entry 0 ''records''"
  obtains ls where
    "uget entry ''role'' = JStr (sr_role s)" "uget entry ''market'' = JStr (sr_market s)"
    "uget entry ''interval_ms'' = JInt (sr_interval_ms s)"
    "uget entry ''row_schema'' = utext (if sr_role s = ascii ''funding'' then ''funding_row/v1'' else ''bar_row/v1'')"
    "read_declared_file tree entry True = Inr (file_of tree s)"
    "row_lines (snd (file_of tree s)) = Inr (zip [0..<length ls] ls)"
    "list_all2 (\<lambda>l row. read_row env (if sr_role s = ascii ''funding'' then ''funding_row'' else ''bar_row'') l = Inr row)
       ls (sr_rows s)"
proof -
  define name where "name = (if sr_role s = ascii ''funding'' then ''funding_row'' else ''bar_row'')"
  from assms(1) obtain upstream us path raw ls where e: "uget entry ''path'' = JStr (sr_path s)"
    "uget entry ''role'' = JStr (sr_role s)" "uget entry ''market'' = JStr (sr_market s)"
    "uget entry ''interval_ms'' = JInt (sr_interval_ms s)"
    "uget entry ''row_schema'' = utext (if sr_role s = ascii ''funding'' then ''funding_row/v1'' else ''bar_row/v1'')"
    "safe_series_path tree (sr_path s) = Inr path" "read_bytes tree path = Inr raw"
    "uget entry ''bytes'' = JInt (int (length raw))" "uget entry ''sha256'' = utext (sha256_prefixed raw)"
    "raw \<noteq> [] \<longrightarrow> last raw = 10" "ls = (if raw = [] then [] else split_on 10 (butlast raw))" "[] \<notin> set ls"
    "uget entry ''records'' = JInt (int (length ls))" "traverse (read_row env name) ls = Inr (sr_rows s)"
    unfolding name_def
    by (auto simp: read_series_def and_then_eq_Inr va_reads Let_def utext_def split: if_split_asm)
  have raw: "raw = lines_of ls" by (rule file_lines[OF e(10,11)])
  have rows: "list_all2 (\<lambda>l row. read_row env name l = Inr row) ls (sr_rows s)"
    using traverse_length[OF e(14)] traverse_nth[OF e(14)] by (simp add: list_all2_conv_all_nth)
  then have "\<forall>l \<in> set ls. 10 \<notin> set l \<and> 13 \<notin> set l"
    using row_read(3) by (fastforce simp: list_all2_conv_all_nth in_set_conv_nth)
  then have sp: "bytes_splitlines raw = ls" unfolding raw by (rule splitlines_lines)
  from e(6) have r: "resolve_path False tree (sr_path s) = Inside path"
    using resolve_strict by (auto simp: safe_series_path_def resolve_path_def split: resolution.splits if_splits)
  then have f: "file_of tree s = (path, raw)" by (simp add: file_of_def e(7))
  have "read_declared_file tree entry True = Inr (file_of tree s)"
    using e sp r by (simp add: read_declared_file_def pk_str_def safe_pack_path_def pk_int_def f utext_def)
  moreover have "row_lines (snd (file_of tree s)) = Inr (zip [0..<length ls] ls)"
    using sp e(12) by (simp add: row_lines_def f Let_def)
  ultimately show thesis using that e(2-5) rows unfolding name_def by blast
qed
definition bar_of :: "ustring \<Rightarrow> string \<Rightarrow> ustring list \<Rightarrow> nat \<times> ustring jobject \<Rightarrow> BarRow" where
  "bar_of market role source ir = (case ir of (i, d) \<Rightarrow>
     \<lparr>br_ts = int_of d ''ts'', br_available_at = int_of d ''available_at'', br_o = int_of d ''o'',
      br_h = int_of d ''h'', br_l = int_of d ''l'', br_c = int_of d ''c'', br_v_base_1e8 = int_of d ''v_base_1e8'',
      br_provenance = provenance_of market role source i (int_of d ''ts'') (int_of d ''available_at'')\<rparr>)"

definition print_of :: "ustring \<Rightarrow> ustring list \<Rightarrow> nat \<times> ustring jobject \<Rightarrow> FundingRow" where
  "print_of market source ir = (case ir of (i, d) \<Rightarrow>
     \<lparr>fd_ts = int_of d ''ts'', fd_available_at = int_of d ''available_at'', fd_rate_1e8 = int_of d ''rate_1e8'',
      fd_provenance = provenance_of market ''funding'' source i (int_of d ''ts'') (int_of d ''available_at'')\<rparr>)"

definition indexed :: "'a list \<Rightarrow> (nat \<times> 'a) list" where
  "indexed xs = zip [0..<length xs] xs"

lemma traverse_indexed_rows:
  assumes "list_all2 R ls rows" "\<And>i l row. R l row \<Longrightarrow> f (i, l) = Inr (g (i, row))"
  shows "traverse f (zip [0..<length ls] ls) = Inr (map g (indexed rows))"
  using assms by (intro traverse_pointwise) (auto simp: indexed_def list_all2_conv_all_nth)

lemma map_indexed [simp]: "map (\<lambda>p. f (snd p)) (indexed xs) = map f xs"
  by (rule nth_equalityI) (simp_all add: indexed_def)

lemma set_indexed: "(i, x) \<in> set (indexed xs) \<Longrightarrow> x \<in> set xs"
  by (auto simp: indexed_def dest: set_zip_rightD)

lemma bars_loaded:
  assumes "row_lines raw = Inr (zip [0..<length ls] ls)" "pack_schemas env"
    and "list_all2 (\<lambda>l row. read_row env ''bar_row'' l = Inr row) ls rows"
  shows "load_bar_rows (vf_depth env) market role (path, raw) = Inr (map (bar_of market role path) (indexed rows))"
proof -
  have "load_bar_row (vf_depth env) path market role (i, l) = Inr (bar_of market role path (i, d))"
    if r: "read_row env ''bar_row'' l = Inr d" for i l d
  proof -
    have "bar_row_schema d" using row_read(2)[OF r] assms(2) by (simp add: pack_schemas_def)
    then show ?thesis using row_read(1)[OF r]
      by (simp add: load_bar_row_def bar_row_schema_def pk_object_def pk_reads bar_of_def)
  qed
  then have "traverse (load_bar_row (vf_depth env) path market role) (zip [0..<length ls] ls)
    = Inr (map (bar_of market role path) (indexed rows))" by (rule traverse_indexed_rows[OF assms(3)])
  with assms(1) show ?thesis by (simp add: load_bar_rows_def)
qed

lemma prints_loaded:
  assumes "row_lines raw = Inr (zip [0..<length ls] ls)" "pack_schemas env"
    and "list_all2 (\<lambda>l row. read_row env ''funding_row'' l = Inr row) ls rows"
  shows "load_funding_rows (vf_depth env) market (path, raw) = Inr (map (print_of market path) (indexed rows))"
proof -
  have "load_funding_row (vf_depth env) path market (i, l) = Inr (print_of market path (i, d))"
    if r: "read_row env ''funding_row'' l = Inr d" for i l d
  proof -
    have "funding_row_schema d" using row_read(2)[OF r] assms(2) by (simp add: pack_schemas_def)
    then show ?thesis using row_read(1)[OF r]
      by (simp add: load_funding_row_def funding_row_schema_def pk_object_def pk_reads print_of_def)
  qed
  then have "traverse (load_funding_row (vf_depth env) path market) (zip [0..<length ls] ls)
    = Inr (map (print_of market path) (indexed rows))" by (rule traverse_indexed_rows[OF assms(3)])
  with assms(1) show ?thesis by (simp add: load_funding_rows_def)
qed

section \<open>Series invariants\<close>

lemma timestamps_ordered:
  assumes "strict_timestamp_order s = Inr ts"
  shows "ts = map (\<lambda>d. int_of d ''ts'') (sr_rows s)" "strictly_increasing ts"
proof -
  from assms have t: "traverse (\<lambda>row. va_int (uget row ''ts'')) (sr_rows s) = Inr ts" "strictly_increasing ts"
    by (auto simp: strict_timestamp_order_def and_then_eq_Inr split: if_splits)
  then show "strictly_increasing ts" by simp
  have "ts ! i = int_of (sr_rows s ! i) ''ts''" if "i < length (sr_rows s)" for i
    using traverse_nth[OF t(1) that] by (simp add: va_reads int_of_eq)
  then show "ts = map (\<lambda>d. int_of d ''ts'') (sr_rows s)"
    using traverse_length[OF t(1)] by (simp add: list_eq_iff_nth_eq)
qed

text \<open>A bar row of a validated series.\<close>

definition sound_bar :: "int \<Rightarrow> ustring jobject \<Rightarrow> bool" where
  "sound_bar interval_ms d \<longleftrightarrow>
     int_of d ''available_at'' = int_of d ''ts'' + interval_ms \<and>
     int_of d ''l'' \<le> int_of d ''o'' \<and> int_of d ''l'' \<le> int_of d ''c'' \<and>
     int_of d ''o'' \<le> int_of d ''h'' \<and> int_of d ''c'' \<le> int_of d ''h'' \<and> int_of d ''l'' \<le> int_of d ''h''"

lemma bars_validated:
  assumes "validate_bar_rows s = Inr ts"
  shows "ts = map (\<lambda>d. int_of d ''ts'') (sr_rows s)" "strictly_increasing ts"
    "\<forall>d \<in> set (sr_rows s). sound_bar (sr_interval_ms s) d"
proof -
  from assms obtain us where t: "strict_timestamp_order s = Inr ts"
    "traverse (check_bar_row (sr_interval_ms s)) (zip ts (sr_rows s)) = Inr us"
    by (auto simp: validate_bar_rows_def and_then_eq_Inr)
  note o = timestamps_ordered[OF t(1)]
  show "ts = map (\<lambda>d. int_of d ''ts'') (sr_rows s)" "strictly_increasing ts" by (rule o)+
  show "\<forall>d \<in> set (sr_rows s). sound_bar (sr_interval_ms s) d"
  proof
    fix d assume "d \<in> set (sr_rows s)"
    then obtain i where i: "i < length (sr_rows s)" "d = sr_rows s ! i" by (auto simp: in_set_conv_nth)
    then have "check_bar_row (sr_interval_ms s) (int_of d ''ts'', d) = Inr (us ! i)"
      using traverse_nth[OF t(2), of i] o(1) by simp
    then show "sound_bar (sr_interval_ms s) d"
      by (auto simp: check_bar_row_def and_then_eq_Inr va_reads sound_bar_def int_of_eq split: if_splits)
  qed
qed

lemma prints_validated:
  assumes "validate_funding_rows s policy a b = Inr ts"
  shows "ts = map (\<lambda>d. int_of d ''ts'') (sr_rows s)" "strictly_increasing ts"
    "\<forall>d \<in> set (sr_rows s). int_of d ''available_at'' = int_of d ''ts'' \<and>
       fp_floor_1e8 policy \<le> int_of d ''rate_1e8'' \<and> int_of d ''rate_1e8'' \<le> fp_cap_1e8 policy"
proof -
  from assms obtain us where t: "strict_timestamp_order s = Inr ts"
    "traverse (check_funding_row policy) (zip ts (sr_rows s)) = Inr us"
    by (auto simp: validate_funding_rows_def and_then_eq_Inr split: if_splits)
  note o = timestamps_ordered[OF t(1)]
  show "ts = map (\<lambda>d. int_of d ''ts'') (sr_rows s)" "strictly_increasing ts" by (rule o)+
  show "\<forall>d \<in> set (sr_rows s). int_of d ''available_at'' = int_of d ''ts'' \<and>
       fp_floor_1e8 policy \<le> int_of d ''rate_1e8'' \<and> int_of d ''rate_1e8'' \<le> fp_cap_1e8 policy"
  proof
    fix d assume "d \<in> set (sr_rows s)"
    then obtain i where i: "i < length (sr_rows s)" "d = sr_rows s ! i" by (auto simp: in_set_conv_nth)
    then have "check_funding_row policy (int_of d ''ts'', d) = Inr (us ! i)"
      using traverse_nth[OF t(2), of i] o(1) by simp
    then show "int_of d ''available_at'' = int_of d ''ts'' \<and>
       fp_floor_1e8 policy \<le> int_of d ''rate_1e8'' \<and> int_of d ''rate_1e8'' \<le> fp_cap_1e8 policy"
      by (auto simp: check_funding_row_def and_then_eq_Inr va_reads int_of_eq split: if_splits)
  qed
qed
section \<open>Specifications\<close>

lemma tiers_read:
  assumes "list_all tier_schema vs" shows "\<exists>ts. traverse market_tier vs = Inr ts \<and> length ts = length vs"
proof -
  have "\<exists>t. market_tier v = Inr t" if "tier_schema v" for v
    using that by (auto simp: tier_schema_def market_tier_def pk_object_def pk_reads split: json.splits)
  with assms have "\<forall>v \<in> set vs. \<exists>t. market_tier v = Inr t" by (auto simp: list_all_iff)
  with traverse_defined_iff[of market_tier vs] traverse_length[of market_tier vs] show ?thesis by auto
qed

lemma ints_read:
  assumes "list_all (int_at_least k) vs"
  shows "\<exists>ns. traverse (\<lambda>v. pk_int v (Some k)) vs = Inr ns \<and> length ns = length vs"
proof -
  have "\<exists>n. pk_int v (Some k) = Inr n" if "int_at_least k v" for v
    using that by (auto simp: int_at_least_def pk_int_def split: json.splits)
  with assms have "\<forall>v \<in> set vs. \<exists>n. pk_int v (Some k) = Inr n" by (auto simp: list_all_iff)
  with traverse_defined_iff[of "\<lambda>v. pk_int v (Some k)" vs] traverse_length[of "\<lambda>v. pk_int v (Some k)" vs]
  show ?thesis by auto
qed

lemma profiles_read:
  assumes "list_all (\<lambda>(_, v). int_at_least 1 v) ps" shows "\<exists>ns. market_profiles ps = Inr ns"
proof -
  have "\<exists>n. and_then (pk_int v (Some 1)) (\<lambda>n. Inr (text_of name, n)) = Inr n" if "int_at_least 1 v" for name v
    using that by (auto simp: int_at_least_def pk_int_def split: json.splits)
  with assms have "\<forall>p \<in> set (sort_key fst ps).
      \<exists>n. (\<lambda>(name, v). and_then (pk_int v (Some 1)) (\<lambda>n. Inr (text_of name, n))) p = Inr n"
    by (auto simp: list_all_iff)
  then show ?thesis unfolding market_profiles_def traverse_defined_iff .
qed

lemma spec_read:
  assumes "descriptor_schema d" shows "\<exists>spec. market_spec alias d = Inr spec"
proof -
  let ?m = "object_of d ''margin''" and ?f = "object_of d ''funding''" and ?e = "object_of d ''execution''"
  have h: "list_all (has_object d) [''margin'', ''funding'', ''fees'', ''execution'']"
    "list_all (has_least d 1) [''tick_size_micro'', ''qty_step_base_1e8'', ''leverage_cap_lev_1e4'']"
    "has_least d 0 ''min_notional_micro''" "has_array ?m ''tiers''" "array_of ?m ''tiers'' \<noteq> []"
    "list_all tier_schema (array_of ?m ''tiers'')" "has_least ?m 0 ''liquidation_penalty_1e8''"
    "has_least ?f 1 ''interval_ms''" "has_int ?f ''cap_1e8''" "has_int ?f ''floor_1e8''"
    "has_array ?f ''settlement_offsets_ms''" "array_of ?f ''settlement_offsets_ms'' \<noteq> []"
    "list_all (int_at_least 0) (array_of ?f ''settlement_offsets_ms'')"
    "list_all (has_least (object_of d ''fees'') 0) [''maker_rate_1e8'', ''taker_rate_1e8'']"
    "list_all (has_least ?e 0) [''half_spread_1e8'', ''impact_coeff_1e8'']" "has_least ?e 1 ''participation_cap_1e8''"
    "uget ?e ''impact_model'' \<in> {utext ''linear'', utext ''sqrt''}" "has_object ?e ''cost_profile_multipliers_1e4''"
    "list_all (\<lambda>(_, v). int_at_least 1 v) (object_of ?e ''cost_profile_multipliers_1e4'')"
    using assms by (simp_all only: descriptor_schema_def Let_def simp_thms)
  obtain ns where ns: "market_profiles (object_of ?e ''cost_profile_multipliers_1e4'') = Inr ns"
    using profiles_read[OF h(19)] by blast
  obtain os where os: "traverse (\<lambda>v. pk_int v (Some 0)) (array_of ?f ''settlement_offsets_ms'') = Inr os" "os \<noteq> []"
    using ints_read[OF h(13)] h(12) by fastforce
  obtain ts where ts: "traverse market_tier (array_of ?m ''tiers'') = Inr ts" "ts \<noteq> []"
    using tiers_read[OF h(6)] h(5) by fastforce
  obtain im where im: "pk_str (uget ?e ''impact_model'') = Inr im" "im \<in> {ascii ''linear'', ascii ''sqrt''}"
    using h(17) by (auto simp: pk_str_def utext_def)
  show ?thesis
    using h(1-3,7-10,14-16) im(2) by (simp add: market_spec_def pk_reads h(4,11,18) ns os ts im(1))
qed

section \<open>The same selection\<close>

text \<open>What the loader has selected, given the series the gate has filed.\<close>

definition agrees :: "node \<Rightarrow> int \<Rightarrow> (series_key \<times> series) list \<Rightarrow> selection \<Rightarrow> bool" where
  "agrees tree bar_ms by_key selected \<longleftrightarrow>
     (\<forall>a r. map_of selected (a, r) =
        map_option (file_of tree) (map_of by_key (a, r, if r = ascii ''funding'' then 0 else bar_ms)))"

lemma selection_step:
  assumes "read_series env tree entry = Inr s" "entry_schema (JObj entry)"
    and "add_series aliases intervals s by_key = Inr by_key'" "agrees tree bar_ms by_key selected"
  shows "\<exists>selected'. select_file tree True aliases bar_ms (JObj entry) selected = Inr selected' \<and>
    agrees tree bar_ms by_key' selected'"
proof -
  have sch: "uget entry ''role'' \<in> set (map utext ROLES)" "has_least entry 0 ''interval_ms''"
    "has_least entry 0 ''bytes''" "has_least entry 0 ''records''"
    using assms(2) by (simp_all add: entry_schema_def)
  obtain ls where e: "uget entry ''role'' = JStr (sr_role s)" "uget entry ''market'' = JStr (sr_market s)"
    "uget entry ''interval_ms'' = JInt (sr_interval_ms s)"
    "uget entry ''row_schema'' = utext (if sr_role s = ascii ''funding'' then ''funding_row/v1'' else ''bar_row/v1'')"
    "read_declared_file tree entry True = Inr (file_of tree s)"
    by (rule series_read[OF assms(1) sch(3,4)])
  have role: "sr_role s \<in> set (map ascii ROLES)" using sch(1) e(1) by (auto simp: utext_def ROLES_def)
  have i: "pk_int (uget entry ''interval_ms'') (Some 0) = Inr (sr_interval_ms s)"
    using pk_reads(1)[OF sch(2)] e(3) by (simp add: int_of_def)
  have rs: "pk_str (uget entry ''row_schema'') = Inr (ascii (if sr_role s = ascii ''funding'' then ''funding_row/v1'' else ''bar_row/v1''))"
    by (simp add: e(4) pk_str_def utext_def)
  from assms(3) have add: "sr_market s \<in> set aliases" "sr_role s = ascii ''funding'' \<longrightarrow> sr_interval_ms s = 0"
    "map_of by_key (sr_market s, sr_role s, sr_interval_ms s) = None"
    "by_key' = ((sr_market s, sr_role s, sr_interval_ms s), s) # by_key"
    by (auto simp: add_series_def Let_def split: if_splits)
  have sel: "select_file tree True aliases bar_ms (JObj entry) selected =
    (if sr_role s \<noteq> ascii ''funding'' \<and> sr_interval_ms s \<noteq> bar_ms then Inr selected
     else if map_of selected (sr_market s, sr_role s) \<noteq> None
     then Inl (PackError ''duplicate series at decision interval'')
     else Inr (((sr_market s, sr_role s), file_of tree s) # selected))"
    using add(1,2) role by (simp add: select_file_def pk_object_def pk_str_def e(1,2,5) i rs[unfolded pk_str_def])
  show ?thesis
  proof (cases "sr_role s \<noteq> ascii ''funding'' \<and> sr_interval_ms s \<noteq> bar_ms")
    case True
    with sel assms(4) show ?thesis by (auto simp: agrees_def add(4))
  next
    case False
    with add(2) have key: "(if sr_role s = ascii ''funding'' then 0 else bar_ms) = sr_interval_ms s" by auto
    with assms(4) add(3) have "map_of selected (sr_market s, sr_role s) = None" by (simp add: agrees_def)
    with sel False have "select_file tree True aliases bar_ms (JObj entry) selected
      = Inr (((sr_market s, sr_role s), file_of tree s) # selected)" by auto
    moreover have "agrees tree bar_ms by_key' (((sr_market s, sr_role s), file_of tree s) # selected)"
      using assms(4) key by (auto simp: agrees_def add(4))
    ultimately show ?thesis by blast
  qed
qed

lemma selection_made:
  assumes "list_all2 (\<lambda>entry s. read_series env tree entry = Inr s) entries ss"
    and "\<forall>entry \<in> set entries. entry_schema (JObj entry)"
    and "fold_result (add_series aliases intervals) ss by_key = Inr by_key'" "agrees tree bar_ms by_key selected"
  shows "\<exists>selected'. fold_result (select_file tree True aliases bar_ms) (map JObj entries) selected = Inr selected' \<and>
    agrees tree bar_ms by_key' selected'"
  using assms
proof (induction entries ss arbitrary: by_key selected rule: list_all2_induct)
  case (Cons entry entries s ss)
  from Cons.prems(2) obtain k where k: "add_series aliases intervals s by_key = Inr k"
    "fold_result (add_series aliases intervals) ss k = Inr by_key'" by (auto simp: and_then_eq_Inr)
  obtain selected' where "select_file tree True aliases bar_ms (JObj entry) selected = Inr selected'"
    "agrees tree bar_ms k selected'"
    using selection_step[OF Cons.hyps(1) _ k(1) Cons.prems(3)] Cons.prems(1) by auto
  with Cons.IH[OF _ k(2), of selected'] Cons.prems(1) show ?case by auto
qed auto
section \<open>The same markets\<close>

text \<open>Every filed series was read from a declared file and has the key it is filed under.\<close>

definition filed :: "verifier \<Rightarrow> node \<Rightarrow> (series_key \<times> series) list \<Rightarrow> bool" where
  "filed env tree by_key \<longleftrightarrow> (\<forall>(k, s) \<in> set by_key. k = (sr_market s, sr_role s, sr_interval_ms s) \<and>
     (\<exists>entry. read_series env tree entry = Inr s \<and> has_least entry 0 ''bytes'' \<and> has_least entry 0 ''records''))"

lemma filedE:
  assumes "filed env tree by_key" "series_at by_key alias interval_ms role = Inr s"
  obtains entry where "map_of by_key (alias, ascii role, interval_ms) = Some s" "sr_market s = alias"
    "sr_role s = ascii role" "sr_interval_ms s = interval_ms" "read_series env tree entry = Inr s"
    "has_least entry 0 ''bytes''" "has_least entry 0 ''records''"
proof -
  from assms(2) have m: "map_of by_key (alias, ascii role, interval_ms) = Some s"
    by (auto simp: series_at_def split: option.splits)
  from map_of_SomeD[OF this] assms(1) that[OF m] show thesis by (auto simp: filed_def)
qed

lemma series_filed:
  assumes "fold_result (add_series aliases intervals) ss [] = Inr by_key"
    and "\<forall>s \<in> set ss. \<exists>entry. read_series env tree entry = Inr s \<and> has_least entry 0 ''bytes'' \<and> has_least entry 0 ''records''"
  shows "filed env tree by_key"
  by (rule fold_result_invariant[OF assms(1)])
     (use assms(2) in \<open>auto simp: filed_def add_series_def Let_def split: if_splits\<close>)

lemma bars_chosen:
  assumes "filed env tree by_key" "agrees tree bar_ms by_key selected" "pack_schemas env" "role \<noteq> ''funding''"
    and "series_at by_key alias bar_ms role = Inr s"
  shows "map_of selected (alias, ascii role) = Some (file_of tree s)"
    "and_then (chosen selected alias role) (load_bar_rows (vf_depth env) alias role)
      = Inr (map (bar_of alias role (fst (file_of tree s))) (indexed (sr_rows s)))"
proof -
  obtain entry where e: "map_of by_key (alias, ascii role, bar_ms) = Some s" "sr_role s = ascii role"
    "read_series env tree entry = Inr s" "has_least entry 0 ''bytes''" "has_least entry 0 ''records''"
    by (rule filedE[OF assms(1,5)])
  show m: "map_of selected (alias, ascii role) = Some (file_of tree s)"
    using assms(2,4) e(1) by (simp add: agrees_def)
  obtain ls where l: "row_lines (snd (file_of tree s)) = Inr (zip [0..<length ls] ls)"
    "list_all2 (\<lambda>l row. read_row env (if sr_role s = ascii ''funding'' then ''funding_row'' else ''bar_row'') l = Inr row)
       ls (sr_rows s)" by (rule series_read[OF e(3-5)])
  with bars_loaded[OF l(1) assms(3), of "sr_rows s" "alias" role "fst (file_of tree s)"] e(2) assms(4) m
  show "and_then (chosen selected alias role) (load_bar_rows (vf_depth env) alias role)
      = Inr (map (bar_of alias role (fst (file_of tree s))) (indexed (sr_rows s)))"
    by (simp add: chosen_def)
qed

lemma prints_chosen:
  assumes "filed env tree by_key" "agrees tree bar_ms by_key selected" "pack_schemas env"
    and "series_at by_key alias 0 ''funding'' = Inr s"
  shows "map_of selected (alias, ascii ''funding'') = Some (file_of tree s)"
    "and_then (chosen selected alias ''funding'') (load_funding_rows (vf_depth env) alias)
      = Inr (map (print_of alias (fst (file_of tree s))) (indexed (sr_rows s)))"
proof -
  obtain entry where e: "map_of by_key (alias, ascii ''funding'', 0) = Some s" "sr_role s = ascii ''funding''"
    "read_series env tree entry = Inr s" "has_least entry 0 ''bytes''" "has_least entry 0 ''records''"
    by (rule filedE[OF assms(1,4)])
  show m: "map_of selected (alias, ascii ''funding'') = Some (file_of tree s)"
    using assms(2) e(1) by (simp add: agrees_def)
  obtain ls where l: "row_lines (snd (file_of tree s)) = Inr (zip [0..<length ls] ls)"
    "list_all2 (\<lambda>l row. read_row env (if sr_role s = ascii ''funding'' then ''funding_row'' else ''bar_row'') l = Inr row)
       ls (sr_rows s)" by (rule series_read[OF e(3-5)])
  with prints_loaded[OF l(1) assms(3), of "sr_rows s" "alias" "fst (file_of tree s)"] e(2) m
  show "and_then (chosen selected alias ''funding'') (load_funding_rows (vf_depth env) alias)
      = Inr (map (print_of alias (fst (file_of tree s))) (indexed (sr_rows s)))"
    by (simp add: chosen_def)
qed

lemma bar_of_reads [simp]:
  "br_ts (bar_of a r p ir) = int_of (snd ir) ''ts''" "br_available_at (bar_of a r p ir) = int_of (snd ir) ''available_at''"
  "br_o (bar_of a r p ir) = int_of (snd ir) ''o''" "br_h (bar_of a r p ir) = int_of (snd ir) ''h''"
  "br_l (bar_of a r p ir) = int_of (snd ir) ''l''" "br_c (bar_of a r p ir) = int_of (snd ir) ''c''"
  "pv_available_at (br_provenance (bar_of a r p ir)) = int_of (snd ir) ''available_at''"
  by (simp_all add: bar_of_def provenance_of_def split: prod.splits)

lemma print_of_reads [simp]:
  "fd_ts (print_of a p ir) = int_of (snd ir) ''ts''" "fd_available_at (print_of a p ir) = int_of (snd ir) ''available_at''"
  "fd_rate_1e8 (print_of a p ir) = int_of (snd ir) ''rate_1e8''"
  "pv_available_at (fd_provenance (print_of a p ir)) = int_of (snd ir) ''available_at''"
  by (simp_all add: print_of_def provenance_of_def split: prod.splits)

text \<open>A bar the engine can trade on: published at its close, with its range around open and close.\<close>

definition sound_bar_row :: "int \<Rightarrow> BarRow \<Rightarrow> bool" where
  "sound_bar_row bar_ms r \<longleftrightarrow> br_available_at r = br_ts r + bar_ms \<and>
     br_l r \<le> br_o r \<and> br_l r \<le> br_c r \<and> br_o r \<le> br_h r \<and> br_c r \<le> br_h r"

definition sound_market :: "int \<Rightarrow> int \<Rightarrow> int \<Rightarrow> MarketData \<Rightarrow> bool" where
  "sound_market bar_ms start_ts stop_ts m \<longleftrightarrow>
     map br_ts (md_trade m) = py_range start_ts stop_ts bar_ms \<and>
     map br_ts (md_mark m) = map br_ts (md_trade m) \<and> map br_ts (md_index m) = map br_ts (md_trade m) \<and>
     (\<forall>r \<in> set (md_trade m) \<union> set (md_mark m) \<union> set (md_index m). sound_bar_row bar_ms r) \<and>
     strictly_increasing (map fd_ts (md_funding m)) \<and>
     (\<forall>r \<in> set (md_funding m). fd_available_at r = fd_ts r) \<and> sound_rows m"
lemma decision_interval:
  assumes "traverse f xs = Inr cs" "distinct xs" "x \<in> set xs" "f x = Inr c"
  shows "map snd (filter (\<lambda>p. fst p = x) (zip xs (map snd cs))) = [snd c]"
  using assms
proof (induction xs arbitrary: cs)
  case (Cons y ys)
  then obtain d ds where d: "f y = Inr d" "traverse f ys = Inr ds" "cs = d # ds" by (auto simp: and_then_eq_Inr)
  show ?case
  proof (cases "y = x")
    case True
    with Cons.prems(2) have "filter (\<lambda>p. fst p = x) (zip ys (map snd ds)) = []"
      by (auto simp: filter_empty_conv dest: set_zip_leftD)
    with d True Cons.prems(4) show ?thesis by simp
  next
    case False
    with Cons.IH[OF d(2)] Cons.prems d show ?thesis by simp
  qed
qed simp

lemma market_loaded:
  assumes f: "filed env tree by_key" "agrees tree bar_ms by_key selected" "pack_schemas env"
    and v: "validate_market by_key intervals bar_ms start_ts stop_ts (a, policy) = Inr (nf, nb, ns)"
    and i: "distinct intervals" "bar_ms \<in> set intervals"
  obtains m where "load_market (vf_depth env) selected (a, spec) = Inr (text_of a, m)" "md_spec m = spec"
    "ns = [length (md_trade m)]" "sound_market bar_ms start_ts stop_ts m" "(stop_ts - start_ts) mod bar_ms = 0"
proof -
  from v obtain funding fts counts where fu: "series_at by_key a 0 ''funding'' = Inr funding"
    "validate_funding_rows funding policy start_ts stop_ts = Inr fts"
    and tr: "traverse (validate_interval by_key a start_ts stop_ts) intervals = Inr counts"
    and ns: "ns = map snd (filter (\<lambda>p. fst p = bar_ms) (zip intervals (map snd counts)))"
    by (auto simp: validate_market_def and_then_eq_Inr)
  from tr i(2) have "\<exists>c. validate_interval by_key a start_ts stop_ts bar_ms = Inr c"
    using traverse_defined_iff[of "validate_interval by_key a start_ts stop_ts" intervals] by blast
  then obtain c where c: "validate_interval by_key a start_ts stop_ts bar_ms = Inr c" by blast
  then obtain trade mark index its mts tts us where s: "series_at by_key a bar_ms ''trade'' = Inr trade"
    "series_at by_key a bar_ms ''mark'' = Inr mark" "series_at by_key a bar_ms ''index'' = Inr index"
    "validate_bar_rows index = Inr its" "validate_bar_rows mark = Inr mts" "validate_bar_rows trade = Inr tts"
    "validate_bar_grid bar_ms tts mts its start_ts stop_ts = Inr us" "snd c = length (sr_rows trade)"
    by (auto simp: validate_interval_def and_then_eq_Inr)
  from s(7) have g: "mts = tts" "its = tts" "tts = py_range start_ts stop_ts bar_ms" "(stop_ts - start_ts) mod bar_ms = 0"
    by (auto simp: validate_bar_grid_def split: if_splits)
  note bt = bars_validated[OF s(6)] and bm = bars_validated[OF s(5)] and bi = bars_validated[OF s(4)]
    and pf = prints_validated[OF fu(2)]
  have iv: "sr_interval_ms trade = bar_ms" "sr_interval_ms mark = bar_ms" "sr_interval_ms index = bar_ms"
    using filedE[OF f(1) s(1)] filedE[OF f(1) s(2)] filedE[OF f(1) s(3)] by blast+
  let ?bars = "\<lambda>role s. map (bar_of a role (fst (file_of tree s))) (indexed (sr_rows s))"
  let ?m = "\<lparr>md_spec = spec, md_trade = ?bars ''trade'' trade, md_mark = ?bars ''mark'' mark,
    md_index = ?bars ''index'' index, md_funding = map (print_of a (fst (file_of tree funding))) (indexed (sr_rows funding))\<rparr>"
  have ts: "map br_ts (?bars r s) = map (\<lambda>d. int_of d ''ts'') (sr_rows s)" for r s using map_indexed[of "\<lambda>d. int_of d ''ts''"] by (simp add: comp_def)
  have fs: "map fd_ts (md_funding ?m) = fts"
    using map_indexed[of "\<lambda>d. int_of d ''ts''"] by (simp add: comp_def pf(1))
  have eq: "map br_ts (md_mark ?m) = map br_ts (md_trade ?m)" "map br_ts (md_index ?m) = map br_ts (md_trade ?m)"
    "map br_ts (md_trade ?m) = tts" using bt(1) bm(1) bi(1) g(1,2) ts by simp_all
  have len: "length (md_mark ?m) = length (md_trade ?m)" "length (md_index ?m) = length (md_trade ?m)"
    using eq(1,2)[THEN arg_cong, of length] by simp_all
  have load: "load_market (vf_depth env) selected (a, spec) = Inr (text_of a, ?m)"
    using eq len bt(2) pf(2) fs bars_chosen(1)[OF f(1-3) _ s(1)] bars_chosen(1)[OF f(1-3) _ s(2)]
      bars_chosen(1)[OF f(1-3) _ s(3)] prints_chosen(1)[OF f(1-3) fu(1)]
    unfolding load_market_def prod.case prints_chosen(2)[OF f(1-3) fu(1)] bars_chosen(2)[OF f(1-3) _ s(1), simplified]
      bars_chosen(2)[OF f(1-3) _ s(2), simplified] bars_chosen(2)[OF f(1-3) _ s(3), simplified]
    by (simp add: ROLES_def)
  have sound: "\<forall>r \<in> set (?bars role s). sound_bar_row bar_ms r \<and> pv_available_at (br_provenance r) = br_available_at r"
    if "\<forall>d \<in> set (sr_rows s). sound_bar bar_ms d" for role s
    using that by (auto simp: sound_bar_row_def sound_bar_def dest: set_indexed)
  have fr: "\<forall>r \<in> set (md_funding ?m). fd_available_at r = fd_ts r \<and> pv_available_at (fd_provenance r) = fd_available_at r"
    using pf(3) by (auto dest: set_indexed)
  have "sound_market bar_ms start_ts stop_ts ?m"
    using sound[OF bt(3)[unfolded iv], of "''trade''"] sound[OF bm(3)[unfolded iv], of "''mark''"]
      sound[OF bi(3)[unfolded iv], of "''index''"] eq g(3) fs pf(2) fr
    unfolding sound_market_def sound_rows_def ball_Un by simp
  moreover have "ns = [length (md_trade ?m)]"
    using decision_interval[OF tr i(1,2) c] s(8) by (simp add: ns indexed_def)
  ultimately show thesis using load g(4) that by simp
qed
section \<open>The same pack\<close>

lemma text_of_alias: "market_alias s \<Longrightarrow> text_of s = map char_of s"
proof -
  assume "market_alias s"
  then have "\<forall>c \<in> set s. c < 128" by (auto simp: market_alias_def list_all_iff)
  then have "concat (map utf8_units s) = s" by (induction s) (simp_all add: utf8_units_def)
  then show ?thesis by (simp add: text_of_def)
qed

lemma text_of_inject: "market_alias s \<Longrightarrow> market_alias t \<Longrightarrow> text_of s = text_of t \<Longrightarrow> s = t"
proof -
  assume s: "market_alias s" and t: "market_alias t" and eq: "text_of s = text_of t"
  have inv: "map (of_char :: char \<Rightarrow> nat) (text_of s) = s" if "market_alias s" for s
  proof -
    have "\<forall>c \<in> set s. (of_char (char_of c :: char) :: nat) = c" using that by (auto simp: market_alias_def list_all_iff)
    then show ?thesis by (simp add: text_of_alias[OF that] comp_def map_idI)
  qed
  from arg_cong[OF eq, of "map (of_char :: char \<Rightarrow> nat)"] inv[OF s] inv[OF t] show "s = t" by simp
qed

lemma strictly_sorted_distinct: "sort (remdups xs) = xs \<Longrightarrow> distinct xs"
  by (metis distinct_remdups distinct_sort)

lemma range_length:
  assumes "0 < step" "(b - a) mod step = (0::int)" "a < b"
  shows "int (length (py_range a b step)) * step = b - a"
proof -
  let ?q = "(b - a) div step"
  have q: "b - a = ?q * step" using assms(2) by (metis add.right_neutral mult.commute mult_div_mod_eq)
  then have "b - a + step - 1 = (step - 1) + ?q * step" by linarith
  then have "(b - a + step - 1) div step = ((step - 1) + ?q * step) div step" by presburger
  also have "\<dots> = ?q + (step - 1) div step" using assms(1) by (intro div_mult_self1) simp
  also have "(step - 1) div step = 0" using assms(1) by (intro div_pos_pos_trivial) simp_all
  finally have "(b - a + step - 1) div step = ?q" by simp
  moreover have "0 \<le> ?q" using assms(1,3) by (simp add: pos_imp_zdiv_nonneg_iff)
  ultimately show ?thesis using q assms(1) by (simp add: py_range_def)
qed

lemma policies_read:
  assumes "read_policies manifest = Inr policies"
  shows "\<exists>ms. uget manifest ''markets'' = JObj ms \<and> map fst policies = map fst (sort_key fst ms)"
proof -
  from assms obtain ms markets venue where m: "uget manifest ''markets'' = JObj ms"
    "traverse (\<lambda>(a, v). and_then (va_object v) (\<lambda>d. Inr (a, d))) (sort_key fst ms) = Inr markets"
    "traverse (\<lambda>(a, d). and_then (funding_policy venue d) (\<lambda>p. Inr (a, p))) markets = Inr policies"
    by (auto simp: read_policies_def and_then_eq_Inr va_reads)
  have "map fst ys = map fst xs" if "traverse (\<lambda>(a, v). and_then (f v) (\<lambda>d. Inr (a, d))) xs = Inr ys"
    for f :: "'x \<Rightarrow> 'y result" and xs :: "('z \<times> 'x) list" and ys
    using that by (induction xs arbitrary: ys) (auto simp: and_then_eq_Inr)
  from this[OF m(2)] have "map fst markets = map fst (sort_key fst ms)" .
  moreover have "map fst policies = map fst markets"
    using m(3) by (induction markets arbitrary: policies) (auto simp: and_then_eq_Inr)
  ultimately show ?thesis using m(1) by simp
qed

lemma specs_read:
  assumes "\<forall>(a, v) \<in> set ms. case v of JObj m \<Rightarrow> descriptor_schema m | _ \<Rightarrow> False"
  shows "\<exists>specs. traverse (\<lambda>(a, v). and_then (and_then (pk_object v) (market_spec a)) (\<lambda>spec. Inr (a, spec))) ms = Inr specs
    \<and> map fst specs = map fst ms"
  using assms
proof (induction ms)
  case (Cons p ms)
  obtain a v where p: "p = (a, v)" by (cases p)
  from Cons.prems p obtain m where m: "v = JObj m" "descriptor_schema m" by (auto split: json.splits)
  from spec_read[OF m(2), of a] obtain spec where "market_spec a m = Inr spec" by blast
  with Cons m show ?case by (auto simp: p pk_object_def)
qed simp
lemma clock_in_window:
  assumes "bars_total p = Inr bars" "turn < bars" "(a, m) \<in> set (pk_markets p)" "0 < pk_decision_bar_ms p"
    and "sound_market (pk_decision_bar_ms p) (pk_window_start_ts p) (pk_window_end_ts p) m"
    and "(pk_window_end_ts p - pk_window_start_ts p) mod pk_decision_bar_ms p = 0"
    and "pk_window_start_ts p < pk_window_end_ts p" "distinct (map fst (pk_markets p))"
  shows "\<exists>t. clock_real_ts p turn = Inr t"
proof -
  let ?ms = "pk_decision_bar_ms p"
  have "map_of (pk_markets p) a = Some m" using assms(3,8) by simp
  from bars_total_bound(2)[OF assms(1) this] have le: "pk_warmup_bars p + bars + 1 \<le> length (md_trade m)" .
  from assms(5) have "length (map br_ts (md_trade m)) = length (py_range (pk_window_start_ts p) (pk_window_end_ts p) ?ms)"
    by (simp only: sound_market_def)
  with range_length[OF assms(4,6,7)] have n: "int (length (md_trade m)) * ?ms = pk_window_end_ts p - pk_window_start_ts p"
    by simp
  have "(int (pk_warmup_bars p) + int turn + 1) * ?ms \<le> int (length (md_trade m)) * ?ms"
    using le assms(2,4) by (intro mult_right_mono) linarith+
  with n have "pk_window_start_ts p + (int (pk_warmup_bars p) + int turn + 1) * ?ms \<le> pk_window_end_ts p" by linarith
  then show ?thesis using assms(1,2) by (auto simp: clock_real_ts_eq)
qed

lemma markets_loaded:
  assumes f: "filed env tree by_key" "agrees tree bar_ms by_key selected" "pack_schemas env"
    and i: "distinct intervals" "bar_ms \<in> set intervals"
    and v: "traverse (validate_market by_key intervals bar_ms start_ts stop_ts) policies = Inr counts"
    and n: "map fst policies = map fst specs"
  shows "\<exists>markets. traverse (load_market (vf_depth env) selected) specs = Inr markets \<and>
    map fst markets = map (text_of \<circ> fst) specs \<and>
    (\<forall>(a, m) \<in> set markets. sound_market bar_ms start_ts stop_ts m \<and> (stop_ts - start_ts) mod bar_ms = 0) \<and>
    concat (map (\<lambda>(_, _, ns). ns) counts) = map (\<lambda>(_, m). length (md_trade m)) markets"
  using v n
proof (induction policies arbitrary: specs counts)
  case (Cons p ps)
  obtain a policy where p: "p = (a, policy)" by (cases p)
  from Cons.prems(2) p obtain spec ss where s: "specs = (a, spec) # ss" "map fst ps = map fst ss" by (cases specs) auto
  from Cons.prems(1) obtain c cs where c: "validate_market by_key intervals bar_ms start_ts stop_ts p = Inr c"
    "traverse (validate_market by_key intervals bar_ms start_ts stop_ts) ps = Inr cs" "counts = c # cs"
    by (auto simp: and_then_eq_Inr)
  obtain nf nb ns where cc: "c = (nf, nb, ns)" by (cases c)
  obtain m where m: "load_market (vf_depth env) selected (a, spec) = Inr (text_of a, m)"
    "ns = [length (md_trade m)]" "sound_market bar_ms start_ts stop_ts m" "(stop_ts - start_ts) mod bar_ms = 0"
    by (rule market_loaded[OF f c(1)[unfolded p cc] i])
  obtain ms where "traverse (load_market (vf_depth env) selected) ss = Inr ms" "map fst ms = map (text_of \<circ> fst) ss"
    "\<forall>(a, m) \<in> set ms. sound_market bar_ms start_ts stop_ts m \<and> (stop_ts - start_ts) mod bar_ms = 0"
    "concat (map (\<lambda>(_, _, ns). ns) cs) = map (\<lambda>(_, m). length (md_trade m)) ms"
    using Cons.IH[OF c(2) s(2)] by blast
  with m c(3) s(1) cc show ?case by (intro exI[of _ "(text_of a, m) # ms"]) auto
qed auto

lemma pk_values [simp]:
  "pk_object (JObj m) = Inr m" "pk_array (JArr xs) = Inr xs" "pk_str (JStr t) = Inr t"
  "pk_int (JInt n) (Some k) = (if n < k then Inl (PackError ''must be >='') else Inr n)"
  by (simp_all add: pk_object_def pk_array_def pk_str_def pk_int_def)

theorem accepted_pack_loads:
  assumes "validate_pack env tree = Inr receipt" "pack_schemas env"
  shows "\<exists>pack. load_pack (vf_depth env) root_path tree True = Inr pack \<and> sound_sources pack \<and>
    (\<forall>(a, m) \<in> set (pk_markets pack).
       sound_market (pk_decision_bar_ms pack) (pk_window_start_ts pack) (pk_window_end_ts pack) m) \<and>
    bars_total pack = Inr (nat (pvr_actionable_bars receipt)) \<and>
    (\<forall>turn < nat (pvr_actionable_bars receipt). \<exists>t. clock_real_ts pack turn = Inr t) \<and>
    pk_content_hash pack = text_of (pvr_content_hash receipt)"
proof -
  from assms(1) obtain manifest start_ts stop_ts intervals bar_ms entries ss content policies by_key counts warmup pack_id
    where man: "read_manifest env tree = Inr manifest" and win: "read_window manifest = Inr (start_ts, stop_ts)"
    and int: "read_intervals manifest = Inr (intervals, bar_ms)" and ent: "read_entries manifest = Inr entries"
    and ser: "traverse (read_series env tree) entries = Inr ss"
    and con: "check_content_hash manifest entries = Inr content" and pol: "read_policies manifest = Inr policies"
    and key: "fold_result (add_series (map fst policies) intervals) ss [] = Inr by_key"
    and cnt: "traverse (validate_market by_key intervals bar_ms start_ts stop_ts) policies = Inr counts"
    and wup: "uget manifest ''warmup_bars'' = JInt warmup" and pid: "uget manifest ''pack_id'' = JStr pack_id"
    and dec: "pvr_content_hash receipt = content"
      "pvr_actionable_bars receipt = int (Min (set (concat (map (\<lambda>(_, _, ns). ns) counts)))) - warmup - 1"
      "int (Min (set (concat (map (\<lambda>(_, _, ns). ns) counts)))) - warmup - 1 \<ge> 1"
    by (auto simp: validate_pack_def and_then_eq_Inr va_reads Let_def
        simp del: set_concat set_map concat_eq_Nil_conv split: if_split_asm)
  from man obtain raw u where m: "read_bytes tree (top ''manifest.json'') = Inr raw"
    "va_decode (vf_depth env) raw = Inr (JObj manifest)" "vf_schema env ''pack_manifest'' (JObj manifest)"
    "va_canonical ''MANIFEST_CANONICAL'' manifest raw = Inr u"
    by (auto simp: read_manifest_def and_then_eq_Inr va_reads va_schema_def split: sum.splits if_splits)
  have decode: "pack_decode (vf_depth env) raw = Inr (JObj manifest)"
    using decode_canonical(2)[OF m(2)[unfolded va_decode_def] canonical_checked[OF m(4)]] by (simp add: pack_decode_def)
  have sch: "manifest_schema manifest" using m(3) assms(2) by (simp add: pack_schemas_def)
  obtain ms where ms: "uget manifest ''markets'' = JObj ms" "map fst policies = map fst (sort_key fst ms)"
    using policies_read[OF pol] by blast
  have obj: "object_of manifest ''markets'' = ms" using ms(1) by (simp add: object_of_def)
  have mk: "ms \<noteq> []" "\<forall>(a, v) \<in> set ms. market_alias a \<and> (case v of JObj m \<Rightarrow> descriptor_schema m | _ \<Rightarrow> False)"
    using sch by (auto simp: manifest_schema_def obj list_all_iff)
  obtain specs where sp: "traverse (\<lambda>(a, v). and_then (and_then (pk_object v) (market_spec a)) (\<lambda>spec. Inr (a, spec)))
      (sort_key fst ms) = Inr specs" "map fst specs = map fst (sort_key fst ms)"
    using specs_read[of "sort_key fst ms"] mk(2) by auto
  have names: "map fst policies = map fst specs" using ms(2) sp(2) by simp
  from int have iv: "distinct intervals" "bar_ms \<in> set intervals" "uget manifest ''decision_bar_ms'' = JInt bar_ms"
    using strictly_sorted_distinct by (auto simp: read_intervals_def and_then_eq_Inr va_reads split: if_splits)
  have bar: "1 \<le> bar_ms" "pk_int (uget manifest ''decision_bar_ms'') (Some 1) = Inr bar_ms"
    using sch iv(3) pk_reads(1)[of manifest 1 "''decision_bar_ms''"]
    by (auto simp: manifest_schema_def has_least_def int_of_def)
  from ent have en: "uget manifest ''files'' = JArr (map JObj entries)"
  proof -
    from ent obtain raws where r: "uget manifest ''files'' = JArr raws" "traverse va_object raws = Inr entries"
      by (auto simp: read_entries_def and_then_eq_Inr va_reads split: if_splits)
    from r(2) have "raws = map JObj entries"
      by (induction raws arbitrary: entries) (auto simp: and_then_eq_Inr va_reads)
    with r(1) show ?thesis by simp
  qed
  have es: "\<forall>e \<in> set entries. entry_schema (JObj e)"
    using sch en by (auto simp: manifest_schema_def array_of_def list_all_iff)
  have read: "list_all2 (\<lambda>e s. read_series env tree e = Inr s) entries ss"
    using traverse_length[OF ser] traverse_nth[OF ser] by (simp add: list_all2_conv_all_nth)
  have filed: "filed env tree by_key"
  proof (rule series_filed[OF key], rule ballI)
    fix s assume "s \<in> set ss"
    with traverse_set[OF ser] obtain e where "e \<in> set entries" "read_series env tree e = Inr s" by blast
    with es show "\<exists>entry. read_series env tree entry = Inr s \<and> has_least entry 0 ''bytes'' \<and> has_least entry 0 ''records''"
      by (force simp: entry_schema_def)
  qed
  have "agrees tree bar_ms [] []" by (simp add: agrees_def)
  from selection_made[OF read es key this] obtain selected where sel:
    "fold_result (select_file tree True (map fst specs) bar_ms) (map JObj entries) [] = Inr selected"
    "agrees tree bar_ms by_key selected" unfolding names by blast
  obtain markets where mkt: "traverse (load_market (vf_depth env) selected) specs = Inr markets"
    "map fst markets = map (text_of \<circ> fst) specs"
    "\<forall>(a, m) \<in> set markets. sound_market bar_ms start_ts stop_ts m \<and> (stop_ts - start_ts) mod bar_ms = 0"
    "concat (map (\<lambda>(_, _, ns). ns) counts) = map (\<lambda>(_, m). length (md_trade m)) markets"
    using markets_loaded[OF filed sel(2) assms(2) iv(1,2) cnt names] by blast
  from win obtain window where w: "uget manifest ''window'' = JObj window" "uget window ''start_ts'' = JInt start_ts"
    "uget window ''end_ts'' = JInt stop_ts" "start_ts < stop_ts"
    by (auto simp: read_window_def and_then_eq_Inr va_reads split: if_splits)
  have wi: "pk_int (uget window ''start_ts'') (Some 0) = Inr start_ts" "pk_int (uget window ''end_ts'') (Some 0) = Inr stop_ts"
    using sch w by (auto simp: manifest_schema_def object_of_def has_least_def int_of_def pk_int_def)
  from con have ch: "uget manifest ''content_hash'' = JStr content"
    by (auto simp: check_content_hash_def and_then_eq_Inr va_reads split: if_splits)
  have wu: "0 \<le> warmup" using sch wup by (simp add: manifest_schema_def has_least_def int_of_def)
  let ?d = "object_of manifest ''default_lookback''"
  have lb: "uget manifest ''default_lookback'' = JObj ?d" "has_least ?d 1 ''bars''" "has_least ?d 0 ''funding_prints''"
    using sch by (simp_all add: manifest_schema_def has_objectE)
  have "\<exists>l. make_EffectiveLookback (int_of ?d ''bars'') (int_of ?d ''funding_prints'') = Inr l"
    using lb(2,3) by (simp add: make_EffectiveLookback_def required_int_def has_least_def)
  then obtain lookback where lk: "make_EffectiveLookback (int_of ?d ''bars'') (int_of ?d ''funding_prints'') = Inr lookback"
    by blast
  let ?pack = "\<lparr>pk_root = text_of root_path, pk_pack_id = text_of pack_id, pk_content_hash = text_of content,
          pk_window_start_ts = start_ts, pk_window_end_ts = stop_ts, pk_decision_bar_ms = bar_ms,
          pk_warmup_bars = nat warmup, pk_default_lookback = lookback, pk_markets = markets,
          pk_manifest = map (\<lambda>(k, v). (text_of k, map_json text_of v)) manifest\<rparr>"
  have load: "load_pack (vf_depth env) root_path tree True = Inr ?pack"
    using m(1) decode sch mk(1) w(4) wu
    by (simp add: load_pack_def ms(1) bar(2) sp(1) en sel(1) mkt(1) w(1) lb(1) wi pid ch wup
        pk_reads(1)[OF lb(2)] pk_reads(1)[OF lb(3)] lk manifest_schema_def)
  have dis: "distinct (map fst markets)"
  proof -
    have "shaped (vf_depth env) (JObj manifest)"
      using decode_canonical(1)[OF m(2)[unfolded va_decode_def] canonical_checked[OF m(4)]] .
    from shaped_member(1)[OF this ms(1)] have "distinct (map fst ms)" by (rule shaped_distinct)
    then have "distinct (map fst specs)" unfolding sp(2) by (simp add: distinct_map inj_on_def)
    moreover have "\<forall>a \<in> fst ` set specs. market_alias a"
      using arg_cong[OF sp(2), of set] mk(2) by auto
    then have "inj_on text_of (fst ` set specs)" using text_of_inject by (intro inj_onI) blast
    ultimately show ?thesis unfolding mkt(2) by (simp add: distinct_map comp_inj_on_iff image_comp)
  qed
  have rows: "\<forall>(a, m) \<in> set markets. sound_market bar_ms start_ts stop_ts m" "\<forall>(a, m) \<in> set markets. sound_rows m"
    using mkt(3) by (auto simp: sound_market_def)
  have ne: "markets \<noteq> []"
    using arg_cong[OF mkt(2), of length] arg_cong[OF sp(2), of length] mk(1) by auto
  have total: "bars_total ?pack = Inr (nat (pvr_actionable_bars receipt))"
    using ne dec(2,3) wu by (simp add: bars_total_def mkt(4) Let_def)
  obtain a m where am: "(a, m) \<in> set markets" using ne by (cases markets) auto
  have "\<exists>t. clock_real_ts ?pack turn = Inr t" if "turn < nat (pvr_actionable_bars receipt)" for turn
    by (rule clock_in_window[OF total that, of a m]) (use am mkt(3) bar(1) w(4) dis in auto)
  then show ?thesis using load rows dis total dec(1) by (auto simp: sound_sources_def)
qed

end
