(* ===== verification/Sample_Pack.thy ===== *)
theory Sample_Pack
  imports Pack_Accepted
begin

text \<open>
  A pack that the gate accepts: one market with two hourly bars, which carries one actionable turn. Its
  documents are written with their keys in canonical order.
\<close>

section \<open>Documents in canonical order\<close>

definition keyed :: "(string \<times> ustring json) list \<Rightarrow> ustring jobject" where
  "keyed kvs = map (\<lambda>(k, v). (ascii k, v)) kvs"

lemma keyed_simps [simp]: "keyed [] = []" "keyed ((k, v) # kvs) = (ascii k, v) # keyed kvs"
  by (simp_all add: keyed_def)

lemma keyed_get: "uget (keyed kvs) k = (case map_of kvs k of Some v \<Rightarrow> v | None \<Rightarrow> JNull)"
  by (induction kvs) auto

lemma ascii_key: "member_key (ascii k, v) = concat (map (\<lambda>c. [0, of_char c]) k)"
proof -
  have c: "scalar_value (of_char c)" "utf16_units (of_char c) = [of_char c]" "of_char c div 256 = (0::nat)"
    "of_char c mod 256 = (of_char c :: nat)" for c :: char
    using nat_of_char_less_256[of c] by (auto simp: scalar_value_def is_surrogate_def utf16_units_def simp del: nat_of_char_less_256)
  have "list_all scalar_value (ascii k)"
    "concat (map (\<lambda>u. [u div 256, u mod 256]) (concat (map utf16_units (ascii k)))) = concat (map (\<lambda>c. [0, of_char c]) k)"
    by (induction k) (simp_all add: ascii_simps c del: of_char_mod_256)
  then show ?thesis by (simp add: member_key_def utf16_be_encode_def)
qed

lemma ascii_key_mono: "k \<le> k' \<Longrightarrow> concat (map (\<lambda>c. [0, of_char c]) k) \<le> (concat (map (\<lambda>c. [0, of_char c]) k') :: nat list)"
proof (induction k arbitrary: k')
  case (Cons c k)
  then obtain c' k'' where "k' = c' # k''" by (cases k') auto
  with Cons show ?case by (auto simp: less_char_def)
qed simp

lemma keyed_sorted:
  assumes "sorted (map fst kvs)" shows "sort_key member_key (keyed kvs) = keyed kvs"
proof (rule sort_key_id_if_sorted)
  show "sorted (map member_key (keyed kvs))"
    using assms ascii_key_mono by (induction kvs) (auto simp: ascii_key keyed_def)
qed

lemma keyed_canonical:
  assumes "sorted (map fst kvs)" "\<forall>kv \<in> set kvs. canonical_form (snd kv) = snd kv"
  shows "canonical_form (JObj (keyed kvs)) = JObj (keyed kvs)"
proof -
  have "canonical_members (keyed kvs) = keyed kvs" using assms(2) by (induction kvs) auto
  with keyed_sorted[OF assms(1)] show ?thesis by simp
qed

lemma array_canonical: "\<forall>x \<in> set xs. canonical_form x = x \<Longrightarrow> canonical_form (JArr xs) = JArr xs"
  by (induction xs) auto

lemma keyed_decoded:
  assumes "canonical_bytes (JObj d) = Inr raw" "canonical_form (JObj d) = JObj d" "shaped depth (JObj d)"
  shows "va_decode depth raw = Inr (JObj d)"
proof -
  from canonical_bytes_eq_Inr[OF assms(1)] obtain t where t: "encode_json (JObj d) = Inr t" "utf8_encode t = Some raw"
    by blast
  from loads_encoded[OF t(1) _ _ refusing_keeps[OF raising_refuses], of depth] assms(2,3)
  show ?thesis by (auto simp: va_decode_def decode_raising_def utf8_roundtrip[OF t(2)] shaped_def)
qed

section \<open>Lengths of canonical encodings\<close>

lemma length_units: "length (concat (map utf8_units t)) \<le> 4 * length t"
  by (induction t) (auto simp: utf8_units_def)

lemma length_encode_string: "length (encode_string s) \<le> 2 + 6 * length s"
proof -
  have "length (escape_char c) \<le> 6" for c by (simp add: escape_char_def hex4_def)
  then have "length (concat (map escape_char s)) \<le> 6 * length s"
    by (induction s) (simp_all add: add_le_mono)
  then show ?thesis by (simp add: encode_string_def)
qed

lemma length_show_int: assumes "\<bar>n\<bar> < 10 ^ 9" shows "length (show_int n) \<le> 10"
proof -
  have "length (show_nat (nat \<bar>n\<bar>)) \<le> 9" using assms by (intro length_show_nat_le) auto
  then show ?thesis by (cases "n < 0") (simp_all add: show_int_def abs_if)
qed

lemma length_join_commas: "length (join_commas ps) \<le> sum_list (map (\<lambda>p. length p + 1) ps)"
proof -
  have "length (concat (map (\<lambda>q. 44 # q) qs)) = sum_list (map (\<lambda>p. length p + 1) qs)" for qs :: "ustring list"
    by (induction qs) simp_all
  then show ?thesis by (cases ps) (simp_all add: join_commas_def)
qed

text \<open>A flat object of small integers has a short encoding.\<close>

lemma length_flat:
  assumes "canonical_bytes (JObj d) = Inr bs" "\<forall>kv \<in> set d. length (fst kv) \<le> 12 \<and> (\<exists>n. snd kv = JInt n \<and> \<bar>n\<bar> < 10 ^ 9)"
  shows "length bs \<le> 8 + 4 * (90 * length d)"
proof -
  from assms(1) obtain t where t: "encode_json (JObj d) = Inr t" "bs = map of_nat (concat (map utf8_units t))"
    by (auto simp: canonical_bytes_def and_then_eq_Inr utf8_encode_def split: option.splits if_splits)
  from t(1) obtain sm parts where s: "sort_members (encode_members d) = Inr sm"
    "traverse (\<lambda>(k, e). and_then e (\<lambda>t. Inr (encode_string k @ [58] @ t))) sm = Inr parts"
    "t = [123] @ join_commas parts @ [125]" by (auto simp: and_then_eq_Inr)
  have sm: "length sm = length d" "\<forall>m \<in> set sm. \<exists>kv \<in> set d. m = (fst kv, encode_json (snd kv))"
    using sort_members_eq[OF s(1)] by (auto simp: encode_members_map case_prod_beta)
  have part: "length p + 1 \<le> 90" if p: "p \<in> set parts" for p
  proof -
    from traverse_set[OF s(2) p] sm(2) obtain kv x where kv: "kv \<in> set d" "encode_json (snd kv) = Inr x"
      "p = encode_string (fst kv) @ [58] @ x" by (force simp: and_then_eq_Inr)
    with assms(2) obtain n where n: "length (fst kv) \<le> 12" "snd kv = JInt n" "\<bar>n\<bar> < 10 ^ 9" by blast
    with kv(2) have "x = ascii (show_int n)" by (auto split: if_splits)
    with length_show_int[OF n(3)] length_encode_string[of "fst kv"] n(1) kv(3) show ?thesis by simp
  qed
  have "sum_list (map (\<lambda>p. length p + 1) parts) \<le> sum_list (map (\<lambda>_. 90) parts)"
    using part by (intro sum_list_mono)
  also have "\<dots> = 90 * length d" using traverse_length[OF s(2)] sm(1) by (simp add: sum_list_triv)
  finally have "length t \<le> 2 + 90 * length d" using length_join_commas[of parts] s(3) by simp
  with length_units[of t] t(2) show ?thesis by simp
qed
section \<open>The pack\<close>

definition SAMPLE_BAR :: "int \<Rightarrow> ustring jobject" where
  "SAMPLE_BAR ts = keyed [(''available_at'', JInt (ts + 3600000)), (''c'', JInt 100), (''h'', JInt 101),
     (''l'', JInt 99), (''o'', JInt 100), (''ts'', JInt ts), (''v_base_1e8'', JInt 5)]"

definition SAMPLE_BARS :: "byte list" where
  "SAMPLE_BARS = (case (canonical_bytes (JObj (SAMPLE_BAR 0)), canonical_bytes (JObj (SAMPLE_BAR 3600000))) of
     (Inr a, Inr b) \<Rightarrow> lines_of [a, b] | _ \<Rightarrow> [])"

definition sample_entry :: "string \<Rightarrow> int \<Rightarrow> string \<Rightarrow> int \<Rightarrow> byte list \<Rightarrow> ustring jobject" where
  "sample_entry role interval_ms schema n raw = keyed
     [(''bytes'', JInt (int (length raw))), (''interval_ms'', JInt interval_ms), (''market'', utext ''X''),
      (''path'', utext role), (''records'', JInt n), (''role'', utext role), (''row_schema'', utext schema),
      (''sha256'', utext (sha256_prefixed raw)),
      (''upstream'', JArr [JObj (keyed [(''url'', utext ''https://data.binance.vision/data/x.zip'')])])]"

definition SAMPLE_ENTRIES :: "ustring jobject list" where
  "SAMPLE_ENTRIES = sample_entry ''funding'' 0 ''funding_row/v1'' 0 [] #
     map (\<lambda>role. sample_entry role 3600000 ''bar_row/v1'' 2 SAMPLE_BARS) [''index'', ''mark'', ''trade'']"

definition SAMPLE_MARKET :: "ustring jobject" where
  "SAMPLE_MARKET = keyed
     [(''execution'', JObj (keyed [(''cost_profile_multipliers_1e4'', JObj (keyed [(''primary'', JInt 10000)])),
         (''half_spread_1e8'', JInt 0), (''impact_coeff_1e8'', JInt 0), (''impact_model'', utext ''sqrt''),
         (''participation_cap_1e8'', JInt 1)])),
      (''fees'', JObj (keyed [(''maker_rate_1e8'', JInt 0), (''taker_rate_1e8'', JInt 0)])),
      (''funding'', JObj (keyed [(''cap_1e8'', JInt 0), (''floor_1e8'', JInt 0), (''interval_ms'', JInt 43200000),
         (''settlement_offsets_ms'', JArr [JInt 21600000, JInt 64800000])])),
      (''instrument'', utext ''v:X''), (''leverage_cap_lev_1e4'', JInt 1),
      (''margin'', JObj (keyed [(''liquidation_penalty_1e8'', JInt 0),
         (''tiers'', JArr [JObj (keyed [(''initial_rate_1e8'', JInt 2), (''maintenance_rate_1e8'', JInt 1),
            (''notional_cap_micro'', JInt 1)])])])),
      (''min_notional_micro'', JInt 0), (''qty_step_base_1e8'', JInt 1), (''tick_size_micro'', JInt 1)]"

definition sample_manifest :: "string \<Rightarrow> ustring jobject" where
  "sample_manifest content = keyed
     [(''bar_intervals_ms'', JArr [JInt 3600000]), (''content_hash'', utext content),
      (''decision_bar_ms'', JInt 3600000),
      (''default_lookback'', JObj (keyed [(''bars'', JInt 1), (''funding_prints'', JInt 0)])),
      (''files'', JArr (map JObj SAMPLE_ENTRIES)), (''markets'', JObj (keyed [(''X'', JObj SAMPLE_MARKET)])),
      (''pack_id'', utext ''sample''), (''schema'', utext ''pack_manifest/v1''), (''venue'', utext ''v''),
      (''warmup_bars'', JInt 0), (''window'', JObj (keyed [(''end_ts'', JInt 7200000), (''start_ts'', JInt 0)]))]"

definition PACK_VERIFIER :: verifier where
  "PACK_VERIFIER = \<lparr>vf_depth = 8, vf_schema = (\<lambda>name v. case v of
     JObj d \<Rightarrow> if name = ''pack_manifest'' then manifest_schema d
              else if name = ''bar_row'' then bar_row_schema d else funding_row_schema d
   | _ \<Rightarrow> False)\<rparr>"

definition sample_tree :: "byte list \<Rightarrow> node" where
  "sample_tree manifest = Dir [(ascii ''manifest.json'', File manifest), (ascii ''funding'', File []),
     (ascii ''index'', File SAMPLE_BARS), (ascii ''mark'', File SAMPLE_BARS), (ascii ''trade'', File SAMPLE_BARS)]"

lemma sample_pack_schemas: "pack_schemas PACK_VERIFIER"
  by (simp add: pack_schemas_def PACK_VERIFIER_def)
section \<open>The gate accepts it\<close>

lemma sample_bar_row:
  assumes "ts \<in> {0, 3600000}"
  obtains bs where "canonical_bytes (JObj (SAMPLE_BAR ts)) = Inr bs" "10 \<notin> set bs" "length bs \<le> 2528"
    "read_row PACK_VERIFIER ''bar_row'' bs = Inr (SAMPLE_BAR ts)"
proof -
  have "hashable (JObj (SAMPLE_BAR ts))"
    using assms by (auto simp: SAMPLE_BAR_def keyed_def MAX_SAFE_INT_def scalar_value_def is_surrogate_def)
  then obtain bs where bs: "canonical_bytes (JObj (SAMPLE_BAR ts)) = Inr bs" using canonical_defined by blast
  have len: "length bs \<le> 8 + 4 * (90 * length (SAMPLE_BAR ts))"
    by (rule length_flat[OF bs]) (use assms in \<open>auto simp: SAMPLE_BAR_def\<close>)
  have form: "canonical_form (JObj (SAMPLE_BAR ts)) = JObj (SAMPLE_BAR ts)"
    unfolding SAMPLE_BAR_def by (rule keyed_canonical) (simp_all add: less_char_def)
  have shape: "shaped 8 (JObj (SAMPLE_BAR ts))"
    using assms by (auto simp: SAMPLE_BAR_def keyed_def shaped_def)
  have schema: "bar_row_schema (SAMPLE_BAR ts)"
    using assms by (auto simp: bar_row_schema_def SAMPLE_BAR_def keyed_get has_least_def has_int_def int_of_def)
  have "read_row PACK_VERIFIER ''bar_row'' bs = Inr (SAMPLE_BAR ts)"
    using keyed_decoded[OF bs form shape] schema
    by (simp add: read_row_def PACK_VERIFIER_def va_schema_def va_canonical_def bs va_object_def)
  moreover have "length bs \<le> 2528" using len by (simp add: SAMPLE_BAR_def)
  ultimately show thesis using that bs canonical_no_newline[OF bs] by blast
qed
lemma object_bytes_not_empty: "canonical_bytes (JObj d) = Inr bs \<Longrightarrow> bs \<noteq> []"
  by (auto simp: canonical_bytes_def and_then_eq_Inr utf8_encode_def utf8_units_def split: option.splits if_splits)

lemma sample_bars:
  "lines_of (split_on 10 (butlast SAMPLE_BARS)) = SAMPLE_BARS" "SAMPLE_BARS \<noteq> []" "last SAMPLE_BARS = 10"
  "length SAMPLE_BARS \<le> 10000" "[] \<notin> set (split_on 10 (butlast SAMPLE_BARS))"
  "length (split_on 10 (butlast SAMPLE_BARS)) = 2"
  "traverse (read_row PACK_VERIFIER ''bar_row'') (split_on 10 (butlast SAMPLE_BARS)) = Inr [SAMPLE_BAR 0, SAMPLE_BAR 3600000]"
proof -
  obtain a where a: "canonical_bytes (JObj (SAMPLE_BAR 0)) = Inr a" "10 \<notin> set a" "length a \<le> 2528"
    "read_row PACK_VERIFIER ''bar_row'' a = Inr (SAMPLE_BAR 0)" by (rule sample_bar_row[of 0]) simp_all
  obtain b where b: "canonical_bytes (JObj (SAMPLE_BAR 3600000)) = Inr b" "10 \<notin> set b" "length b \<le> 2528"
    "read_row PACK_VERIFIER ''bar_row'' b = Inr (SAMPLE_BAR 3600000)" by (rule sample_bar_row[of 3600000]) simp_all
  have bars: "SAMPLE_BARS = (a @ 10 # b) @ [10]" by (simp add: SAMPLE_BARS_def a(1) b(1))
  have cut: "split_on 10 (butlast SAMPLE_BARS) = [a, b]"
    unfolding bars butlast_snoc split_on_join split_on_whole[OF a(2)] split_on_whole[OF b(2)] by simp
  from cut object_bytes_not_empty[OF a(1)] object_bytes_not_empty[OF b(1)]
  show "[] \<notin> set (split_on 10 (butlast SAMPLE_BARS))" by simp
  show "lines_of (split_on 10 (butlast SAMPLE_BARS)) = SAMPLE_BARS" unfolding cut unfolding bars by simp
  show "SAMPLE_BARS \<noteq> []" "last SAMPLE_BARS = 10" unfolding bars by simp_all
  show "length SAMPLE_BARS \<le> 10000" unfolding bars using a(3) b(3) by simp
  show "length (split_on 10 (butlast SAMPLE_BARS)) = 2" by (simp add: cut)
  show "traverse (read_row PACK_VERIFIER ''bar_row'') (split_on 10 (butlast SAMPLE_BARS)) = Inr [SAMPLE_BAR 0, SAMPLE_BAR 3600000]"
    by (simp add: cut a(4) b(4))
qed
definition sample_series :: "string \<Rightarrow> int \<Rightarrow> ustring jobject list \<Rightarrow> series" where
  "sample_series role interval_ms rows =
     \<lparr>sr_path = ascii role, sr_market = ascii ''X'', sr_role = ascii role, sr_interval_ms = interval_ms, sr_rows = rows\<rparr>"

lemma sample_path:
  "role \<in> {''index'', ''mark'', ''trade''} \<Longrightarrow> safe_series_path (sample_tree mb) (ascii role) = Inr [ascii role]"
  "role \<in> {''index'', ''mark'', ''trade''} \<Longrightarrow> read_bytes (sample_tree mb) [ascii role] = Inr SAMPLE_BARS"
  "safe_series_path (sample_tree mb) (ascii ''funding'') = Inr [ascii ''funding'']"
  "read_bytes (sample_tree mb) [ascii ''funding''] = Inr []"
  by (auto simp: safe_series_path_def resolve_path_def path_parts_def sample_tree_def is_symlink_def path_exists_def
      reach_def is_file_def read_bytes_def follow_def ascii_simps)

lemma sample_url: "validate_bulk_url (ascii ''https://data.binance.vision/data/x.zip'') = Inr ()"
  by (simp add: validate_bulk_url_def clean_url_def
      split_scheme_def split_netloc_def ascii_alpha_def ascii_lower_def BINANCE_BULK_HOST_def ascii_simps)

lemma sample_upstream:
  "check_upstream (JObj [(ascii ''url'', JStr (ascii ''https://data.binance.vision/data/x.zip''))]) = Inr ()"
  by (simp add: check_upstream_def va_object_def va_str_def sample_url)

lemma sample_entry_read:
  assumes "role \<in> {''index'', ''mark'', ''trade''}"
  shows "read_series PACK_VERIFIER (sample_tree mb) (sample_entry role 3600000 ''bar_row/v1'' 2 SAMPLE_BARS)
    = Inr (sample_series role 3600000 [SAMPLE_BAR 0, SAMPLE_BAR 3600000])"
proof -
  have "ascii role \<noteq> ascii ''funding''" using assms by auto
  then show ?thesis
    using assms by (simp add: read_series_def sample_entry_def keyed_get va_str_def va_int_def va_array_def utext_def
      sample_path sample_bars sample_upstream sample_series_def del: insert_iff)
qed

lemma sample_funding_read:
  "read_series PACK_VERIFIER (sample_tree mb) (sample_entry ''funding'' 0 ''funding_row/v1'' 0 [])
    = Inr (sample_series ''funding'' 0 [])"
  by (simp add: read_series_def sample_entry_def keyed_get va_str_def va_int_def va_array_def utext_def
      sample_path sample_upstream sample_series_def)
lemmas canonical_orders = less_char_def utext_def keyed_canonical array_canonical

lemma sample_entry_facts:
  assumes "0 \<le> interval_ms" "interval_ms \<le> 3600000" "0 \<le> n" "n \<le> 2" "length raw \<le> 10000"
  shows "hashable (JObj (sample_entry role interval_ms schema n raw))"
    "canonical_form (JObj (sample_entry role interval_ms schema n raw)) = JObj (sample_entry role interval_ms schema n raw)"
    "dict_like (JObj (sample_entry role interval_ms schema n raw))"
    "nesting (JObj (sample_entry role interval_ms schema n raw)) = 3"
proof -
  show "hashable (JObj (sample_entry role interval_ms schema n raw))"
    using assms by (simp add: sample_entry_def utext_def MAX_SAFE_INT_def)
  show "canonical_form (JObj (sample_entry role interval_ms schema n raw)) = JObj (sample_entry role interval_ms schema n raw)"
    unfolding sample_entry_def
    by (rule keyed_canonical) (simp_all add: canonical_orders del: keyed_simps canonical_form.simps(1,2))
  show "dict_like (JObj (sample_entry role interval_ms schema n raw))"
    "nesting (JObj (sample_entry role interval_ms schema n raw)) = 3"
    by (simp_all add: sample_entry_def utext_def)
qed

lemma sample_entries:
  assumes "e \<in> set SAMPLE_ENTRIES"
  shows "hashable (JObj e)" "canonical_form (JObj e) = JObj e" "dict_like (JObj e)" "nesting (JObj e) = 3"
    "entry_schema (JObj e)"
proof -
  from assms obtain role interval_ms schema n raw where e: "e = sample_entry role interval_ms schema n raw"
    "role \<in> set ROLES" "0 \<le> interval_ms" "interval_ms \<le> 3600000" "0 \<le> n" "n \<le> 2" "length raw \<le> 10000"
    using sample_bars(4) by (auto simp: SAMPLE_ENTRIES_def ROLES_def)
  show "hashable (JObj e)" "canonical_form (JObj e) = JObj e" "dict_like (JObj e)" "nesting (JObj e) = 3"
    using sample_entry_facts[OF e(3-7)] e(1) by simp_all
  show "entry_schema (JObj e)"
    using e by (auto simp: entry_schema_def sample_entry_def keyed_get has_least_def has_int_def int_of_def ROLES_def utext_def)
qed

lemma sample_market_facts:
  "hashable (JObj SAMPLE_MARKET)" "canonical_form (JObj SAMPLE_MARKET) = JObj SAMPLE_MARKET"
  "dict_like (JObj SAMPLE_MARKET)" "nesting (JObj SAMPLE_MARKET) = 4" "descriptor_schema SAMPLE_MARKET"
proof -
  show "hashable (JObj SAMPLE_MARKET)" "dict_like (JObj SAMPLE_MARKET)" "nesting (JObj SAMPLE_MARKET) = 4"
    by (simp_all add: SAMPLE_MARKET_def utext_def MAX_SAFE_INT_def)
  show "canonical_form (JObj SAMPLE_MARKET) = JObj SAMPLE_MARKET"
    unfolding SAMPLE_MARKET_def
    by (rule keyed_canonical) (simp_all add: canonical_orders del: keyed_simps canonical_form.simps(1,2))
  show "descriptor_schema SAMPLE_MARKET"
    by (simp add: descriptor_schema_def SAMPLE_MARKET_def has_object_def object_of_def has_array_def array_of_def
        tier_schema_def int_at_least_def has_least_def has_int_def int_of_def utext_def)
qed
lemma sample_manifest_facts:
  "hashable (JObj (sample_manifest content))"
  "canonical_form (JObj (sample_manifest content)) = JObj (sample_manifest content)"
  "shaped 8 (JObj (sample_manifest content))" "manifest_schema (sample_manifest content)"
proof -
  have items: "hashable_items (map JObj SAMPLE_ENTRIES)" "dict_like_items (map JObj SAMPLE_ENTRIES)"
    "nesting_items (map JObj SAMPLE_ENTRIES) \<le> 3" "list_all entry_schema (map JObj SAMPLE_ENTRIES)"
    "\<forall>x \<in> set (map JObj SAMPLE_ENTRIES). canonical_form x = x"
    using sample_entries by (auto simp: hashable_items_iff dict_like_items_iff list_all_iff SAMPLE_ENTRIES_def sample_entry_facts sample_bars)
  note market = sample_market_facts
  have x: "market_alias (ascii ''X'')" by (simp add: market_alias_def ascii_simps)
  show "hashable (JObj (sample_manifest content))"
    using items(1) market(1) by (simp add: sample_manifest_def utext_def MAX_SAFE_INT_def)
  show "canonical_form (JObj (sample_manifest content)) = JObj (sample_manifest content)"
    unfolding sample_manifest_def
    by (rule keyed_canonical) (use items(5) market(2) in \<open>simp_all add: canonical_orders del: keyed_simps canonical_form.simps(1,2)\<close>)
  show "shaped 8 (JObj (sample_manifest content))"
    using items(2,3) market(3,4) by (simp add: sample_manifest_def shaped_def utext_def)
  show "manifest_schema (sample_manifest content)"
    using items(4) market(5) x
    by (simp add: manifest_schema_def sample_manifest_def has_str_def has_least_def has_int_def int_of_def has_object_def
        object_of_def array_of_def utext_def)
qed

lemma sample_manifest_read:
  assumes "canonical_bytes (JObj (sample_manifest content)) = Inr raw"
  shows "read_manifest PACK_VERIFIER (sample_tree raw) = Inr (sample_manifest content)"
proof -
  have "read_bytes (sample_tree raw) (top ''manifest.json'') = Inr raw"
    by (simp add: read_bytes_def reach_def sample_tree_def follow_def top_def)
  moreover have "va_decode 8 raw = Inr (JObj (sample_manifest content))"
    by (rule keyed_decoded[OF assms]) (rule sample_manifest_facts)+
  ultimately show ?thesis
    using sample_manifest_facts(4)[of content]
    by (simp add: read_manifest_def va_object_def va_schema_def va_canonical_def assms PACK_VERIFIER_def)
qed

lemma sample_manifest_parts:
  "read_window (sample_manifest content) = Inr (0, 7200000)"
  "read_intervals (sample_manifest content) = Inr ([3600000], 3600000)"
  "uget (sample_manifest content) ''warmup_bars'' = JInt 0"
  "uget (sample_manifest content) ''pack_id'' = utext ''sample''"
  "uget (sample_manifest content) ''content_hash'' = utext content"
  by (simp_all add: sample_manifest_def read_window_def read_intervals_def va_object_def va_int_def va_array_def)

lemma sample_entries_read: "read_entries (sample_manifest content) = Inr SAMPLE_ENTRIES"
proof -
  have "traverse va_object (map JObj es) = Inr es" for es by (induction es) (simp_all add: va_object_def)
  moreover have "uget (sample_manifest content) ''files'' = JArr (map JObj SAMPLE_ENTRIES)"
    by (simp add: sample_manifest_def)
  moreover have "traverse (\<lambda>entry. va_str (uget entry ''path'')) SAMPLE_ENTRIES =
      Inr (map ascii [''funding'', ''index'', ''mark'', ''trade''])"
    by (simp add: SAMPLE_ENTRIES_def sample_entry_def utext_def va_str_def)
  ultimately show ?thesis by (simp add: read_entries_def va_array_def ascii_simps)
qed
definition SAMPLE_POLICY :: FundingPolicy where
  "SAMPLE_POLICY = \<lparr>fp_interval_ms = 43200000, fp_settlement_offsets_ms = [21600000, 64800000],
     fp_floor_1e8 = 0, fp_cap_1e8 = 0\<rparr>"

lemma sample_policies: "read_policies (sample_manifest content) = Inr [(ascii ''X'', SAMPLE_POLICY)]"
proof -
  have clock: "check_settlement_clock code 43200000 [21600000, 64800000] = Inr ()" for code
    by (simp add: check_settlement_clock_def cyclic_gaps_def UTC_DAY_MS_def)
  have "funding_policy (ascii ''v'') SAMPLE_MARKET = Inr SAMPLE_POLICY"
    by (simp add: funding_policy_def SAMPLE_MARKET_def va_object_def va_array_def va_int_def va_str_def utext_def
        clock SAMPLE_POLICY_def)
  then show ?thesis
    by (simp add: read_policies_def sample_manifest_def va_object_def va_str_def utext_def)
qed

lemma sample_series_read:
  "traverse (read_series PACK_VERIFIER (sample_tree raw)) SAMPLE_ENTRIES =
     Inr (sample_series ''funding'' 0 [] #
       map (\<lambda>role. sample_series role 3600000 [SAMPLE_BAR 0, SAMPLE_BAR 3600000]) [''index'', ''mark'', ''trade''])"
  by (simp add: SAMPLE_ENTRIES_def sample_funding_read sample_entry_read)

definition SAMPLE_KEYS :: "(series_key \<times> series) list" where
  "SAMPLE_KEYS = map (\<lambda>role. ((ascii ''X'', ascii role, 3600000), sample_series role 3600000 [SAMPLE_BAR 0, SAMPLE_BAR 3600000]))
     [''trade'', ''mark'', ''index''] @ [((ascii ''X'', ascii ''funding'', 0), sample_series ''funding'' 0 [])]"

lemma sample_keys:
  "fold_result (add_series [ascii ''X''] [3600000]) (sample_series ''funding'' 0 [] #
       map (\<lambda>role. sample_series role 3600000 [SAMPLE_BAR 0, SAMPLE_BAR 3600000]) [''index'', ''mark'', ''trade'']) [] =
     Inr SAMPLE_KEYS"
  by (simp add: SAMPLE_KEYS_def add_series_def sample_series_def)

lemma sample_bar_rows:
  "validate_bar_rows (sample_series role 3600000 [SAMPLE_BAR 0, SAMPLE_BAR 3600000]) = Inr [0, 3600000]"
  by (simp add: validate_bar_rows_def strict_timestamp_order_def sample_series_def SAMPLE_BAR_def va_int_def check_bar_row_def)

lemma sample_market_valid:
  "validate_market SAMPLE_KEYS [3600000] 3600000 0 7200000 (ascii ''X'', SAMPLE_POLICY) = Inr (0, 6, [2])"
proof -
  have "series_at SAMPLE_KEYS (ascii ''X'') 0 ''funding'' = Inr (sample_series ''funding'' 0 [])"
    by (simp add: series_at_def SAMPLE_KEYS_def)
  moreover have "series_at SAMPLE_KEYS (ascii ''X'') 3600000 role =
      Inr (sample_series role 3600000 [SAMPLE_BAR 0, SAMPLE_BAR 3600000])" if "role \<in> {''trade'', ''mark'', ''index''}" for role
    using that by (auto simp: series_at_def SAMPLE_KEYS_def)
  moreover have "py_range 0 7200000 3600000 = [0, 3600000]" by (simp add: py_range_def upt_rec numeral_2_eq_2)
  moreover have "py_range 0 7200000 86400000 = [0]" by (simp add: py_range_def)
  then have "validate_funding_rows (sample_series ''funding'' 0 []) SAMPLE_POLICY 0 7200000 = Inr []"
    by (simp add: validate_funding_rows_def strict_timestamp_order_def sample_series_def expected_funding_timestamps_def
        UTC_DAY_MS_def SAMPLE_POLICY_def)
  moreover have "validate_mark_trade_divergence (sample_series ''trade'' 3600000 [SAMPLE_BAR 0, SAMPLE_BAR 3600000])
      (sample_series ''mark'' 3600000 [SAMPLE_BAR 0, SAMPLE_BAR 3600000]) = Inr ()"
    by (simp add: validate_mark_trade_divergence_def sample_series_def check_divergence_def SAMPLE_BAR_def va_int_def
        MARK_TRADE_MAX_DIVERGENCE_1E8_def)
  ultimately show ?thesis
    by (simp add: validate_market_def validate_interval_def sample_bar_rows validate_bar_grid_def) (simp add: sample_series_def)
qed

definition SAMPLE_RECEIPT :: "string \<Rightarrow> PackValidationResult" where
  "SAMPLE_RECEIPT content = \<lparr>pvr_pack_id = ascii ''sample'', pvr_content_hash = ascii content, pvr_files = 4,
     pvr_bar_rows = 6, pvr_funding_rows = 0, pvr_actionable_bars = 1\<rparr>"

lemma sample_pack_valid:
  obtains raw content where "validate_pack PACK_VERIFIER (sample_tree raw) = Inr (SAMPLE_RECEIPT content)"
proof -
  have p: "hashable (projection e)" if "e \<in> set SAMPLE_ENTRIES" for e
    using uget_hashable[OF sample_entries(1)[OF that]] by (simp add: projection_def)
  have "hashable (JObj [(ascii ''schema'', utext ''pack_content/v1''), (ascii ''files'', JArr (map projection SAMPLE_ENTRIES))])"
    using p by (auto simp: utext_def hashable_items_iff)
  then obtain bs where "canonical_bytes (JObj [(ascii ''schema'', utext ''pack_content/v1''),
      (ascii ''files'', JArr (map projection SAMPLE_ENTRIES))]) = Inr bs" using canonical_defined by blast
  then have content: "check_content_hash (sample_manifest (sha256_prefixed bs)) SAMPLE_ENTRIES = Inr (ascii (sha256_prefixed bs))"
    by (simp add: check_content_hash_def content_hash_def sample_manifest_parts va_str_def utext_def)
  obtain raw where "canonical_bytes (JObj (sample_manifest (sha256_prefixed bs))) = Inr raw"
    using canonical_defined sample_manifest_facts(1) by blast
  from sample_manifest_read[OF this]
  have "validate_pack PACK_VERIFIER (sample_tree raw) = Inr (SAMPLE_RECEIPT (sha256_prefixed bs))"
    by (simp add: validate_pack_def sample_manifest_parts sample_entries_read sample_series_read content sample_policies
        sample_keys[simplified] sample_market_valid va_int_def va_str_def utext_def)
      (simp add: SAMPLE_KEYS_def expected_key_def SAMPLE_RECEIPT_def)
  then show thesis by (rule that)
qed

end
