(* ===== verification/Pack_Content.thy ===== *)
theory Pack_Content
  imports Sample_Pack
begin

text \<open>
  The content hash of an accepted pack as a commitment: what it hashes, and that it determines the
  bytes of every declared file.
\<close>

section \<open>What an accepted pack declares\<close>

definition declared_bytes :: "node \<Rightarrow> ustring \<Rightarrow> byte list" where
  "declared_bytes tree relative =
     (case and_then (safe_series_path tree relative) (read_bytes tree) of Inr raw \<Rightarrow> raw | Inl _ \<Rightarrow> [])"

definition declared_entries :: "verifier \<Rightarrow> node \<Rightarrow> ustring jobject list" where
  "declared_entries env tree =
     (case and_then (read_manifest env tree) read_entries of Inr entries \<Rightarrow> entries | Inl _ \<Rightarrow> [])"

definition text_in :: "ustring json \<Rightarrow> ustring" where
  "text_in v = (case v of JStr s \<Rightarrow> s | _ \<Rightarrow> [])"

text \<open>The declared series files: relative path and bytes, in the order of the manifest.\<close>

definition pack_files :: "verifier \<Rightarrow> node \<Rightarrow> (ustring \<times> byte list) list" where
  "pack_files env tree =
     map (\<lambda>e. (text_in (uget e ''path''), declared_bytes tree (text_in (uget e ''path'')))) (declared_entries env tree)"

definition content_document :: "ustring jobject list \<Rightarrow> ustring jobject" where
  "content_document entries =
     [(ascii ''schema'', utext ''pack_content/v1''), (ascii ''files'', JArr (map projection entries))]"

text \<open>Everything that is hashed to compute the content hash of a pack: its files and the content document.\<close>

definition hashed_by_pack :: "verifier \<Rightarrow> node \<Rightarrow> byte list list" where
  "hashed_by_pack env tree =
     (case canonical_bytes (JObj (content_document (declared_entries env tree))) of Inr bs \<Rightarrow> [bs] | Inl _ \<Rightarrow> []) @
     map snd (pack_files env tree)"

lemma entry_declared:
  assumes "read_series env tree e = Inr s"
  shows "\<exists>p n k raw. raw = declared_bytes tree p \<and>
    projection e = JObj [(ascii ''path'', JStr p), (ascii ''sha256'', utext (sha256_prefixed raw)),
      (ascii ''bytes'', JInt n), (ascii ''records'', JInt k)]"
proof -
  from assms obtain path raw n k where "safe_series_path tree (sr_path s) = Inr path" "read_bytes tree path = Inr raw"
    "uget e ''path'' = JStr (sr_path s)" "uget e ''sha256'' = utext (sha256_prefixed raw)"
    "uget e ''bytes'' = JInt n" "uget e ''records'' = JInt k"
    by (auto simp: read_series_def and_then_eq_Inr va_reads Let_def utext_def split: if_split_asm)
  then show ?thesis by (auto simp: projection_def declared_bytes_def)
qed

text \<open>The stages of the gate that concern the content hash.\<close>

lemma accepted_content:
  assumes "validate_pack env tree = Inr receipt"
  obtains bs where "canonical_bytes (JObj (content_document (declared_entries env tree))) = Inr bs"
    "pvr_content_hash receipt = ascii (sha256_prefixed bs)"
    "\<forall>e \<in> set (declared_entries env tree). \<exists>s. read_series env tree e = Inr s"
proof -
  from assms obtain manifest entries ss content where m: "read_manifest env tree = Inr manifest"
    "read_entries manifest = Inr entries" "traverse (read_series env tree) entries = Inr ss"
    "check_content_hash manifest entries = Inr content" "pvr_content_hash receipt = content"
    by (auto simp: validate_pack_def and_then_eq_Inr va_reads Let_def
        simp del: set_concat set_map concat_eq_Nil_conv split: if_split_asm)
  have d: "declared_entries env tree = entries" using m(1,2) by (simp add: declared_entries_def)
  from m(4) obtain bs where "canonical_bytes (JObj (content_document entries)) = Inr bs"
    "content = ascii (sha256_prefixed bs)"
    by (auto simp: check_content_hash_def content_hash_def content_document_def and_then_eq_Inr split: if_splits)
  moreover have "\<forall>e \<in> set entries. \<exists>s. read_series env tree e = Inr s"
    using m(3) traverse_defined_iff[of "read_series env tree" entries] by blast
  ultimately show thesis using that m(5) d by simp
qed

lemma content_document_plain:
  assumes "\<forall>e \<in> set entries. \<exists>s. read_series env tree e = Inr s"
  shows "dict_like (JObj (content_document entries))"
proof -
  have "dict_like (projection e)" if "e \<in> set entries" for e
  proof -
    from assms that obtain s where "read_series env tree e = Inr s" by blast
    from entry_declared[OF this] show ?thesis by (auto simp: utext_def)
  qed
  then show ?thesis by (auto simp: content_document_def dict_like_items_iff utext_def)
qed

text \<open>One content document, the same declarations.\<close>

lemma same_document:
  assumes "canonical_form (JObj (content_document es)) = canonical_form (JObj (content_document es'))"
  shows "list_all2 (\<lambda>e e'. canonical_form (projection e) = canonical_form (projection e')) es es'"
proof -
  have "canonical_form (uget (content_document xs) ''files'') = uget (stored_form (content_document xs)) ''files''" for xs
    by (rule uget_stored[symmetric]) (simp add: content_document_def)
  with assms have "canonical_form (uget (content_document es) ''files'') = canonical_form (uget (content_document es') ''files'')"
    by (simp only: canonical_form_JObj json.inject)
  then have "map (\<lambda>e. canonical_form (projection e)) es = map (\<lambda>e. canonical_form (projection e)) es'"
    by (simp add: content_document_def canonical_items_map comp_def)
  then show ?thesis by (simp add: list_all2_conv_all_nth list_eq_iff_nth_eq)
qed

lemma same_projection:
  assumes "canonical_form (JObj d) = canonical_form (JObj d')" "distinct (map fst d)" "distinct (map fst d')"
  shows "canonical_form (uget d k) = canonical_form (uget d' k)"
  using assms uget_stored[OF assms(2), of k] uget_stored[OF assms(3), of k] by (simp only: canonical_form_JObj json.inject)

lemma entry_committed:
  assumes "read_series env tree e = Inr s" "read_series env tree' e' = Inr s'"
    and "canonical_form (projection e) = canonical_form (projection e')"
  shows "text_in (uget e ''path'') = text_in (uget e' ''path'')"
    "sha256_prefixed (declared_bytes tree (text_in (uget e ''path''))) =
     sha256_prefixed (declared_bytes tree' (text_in (uget e' ''path'')))"
proof -
  from entry_declared[OF assms(1)] obtain p n k where e: "projection e = JObj [(ascii ''path'', JStr p),
    (ascii ''sha256'', utext (sha256_prefixed (declared_bytes tree p))), (ascii ''bytes'', JInt n), (ascii ''records'', JInt k)]"
    by blast
  from entry_declared[OF assms(2)] obtain p' n' k' where e': "projection e' = JObj [(ascii ''path'', JStr p'),
    (ascii ''sha256'', utext (sha256_prefixed (declared_bytes tree' p'))), (ascii ''bytes'', JInt n'), (ascii ''records'', JInt k')]"
    by blast
  note same = same_projection[OF assms(3)[unfolded e e']]
  have "p = p'" using same[of "''path''"] by simp
  moreover have "sha256_prefixed (declared_bytes tree p) = sha256_prefixed (declared_bytes tree' p')"
    using same[of "''sha256''"] by (simp add: utext_def)
  moreover have "text_in (uget e ''path'') = p" "text_in (uget e' ''path'') = p'"
    using e e' by (simp_all add: projection_def text_in_def)
  ultimately show "text_in (uget e ''path'') = text_in (uget e' ''path'')"
    "sha256_prefixed (declared_bytes tree (text_in (uget e ''path''))) =
     sha256_prefixed (declared_bytes tree' (text_in (uget e' ''path'')))" by simp_all
qed

lemma content_commits:
  assumes "validate_pack env tree = Inr receipt" "validate_pack env tree' = Inr receipt'"
    and "pvr_content_hash receipt = pvr_content_hash receipt'"
  shows "pack_files env tree = pack_files env tree' \<or>
    collision_among sha256_prefixed (hashed_by_pack env tree) (hashed_by_pack env tree')"
proof (rule disjCI)
  assume none: "\<not> collision_among sha256_prefixed (hashed_by_pack env tree) (hashed_by_pack env tree')"
  obtain bs where b: "canonical_bytes (JObj (content_document (declared_entries env tree))) = Inr bs"
    "pvr_content_hash receipt = ascii (sha256_prefixed bs)"
    "\<forall>e \<in> set (declared_entries env tree). \<exists>s. read_series env tree e = Inr s" using assms(1) by (rule accepted_content)
  obtain bs' where b': "canonical_bytes (JObj (content_document (declared_entries env tree'))) = Inr bs'"
    "pvr_content_hash receipt' = ascii (sha256_prefixed bs')"
    "\<forall>e \<in> set (declared_entries env tree'). \<exists>s. read_series env tree' e = Inr s" using assms(2) by (rule accepted_content)
  have "sha256_prefixed bs = sha256_prefixed bs'" using assms(3) b(2) b'(2) by simp
  with none b(1) b'(1) have "bs = bs'" by (auto simp: collision_among_def hashed_by_pack_def)
  with canonical_bytes_identify[OF b(1) b'(1) content_document_plain[OF b(3)] content_document_plain[OF b'(3)]]
  have "canonical_form (JObj (content_document (declared_entries env tree))) =
      canonical_form (JObj (content_document (declared_entries env tree')))" by blast
  then have l: "list_all2 (\<lambda>e e'. canonical_form (projection e) = canonical_form (projection e'))
      (declared_entries env tree) (declared_entries env tree')" by (rule same_document)
  have "(text_in (uget e ''path''), declared_bytes tree (text_in (uget e ''path''))) =
      (text_in (uget e' ''path''), declared_bytes tree' (text_in (uget e' ''path'')))"
    if e: "e \<in> set (declared_entries env tree)" "e' \<in> set (declared_entries env tree')"
      "canonical_form (projection e) = canonical_form (projection e')" for e e'
  proof -
    obtain s s' where "read_series env tree e = Inr s" "read_series env tree' e' = Inr s'" using b(3) b'(3) e(1,2) by blast
    note c = entry_committed[OF this e(3)]
    have "declared_bytes tree (text_in (uget e ''path'')) \<in> set (hashed_by_pack env tree)"
      "declared_bytes tree' (text_in (uget e' ''path'')) \<in> set (hashed_by_pack env tree')"
      using e(1,2) by (auto simp: hashed_by_pack_def pack_files_def)
    with none c show ?thesis unfolding collision_among_def by blast
  qed
  then show "pack_files env tree = pack_files env tree'"
    using l unfolding pack_files_def by (auto simp: list_all2_conv_all_nth list_eq_iff_nth_eq)
qed
section \<open>The settlement clock\<close>

lemma sorted_list_nth_less:
  assumes "sort (remdups xs) = xs" "i < j" "j < length xs" shows "(xs ! i :: 'a :: linorder) < xs ! j"
proof -
  have "distinct (sort (remdups xs))" "sorted (sort (remdups xs))" by simp_all
  then have "distinct xs" "sorted xs" by (simp_all only: assms(1))
  then have "xs ! i \<le> xs ! j" "xs ! i \<noteq> xs ! j" using assms(2,3) by (auto simp: sorted_nth_mono nth_eq_iff_index_eq)
  then show ?thesis by simp
qed

lemma settlement_clock_steps:
  assumes clock: "check_settlement_clock code interval_ms offsets = Inr ()"
    and day: "\<forall>x \<in> set offsets. 0 \<le> x \<and> x < UTC_DAY_MS"
  shows "0 < interval_ms \<and> interval_ms dvd UTC_DAY_MS \<and> interval_ms \<noteq> UTC_DAY_MS \<and>
    offsets = map (\<lambda>i. hd offsets + int i * interval_ms) [0..<nat (UTC_DAY_MS div interval_ms)]"
proof -
  have sorted: "sort (remdups offsets) = offsets"
    using clock by (simp add: check_settlement_clock_def split: if_split_asm)
  have gap: "\<forall>g \<in> set (cyclic_gaps offsets). g = interval_ms"
    using clock by (simp add: check_settlement_clock_def split: if_split_asm)
  have c: "0 < interval_ms" "interval_ms dvd UTC_DAY_MS" "int (length offsets) = UTC_DAY_MS div interval_ms"
    using clock by (simp_all add: check_settlement_clock_def dvd_eq_mod_eq_0 split: if_split_asm)
  have cyc: "(offsets ! ((i + 1) mod length offsets) - offsets ! i) mod UTC_DAY_MS = interval_ms" if "i < length offsets" for i
    using gap that by (simp add: cyclic_gaps_def)
  have step: "offsets ! Suc i - offsets ! i = interval_ms" if "Suc i < length offsets" for i
  proof -
    have "0 \<le> offsets ! i" "offsets ! Suc i < UTC_DAY_MS" using day that by auto
    moreover have "offsets ! i < offsets ! Suc i" using sorted_list_nth_less[OF sorted, of i "Suc i"] that by simp
    ultimately have "(offsets ! Suc i - offsets ! i) mod UTC_DAY_MS = offsets ! Suc i - offsets ! i" by simp
    with cyc[of i] that show ?thesis by simp
  qed
  have at: "offsets ! i = hd offsets + int i * interval_ms" if "i < length offsets" for i
    using that
  proof (induction i)
    case (Suc i)
    with step[of i] show ?case by (simp add: algebra_simps)
  qed (simp add: hd_conv_nth)
  have len: "length offsets = nat (UTC_DAY_MS div interval_ms)" using c(3) by linarith
  with at have m: "offsets = map (\<lambda>i. hd offsets + int i * interval_ms) [0..<nat (UTC_DAY_MS div interval_ms)]"
    by (simp add: list_eq_iff_nth_eq)
  have n: "interval_ms \<noteq> UTC_DAY_MS"
  proof
    assume d: "interval_ms = UTC_DAY_MS"
    with c(3) have "length offsets = 1" by (simp add: UTC_DAY_MS_def)
    with cyc[of 0] d show False by (simp add: UTC_DAY_MS_def)
  qed
  show ?thesis by (intro conjI c(1,2) n m)
qed

lemma settlement_clock_accepts:
  assumes "0 < interval_ms" "interval_ms dvd UTC_DAY_MS" "interval_ms \<noteq> UTC_DAY_MS"
  shows "check_settlement_clock code interval_ms
    (map (\<lambda>i. first + int i * interval_ms) [0..<nat (UTC_DAY_MS div interval_ms)]) = Inr ()"
proof -
  obtain k where k: "UTC_DAY_MS = interval_ms * k" using assms(2) by blast
  have kpos: "UTC_DAY_MS div interval_ms = k" unfolding k using assms(1) by simp
  have "0 < k" using k assms(1) by (simp add: UTC_DAY_MS_def) (metis mult.commute zero_less_mult_pos zero_less_numeral)
  moreover have "k \<noteq> 1" using k assms(3) by auto
  ultimately have "1 < k" by simp
  define n where "n = nat k"
  have n: "1 < n" "k = int n" using \<open>1 < k\<close> by (auto simp: n_def)
  let ?xs = "map (\<lambda>i. first + int i * interval_ms) [0..<n]"
  have "sorted_wrt (<) ?xs" using assms(1) by (simp add: sorted_wrt_map sorted_wrt_upt)
  then have srt: "sort (remdups ?xs) = ?xs" by (simp add: strict_sorted_iff distinct_remdups_id sorted_sort_id)
  have small: "interval_ms < UTC_DAY_MS" using assms zdvd_imp_le[OF assms(2)] by (simp add: UTC_DAY_MS_def)
  have gap: "(?xs ! ((i + 1) mod n) - ?xs ! i) mod UTC_DAY_MS = interval_ms" if i: "i < n" for i
  proof (cases "i + 1 < n")
    case True
    then show ?thesis using i small assms(1) by (simp add: algebra_simps)
  next
    case False
    then have "i = n - 1" using i by simp
    then have "?xs ! ((i + 1) mod n) - ?xs ! i = interval_ms - UTC_DAY_MS"
      using n i by (simp add: k algebra_simps of_nat_diff)
    then show ?thesis using small assms(1) by simp
  qed
  have "check_settlement_clock code interval_ms ?xs = Inr ()"
    using srt assms(1,2) gap kpos n(2) unfolding check_settlement_clock_def cyclic_gaps_def
    by (auto simp: dvd_eq_mod_eq_0)
  then show ?thesis by (simp add: kpos n_def)
qed

end
