(* ===== verification/Pack_Properties.thy ===== *)
theory Pack_Properties
  imports Pack_Content
begin

text \<open>
  What the gate over built packs gives the rest of the program: a pack it accepts is loaded by the
  engine's loader and is sound for the engine and the observation builder, and its content hash stands
  for the bytes of its series.
\<close>

section \<open>Properties\<close>

text \<open>
  Property C5. What the gate accepts, the engine can run. When \<open>validate_pack\<close> returns a receipt,
  \<open>load_pack\<close> on the same directory returns a pack whose rows are strictly ordered and carry their own
  publication time, whose three price series sit on one grid that fills the window, which has exactly
  the actionable bars of the receipt, and whose clock is defined at every one of those turns.
\<close>

theorem validated_pack_loads:
  assumes "validate_pack env tree = Inr receipt" "pack_schemas env"
  shows "\<exists>pack. load_pack (vf_depth env) root_path tree True = Inr pack \<and> sound_sources pack \<and>
    (\<forall>(a, m) \<in> set (pk_markets pack).
       sound_market (pk_decision_bar_ms pack) (pk_window_start_ts pack) (pk_window_end_ts pack) m) \<and>
    bars_total pack = Inr (nat (pvr_actionable_bars receipt)) \<and>
    (\<forall>turn < nat (pvr_actionable_bars receipt). \<exists>t. clock_real_ts pack turn = Inr t) \<and>
    pk_content_hash pack = text_of (pvr_content_hash receipt)"
  by (rule accepted_pack_loads[OF assms])

theorem validated_pack_loads_witness:
  "\<exists>raw content pack. validate_pack PACK_VERIFIER (sample_tree raw) = Inr (SAMPLE_RECEIPT content) \<and>
    load_pack 8 [] (sample_tree raw) True = Inr pack \<and> sound_sources pack \<and> bars_total pack = Inr 1"
proof -
  obtain raw content where v: "validate_pack PACK_VERIFIER (sample_tree raw) = Inr (SAMPLE_RECEIPT content)"
    by (rule sample_pack_valid)
  have "vf_depth PACK_VERIFIER = 8" "nat (pvr_actionable_bars (SAMPLE_RECEIPT content)) = 1"
    by (simp_all add: PACK_VERIFIER_def SAMPLE_RECEIPT_def)
  with validated_pack_loads[OF v sample_pack_schemas, of "[]"] v show ?thesis by auto
qed

text \<open>
  Property C6. The content hash of a pack stands for its series. Two accepted packs with one content
  hash declare the same files, byte for byte and in the same order, or two different byte strings
  among those hashed to compute it have one SHA-256.
\<close>

theorem content_hash_binds_series:
  assumes "validate_pack env tree = Inr receipt" "validate_pack env tree' = Inr receipt'"
    and "pvr_content_hash receipt = pvr_content_hash receipt'"
  shows "pack_files env tree = pack_files env tree' \<or>
    collision_among sha256_prefixed (hashed_by_pack env tree) (hashed_by_pack env tree')"
  by (rule content_commits[OF assms])

theorem content_hash_binds_series_witness:
  "\<exists>raw content. validate_pack PACK_VERIFIER (sample_tree raw) = Inr (SAMPLE_RECEIPT content) \<and>
    (pack_files PACK_VERIFIER (sample_tree raw) = pack_files PACK_VERIFIER (sample_tree raw) \<or>
     collision_among sha256_prefixed (hashed_by_pack PACK_VERIFIER (sample_tree raw))
       (hashed_by_pack PACK_VERIFIER (sample_tree raw)))"
proof -
  obtain raw content where v: "validate_pack PACK_VERIFIER (sample_tree raw) = Inr (SAMPLE_RECEIPT content)"
    by (rule sample_pack_valid)
  from content_hash_binds_series[OF v v refl] v show ?thesis by blast
qed

text \<open>
  Property C7. The settlement clocks the gate accepts. With offsets inside one day, the check passes
  exactly when the offsets step by the interval from the first one through the whole day and the
  interval divides the day without being the day itself: a market that settles once a day, which the
  manifest schema allows and the messages of the check describe, never passes.
\<close>

theorem settlement_clock_exact:
  assumes "\<forall>x \<in> set offsets. 0 \<le> x \<and> x < UTC_DAY_MS"
  shows "check_settlement_clock code interval_ms offsets = Inr () \<longleftrightarrow>
    0 < interval_ms \<and> interval_ms dvd UTC_DAY_MS \<and> interval_ms \<noteq> UTC_DAY_MS \<and>
    offsets = map (\<lambda>i. hd offsets + int i * interval_ms) [0..<nat (UTC_DAY_MS div interval_ms)]"
  using settlement_clock_steps[OF _ assms] settlement_clock_accepts[of interval_ms code "hd offsets"] by metis

theorem settlement_clock_exact_witness:
  "check_settlement_clock ''FUNDING_INTERVAL'' 43200000 [21600000, 64800000] = Inr () \<and>
   check_settlement_clock ''FUNDING_INTERVAL'' UTC_DAY_MS [0] \<noteq> Inr ()"
proof -
  show ?thesis
    using settlement_clock_exact[of "[21600000, 64800000]" "''FUNDING_INTERVAL''" 43200000]
      settlement_clock_exact[of "[0]" "''FUNDING_INTERVAL''" UTC_DAY_MS]
    by (simp add: UTC_DAY_MS_def numeral_2_eq_2)
qed

end
