(* ===== verification/Compare.thy ===== *)
theory Compare
  imports Report_Evidence
begin

text \<open>
  Model of \<open>report/compare.py\<close> and \<open>report/score.py\<close>: the tier of a row against the surviving
  baselines of its pack, the rung of a pack, and the scoreboard. A score is kept in hundredths,
  as the source rounds it to two places.
\<close>

section \<open>Rows\<close>

record ComparisonRow =
  cr_pack :: ustring
  cr_agent :: ustring
  cr_verdict :: ustring
  cr_tier :: ustring
  cr_fills :: nat
  cr_max_dd_primary :: string
  cr_max_dd_stress_2x :: string
  cr_turnover_primary :: string
  cr_net_return_primary :: string
  cr_net_return_stress_2x :: string
  cr_net_return_primary_1e8 :: int
  cr_net_return_stress_2x_1e8 :: int
  cr_survival_verdict :: ustring
  cr_is_baseline :: bool
  cr_bundle_root :: string

definition metric_of :: "ustring jobject \<Rightarrow> string \<Rightarrow> int result" where
  "metric_of profile field = as_int (uget profile field)"

definition is_baseline :: "Evidence \<Rightarrow> bool" where
  "is_baseline ev \<longleftrightarrow>
     (case uget (ev_agent_manifest ev) ''inference_params'' of
        JObj params \<Rightarrow> uget params ''policy'' = utext ''constant-target'' | _ \<Rightarrow> False)"

definition dead :: "ustring \<Rightarrow> bool" where
  "dead survival_verdict \<longleftrightarrow>
     survival_verdict = ascii ''liquidated'' \<or> survival_verdict = ascii ''killed_flat''"

definition assign_tier ::
    "ustring \<Rightarrow> nat \<Rightarrow> bool \<Rightarrow> int \<Rightarrow> int \<Rightarrow> (int \<times> int) list \<Rightarrow> bool \<Rightarrow> ustring result" where
  "assign_tier survival_verdict fills baseline net_primary net_stress baseline_returns has_baselines =
     (if baseline then Inr EM_DASH
      else if dead survival_verdict then Inr (ascii ''NGMI'')
      else if survival_verdict \<noteq> ascii ''survived''
      then Inl (ReportError ''unknown survival verdict while tiering'')
      else if fills = 0 \<or> \<not> has_baselines then Inr EM_DASH
      else if list_all (\<lambda>(primary, _). net_primary > primary) baseline_returns
           \<and> list_all (\<lambda>(_, stress). net_stress > stress) baseline_returns
      then Inr (ascii ''GMI'') else Inr EM_DASH)"

definition row_of :: "Evidence \<Rightarrow> ComparisonRow result" where
  "row_of ev =
     and_then (execution_counts ev) (\<lambda>(fills, _).
     and_then (as_str (uget (ev_invariant ev) ''survival_verdict'')) (\<lambda>survival_verdict.
     and_then (rp_pack_id ev) (\<lambda>pack.
     and_then (agent_label ev) (\<lambda>agent.
     and_then (display_verdict ev) (\<lambda>verdict.
     and_then (metric_of (ev_primary ev) ''max_drawdown_1e8'') (\<lambda>dd.
     and_then (metric_of (ev_stress_2x ev) ''max_drawdown_1e8'') (\<lambda>dd_stress.
     and_then (metric_of (ev_primary ev) ''turnover_1e8'') (\<lambda>turnover.
     and_then (metric_of (ev_primary ev) ''net_return_1e8'') (\<lambda>net.
     and_then (metric_of (ev_stress_2x ev) ''net_return_1e8'') (\<lambda>net_stress.
     Inr \<lparr>cr_pack = pack, cr_agent = agent, cr_verdict = verdict, cr_tier = EM_DASH, cr_fills = fills,
       cr_max_dd_primary = percent (Some dd) False, cr_max_dd_stress_2x = percent (Some dd_stress) False,
       cr_turnover_primary = ratio turnover @ ''x'',
       cr_net_return_primary = percent (Some net) True,
       cr_net_return_stress_2x = percent (Some net_stress) True,
       cr_net_return_primary_1e8 = net, cr_net_return_stress_2x_1e8 = net_stress,
       cr_survival_verdict = survival_verdict, cr_is_baseline = is_baseline ev,
       cr_bundle_root = ev_bundle_root ev\<rparr>))))))))))"

section \<open>Tiers\<close>

text \<open>The returns of the baselines of a pack that survived: what a candidate has to beat.\<close>

definition surviving_returns :: "ComparisonRow list \<Rightarrow> ustring \<Rightarrow> (int \<times> int) list" where
  "surviving_returns rows pack =
     map (\<lambda>r. (cr_net_return_primary_1e8 r, cr_net_return_stress_2x_1e8 r))
       (filter (\<lambda>r. cr_is_baseline r \<and> cr_pack r = pack \<and> cr_survival_verdict r = ascii ''survived'') rows)"

definition packs_with_baselines :: "ComparisonRow list \<Rightarrow> ustring set" where
  "packs_with_baselines rows = set (map cr_pack (filter cr_is_baseline rows))"

definition tiered_row :: "ComparisonRow list \<Rightarrow> ComparisonRow \<Rightarrow> ComparisonRow result" where
  "tiered_row rows row =
     and_then (assign_tier (cr_survival_verdict row) (cr_fills row) (cr_is_baseline row)
                 (cr_net_return_primary_1e8 row) (cr_net_return_stress_2x_1e8 row)
                 (surviving_returns rows (cr_pack row)) (cr_pack row \<in> packs_with_baselines rows))
       (\<lambda>tier. Inr (row\<lparr>cr_tier := tier\<rparr>))"

definition tier_rows :: "ComparisonRow list \<Rightarrow> ComparisonRow list result" where
  "tier_rows rows = traverse (tiered_row rows) rows"

definition load_comparison_rows :: "verifier \<Rightarrow> node list \<Rightarrow> ComparisonRow list result" where
  "load_comparison_rows env bundles =
     (if length bundles < 2 then Inl (ReportError ''a comparison needs at least two bundles'')
      else
      and_then (traverse (\<lambda>b. and_then (load_evidence env b) row_of) bundles) tier_rows)"

text \<open>Rows by pack, in the order in which the packs first appear.\<close>

definition pack_groups :: "ComparisonRow list \<Rightarrow> (ustring \<times> ComparisonRow list) list" where
  "pack_groups rows =
     map (\<lambda>pack. (pack, filter (\<lambda>r. cr_pack r = pack) rows)) (rev (remdups (rev (map cr_pack rows))))"

section \<open>Scores\<close>

definition CATALOG_PACK_COUNT :: nat where "CATALOG_PACK_COUNT = 13"

record PackScore =
  ps_pack :: ustring
  ps_score :: nat
  ps_verdict :: ustring
  ps_tier :: ustring
  ps_fills :: nat
  ps_bundle_root :: string

record AgentScore =
  as_agent :: ustring
  as_wagmi_score :: nat
  as_packs_attempted :: nat
  as_pack_scores :: "PackScore list"

definition pack_score :: "ComparisonRow \<Rightarrow> nat result" where
  "pack_score row =
     (if dead (cr_survival_verdict row) then Inr 0
      else if cr_survival_verdict row \<noteq> ascii ''survived''
      then Inl (ReportError ''unknown survival verdict while scoring'')
      else if cr_fills row = 0 then Inr 25
      else if \<not> (cr_net_return_primary_1e8 row > 0 \<and> cr_net_return_stress_2x_1e8 row > 0) then Inr 50
      else if cr_tier row = ascii ''GMI'' then Inr 100
      else Inr 75)"

definition pack_score_entry :: "ComparisonRow \<Rightarrow> PackScore result" where
  "pack_score_entry row =
     and_then (pack_score row) (\<lambda>s.
     Inr \<lparr>ps_pack = cr_pack row, ps_score = s, ps_verdict = cr_verdict row, ps_tier = cr_tier row,
          ps_fills = cr_fills row, ps_bundle_root = cr_bundle_root row\<rparr>)"

definition score_row :: "ComparisonRow \<Rightarrow> PackScore list \<Rightarrow> PackScore list result" where
  "score_row row pack_scores =
     (if cr_pack row \<in> set (map ps_pack pack_scores)
      then Inl (ReportError ''more than one bundle for pack'')
      else and_then (pack_score_entry row) (\<lambda>entry. Inr (pack_scores @ [entry])))"

text \<open>
  \<open>round(total / 13, 2)\<close> in hundredths. The quotient by 13 is never half-way between two
  hundredths, so rounding to the nearest needs no tie rule.
\<close>

definition wagmi_score :: "nat \<Rightarrow> nat" where
  "wagmi_score total_score = (200 * total_score + CATALOG_PACK_COUNT) div (2 * CATALOG_PACK_COUNT)"

definition score_agent :: "ComparisonRow list \<Rightarrow> ustring \<Rightarrow> AgentScore result" where
  "score_agent candidates agent =
     and_then (fold_result score_row (filter (\<lambda>r. cr_agent r = agent) candidates) []) (\<lambda>pack_scores.
     Inr \<lparr>as_agent = agent, as_wagmi_score = wagmi_score (sum_list (map ps_score pack_scores)),
          as_packs_attempted = length pack_scores, as_pack_scores = pack_scores\<rparr>)"

text \<open>The order of the board: best score first, equal scores by name.\<close>

datatype board_rank = Board_rank nat ustring

instantiation board_rank :: linorder
begin

fun less_eq_board_rank :: "board_rank \<Rightarrow> board_rank \<Rightarrow> bool" where
  "less_eq_board_rank (Board_rank s a) (Board_rank t b) \<longleftrightarrow> t < s \<or> t = s \<and> a \<le> b"

definition less_board_rank :: "board_rank \<Rightarrow> board_rank \<Rightarrow> bool" where
  "less_board_rank x y \<longleftrightarrow> x \<le> y \<and> \<not> y \<le> x"

instance
proof
  fix x y z :: board_rank
  show "x < y \<longleftrightarrow> x \<le> y \<and> \<not> y \<le> x" by (rule less_board_rank_def)
  show "x \<le> x" by (cases x) simp
  show "x \<le> z" if "x \<le> y" "y \<le> z" using that by (cases x; cases y; cases z) auto
  show "x = y" if "x \<le> y" "y \<le> x" using that by (cases x; cases y) auto
  show "x \<le> y \<or> y \<le> x" by (cases x; cases y) auto
qed

end

definition rank_of :: "AgentScore \<Rightarrow> board_rank" where
  "rank_of a = Board_rank (as_wagmi_score a) (as_agent a)"

definition score_rows :: "ComparisonRow list \<Rightarrow> AgentScore list result" where
  "score_rows rows =
     (let candidates = filter (\<lambda>r. \<not> cr_is_baseline r) rows in
      if candidates = [] then Inl (ReportError ''no candidate rows to score'')
      else
      and_then (traverse (score_agent candidates) (sort (remdups (map cr_agent candidates)))) (\<lambda>scores.
      Inr (sort_key rank_of scores)))"

definition build_scoreboard :: "verifier \<Rightarrow> node list \<Rightarrow> AgentScore list result" where
  "build_scoreboard env bundles = and_then (load_comparison_rows env bundles) score_rows"

end
