(* ===== verification/Score_Properties.thy ===== *)
theory Score_Properties
  imports Compare Json_Roundtrip "HOL-Library.Multiset"
begin

text \<open>
  What a tier and a score mean, and that the board does not depend on the order in which the
  bundles are given.
\<close>

section \<open>Loops over permuted rows\<close>

lemma traverse_eq_map: "traverse f xs = Inr ys \<longleftrightarrow> map f xs = map Inr ys"
proof (induction xs arbitrary: ys)
  case Nil
  then show ?case by auto
next
  case (Cons x xs)
  then show ?case by (cases ys) (auto simp: and_then_eq_Inr)
qed

lemma traverse_defined: "traverse f xs = Inr ys \<Longrightarrow> x \<in> set xs \<Longrightarrow> \<exists>y. f x = Inr y"
  by (induction xs arbitrary: ys) (auto simp: and_then_eq_Inr)

lemma traverse_projr: "traverse f xs = Inr ys \<Longrightarrow> ys = map (projr \<circ> f) xs"
  by (induction xs arbitrary: ys) (auto simp: and_then_eq_Inr)

lemma traverse_permuted:
  assumes "traverse f xs = Inr ys" "mset xs = mset xs'"
  obtains ys' where "traverse f xs' = Inr ys'" "mset ys' = mset ys"
proof -
  let ?ys' = "map (projr \<circ> f) xs'"
  from assms(1) have m: "map f xs = map Inr ys" by (simp add: traverse_eq_map)
  have "set xs' = set xs" using assms(2) by (metis set_mset_mset)
  then have "\<forall>x \<in> set xs'. \<exists>y. f x = Inr y" using traverse_defined[OF assms(1)] by blast
  then have "map f xs' = map Inr ?ys'" by (auto simp: map_eq_conv)
  moreover have "mset ?ys' = mset ys"
  proof -
    have "mset ?ys' = image_mset projr (mset (map f xs))" by (simp add: assms(2) image_mset.compositionality)
    also have "\<dots> = mset ys" unfolding m by (simp add: image_mset.compositionality comp_def)
    finally show ?thesis .
  qed
  ultimately show thesis using that[of ?ys', unfolded traverse_eq_map] by blast
qed

lemma score_row_eq_Inr:
  "score_row r acc = Inr out \<longleftrightarrow> cr_pack r \<notin> set (map ps_pack acc) \<and>
     (\<exists>entry. pack_score_entry r = Inr entry \<and> out = acc @ [entry])"
  by (auto simp: score_row_def and_then_eq_Inr)

lemma score_rows_loop:
  "fold_result score_row rs acc = Inr out \<longleftrightarrow>
     (\<exists>ys. traverse pack_score_entry rs = Inr ys \<and> out = acc @ ys \<and>
        distinct (map cr_pack rs) \<and> set (map cr_pack rs) \<inter> set (map ps_pack acc) = {})"
proof (induction rs arbitrary: acc)
  case Nil
  then show ?case by auto
next
  case (Cons r rs)
  have p: "ps_pack y = cr_pack r" if "pack_score_entry r = Inr y" for y
    using that by (auto simp: pack_score_entry_def and_then_eq_Inr)
  show ?case
  proof (cases "pack_score_entry r")
    case (Inl e)
    then show ?thesis by (auto simp: and_then_eq_Inr score_row_eq_Inr)
  next
    case (Inr y)
    show ?thesis
      unfolding fold_result.simps and_then_eq_Inr score_row_eq_Inr Inr traverse.simps
      by (auto simp: Cons.IH p[OF Inr] simp del: set_map)
  qed
qed

section \<open>Tiers\<close>

lemma assign_tier_cong:
  "set xs = set ys \<Longrightarrow> assign_tier v fills bl p s xs has = assign_tier v fills bl p s ys has"
  by (simp add: assign_tier_def list_all_iff)

lemma tiered_row_permuted:
  assumes "mset rows = mset rows'"
  shows "tiered_row rows = tiered_row rows'"
proof
  fix r :: ComparisonRow
  have s: "set rows = set rows'" using assms by (metis set_mset_mset)
  have b: "set (surviving_returns rows (cr_pack r)) = set (surviving_returns rows' (cr_pack r))"
    by (simp add: surviving_returns_def s)
  have "packs_with_baselines rows = packs_with_baselines rows'"
    by (simp add: packs_with_baselines_def s)
  then show "tiered_row rows r = tiered_row rows' r"
    unfolding tiered_row_def by (simp only: assign_tier_cong[OF b])
qed

lemma tiered_row_keeps:
  assumes "tiered_row rows r = Inr t"
  shows "t = r\<lparr>cr_tier := cr_tier t\<rparr>"
  using assms by (auto simp: tiered_row_def and_then_eq_Inr)

lemma tier_rows_members:
  assumes "tier_rows rows = Inr tiered"
  shows "length tiered = length rows"
    "\<And>i. i < length rows \<Longrightarrow> tiered_row rows (rows ! i) = Inr (tiered ! i)"
  using traverse_length[OF assms[unfolded tier_rows_def]] traverse_nth[OF assms[unfolded tier_rows_def]]
  by simp_all

section \<open>The board\<close>

text \<open>What the board shows of an agent; the order of the packs in its receipt is left out.\<close>

definition standing :: "AgentScore \<Rightarrow> ustring \<times> nat \<times> nat" where
  "standing a = (as_agent a, as_wagmi_score a, as_packs_attempted a)"

lemma score_agent_permuted:
  assumes "score_agent rows agent = Inr a" "mset rows = mset rows'"
  obtains a' where "score_agent rows' agent = Inr a'" "standing a' = standing a"
    "mset (as_pack_scores a') = mset (as_pack_scores a)"
proof -
  let ?own = "filter (\<lambda>r. cr_agent r = agent)"
  from assms(1) obtain ys where ys: "traverse pack_score_entry (?own rows) = Inr ys"
    "distinct (map cr_pack (?own rows))"
    "a = \<lparr>as_agent = agent, as_wagmi_score = wagmi_score (sum_list (map ps_score ys)),
          as_packs_attempted = length ys, as_pack_scores = ys\<rparr>"
    by (auto simp: score_agent_def and_then_eq_Inr score_rows_loop)
  have m: "mset (?own rows) = mset (?own rows')" using assms(2) by simp
  obtain ys' where ys': "traverse pack_score_entry (?own rows') = Inr ys'" "mset ys' = mset ys"
    by (rule traverse_permuted[OF ys(1) m])
  have "mset (map cr_pack (?own rows')) = mset (map cr_pack (?own rows))" using m by simp
  then have "distinct (map cr_pack (?own rows'))" using ys(2) mset_eq_imp_distinct_iff by blast
  moreover have "sum_list (map ps_score ys') = sum_list (map ps_score ys)"
    by (metis ys'(2) mset_map sum_mset_sum_list)
  moreover have "length ys' = length ys" using ys'(2) by (rule mset_eq_length)
  ultimately show thesis
    using ys' ys(3)
    by (intro that[of "\<lparr>as_agent = agent, as_wagmi_score = wagmi_score (sum_list (map ps_score ys')),
          as_packs_attempted = length ys', as_pack_scores = ys'\<rparr>"])
       (simp_all add: score_agent_def score_rows_loop standing_def and_then_eq_Inr)
qed

lemma rank_of_standing: "rank_of = (\<lambda>(agent, s, _). Board_rank s agent) \<circ> standing"
  by (auto simp: rank_of_def standing_def)

lemma score_rows_permuted:
  assumes "score_rows rows = Inr board" "mset rows = mset rows'"
  obtains board' where "score_rows rows' = Inr board'" "map standing board' = map standing board"
proof -
  let ?c = "filter (\<lambda>r. \<not> cr_is_baseline r)"
  let ?agents = "\<lambda>rows. sort (remdups (map cr_agent (?c rows)))"
  from assms(1) obtain scores where s: "?c rows \<noteq> []"
    "traverse (score_agent (?c rows)) (?agents rows) = Inr scores" "board = sort_key rank_of scores"
    by (auto simp: score_rows_def Let_def and_then_eq_Inr split: if_splits)
  have m: "mset (?c rows) = mset (?c rows')" using assms(2) by simp
  then have ne: "?c rows' \<noteq> []" using s(1) by (metis mset_zero_iff)
  have "set (?c rows) = set (?c rows')" using m by (metis set_mset_mset)
  then have ag: "?agents rows' = ?agents rows" by (intro sorted_distinct_set_unique) auto
  have "\<forall>agent \<in> set (?agents rows). \<exists>a'. score_agent (?c rows') agent = Inr a' \<and>
      standing a' = standing (projr (score_agent (?c rows) agent))"
  proof
    fix agent assume "agent \<in> set (?agents rows)"
    then obtain i where i: "i < length (?agents rows)" "?agents rows ! i = agent"
      by (metis in_set_conv_nth)
    then have a: "score_agent (?c rows) agent = Inr (scores ! i)" using traverse_nth[OF s(2) i(1)] by simp
    obtain a' where "score_agent (?c rows') agent = Inr a'" "standing a' = standing (scores ! i)"
      by (rule score_agent_permuted[OF a m])
    with a show "\<exists>a'. score_agent (?c rows') agent = Inr a' \<and>
      standing a' = standing (projr (score_agent (?c rows) agent))" by simp
  qed
  then obtain f where f: "\<And>agent. agent \<in> set (?agents rows) \<Longrightarrow> score_agent (?c rows') agent = Inr (f agent) \<and>
      standing (f agent) = standing (projr (score_agent (?c rows) agent))" by metis
  let ?scores' = "map f (?agents rows)"
  have t: "traverse (score_agent (?c rows')) (?agents rows') = Inr ?scores'"
    unfolding ag traverse_eq_map using f by simp
  have "scores = map (projr \<circ> score_agent (?c rows)) (?agents rows)"
    by (rule traverse_projr[OF s(2)])
  then have st: "map standing ?scores' = map standing scores" using f by (simp del: set_sort)
  have key: "map standing (sort_key rank_of xs) = sort_key (\<lambda>(agent, s, _). Board_rank s agent) (map standing xs)" for xs
    unfolding rank_of_standing by (simp only: sort_key_map)
  show thesis
  proof (rule that)
    show "score_rows rows' = Inr (sort_key rank_of ?scores')"
      unfolding score_rows_def Let_def using ne t by simp
    show "map standing (sort_key rank_of ?scores') = map standing board"
      unfolding key st s(3) ..
  qed
qed

text \<open>
  The ladder as the documentation states it, over the rows of one pack: dead, sat out, engaged,
  engaged with a gain under both cost profiles, and above every surviving baseline as well.
\<close>

definition ladder :: "ComparisonRow set \<Rightarrow> ComparisonRow \<Rightarrow> nat" where
  "ladder peers r =
     (if dead (cr_survival_verdict r) then 0
      else if cr_fills r = 0 then 25
      else if cr_net_return_primary_1e8 r \<le> 0 \<or> cr_net_return_stress_2x_1e8 r \<le> 0 then 50
      else if (\<exists>b \<in> peers. cr_is_baseline b) \<and>
              (\<forall>b \<in> peers. cr_is_baseline b \<longrightarrow> cr_survival_verdict b = ascii ''survived'' \<longrightarrow>
                 cr_net_return_primary_1e8 b < cr_net_return_primary_1e8 r \<and>
                 cr_net_return_stress_2x_1e8 b < cr_net_return_stress_2x_1e8 r)
      then 100 else 75)"

lemma tier_names: "EM_DASH \<noteq> ascii ''GMI''" "ascii ''NGMI'' \<noteq> ascii ''GMI''"
  by (simp_all add: EM_DASH_def ascii_simps)

definition plain_row :: "nat \<Rightarrow> string \<Rightarrow> nat \<Rightarrow> int \<Rightarrow> bool \<Rightarrow> ComparisonRow" where
  "plain_row pack agent fills net baseline =
     \<lparr>cr_pack = [pack], cr_agent = ascii agent, cr_verdict = [], cr_tier = EM_DASH, cr_fills = fills,
      cr_max_dd_primary = [], cr_max_dd_stress_2x = [], cr_turnover_primary = [],
      cr_net_return_primary = [], cr_net_return_stress_2x = [], cr_net_return_primary_1e8 = net,
      cr_net_return_stress_2x_1e8 = net, cr_survival_verdict = ascii ''survived'',
      cr_is_baseline = baseline, cr_bundle_root = []\<rparr>"

lemmas row_eval = tier_rows_def tiered_row_def assign_tier_def surviving_returns_def
  packs_with_baselines_def plain_row_def dead_def EM_DASH_def ascii_simps

section \<open>Properties\<close>

text \<open>
  Property C39. The score of a candidate is the documented ladder: computed by way of the tier,
  the rung is the one the description of the ladder gives over the rows of the candidate's pack,
  so the top rung means a gain above every baseline that survived, under both cost profiles.
\<close>

theorem pack_score_is_ladder:
  assumes "tier_rows rows = Inr tiered" "r \<in> set tiered" "\<not> cr_is_baseline r"
  shows "pack_score r = Inr (ladder {b \<in> set rows. cr_pack b = cr_pack r} r)"
proof -
  from assms(1,2) obtain i where i: "i < length rows" "r = tiered ! i"
    using tier_rows_members(1)[OF assms(1)] by (auto simp: in_set_conv_nth)
  let ?q = "rows ! i"
  have t: "tiered_row rows ?q = Inr r" using tier_rows_members(2)[OF assms(1) i(1)] i(2) by simp
  then obtain tier where tier: "assign_tier (cr_survival_verdict ?q) (cr_fills ?q) (cr_is_baseline ?q)
      (cr_net_return_primary_1e8 ?q) (cr_net_return_stress_2x_1e8 ?q)
      (surviving_returns rows (cr_pack ?q)) (cr_pack ?q \<in> packs_with_baselines rows) = Inr tier"
    and r: "r = ?q\<lparr>cr_tier := tier\<rparr>" by (auto simp: tiered_row_def and_then_eq_Inr)
  have has: "cr_pack ?q \<in> packs_with_baselines rows \<longleftrightarrow>
      (\<exists>b \<in> {b \<in> set rows. cr_pack b = cr_pack ?q}. cr_is_baseline b)"
    unfolding packs_with_baselines_def by (auto intro: rev_image_eqI)
  have beats: "list_all (\<lambda>(p, _). x > p) (surviving_returns rows (cr_pack ?q)) \<and>
      list_all (\<lambda>(_, s). y > s) (surviving_returns rows (cr_pack ?q)) \<longleftrightarrow>
      (\<forall>b \<in> {b \<in> set rows. cr_pack b = cr_pack ?q}. cr_is_baseline b \<longrightarrow>
         cr_survival_verdict b = ascii ''survived'' \<longrightarrow>
         cr_net_return_primary_1e8 b < x \<and> cr_net_return_stress_2x_1e8 b < y)" for x y
    by (auto simp: surviving_returns_def list_all_iff)
  have base: "\<not> cr_is_baseline ?q" using assms(3) by (simp add: r)
  have surv: "dead (cr_survival_verdict ?q) \<or> cr_survival_verdict ?q = ascii ''survived''"
    using tier base by (auto simp: assign_tier_def split: if_splits)
  show ?thesis
  proof (cases "dead (cr_survival_verdict ?q)")
    case True
    then show ?thesis by (simp add: pack_score_def ladder_def r)
  next
    case False
    with surv have s: "cr_survival_verdict ?q = ascii ''survived''" by blast
    have "tier = ascii ''GMI'' \<longleftrightarrow> cr_fills ?q \<noteq> 0 \<and> cr_pack ?q \<in> packs_with_baselines rows \<and>
        list_all (\<lambda>(p, _). cr_net_return_primary_1e8 ?q > p) (surviving_returns rows (cr_pack ?q)) \<and>
        list_all (\<lambda>(_, s). cr_net_return_stress_2x_1e8 ?q > s) (surviving_returns rows (cr_pack ?q))"
      using tier base False s tier_names by (auto simp: assign_tier_def split: if_splits)
    with False s show ?thesis
      unfolding has beats by (auto simp: pack_score_def ladder_def r)
  qed
qed

theorem pack_score_is_ladder_witness:
  "\<exists>tiered. tier_rows [plain_row 0 ''a'' 1 5 False, plain_row 0 ''b'' 1 3 True] = Inr tiered \<and>
     hd tiered \<in> set tiered \<and> \<not> cr_is_baseline (hd tiered) \<and>
     pack_score (hd tiered) = Inr (ladder {b \<in> set [plain_row 0 ''a'' 1 5 False, plain_row 0 ''b'' 1 3 True].
       cr_pack b = cr_pack (hd tiered)} (hd tiered))"
proof -
  have t: "tier_rows [plain_row 0 ''a'' 1 5 False, plain_row 0 ''b'' 1 3 True]
      = Inr [(plain_row 0 ''a'' 1 5 False)\<lparr>cr_tier := ascii ''GMI''\<rparr>, plain_row 0 ''b'' 1 3 True]"
    by (simp add: row_eval)
  show ?thesis
    using t pack_score_is_ladder[OF t, of "(plain_row 0 ''a'' 1 5 False)\<lparr>cr_tier := ascii ''GMI''\<rparr>"]
    by (simp add: plain_row_def)
qed

text \<open>
  Property C38. The scoreboard does not depend on the order of the bundles: rows in another
  order give the same agents with the same scores and the same number of packs, in the same
  order on the board.
\<close>

theorem scoreboard_order_independent:
  assumes "and_then (tier_rows rows) score_rows = Inr board" "mset rows = mset rows'"
  shows "\<exists>board'. and_then (tier_rows rows') score_rows = Inr board' \<and>
    map standing board' = map standing board"
proof -
  from assms(1) obtain tiered where t: "tier_rows rows = Inr tiered" "score_rows tiered = Inr board"
    by (auto simp: and_then_eq_Inr)
  obtain tiered' where t': "traverse (tiered_row rows) rows' = Inr tiered'" "mset tiered' = mset tiered"
    by (rule traverse_permuted[OF t(1)[unfolded tier_rows_def] assms(2)])
  from t'(1) have "tier_rows rows' = Inr tiered'"
    unfolding tier_rows_def tiered_row_permuted[OF assms(2)] .
  moreover obtain board' where "score_rows tiered' = Inr board'" "map standing board' = map standing board"
    by (rule score_rows_permuted[OF t(2) t'(2)[symmetric]])
  ultimately show ?thesis by simp
qed

theorem scoreboard_order_independent_witness:
  "\<exists>board. and_then (tier_rows [plain_row 0 ''a'' 1 5 False, plain_row 0 ''b'' 1 3 False]) score_rows
      = Inr board \<and>
    (\<exists>board'. and_then (tier_rows [plain_row 0 ''b'' 1 3 False, plain_row 0 ''a'' 1 5 False]) score_rows
      = Inr board' \<and> map standing board' = map standing board)"
proof -
  have "\<exists>board. and_then (tier_rows [plain_row 0 ''a'' 1 5 False, plain_row 0 ''b'' 1 3 False]) score_rows
      = Inr board"
    by (simp add: row_eval score_rows_def Let_def score_agent_def score_row_def pack_score_entry_def
        pack_score_def)
  then obtain board where b: "and_then (tier_rows [plain_row 0 ''a'' 1 5 False, plain_row 0 ''b'' 1 3 False])
      score_rows = Inr board" ..
  show ?thesis using b scoreboard_order_independent[OF b, of "[plain_row 0 ''b'' 1 3 False, plain_row 0 ''a'' 1 5 False]"]
    by simp
qed


end
