(* ===== verification/Report_Tables.thy ===== *)
theory Report_Tables
  imports Compare
begin

text \<open>
  The surfaces of \<open>report/compare.py\<close> and \<open>report/score.py\<close>: the tables, in which every column
  is padded to its widest cell, and the receipts.
\<close>

section \<open>Labels\<close>

definition MEMORIZATION_CAVEAT :: string where
  "MEMORIZATION_CAVEAT = ''Memorization caveat: historical scenarios may be recognized from '' @
     ''pretrained knowledge, price action, and venue-constant era '' @
     ''fingerprinting (including funding caps or floors, fee tier, tick size, '' @
     ''quantity step, and minimum notional).''"

definition EVIDENCE_LIMIT :: string where
  "EVIDENCE_LIMIT = ''This artifact is survival/stress evidence only; it does not establish '' @
     ''predictive capability or future performance.''"

definition TIER_LEGEND :: ustring where
  "TIER_LEGEND = ascii (''Tiers are relative to the baselines in each pack group. GMI: survived '' @
     ''with executed fills and a net return above every surviving baseline '' @
     ''under both cost profiles; a killed baseline's paper return does not '' @
     ''set the bar. NGMI: liquidated or killed flat. Baselines, flat-holds, '' @
     ''and packs without baselines are untiered ('') @ EM_DASH @ ascii '').''"

definition SCORE_LEGEND :: ustring where
  "SCORE_LEGEND = ascii ''WAGMI Score v0: per pack '' @ EM_DASH @
     ascii ('' 0 liquidated/killed, 25 flat-hold '' @
     ''survival, 50 engaged survival, 75 engaged survival with positive net '' @
     ''return under both cost profiles, 100 GMI (above every surviving '' @
     ''baseline under both profiles). Agent score = mean over the full '' @
     show_nat CATALOG_PACK_COUNT @ ''-pack catalog; unattempted packs count zero.'')"

section \<open>Text\<close>

definition ljust :: "nat \<Rightarrow> ustring \<Rightarrow> ustring" where
  "ljust width s = s @ replicate (width - length s) 32"

definition rjust :: "nat \<Rightarrow> ustring \<Rightarrow> ustring" where
  "rjust width s = replicate (width - length s) 32 @ s"

fun join_with :: "ustring \<Rightarrow> ustring list \<Rightarrow> ustring" where
  "join_with sep [] = []"
| "join_with sep [x] = x"
| "join_with sep (x # y # ys) = x @ sep @ join_with sep (y # ys)"

definition rstrip :: "ustring \<Rightarrow> ustring" where
  "rstrip s = rev (dropWhile (\<lambda>c. c = 32) (rev s))"

definition lines_text :: "ustring list \<Rightarrow> ustring" where
  "lines_text ls = join_with [10] ls @ [10]"

text \<open>\<open>needle in text\<close>.\<close>

fun occurs_in :: "ustring \<Rightarrow> ustring \<Rightarrow> bool" where
  "occurs_in needle [] \<longleftrightarrow> needle = []"
| "occurs_in needle (c # s) \<longleftrightarrow> take (length needle) (c # s) = needle \<or> occurs_in needle s"

section \<open>The comparison table\<close>

definition HEADERS :: "ustring list" where
  "HEADERS = map ascii [''AGENT'', ''VERDICT'', ''TIER'', ''FILLS'', ''MAX DD'', ''MAX DD 2X'', ''TURNOVER'',
     ''NET RETURN'', ''NET RETURN 2X'']"

definition row_cells :: "ComparisonRow \<Rightarrow> ustring list" where
  "row_cells r = [cr_agent r, cr_verdict r, cr_tier r, ascii (show_nat (cr_fills r)),
     ascii (cr_max_dd_primary r), ascii (cr_max_dd_stress_2x r), ascii (cr_turnover_primary r),
     ascii (cr_net_return_primary r), ascii (cr_net_return_stress_2x r)]"

definition column_widths :: "ustring list list \<Rightarrow> nat list" where
  "column_widths rows = map (\<lambda>k. Max (set (map (\<lambda>r. length (r ! k)) rows))) [0..<length HEADERS]"

text \<open>
  A shown cell holds no tab or other white space but blanks at its end, so \<open>rstrip\<close> only has
  blanks to remove.
\<close>

definition format_line :: "nat list \<Rightarrow> ustring list \<Rightarrow> ustring" where
  "format_line widths cells = rstrip (join_with [32, 32] (map (\<lambda>(w, c). ljust w c) (zip widths cells)))"

definition comparison_lines :: "ComparisonRow list \<Rightarrow> ustring list" where
  "comparison_lines rows =
     (let widths = column_widths (HEADERS # map row_cells rows); header = format_line widths HEADERS in
      [ascii ''WAGMI BENCH COMPARISON'', ascii (''claim_label: '' @ CLAIM_LABEL), []]
    @ concat (map (\<lambda>(pack, pack_rows).
         [ascii ''PACK '' @ pack, header] @ map (\<lambda>r. format_line widths (row_cells r)) pack_rows @ [[]])
         (pack_groups rows))
    @ [TIER_LEGEND, [], ascii (''claim_label: '' @ CLAIM_LABEL), ascii MEMORIZATION_CAVEAT,
       ascii EVIDENCE_LIMIT, [], ascii ''EVIDENCE ROOTS'']
    @ map (\<lambda>r. cr_pack r @ ascii '' / '' @ cr_agent r @ ascii '': '' @ ascii (cr_bundle_root r)) rows)"

definition assert_labels :: "ustring list \<Rightarrow> ustring \<Rightarrow> ustring result" where
  "assert_labels labels text =
     (if list_all (\<lambda>label. occurs_in label text) labels then Inr text
      else Inl (ReportError ''surface lost a required label or caveat''))"

definition render_comparison_table :: "verifier \<Rightarrow> node list \<Rightarrow> ustring result" where
  "render_comparison_table env bundles =
     and_then (load_comparison_rows env bundles) (\<lambda>rows.
     assert_labels [ascii CLAIM_LABEL, ascii MEMORIZATION_CAVEAT, ascii EVIDENCE_LIMIT, TIER_LEGEND]
       (lines_text (comparison_lines rows)))"

definition row_document :: "ComparisonRow \<Rightarrow> ustring json" where
  "row_document r = JObj
     [(ascii ''pack'', JStr (cr_pack r)), (ascii ''agent'', JStr (cr_agent r)),
      (ascii ''verdict'', JStr (cr_verdict r)), (ascii ''tier'', JStr (cr_tier r)),
      (ascii ''fills'', JInt (int (cr_fills r))),
      (ascii ''max_dd_primary'', utext (cr_max_dd_primary r)),
      (ascii ''max_dd_stress_2x'', utext (cr_max_dd_stress_2x r)),
      (ascii ''turnover_primary'', utext (cr_turnover_primary r)),
      (ascii ''net_return_primary'', utext (cr_net_return_primary r)),
      (ascii ''net_return_stress_2x'', utext (cr_net_return_stress_2x r)),
      (ascii ''net_return_primary_1e8'', JInt (cr_net_return_primary_1e8 r)),
      (ascii ''net_return_stress_2x_1e8'', JInt (cr_net_return_stress_2x_1e8 r)),
      (ascii ''survival_verdict'', JStr (cr_survival_verdict r)),
      (ascii ''is_baseline'', JBool (cr_is_baseline r)),
      (ascii ''bundle_root'', utext (cr_bundle_root r))]"

definition build_comparison_receipt :: "verifier \<Rightarrow> node list \<Rightarrow> ustring json result" where
  "build_comparison_receipt env bundles =
     and_then (load_comparison_rows env bundles) (\<lambda>rows.
     Inr (JObj [(ascii ''schema'', utext ''compare_receipt/v1''), (ascii ''claim_label'', utext CLAIM_LABEL),
       (ascii ''tier_legend'', JStr TIER_LEGEND), (ascii ''memorization_caveat'', utext MEMORIZATION_CAVEAT),
       (ascii ''evidence_limit'', utext EVIDENCE_LIMIT), (ascii ''rows'', JArr (map row_document rows))]))"

section \<open>The score table\<close>

text \<open>A score of hundredths with two decimals, and as the shortest decimal that reads back.\<close>

definition two_places :: "nat \<Rightarrow> string" where
  "two_places n = show_nat (n div 100) @ ''.'' @ show_nat (n mod 100 div 10) @ show_nat (n mod 10)"

definition shortest_places :: "nat \<Rightarrow> string" where
  "shortest_places n =
     (if n mod 10 = 0 then show_nat (n div 100) @ ''.'' @ show_nat (n mod 100 div 10) else two_places n)"

definition score_lines :: "AgentScore list \<Rightarrow> ustring list" where
  "score_lines scoreboard =
     (let width = max (Max (set (map (\<lambda>a. length (as_agent a)) scoreboard))) 5 in
      [ascii ''WAGMI SCORE v0'', ascii (''claim_label: '' @ CLAIM_LABEL), [],
       ljust width (ascii ''AGENT'') @ ascii ''  SCORE   PACKS'']
    @ map (\<lambda>a. ljust width (as_agent a) @ ascii ''  '' @ rjust 6 (ascii (two_places (as_wagmi_score a))) @
         ascii (''  '' @ show_nat (as_packs_attempted a) @ ''/'' @ show_nat CATALOG_PACK_COUNT)) scoreboard
    @ [[], SCORE_LEGEND, [], ascii (''claim_label: '' @ CLAIM_LABEL), ascii MEMORIZATION_CAVEAT,
       ascii EVIDENCE_LIMIT])"

definition render_score_table :: "verifier \<Rightarrow> node list \<Rightarrow> ustring result" where
  "render_score_table env bundles =
     and_then (build_scoreboard env bundles) (\<lambda>scoreboard.
     assert_labels [ascii CLAIM_LABEL, ascii MEMORIZATION_CAVEAT, ascii EVIDENCE_LIMIT]
       (lines_text (score_lines scoreboard)))"

definition pack_score_document :: "PackScore \<Rightarrow> ustring json" where
  "pack_score_document s = JObj
     [(ascii ''pack'', JStr (ps_pack s)), (ascii ''score'', JInt (int (ps_score s))),
      (ascii ''verdict'', JStr (ps_verdict s)), (ascii ''tier'', JStr (ps_tier s)),
      (ascii ''fills'', JInt (int (ps_fills s))), (ascii ''bundle_root'', utext (ps_bundle_root s))]"

definition build_score_receipt :: "verifier \<Rightarrow> node list \<Rightarrow> ustring json result" where
  "build_score_receipt env bundles =
     and_then (build_scoreboard env bundles) (\<lambda>scoreboard.
     Inr (JObj [(ascii ''schema'', utext ''wagmi_score_receipt/v0''), (ascii ''claim_label'', utext CLAIM_LABEL),
       (ascii ''score_legend'', JStr SCORE_LEGEND), (ascii ''memorization_caveat'', utext MEMORIZATION_CAVEAT),
       (ascii ''evidence_limit'', utext EVIDENCE_LIMIT),
       (ascii ''catalog_pack_count'', JInt (int CATALOG_PACK_COUNT)),
       (ascii ''agents'', JArr (map (\<lambda>a. JObj
          [(ascii ''agent'', JStr (as_agent a)), (ascii ''wagmi_score'', JFloat (ascii (shortest_places (as_wagmi_score a)))),
           (ascii ''packs_attempted'', JInt (int (as_packs_attempted a))),
           (ascii ''pack_scores'', JArr (map pack_score_document (as_pack_scores a)))]) scoreboard))]))"

section \<open>The required labels are never lost\<close>

lemma occurs_in_prefix: "occurs_in needle (needle @ s)"
  by (cases needle; cases s) (auto simp: take_Cons')

lemma occurs_in_append: "occurs_in needle t \<Longrightarrow> occurs_in needle (s @ t)"
  by (induction s) simp_all

lemma occurs_in_after: "occurs_in needle s \<Longrightarrow> occurs_in needle (s @ t)"
proof (induction s)
  case Nil
  then show ?case by (cases t) auto
next
  case (Cons c s)
  then show ?case
  proof (cases "take (length needle) (c # s) = needle")
    case True
    then have "length needle \<le> length (c # s)" by (metis length_take min.cobounded1 min_def)
    then have "take (length needle) ((c # s) @ t) = take (length needle) (c # s)"
      by (simp only: take_append) simp
    with True show ?thesis by simp
  qed auto
qed

lemma occurs_in_join: "\<exists>l \<in> set ls. occurs_in needle l \<Longrightarrow> occurs_in needle (join_with sep ls)"
  by (induction sep ls rule: join_with.induct) (auto intro: occurs_in_after occurs_in_append)

lemma occurs_in_lines: "l \<in> set ls \<Longrightarrow> occurs_in needle l \<Longrightarrow> occurs_in needle (lines_text ls)"
  unfolding lines_text_def by (intro occurs_in_after occurs_in_join) blast

lemma occurs_in_self: "occurs_in s s"
  using occurs_in_prefix[of s "[]"] by simp

lemma comparison_labels_kept:
  "assert_labels [ascii CLAIM_LABEL, ascii MEMORIZATION_CAVEAT, ascii EVIDENCE_LIMIT, TIER_LEGEND]
     (lines_text (comparison_lines rows)) = Inr (lines_text (comparison_lines rows))"
proof -
  have "occurs_in l (lines_text (comparison_lines rows))"
    if "l \<in> {ascii MEMORIZATION_CAVEAT, ascii EVIDENCE_LIMIT, TIER_LEGEND}" for l
    using that by (intro occurs_in_lines[of l] occurs_in_self) (auto simp: comparison_lines_def Let_def)
  moreover have "occurs_in (ascii CLAIM_LABEL) (lines_text (comparison_lines rows))"
    by (rule occurs_in_lines[of "ascii (''claim_label: '' @ CLAIM_LABEL)"])
       (simp_all add: comparison_lines_def Let_def ascii_def occurs_in_append occurs_in_self del: occurs_in.simps append.simps)
  ultimately show ?thesis by (simp add: assert_labels_def)
qed

lemma score_labels_kept:
  "assert_labels [ascii CLAIM_LABEL, ascii MEMORIZATION_CAVEAT, ascii EVIDENCE_LIMIT]
     (lines_text (score_lines board)) = Inr (lines_text (score_lines board))"
proof -
  have "occurs_in l (lines_text (score_lines board))"
    if "l \<in> {ascii MEMORIZATION_CAVEAT, ascii EVIDENCE_LIMIT}" for l
    using that by (intro occurs_in_lines[of l] occurs_in_self) (auto simp: score_lines_def Let_def)
  moreover have "occurs_in (ascii CLAIM_LABEL) (lines_text (score_lines board))"
    by (rule occurs_in_lines[of "ascii (''claim_label: '' @ CLAIM_LABEL)"])
       (simp_all add: score_lines_def Let_def ascii_def occurs_in_append occurs_in_self del: occurs_in.simps append.simps)
  ultimately show ?thesis by (simp add: assert_labels_def)
qed

end
